(* ===== verification/Prelude.thy ===== *)
theory Prelude
  imports Main "HOL-Library.Word"
begin

unbundle bit_operations_syntax

text \<open>
  Shared vocabulary of the development: the machine integer types of the C and C++ sources
  as words of fixed width, the byte view of a quadword that the byte-manipulation, UART and
  snapshot proofs share, generic facts on bits and lists, and the collections of rewrite
  rules the component theories extend.
\<close>

section \<open>Machine integers\<close>

type_synonym u8 = "8 word"
type_synonym u16 = "16 word"
type_synonym u32 = "32 word"
type_synonym u64 = "64 word"

named_theorems byte_defs \<open>definitions of the byte-manipulation helpers\<close>
named_theorems int_defs \<open>definitions of the integer helpers\<close>
named_theorems pte_defs \<open>definitions of the page-table-entry accessors\<close>
named_theorems tlb_defs \<open>definitions of the translation-buffer operations\<close>
named_theorems uart_defs \<open>definitions of the UART register operations\<close>
named_theorems pic_defs \<open>definitions of the interrupt-controller operations\<close>

section \<open>Bits and bytes of a quadword\<close>

definition byte_at :: "nat \<Rightarrow> u64 \<Rightarrow> u8" where
  "byte_at i w = ucast (drop_bit (8 * i) w)"

lemma bit_byte_at_iff [bit_simps]:
  "bit (byte_at i w) n \<longleftrightarrow> n < 8 \<and> bit w (8 * i + n)"
  by (auto simp: byte_at_def bit_simps)

lemma byte_at_eqI:
  assumes "\<And>i. i < 8 \<Longrightarrow> byte_at i v = byte_at i w"
  shows "v = w"
proof (rule bit_word_eqI)
  fix n assume "n < LENGTH(64)"
  then have "n div 8 < 8" by simp
  then have "bit (byte_at (n div 8) v) (n mod 8) = bit (byte_at (n div 8) w) (n mod 8)"
    using assms by simp
  then show "bit v n = bit w n" by (simp add: bit_byte_at_iff)
qed

text \<open>A mask test of one bit, the way the C code writes it.\<close>

lemma and_exp_neq_0_iff [simp]:
  fixes w :: "'a::len word"
  shows "(w AND 2 ^ n \<noteq> 0) \<longleftrightarrow> bit w n"
proof -
  have "w AND 2 ^ n = (if bit w n then 2 ^ n else 0)"
    by (rule bit_word_eqI) (auto simp: bit_simps)
  then show ?thesis
    by (auto simp: bit_eq_iff bit_simps dest: bit_imp_le_length)
qed

lemma and_exp_eq_0_iff [simp]:
  fixes w :: "'a::len word"
  shows "(w AND 2 ^ n = 0) \<longleftrightarrow> \<not> bit w n"
  using and_exp_neq_0_iff [of w n] by blast

text \<open>The byte, word and longword masks of the sources, bit by bit.\<close>

lemma bit_nat_mask_consts [simp]:
  "bit (3 :: nat) n \<longleftrightarrow> n < 2"
  "bit (7 :: nat) n \<longleftrightarrow> n < 3"
  "bit (0xF :: nat) n \<longleftrightarrow> n < 4"
  "bit (0x1FFF :: nat) n \<longleftrightarrow> n < 13"
  "bit (0xFF :: nat) n \<longleftrightarrow> n < 8"
  "bit (0xFFFF :: nat) n \<longleftrightarrow> n < 16"
  "bit (0xFFFFFFFF :: nat) n \<longleftrightarrow> n < 32"
  using bit_mask_iff [of 2 n, where ?'a = nat] bit_mask_iff [of 3 n, where ?'a = nat]
    bit_mask_iff [of 4 n, where ?'a = nat] bit_mask_iff [of 13 n, where ?'a = nat]
    bit_mask_iff [of 8 n, where ?'a = nat] bit_mask_iff [of 16 n, where ?'a = nat]
    bit_mask_iff [of 32 n, where ?'a = nat]
  by (simp_all add: mask_numeral flip: numeral_3_eq_3)

lemma bit_int_mask_consts [simp]:
  "bit (3 :: int) n \<longleftrightarrow> n < 2"
  "bit (7 :: int) n \<longleftrightarrow> n < 3"
  "bit (0xF :: int) n \<longleftrightarrow> n < 4"
  "bit (0x1FFF :: int) n \<longleftrightarrow> n < 13"
  "bit (0xFF :: int) n \<longleftrightarrow> n < 8"
  "bit (0xFFFF :: int) n \<longleftrightarrow> n < 16"
  "bit (0xFFFFFFFF :: int) n \<longleftrightarrow> n < 32"
  using bit_mask_iff [of 2 n, where ?'a = int] bit_mask_iff [of 3 n, where ?'a = int]
    bit_mask_iff [of 4 n, where ?'a = int] bit_mask_iff [of 13 n, where ?'a = int]
    bit_mask_iff [of 8 n, where ?'a = int] bit_mask_iff [of 16 n, where ?'a = int]
    bit_mask_iff [of 32 n, where ?'a = int]
  by (simp_all add: mask_numeral)

text \<open>A value masked to its low bits, read as a number.\<close>

lemma unat_and_le:
  fixes v :: "'a::len word"
  shows "unat (v AND m) \<le> unat m"
  by (rule word_and_le1 [THEN word_le_nat_alt [THEN iffD1]])

lemma bit_u8_out: "8 \<le> n \<Longrightarrow> \<not> bit (w :: u8) n"
  using bit_imp_le_length [of w n] by auto

lemma bit_u64_out: "64 \<le> n \<Longrightarrow> \<not> bit (w :: u64) n"
  using bit_imp_le_length [of w n] by auto

lemma and_all_ones: "(v :: u64) AND 0xFFFFFFFFFFFFFFFF = v"
proof -
  have "(0xFFFFFFFFFFFFFFFF :: u64) = - 1" by simp
  then show ?thesis by (metis and.right_neutral)
qed

lemma unat_ucast_u8: "unat (ucast (k :: u8) :: u64) = unat k"
  using unsigned_less [of k, where ?'a = nat]
  by (simp add: unsigned_ucast_eq take_bit_nat_eq_self_iff)

text \<open>Lists of known length, for the fixed-size C arrays.\<close>

lemma list8: "length bs = 8 \<Longrightarrow> \<exists>a b c d e f g h. bs = [a, b, c, d, e, f, g, h]"
  by (auto simp: numeral_eq_Suc length_Suc_conv)

lemma bit_unat: "bit (unat (v :: 'a::len word)) n = bit v n"
  by (auto simp: bit_unsigned_iff)

lemma unat_power_eq: "unat (v :: 'a::len word) = 2 ^ k \<Longrightarrow> v = 2 ^ k"
  using bit_unat [of v] by (intro bit_word_eqI) (auto simp: bit_exp_iff bit_simps)

lemma unat_and_1: "unat ((m :: 'a::len word) AND 1) = (if bit m 0 then 1 else 0)"
proof -
  have "m AND 1 = (if bit m 0 then 1 else 0)"
    by (simp add: and_one_eq mod2_eq_if bit_0)
  then show ?thesis by simp
qed

lemma unat_of_nat_small: "n < 2 ^ 64 \<Longrightarrow> unat (of_nat n :: u64) = n"
  by (simp add: unsigned_of_nat take_bit_nat_eq_self_iff)

end
