(* ===== verification/Inflate.thy ===== *)
theory Inflate
  imports Prelude
begin

text \<open>
  The firmware decompressor, tools/host\_decompressor/src/inflate.c, in the host build (the
  one without the symbol ROM, linked with oracle.c): the byte and bit reader, the sliding
  window, the Huffman table builder and the three block decoders, in the order of the source.

  The globals of the C file are one record.  The bytes at inptr are a list; outptr is the
  list of bytes written so far, in a buffer of outcap bytes.  Every table that huft\_build
  allocates is an element of heap, with the link that its dummy first entry holds, and a
  freed table is None.  malloc succeeds mallocs more times.  A C function that returns a code
  returns the code and the new globals; a run that C leaves undefined is a fault, so that a
  theorem with a result excludes it.  The loops whose number of iterations the input decides
  take fuel.  The widths are those of a build where long has 64 bits (compressedSize is the long
  csize, bb the unsigned long bit buffer); where long has 32 bits the bit buffer is narrower and a
  compressed size from 2 to the 31 on is negative, which is not modelled.  memcpy is that of the C
  library, on areas that do not overlap.
\<close>

section \<open>Faults\<close>

datatype fault = NullPointer | OutOfBounds | Overlap | Uninitialised | UseAfterFree | OutOfFuel

fun bindE :: "fault + 'a \<Rightarrow> ('a \<Rightarrow> fault + 'b) \<Rightarrow> fault + 'b" where
  "bindE (Inl f) k = Inl f"
| "bindE (Inr a) k = k a"

lemma bindE_cong [fundef_cong]:
  "m = m' \<Longrightarrow> (\<And>a. m' = Inr a \<Longrightarrow> k a = k' a) \<Longrightarrow> bindE m k = bindE m' k'"
  by (cases m') auto

lemma bindE_Inr_iff: "bindE m k = Inr b \<longleftrightarrow> (\<exists>a. m = Inr a \<and> k a = Inr b)"
  by (cases m) auto

definition nthE :: "'a list \<Rightarrow> nat \<Rightarrow> fault + 'a" where
  "nthE xs i = (if i < length xs then Inr (xs ! i) else Inl OutOfBounds)"

definition updE :: "'a list \<Rightarrow> nat \<Rightarrow> 'a \<Rightarrow> fault + 'a list" where
  "updE xs i a = (if i < length xs then Inr (xs[i := a]) else Inl OutOfBounds)"

fun theE :: "'a option \<Rightarrow> fault \<Rightarrow> fault + 'a" where
  "theE None f = Inl f"
| "theE (Some a) f = Inr a"

section \<open>Data\<close>

datatype huft_v = N u16 | T "nat option" | V0

record huft =
  huft_e :: u8
  huft_b :: u8
  huft_v :: huft_v

record Tab =
  link :: "nat option"
  entries :: "huft option list"

record Inf =
  compressedSize :: int
  inptr :: "u8 list"
  bytebuf :: u16
  bb :: u64
  bk :: nat
  wp :: nat
  slide :: "u8 list"
  outptr :: "u8 list"
  outcap :: nat
  heap :: "Tab option list"
  mallocs :: nat
  hufts :: nat

definition WSIZE :: nat where "WSIZE = 0x8000"
definition BMAX :: nat where "BMAX = 16"
definition N_MAX :: nat where "N_MAX = 288"
definition lbits :: nat where "lbits = 9"
definition dbits :: nat where "dbits = 6"

definition mask_bits :: "u16 list" where
  "mask_bits = [0x0000,
     0x0001, 0x0003, 0x0007, 0x000f, 0x001f, 0x003f, 0x007f, 0x00ff,
     0x01ff, 0x03ff, 0x07ff, 0x0fff, 0x1fff, 0x3fff, 0x7fff, 0xffff]"

definition border :: "nat list" where
  "border = [16, 17, 18, 0, 8, 7, 9, 6, 10, 5, 11, 4, 12, 3, 13, 2, 14, 1, 15]"

definition cplens :: "u16 list" where
  "cplens = [3, 4, 5, 6, 7, 8, 9, 10, 11, 13, 15, 17, 19, 23, 27, 31,
     35, 43, 51, 59, 67, 83, 99, 115, 131, 163, 195, 227, 258, 0, 0]"

definition cplext :: "u16 list" where
  "cplext = [0, 0, 0, 0, 0, 0, 0, 0, 1, 1, 1, 1, 2, 2, 2, 2,
     3, 3, 3, 3, 4, 4, 4, 4, 5, 5, 5, 5, 0, 99, 99]"

definition cpdist :: "u16 list" where
  "cpdist = [1, 2, 3, 4, 5, 7, 9, 13, 17, 25, 33, 49, 65, 97, 129, 193,
     257, 385, 513, 769, 1025, 1537, 2049, 3073, 4097, 6145, 8193, 12289, 16385, 24577]"

definition cpdext :: "u16 list" where
  "cpdext = [0, 0, 0, 0, 1, 1, 2, 2, 3, 3, 4, 4, 5, 5, 6, 6,
     7, 7, 8, 8, 9, 9, 10, 10, 11, 11, 12, 12, 13, 13]"

section \<open>Reading bytes and bits\<close>

definition ReadByte :: "Inf \<Rightarrow> fault + Inf" where
  "ReadByte s =
     (if compressedSize s \<le> 0 then Inr (s\<lparr>compressedSize := compressedSize s - 1\<rparr>)
      else case inptr s of
             [] \<Rightarrow> Inl OutOfBounds
           | x # xs \<Rightarrow> Inr (s\<lparr>compressedSize := compressedSize s - 1, inptr := xs, bytebuf := ucast x\<rparr>))"

function NEEDBITS :: "nat \<Rightarrow> Inf \<Rightarrow> fault + Inf" where
  "NEEDBITS n s =
     (if bk s < n
      then case ReadByte s of
             Inl f \<Rightarrow> Inl f
           | Inr s' \<Rightarrow> NEEDBITS n (s'\<lparr>bb := bb s' OR push_bit (bk s') (ucast (bytebuf s')),
                                      bk := bk s' + 8\<rparr>)
      else Inr s)"
  by pat_completeness auto
termination
  by (relation "measure (\<lambda>(n, s). n - bk s)") (auto simp: ReadByte_def split: if_splits list.splits)

definition DUMPBITS :: "nat \<Rightarrow> Inf \<Rightarrow> Inf" where
  "DUMPBITS n s =
     s\<lparr>bb := drop_bit n (bb s), bk := (if n \<le> bk s then bk s - n else bk s + 2 ^ 32 - n)\<rparr>"

definition low32 :: "Inf \<Rightarrow> u32" where
  "low32 s = ucast (bb s)"

definition peek :: "u16 \<Rightarrow> Inf \<Rightarrow> nat" where
  "peek m s = unat (low32 s AND ucast m)"

section \<open>The sliding window\<close>

fun memcpy :: "nat \<Rightarrow> nat \<Rightarrow> nat \<Rightarrow> u8 list \<Rightarrow> u8 list" where
  "memcpy dest source 0 m = m"
| "memcpy dest source (Suc size') m = memcpy (Suc dest) (Suc source) size' (m[dest := m ! source])"

definition flush :: "nat \<Rightarrow> Inf \<Rightarrow> fault + Inf" where
  "flush w s =
     (if length (outptr s) + w \<le> outcap s then Inr (s\<lparr>outptr := outptr s @ take w (slide s)\<rparr>)
      else Inl OutOfBounds)"

definition putWindow :: "u8 \<Rightarrow> Inf \<Rightarrow> fault + Inf" where
  "putWindow c s =
     bindE (updE (slide s) (wp s) c) (\<lambda>sl.
       let s = s\<lparr>slide := sl, wp := wp s + 1\<rparr>
       in if wp s = WSIZE then bindE (flush (wp s) s) (\<lambda>s. Inr (s\<lparr>wp := 0\<rparr>)) else Inr s)"

fun slowCopy :: "nat \<Rightarrow> nat \<Rightarrow> nat \<Rightarrow> u8 list \<Rightarrow> u8 list" where
  "slowCopy w d 0 m = m"
| "slowCopy w d (Suc e) m =
     (let m = m[w := m ! d] in if e = 0 then m else slowCopy (Suc w) (Suc d) e m)"

text \<open>
  One pass of the copy loop.  The C library leaves a memcpy of overlapping regions undefined;
  the subtraction w - d is the unsigned one.  A position outside the window is a fault.
\<close>

definition copyStep :: "nat \<Rightarrow> nat \<Rightarrow> Inf \<Rightarrow> fault + (nat \<times> nat \<times> Inf)" where
  "copyStep n d s =
     (let d = d mod WSIZE;
          w = wp s;
          e = WSIZE - (if d > w then d else w);
          e = (if e > n then n else e);
          n = n - e
      in if w \<ge> WSIZE then Inl OutOfBounds
         else if (int w - int d) mod 2 ^ 32 \<ge> int e \<and> e > 0 \<and> w < d + e \<and> d < w + e then Inl Overlap
         else let sl = (if (int w - int d) mod 2 ^ 32 \<ge> int e then memcpy w d e (slide s)
                        else slowCopy w d e (slide s));
                  s = s\<lparr>slide := sl, wp := w + e\<rparr>
              in if wp s = WSIZE then bindE (flush (wp s) s) (\<lambda>s. Inr (n, d + e, s\<lparr>wp := 0\<rparr>))
                 else Inr (n, d + e, s))"

lemma copyStep_less:
  "copyStep n d s = Inr (n', d', s') \<Longrightarrow> n' \<noteq> 0 \<Longrightarrow> n' < n"
  by (auto simp: copyStep_def Let_def flush_def WSIZE_def split: if_splits)

function copyLoop :: "nat \<Rightarrow> nat \<Rightarrow> Inf \<Rightarrow> fault + Inf" where
  "copyLoop n d s =
     (case copyStep n d s of
        Inl f \<Rightarrow> Inl f
      | Inr (n', d', s') \<Rightarrow> if n' = 0 then Inr s' else copyLoop n' d' s')"
  by pat_completeness auto
termination
  by (relation "measure (\<lambda>(n, d, s). n)") (auto dest: copyStep_less)

section \<open>Huffman tables\<close>

text \<open>
  The locals of huft\_build that change in its main loop: the code i, the index p into the
  values, the level h and the bits w before the current table, the entries z of the current
  table, the current table q, the entry r under construction, the table stack u, the offsets
  and code stack x, and where the next table is linked (None: the caller's pointer).
\<close>

record HB =
  hb_i :: u32
  hb_p :: nat
  hb_h :: int
  hb_w :: int
  hb_z :: nat
  hb_q :: "nat option"
  hb_r :: huft
  hb_u :: "nat option list"
  hb_x :: "nat list"
  hb_t :: "nat option"
  hb_result :: "nat option"

fun countLengths :: "nat list \<Rightarrow> nat list \<Rightarrow> fault + nat list" where
  "countLengths [] c = Inr c"
| "countLengths (l # ls) c =
     (if l < length c then countLengths ls (c[l := c ! l + 1]) else Inl OutOfBounds)"

fun scanUp :: "nat \<Rightarrow> nat list \<Rightarrow> nat" where
  "scanUp j [] = j"
| "scanUp j (x # xs) = (if x \<noteq> 0 then j else scanUp (j + 1) xs)"

fun scanDown :: "nat \<Rightarrow> nat list \<Rightarrow> nat" where
  "scanDown 0 c = 0"
| "scanDown (Suc i) c = (if c ! Suc i \<noteq> 0 then Suc i else scanDown i c)"

function dummyCodes :: "nat \<Rightarrow> nat \<Rightarrow> int \<Rightarrow> nat list \<Rightarrow> int option" where
  "dummyCodes j i y c =
     (if j < i then (let y = y - int (c ! j) in if y < 0 then None else dummyCodes (j + 1) i (y * 2) c)
      else let y = y - int (c ! i) in if y < 0 then None else Some y)"
  by pat_completeness auto
termination by (relation "measure (\<lambda>(j, i, y, c). i - j)") auto

fun offsets :: "nat \<Rightarrow> nat \<Rightarrow> nat list \<Rightarrow> nat list \<Rightarrow> nat list" where
  "offsets 0 j c x = x"
| "offsets (Suc i) j c x =
     (let pos = length x; j = j + c ! (pos - 1) in offsets i j c (x @ [j]))"

fun sortValues :: "nat list \<Rightarrow> nat \<Rightarrow> nat list \<Rightarrow> nat option list \<Rightarrow> fault + (nat list \<times> nat option list)" where
  "sortValues [] i x v = Inr (x, v)"
| "sortValues (j # js) i x v =
     (if j \<noteq> 0
      then bindE (updE v (x ! j) (Some i)) (\<lambda>v. sortValues js (i + 1) (x[j := x ! j + 1]) v)
      else sortValues js (i + 1) x v)"

function tableBits :: "nat \<Rightarrow> nat \<Rightarrow> nat \<Rightarrow> nat \<Rightarrow> nat list \<Rightarrow> nat" where
  "tableBits j z f xp c =
     (let j = j + 1
      in if j < z
         then let f = 2 * f; xp = xp + 1
              in if f \<le> c ! xp then j else tableBits j z (f - c ! xp) xp c
         else j)"
  by pat_completeness auto
termination by (relation "measure (\<lambda>(j, z, f, xp, c). z - j)") auto

definition chooseBits :: "nat \<Rightarrow> nat \<Rightarrow> nat \<Rightarrow> nat \<Rightarrow> nat \<Rightarrow> nat \<Rightarrow> nat list \<Rightarrow> nat" where
  "chooseBits k w l g a xp c =
     (let z = g - w;
          z = (if z > l then l else z);
          j = k - w;
          f = 2 ^ j
      in if f > a + 1 then tableBits j z (f - (a + 1)) xp c else j)"

definition getTab :: "nat option \<Rightarrow> Inf \<Rightarrow> fault + Tab" where
  "getTab t s =
     bindE (theE t NullPointer) (\<lambda>i. bindE (nthE (heap s) i) (\<lambda>t. theE t UseAfterFree))"

definition setTab :: "nat option \<Rightarrow> Tab \<Rightarrow> Inf \<Rightarrow> fault + Inf" where
  "setTab t tab s =
     bindE (theE t NullPointer) (\<lambda>i. Inr (s\<lparr>heap := (heap s)[i := Some tab]\<rparr>))"

definition putEntry :: "nat option \<Rightarrow> nat \<Rightarrow> huft \<Rightarrow> Inf \<Rightarrow> fault + Inf" where
  "putEntry t j r s =
     bindE (getTab t s) (\<lambda>tab.
     bindE (updE (entries tab) j (Some r)) (\<lambda>es. setTab t (tab\<lparr>entries := es\<rparr>) s))"

definition linkTab :: "nat option \<Rightarrow> nat option \<Rightarrow> Inf \<Rightarrow> fault + Inf" where
  "linkTab t q s =
     (if t = None then Inr s else bindE (getTab t s) (\<lambda>tab. setTab t (tab\<lparr>link := q\<rparr>) s))"

text \<open>Freeing walks the links; each step frees a live table, so that it ends.\<close>

definition live :: "Inf \<Rightarrow> nat" where
  "live s = length (filter (\<lambda>t. t \<noteq> None) (heap s))"

lemma filter_update_less:
  "i < length xs \<Longrightarrow> P (xs ! i) \<Longrightarrow> \<not> P a \<Longrightarrow> length (filter P (xs[i := a])) < length (filter P xs)"
  by (induction xs arbitrary: i) (auto split: nat.splits)

function huft_free :: "nat option \<Rightarrow> Inf \<Rightarrow> fault + Inf" where
  "huft_free p s =
     (case p of
        None \<Rightarrow> Inr s
      | Some i \<Rightarrow>
          (case getTab p s of
             Inl f \<Rightarrow> Inl f
           | Inr tab \<Rightarrow> huft_free (link tab) (s\<lparr>heap := (heap s)[i := None]\<rparr>)))"
  by pat_completeness auto

termination
proof (relation "measure (\<lambda>(p, s). live s)", simp, clarsimp)
  fix i s and tab :: Tab
  assume "getTab (Some i) s = Inr tab"
  then have "i < length (heap s)" "heap s ! i = Some tab"
    by (auto simp: getTab_def nthE_def split: if_splits elim!: theE.elims bindE.elims)
  then show "live (s\<lparr>heap := (heap s)[i := None]\<rparr>) < live s"
    by (simp add: live_def filter_update_less)
qed

declare huft_free.simps [simp del]

text \<open>
  The loop that makes tables up to the level of a k-bit code.  Inl 3 inside the result is the
  return for a failed allocation.
\<close>

definition newTable ::
  "nat \<Rightarrow> nat \<Rightarrow> nat \<Rightarrow> nat \<Rightarrow> nat list \<Rightarrow> HB \<Rightarrow> Inf \<Rightarrow> fault + ((nat + HB) \<times> Inf)" where
  "newTable k l g a c hb s =
     (let h = hb_h hb + 1;
          w = hb_w hb + int l;
          j = chooseBits k (nat w) l g a k c;
          z = 2 ^ j
      in if mallocs s = 0
         then (if h \<noteq> 0
               then bindE (nthE (hb_u hb) 0) (\<lambda>u0. bindE (huft_free u0 s) (\<lambda>s. Inr (Inl 3, s)))
               else Inr (Inl 3, s))
         else if h < 0 \<or> int BMAX \<le> h then Inl OutOfBounds
         else let q = Some (length (heap s));
                  s = s\<lparr>heap := heap s @ [Some \<lparr>link = None, entries = replicate z None\<rparr>],
                        mallocs := mallocs s - 1, hufts := hufts s + (z + 1)\<rparr>
              in bindE (linkTab (hb_t hb) q s) (\<lambda>s.
                 let hb = hb\<lparr>hb_h := h, hb_w := w, hb_z := z, hb_q := q,
                             hb_u := (hb_u hb)[nat h := q], hb_t := q,
                             hb_result := (if hb_t hb = None then q else hb_result hb)\<rparr>
                 in if h \<noteq> 0
                    then let r = \<lparr>huft_e = of_nat (16 + j), huft_b = of_nat l, huft_v = T q\<rparr>;
                             jj = unat (drop_bit (nat (w - int l)) (hb_i hb))
                         in bindE (putEntry (hb_u hb ! nat (h - 1)) jj r s) (\<lambda>s.
                              Inr (Inr (hb\<lparr>hb_r := r, hb_x := (hb_x hb)[nat h := unat (hb_i hb)]\<rparr>), s))
                    else Inr (Inr hb, s)))"

lemma newTable_level:
  "newTable k l g a c hb s = Inr (Inr hb', s') \<Longrightarrow> hb_h hb' = hb_h hb + 1 \<and> hb_h hb < int BMAX"
  by (auto simp: newTable_def Let_def bindE_Inr_iff split: if_splits)

function makeTables ::
  "nat \<Rightarrow> nat \<Rightarrow> nat \<Rightarrow> nat \<Rightarrow> nat list \<Rightarrow> HB \<Rightarrow> Inf \<Rightarrow> fault + ((nat + HB) \<times> Inf)" where
  "makeTables k l g a c hb s =
     (if int k > hb_w hb + int l
      then bindE (newTable k l g a c hb s) (\<lambda>(res, s).
             case res of
               Inl code \<Rightarrow> Inr (Inl code, s)
             | Inr hb \<Rightarrow> makeTables k l g a c hb s)
      else Inr (Inr hb, s))"
  by pat_completeness auto
termination
  by (relation "measure (\<lambda>(k, l, g, a, c, hb, s). nat (int BMAX - hb_h hb))")
     (auto dest: newTable_level)

definition makeEntry ::
  "nat \<Rightarrow> nat \<Rightarrow> nat \<Rightarrow> u16 list option \<Rightarrow> u16 list option \<Rightarrow> nat option list \<Rightarrow> HB \<Rightarrow> fault + HB" where
  "makeEntry k n simple d e v hb =
     (let r = (hb_r hb)\<lparr>huft_b := of_int (int k - hb_w hb)\<rparr>
      in if hb_p hb \<ge> n then Inr (hb\<lparr>hb_r := r\<lparr>huft_e := 99\<rparr>\<rparr>)
         else bindE (nthE v (hb_p hb)) (\<lambda>vp.
              bindE (theE vp Uninitialised) (\<lambda>val.
                if val < simple
                then Inr (hb\<lparr>hb_p := hb_p hb + 1,
                       hb_r := r\<lparr>huft_e := (if val < 256 then 16 else 15), huft_v := N (of_nat val)\<rparr>\<rparr>)
                else bindE (theE e NullPointer) (\<lambda>e.
                     bindE (nthE e (val - simple)) (\<lambda>ev.
                     bindE (theE d NullPointer) (\<lambda>d.
                     bindE (nthE d (val - simple)) (\<lambda>dv.
                       Inr (hb\<lparr>hb_p := hb_p hb + 1,
                              hb_r := r\<lparr>huft_e := ucast ev, huft_v := N dv\<rparr>\<rparr>))))))))"

function fillFrom :: "nat \<Rightarrow> nat \<Rightarrow> nat \<Rightarrow> huft \<Rightarrow> huft option list \<Rightarrow> huft option list" where
  "fillFrom j kw z r es = (if j < z then fillFrom (j + 2 ^ kw) kw z r (es[j := Some r]) else es)"
  by pat_completeness auto
termination by (relation "measure (\<lambda>(j, kw, z, r, es). z - j)") (auto intro!: diff_less_mono2)

definition fillEntries :: "nat \<Rightarrow> HB \<Rightarrow> Inf \<Rightarrow> fault + Inf" where
  "fillEntries k hb s =
     bindE (getTab (hb_q hb) s) (\<lambda>tab.
       if hb_z hb \<le> length (entries tab)
       then setTab (hb_q hb)
              (tab\<lparr>entries := fillFrom (unat (drop_bit (nat (hb_w hb)) (hb_i hb)))
                               (nat (int k - hb_w hb)) (hb_z hb) (hb_r hb) (entries tab)\<rparr>) s
       else Inl OutOfBounds)"

lemma half_less: "i AND j \<noteq> 0 \<Longrightarrow> unat (drop_bit 1 j) < unat j" for i j :: u32
proof -
  assume "i AND j \<noteq> 0"
  then have "unat j \<noteq> 0" by (metis and_zero_eq unat_eq_0)
  then show "unat (drop_bit 1 j) < unat j" by (simp add: drop_bit_eq_div unat_div)
qed

function backIncrement :: "u32 \<Rightarrow> u32 \<Rightarrow> u32" where
  "backIncrement i j = (if i AND j \<noteq> 0 then backIncrement (i XOR j) (drop_bit 1 j) else i XOR j)"
  by pat_completeness auto
termination
  by (relation "measure (\<lambda>(i, j). unat j)") (simp_all add: half_less del: One_nat_def)

function backUp :: "nat \<Rightarrow> HB \<Rightarrow> fault + HB" where
  "backUp l hb =
     (if hb_h hb < 0 \<or> hb_w hb < 0 then Inl OutOfBounds
      else if hb_h hb \<ge> int (length (hb_x hb)) then Inl OutOfBounds
      else if unat (hb_i hb AND (push_bit (nat (hb_w hb)) 1 - 1)) \<noteq> hb_x hb ! nat (hb_h hb)
      then backUp l (hb\<lparr>hb_h := hb_h hb - 1, hb_w := hb_w hb - int l\<rparr>)
      else Inr hb)"
  by pat_completeness auto
termination by (relation "measure (\<lambda>(l, hb). nat (hb_h hb + 1))") auto

fun codeLoop ::
  "nat \<Rightarrow> nat \<Rightarrow> nat \<Rightarrow> nat \<Rightarrow> nat \<Rightarrow> nat \<Rightarrow> nat list \<Rightarrow> u16 list option \<Rightarrow> u16 list option \<Rightarrow>
   nat option list \<Rightarrow> HB \<times> Inf \<Rightarrow> fault + ((nat + HB) \<times> Inf)" where
  "codeLoop 0 k l g n simple c d e v (hb, s) = Inr (Inr hb, s)"
| "codeLoop (Suc a) k l g n simple c d e v (hb, s) =
     bindE (makeTables k l g a c hb s) (\<lambda>(res, s).
       case res of
         Inl code \<Rightarrow> Inr (Inl code, s)
       | Inr hb \<Rightarrow>
           bindE (makeEntry k n simple d e v hb) (\<lambda>hb.
           bindE (fillEntries k hb s) (\<lambda>s.
           bindE (backUp l (hb\<lparr>hb_i := backIncrement (hb_i hb) (push_bit (k - 1) 1)\<rparr>)) (\<lambda>hb.
             codeLoop a k l g n simple c d e v (hb, s)))))"

fun lengthLoop ::
  "nat list \<Rightarrow> nat \<Rightarrow> nat \<Rightarrow> nat \<Rightarrow> nat \<Rightarrow> nat list \<Rightarrow> u16 list option \<Rightarrow> u16 list option \<Rightarrow>
   nat option list \<Rightarrow> HB \<times> Inf \<Rightarrow> fault + ((nat + HB) \<times> Inf)" where
  "lengthLoop [] l g n simple c d e v (hb, s) = Inr (Inr hb, s)"
| "lengthLoop (k # ks) l g n simple c d e v (hb, s) =
     bindE (codeLoop (c ! k) k l g n simple c d e v (hb, s)) (\<lambda>(res, s).
       case res of
         Inl code \<Rightarrow> Inr (Inl code, s)
       | Inr hb \<Rightarrow> lengthLoop ks l g n simple c d e v (hb, s))"

text \<open>
  The second half of huft\_build: the counts are adjusted by the y dummy codes, the values are
  sorted by length, and the tables are made for the lengths j to g.
\<close>

definition buildTables ::
  "nat list \<Rightarrow> nat \<Rightarrow> nat \<Rightarrow> u16 list option \<Rightarrow> u16 list option \<Rightarrow> nat \<Rightarrow> nat \<Rightarrow> nat \<Rightarrow> nat \<Rightarrow> nat list \<Rightarrow> Inf \<Rightarrow>
   fault + (nat \<times> nat option \<times> nat \<times> Inf)" where
  "buildTables b n simple d e l j g y c s =
     (let c = c[g := c ! g + y];
          x = offsets (g - 1) 0 c [0, 0];
          x = x @ replicate (BMAX + 1 - length x) 0
      in bindE (sortValues (take n b) 0 x (replicate N_MAX None)) (\<lambda>(x, v).
         let hb = \<lparr>hb_i = 0, hb_p = 0, hb_h = - 1, hb_w = - int l, hb_z = 0, hb_q = None,
                   hb_r = \<lparr>huft_e = 0, huft_b = 0, huft_v = V0\<rparr>,
                   hb_u = replicate BMAX None, hb_x = x[0 := 0], hb_t = None,
                   hb_result = None\<rparr>
         in bindE (lengthLoop [j..<g + 1] l g n simple c d e v (hb, s)) (\<lambda>(res, s).
              case res of
                Inl code \<Rightarrow> Inr (code, None, l, s)
              | Inr hb \<Rightarrow> Inr (if y \<noteq> 0 \<and> g \<noteq> 1 then 1 else 0, hb_result hb, l, s))))"

definition huft_build ::
  "nat list \<Rightarrow> nat \<Rightarrow> nat \<Rightarrow> u16 list option \<Rightarrow> u16 list option \<Rightarrow> nat \<Rightarrow> Inf \<Rightarrow>
   fault + (nat \<times> nat option \<times> nat \<times> Inf)" where
  "huft_build b n simple d e m s =
     (if n = 0 \<or> length b < n then Inl OutOfBounds
      else bindE (countLengths (take n b) (replicate (BMAX + 1) 0)) (\<lambda>c.
        if c ! 0 = n then Inr (0, None, 0, s)
        else let j = scanUp 1 (drop 1 c);
                 l = (if m < j then j else m);
                 g = scanDown BMAX c;
                 l = (if l > g then g else l)
             in case dummyCodes j g (2 ^ j) c of
                  None \<Rightarrow> Inr (2, None, l, s)
                | Some y \<Rightarrow> buildTables b n simple d e l j g (nat y) c s))"

section \<open>Decoding a block\<close>

text \<open>
  A decoder that returns an error leaves the globals wp, bb and bk as they were on entry:
  it works on local copies.
\<close>

definition restore :: "Inf \<Rightarrow> Inf \<Rightarrow> Inf" where
  "restore s0 s = s\<lparr>bb := bb s0, bk := bk s0, wp := wp s0\<rparr>"

definition entryAt :: "nat option \<Rightarrow> nat \<Rightarrow> Inf \<Rightarrow> fault + huft" where
  "entryAt t j s =
     bindE (getTab t s) (\<lambda>tab. bindE (nthE (entries tab) j) (\<lambda>r. theE r Uninitialised))"

fun asTable :: "huft_v \<Rightarrow> fault + nat option" where
  "asTable (T t) = Inr t"
| "asTable _ = Inl Uninitialised"

fun asNumber :: "huft_v \<Rightarrow> fault + nat" where
  "asNumber (N n) = Inr (unat n)"
| "asNumber _ = Inl Uninitialised"

text \<open>The table walk that the literal and the distance decoder share; None is the return 1.\<close>

fun huftWalk :: "nat \<Rightarrow> huft \<Rightarrow> Inf \<Rightarrow> fault + (huft option \<times> Inf)" where
  "huftWalk fuel t s =
     (if huft_e t > 16
      then if huft_e t = 99 then Inr (None, s)
           else case fuel of
                  0 \<Rightarrow> Inl OutOfFuel
                | Suc fuel \<Rightarrow>
                    let s = DUMPBITS (unat (huft_b t)) s;
                        e = unat (huft_e t) - 16
                    in bindE (NEEDBITS e s) (\<lambda>s.
                       bindE (nthE mask_bits e) (\<lambda>m.
                       bindE (asTable (huft_v t)) (\<lambda>tab.
                       bindE (entryAt tab (peek m s) s) (\<lambda>t. huftWalk fuel t s))))
      else Inr (Some t, s))"

definition huftDecode :: "nat \<Rightarrow> nat option \<Rightarrow> nat \<Rightarrow> Inf \<Rightarrow> fault + (huft option \<times> Inf)" where
  "huftDecode fuel tab bits s =
     bindE (nthE mask_bits bits) (\<lambda>m.
     bindE (NEEDBITS bits s) (\<lambda>s.
     bindE (entryAt tab (peek m s) s) (\<lambda>t.
     bindE (huftWalk fuel t s) (\<lambda>(res, s).
       case res of
         None \<Rightarrow> Inr (None, s)
       | Some t \<Rightarrow> Inr (Some t, DUMPBITS (unat (huft_b t)) s)))))"

definition extraBits :: "nat \<Rightarrow> Inf \<Rightarrow> fault + (nat \<times> Inf)" where
  "extraBits e s =
     bindE (NEEDBITS e s) (\<lambda>s.
     bindE (nthE mask_bits e) (\<lambda>m. Inr (peek m s, DUMPBITS e s)))"

definition copyMatch :: "nat \<Rightarrow> nat option \<Rightarrow> nat \<Rightarrow> huft \<Rightarrow> Inf \<Rightarrow> fault + (bool \<times> Inf)" where
  "copyMatch fuel td bd t s =
     bindE (extraBits (unat (huft_e t)) s) (\<lambda>(x, s).
     bindE (asNumber (huft_v t)) (\<lambda>v.
       let n = v + x
       in bindE (huftDecode fuel td bd s) (\<lambda>(res, s).
            case res of
              None \<Rightarrow> Inr (False, s)
            | Some t \<Rightarrow>
                bindE (extraBits (unat (huft_e t)) s) (\<lambda>(x, s).
                bindE (asNumber (huft_v t)) (\<lambda>v.
                  let d = nat ((int (wp s) - int v - int x) mod 2 ^ 32)
                  in bindE (copyLoop n d s) (\<lambda>s. Inr (True, s)))))))"

fun codesLoop ::
  "nat \<Rightarrow> nat option \<Rightarrow> nat option \<Rightarrow> nat \<Rightarrow> nat \<Rightarrow> Inf \<Rightarrow> fault + (bool \<times> Inf)" where
  "codesLoop 0 tlit tdist bl bd s = Inl OutOfFuel"
| "codesLoop (Suc fuel) tlit tdist bl bd s =
     bindE (huftDecode fuel tlit bl s) (\<lambda>(res, s).
       case res of
         None \<Rightarrow> Inr (False, s)
       | Some t \<Rightarrow>
           if huft_e t = 16
           then bindE (asNumber (huft_v t)) (\<lambda>v.
                bindE (putWindow (of_nat v) s) (\<lambda>s. codesLoop fuel tlit tdist bl bd s))
           else if huft_e t = 15 then Inr (True, s)
           else bindE (copyMatch fuel tdist bd t s) (\<lambda>(ok, s).
                  if ok then codesLoop fuel tlit tdist bl bd s else Inr (False, s)))"

definition inflate_codes ::
  "nat \<Rightarrow> nat option \<Rightarrow> nat option \<Rightarrow> nat \<Rightarrow> nat \<Rightarrow> Inf \<Rightarrow> fault + (nat \<times> Inf)" where
  "inflate_codes fuel tlit tdist bl bd s0 =
     bindE (codesLoop fuel tlit tdist bl bd s0) (\<lambda>(ok, s).
       if ok then Inr (0, s) else Inr (1, restore s0 s))"

fun storedLoop :: "nat \<Rightarrow> Inf \<Rightarrow> fault + Inf" where
  "storedLoop 0 s = Inr s"
| "storedLoop (Suc n) s =
     bindE (NEEDBITS 8 s) (\<lambda>s.
     bindE (putWindow (ucast (bb s)) s) (\<lambda>s. storedLoop n (DUMPBITS 8 s)))"

definition inflate_stored :: "Inf \<Rightarrow> fault + (nat \<times> Inf)" where
  "inflate_stored s0 =
     (let s = DUMPBITS (bk s0 mod 8) s0
      in bindE (NEEDBITS 16 s) (\<lambda>s.
         let n = unat (low32 s AND 0xffff); s = DUMPBITS 16 s
         in bindE (NEEDBITS 16 s) (\<lambda>s.
            if n \<noteq> unat (ucast (NOT (bb s) AND 0xffff) :: u32) then Inr (1, restore s0 s)
            else bindE (storedLoop n (DUMPBITS 16 s)) (\<lambda>s. Inr (0, s)))))"

definition inflate_fixed :: "nat \<Rightarrow> Inf \<Rightarrow> fault + (nat \<times> Inf)" where
  "inflate_fixed fuel s =
     (let l = replicate 144 8 @ replicate 112 9 @ replicate 24 7 @ replicate 8 8
      in bindE (huft_build l 288 257 (Some cplens) (Some cplext) 7 s) (\<lambda>(i, tlit, bl, s).
         if i \<noteq> 0 then Inr (i, s)
         else let l = replicate 30 5 @ drop 30 l
              in bindE (huft_build l 30 0 (Some cpdist) (Some cpdext) 5 s) (\<lambda>(i, tdist, bd, s).
                 if i > 1 then bindE (huft_free tlit s) (\<lambda>s. Inr (i, s))
                 else bindE (inflate_codes fuel tlit tdist bl bd s) (\<lambda>(r, s).
                        if r \<noteq> 0 then Inr (1, s)
                        else bindE (huft_free tlit s) (\<lambda>s.
                             bindE (huft_free tdist s) (\<lambda>s. Inr (0, s)))))))"

definition field :: "nat \<Rightarrow> u32 \<Rightarrow> Inf \<Rightarrow> fault + (nat \<times> Inf)" where
  "field n m s = bindE (NEEDBITS n s) (\<lambda>s. Inr (unat (low32 s AND m), DUMPBITS n s))"

text \<open>The run of equal lengths that a repeat code writes.\<close>

definition setRange :: "nat \<Rightarrow> nat \<Rightarrow> nat \<Rightarrow> nat list \<Rightarrow> nat list" where
  "setRange i j l ll = fold (\<lambda>p ll. ll[p := l]) [i..<i + j] ll"

fun bitLengths :: "nat list \<Rightarrow> nat list \<Rightarrow> Inf \<Rightarrow> fault + (nat list \<times> Inf)" where
  "bitLengths [] ll s = Inr (ll, s)"
| "bitLengths (p # ps) ll s =
     bindE (field 3 7 s) (\<lambda>(v, s). bitLengths ps (ll[p := v]) s)"

function codeLengths ::
  "nat \<Rightarrow> nat option \<Rightarrow> nat \<Rightarrow> nat \<Rightarrow> nat \<Rightarrow> nat list \<Rightarrow> Inf \<Rightarrow> fault + (nat list option \<times> Inf)" where
  "codeLengths n tlit bl i l ll s =
     (if i < n
      then bindE (nthE mask_bits bl) (\<lambda>m.
           bindE (NEEDBITS bl s) (\<lambda>s.
           bindE (entryAt tlit (peek m s) s) (\<lambda>t.
           bindE (asNumber (huft_v t)) (\<lambda>j.
             let s = DUMPBITS (unat (huft_b t)) s
             in if j < 16 then codeLengths n tlit bl (i + 1) j (ll[i := j]) s
                else if j = 16
                then bindE (field 2 3 s) (\<lambda>(x, s).
                       if i + (3 + x) > n then Inr (None, s)
                       else codeLengths n tlit bl (i + (3 + x)) l (setRange i (3 + x) l ll) s)
                else if j = 17
                then bindE (field 3 7 s) (\<lambda>(x, s).
                       if i + (3 + x) > n then Inr (None, s)
                       else codeLengths n tlit bl (i + (3 + x)) 0 (setRange i (3 + x) 0 ll) s)
                else bindE (field 7 0x7f s) (\<lambda>(x, s).
                       if i + (11 + x) > n then Inr (None, s)
                       else codeLengths n tlit bl (i + (11 + x)) 0 (setRange i (11 + x) 0 ll) s)))))
      else Inr (Some ll, s))"
  by pat_completeness auto
termination
  by (relation "measure (\<lambda>(n, tlit, bl, i, l, ll, s). n - i)") auto

text \<open>The second half of a dynamic block: the code sets are read, the tables are built.\<close>

definition dynamicTables :: "nat \<Rightarrow> nat \<Rightarrow> nat \<Rightarrow> nat list \<Rightarrow> Inf \<Rightarrow> fault + (nat \<times> Inf)" where
  "dynamicTables fuel nl nd ll s =
     bindE (huft_build ll nl 257 (Some cplens) (Some cplext) lbits s) (\<lambda>(i, tlit, bl, s).
       if i \<noteq> 0
       then (if i = 1 then bindE (huft_free tlit s) (\<lambda>s. Inr (i, s)) else Inr (i, s))
       else bindE (huft_build (drop nl ll) nd 0 (Some cpdist) (Some cpdext) dbits s)
              (\<lambda>(i, tdist, bd, s).
                if i \<noteq> 0
                then bindE (if i = 1 then huft_free tdist s else Inr s) (\<lambda>s.
                     bindE (huft_free tlit s) (\<lambda>s. Inr (i, s)))
                else bindE (inflate_codes fuel tlit tdist bl bd s) (\<lambda>(r, s).
                       if r \<noteq> 0 then Inr (1, s)
                       else bindE (huft_free tlit s) (\<lambda>s.
                            bindE (huft_free tdist s) (\<lambda>s. Inr (0, s))))))"

definition inflate_dynamic :: "nat \<Rightarrow> Inf \<Rightarrow> fault + (nat \<times> Inf)" where
  "inflate_dynamic fuel s0 =
     bindE (field 5 0x1f s0) (\<lambda>(x, s). let nl = 257 + x in
     bindE (field 5 0x1f s) (\<lambda>(x, s). let nd = 1 + x in
     bindE (field 4 0xf s) (\<lambda>(x, s). let nb = 4 + x in
       if nl > 286 \<or> nd > 30 then Inr (1, restore s0 s)
       else bindE (bitLengths (take nb border) (replicate (286 + 30) 0) s) (\<lambda>(ll, s).
         let ll = fold (\<lambda>p ll. ll[p := 0]) (drop nb border) ll
         in bindE (huft_build ll 19 19 None None 7 s) (\<lambda>(i, tlit, bl, s).
              if i \<noteq> 0
              then (if i = 1 then bindE (huft_free tlit s) (\<lambda>s. Inr (i, restore s0 s))
                    else Inr (i, restore s0 s))
              else bindE (codeLengths (nl + nd) tlit bl 0 0 ll s) (\<lambda>(res, s).
                     case res of
                       None \<Rightarrow> Inr (1, restore s0 s)
                     | Some ll \<Rightarrow> bindE (huft_free tlit s) (\<lambda>s. dynamicTables fuel nl nd ll s)))))))"

section \<open>Blocks and the whole stream\<close>

definition inflate_block :: "nat \<Rightarrow> Inf \<Rightarrow> fault + (nat \<times> bool \<times> Inf)" where
  "inflate_block fuel s =
     bindE (field 1 1 s) (\<lambda>(last_block, s).
     bindE (field 2 3 s) (\<lambda>(t, s).
     bindE (if t = 2 then inflate_dynamic fuel s
            else if t = 0 then inflate_stored s
            else if t = 1 then inflate_fixed fuel s
            else Inr (2, s)) (\<lambda>(r, s). Inr (r, last_block \<noteq> 0, s))))"

fun blockLoop :: "nat \<Rightarrow> Inf \<Rightarrow> fault + (nat \<times> Inf)" where
  "blockLoop 0 s = Inl OutOfFuel"
| "blockLoop (Suc fuel) s =
     bindE (inflate_block fuel (s\<lparr>hufts := 0\<rparr>)) (\<lambda>(r, last_block, s).
       if r \<noteq> 0 then Inr (r, s) else if last_block then Inr (0, s) else blockLoop fuel s)"

definition inflate :: "nat \<Rightarrow> Inf \<Rightarrow> fault + (nat \<times> Inf)" where
  "inflate fuel s =
     bindE (blockLoop fuel (s\<lparr>wp := 0, bk := 0, bb := 0\<rparr>)) (\<lambda>(r, s).
       if r \<noteq> 0 then Inr (r, s) else bindE (flush (wp s) s) (\<lambda>s. Inr (0, s)))"

section \<open>The harness\<close>

text \<open>
  oracle.c: the search of the header in the file, the set-up of the globals (the static
  initialisers of both files, and a window of zero bytes), and the signature counter.
\<close>

fun findMagic :: "nat \<Rightarrow> u8 list \<Rightarrow> nat option" where
  "findMagic i (a # b # c # d # rest) =
     (if a = 0x57 \<and> b = 0x69 \<and> c = 0x6D \<and> d = 0x43 then Some i
      else findMagic (i + 1) (b # c # d # rest))"
| "findMagic i _ = None"

definition le32 :: "u8 list \<Rightarrow> u32" where
  "le32 bs = ucast (bs ! 0) OR push_bit 8 (ucast (bs ! 1)) OR push_bit 16 (ucast (bs ! 2))
     OR push_bit 24 (ucast (bs ! 3))"

definition OUTCAP :: nat where "OUTCAP = 16 * 1024 * 1024"

definition startState :: "nat \<Rightarrow> u8 list \<Rightarrow> int \<Rightarrow> Inf" where
  "startState allocs bs csize =
     \<lparr>compressedSize = csize, inptr = bs, bytebuf = 0, bb = 0, bk = 0, wp = 0,
      slide = replicate WSIZE 0, outptr = [], outcap = OUTCAP, heap = [], mallocs = allocs, hufts = 0\<rparr>"

text \<open>
  The work of main between reading the file and writing the output: None when there is no
  header (exit code 3), otherwise the code of inflate and the decompressed bytes.
\<close>

definition oracle_main :: "nat \<Rightarrow> nat \<Rightarrow> u8 list \<Rightarrow> fault + (nat \<times> u8 list) option" where
  "oracle_main fuel allocs buf =
     (case findMagic 0 buf of
        None \<Rightarrow> Inr None
      | Some w \<Rightarrow>
          if length buf < w + 20 then Inl OutOfBounds
          else bindE (inflate fuel (startState allocs (drop (w + 20) buf) (uint (le32 (drop (w + 4) buf)))))
                 (\<lambda>(r, s). Inr (Some (r, outptr s))))"

fun count_sig :: "u8 list \<Rightarrow> u8 list \<Rightarrow> nat" where
  "count_sig [] sig = (if sig = [] then 1 else 0)"
| "count_sig (x # xs) sig = (if take (length sig) (x # xs) = sig then 1 else 0) + count_sig xs sig"

declare NEEDBITS.simps [simp del] copyLoop.simps [simp del] dummyCodes.simps [simp del]
  tableBits.simps [simp del] makeTables.simps [simp del]
  fillFrom.simps [simp del] backIncrement.simps [simp del] backUp.simps [simp del]
  huftWalk.simps [simp del] codeLengths.simps [simp del]

end
