(* ===== verification/InflateCorrect.thy ===== *)
theory InflateCorrect
  imports Inflate
begin

text \<open>
  Correctness of the decompressor: the bit reader delivers the bits of the input in order, the
  sliding window holds the last 32768 bytes of the output, a match copy is the byte-by-byte
  LZ77 copy, stored blocks are reproduced, and huft\_build classifies code sets by their Kraft
  sum.
\<close>

section \<open>The window as the tail of the output\<close>

definition hist :: "Inf \<Rightarrow> u8 list" where
  "hist s = outptr s @ take (wp s) (slide s)"

definition window_ok :: "Inf \<Rightarrow> bool" where
  "window_ok s \<longleftrightarrow> length (slide s) = WSIZE \<and> wp s < WSIZE \<and> WSIZE dvd length (outptr s) \<and>
     (\<forall>q < length (hist s). length (hist s) \<le> q + WSIZE \<longrightarrow> slide s ! (q mod WSIZE) = hist s ! q)"

text \<open>Only the window and the output differ.\<close>

definition frame :: "Inf \<Rightarrow> Inf \<Rightarrow> bool" where
  "frame s s' \<longleftrightarrow> s'\<lparr>wp := wp s, slide := slide s, outptr := outptr s\<rparr> = s"

lemma frame_refl [simp]: "frame s s"
  by (simp add: frame_def)

lemma frameD:
  assumes "frame s s'"
  shows "compressedSize s' = compressedSize s" "inptr s' = inptr s" "bytebuf s' = bytebuf s"
    "bb s' = bb s" "bk s' = bk s" "outcap s' = outcap s" "heap s' = heap s"
    "mallocs s' = mallocs s" "hufts s' = hufts s"
  using assms by (cases s; cases s'; simp add: frame_def)+

lemma frame_trans: "frame s t \<Longrightarrow> frame t u \<Longrightarrow> frame s u"
  by (cases s; cases t; cases u; simp add: frame_def)

lemma window_okD:
  assumes "window_ok s"
  shows "length (slide s) = WSIZE" "wp s < WSIZE" "WSIZE dvd length (outptr s)"
  using assms unfolding window_ok_def by blast+

lemma length_hist: "window_ok s \<Longrightarrow> length (hist s) = length (outptr s) + wp s"
  using window_okD [of s] by (simp add: hist_def)

lemma hist_mod: "window_ok s \<Longrightarrow> length (hist s) mod WSIZE = wp s"
  using window_okD [of s] by (metis length_hist add_0 mod_add_left_eq mod_less dvd_imp_mod_0)

lemma window_read:
  "window_ok s \<Longrightarrow> q < length (hist s) \<Longrightarrow> length (hist s) \<le> q + WSIZE \<Longrightarrow>
     slide s ! (q mod WSIZE) = hist s ! q"
  unfolding window_ok_def by blast

lemma mod_ne_of_less: "a < b \<Longrightarrow> b < a + m \<Longrightarrow> a mod m \<noteq> b mod m" for a b m :: nat
  using mod_eq_dvd_iff_nat [of a b m] nat_dvd_not_less [of "b - a" m] by auto

text \<open>One byte more, before and after the flush.\<close>

definition pushed :: "u8 \<Rightarrow> Inf \<Rightarrow> Inf" where
  "pushed c s = (let s' = s\<lparr>slide := (slide s)[wp s := c], wp := wp s + 1\<rparr>
     in if wp s + 1 = WSIZE then s'\<lparr>outptr := outptr s @ slide s', wp := 0\<rparr> else s')"

lemma hist_pushed:
  assumes "window_ok s"
  shows "hist (pushed c s) = hist s @ [c]"
proof -
  have l: "wp s < length (slide s)" "length (slide s) = WSIZE" using window_okD [OF assms] by auto
  then have "take (wp s + 1) ((slide s)[wp s := c]) = take (wp s) (slide s) @ [c]"
    by (simp add: take_Suc_conv_app_nth)
  moreover have "take WSIZE ((slide s)[wp s := c]) = (slide s)[wp s := c]" using l by simp
  ultimately show ?thesis by (auto simp: hist_def pushed_def Let_def)
qed

lemma window_pushed:
  assumes ok: "window_ok s"
  shows "window_ok (pushed c s)"
proof -
  have l: "length (slide s) = WSIZE" "wp s < WSIZE" "WSIZE dvd length (outptr s)"
    using window_okD [OF ok] by auto
  have sl: "slide (pushed c s) = (slide s)[wp s := c]" by (simp add: pushed_def Let_def)
  have "slide (pushed c s) ! (q mod WSIZE) = hist (pushed c s) ! q"
    if q: "q < length (hist (pushed c s))" "length (hist (pushed c s)) \<le> q + WSIZE" for q
  proof (cases "q = length (hist s)")
    case True
    then show ?thesis using l by (simp add: sl hist_pushed [OF ok] hist_mod [OF ok])
  next
    case False
    then have q': "q < length (hist s)" "length (hist s) < q + WSIZE"
      using q by (auto simp: hist_pushed [OF ok])
    then have "q mod WSIZE \<noteq> wp s"
      using hist_mod [OF ok] mod_ne_of_less [of q "length (hist s)" WSIZE] by simp
    then show ?thesis using q' window_read [OF ok, of q] by (simp add: sl hist_pushed [OF ok] nth_append)
  qed
  moreover have "length (slide (pushed c s)) = WSIZE" "wp (pushed c s) < WSIZE"
    "WSIZE dvd length (outptr (pushed c s))"
    using l by (auto simp: pushed_def Let_def)
  ultimately show ?thesis unfolding window_ok_def by blast
qed

lemma frame_pushed: "frame s (pushed c s)"
  by (cases s) (simp add: frame_def pushed_def Let_def)

lemma putWindow_pushed:
  assumes "window_ok s" "length (hist s) < outcap s"
  shows "putWindow c s = Inr (pushed c s)"
  using assms(2) length_hist [OF assms(1)] window_okD [OF assms(1)]
  by (cases s) (simp add: putWindow_def updE_def Let_def flush_def pushed_def)

section \<open>Match copies\<close>

text \<open>The reference: a match of distance d appends, n times, the byte d before the end.\<close>

fun lz_copy :: "nat \<Rightarrow> nat \<Rightarrow> u8 list \<Rightarrow> u8 list" where
  "lz_copy 0 d h = h"
| "lz_copy (Suc n) d h = lz_copy n d (h @ [h ! (length h - d)])"

lemma lz_copy_add: "lz_copy (m + n) d h = lz_copy n d (lz_copy m d h)"
  by (induction m arbitrary: h) auto

lemma length_lz_copy [simp]: "length (lz_copy n d h) = length h + n"
  by (induction n arbitrary: h) auto

lemma slowCopy_memcpy: "slowCopy w d e m = memcpy w d e m"
  by (induction e arbitrary: w d m) (auto simp: Let_def split: nat.splits)

lemma slowCopy_eq_memcpy [simp]: "slowCopy = memcpy"
  by (intro ext) (rule slowCopy_memcpy)

definition copied :: "nat \<Rightarrow> nat \<Rightarrow> Inf \<Rightarrow> Inf" where
  "copied d e s = (let s' = s\<lparr>slide := memcpy (wp s) d e (slide s), wp := wp s + e\<rparr>
     in if wp s + e = WSIZE then s'\<lparr>outptr := outptr s @ slide s', wp := 0\<rparr> else s')"

lemma copied_Suc:
  assumes "wp s + Suc e \<le> WSIZE"
  shows "copied d (Suc e) s = (if e = 0 then pushed (slide s ! d) s
     else copied (Suc d) e (pushed (slide s ! d) s))"
  using assms by (cases s) (auto simp: copied_def pushed_def Let_def)

lemma copied_lz:
  assumes "window_ok s" "0 < dist" "dist \<le> WSIZE" "dist \<le> length (hist s)"
    "d = (length (hist s) - dist) mod WSIZE" "wp s + e \<le> WSIZE" "d + e \<le> WSIZE"
  shows "window_ok (copied d e s) \<and> hist (copied d e s) = lz_copy e dist (hist s) \<and>
    frame s (copied d e s)"
  using assms
proof (induction e arbitrary: s d)
  case 0
  then have "copied d 0 s = s" using window_okD(2) [of s] by (cases s) (simp add: copied_def)
  then show ?case using 0 by simp
next
  case (Suc e)
  let ?s = "pushed (slide s ! d) s"
  have byte: "slide s ! d = hist s ! (length (hist s) - dist)"
    using Suc.prems window_read [of s "length (hist s) - dist"] by simp
  have ok: "window_ok ?s" "hist ?s = hist s @ [hist s ! (length (hist s) - dist)]" "frame s ?s"
    using Suc.prems(1) by (simp_all add: window_pushed hist_pushed frame_pushed byte)
  show ?case
  proof (cases "e = 0")
    case True
    then show ?thesis using ok Suc.prems(6) by (simp add: copied_Suc)
  next
    case False
    then have "wp ?s = wp s + 1" "Suc d < WSIZE"
      using Suc.prems(6,7) by (auto simp: pushed_def Let_def)
    moreover have "Suc d = (length (hist ?s) - dist) mod WSIZE"
    proof -
      have "length (hist ?s) - dist = Suc (length (hist s) - dist)"
        using Suc.prems(4) arg_cong [OF ok(2), of length] by simp
      then show ?thesis using Suc.prems(5) \<open>Suc d < WSIZE\<close> by (metis mod_Suc less_not_refl)
    qed
    ultimately have "window_ok (copied (Suc d) e ?s) \<and>
        hist (copied (Suc d) e ?s) = lz_copy e dist (hist ?s) \<and> frame ?s (copied (Suc d) e ?s)"
      using Suc.prems ok by (intro Suc.IH) auto
    then show ?thesis using False Suc.prems(6) ok by (auto simp: copied_Suc intro: frame_trans)
  qed
qed

lemma distance_position:
  assumes "window_ok s" "dist \<le> WSIZE" "dist \<le> length (hist s)"
  shows "(length (hist s) - dist) mod WSIZE = (if dist \<le> wp s then wp s - dist else WSIZE + wp s - dist)"
proof -
  obtain c where c: "length (outptr s) = WSIZE * c" using window_okD(3) [OF assms(1)] by (elim dvdE)
  have w: "wp s < WSIZE" by (rule window_okD(2) [OF assms(1)])
  have l: "length (hist s) = WSIZE * c + wp s" using length_hist [OF assms(1)] c by simp
  show ?thesis
  proof (cases "dist \<le> wp s")
    case True
    then have "length (hist s) - dist = WSIZE * c + (wp s - dist)" using l by simp
    moreover have "(WSIZE * c + (wp s - dist)) mod WSIZE = (wp s - dist) mod WSIZE"
      by (rule mod_mult_self4)
    ultimately show ?thesis using True w by simp
  next
    case False
    then obtain c' where "c = Suc c'" using assms(3) l by (cases c) auto
    then have "length (hist s) - dist = WSIZE * c' + (WSIZE + wp s - dist)" using l False assms(2) by simp
    moreover have "(WSIZE * c' + (WSIZE + wp s - dist)) mod WSIZE = (WSIZE + wp s - dist) mod WSIZE"
      by (rule mod_mult_self4)
    ultimately show ?thesis using False w by simp
  qed
qed

text \<open>No pass of the loop is an overlapping memcpy when the source does not wrap onto the target.\<close>

lemma copyStep_copied:
  assumes ok: "window_ok s" and dist: "0 < dist" "dist \<le> WSIZE" "dist \<le> length (hist s)"
    and sep: "dist + n \<le> WSIZE \<or> dist = WSIZE"
    and cap: "length (hist s) + n \<le> outcap s"
    and pos: "d mod WSIZE = (length (hist s) - dist) mod WSIZE" and "0 < n"
  defines "d' \<equiv> d mod WSIZE" and "e \<equiv> min n (WSIZE - max (d mod WSIZE) (wp s))"
  shows "copyStep n d s = Inr (n - e, d' + e, copied d' e s)" "0 < e" "e \<le> n"
    "wp s + e \<le> WSIZE" "d' + e \<le> WSIZE"
proof -
  have w: "wp s < WSIZE" "length (slide s) = WSIZE" using window_okD [OF ok] by auto
  have d: "d' = (if dist \<le> wp s then wp s - dist else WSIZE + wp s - dist)"
    using distance_position [OF ok dist(2,3)] pos by (simp add: d'_def)
  have d'w: "d' < WSIZE" by (simp add: d'_def WSIZE_def)
  show e: "0 < e" "e \<le> n" "wp s + e \<le> WSIZE" "d' + e \<le> WSIZE"
    using w d'w \<open>0 < n\<close> unfolding e_def d'_def by linarith+
  have no: "\<not> (int e \<le> (int (wp s) - int d') mod 2 ^ 32 \<and> wp s < d' + e \<and> d' < wp s + e)"
  proof (cases "d' \<le> wp s")
    case True
    then have "(int (wp s) - int d') mod 2 ^ 32 = int (wp s) - int d'" using w by (simp add: WSIZE_def)
    then show ?thesis by auto
  next
    case False
    then show ?thesis using d sep e(2) dist w by (auto split: if_splits)
  qed
  have len: "length (memcpy x y z m) = length m" for x y z m
    by (induction x y z m rule: memcpy.induct) auto
  have "length (outptr s) + wp s + e \<le> outcap s" using cap e(2) length_hist [OF ok] by simp
  then have fl: "wp s + e = WSIZE \<Longrightarrow>
      flush WSIZE (s\<lparr>slide := m, wp := WSIZE\<rparr>) = Inr (s\<lparr>slide := m, wp := WSIZE, outptr := outptr s @ take WSIZE m\<rparr>)" for m
    by (cases s) (simp add: flush_def)
  have E: "(if n < WSIZE - (if wp s < d' then d' else wp s) then n
      else WSIZE - (if wp s < d' then d' else wp s)) = e"
    by (simp add: e_def d'_def)
  have no': "\<not> (int e \<le> (int (wp s) - int d') mod 2 ^ 32 \<and> 0 < e \<and> wp s < d' + e \<and> d' < wp s + e)"
    using no by blast
  show "copyStep n d s = Inr (n - e, d' + e, copied d' e s)"
    unfolding copyStep_def Let_def d'_def [symmetric] E if_not_P [OF no'] slowCopy_eq_memcpy if_cancel
    using w fl by (simp add: copied_def len)
qed

lemma copyLoop_lz:
  assumes "window_ok s" "0 < dist" "dist \<le> WSIZE" "dist \<le> length (hist s)"
    "dist + n \<le> WSIZE \<or> dist = WSIZE" "length (hist s) + n \<le> outcap s"
    "d mod WSIZE = (length (hist s) - dist) mod WSIZE" "0 < n"
  shows "\<exists>s'. copyLoop n d s = Inr s' \<and> window_ok s' \<and> hist s' = lz_copy n dist (hist s) \<and> frame s s'"
  using assms
proof (induction n arbitrary: d s rule: less_induct)
  case (less n)
  define e where "e = min n (WSIZE - max (d mod WSIZE) (wp s))"
  define t where "t = copied (d mod WSIZE) e s"
  note st = copyStep_copied [OF less.prems, folded e_def t_def]
  have t: "window_ok t" "hist t = lz_copy e dist (hist s)" "frame s t"
    using copied_lz [OF less.prems(1-4,7) st(4,5)] by (auto simp: t_def)
  show ?case
  proof (cases "n - e = 0")
    case True
    then have "copyLoop n d s = Inr t" using st(1) by (subst copyLoop.simps) simp
    moreover have "n = e" using True st(3) by simp
    ultimately show ?thesis using t by auto
  next
    case False
    have "(d mod WSIZE + e) mod WSIZE = (length (hist t) - dist) mod WSIZE"
    proof -
      have "length (hist t) - dist = (length (hist s) - dist) + e" using t(2) less.prems(4) by simp
      then show ?thesis using less.prems(7) by (metis mod_add_left_eq)
    qed
    then have "\<exists>s'. copyLoop (n - e) (d mod WSIZE + e) t = Inr s' \<and> window_ok s' \<and>
        hist s' = lz_copy (n - e) dist (hist t) \<and> frame t s'"
      using less.prems t st(2,3) False frameD(6) [OF t(3)] by (intro less.IH) auto
    then obtain s' where s': "copyLoop (n - e) (d mod WSIZE + e) t = Inr s'" "window_ok s'"
        "hist s' = lz_copy (n - e) dist (hist t)" "frame t s'" by blast
    have "copyLoop n d s = Inr s'" using st(1) False s'(1) by (subst copyLoop.simps) simp
    moreover have "lz_copy n dist (hist s) = lz_copy (n - e) dist (lz_copy e dist (hist s))"
      using lz_copy_add [of e "n - e" dist "hist s"] st(3) by simp
    ultimately show ?thesis using s' t frame_trans by auto
  qed
qed

text \<open>The index the decoder computes, with its unsigned subtractions, is the match position.\<close>

lemma match_index:
  assumes "window_ok s" "dist \<le> WSIZE" "dist \<le> length (hist s)"
  shows "nat ((int (wp s) - int dist) mod 2 ^ 32) mod WSIZE = (length (hist s) - dist) mod WSIZE"
proof -
  have w: "wp s < WSIZE" using window_okD [OF assms(1)] by simp
  show ?thesis
  proof (cases "dist \<le> wp s")
    case True
    then have "(int (wp s) - int dist) mod 2 ^ 32 = int (wp s - dist)" using w by (simp add: WSIZE_def)
    then show ?thesis using True w distance_position [OF assms] by simp
  next
    case False
    then have "(int (wp s) - int dist) mod 2 ^ 32 = (int (wp s) - int dist + 2 ^ 32) mod 2 ^ 32" by simp
    also have "\<dots> = int (wp s) - int dist + 2 ^ 32"
      using False assms(2) by (intro mod_pos_pos_trivial) (auto simp: WSIZE_def)
    finally have "nat ((int (wp s) - int dist) mod 2 ^ 32) = 2 ^ 32 + wp s - dist"
      using False assms(2) by (simp add: WSIZE_def)
    also have "\<dots> = WSIZE * (2 ^ 17 - 1) + (WSIZE + wp s - dist)"
      using False assms(2) by (simp add: WSIZE_def)
    finally have "nat ((int (wp s) - int dist) mod 2 ^ 32) mod WSIZE = (WSIZE + wp s - dist) mod WSIZE"
      by (simp only: mod_mult_self4)
    then show ?thesis using False w distance_position [OF assms] by simp
  qed
qed

section \<open>The bit reader\<close>

definition avail :: "Inf \<Rightarrow> u8 list" where
  "avail s = take (nat (compressedSize s)) (inptr s)"

definition bits8 :: "u8 \<Rightarrow> bool list" where
  "bits8 x = map (bit x) [0..<8]"

definition bits :: "Inf \<Rightarrow> bool list" where
  "bits s = map (bit (bb s)) [0..<bk s] @ concat (map bits8 (avail s))"

definition reader_ok :: "Inf \<Rightarrow> bool" where
  "reader_ok s \<longleftrightarrow> bk s \<le> 64 \<and> drop_bit (bk s) (bb s) = 0 \<and> compressedSize s \<le> int (length (inptr s))"

text \<open>Only the reader's own fields differ.\<close>

definition rframe :: "Inf \<Rightarrow> Inf \<Rightarrow> bool" where
  "rframe s s' \<longleftrightarrow> s'\<lparr>compressedSize := compressedSize s, inptr := inptr s, bytebuf := bytebuf s,
     bb := bb s, bk := bk s\<rparr> = s"

lemma rframe_refl [simp]: "rframe s s"
  by (simp add: rframe_def)

lemma rframe_trans: "rframe s t \<Longrightarrow> rframe t u \<Longrightarrow> rframe s u"
  by (cases s; cases t; cases u; simp add: rframe_def)

lemma rframeD:
  assumes "rframe s s'"
  shows "wp s' = wp s" "slide s' = slide s" "outptr s' = outptr s" "outcap s' = outcap s"
    "heap s' = heap s" "mallocs s' = mallocs s" "hufts s' = hufts s"
  using assms by (cases s; cases s'; simp add: rframe_def)+

definition withByte :: "u8 \<Rightarrow> u8 list \<Rightarrow> Inf \<Rightarrow> Inf" where
  "withByte x xs s = s\<lparr>compressedSize := compressedSize s - 1, inptr := xs, bytebuf := ucast x,
     bb := bb s OR push_bit (bk s) (ucast x), bk := bk s + 8\<rparr>"

lemma bit_u8_high [simp]: "\<not> bit x (8 + n)" for x :: u8
  using bit_imp_le_length [of x "8 + n"] by auto

lemma bit_u16_out: "bit x n \<Longrightarrow> n < 16" for x :: u16
  using bit_imp_le_length [of x n] by simp

lemma unat_ucast_u16: "unat (ucast x :: u32) = unat x" for x :: u16
proof -
  have "unat x < 2 ^ 16" using unsigned_less [of x, where 'a = nat] by simp
  then show ?thesis by (simp add: unsigned_ucast_eq take_bit_nat_eq_self_iff)
qed

lemma ucast_byte_twice: "ucast (ucast x :: u16) = (ucast x :: u64)" for x :: u8
  by (rule bit_word_eqI) (auto simp: bit_simps dest: bit_imp_le_length)

lemma NEEDBITS_step:
  assumes "bk s < n" "0 < compressedSize s" "inptr s = x # xs"
  shows "NEEDBITS n s = NEEDBITS n (withByte x xs s)"
  using assms by (subst NEEDBITS.simps) (simp add: ReadByte_def withByte_def ucast_byte_twice)

lemma NEEDBITS_done: "n \<le> bk s \<Longrightarrow> NEEDBITS n s = Inr s"
  by (simp add: NEEDBITS.simps [of n s])

lemma bits_withByte:
  assumes "reader_ok s" "bk s \<le> 56" "0 < compressedSize s" "inptr s = x # xs"
  shows "reader_ok (withByte x xs s) \<and> bits (withByte x xs s) = bits s \<and> rframe s (withByte x xs s)"
proof -
  have z: "\<not> bit (bb s) i" if "bk s \<le> i" for i
  proof -
    have "\<not> bit (drop_bit (bk s) (bb s)) (i - bk s)" using assms(1) by (simp add: reader_ok_def)
    then show ?thesis using that by (simp add: bit_drop_bit_eq)
  qed
  have lo: "map (bit (bb s OR push_bit (bk s) (ucast x))) [0..<bk s] = map (bit (bb s)) [0..<bk s]"
    by (simp add: bit_simps)
  have hi: "map (bit (bb s OR push_bit (bk s) (ucast x))) [bk s..<bk s + 8] = bits8 x"
    using assms(2) z by (intro nth_equalityI) (auto simp: bit_simps bits8_def)
  have av: "avail s = x # take (nat (compressedSize s - 1)) xs"
    using assms(3,4) by (cases "nat (compressedSize s)") (auto simp: avail_def nat_diff_distrib')
  have av': "avail (withByte x xs s) = take (nat (compressedSize s - 1)) xs"
    by (simp add: avail_def withByte_def)
  have "[0..<bk s + 8] = [0..<bk s] @ [bk s..<bk s + 8]" by (rule upt_add_eq_append) simp
  then have "bits (withByte x xs s) = bits s"
    unfolding bits_def av av' by (simp add: withByte_def lo hi del: upt_Suc)
  moreover have "drop_bit (bk s + 8) (bb s OR push_bit (bk s) (ucast x)) = 0"
    using z by (intro bit_word_eqI) (auto simp: bit_simps dest: bit_u8_out)
  ultimately show ?thesis
    using assms by (cases s) (auto simp: reader_ok_def withByte_def rframe_def)
qed

lemma length_bits: "length (bits s) = bk s + 8 * length (avail s)"
  by (simp add: bits_def bits8_def length_concat o_def sum_list_const_mult sum_list_triv)

lemma NEEDBITS_bits:
  assumes "reader_ok s" "n \<le> 57" "n \<le> length (bits s)"
  shows "\<exists>s'. NEEDBITS n s = Inr s' \<and> reader_ok s' \<and> bits s' = bits s \<and> n \<le> bk s' \<and> rframe s s'"
  using assms
proof (induction "n - bk s" arbitrary: s rule: less_induct)
  case less
  show ?case
  proof (cases "bk s < n")
    case False
    then show ?thesis using less.prems by (intro exI [of _ s]) (simp add: NEEDBITS_done)
  next
    case True
    then have "avail s \<noteq> []" using less.prems(3) by (auto simp: length_bits)
    then obtain x xs where x: "0 < compressedSize s" "inptr s = x # xs"
      by (cases "inptr s") (auto simp: avail_def split: if_splits)
    have "bk s \<le> 56" using True less.prems(2) by simp
    note w = bits_withByte [OF less.prems(1) this x]
    have "n - bk (withByte x xs s) < n - bk s" using True by (simp add: withByte_def)
    then obtain s' where "NEEDBITS n (withByte x xs s) = Inr s'" "reader_ok s'" "bits s' = bits s"
        "n \<le> bk s'" "rframe (withByte x xs s) s'"
      using less.hyps [of "withByte x xs s"] less.prems w by auto
    then show ?thesis using w NEEDBITS_step [OF True x] rframe_trans by fastforce
  qed
qed

lemma DUMPBITS_bits:
  assumes "reader_ok s" "n \<le> bk s"
  shows "reader_ok (DUMPBITS n s) \<and> bits (DUMPBITS n s) = drop n (bits s) \<and> rframe s (DUMPBITS n s)"
proof -
  have "map (bit (drop_bit n (bb s))) [0..<bk s - n] = drop n (map (bit (bb s)) [0..<bk s])"
    by (intro nth_equalityI) (auto simp: bit_simps add.commute)
  then have "bits (DUMPBITS n s) = drop n (bits s)"
    using assms(2) by (simp add: bits_def DUMPBITS_def avail_def)
  then show ?thesis using assms by (cases s) (auto simp: reader_ok_def DUMPBITS_def rframe_def)
qed

lemma low32_bits:
  assumes "n \<le> bk s" "n \<le> 32"
  shows "unat (low32 s AND mask n) = horner_sum of_bool 2 (take n (bits s))"
proof -
  have "take n (bits s) = map (bit (unat (bb s))) [0..<n]"
    using assms(1) by (simp add: bits_def take_map bit_unat)
  moreover have "low32 s AND mask n = ucast (take_bit n (bb s))"
    using assms(2) by (intro bit_word_eqI) (auto simp: low32_def bit_simps)
  moreover have "unat (ucast (take_bit n (bb s)) :: u32) = take_bit n (unat (bb s))"
    using assms(2) by (simp add: unsigned_ucast_eq unsigned_take_bit_eq min_def)
  ultimately show ?thesis by (simp add: horner_sum_bit_eq_take_bit)
qed

lemma field_bits:
  assumes "reader_ok s" "n \<le> 32" "n \<le> length (bits s)" "m = mask n"
  shows "\<exists>s'. field n m s = Inr (horner_sum of_bool 2 (take n (bits s)), s') \<and>
    reader_ok s' \<and> bits s' = drop n (bits s) \<and> rframe s s'"
proof -
  obtain t where t: "NEEDBITS n s = Inr t" "reader_ok t" "bits t = bits s" "n \<le> bk t" "rframe s t"
    using NEEDBITS_bits [OF assms(1) _ assms(3)] assms(2) by auto
  have "field n m s = Inr (horner_sum of_bool 2 (take n (bits s)), DUMPBITS n t)"
    using low32_bits [OF t(4) assms(2)] by (simp add: field_def t(1,3) assms(4))
  then show ?thesis using DUMPBITS_bits [OF t(2,4)] t rframe_trans by fastforce
qed

section \<open>Stored blocks\<close>

text \<open>The encoder: header byte, length, its complement and the bytes (RFC 1951, section 3.2.4).\<close>

definition le16 :: "u16 \<Rightarrow> u8 list" where
  "le16 w = [ucast w, ucast (drop_bit 8 w)]"

definition stored_block :: "bool \<Rightarrow> u8 list \<Rightarrow> u8 list" where
  "stored_block l d = of_bool l # le16 (of_nat (length d)) @ le16 (NOT (of_nat (length d))) @ d"

fun stored_stream :: "u8 list list \<Rightarrow> u8 list" where
  "stored_stream [] = []"
| "stored_stream [d] = stored_block True d"
| "stored_stream (d # ds) = stored_block False d @ stored_stream ds"

text \<open>On a byte boundary, with the given bytes to come.\<close>

definition at_byte :: "u8 list \<Rightarrow> int \<Rightarrow> Inf \<Rightarrow> bool" where
  "at_byte xs c s \<longleftrightarrow> bk s = 0 \<and> bb s = 0 \<and> inptr s = xs \<and> compressedSize s = c"

lemma NEEDBITS_byte:
  assumes "at_byte (x # xs) c s" "0 < c" "0 < n" "n \<le> 8"
  shows "NEEDBITS n s = Inr (withByte x xs s)"
  using assms by (simp add: NEEDBITS_step [of s n x xs] at_byte_def NEEDBITS_done withByte_def)

lemma NEEDBITS_pair:
  assumes "at_byte (x # y # xs) c s" "1 < c"
  shows "NEEDBITS 16 s = Inr (withByte y xs (withByte x (y # xs) s))"
proof -
  have "NEEDBITS 16 s = NEEDBITS 16 (withByte x (y # xs) s)"
    using assms by (intro NEEDBITS_step) (auto simp: at_byte_def)
  also have "\<dots> = NEEDBITS 16 (withByte y xs (withByte x (y # xs) s))"
    using assms by (intro NEEDBITS_step) (auto simp: at_byte_def withByte_def)
  finally show ?thesis using assms by (simp add: NEEDBITS_done withByte_def at_byte_def)
qed

lemma rframe_withByte: "rframe s (withByte x xs s)"
  by (cases s) (simp add: rframe_def withByte_def)

lemma rframe_DUMPBITS: "rframe s (DUMPBITS n s)"
  by (cases s) (simp add: rframe_def DUMPBITS_def)

lemma read_pair:
  assumes "at_byte (le16 v @ xs) c s" "1 < c"
  shows "\<exists>t. NEEDBITS 16 s = Inr t \<and> bb t = ucast v \<and> low32 t = ucast v \<and>
    at_byte xs (c - 2) (DUMPBITS 16 t) \<and> rframe s (DUMPBITS 16 t) \<and> rframe s t"
proof -
  let ?t = "withByte (ucast (drop_bit 8 v)) xs (withByte (ucast v) (ucast (drop_bit 8 v) # xs) s)"
  have "NEEDBITS 16 s = Inr ?t" using assms by (intro NEEDBITS_pair [of _ _ _ c]) (auto simp: le16_def)
  moreover have b: "bb ?t = ucast v"
    using assms(1)
    by (intro bit_word_eqI) (auto simp: withByte_def at_byte_def bit_simps dest: bit_imp_le_length)
  moreover have "low32 ?t = ucast v"
    by (intro bit_word_eqI) (auto simp: low32_def b bit_simps)
  moreover have "drop_bit 16 (bb ?t) = 0"
    unfolding b by (intro bit_word_eqI) (auto simp: bit_simps dest: bit_imp_le_length)
  then have "at_byte xs (c - 2) (DUMPBITS 16 ?t)"
    using assms by (simp add: at_byte_def DUMPBITS_def withByte_def)
  moreover have "rframe s ?t" by (meson rframe_withByte rframe_trans)
  ultimately show ?thesis by (meson rframe_DUMPBITS rframe_trans)
qed

lemma window_rframe:
  assumes "rframe s t"
  shows "hist t = hist s" "window_ok t = window_ok s"
proof -
  show h: "hist t = hist s" by (simp add: hist_def rframeD [OF assms])
  show "window_ok t = window_ok s" by (simp add: window_ok_def h rframeD [OF assms])
qed

lemma storedLoop_copies:
  "at_byte (d @ rest) c s \<Longrightarrow> int (length d) \<le> c \<Longrightarrow> window_ok s \<Longrightarrow>
    length (hist s) + length d \<le> outcap s \<Longrightarrow>
    \<exists>s'. storedLoop (length d) s = Inr s' \<and> at_byte rest (c - int (length d)) s' \<and> window_ok s' \<and>
      hist s' = hist s @ d \<and> outcap s' = outcap s"
proof (induction d arbitrary: c s)
  case Nil
  then show ?case by simp
next
  case (Cons x d)
  let ?t = "withByte x (d @ rest) s"
  let ?u = "DUMPBITS 8 (pushed x ?t)"
  have n: "NEEDBITS 8 s = Inr ?t" using Cons.prems by (intro NEEDBITS_byte [of _ _ c]) auto
  have t: "hist ?t = hist s" "window_ok ?t" "outcap ?t = outcap s"
    using window_rframe [OF rframe_withByte] rframeD(4) [OF rframe_withByte] Cons.prems(3) by auto
  have fr: "bb (pushed x ?t) = ucast x" "bk (pushed x ?t) = 8" "inptr (pushed x ?t) = d @ rest"
    "compressedSize (pushed x ?t) = c - 1" "outcap (pushed x ?t) = outcap s"
    using Cons.prems(1) by (auto simp: frameD [OF frame_pushed] withByte_def at_byte_def)
  have "ucast (bb ?t) = x" using Cons.prems(1)
    by (intro bit_word_eqI) (auto simp: withByte_def at_byte_def bit_simps)
  moreover have "putWindow x ?t = Inr (pushed x ?t)"
    using Cons.prems(4) t by (intro putWindow_pushed) auto
  ultimately have "storedLoop (length (x # d)) s = storedLoop (length d) ?u" using n by simp
  moreover have "at_byte (d @ rest) (c - 1) ?u"
    by (auto intro!: bit_word_eqI simp: at_byte_def DUMPBITS_def fr bit_simps dest: bit_imp_le_length)
  moreover have "hist ?u = hist s @ [x]" "window_ok ?u" "outcap ?u = outcap s"
    using window_rframe [OF rframe_DUMPBITS] rframeD(4) [OF rframe_DUMPBITS]
      hist_pushed [OF t(2)] window_pushed [OF t(2)] t fr by auto
  ultimately show ?case using Cons.IH [of "c - 1" ?u] Cons.prems by (auto simp: algebra_simps)
qed

lemma stored_header:
  assumes "at_byte (of_bool l # xs) c s" "0 < c"
  shows "\<exists>s1 s2. field 1 1 s = Inr (of_bool l, s1) \<and> field 2 3 s1 = Inr (0, s2) \<and>
    at_byte xs (c - 1) (DUMPBITS (bk s2 mod 8) s2) \<and> rframe s (DUMPBITS (bk s2 mod 8) s2)"
proof -
  define t where "t = withByte (of_bool l) xs s"
  have t: "bk t = 8" "bb t = of_bool l" "inptr t = xs" "compressedSize t = c - 1"
    using assms(1) by (auto simp: t_def withByte_def at_byte_def)
  have fr: "rframe s t" unfolding t_def by (rule rframe_withByte)
  have n: "NEEDBITS 1 s = Inr t" unfolding t_def by (rule NEEDBITS_byte [OF assms]) auto
  have "unat (low32 t AND 1) = of_bool l" unfolding low32_def t(2) by (cases l) simp_all
  then have f1: "field 1 1 s = Inr (of_bool l, DUMPBITS 1 t)" unfolding field_def n by simp
  have s1: "bk (DUMPBITS 1 t) = 7" "bb (DUMPBITS 1 t) = 0"
    by (simp_all add: DUMPBITS_def t)
  have f2: "field 2 3 (DUMPBITS 1 t) = Inr (0, DUMPBITS 2 (DUMPBITS 1 t))"
  proof -
    have "NEEDBITS 2 (DUMPBITS 1 t) = Inr (DUMPBITS 1 t)" by (rule NEEDBITS_done) (simp only: s1)
    then show ?thesis unfolding field_def low32_def by (simp only: bindE.simps s1) simp
  qed
  have "bk (DUMPBITS 2 (DUMPBITS 1 t)) = 5" unfolding DUMPBITS_def [of 2] by (simp add: s1 del: One_nat_def)
  moreover have "at_byte xs (c - 1) (DUMPBITS 5 (DUMPBITS 2 (DUMPBITS 1 t)))"
    by (simp add: at_byte_def DUMPBITS_def t)
  moreover have "rframe s (DUMPBITS 5 (DUMPBITS 2 (DUMPBITS 1 t)))"
    by (meson fr rframe_DUMPBITS rframe_trans)
  ultimately show ?thesis using f1 f2 by auto
qed

lemma complement_check:
  assumes "bb t = ucast (NOT v)"
  shows "unat (ucast (NOT (bb t) AND 0xffff) :: u32) = unat (v :: u16)"
proof -
  have m: "(0xffff :: u64) = mask 16" by (simp add: mask_eq_exp_minus_1)
  have "(ucast (NOT (bb t) AND 0xffff) :: u32) = ucast v"
    unfolding m by (intro bit_word_eqI) (auto simp: assms bit_simps dest: bit_u16_out)
  then show ?thesis by (simp add: unat_ucast_u16)
qed

lemma inflate_stored_copies:
  assumes a: "at_byte (le16 v @ le16 (NOT v) @ d @ rest) c (DUMPBITS (bk s0 mod 8) s0)"
    and "unat v = length d" "4 + int (length d) \<le> c" "window_ok s0"
    "length (hist s0) + length d \<le> outcap s0"
  shows "\<exists>s'. inflate_stored s0 = Inr (0, s') \<and> at_byte rest (c - 4 - int (length d)) s' \<and>
    window_ok s' \<and> hist s' = hist s0 @ d \<and> outcap s' = outcap s0"
proof -
  obtain t where t: "NEEDBITS 16 (DUMPBITS (bk s0 mod 8) s0) = Inr t" "low32 t = ucast v"
      "at_byte (le16 (NOT v) @ d @ rest) (c - 2) (DUMPBITS 16 t)"
      "rframe (DUMPBITS (bk s0 mod 8) s0) (DUMPBITS 16 t)"
    using read_pair [OF a] assms(3) by auto
  obtain u where u: "NEEDBITS 16 (DUMPBITS 16 t) = Inr u" "bb u = ucast (NOT v)"
      "at_byte (d @ rest) (c - 4) (DUMPBITS 16 u)" "rframe (DUMPBITS 16 t) (DUMPBITS 16 u)"
    using read_pair [OF t(3)] assms(3) by auto
  have fr: "rframe s0 (DUMPBITS 16 u)" by (meson rframe_DUMPBITS rframe_trans t(4) u(4))
  have "(ucast v AND 0xffff :: u32) = ucast v"
  proof -
    have m: "(0xffff :: u32) = mask 16" by (simp add: mask_eq_exp_minus_1)
    show ?thesis unfolding m by (intro bit_word_eqI) (auto simp: bit_simps dest: bit_u16_out)
  qed
  then have n: "unat (low32 t AND 0xffff) = length d"
    using assms(2) by (simp add: t(2) unat_ucast_u16)
  obtain s' where "storedLoop (length d) (DUMPBITS 16 u) = Inr s'"
      "at_byte rest (c - 4 - int (length d)) s'" "window_ok s'" "hist s' = hist s0 @ d"
      "outcap s' = outcap s0"
    using storedLoop_copies [OF u(3)] assms(3-5) window_rframe [OF fr] rframeD(4) [OF fr] by auto
  then show ?thesis
    using n complement_check [OF u(2)] assms(2) by (simp add: inflate_stored_def Let_def t(1) u(1))
qed

lemma inflate_block_stored:
  assumes "at_byte (stored_block l d @ rest) c s" "length d < 65536" "5 + int (length d) \<le> c"
    "window_ok s" "length (hist s) + length d \<le> outcap s"
  shows "\<exists>s'. inflate_block fuel s = Inr (0, l, s') \<and> at_byte rest (c - 5 - int (length d)) s' \<and>
    window_ok s' \<and> hist s' = hist s @ d \<and> outcap s' = outcap s"
proof -
  let ?v = "of_nat (length d) :: u16"
  have v: "unat ?v = length d" using assms(2) by (simp add: unsigned_of_nat take_bit_nat_eq_self_iff)
  obtain s1 s2 where h: "field 1 1 s = Inr (of_bool l, s1)" "field 2 3 s1 = Inr (0, s2)"
      "at_byte (le16 ?v @ le16 (NOT ?v) @ d @ rest) (c - 1) (DUMPBITS (bk s2 mod 8) s2)"
      "rframe s (DUMPBITS (bk s2 mod 8) s2)"
    using stored_header [of l _ c s] assms(1,3) by (fastforce simp: stored_block_def)
  have fr: "hist s2 = hist s" "window_ok s2 = window_ok s" "outcap s2 = outcap s"
    using window_rframe [OF h(4)] window_rframe [OF rframe_DUMPBITS [of s2]]
      rframeD(4) [OF h(4)] rframeD(4) [OF rframe_DUMPBITS [of s2]] by auto
  obtain s' where "inflate_stored s2 = Inr (0, s')" "at_byte rest (c - 1 - 4 - int (length d)) s'"
      "window_ok s'" "hist s' = hist s @ d" "outcap s' = outcap s"
    using inflate_stored_copies [OF h(3) v] assms(3-5) fr by auto
  then show ?thesis using h(1,2) by (simp add: inflate_block_def algebra_simps)
qed

lemma length_stored_block [simp]: "length (stored_block l d) = 5 + length d"
  by (simp add: stored_block_def le16_def)

lemma at_byte_hufts [simp]: "at_byte xs c (s\<lparr>hufts := h\<rparr>) = at_byte xs c s"
  by (simp add: at_byte_def)

lemma window_hufts [simp]:
  "hist (s\<lparr>hufts := h\<rparr>) = hist s" "window_ok (s\<lparr>hufts := h\<rparr>) = window_ok s"
  by (simp_all add: hist_def window_ok_def)

lemma blockLoop_stored:
  "blocks \<noteq> [] \<Longrightarrow> (\<forall>d \<in> set blocks. length d < 65536) \<Longrightarrow> length blocks < fuel \<Longrightarrow>
   at_byte (stored_stream blocks @ rest) c s \<Longrightarrow> int (length (stored_stream blocks)) \<le> c \<Longrightarrow>
   window_ok s \<Longrightarrow> length (hist s) + length (concat blocks) \<le> outcap s \<Longrightarrow>
   \<exists>s'. blockLoop fuel s = Inr (0, s') \<and> window_ok s' \<and> hist s' = hist s @ concat blocks \<and>
     outcap s' = outcap s \<and> inptr s' = rest"
proof (induction blocks arbitrary: fuel c s rule: stored_stream.induct)
  case 1
  then show ?case by simp
next
  case (2 d)
  then obtain f where f: "fuel = Suc f" by (cases fuel) auto
  have "\<exists>s'. inflate_block f (s\<lparr>hufts := 0\<rparr>) = Inr (0, True, s') \<and> at_byte rest (c - 5 - int (length d)) s' \<and>
      window_ok s' \<and> hist s' = hist (s\<lparr>hufts := 0\<rparr>) @ d \<and> outcap s' = outcap (s\<lparr>hufts := 0\<rparr>)"
    using "2.prems" by (intro inflate_block_stored) auto
  then show ?case by (auto simp: f at_byte_def)
next
  case (3 d e ds)
  then obtain f where f: "fuel = Suc f" by (cases fuel) auto
  let ?rest = "stored_stream (e # ds) @ rest"
  have "\<exists>s'. inflate_block f (s\<lparr>hufts := 0\<rparr>) = Inr (0, False, s') \<and> at_byte ?rest (c - 5 - int (length d)) s' \<and>
      window_ok s' \<and> hist s' = hist (s\<lparr>hufts := 0\<rparr>) @ d \<and> outcap s' = outcap (s\<lparr>hufts := 0\<rparr>)"
    using "3.prems" by (intro inflate_block_stored) auto
  then obtain t where t: "inflate_block f (s\<lparr>hufts := 0\<rparr>) = Inr (0, False, t)"
      "at_byte ?rest (c - 5 - int (length d)) t" "window_ok t" "hist t = hist s @ d" "outcap t = outcap s"
    by auto
  have "\<exists>s'. blockLoop f t = Inr (0, s') \<and> window_ok s' \<and> hist s' = hist t @ concat (e # ds) \<and>
      outcap s' = outcap t \<and> inptr s' = rest"
    using "3.prems" t(2-5) f by (intro "3.IH") auto
  then show ?case using t by (auto simp: f)
qed

lemma inflate_stored_stream:
  assumes "blocks \<noteq> []" "\<forall>d \<in> set blocks. length d < 65536" "length blocks < fuel"
    "inptr s = stored_stream blocks @ rest" "int (length (stored_stream blocks)) \<le> compressedSize s"
    "length (slide s) = WSIZE" "outptr s = []" "length (concat blocks) \<le> outcap s"
  shows "\<exists>s'. inflate fuel s = Inr (0, s') \<and> outptr s' = concat blocks \<and> inptr s' = rest"
proof -
  let ?s = "s\<lparr>wp := 0, bk := 0, bb := 0\<rparr>"
  have "hist ?s = []" using assms(7) by (simp add: hist_def)
  moreover from this have "window_ok ?s" using assms(6,7) by (simp add: window_ok_def) (simp add: WSIZE_def)
  moreover have "at_byte (stored_stream blocks @ rest) (compressedSize s) ?s"
    using assms(4) by (simp add: at_byte_def)
  ultimately obtain t where t: "blockLoop fuel ?s = Inr (0, t)" "window_ok t"
      "hist t = concat blocks" "outcap t = outcap s" "inptr t = rest"
    using blockLoop_stored [OF assms(1-3), of rest "compressedSize s" ?s] assms(5,8) by auto
  have "length (outptr t) + wp t \<le> outcap t" using length_hist [OF t(2)] t(3,4) assms(8) by simp
  then have "inflate fuel s = Inr (0, t\<lparr>outptr := hist t\<rparr>)"
    using t(1) by (simp add: inflate_def flush_def hist_def)
  then show ?thesis using t by auto
qed

section \<open>Code sets and the Kraft sum\<close>

definition kraft :: "nat list \<Rightarrow> nat" where
  "kraft ls = (\<Sum>l\<leftarrow>ls. if l = 0 then 0 else 2 ^ (BMAX - l))"

lemma countLengths_counts:
  "\<forall>l \<in> set ls. l < length c \<Longrightarrow>
     \<exists>c'. countLengths ls c = Inr c' \<and> length c' = length c \<and>
       (\<forall>k < length c. c' ! k = c ! k + count_list ls k)"
proof (induction ls arbitrary: c)
  case Nil
  then show ?case by simp
next
  case (Cons l ls)
  then show ?case using Cons.IH [of "c[l := c ! l + 1]"] by (auto simp: nth_list_update)
qed

lemma kraft_counts:
  "\<forall>l \<in> set ls. l \<le> BMAX \<Longrightarrow> kraft ls = (\<Sum>k = 1..BMAX. count_list ls k * 2 ^ (BMAX - k))"
proof (induction ls)
  case Nil
  then show ?case by (simp add: kraft_def)
next
  case (Cons l ls)
  have "(\<Sum>k = 1..BMAX. count_list (l # ls) k * 2 ^ (BMAX - k)) =
      (\<Sum>k = 1..BMAX. (if k = l then 2 ^ (BMAX - k) else 0) + count_list ls k * 2 ^ (BMAX - k))"
    by (intro sum.cong) auto
  also have "\<dots> = (if l \<in> {1..BMAX} then 2 ^ (BMAX - l) else 0) +
      (\<Sum>k = 1..BMAX. count_list ls k * 2 ^ (BMAX - k))"
    by (simp add: sum.distrib sum.delta)
  finally show ?case using Cons by (auto simp: kraft_def)
qed

lemma scanUp_takeWhile: "scanUp j xs = j + length (takeWhile (\<lambda>x. x = 0) xs)"
  by (induction xs arbitrary: j) auto

lemma scanDown_le: "scanDown i c \<le> i"
  by (induction i) auto

lemma scanDown_zero: "scanDown i c < k \<Longrightarrow> k \<le> i \<Longrightarrow> c ! k = 0"
  by (induction i) (auto simp: le_Suc_eq split: if_splits)

lemma dummyCodes_sum:
  "j \<le> i \<Longrightarrow> dummyCodes j i y c =
     (let r = y * 2 ^ (i - j) - (\<Sum>k = j..i. int (c ! k) * 2 ^ (i - k))
      in if r < 0 then None else Some r)"
proof (induction "i - j" arbitrary: j y)
  case 0
  then have "j = i" by simp
  then show ?case by (subst dummyCodes.simps) (simp add: Let_def)
next
  case (Suc x)
  then have l: "j < i" "x = i - Suc j" by auto
  let ?y = "y - int (c ! j)"
  have sp: "(\<Sum>k = j..i. int (c ! k) * 2 ^ (i - k)) =
      int (c ! j) * 2 ^ (i - j) + (\<Sum>k = Suc j..i. int (c ! k) * 2 ^ (i - k))"
    using l(1) by (simp add: sum.atLeast_Suc_atMost)
  have e: "?y * 2 * 2 ^ (i - Suc j) = ?y * 2 ^ (i - j)"
  proof -
    have "i - j = Suc (i - Suc j)" using l(1) by simp
    then have "(2 :: int) ^ (i - j) = 2 * 2 ^ (i - Suc j)" by (simp only: power_Suc)
    then show ?thesis by (simp only: mult.assoc)
  qed
  have neg: "?y < 0 \<Longrightarrow> ?y * 2 ^ (i - j) - (\<Sum>k = Suc j..i. int (c ! k) * 2 ^ (i - k)) < 0"
    by (smt (verit) mult_neg_pos sum_nonneg zero_less_power of_nat_0_le_iff zero_le_mult_iff)
  have "dummyCodes j i y c = (if ?y < 0 then None else dummyCodes (Suc j) i (?y * 2) c)"
    using l(1) by (subst dummyCodes.simps) (simp add: Let_def)
  also have "\<dots> = (if ?y < 0 then None else
      (let r = ?y * 2 ^ (i - j) - (\<Sum>k = Suc j..i. int (c ! k) * 2 ^ (i - k))
       in if r < 0 then None else Some r))"
    using Suc.hyps(1) [OF l(2), of "?y * 2"] l(1) e by (simp add: Let_def)
  finally show ?case using neg by (auto simp: Let_def sp algebra_simps)
qed

text \<open>The scans give the shortest and the longest used length, between which all counts lie.\<close>

lemma used_lengths:
  assumes "length c = BMAX + 1" "\<exists>k \<in> {1..BMAX}. c ! k \<noteq> 0"
  defines "j \<equiv> scanUp 1 (drop 1 c)" and "g \<equiv> scanDown BMAX c"
  shows "1 \<le> j" "j \<le> g" "g \<le> BMAX" "\<And>k. 1 \<le> k \<Longrightarrow> k \<le> BMAX \<Longrightarrow> c ! k \<noteq> 0 \<Longrightarrow> j \<le> k \<and> k \<le> g"
proof -
  let ?P = "takeWhile (\<lambda>x. x = 0) (drop 1 c)"
  have j: "j = 1 + length ?P" by (simp add: j_def scanUp_takeWhile)
  show "1 \<le> j" by (simp add: j)
  show "g \<le> BMAX" unfolding g_def by (rule scanDown_le)
  show r: "j \<le> k \<and> k \<le> g" if "1 \<le> k" "k \<le> BMAX" "c ! k \<noteq> 0" for k
  proof
    show "k \<le> g"
    proof (rule ccontr)
      assume "\<not> k \<le> g"
      then have "scanDown BMAX c < k" by (simp add: g_def)
      then show False using scanDown_zero [of BMAX c k] that(2,3) by simp
    qed
    show "j \<le> k"
    proof (rule ccontr)
      assume "\<not> j \<le> k"
      then have "k - 1 < length ?P" using that(1) by (simp add: j)
      then have "?P ! (k - 1) \<in> set ?P" by (rule nth_mem)
      then have "?P ! (k - 1) = 0" by (blast dest: set_takeWhileD)
      moreover have "?P ! (k - 1) = drop 1 c ! (k - 1)"
        using \<open>k - 1 < length ?P\<close> by (rule takeWhile_nth)
      moreover have "drop 1 c ! (k - 1) = c ! k" using that(1,2) assms(1) by simp
      ultimately show False using that(3) by simp
    qed
  qed
  show "j \<le> g" using assms(2) r by fastforce
qed

lemma dummyCodes_kraft:
  assumes c: "length c = BMAX + 1" "\<And>k. k \<le> BMAX \<Longrightarrow> c ! k = count_list ls k"
    and ls: "\<forall>l \<in> set ls. l \<le> BMAX" "\<exists>l \<in> set ls. l \<noteq> 0"
  defines "j \<equiv> scanUp 1 (drop 1 c)" and "g \<equiv> scanDown BMAX c"
  shows "dummyCodes j g (2 ^ j) c = None \<longleftrightarrow> 2 ^ BMAX < kraft ls"
    "dummyCodes j g (2 ^ j) c = Some y \<Longrightarrow> y * 2 ^ (BMAX - g) = 2 ^ BMAX - int (kraft ls)"
proof -
  obtain l where "l \<in> set ls" "l \<noteq> 0" using ls(2) by blast
  then have "c ! l \<noteq> 0" "1 \<le> l" "l \<le> BMAX" using c(2) ls(1) by (auto simp: count_list_0_iff)
  then have "\<exists>k \<in> {1..BMAX}. c ! k \<noteq> 0" by auto
  note u = used_lengths [OF c(1) this, folded j_def g_def]
  let ?r = "2 ^ j * 2 ^ (g - j) - (\<Sum>k = j..g. int (c ! k) * 2 ^ (g - k))"
  have "(\<Sum>k = 1..BMAX. count_list ls k * 2 ^ (BMAX - k)) = (\<Sum>k = j..g. c ! k * 2 ^ (BMAX - k))"
  proof (rule sum.mono_neutral_cong_right)
    show "\<forall>i \<in> {1..BMAX} - {j..g}. count_list ls i * 2 ^ (BMAX - i) = 0" using u(4) c(2) by fastforce
  qed (use u(1-3) c(2) in auto)
  also have "\<dots> = (\<Sum>k = j..g. c ! k * 2 ^ (g - k)) * 2 ^ (BMAX - g)"
    unfolding sum_distrib_right
    by (intro sum.cong) (use u(3) in \<open>auto simp: mult.assoc simp flip: power_add\<close>)
  finally have k: "int (kraft ls) = (\<Sum>k = j..g. int (c ! k) * 2 ^ (g - k)) * 2 ^ (BMAX - g)"
    by (simp add: kraft_counts [OF ls(1)])
  have "(2 :: int) ^ BMAX = 2 ^ j * 2 ^ (g - j) * 2 ^ (BMAX - g)"
    using u(2,3) by (simp flip: power_add)
  then have r: "?r * 2 ^ (BMAX - g) = 2 ^ BMAX - int (kraft ls)"
    by (simp add: k left_diff_distrib)
  have "dummyCodes j g (2 ^ j) c = (if ?r < 0 then None else Some ?r)"
    using dummyCodes_sum [OF u(2)] by (simp add: Let_def)
  moreover have "?r < 0 \<longleftrightarrow> 2 ^ BMAX < int (kraft ls)"
    using r mult_less_0_iff [of ?r "2 ^ (BMAX - g)"] by (simp add: not_less [symmetric])
  moreover have "2 ^ BMAX < int (kraft ls) \<longleftrightarrow> 2 ^ BMAX < kraft ls"
    by (metis of_nat_less_iff of_nat_numeral of_nat_power)
  ultimately show "dummyCodes j g (2 ^ j) c = None \<longleftrightarrow> 2 ^ BMAX < kraft ls"
    "dummyCodes j g (2 ^ j) c = Some y \<Longrightarrow> y * 2 ^ (BMAX - g) = 2 ^ BMAX - int (kraft ls)"
    using r by (auto split: if_splits)
qed

lemma newTable_code: "newTable k l g a c hb s = Inr (Inl r, s') \<Longrightarrow> r = 3"
  by (auto simp: newTable_def Let_def bindE_Inr_iff split: if_splits)

lemma res_split:
  "(case res of Inl code \<Rightarrow> Inr (Inl code, s) | Inr hb \<Rightarrow> f hb) = Inr (Inl r, s') \<longleftrightarrow>
     res = Inl r \<and> s' = s \<or> (\<exists>hb. res = Inr hb \<and> f hb = Inr (Inl r, s'))"
  by (cases res) auto

lemma makeTables_code: "makeTables k l g a c hb s = Inr (Inl r, s') \<Longrightarrow> r = 3"
proof (induction k l g a c hb s rule: makeTables.induct)
  case (1 k l g a c hb s)
  show ?case
  proof (cases "int k > hb_w hb + int l")
    case True
    then obtain res t where "newTable k l g a c hb s = Inr (res, t)"
        "(case res of Inl code \<Rightarrow> Inr (Inl code, t) | Inr hb \<Rightarrow> makeTables k l g a c hb t) = Inr (Inl r, s')"
      using "1.prems" by (subst (asm) makeTables.simps) (auto simp: bindE_Inr_iff)
    then show ?thesis using "1.IH" [OF True, of "(res, t)"] by (auto simp: res_split dest: newTable_code)
  next
    case False
    then show ?thesis using "1.prems" by (subst (asm) makeTables.simps) simp
  qed
qed

lemma codeLoop_code: "codeLoop a k l g n simple c d e v (hb, s) = Inr (Inl r, s') \<Longrightarrow> r = 3"
  by (induction a arbitrary: hb s)
     (auto simp: bindE_Inr_iff res_split dest: makeTables_code)

lemma lengthLoop_code: "lengthLoop ks l g n simple c d e v (hb, s) = Inr (Inl r, s') \<Longrightarrow> r = 3"
  by (induction ks arbitrary: hb s) (auto simp: bindE_Inr_iff res_split dest: codeLoop_code)

lemma build_split:
  "(case res of Inl code \<Rightarrow> Inr (code, None, l, u) | Inr hb \<Rightarrow> Inr (k, f hb, l, u)) =
     Inr (r, t, m', s') \<longleftrightarrow>
   l = m' \<and> u = s' \<and> (res = Inl r \<and> t = None \<or> (\<exists>hb. res = Inr hb \<and> r = k \<and> t = f hb))"
  by (cases res) auto

lemma buildTables_code:
  "buildTables b n simple d e l j g y c s = Inr (r, t, m', s') \<Longrightarrow>
     r = 3 \<or> r = (if y \<noteq> 0 \<and> g \<noteq> 1 then 1 else 0)"
  by (auto simp only: buildTables_def Let_def bindE_Inr_iff build_split split_paired_Ex split_def fst_conv snd_conv
      dest!: lengthLoop_code)

lemma count_list_all: "count_list xs a = length xs \<longleftrightarrow> (\<forall>x \<in> set xs. x = a)"
proof (induction xs)
  case (Cons x xs)
  then show ?case using count_le_length [of xs a] by (auto split: if_splits)
qed simp

lemma huft_build_cases:
  assumes n: "0 < n" "n \<le> length b" and le: "\<forall>l \<in> set (take n b). l \<le> BMAX"
  shows "2 ^ BMAX < kraft (take n b) \<Longrightarrow> \<exists>m'. huft_build b n simple d e m s = Inr (2, None, m', s)"
    and "kraft (take n b) \<le> 2 ^ BMAX \<Longrightarrow> huft_build b n simple d e m s = Inr (r, t, m', s') \<Longrightarrow>
      r = 0 \<or> r = 3 \<or> r = 1 \<and> kraft (take n b) < 2 ^ BMAX"
proof -
  let ?ls = "take n b"
  obtain c where c: "countLengths ?ls (replicate (BMAX + 1) 0) = Inr c" "length c = BMAX + 1"
      "\<And>k. k \<le> BMAX \<Longrightarrow> c ! k = count_list ?ls k"
  proof -
    have "\<forall>l \<in> set ?ls. l < length (replicate (BMAX + 1) (0 :: nat))" using le by auto
    from countLengths_counts [OF this] show ?thesis by (auto intro!: that simp: nth_Cons')
  qed
  have zero: "c ! 0 = n \<Longrightarrow> kraft ?ls = 0"
  proof -
    assume "c ! 0 = n"
    then have "count_list ?ls 0 = length ?ls" using c(3) n by simp
    then have "\<forall>l \<in> set ?ls. l = 0" by (simp only: count_list_all)
    then show ?thesis by (simp add: kraft_def)
  qed
  let ?j = "scanUp 1 (drop 1 c)" and ?g = "scanDown BMAX c"
  have used: "c ! 0 \<noteq> n \<Longrightarrow> \<exists>l \<in> set ?ls. l \<noteq> 0"
  proof (rule ccontr)
    assume "c ! 0 \<noteq> n" "\<not> (\<exists>l \<in> set ?ls. l \<noteq> 0)"
    moreover from this(2) have "count_list ?ls 0 = length ?ls" unfolding count_list_all by blast
    ultimately show False using c(3) n by simp
  qed
  have dk: "c ! 0 \<noteq> n \<Longrightarrow> dummyCodes ?j ?g (2 ^ ?j) c = None \<longleftrightarrow> 2 ^ BMAX < kraft ?ls"
    by (rule dummyCodes_kraft(1) [OF c(2) _ le used]) (simp_all add: c(3))
  show "\<exists>m'. huft_build b n simple d e m s = Inr (2, None, m', s)" if k: "2 ^ BMAX < kraft ?ls"
  proof -
    have "c ! 0 \<noteq> n" using zero k by auto
    then have "dummyCodes ?j ?g (2 ^ ?j) c = None" using dk k by simp
    then show ?thesis using n \<open>c ! 0 \<noteq> n\<close> by (simp add: huft_build_def c(1) [simplified] Let_def)
  qed
  show "r = 0 \<or> r = 3 \<or> r = 1 \<and> kraft ?ls < 2 ^ BMAX"
    if k: "kraft ?ls \<le> 2 ^ BMAX" and h: "huft_build b n simple d e m s = Inr (r, t, m', s')"
  proof (cases "c ! 0 = n")
    case True
    then show ?thesis using h n by (simp add: huft_build_def c(1) [simplified])
  next
    case False
    then obtain y where y: "dummyCodes ?j ?g (2 ^ ?j) c = Some y" using dk k by fastforce
    have "kraft ?ls < 2 ^ BMAX" if "y \<noteq> 0"
    proof -
      have "y * 2 ^ (BMAX - ?g) = 2 ^ BMAX - int (kraft ?ls)"
        by (rule dummyCodes_kraft(2) [OF c(2) _ le used [OF False] y]) (rule c(3))
      then have "int (kraft ?ls) \<noteq> 2 ^ BMAX" using that by auto
      then show ?thesis using k by (metis le_neq_implies_less of_nat_numeral of_nat_power)
    qed
    moreover obtain l where "buildTables b n simple d e l ?j ?g (nat y) c s = Inr (r, t, m', s')"
      using h n False y by (auto simp: huft_build_def c(1) [simplified] Let_def)
    ultimately show ?thesis using buildTables_code by fastforce
  qed
qed

section \<open>The start state and the file header\<close>

lemma window_ok_start: "window_ok (startState allocs bs csize)" "hist (startState allocs bs csize) = []"
proof -
  show "hist (startState allocs bs csize) = []" by (simp add: hist_def startState_def)
  then show "window_ok (startState allocs bs csize)"
    by (simp add: window_ok_def startState_def) (simp add: WSIZE_def)
qed

text \<open>The four bytes in which the header stores the compressed size.\<close>

definition size_bytes :: "u32 \<Rightarrow> u8 list" where
  "size_bytes n = [ucast n, ucast (drop_bit 8 n), ucast (drop_bit 16 n), ucast (drop_bit 24 n)]"

lemma le32_size_bytes: "le32 (size_bytes n @ xs) = n"
proof (rule bit_word_eqI)
  fix k assume "k < LENGTH(32)"
  then consider "k < 8" | "8 \<le> k" "k < 16" | "16 \<le> k" "k < 24" | "24 \<le> k" "k < 32" by fastforce
  then show "bit (le32 (size_bytes n @ xs)) k = bit n k"
    by cases (auto simp: le32_def size_bytes_def bit_simps)
qed

definition wimc_file :: "u32 \<Rightarrow> u8 list \<Rightarrow> u8 list \<Rightarrow> u8 list" where
  "wimc_file csize skip dat = [0x57, 0x69, 0x6D, 0x43] @ size_bytes csize @ skip @ dat"

lemma wimc_parts:
  assumes "length skip = 12"
  shows "findMagic 0 (wimc_file n skip dat) = Some 0" "drop 20 (wimc_file n skip dat) = dat"
    "le32 (drop 4 (wimc_file n skip dat)) = n" "20 \<le> length (wimc_file n skip dat)"
  using assms le32_size_bytes [of n "skip @ dat"]
  by (simp_all add: wimc_file_def size_bytes_def)

text \<open>A state without window, for the concrete runs that do not produce output.\<close>

definition emptyState :: "u8 list \<Rightarrow> Inf" where
  "emptyState bs = \<lparr>compressedSize = int (length bs), inptr = bs, bytebuf = 0, bb = 0, bk = 0, wp = 0,
     slide = [], outptr = [], outcap = 0, heap = [], mallocs = 8, hufts = 0\<rparr>"

section \<open>Properties\<close>

text \<open>
  The bit reader: with enough input left, reading a field of n bits (NEEDBITS, mask,
  DUMPBITS) returns the number whose binary digits, least significant first, are the next n
  bits of the input, removes exactly those bits and touches nothing outside the reader.
\<close>

theorem bit_reader_stream:
  "reader_ok s \<Longrightarrow> n \<le> 32 \<Longrightarrow> n \<le> length (bits s) \<Longrightarrow> m = mask n \<Longrightarrow>
   \<exists>s'. field n m s = Inr (horner_sum of_bool 2 (take n (bits s)), s') \<and>
     reader_ok s' \<and> bits s' = drop n (bits s) \<and> rframe s s'"
  by (rule field_bits)

theorem bit_reader_stream_witness:
  "\<exists>s'. field 3 7 (emptyState [0xA5, 1]) = Inr (5, s') \<and> reader_ok s'"
proof -
  let ?s = "emptyState [0xA5, 1]"
  have r: "reader_ok ?s" by (simp add: reader_ok_def emptyState_def)
  have b: "horner_sum of_bool 2 (take 3 (bits ?s)) = (5 :: nat)" "3 \<le> length (bits ?s)"
    by code_simp+
  have "(7 :: u32) = mask 3" by (simp add: mask_eq_exp_minus_1)
  then show ?thesis using bit_reader_stream [OF r, of 3 7] b by auto
qed

text \<open>
  C39. A match copy is the LZ77 copy.  For every match of n bytes whose distance reaches into the
  output and is at most 32768 - n, or is the full window of 32768, the chunked copy through the
  circular window, with its flushes, returns and appends to the output exactly the bytes of the
  byte-by-byte copy; the index computed by the decoder with unsigned subtractions is the position
  of the match.  The distances between 32768 - n and 32768 are left out: there the code calls
  memcpy on overlapping areas, as far\_match\_overlaps shows.
\<close>

theorem window_copy_lz77:
  assumes "window_ok s" "0 < dist" "dist \<le> length (hist s)" "0 < n"
    "dist + n \<le> WSIZE \<or> dist = WSIZE" "length (hist s) + n \<le> outcap s"
  shows "\<exists>s'. copyLoop n (nat ((int (wp s) - int dist) mod 2 ^ 32)) s = Inr s' \<and> window_ok s' \<and>
    hist s' = lz_copy n dist (hist s) \<and> frame s s'"
proof -
  have d: "dist \<le> WSIZE" using assms(5) by auto
  show ?thesis using copyLoop_lz [OF assms(1,2) d assms(3,5,6) match_index [OF assms(1) d assms(3)] assms(4)] .
qed

theorem window_copy_lz77_witness:
  "\<exists>s s'. hist s = [1, 2] \<and> copyLoop 5 0 s = Inr s' \<and> hist s' = [1, 2, 1, 2, 1, 2, 1]"
proof -
  let ?s = "pushed 2 (pushed 1 (startState 0 [] 0))"
  have h: "window_ok ?s" "hist ?s = [1, 2]"
    by (simp_all add: window_pushed hist_pushed window_ok_start)
  have "wp ?s = 2" using hist_mod [OF h(1)] h(2) by (simp add: WSIZE_def)
  moreover have "outcap ?s = OUTCAP"
    by (simp add: frameD(6) [OF frame_pushed]) (simp add: startState_def)
  moreover have "lz_copy 5 2 [1, 2] = [1, 2, 1, 2, 1, 2, 1]" by code_simp
  ultimately show ?thesis
    using window_copy_lz77 [OF h(1), of 2 5] h(2) by (auto simp: OUTCAP_def WSIZE_def)
qed

text \<open>
  C40. Stored images decompress to their data: for a file that starts with the header, the
  harness finds it, inflate returns 0 and the output is the concatenation of the blocks, for
  any number of stored blocks of at most 65535 bytes that fit the output buffer.
\<close>

theorem decompress_stored_image:
  assumes "blocks \<noteq> []" "\<forall>d \<in> set blocks. length d < 65536" "length blocks < fuel"
    "length (concat blocks) \<le> OUTCAP" "length skip = 12" "length (stored_stream blocks) \<le> unat csize"
  shows "oracle_main fuel allocs (wimc_file csize skip (stored_stream blocks @ rest)) =
    Inr (Some (0, concat blocks))"
proof -
  let ?s = "startState allocs (stored_stream blocks @ rest) (uint csize)"
  have "int (length (stored_stream blocks)) \<le> uint csize"
    using assms(6) by (metis of_nat_le_iff of_nat_unat)
  then obtain s' where "inflate fuel ?s = Inr (0, s')" "outptr s' = concat blocks"
    using inflate_stored_stream [OF assms(1-3), of ?s rest] assms(4)
    by (auto simp: startState_def)
  then show ?thesis
    using wimc_parts [OF assms(5)] by (simp add: oracle_main_def not_less)
qed

theorem decompress_stored_image_witness:
  "oracle_main 3 0 (wimc_file 14 (replicate 12 0) (stored_stream [[104, 105], [33, 10]])) =
    Inr (Some (0, [104, 105, 33, 10]))"
  using decompress_stored_image [of "[[104, 105], [33, 10]]" 3 "replicate 12 0" 14 0 "[]"]
  by (simp add: OUTCAP_def)

text \<open>
  huft\_build rejects exactly the oversubscribed code sets: for lengths of at most 16 it
  returns 2, with nothing allocated, exactly when the Kraft sum of the lengths exceeds one,
  and it returns 1 only for an incomplete set.
\<close>

theorem huft_build_oversubscribed:
  assumes "0 < n" "n \<le> length b" "\<forall>l \<in> set (take n b). l \<le> BMAX"
  shows "((\<exists>t m' s'. huft_build b n simple d e m s = Inr (2, t, m', s')) \<longleftrightarrow>
      2 ^ BMAX < kraft (take n b)) \<and>
    (huft_build b n simple d e m s = Inr (2, t, m', s') \<longrightarrow> t = None \<and> s' = s) \<and>
    (huft_build b n simple d e m s = Inr (1, t, m', s') \<longrightarrow> kraft (take n b) < 2 ^ BMAX)"
  using huft_build_cases(1) [OF assms, of simple d e m s]
    huft_build_cases(2) [OF assms, of simple d e m s]
  by (cases "2 ^ BMAX < kraft (take n b)") (auto simp: not_less)

theorem huft_build_oversubscribed_witness:
  "\<exists>t m' s'. huft_build [1, 1, 1] 3 0 None None 7 (startState 0 [] 0) = Inr (2, t, m', s')"
  using huft_build_oversubscribed [of 3 "[1, 1, 1]" 0 None None 7 "startState 0 [] 0"]
  by (simp add: BMAX_def kraft_def)

text \<open>
  Three inputs on which the C code has no defined behaviour: a code set with one one-bit code
  and an unused symbol makes huft\_build read an uninitialised value, a dynamic block whose
  code length code is empty makes the decoder follow a null pointer, and a match at a
  distance just below the window size is an overlapping memcpy.
\<close>

lemma single_code_reads_uninitialised:
  "huft_build [1, 0] 2 0 (Some cpdist) (Some cpdext) 6 (emptyState []) = Inl Uninitialised"
  by code_simp

lemma empty_code_null_pointer: "inflate_dynamic 1 (emptyState [0, 0, 0]) = Inl NullPointer"
  by code_simp

lemma far_match_overlaps:
  "wp s = 0 \<Longrightarrow> copyLoop 3 1 s = Inl Overlap"
  by (subst copyLoop.simps) (simp add: copyStep_def WSIZE_def)

end
