(* ===== verification/Scheduler.thy ===== *)
theory Scheduler
  imports Prelude
begin

text \<open>
  The cooperative scheduler of schedLib: the logical clock, the lock arbiter and the dispatcher of
  SmpHarness.h, the two execution drivers of SmpDrivers.h and the mock processor of MockCpuAgent.h.

  An agent is the state of its derived class with the identifier and the outbox of the base class. The
  virtual methods are a record; a system with several kinds of agents has a sum type as its state. The
  result pointer of a store-conditional is a flag: the result goes to the agent that staged the effect,
  whose private state the pointer names in the source. Under the contract of the harness a step touches
  the private state and the outbox only, so one step of a thread is one transition of the threaded driver.
\<close>

section \<open>Clock and lock arbiter\<close>

type_synonym AgentId = int

type_synonym Reservations = "AgentId \<rightharpoonup> u64"

definition clearGranule :: "u64 \<Rightarrow> Reservations \<Rightarrow> Reservations" where
  "clearGranule addr m = (\<lambda>a. if m a = Some addr then None else m a)"

definition arb_loadLocked :: "AgentId \<Rightarrow> u64 \<Rightarrow> Reservations \<Rightarrow> Reservations" where
  "arb_loadLocked a addr m = m(a \<mapsto> addr)"

definition arb_storeCond :: "AgentId \<Rightarrow> u64 \<Rightarrow> Reservations \<Rightarrow> bool \<times> Reservations" where
  "arb_storeCond a addr m =
    (let ok = (m a = Some addr) in (ok, if ok then clearGranule addr m else m))"

definition arb_store :: "AgentId \<Rightarrow> u64 \<Rightarrow> Reservations \<Rightarrow> Reservations" where
  "arb_store a addr m = clearGranule addr m"

section \<open>Agents and effects\<close>

datatype EffectKind = LoadLocked | StoreCond | Store | Ipi

record Effect =
  ef_kind :: EffectKind
  ef_source :: AgentId
  ef_target :: AgentId
  ef_addr :: u64
  ef_value :: u64
  ef_ack :: bool

definition newEffect :: Effect where
  "newEffect = \<lparr>ef_kind = LoadLocked, ef_source = 0, ef_target = 0, ef_addr = 0, ef_value = 0, ef_ack = False\<rparr>"

record 's Agent =
  ag_id :: AgentId
  ag_outbox :: "Effect list"
  ag_state :: 's

record 's IAgent =
  runnable :: "'s \<Rightarrow> bool"
  agent_step :: "AgentId \<Rightarrow> u32 \<Rightarrow> 's \<Rightarrow> 's \<times> Effect list"
  onSyncBegin :: "'s \<Rightarrow> 's"
  ackSuccess :: "bool \<Rightarrow> 's \<Rightarrow> 's"

definition canRun :: "'s IAgent \<Rightarrow> 's Agent \<Rightarrow> bool" where
  "canRun A a = runnable A (ag_state a)"

definition stepAgent :: "'s IAgent \<Rightarrow> u32 \<Rightarrow> 's Agent \<Rightarrow> 's Agent" where
  "stepAgent A q a = (case agent_step A (ag_id a) q (ag_state a) of (s, es) \<Rightarrow>
     a\<lparr>ag_state := s, ag_outbox := ag_outbox a @ es\<rparr>)"

section \<open>The dispatcher\<close>

record 's Dispatcher =
  d_agents :: "'s Agent list"
  d_clock :: u64
  d_locks :: Reservations
  d_quantum :: u32

definition newDispatcher :: "u32 \<Rightarrow> 's Dispatcher" where
  "newDispatcher q = \<lparr>d_agents = [], d_clock = 0, d_locks = Map.empty, d_quantum = q\<rparr>"

definition addAgent :: "'s Agent \<Rightarrow> 's Dispatcher \<Rightarrow> AgentId \<times> 's Dispatcher" where
  "addAgent a d = (let i = int (length (d_agents d))
     in (i, d\<lparr>d_agents := d_agents d @ [a\<lparr>ag_id := i\<rparr>]\<rparr>))"

definition ackAgent :: "'s IAgent \<Rightarrow> AgentId \<Rightarrow> bool \<Rightarrow> 's Agent \<Rightarrow> 's Agent" where
  "ackAgent A i ok a = (if ag_id a = i then a\<lparr>ag_state := ackSuccess A ok (ag_state a)\<rparr> else a)"

definition applyEffect :: "'s IAgent \<Rightarrow> Effect \<Rightarrow> 's Dispatcher \<Rightarrow> 's Dispatcher" where
  "applyEffect A e d =
    (case ef_kind e of
       LoadLocked \<Rightarrow> d\<lparr>d_locks := arb_loadLocked (ef_source e) (ef_addr e) (d_locks d)\<rparr>
     | StoreCond \<Rightarrow> (case arb_storeCond (ef_source e) (ef_addr e) (d_locks d) of (ok, m) \<Rightarrow>
         let d1 = d\<lparr>d_locks := m\<rparr>
         in if ef_ack e then d1\<lparr>d_agents := map (ackAgent A (ef_source e) ok) (d_agents d1)\<rparr> else d1)
     | Store \<Rightarrow> d\<lparr>d_locks := arb_store (ef_source e) (ef_addr e) (d_locks d)\<rparr>
     | Ipi \<Rightarrow> d)"

definition drainAgent :: "'s IAgent \<Rightarrow> nat \<Rightarrow> 's Dispatcher \<Rightarrow> 's Dispatcher" where
  "drainAgent A i d =
    (let d1 = fold (applyEffect A) (ag_outbox (d_agents d ! i)) d
     in d1\<lparr>d_agents := (d_agents d1)[i := (d_agents d1 ! i)\<lparr>ag_outbox := []\<rparr>]\<rparr>)"

definition syncPhase :: "'s IAgent \<Rightarrow> 's Dispatcher \<Rightarrow> 's Dispatcher" where
  "syncPhase A d =
    fold (drainAgent A) [0..<length (d_agents d)]
      (d\<lparr>d_agents := map (\<lambda>a. a\<lparr>ag_state := onSyncBegin A (ag_state a)\<rparr>) (d_agents d)\<rparr>)"

definition dispatcher_reset :: "'s Dispatcher \<Rightarrow> 's Dispatcher" where
  "dispatcher_reset d = d\<lparr>d_clock := 0, d_locks := Map.empty,
     d_agents := map (\<lambda>a. a\<lparr>ag_outbox := []\<rparr>) (d_agents d)\<rparr>"

definition advance :: "'s Dispatcher \<Rightarrow> 's Dispatcher" where
  "advance d = d\<lparr>d_clock := d_clock d + ucast (d_quantum d)\<rparr>"

definition setQuantum :: "u32 \<Rightarrow> 's Dispatcher \<Rightarrow> 's Dispatcher" where
  "setQuantum q d = d\<lparr>d_quantum := q\<rparr>"

section \<open>The sequential driver\<close>

text \<open>One pass over the agents: whether one was runnable, and the agents after it.\<close>

fun stepAll :: "'s IAgent \<Rightarrow> u32 \<Rightarrow> 's Agent list \<Rightarrow> bool \<times> 's Agent list" where
  "stepAll A q [] = (False, [])"
| "stepAll A q (a # as) =
    (let r = canRun A a; a1 = (if r then stepAgent A q a else a)
     in case stepAll A q as of (any, as1) \<Rightarrow> (r \<or> any, a1 # as1))"

partial_function (option) sequential_run :: "'s IAgent \<Rightarrow> u64 \<Rightarrow> 's Dispatcher \<Rightarrow> 's Dispatcher option" where
  "sequential_run A until d =
    (if d_clock d < until then
       (case stepAll A (d_quantum d) (d_agents d) of (anyRunnable, as) \<Rightarrow>
          if \<not> anyRunnable then Some d
          else sequential_run A until (advance (syncPhase A (d\<lparr>d_agents := as\<rparr>))))
     else Some d)"

text \<open>The run of the dispatcher with the driver that is set, if one is.\<close>

definition dispatcher_run ::
  "(u64 \<Rightarrow> 's Dispatcher \<Rightarrow> 's Dispatcher option) option \<Rightarrow> u64 \<Rightarrow> 's Dispatcher \<Rightarrow> 's Dispatcher option" where
  "dispatcher_run m_driver until d =
    (case m_driver of
       None \<Rightarrow> Some d
     | Some run \<Rightarrow> if d_agents d = [] then Some d else run until d)"

section \<open>The threaded driver\<close>

text \<open>
  The program counter of an agent's thread: at the test of the done flag, before its step, waiting at the
  barrier, or finished. The barrier's completion function runs when all have arrived.
\<close>

datatype ThreadPc = LoopTop | Enter | AtBarrier | Exited

type_synonym 's Threads = "ThreadPc list \<times> 's Dispatcher \<times> bool"

definition someRunnable :: "'s IAgent \<Rightarrow> 's Dispatcher \<Rightarrow> bool" where
  "someRunnable A d = list_ex (canRun A) (d_agents d)"

definition onBarrier :: "'s IAgent \<Rightarrow> u64 \<Rightarrow> 's Dispatcher \<times> bool \<Rightarrow> 's Dispatcher \<times> bool" where
  "onBarrier A until s =
    (case s of (d, fin) \<Rightarrow>
      let d1 = advance (syncPhase A d)
      in (d1, fin \<or> d_clock d1 \<ge> until \<or> \<not> someRunnable A d1))"

definition runAgent :: "'s IAgent \<Rightarrow> u32 \<Rightarrow> 's Agent \<Rightarrow> 's Agent" where
  "runAgent A q a = (if canRun A a then stepAgent A q a else a)"

inductive thread_step :: "'s IAgent \<Rightarrow> u64 \<Rightarrow> 's Threads \<Rightarrow> 's Threads \<Rightarrow> bool" for A :: "'s IAgent" and until :: u64 where
  leave: "i < length pcs \<Longrightarrow> pcs ! i = LoopTop \<Longrightarrow> fin \<Longrightarrow> thread_step A until (pcs, d, fin) (pcs[i := Exited], d, fin)"
| enter: "i < length pcs \<Longrightarrow> pcs ! i = LoopTop \<Longrightarrow> \<not> fin \<Longrightarrow> thread_step A until (pcs, d, fin) (pcs[i := Enter], d, fin)"
| agent: "i < length pcs \<Longrightarrow> pcs ! i = Enter \<Longrightarrow>
    thread_step A until (pcs, d, fin)
      (pcs[i := AtBarrier], d\<lparr>d_agents := (d_agents d)[i := runAgent A (d_quantum d) (d_agents d ! i)]\<rparr>, fin)"
| barrier: "list_all (\<lambda>p. p = AtBarrier) pcs \<Longrightarrow> pcs \<noteq> [] \<Longrightarrow> onBarrier A until (d, fin) = (d1, fin1) \<Longrightarrow>
    thread_step A until (pcs, d, fin) (map (\<lambda>_. LoopTop) pcs, d1, fin1)"

inductive_cases thread_stepE: "thread_step A until (pcs, d, fin) c"

definition threads_start :: "'s Dispatcher \<Rightarrow> 's Threads" where
  "threads_start d = (map (\<lambda>_. LoopTop) (d_agents d), d, False)"

definition threads_joined :: "'s Threads \<Rightarrow> bool" where
  "threads_joined c = list_all (\<lambda>p. p = Exited) (fst c)"

section \<open>The mock processor\<close>

datatype Tx = Idle | AwaitSc | AwaitAck

record MockCpuAgent =
  m_lockAddr :: u64
  m_lockEveryN :: u32
  m_counter :: u64
  m_rng :: u64
  m_callCount :: u64
  m_grants :: u64
  m_grantLog :: "u8 list"
  m_halted :: bool
  m_tx :: Tx
  m_lastScOk :: bool

definition newMock :: "u64 \<Rightarrow> u32 \<Rightarrow> u64 \<Rightarrow> MockCpuAgent" where
  "newMock addr n seed = \<lparr>m_lockAddr = addr, m_lockEveryN = (if n \<noteq> 0 then n else 1), m_counter = 0, m_rng = seed,
     m_callCount = 0, m_grants = 0, m_grantLog = [], m_halted = False, m_tx = Idle, m_lastScOk = False\<rparr>"

definition lcg :: "u64 \<Rightarrow> u64" where
  "lcg r = r * 6364136223846793005 + 1442695040888963407"

definition mock_step :: "AgentId \<Rightarrow> u32 \<Rightarrow> MockCpuAgent \<Rightarrow> MockCpuAgent \<times> Effect list" where
  "mock_step i q a =
    (let a1 = a\<lparr>m_counter := m_counter a + ucast q, m_rng := (lcg ^^ unat q) (m_rng a),
                m_callCount := m_callCount a + 1\<rparr>
     in case m_tx a1 of
       Idle \<Rightarrow>
         if m_callCount a1 mod ucast (m_lockEveryN a1) = 0
         then (a1\<lparr>m_tx := AwaitSc\<rparr>, [newEffect\<lparr>ef_kind := LoadLocked, ef_source := i, ef_addr := m_lockAddr a1\<rparr>])
         else (a1, [])
     | AwaitSc \<Rightarrow>
         (a1\<lparr>m_tx := AwaitAck\<rparr>, [newEffect\<lparr>ef_kind := StoreCond, ef_source := i, ef_addr := m_lockAddr a1,
            ef_value := m_rng a1, ef_ack := True\<rparr>])
     | AwaitAck \<Rightarrow>
         (a1\<lparr>m_grants := (if m_lastScOk a1 then m_grants a1 + 1 else m_grants a1),
            m_grantLog := m_grantLog a1 @ [if m_lastScOk a1 then 1 else 0], m_tx := Idle\<rparr>, []))"

definition mock_halt :: "MockCpuAgent \<Rightarrow> MockCpuAgent" where
  "mock_halt a = a\<lparr>m_halted := True\<rparr>"

definition mock_release :: "MockCpuAgent \<Rightarrow> MockCpuAgent" where
  "mock_release a = a\<lparr>m_halted := False\<rparr>"

definition mockAgent :: "MockCpuAgent IAgent" where
  "mockAgent = \<lparr>runnable = (\<lambda>a. \<not> m_halted a), agent_step = mock_step, onSyncBegin = id,
     ackSuccess = (\<lambda>ok a. a\<lparr>m_lastScOk := ok\<rparr>)\<rparr>"

section \<open>The two drivers agree\<close>

lemma stepAll_eq: "stepAll A q as = (list_ex (canRun A) as, map (runAgent A q) as)"
  by (induction as) (auto simp: runAgent_def Let_def)

lemma fold_apply_keeps:
  "length (d_agents (fold (applyEffect A) es d)) = length (d_agents d) \<and>
   d_quantum (fold (applyEffect A) es d) = d_quantum d \<and> d_clock (fold (applyEffect A) es d) = d_clock d"
proof (induction es arbitrary: d)
  case (Cons e es)
  have "length (d_agents (applyEffect A e d)) = length (d_agents d) \<and>
      d_quantum (applyEffect A e d) = d_quantum d \<and> d_clock (applyEffect A e d) = d_clock d"
    by (simp add: applyEffect_def Let_def split: EffectKind.split prod.split)
  then show ?case using Cons by simp
qed simp

lemma fold_drain_keeps:
  "length (d_agents (fold (drainAgent A) is d)) = length (d_agents d) \<and>
   d_quantum (fold (drainAgent A) is d) = d_quantum d \<and> d_clock (fold (drainAgent A) is d) = d_clock d"
proof (induction "is" arbitrary: d)
  case (Cons i js)
  have "length (d_agents (drainAgent A i d)) = length (d_agents d) \<and>
      d_quantum (drainAgent A i d) = d_quantum d \<and> d_clock (drainAgent A i d) = d_clock d"
    using fold_apply_keeps [of A "ag_outbox (d_agents d ! i)" d] by (simp add: drainAgent_def Let_def)
  then show ?case using Cons by simp
qed simp

lemma syncPhase_keeps [simp]:
  "length (d_agents (syncPhase A d)) = length (d_agents d)" "d_quantum (syncPhase A d) = d_quantum d"
  "d_clock (syncPhase A d) = d_clock d"
  using fold_drain_keeps [of A "[0..<length (d_agents d)]"
      "d\<lparr>d_agents := map (\<lambda>a. a\<lparr>ag_state := onSyncBegin A (ag_state a)\<rparr>) (d_agents d)\<rparr>"]
  by (simp_all add: syncPhase_def)

lemma advance_simps [simp]: "d_agents (advance d) = d_agents d" "d_quantum (advance d) = d_quantum d"
  "d_clock (advance d) = d_clock d + ucast (d_quantum d)"
  by (simp_all add: advance_def)

definition live :: "'s IAgent \<Rightarrow> u64 \<Rightarrow> 's Dispatcher \<Rightarrow> bool" where
  "live A until d \<longleftrightarrow> d_clock d < until \<and> someRunnable A d"

definition quantumOf :: "'s IAgent \<Rightarrow> 's Dispatcher \<Rightarrow> 's Dispatcher" where
  "quantumOf A d = advance (syncPhase A (d\<lparr>d_agents := map (runAgent A (d_quantum d)) (d_agents d)\<rparr>))"

lemma sequential_unfold:
  "sequential_run A until d = (if live A until d then sequential_run A until (quantumOf A d) else Some d)"
  by (subst sequential_run.simps) (simp add: stepAll_eq live_def someRunnable_def quantumOf_def)

text \<open>
  The state of the threads in the middle of a quantum that began in a given dispatcher state: the agents
  whose threads have arrived have taken their step, the others have not.
\<close>

definition within :: "'s IAgent \<Rightarrow> 's Dispatcher \<Rightarrow> ThreadPc list \<Rightarrow> 's Dispatcher \<Rightarrow> bool" where
  "within A d0 pcs d \<longleftrightarrow>
    length pcs = length (d_agents d0) \<and>
    d = d0\<lparr>d_agents := map (\<lambda>(p, a). if p = AtBarrier then runAgent A (d_quantum d0) a else a)
            (zip pcs (d_agents d0))\<rparr>"

definition follows :: "'s IAgent \<Rightarrow> u64 \<Rightarrow> 's Dispatcher \<Rightarrow> 's Threads \<Rightarrow> bool" where
  "follows A until d0 c \<longleftrightarrow>
    (case c of (pcs, d, fin) \<Rightarrow> within A d0 pcs d \<and>
      (if fin then \<not> live A until d0 \<and> set pcs \<subseteq> {LoopTop, Exited}
       else live A until d0 \<and> Exited \<notin> set pcs))"

lemma within_agents:
  assumes "within A d0 pcs d"
  shows "d_agents d = map (\<lambda>(p, a). if p = AtBarrier then runAgent A (d_quantum d0) a else a) (zip pcs (d_agents d0))"
    "d_quantum d = d_quantum d0"
proof -
  obtain f where "d = d0\<lparr>d_agents := f\<rparr>"
    "f = map (\<lambda>(p, a). if p = AtBarrier then runAgent A (d_quantum d0) a else a) (zip pcs (d_agents d0))"
    using assms unfolding within_def by blast
  then show "d_agents d = map (\<lambda>(p, a). if p = AtBarrier then runAgent A (d_quantum d0) a else a) (zip pcs (d_agents d0))"
    "d_quantum d = d_quantum d0" by simp_all
qed

lemma within_pc:
  assumes "within A d0 pcs d" "pcs ! i \<noteq> AtBarrier" "p \<noteq> AtBarrier"
  shows "within A d0 (pcs[i := p]) d"
proof (cases "i < length pcs")
  case True
  have "map (\<lambda>(p, a). if p = AtBarrier then runAgent A (d_quantum d0) a else a) (zip (pcs[i := p]) (d_agents d0))
      = map (\<lambda>(p, a). if p = AtBarrier then runAgent A (d_quantum d0) a else a) (zip pcs (d_agents d0))"
    using assms True by (intro nth_equalityI) (auto simp: within_def nth_list_update)
  then show ?thesis using assms(1) by (simp add: within_def)
qed (use assms(1) in \<open>simp add: list_update_beyond\<close>)

lemma within_step:
  assumes "within A d0 pcs d" "i < length pcs" "pcs ! i = Enter"
  shows "within A d0 (pcs[i := AtBarrier])
    (d\<lparr>d_agents := (d_agents d)[i := runAgent A (d_quantum d) (d_agents d ! i)]\<rparr>)"
proof -
  let ?f = "\<lambda>(p, a). if p = AtBarrier then runAgent A (d_quantum d0) a else a"
  have d: "d_agents d = map ?f (zip pcs (d_agents d0))" "d_quantum d = d_quantum d0"
    "length pcs = length (d_agents d0)"
    using assms(1) within_agents [OF assms(1)] by (auto simp: within_def)
  have "(d_agents d)[i := runAgent A (d_quantum d) (d_agents d ! i)] = map ?f (zip (pcs[i := AtBarrier]) (d_agents d0))"
    using assms(2,3) d by (intro nth_equalityI) (auto simp: nth_list_update)
  moreover obtain f where "d = d0\<lparr>d_agents := f\<rparr>" using assms(1) unfolding within_def by blast
  ultimately show ?thesis using d(3) by (simp add: within_def)
qed

lemma within_start: "length pcs = length (d_agents d) \<Longrightarrow> AtBarrier \<notin> set pcs \<Longrightarrow> within A d pcs e \<longleftrightarrow> e = d"
proof -
  assume "length pcs = length (d_agents d)" "AtBarrier \<notin> set pcs"
  then have "map (\<lambda>(p, a). if p = AtBarrier then runAgent A (d_quantum d) a else a) (zip pcs (d_agents d)) = d_agents d"
    by (intro nth_equalityI) (auto simp: in_set_conv_nth)
  then show ?thesis using \<open>length pcs = length (d_agents d)\<close> by (simp add: within_def)
qed

lemma within_full:
  assumes "within A d0 pcs d" "list_all (\<lambda>p. p = AtBarrier) pcs"
  shows "advance (syncPhase A d) = quantumOf A d0" "length pcs = length (d_agents (quantumOf A d0))"
proof -
  have "map (\<lambda>(p, a). if p = AtBarrier then runAgent A (d_quantum d0) a else a) (zip pcs (d_agents d0))
      = map (runAgent A (d_quantum d0)) (d_agents d0)"
    using assms by (intro nth_equalityI) (auto simp: within_def list_all_length)
  then show "advance (syncPhase A d) = quantumOf A d0" "length pcs = length (d_agents (quantumOf A d0))"
    using assms(1) by (simp_all add: within_def quantumOf_def)
qed

lemma follows_step:
  assumes "thread_step A until c c1" "follows A until d0 c"
  shows "\<exists>d1. follows A until d1 c1 \<and> sequential_run A until d1 = sequential_run A until d0"
  using assms
proof (cases rule: thread_step.cases)
  case (leave i pcs fin d)
  have "follows A until d0 c1" using assms(2) leave
    by (auto simp: follows_def within_pc dest!: set_update_subset_insert [THEN subsetD])
  then show ?thesis by blast
next
  case (enter i pcs fin d)
  have "follows A until d0 c1" using assms(2) enter
    by (auto simp: follows_def within_pc dest!: set_update_subset_insert [THEN subsetD])
  then show ?thesis by blast
next
  case (agent i pcs d fin)
  have "Enter \<in> set pcs" using agent(3,4) by (metis nth_mem)
  then have "\<not> fin" using assms(2) agent by (auto simp: follows_def)
  then have "follows A until d0 c1" using assms(2) agent
    by (auto simp: follows_def within_step dest!: set_update_subset_insert [THEN subsetD])
  then show ?thesis by blast
next
  case (barrier pcs d fin d1 fin1)
  have w: "within A d0 pcs d" using assms(2) barrier by (simp add: follows_def)
  obtain p where "p \<in> set pcs" "p = AtBarrier" using barrier(3,4) by (cases pcs) auto
  then have nf: "\<not> fin" "live A until d0" using assms(2) barrier by (auto simp: follows_def split: if_splits)
  have d1: "d1 = quantumOf A d0" "fin1 = (\<not> live A until (quantumOf A d0))"
    using barrier(5) within_full(1) [OF w barrier(3)] nf by (auto simp: onBarrier_def Let_def live_def)
  have "within A d1 (map (\<lambda>_. LoopTop) pcs) d1"
    using within_full(2) [OF w barrier(3)] d1(1) by (subst within_start) auto
  then have "follows A until d1 c1" using barrier d1 by (auto simp: follows_def)
  then show ?thesis using nf(2) sequential_unfold [of A until d0] d1(1) by metis
qed

lemma follows_reachable:
  assumes "(thread_step A until)\<^sup>*\<^sup>* c c1" "follows A until d0 c"
  shows "\<exists>d1. follows A until d1 c1 \<and> sequential_run A until d1 = sequential_run A until d0"
  using assms by (induction rule: rtranclp_induct) (blast, metis follows_step)

lemma follows_joined:
  assumes "follows A until d0 (pcs, d, fin)" "threads_joined (pcs, d, fin)" "pcs \<noteq> []"
  shows "fin \<and> d = d0 \<and> sequential_run A until d0 = Some d0"
proof -
  have ex: "\<forall>p\<in>set pcs. p = Exited" using assms(2) by (simp add: threads_joined_def list_all_iff)
  then have "fin" using assms(1,3) by (cases pcs) (auto simp: follows_def split: if_splits)
  moreover have "d = d0"
    using assms(1) ex within_start [of pcs d0 A d] by (auto simp: follows_def within_def)
  moreover have "\<not> live A until d0" using assms(1) \<open>fin\<close> by (simp add: follows_def)
  ultimately show ?thesis by (subst sequential_unfold) simp
qed

text \<open>From any point of a quantum the threads can reach the barrier, and after the last one they can leave.\<close>

fun distance :: "ThreadPc \<Rightarrow> nat" where
  "distance LoopTop = 2"
| "distance Enter = 1"
| "distance _ = 0"

lemma sum_list_less: "i < length xs \<Longrightarrow> f y < f (xs ! i) \<Longrightarrow> sum_list (map f (xs[i := y])) < (sum_list (map f xs) :: nat)"
proof (induction xs arbitrary: i)
  case (Cons x xs) then show ?case by (cases i) auto
qed simp

lemma reach_barrier:
  assumes "within A d0 pcs d" "Exited \<notin> set pcs"
  shows "\<exists>d1. (thread_step A until)\<^sup>*\<^sup>* (pcs, d, False) (map (\<lambda>_. AtBarrier) pcs, d1, False) \<and>
    within A d0 (map (\<lambda>_. AtBarrier) pcs) d1"
  using assms
proof (induction "sum_list (map distance pcs)" arbitrary: pcs d rule: less_induct)
  case less
  show ?case
  proof (cases "list_all (\<lambda>p. p = AtBarrier) pcs")
    case True
    then have "map (\<lambda>_. AtBarrier) pcs = pcs" by (intro map_idI) (auto simp: list_all_iff)
    then show ?thesis using less by auto
  next
    case False
    then obtain i where i: "i < length pcs" "pcs ! i = LoopTop \<or> pcs ! i = Enter"
      using less(3) by (auto simp: list_all_length in_set_conv_nth) (metis ThreadPc.exhaust)
    have next_state: "\<exists>q e. q \<noteq> Exited \<and> distance q < distance (pcs ! i) \<and> thread_step A until (pcs, d, False) (pcs[i := q], e, False) \<and>
        within A d0 (pcs[i := q]) e"
    proof (cases "pcs ! i = LoopTop")
      case True
      then show ?thesis using less(2) i within_pc [of A d0 pcs d i Enter]
        by (intro exI [of _ Enter] exI [of _ d]) (auto intro: thread_step.enter)
    next
      case False
      then show ?thesis using less(2) i within_step [of A d0 pcs d i]
        by (intro exI [of _ AtBarrier]) (auto intro!: exI thread_step.agent)
    qed
    then obtain q e where q: "q \<noteq> Exited" "distance q < distance (pcs ! i)"
      "thread_step A until (pcs, d, False) (pcs[i := q], e, False)" "within A d0 (pcs[i := q]) e" by blast
    have "Exited \<notin> set (pcs[i := q])" using less(3) q(1) by (auto dest!: set_update_subset_insert [THEN subsetD])
    then obtain d1 where "(thread_step A until)\<^sup>*\<^sup>* (pcs[i := q], e, False) (map (\<lambda>_. AtBarrier) (pcs[i := q]), d1, False)"
      "within A d0 (map (\<lambda>_. AtBarrier) (pcs[i := q])) d1"
      using less(1) [OF sum_list_less [of i pcs distance q] q(4)] i(1) q(2) by blast
    moreover have "map (\<lambda>_. AtBarrier) (pcs[i := q]) = map (\<lambda>_. AtBarrier) pcs"
      by (simp add: map_replicate_const)
    ultimately show ?thesis using q(3) by (metis converse_rtranclp_into_rtranclp)
  qed
qed

lemma reach_exit:
  assumes "set pcs \<subseteq> {LoopTop, Exited}"
  shows "(thread_step A until)\<^sup>*\<^sup>* (pcs, d, True) (map (\<lambda>_. Exited) pcs, d, True)"
  using assms
proof (induction "sum_list (map distance pcs)" arbitrary: pcs rule: less_induct)
  case less
  show ?case
  proof (cases "list_all (\<lambda>p. p = Exited) pcs")
    case True
    then have "map (\<lambda>_. Exited) pcs = pcs" by (intro map_idI) (auto simp: list_all_iff)
    then show ?thesis by simp
  next
    case False
    then obtain i where i: "i < length pcs" "pcs ! i = LoopTop"
      using less(2) by (auto simp: list_all_length) (metis insertE nth_mem singletonD subsetD)
    have "set (pcs[i := Exited]) \<subseteq> {LoopTop, Exited}"
      using less(2) by (auto dest!: set_update_subset_insert [THEN subsetD])
    then have "(thread_step A until)\<^sup>*\<^sup>* (pcs[i := Exited], d, True) (map (\<lambda>_. Exited) (pcs[i := Exited]), d, True)"
      using less(1) [OF sum_list_less [of i pcs distance Exited]] i by simp
    moreover have "map (\<lambda>_. Exited) (pcs[i := Exited]) = map (\<lambda>_. Exited) pcs" by (simp add: map_replicate_const)
    ultimately show ?thesis
      using thread_step.leave [OF i, of True A until d] by (metis converse_rtranclp_into_rtranclp)
  qed
qed

lemma sequential_iterates:
  assumes "sequential_run A until d0 = Some d2"
  shows "\<exists>n. d2 = (quantumOf A ^^ n) d0 \<and> (\<forall>i<n. live A until ((quantumOf A ^^ i) d0)) \<and> \<not> live A until d2"
  using assms
proof (induction A until d0 d2 rule: sequential_run.raw_induct [rotated, consumes 1, case_names loop])
  case (loop f A until d0 y)
  show ?case
  proof (cases "live A until d0")
    case False
    then have "y = d0" using loop(2) by (auto simp: stepAll_eq live_def someRunnable_def split: if_splits)
    then show ?thesis using False by (intro exI [of _ 0]) simp
  next
    case True
    then have "f A until (quantumOf A d0) = Some y"
      using loop(2) by (simp add: stepAll_eq live_def someRunnable_def quantumOf_def)
    from loop(1) [OF this] obtain n where n: "y = (quantumOf A ^^ n) (quantumOf A d0)"
      "\<forall>i<n. live A until ((quantumOf A ^^ i) (quantumOf A d0))" "\<not> live A until y" by blast
    have "live A until ((quantumOf A ^^ i) d0)" if "i < Suc n" for i
      using that n(2) True by (cases i) (simp_all add: funpow_swap1)
    then show ?thesis using n(1,3) by (intro exI [of _ "Suc n"]) (simp add: funpow_swap1)
  qed
qed

lemma quantum_reaches:
  assumes "live A until d0" "follows A until d0 (pcs, d, fin)" "pcs \<noteq> []"
  shows "\<exists>pcs1 fin1. (thread_step A until)\<^sup>*\<^sup>* (pcs, d, fin) (pcs1, quantumOf A d0, fin1) \<and> pcs1 \<noteq> [] \<and>
    follows A until (quantumOf A d0) (pcs1, quantumOf A d0, fin1)"
proof -
  have nf: "\<not> fin" "within A d0 pcs d" "Exited \<notin> set pcs" using assms(1,2) by (auto simp: follows_def split: if_splits)
  let ?all = "map (\<lambda>_. AtBarrier) pcs" and ?top = "map (\<lambda>_. LoopTop) (map (\<lambda>_. AtBarrier) pcs)"
  obtain d1 where d1: "(thread_step A until)\<^sup>*\<^sup>* (pcs, d, False) (?all, d1, False)" "within A d0 ?all d1"
    using reach_barrier [OF nf(2,3)] by blast
  have full: "list_all (\<lambda>p. p = AtBarrier) ?all" "?all \<noteq> []" using assms(3) by (simp_all add: list_all_iff)
  have "onBarrier A until (d1, False) = (quantumOf A d0, \<not> live A until (quantumOf A d0))"
    unfolding onBarrier_def prod.case Let_def within_full(1) [OF d1(2) full(1)] live_def by (simp add: not_less)
  from thread_step.barrier [OF full this]
  have "(thread_step A until)\<^sup>*\<^sup>* (pcs, d, fin) (?top, quantumOf A d0, \<not> live A until (quantumOf A d0))"
    using rtranclp.rtrancl_into_rtrancl [OF d1(1)] nf(1) by simp
  moreover have "within A (quantumOf A d0) ?top (quantumOf A d0)"
    using within_full(2) [OF d1(2) full(1)] by (subst within_start) auto
  then have "follows A until (quantumOf A d0) (?top, quantumOf A d0, \<not> live A until (quantumOf A d0))"
    by (auto simp: follows_def)
  moreover have "?top \<noteq> []" using assms(3) by simp
  ultimately show ?thesis by blast
qed

lemma exit_reaches:
  assumes "\<not> live A until d0" "follows A until d0 (pcs, d, fin)"
  shows "\<exists>pcs2. (thread_step A until)\<^sup>*\<^sup>* (pcs, d, fin) (pcs2, d0, True) \<and> threads_joined (pcs2, d0, True)"
proof -
  have f: "fin" "set pcs \<subseteq> {LoopTop, Exited}" "within A d0 pcs d"
    using assms by (auto simp: follows_def split: if_splits)
  then have "AtBarrier \<notin> set pcs" "length pcs = length (d_agents d0)" by (auto simp: within_def)
  then have "d = d0" using within_start f(3) by blast
  then show ?thesis using reach_exit [of pcs A until d] f
    by (intro exI [of _ "map (\<lambda>_. Exited) pcs"]) (simp add: threads_joined_def list_all_iff)
qed

lemma sequential_reaches:
  assumes "sequential_run A until d0 = Some d2" "follows A until d0 (pcs, d, fin)" "pcs \<noteq> []"
  shows "\<exists>pcs2. (thread_step A until)\<^sup>*\<^sup>* (pcs, d, fin) (pcs2, d2, True) \<and> threads_joined (pcs2, d2, True)"
proof -
  obtain n where n: "d2 = (quantumOf A ^^ n) d0" "\<forall>i<n. live A until ((quantumOf A ^^ i) d0)" "\<not> live A until d2"
    using sequential_iterates [OF assms(1)] by blast
  show ?thesis using n assms(2,3)
  proof (induction n arbitrary: d0 pcs d fin)
    case 0
    then show ?case using exit_reaches [of A until d0 pcs d fin] by simp
  next
    case (Suc n)
    have "live A until d0" using Suc.prems(2) by fastforce
    then obtain pcs1 fin1 where q: "(thread_step A until)\<^sup>*\<^sup>* (pcs, d, fin) (pcs1, quantumOf A d0, fin1)" "pcs1 \<noteq> []"
      "follows A until (quantumOf A d0) (pcs1, quantumOf A d0, fin1)"
      using quantum_reaches Suc.prems(4,5) by blast
    have "\<forall>i<n. live A until ((quantumOf A ^^ i) (quantumOf A d0))"
      using Suc.prems(2) by (metis Suc_less_eq comp_apply funpow_Suc_right)
    then obtain pcs2 where "(thread_step A until)\<^sup>*\<^sup>* (pcs1, quantumOf A d0, fin1) (pcs2, d2, True)" "threads_joined (pcs2, d2, True)"
      using Suc.IH [of "quantumOf A d0" pcs1 "quantumOf A d0" fin1] Suc.prems(1,3) q(2,3) by (auto simp: funpow_swap1)
    then show ?case using rtranclp_trans [OF q(1)] by blast
  qed
qed

lemma threads_length: "(thread_step A until)\<^sup>*\<^sup>* c c1 \<Longrightarrow> length (fst c1) = length (fst c)"
  by (induction rule: rtranclp_induct) (auto elim!: thread_step.cases)

text \<open>
  C21. The threaded driver is deterministic: in whatever order the threads of the agents take their steps,
  if an agent can run and the clock is below the limit at the start, then a run that has joined its
  threads leaves the dispatcher, its clock, reservations and agents as the sequential driver does, and
  no schedule gets stuck: when the sequential driver returns, its result is reachable from every state
  the threads can get into.
\<close>

theorem drivers_agree:
  assumes "d_agents d \<noteq> []" "d_clock d < until" "someRunnable A d"
    "(thread_step A until)\<^sup>*\<^sup>* (threads_start d) (pcs, d1, fin)"
  shows "(threads_joined (pcs, d1, fin) \<longrightarrow> sequential_run A until d = Some d1) \<and>
    (\<forall>d2. sequential_run A until d = Some d2 \<longrightarrow>
      (\<exists>pcs2. (thread_step A until)\<^sup>*\<^sup>* (pcs, d1, fin) (pcs2, d2, True) \<and> threads_joined (pcs2, d2, True)))"
proof -
  have "within A d (map (\<lambda>_. LoopTop) (d_agents d)) d" by (subst within_start) auto
  then have "follows A until d (threads_start d)"
    using assms(2,3) by (auto simp: follows_def threads_start_def live_def)
  then obtain d0 where f: "follows A until d0 (pcs, d1, fin)" "sequential_run A until d0 = sequential_run A until d"
    using follows_reachable [OF assms(4)] by blast
  have ne: "pcs \<noteq> []"
  proof -
    have "length pcs = length (d_agents d)"
      using threads_length [OF assms(4)] by (simp add: threads_start_def)
    then show ?thesis using assms(1) by auto
  qed
  show ?thesis
    using follows_joined [OF f(1) _ ne] sequential_reaches [OF _ f(1) ne] f(2) by metis
qed

text \<open>Two mock processors on two threads.\<close>

definition exampleDispatcher :: "MockCpuAgent Dispatcher" where
  "exampleDispatcher =
    snd (addAgent \<lparr>ag_id = -1, ag_outbox = [], ag_state = newMock 64 3 2\<rparr>
      (snd (addAgent \<lparr>ag_id = -1, ag_outbox = [], ag_state = newMock 64 3 1\<rparr> (newDispatcher 1))))"

lemmas exampleDispatcher_simps = exampleDispatcher_def addAgent_def newDispatcher_def Let_def

theorem drivers_agree_witness:
  "\<exists>d2 pcs2. sequential_run mockAgent 1 exampleDispatcher = Some d2 \<and> d_clock d2 = 1 \<and>
     (thread_step mockAgent 1)\<^sup>*\<^sup>* (threads_start exampleDispatcher) (pcs2, d2, True) \<and> threads_joined (pcs2, d2, True)"
proof -
  have run: "d_agents exampleDispatcher \<noteq> []" "d_clock exampleDispatcher < 1" "someRunnable mockAgent exampleDispatcher"
    by (simp_all add: exampleDispatcher_simps someRunnable_def canRun_def mockAgent_def newMock_def)
  define d2 where "d2 = quantumOf mockAgent exampleDispatcher"
  have c: "d_clock d2 = 1" by (simp add: d2_def quantumOf_def exampleDispatcher_simps)
  then have s: "sequential_run mockAgent 1 exampleDispatcher = Some d2"
    using run by (simp add: sequential_unfold [of _ _ exampleDispatcher] sequential_unfold [of _ _ d2] live_def flip: d2_def)
  obtain pcs d fin where st: "threads_start exampleDispatcher = (pcs, d, fin)" by (metis prod_cases3)
  show ?thesis
    using drivers_agree [OF run, of pcs d fin] s c unfolding st by blast
qed

text \<open>
  When nothing can run or the limit is already reached, the sequential driver does nothing, but the
  threads reach their first barrier, and its completion function advances the clock.
\<close>

lemma threaded_extra_quantum:
  assumes "d_agents d \<noteq> []" "\<not> live A until d"
  shows "sequential_run A until d = Some d \<and>
    (\<exists>pcs fin. (thread_step A until)\<^sup>*\<^sup>* (threads_start d) (pcs, quantumOf A d, fin))"
proof -
  have "within A d (map (\<lambda>_. LoopTop) (d_agents d)) d" by (subst within_start) auto
  then obtain d1 where d1: "(thread_step A until)\<^sup>*\<^sup>* (threads_start d)
      (map (\<lambda>_. AtBarrier) (map (\<lambda>_. LoopTop) (d_agents d)), d1, False)"
    "within A d (map (\<lambda>_. AtBarrier) (map (\<lambda>_. LoopTop) (d_agents d))) d1"
    using reach_barrier [of A d "map (\<lambda>_. LoopTop) (d_agents d)" d until] by (auto simp: threads_start_def)
  have full: "list_all (\<lambda>p. p = AtBarrier) (map (\<lambda>_. AtBarrier) (map (\<lambda>_. LoopTop) (d_agents d)))"
    "map (\<lambda>_. AtBarrier) (map (\<lambda>_. LoopTop) (d_agents d)) \<noteq> []" using assms(1) by (simp_all add: list_all_iff)
  obtain fin where "onBarrier A until (d1, False) = (quantumOf A d, fin)"
    using within_full(1) [OF d1(2) full(1)] by (simp add: onBarrier_def Let_def)
  from thread_step.barrier [OF full this] d1(1) show ?thesis
    using sequential_unfold [of A until d] assms(2) by (metis rtranclp.rtrancl_into_rtrancl)
qed

text \<open>The run returns when the quantum is not zero and the limit is a quantum below the end of the clock.\<close>

lemma sequential_returns:
  assumes "0 < d_quantum d" "unat until + unat (d_quantum d) \<le> 2 ^ 64"
  shows "\<exists>d1. sequential_run A until d = Some d1 \<and> \<not> live A until d1"
  using assms
proof (induction "unat until - unat (d_clock d)" arbitrary: d rule: less_induct)
  case less
  show ?case
  proof (cases "live A until d")
    case True
    have c: "d_clock (quantumOf A d) = d_clock d + ucast (d_quantum d)" "d_quantum (quantumOf A d) = d_quantum d"
      by (simp_all add: quantumOf_def)
    have lt: "unat (d_clock d) < unat until" using True by (simp add: live_def word_less_nat_alt)
    have q: "unat (ucast (d_quantum d) :: u64) = unat (d_quantum d)" by (simp add: unsigned_ucast_eq take_bit_nat_eq_self order.strict_trans [OF unsigned_less])
    have "unat (d_clock d + ucast (d_quantum d)) = unat (d_clock d) + unat (d_quantum d)"
      using lt less(3) q by (subst unat_add_lem [THEN iffD1]) auto
    moreover have "0 < unat (d_quantum d)" using less(2) by (simp add: word_less_nat_alt)
    ultimately have "unat until - unat (d_clock (quantumOf A d)) < unat until - unat (d_clock d)"
      using lt c(1) by simp
    from less(1) [OF this] less(2,3) c(2) show ?thesis using True by (metis sequential_unfold)
  qed (metis sequential_unfold)
qed

section \<open>The lock arbiter\<close>

definition granted :: "'s IAgent \<Rightarrow> Effect list \<Rightarrow> 's Dispatcher \<Rightarrow> nat \<Rightarrow> bool" where
  "granted A es d m \<longleftrightarrow> ef_kind (es ! m) = StoreCond \<and>
     fst (arb_storeCond (ef_source (es ! m)) (ef_addr (es ! m)) (d_locks (fold (applyEffect A) (take m es) d)))"

definition linked :: "Effect \<Rightarrow> AgentId \<Rightarrow> u64 \<Rightarrow> bool" where
  "linked e a x \<longleftrightarrow> ef_kind e = LoadLocked \<and> ef_source e = a \<and> ef_addr e = x"

definition disturbs :: "'s IAgent \<Rightarrow> Effect list \<Rightarrow> 's Dispatcher \<Rightarrow> AgentId \<Rightarrow> u64 \<Rightarrow> nat \<Rightarrow> bool" where
  "disturbs A es d a x m \<longleftrightarrow> (ef_kind (es ! m) = LoadLocked \<and> ef_source (es ! m) = a) \<or>
     (ef_addr (es ! m) = x \<and> (ef_kind (es ! m) = Store \<or> granted A es d m))"

lemma applyEffect_locks:
  "d_locks (applyEffect A e d) a = Some x \<longleftrightarrow>
    (case ef_kind e of
       LoadLocked \<Rightarrow> if ef_source e = a then ef_addr e = x else d_locks d a = Some x
     | StoreCond \<Rightarrow> d_locks d a = Some x \<and> \<not> (ef_addr e = x \<and> d_locks d (ef_source e) = Some x)
     | Store \<Rightarrow> d_locks d a = Some x \<and> ef_addr e \<noteq> x
     | Ipi \<Rightarrow> d_locks d a = Some x)"
  by (auto simp: applyEffect_def arb_loadLocked_def arb_storeCond_def arb_store_def clearGranule_def Let_def
      split: EffectKind.split)

lemma reservation_history:
  assumes "d_locks d = Map.empty" "j \<le> length es"
  shows "d_locks (fold (applyEffect A) (take j es) d) a = Some x \<longleftrightarrow>
    (\<exists>k<j. linked (es ! k) a x \<and> (\<forall>m. k < m \<and> m < j \<longrightarrow> \<not> disturbs A es d a x m))"
  using assms(2)
proof (induction j arbitrary: a x)
  case (Suc j)
  have t: "take (Suc j) es = take j es @ [es ! j]" using Suc.prems by (simp add: take_Suc_conv_app_nth)
  have IH: "d_locks (fold (applyEffect A) (take j es) d) a = Some x \<longleftrightarrow>
    (\<exists>k<j. linked (es ! k) a x \<and> (\<forall>m. k < m \<and> m < j \<longrightarrow> \<not> disturbs A es d a x m))" for a x
    using Suc by simp
  have g: "granted A es d j \<longleftrightarrow> ef_kind (es ! j) = StoreCond \<and>
      d_locks (fold (applyEffect A) (take j es) d) (ef_source (es ! j)) = Some (ef_addr (es ! j))"
    by (simp add: granted_def arb_storeCond_def Let_def)
  have "d_locks (fold (applyEffect A) (take (Suc j) es) d) a = Some x \<longleftrightarrow>
      linked (es ! j) a x \<or> (d_locks (fold (applyEffect A) (take j es) d) a = Some x \<and> \<not> disturbs A es d a x j)"
    unfolding t by (auto simp: applyEffect_locks linked_def disturbs_def g split: EffectKind.splits)
  then show ?case unfolding IH by (auto simp: less_Suc_eq)
qed (simp add: assms(1))

text \<open>
  The lock arbiter grants a store-conditional exactly when its agent's last load-locked before it
  reserved the same granule, and since then nobody has stored to the granule and no store-conditional to
  it has been granted.
\<close>

lemma arbiter_exact:
  assumes "d_locks d = Map.empty" "j < length es" "ef_kind (es ! j) = StoreCond"
  shows "granted A es d j \<longleftrightarrow>
    (\<exists>k<j. linked (es ! k) (ef_source (es ! j)) (ef_addr (es ! j)) \<and>
      (\<forall>m. k < m \<and> m < j \<longrightarrow> \<not> disturbs A es d (ef_source (es ! j)) (ef_addr (es ! j)) m))"
  using reservation_history [OF assms(1), of j es A "ef_source (es ! j)" "ef_addr (es ! j)"] assms(2,3)
  by (simp add: granted_def arb_storeCond_def Let_def)

text \<open>Two agents load the same granule; the first store-conditional wins, the second loses.\<close>

definition contest :: "Effect list" where
  "contest = [newEffect\<lparr>ef_source := 0, ef_addr := 64\<rparr>, newEffect\<lparr>ef_source := 1, ef_addr := 64\<rparr>,
     newEffect\<lparr>ef_kind := StoreCond, ef_source := 0, ef_addr := 64\<rparr>,
     newEffect\<lparr>ef_kind := StoreCond, ef_source := 1, ef_addr := 64\<rparr>]"

lemma contest_decided:
  "granted mockAgent contest exampleDispatcher 2 \<and> \<not> granted mockAgent contest exampleDispatcher 3"
proof -
  have e: "d_locks exampleDispatcher = Map.empty" by (simp add: exampleDispatcher_simps)
  have g2: "granted mockAgent contest exampleDispatcher 2"
    using arbiter_exact [OF e, of 2 contest mockAgent]
    by (auto simp: contest_def linked_def disturbs_def newEffect_def granted_def less_Suc_eq numeral_eq_Suc intro!: exI [of _ 0])
  have "disturbs mockAgent contest exampleDispatcher 1 64 2"
    using g2 by (simp add: disturbs_def contest_def newEffect_def)
  then have "\<not> granted mockAgent contest exampleDispatcher 3"
    using arbiter_exact [OF e, of 3 contest mockAgent]
    by (auto simp: contest_def linked_def newEffect_def less_Suc_eq numeral_eq_Suc)
  with g2 show ?thesis by blast
qed

end
