(* ===== verification/PageTable.thy ===== *)
theory PageTable
  imports Prelude
begin

text \<open>
  The canonical Alpha page-table entry of pteLib/AlphaPte.h, the processor modes of
  coreLib/VA\_types.h and the decoders of pteLib/Ev6PteFormat.h that turn a DTB\_PTE or
  ITB\_PTE register value into a canonical entry.
\<close>

section \<open>Modes and accesses\<close>

datatype Mode_Privilege = Kernel | Executive | Supervisor | User

datatype AccessKind = DataRead | DataWrite | Execute

datatype Realm = RealmI | RealmD

definition realmFor :: "AccessKind \<Rightarrow> Realm" where
  "realmFor a = (if a = Execute then RealmI else RealmD)"

definition vaCtlIsVa48 :: "u64 \<Rightarrow> bool" where
  "vaCtlIsVa48 vaCtl \<longleftrightarrow> vaCtl AND push_bit 1 1 \<noteq> 0"

definition vaCtlIsVa43 :: "u64 \<Rightarrow> bool" where
  "vaCtlIsVa43 vaCtl \<longleftrightarrow> \<not> vaCtlIsVa48 vaCtl"

definition vaCtlIsBigEndian :: "u64 \<Rightarrow> bool" where
  "vaCtlIsBigEndian vaCtl \<longleftrightarrow> vaCtl AND push_bit 0 1 \<noteq> 0"

definition vaCtlIsVaForm32 :: "u64 \<Rightarrow> bool" where
  "vaCtlIsVaForm32 vaCtl \<longleftrightarrow> vaCtl AND push_bit 2 1 \<noteq> 0"

definition vaCtlVptb :: "u64 \<Rightarrow> u64" where
  "vaCtlVptb vaCtl = vaCtl AND 0xFFFFFFFFC0000000"

section \<open>The entry and its accessors\<close>

record AlphaPte =
  raw :: u64

definition pteMask :: "nat \<Rightarrow> u64" where
  "pteMask width = (if width = 64 then NOT 0 else push_bit width 1 - 1)"

definition pteBit :: "nat \<Rightarrow> u64" where
  "pteBit pos = push_bit pos 1"

definition fromRaw :: "u64 \<Rightarrow> AlphaPte" where
  "fromRaw v = \<lparr>raw = v\<rparr>"

definition makeInvalid :: AlphaPte where
  "makeInvalid = \<lparr>raw = 0\<rparr>"

definition makeValid :: "u64 \<Rightarrow> bool \<Rightarrow> bool \<Rightarrow> bool \<Rightarrow> bool \<Rightarrow> bool \<Rightarrow> AlphaPte" where
  "makeValid pfn_value kre kwe ure uwe asmFlag =
     (let r = pteBit 0;
          r = (if asmFlag then r OR pteBit 4 else r);
          r = (if kre then r OR pteBit 8 else r);
          r = (if kwe then r OR pteBit 12 else r);
          r = (if ure then r OR pteBit 11 else r);
          r = (if uwe then r OR pteBit 15 else r)
      in \<lparr>raw = r OR push_bit 32 (pfn_value AND pteMask 32)\<rparr>)"

definition extract_field :: "nat \<Rightarrow> nat \<Rightarrow> AlphaPte \<Rightarrow> u64" where
  "extract_field start len p = drop_bit start (raw p) AND pteMask len"

definition insert_field :: "nat \<Rightarrow> nat \<Rightarrow> u64 \<Rightarrow> AlphaPte \<Rightarrow> AlphaPte" where
  "insert_field start len v p =
     (let m = push_bit start (pteMask len)
      in p\<lparr>raw := (raw p AND NOT m) OR (push_bit start v AND m)\<rparr>)"

definition testBit :: "nat \<Rightarrow> AlphaPte \<Rightarrow> bool" where
  "testBit pos p \<longleftrightarrow> drop_bit pos (raw p) AND 1 \<noteq> 0"

definition bitV :: "AlphaPte \<Rightarrow> bool" where "bitV = testBit 0"
definition bitFOR :: "AlphaPte \<Rightarrow> bool" where "bitFOR = testBit 1"
definition bitFOW :: "AlphaPte \<Rightarrow> bool" where "bitFOW = testBit 2"
definition bitFOE :: "AlphaPte \<Rightarrow> bool" where "bitFOE = testBit 3"
definition bitASM :: "AlphaPte \<Rightarrow> bool" where "bitASM = testBit 4"
definition bitKRE :: "AlphaPte \<Rightarrow> bool" where "bitKRE = testBit 8"
definition bitERE :: "AlphaPte \<Rightarrow> bool" where "bitERE = testBit 9"
definition bitSRE :: "AlphaPte \<Rightarrow> bool" where "bitSRE = testBit 10"
definition bitURE :: "AlphaPte \<Rightarrow> bool" where "bitURE = testBit 11"
definition bitKWE :: "AlphaPte \<Rightarrow> bool" where "bitKWE = testBit 12"
definition bitEWE :: "AlphaPte \<Rightarrow> bool" where "bitEWE = testBit 13"
definition bitSWE :: "AlphaPte \<Rightarrow> bool" where "bitSWE = testBit 14"
definition bitUWE :: "AlphaPte \<Rightarrow> bool" where "bitUWE = testBit 15"

definition gh_of :: "AlphaPte \<Rightarrow> u8" where
  "gh_of p = ucast (drop_bit 5 (raw p) AND 0x3)"

definition setGh :: "u8 \<Rightarrow> AlphaPte \<Rightarrow> AlphaPte" where
  "setGh v p =
     (let m = push_bit 5 (0x3 :: u64)
      in p\<lparr>raw := (raw p AND NOT m) OR push_bit 5 (ucast v AND 0x3)\<rparr>)"

definition pfn :: "AlphaPte \<Rightarrow> u64" where
  "pfn p = extract_field 32 32 p"

definition setPfn :: "u64 \<Rightarrow> AlphaPte \<Rightarrow> AlphaPte" where
  "setPfn v p = insert_field 32 32 v p"

definition setValid :: "bool \<Rightarrow> AlphaPte \<Rightarrow> AlphaPte" where
  "setValid v p = (if v then p\<lparr>raw := raw p OR pteBit 0\<rparr> else p\<lparr>raw := raw p AND NOT (pteBit 0)\<rparr>)"

definition setAsm :: "bool \<Rightarrow> AlphaPte \<Rightarrow> AlphaPte" where
  "setAsm a p = (if a then p\<lparr>raw := raw p OR pteBit 4\<rparr> else p\<lparr>raw := raw p AND NOT (pteBit 4)\<rparr>)"

section \<open>Permission checks\<close>

definition canRead :: "Mode_Privilege \<Rightarrow> AlphaPte \<Rightarrow> bool" where
  "canRead mode p =
     (if bitFOR p then False
      else case mode of Kernel \<Rightarrow> bitKRE p | Executive \<Rightarrow> bitERE p
                      | Supervisor \<Rightarrow> bitSRE p | User \<Rightarrow> bitURE p)"

definition canWrite :: "Mode_Privilege \<Rightarrow> AlphaPte \<Rightarrow> bool" where
  "canWrite mode p =
     (if bitFOW p then False
      else case mode of Kernel \<Rightarrow> bitKWE p | Executive \<Rightarrow> bitEWE p
                      | Supervisor \<Rightarrow> bitSWE p | User \<Rightarrow> bitUWE p)"

definition canExecute :: "Mode_Privilege \<Rightarrow> AlphaPte \<Rightarrow> bool" where
  "canExecute mode p = (if bitFOE p then False else canRead mode p)"

section \<open>Register formats\<close>

definition kDtbPteLowFieldMask :: u64 where "kDtbPteLowFieldMask = 0xFF76"
definition kItbPteLowFieldMask :: u64 where "kItbPteLowFieldMask = 0x0F70"

definition canonicalFromDtbPte :: "u64 \<Rightarrow> AlphaPte" where
  "canonicalFromDtbPte reg =
     (let pfnMask = push_bit 32 1 - 1;
          pfn_value = drop_bit 32 reg AND pfnMask;
          low = reg AND kDtbPteLowFieldMask
      in \<lparr>raw = low OR push_bit 32 pfn_value OR pteBit 0\<rparr>)"

definition canonicalFromItbPte :: "u64 \<Rightarrow> AlphaPte" where
  "canonicalFromItbPte reg =
     (let pfnMask = push_bit 32 1 - 1;
          pfn_value = drop_bit 13 reg AND pfnMask;
          low = reg AND kItbPteLowFieldMask
      in \<lparr>raw = low OR push_bit 32 pfn_value OR pteBit 0\<rparr>)"

lemmas pte_bit_defs [pte_defs] =
  bitV_def bitFOR_def bitFOW_def bitFOE_def bitASM_def bitKRE_def bitERE_def bitSRE_def
  bitURE_def bitKWE_def bitEWE_def bitSWE_def bitUWE_def

lemmas pte_access_defs [pte_defs] = canRead_def canWrite_def canExecute_def

section \<open>Fields, bit by bit\<close>

lemmas word_ops = bit_or_iff bit_and_iff bit_not_iff bit_push_bit_iff

lemma pfnMask_eq: "push_bit 32 1 - 1 = (mask 32 :: u64)"
  by (simp add: mask_eq_exp_minus_1)

lemma testBit_bit [simp]: "testBit n p \<longleftrightarrow> bit (raw p) n"
  by (simp add: testBit_def and_one_eq mod2_eq_if bit_iff_odd_drop_bit)

lemma bit_pteMask [bit_simps]: "bit (pteMask len) n \<longleftrightarrow> n < len \<and> n < 64"
  by (auto simp: pteMask_def bit_simps simp flip: mask_eq_exp_minus_1)

lemma bit_pteBit [bit_simps]: "bit (pteBit k) n \<longleftrightarrow> n = k \<and> n < 64"
  by (auto simp: pteBit_def bit_simps)

lemma bit_extract_field [bit_simps]:
  "bit (extract_field s len p) n \<longleftrightarrow> n < len \<and> bit (raw p) (s + n)"
  by (auto simp: extract_field_def bit_simps dest: bit_imp_le_length)

lemma bit_insert_field [bit_simps]:
  "bit (raw (insert_field s len v p)) n \<longleftrightarrow>
     (if s \<le> n \<and> n < s + len \<and> n < 64 then bit v (n - s) else bit (raw p) n)"
  by (auto simp: insert_field_def Let_def bit_simps dest: bit_imp_le_length)

lemma bit_setGh [bit_simps]:
  "bit (raw (setGh v p)) n \<longleftrightarrow>
     (if 5 \<le> n \<and> n < 7 then bit v (n - 5) else bit (raw p) n)"
proof -
  have "raw (setGh v p) = (raw p AND NOT (push_bit 5 3)) OR push_bit 5 (ucast v AND 3)"
    by (simp add: setGh_def)
  then show ?thesis
    by (simp only: word_ops) (auto simp: bit_simps dest: bit_imp_le_length)
qed

lemma bit_gh_of [bit_simps]: "bit (gh_of p) n \<longleftrightarrow> n < 2 \<and> bit (raw p) (5 + n)"
  by (auto simp: gh_of_def bit_simps)

lemma bit_pfn [bit_simps]: "bit (pfn p) n \<longleftrightarrow> n < 32 \<and> bit (raw p) (32 + n)"
  by (simp add: pfn_def bit_simps)

lemma bit_setPfn [bit_simps]:
  "bit (raw (setPfn v p)) n \<longleftrightarrow> (if 32 \<le> n \<and> n < 64 then bit v (n - 32) else bit (raw p) n)"
  by (auto simp: setPfn_def bit_simps)

lemma bit_set_flags [bit_simps]:
  "bit (raw (setValid b p)) n \<longleftrightarrow> (if n = 0 then b else bit (raw p) n)"
  "bit (raw (setAsm b p)) n \<longleftrightarrow> (if n = 4 then b else bit (raw p) n)"
  by (auto simp: setValid_def setAsm_def bit_simps dest: bit_imp_le_length)

lemma bit_low_masks [bit_simps]:
  "bit kDtbPteLowFieldMask n \<longleftrightarrow> n \<in> {1, 2, 4, 5, 6} \<or> 8 \<le> n \<and> n < 16"
  "bit kItbPteLowFieldMask n \<longleftrightarrow> n \<in> {4, 5, 6} \<or> 8 \<le> n \<and> n < 12"
proof -
  have eqs: "kDtbPteLowFieldMask = push_bit 8 0xFF OR push_bit 4 7 OR push_bit 1 3"
    "kItbPteLowFieldMask = push_bit 8 0xF OR push_bit 4 7"
    by (simp_all add: kDtbPteLowFieldMask_def kItbPteLowFieldMask_def)
  show "bit kDtbPteLowFieldMask n \<longleftrightarrow> n \<in> {1, 2, 4, 5, 6} \<or> 8 \<le> n \<and> n < 16"
    by (simp only: eqs word_ops) auto
  show "bit kItbPteLowFieldMask n \<longleftrightarrow> n \<in> {4, 5, 6} \<or> 8 \<le> n \<and> n < 12"
    by (simp only: eqs word_ops) auto
qed

lemma bit_canonicalFromDtbPte [bit_simps]:
  "bit (raw (canonicalFromDtbPte reg)) n \<longleftrightarrow>
     n = 0 \<or> (n \<in> {1, 2, 4, 5, 6} \<or> 8 \<le> n \<and> n < 16 \<or> 32 \<le> n) \<and> bit reg n"
  by (simp only: canonicalFromDtbPte_def Let_def AlphaPte.simps pfnMask_eq word_ops)
    (auto simp: bit_simps dest: bit_imp_le_length)

lemma bit_canonicalFromItbPte [bit_simps]:
  "bit (raw (canonicalFromItbPte reg)) n \<longleftrightarrow>
     n = 0 \<or> (n \<in> {4, 5, 6} \<or> 8 \<le> n \<and> n < 12) \<and> bit reg n \<or>
     32 \<le> n \<and> n < 64 \<and> bit reg (n - 19)"
  by (simp only: canonicalFromItbPte_def Let_def AlphaPte.simps pfnMask_eq word_ops)
    (auto simp: bit_simps dest: bit_imp_le_length)

lemma pfn_canonicalFromDtbPte: "pfn (canonicalFromDtbPte reg) = drop_bit 32 reg"
proof (rule bit_word_eqI)
  fix n
  show "bit (pfn (canonicalFromDtbPte reg)) n = bit (drop_bit 32 reg) n"
    using bit_u64_out [of "32 + n" reg] by (cases "n < 32") (simp_all add: bit_simps)
qed

lemma pfn_canonicalFromItbPte: "pfn (canonicalFromItbPte reg) = drop_bit 13 reg AND mask 32"
  by (rule bit_word_eqI) (auto simp: bit_simps)

text \<open>The number of a mode, as PS<CM> encodes it.\<close>

fun mode_num :: "Mode_Privilege \<Rightarrow> nat" where
  "mode_num Kernel = 0"
| "mode_num Executive = 1"
| "mode_num Supervisor = 2"
| "mode_num User = 3"

section \<open>Properties\<close>

text \<open>
  A decoded DTB\_PTE register is a valid entry whose frame number is register bits
  63 to 32 and whose permissions are exactly those of the register: a mode reads when its
  enable bit is set and fault-on-read is clear, writes when its write enable is set and
  fault-on-write is clear, and fault-on-execute is never set.
\<close>

theorem dtb_pte_decode:
  "bitV (canonicalFromDtbPte reg) \<and>
   pfn (canonicalFromDtbPte reg) = drop_bit 32 reg \<and>
   gh_of (canonicalFromDtbPte reg) = ucast (drop_bit 5 reg AND 3) \<and>
   (bitASM (canonicalFromDtbPte reg) \<longleftrightarrow> bit reg 4) \<and>
   (canRead mode (canonicalFromDtbPte reg) \<longleftrightarrow> \<not> bit reg 1 \<and> bit reg (8 + mode_num mode)) \<and>
   (canWrite mode (canonicalFromDtbPte reg) \<longleftrightarrow> \<not> bit reg 2 \<and> bit reg (12 + mode_num mode)) \<and>
   \<not> bitFOE (canonicalFromDtbPte reg)"
  by (cases mode) (auto intro!: bit_word_eqI simp: pfn_canonicalFromDtbPte pte_defs bit_simps)

text \<open>
  A decoded ITB\_PTE register is a valid entry whose frame number is register bits
  44 to 13, which lets a mode fetch exactly when its read enable is set, and which grants
  no write to any mode.
\<close>

theorem itb_pte_decode:
  "bitV (canonicalFromItbPte reg) \<and>
   pfn (canonicalFromItbPte reg) = drop_bit 13 reg AND mask 32 \<and>
   gh_of (canonicalFromItbPte reg) = ucast (drop_bit 5 reg AND 3) \<and>
   (bitASM (canonicalFromItbPte reg) \<longleftrightarrow> bit reg 4) \<and>
   (canExecute mode (canonicalFromItbPte reg) \<longleftrightarrow> bit reg (8 + mode_num mode)) \<and>
   \<not> canWrite mode (canonicalFromItbPte reg)"
  by (cases mode) (auto intro!: bit_word_eqI simp: pte_defs bit_simps)

text \<open>
  The field setters of a page-table entry write their own field and no other: each
  accessor reads back what its setter wrote, and the permissions of every mode survive a
  change of the frame number, the granularity hint, the valid and the match bit.
\<close>

theorem pte_setters:
  "pfn (setPfn v p) = v AND mask 32 \<and> gh_of (setPfn v p) = gh_of p \<and>
   gh_of (setGh g p) = g AND 3 \<and> pfn (setGh g p) = pfn p \<and>
   bitV (setValid b p) = b \<and> bitASM (setAsm b p) = b \<and>
   pfn (setValid b p) = pfn p \<and> pfn (setAsm b p) = pfn p \<and>
   (\<forall>f \<in> {setPfn v, setGh g, setValid b, setAsm b}.
      canRead mode (f p) = canRead mode p \<and> canWrite mode (f p) = canWrite mode p \<and>
      canExecute mode (f p) = canExecute mode p)"
  by (cases mode) (auto intro!: bit_word_eqI simp: pte_defs bit_simps dest: bit_imp_le_length)

theorem pte_setters_witness:
  "setPfn 7 \<in> {setPfn 7, setGh 1, setValid True, setAsm True} \<and>
   canRead Kernel (setPfn 7 \<lparr>raw = 0x100\<rparr>) = canRead Kernel \<lparr>raw = 0x100\<rparr> \<and>
   pfn (setPfn 7 \<lparr>raw = 0x100\<rparr>) = 7"
  using pte_setters [of 7 "\<lparr>raw = 0x100\<rparr>" 1 True Kernel] by (simp add: mask_eq_exp_minus_1)

end
