(* ===== verification/Tlb.thy ===== *)
theory Tlb
  imports PageTable
begin

text \<open>
  The software translation buffer of pteLib: tags and entries (TlbEntry.h), the epoch
  counters of lazy invalidation (TlbEpoch.h), one set-associative bucket (SPAMBucket.h and
  .cpp) and the sharded manager (SPAMShardManager.h and .cpp).  The template parameters
  Shards and Ways are the lengths of the two arrays.  A lookup outcome is an option: a hit
  carries the entry, a miss is \<^term>\<open>None\<close>.
\<close>

section \<open>Tags, epochs and entries\<close>

datatype TlbRealm = Itb | Dtb

record TlbTag =
  tag_vpn :: u64
  tag_asn :: u64
  tag_realm :: TlbRealm
  tag_gh :: u8

record TlbEpochSnapshot =
  snap_global :: u64
  snap_process :: u64

record TlbEntry =
  ent_tag :: TlbTag
  ent_pte :: AlphaPte
  ent_epochs :: TlbEpochSnapshot
  valid :: bool
  asmGlobal :: bool

definition vpnMaskForGh :: "u8 \<Rightarrow> u64" where
  "vpnMaskForGh g = (let dropped = 3 * unat (g AND 0x3) in NOT (push_bit dropped 1 - 1))"

definition vaToVpn :: "u64 \<Rightarrow> u64" where
  "vaToVpn va = drop_bit 13 va"

definition mkTag :: "u64 \<Rightarrow> u64 \<Rightarrow> TlbRealm \<Rightarrow> u8 \<Rightarrow> TlbTag" where
  "mkTag v a r g = \<lparr>tag_vpn = v AND vpnMaskForGh g, tag_asn = a, tag_realm = r, tag_gh = g\<rparr>"

definition defaultTag :: TlbTag where
  "defaultTag = \<lparr>tag_vpn = 0, tag_asn = 0, tag_realm = Itb, tag_gh = 0\<rparr>"

definition isEpochLive :: "TlbEpochSnapshot \<Rightarrow> u64 \<Rightarrow> u64 \<Rightarrow> bool \<Rightarrow> bool" where
  "isEpochLive snap liveGlobal liveProcess asm_global =
     (if snap_global snap \<noteq> liveGlobal then False
      else if asm_global then True
      else snap_process snap = liveProcess)"

definition mkEntry :: "TlbTag \<Rightarrow> AlphaPte \<Rightarrow> TlbEpochSnapshot \<Rightarrow> TlbEntry" where
  "mkEntry t p ep =
     \<lparr>ent_tag = t, ent_pte = p, ent_epochs = ep, valid = True, asmGlobal = bitASM p\<rparr>"

definition matches :: "TlbEntry \<Rightarrow> u64 \<Rightarrow> u64 \<Rightarrow> bool" where
  "matches e lookupVpn lookupAsn =
     (if \<not> valid e then False
      else if lookupVpn AND vpnMaskForGh (tag_gh (ent_tag e)) \<noteq> tag_vpn (ent_tag e) then False
      else if asmGlobal e then True
      else tag_asn (ent_tag e) = lookupAsn)"

definition isLiveUnder :: "TlbEntry \<Rightarrow> u64 \<Rightarrow> u64 \<Rightarrow> bool" where
  "isLiveUnder e liveGlobal liveProcess =
     isEpochLive (ent_epochs e) liveGlobal liveProcess (asmGlobal e)"

definition physAddrOf :: "TlbEntry \<Rightarrow> u64 \<Rightarrow> u64" where
  "physAddrOf e va = push_bit 13 (pfn (ent_pte e)) OR (va AND 0x1FFF)"

definition emptyEntry :: TlbEntry where
  "emptyEntry = \<lparr>ent_tag = defaultTag, ent_pte = makeInvalid,
     ent_epochs = \<lparr>snap_global = 0, snap_process = 0\<rparr>, valid = False, asmGlobal = False\<rparr>"

definition invalidate :: "TlbEntry \<Rightarrow> TlbEntry" where
  "invalidate e = e\<lparr>valid := False, asmGlobal := False, ent_tag := defaultTag,
     ent_pte := makeInvalid, ent_epochs := \<lparr>snap_global = 0, snap_process = 0\<rparr>\<rparr>"

fun realm_num :: "TlbRealm \<Rightarrow> u64" where
  "realm_num Itb = 0"
| "realm_num Dtb = 1"

definition tlbKeyHash :: "TlbTag \<Rightarrow> u64" where
  "tlbKeyHash t =
     (let h = tag_vpn t;
          h = h XOR drop_bit 21 h;
          h = h * 0x9E3779B97F4A7C15;
          h = h XOR push_bit 1 (tag_asn t);
          h = h XOR push_bit 17 (realm_num (tag_realm t))
      in h XOR push_bit 19 (ucast (tag_gh t)))"

section \<open>One bucket\<close>

record SPAMBucket =
  m_replaceCursor :: nat
  m_slots :: "TlbEntry list"

fun scanSlots :: "TlbEntry list \<Rightarrow> u64 \<Rightarrow> u64 \<Rightarrow> u64 \<Rightarrow> u64 \<Rightarrow> AlphaPte option" where
  "scanSlots [] v a g p = None"
| "scanSlots (s # ss) v a g p =
     (if \<not> matches s v a then scanSlots ss v a g p
      else if \<not> isLiveUnder s g p then scanSlots ss v a g p
      else Some (ent_pte s))"

definition bucketLookup :: "SPAMBucket \<Rightarrow> u64 \<Rightarrow> u64 \<Rightarrow> u64 \<Rightarrow> u64 \<Rightarrow> AlphaPte option" where
  "bucketLookup b = scanSlots (m_slots b)"

fun firstFree :: "TlbEntry list \<Rightarrow> nat" where
  "firstFree [] = 0"
| "firstFree (s # ss) = (if \<not> valid s then 0 else Suc (firstFree ss))"

definition bucketInsert :: "TlbEntry \<Rightarrow> SPAMBucket \<Rightarrow> SPAMBucket \<times> nat" where
  "bucketInsert entry b =
     (let ways = length (m_slots b);
          target = firstFree (m_slots b);
          target = (if target = ways then m_replaceCursor b else target)
      in (b\<lparr>m_slots := (m_slots b)[target := entry],
            m_replaceCursor := (m_replaceCursor b + 1) mod ways\<rparr>, target))"

fun invalidateSlots :: "TlbEntry list \<Rightarrow> u64 \<Rightarrow> u64 \<Rightarrow> TlbRealm \<Rightarrow> TlbEntry list \<times> bool" where
  "invalidateSlots [] v a r = ([], False)"
| "invalidateSlots (s # ss) v a r =
     (let (ss', cleared) = invalidateSlots ss v a r
      in if \<not> valid s then (s # ss', cleared)
         else if tag_realm (ent_tag s) \<noteq> r then (s # ss', cleared)
         else if \<not> matches s v a then (s # ss', cleared)
         else (invalidate s # ss', True))"

definition invalidateMatching ::
  "SPAMBucket \<Rightarrow> u64 \<Rightarrow> u64 \<Rightarrow> TlbRealm \<Rightarrow> SPAMBucket \<times> bool" where
  "invalidateMatching b v a r =
     (let (ss, cleared) = invalidateSlots (m_slots b) v a r in (b\<lparr>m_slots := ss\<rparr>, cleared))"

definition bucketClear :: "SPAMBucket \<Rightarrow> SPAMBucket" where
  "bucketClear b = b\<lparr>m_slots := map invalidate (m_slots b), m_replaceCursor := 0\<rparr>"

definition bucketAny :: "SPAMBucket \<Rightarrow> bool" where
  "bucketAny b = list_ex valid (m_slots b)"

section \<open>The sharded manager\<close>

record SPAMShardManager =
  globalEpoch :: u64
  processEpoch :: u64
  m_shards :: "SPAMBucket list"

definition newManager :: "nat \<Rightarrow> nat \<Rightarrow> SPAMShardManager" where
  "newManager shards ways = \<lparr>globalEpoch = 0, processEpoch = 0,
     m_shards = replicate shards \<lparr>m_replaceCursor = 0, m_slots = replicate ways emptyEntry\<rparr>\<rparr>"

definition shardIndexOf :: "SPAMShardManager \<Rightarrow> TlbTag \<Rightarrow> nat" where
  "shardIndexOf m t = unat (tlbKeyHash t AND of_nat (length (m_shards m) - 1))"

fun probeGh :: "SPAMShardManager \<Rightarrow> TlbRealm \<Rightarrow> u64 \<Rightarrow> u64 \<Rightarrow> u8 list \<Rightarrow> AlphaPte option" where
  "probeGh m r rawVpn a [] = None"
| "probeGh m r rawVpn a (g # gs) =
     (case bucketLookup (m_shards m ! shardIndexOf m (mkTag rawVpn a r g))
             rawVpn a (globalEpoch m) (processEpoch m) of
        Some p \<Rightarrow> Some p
      | None \<Rightarrow> probeGh m r rawVpn a gs)"

definition lookup :: "SPAMShardManager \<Rightarrow> TlbRealm \<Rightarrow> u64 \<Rightarrow> u64 \<Rightarrow> AlphaPte option" where
  "lookup m r va a = probeGh m r (vaToVpn va) a [0, 1, 2, 3]"

definition insert_entry ::
  "SPAMShardManager \<Rightarrow> TlbRealm \<Rightarrow> u64 \<Rightarrow> u64 \<Rightarrow> AlphaPte \<Rightarrow> u8 \<Rightarrow> SPAMShardManager" where
  "insert_entry m r va a p g =
     (let t = mkTag (vaToVpn va) a r g;
          snap = \<lparr>snap_global = globalEpoch m, snap_process = processEpoch m\<rparr>;
          entry = mkEntry t p snap;
          shardIdx = shardIndexOf m t
      in m\<lparr>m_shards := (m_shards m)[shardIdx := fst (bucketInsert entry (m_shards m ! shardIdx))]\<rparr>)"

definition invalidateAll :: "SPAMShardManager \<Rightarrow> SPAMShardManager" where
  "invalidateAll m = m\<lparr>globalEpoch := globalEpoch m + 1\<rparr>"

definition invalidateAllProcess :: "SPAMShardManager \<Rightarrow> SPAMShardManager" where
  "invalidateAllProcess m = m\<lparr>processEpoch := processEpoch m + 1\<rparr>"

fun invalidateGh ::
  "SPAMShardManager \<Rightarrow> TlbRealm \<Rightarrow> u64 \<Rightarrow> u64 \<Rightarrow> u8 list \<Rightarrow> bool \<Rightarrow> SPAMShardManager \<times> bool" where
  "invalidateGh m r rawVpn a [] cleared = (m, cleared)"
| "invalidateGh m r rawVpn a (g # gs) cleared =
     (let shardIdx = shardIndexOf m (mkTag rawVpn a r g);
          (b, c) = invalidateMatching (m_shards m ! shardIdx) rawVpn a r
      in invalidateGh (m\<lparr>m_shards := (m_shards m)[shardIdx := b]\<rparr>) r rawVpn a gs (cleared \<or> c))"

definition invalidateSingle ::
  "SPAMShardManager \<Rightarrow> TlbRealm \<Rightarrow> u64 \<Rightarrow> u64 \<Rightarrow> SPAMShardManager \<times> bool" where
  "invalidateSingle m r va a = invalidateGh m r (vaToVpn va) a [0, 1, 2, 3] False"

definition clear :: "SPAMShardManager \<Rightarrow> SPAMShardManager" where
  "clear m = m\<lparr>globalEpoch := 0, processEpoch := 0, m_shards := map bucketClear (m_shards m)\<rparr>"

definition occupancy :: "SPAMShardManager \<Rightarrow> nat" where
  "occupancy m =
     (\<Sum>b \<leftarrow> m_shards m. length (filter (\<lambda>s. valid s \<and>
        isLiveUnder s (globalEpoch m) (processEpoch m)) (m_slots b)))"

section \<open>Well-formed managers\<close>

definition slot_ok :: "TlbRealm \<Rightarrow> SPAMShardManager \<Rightarrow> nat \<Rightarrow> TlbEntry \<Rightarrow> bool" where
  "slot_ok r m s e \<longleftrightarrow> valid e \<longrightarrow>
     tag_realm (ent_tag e) = r \<and> tag_gh (ent_tag e) \<le> 3 \<and> shardIndexOf m (ent_tag e) = s \<and>
     asmGlobal e = bitASM (ent_pte e) \<and>
     snap_global (ent_epochs e) \<le> globalEpoch m \<and> snap_process (ent_epochs e) \<le> processEpoch m"

definition bucket_ok :: "TlbRealm \<Rightarrow> SPAMShardManager \<Rightarrow> nat \<Rightarrow> SPAMBucket \<Rightarrow> bool" where
  "bucket_ok r m s b \<longleftrightarrow> m_replaceCursor b < length (m_slots b) \<and> list_all (slot_ok r m s) (m_slots b)"

definition mgr_inv :: "TlbRealm \<Rightarrow> SPAMShardManager \<Rightarrow> bool" where
  "mgr_inv r m \<longleftrightarrow> (\<exists>k \<le> 32. length (m_shards m) = 2 ^ k) \<and>
     (\<forall>s < length (m_shards m). bucket_ok r m s (m_shards m ! s))"

definition live :: "SPAMShardManager \<Rightarrow> TlbEntry set" where
  "live m = {e. \<exists>b \<in> set (m_shards m). e \<in> set (m_slots b) \<and> valid e \<and>
       isLiveUnder e (globalEpoch m) (processEpoch m)}"

lemma shardIndexOf_less [simp]:
  assumes "mgr_inv r m" shows "shardIndexOf m t < length (m_shards m)"
proof -
  obtain k where k: "k \<le> 32" "length (m_shards m) = 2 ^ k" using assms by (auto simp: mgr_inv_def)
  have "(2 :: nat) ^ k \<le> 2 ^ 32" using k(1) by (intro power_increasing) auto
  moreover have "(2 :: nat) ^ 32 < 2 ^ 64" by simp
  ultimately have "unat (of_nat (2 ^ k - 1) :: u64) = 2 ^ k - 1" by (intro unat_of_nat_small) linarith
  moreover have "shardIndexOf m t \<le> unat (of_nat (2 ^ k - 1) :: u64)"
    unfolding shardIndexOf_def k(2) by (rule unat_and_le)
  moreover have "(0::nat) < 2 ^ k" by simp
  ultimately show ?thesis using k(2) by linarith
qed

lemma shardIndexOf_cong: "length (m_shards m') = length (m_shards m) \<Longrightarrow> shardIndexOf m' t = shardIndexOf m t"
  by (simp add: shardIndexOf_def)

lemma scanSlots_None: "scanSlots ss v a g p = None \<longleftrightarrow> (\<forall>e \<in> set ss. \<not> (matches e v a \<and> isLiveUnder e g p))"
  by (induction ss) auto

lemma scanSlots_Some: "scanSlots ss v a g p = Some q \<Longrightarrow> \<exists>e \<in> set ss. matches e v a \<and> isLiveUnder e g p \<and> ent_pte e = q"
  by (induction ss) (auto split: if_splits)

lemma probeGh_None: "probeGh m r v a gs = None \<longleftrightarrow> (\<forall>g \<in> set gs. \<forall>e \<in> set (m_slots (m_shards m ! shardIndexOf m (mkTag v a r g))).
   \<not> (matches e v a \<and> isLiveUnder e (globalEpoch m) (processEpoch m)))"
  by (induction gs) (auto simp: bucketLookup_def scanSlots_None split: option.splits dest!: scanSlots_Some)

lemma probeGh_Some: "probeGh m r v a gs = Some q \<Longrightarrow> \<exists>g \<in> set gs. \<exists>e \<in> set (m_slots (m_shards m ! shardIndexOf m (mkTag v a r g))).
   matches e v a \<and> isLiveUnder e (globalEpoch m) (processEpoch m) \<and> ent_pte e = q"
  by (induction gs) (auto simp: bucketLookup_def split: option.splits dest!: scanSlots_Some)

lemma matches_valid: "matches e v a \<Longrightarrow> valid e" by (simp add: matches_def split: if_splits)

lemma lookup_sound:
  assumes "mgr_inv r m" "lookup m r va a = Some q"
  shows "\<exists>e \<in> live m. matches e (vaToVpn va) a \<and> ent_pte e = q"
proof -
  obtain g e where "e \<in> set (m_slots (m_shards m ! shardIndexOf m (mkTag (vaToVpn va) a r g)))"
     "matches e (vaToVpn va) a" "isLiveUnder e (globalEpoch m) (processEpoch m)" "ent_pte e = q"
    using probeGh_Some assms(2) unfolding lookup_def by blast
  moreover have "m_shards m ! shardIndexOf m (mkTag (vaToVpn va) a r g) \<in> set (m_shards m)" using assms by simp
  ultimately show ?thesis by (auto simp: live_def dest: matches_valid)
qed

lemma gh_le_3: "(g :: u8) \<le> 3 \<Longrightarrow> g \<in> set [0, 1, 2, 3]"
proof -
  assume "g \<le> 3"
  then have "unat g \<le> 3" by (simp add: word_le_nat_alt)
  then have "unat g \<in> {0, 1, 2, 3}" by auto
  then have "unat g \<in> unat ` set [0 :: u8, 1, 2, 3]" by simp
  then show ?thesis by (auto simp: word_unat_eq_iff)
qed

lemma matches_mkTag: "matches e v a \<Longrightarrow> tag_asn (ent_tag e) = a \<Longrightarrow> 
   ent_tag e = mkTag v a (tag_realm (ent_tag e)) (tag_gh (ent_tag e))"
  by (auto simp: matches_def mkTag_def split: if_splits)

lemma lookup_complete:
  assumes "mgr_inv r m" "e \<in> live m" "matches e (vaToVpn va) a" "tag_asn (ent_tag e) = a"
  shows "lookup m r va a \<noteq> None"
proof -
  obtain s where s: "s < length (m_shards m)" "e \<in> set (m_slots (m_shards m ! s))" "valid e"
    "isLiveUnder e (globalEpoch m) (processEpoch m)"
    using assms(2) unfolding live_def mem_Collect_eq by (metis in_set_conv_nth)
  then have ok: "slot_ok r m s e" using assms(1) by (auto simp: mgr_inv_def bucket_ok_def list_all_iff)
  then have "ent_tag e = mkTag (vaToVpn va) a r (tag_gh (ent_tag e))"
    using matches_mkTag [OF assms(3,4)] s(3) by (simp add: slot_ok_def)
  with ok s have "s = shardIndexOf m (mkTag (vaToVpn va) a r (tag_gh (ent_tag e)))" by (simp add: slot_ok_def)
  moreover have "tag_gh (ent_tag e) \<in> set [0, 1, 2, 3]" using ok s(3) by (intro gh_le_3) (simp add: slot_ok_def)
  ultimately show ?thesis unfolding lookup_def using probeGh_None s assms(3) by blast
qed

lemma mgr_inv_bucket: "mgr_inv r m \<Longrightarrow> s < length (m_shards m) \<Longrightarrow> bucket_ok r m s (m_shards m ! s)"
  by (simp add: mgr_inv_def)

lemma firstFree_le: "firstFree ss \<le> length ss"
  by (induction ss) auto

definition insert_target :: "SPAMBucket \<Rightarrow> nat" where
  "insert_target b = (if firstFree (m_slots b) = length (m_slots b) then m_replaceCursor b else firstFree (m_slots b))"

lemma bucketInsert_eq: "fst (bucketInsert e b) = b\<lparr>m_slots := (m_slots b)[insert_target b := e],
            m_replaceCursor := (m_replaceCursor b + 1) mod length (m_slots b)\<rparr>"
  by (simp add: bucketInsert_def insert_target_def Let_def)

lemma insert_target_less: "bucket_ok r m s b \<Longrightarrow> insert_target b < length (m_slots b)"
  using firstFree_le [of "m_slots b"] by (auto simp: insert_target_def bucket_ok_def)

lemma slot_ok_cong:
  assumes "length (m_shards m') = length (m_shards m)" "globalEpoch m \<le> globalEpoch m'" "processEpoch m \<le> processEpoch m'"
  shows "slot_ok r m s e \<Longrightarrow> slot_ok r m' s e"
  using assms shardIndexOf_cong [of m' m] by (auto simp: slot_ok_def)

lemma bucket_ok_cong:
  assumes "length (m_shards m') = length (m_shards m)" "globalEpoch m \<le> globalEpoch m'" "processEpoch m \<le> processEpoch m'"
  shows "bucket_ok r m s b \<Longrightarrow> bucket_ok r m' s b"
  using slot_ok_cong [OF assms] by (auto simp: bucket_ok_def list_all_iff)

lemma bucketInsert_ok:
  "bucket_ok r m s b \<Longrightarrow> slot_ok r m s e \<Longrightarrow> bucket_ok r m s (fst (bucketInsert e b))"
  by (auto simp: bucketInsert_eq bucket_ok_def list_all_iff dest!: set_update_subset_insert [THEN subsetD] intro: mod_less_divisor)

lemma mgr_inv_update:
  assumes "mgr_inv r m" "s < length (m_shards m)" "bucket_ok r m s b"
  shows "mgr_inv r (m\<lparr>m_shards := (m_shards m)[s := b]\<rparr>)"
proof -
  let ?m = "m\<lparr>m_shards := (m_shards m)[s := b]\<rparr>"
  have "bucket_ok r ?m i (m_shards ?m ! i)" if "i < length (m_shards m)" for i
    using that assms by (intro bucket_ok_cong [of ?m m]) (auto simp: nth_list_update mgr_inv_def)
  then show ?thesis using assms(1) by (auto simp: mgr_inv_def)
qed

definition new_entry :: "SPAMShardManager \<Rightarrow> TlbRealm \<Rightarrow> u64 \<Rightarrow> u64 \<Rightarrow> AlphaPte \<Rightarrow> u8 \<Rightarrow> TlbEntry" where
  "new_entry m r va a p g = mkEntry (mkTag (vaToVpn va) a r g) p \<lparr>snap_global = globalEpoch m, snap_process = processEpoch m\<rparr>"

lemma insert_entry_eq:
  "insert_entry m r va a p g = (let s = shardIndexOf m (mkTag (vaToVpn va) a r g) in
     m\<lparr>m_shards := (m_shards m)[s := fst (bucketInsert (new_entry m r va a p g) (m_shards m ! s))]\<rparr>)"
  by (simp add: insert_entry_def new_entry_def Let_def)

lemma new_entry_ok: "g \<le> 3 \<Longrightarrow> slot_ok r m (shardIndexOf m (mkTag (vaToVpn va) a r g)) (new_entry m r va a p g)"
  by (simp add: slot_ok_def new_entry_def mkEntry_def) (simp add: mkTag_def)

lemma insert_inv: "mgr_inv r m \<Longrightarrow> g \<le> 3 \<Longrightarrow> mgr_inv r (insert_entry m r va a p g)"
  unfolding insert_entry_eq Let_def
  by (intro mgr_inv_update bucketInsert_ok new_entry_ok mgr_inv_bucket) auto

lemma slots_update:
  assumes "s < length (m_shards m)"
  shows "e \<in> set (m_slots ((m_shards m)[s := b] ! i)) \<Longrightarrow> e \<in> set (m_slots b) \<or> e \<in> set (m_slots (m_shards m ! i))"
  using assms by (cases "i = s") auto

lemma insert_slots:
  "e \<in> set (m_slots (fst (bucketInsert n b))) \<Longrightarrow> e = n \<or> e \<in> set (m_slots b)"
  by (auto simp: bucketInsert_eq dest!: set_update_subset_insert [THEN subsetD])

lemma insert_new_in: "bucket_ok r m s b \<Longrightarrow> n \<in> set (m_slots (fst (bucketInsert n b)))"
  using insert_target_less [of r m s b] by (simp add: bucketInsert_eq set_update_memI)

lemma insert_live:
  assumes "mgr_inv r m" 
  shows "live (insert_entry m r va a p g) \<subseteq> insert (new_entry m r va a p g) (live m)"
    "new_entry m r va a p g \<in> live (insert_entry m r va a p g)"
proof -
  let ?s = "shardIndexOf m (mkTag (vaToVpn va) a r g)" and ?n = "new_entry m r va a p g"
  have s: "?s < length (m_shards m)" using assms by simp
  show "live (insert_entry m r va a p g) \<subseteq> insert ?n (live m)"
  proof
    fix e assume "e \<in> live (insert_entry m r va a p g)"
    then obtain b where b: "b \<in> set ((m_shards m)[?s := fst (bucketInsert ?n (m_shards m ! ?s))])"
      "e \<in> set (m_slots b)" "valid e" "isLiveUnder e (globalEpoch m) (processEpoch m)"
      by (auto simp: live_def insert_entry_eq Let_def)
    then consider "b = fst (bucketInsert ?n (m_shards m ! ?s))" | "b \<in> set (m_shards m)"
      by (auto dest!: set_update_subset_insert [THEN subsetD])
    then show "e \<in> insert ?n (live m)"
    proof cases
      case 1 then show ?thesis using b insert_slots [of e ?n "m_shards m ! ?s"] s by (auto simp: live_def)
    next
      case 2 then show ?thesis using b by (auto simp: live_def)
    qed
  qed
  have "?n \<in> set (m_slots (fst (bucketInsert ?n (m_shards m ! ?s))))"
    using insert_new_in [OF mgr_inv_bucket [OF assms s]] .
  then show "?n \<in> live (insert_entry m r va a p g)"
    using s by (auto simp: live_def insert_entry_eq Let_def new_entry_def mkEntry_def isLiveUnder_def isEpochLive_def
        intro!: bexI [OF _ set_update_memI])
qed

lemma insert_hit_block:
  assumes inv: "mgr_inv r m" and miss: "lookup m r va' a = None" and g: "g \<le> 3"
    and cov: "vaToVpn va' AND vpnMaskForGh g = vaToVpn va AND vpnMaskForGh g"
  shows "lookup (insert_entry m r va a p g) r va' a = Some p"
proof -
  let ?m = "insert_entry m r va a p g" and ?n = "new_entry m r va a p g"
  let ?s = "shardIndexOf m (mkTag (vaToVpn va) a r g)"
  have s: "?s < length (m_shards m)" using inv by simp
  have n: "matches ?n (vaToVpn va') a" "tag_asn (ent_tag ?n) = a" "ent_pte ?n = p"
    using cov by (simp_all add: new_entry_def mkEntry_def matches_def mkTag_def)
  have "lookup ?m r va' a \<noteq> None"
    using lookup_complete [OF insert_inv [OF inv g] insert_live(2) [OF inv]] n by blast
  then obtain q where q: "lookup ?m r va' a = Some q" by auto
  then obtain g' e where e: "g' \<in> set [0, 1, 2, 3]"
     "e \<in> set (m_slots (m_shards ?m ! shardIndexOf ?m (mkTag (vaToVpn va') a r g')))"
     "matches e (vaToVpn va') a" "isLiveUnder e (globalEpoch ?m) (processEpoch ?m)" "ent_pte e = q"
    using probeGh_Some unfolding lookup_def by blast
  have "shardIndexOf ?m t = shardIndexOf m t" for t
    by (simp add: shardIndexOf_def insert_entry_eq Let_def)
  with e(2) have "e = ?n \<or> e \<in> set (m_slots (m_shards m ! shardIndexOf m (mkTag (vaToVpn va') a r g')))"
    using slots_update [OF s] insert_slots s
    by (fastforce simp: insert_entry_eq Let_def nth_list_update split: if_splits)
  moreover have "globalEpoch ?m = globalEpoch m" "processEpoch ?m = processEpoch m"
    by (simp_all add: insert_entry_eq Let_def)
  ultimately have "e = ?n" using miss e unfolding lookup_def probeGh_None by auto
  then show ?thesis using e n q by simp
qed

lemmas insert_hit = insert_hit_block [OF _ _ _ refl]

lemma word_less_succ: "(w :: u64) \<noteq> - 1 \<Longrightarrow> w < w + 1"
proof -
  assume "w \<noteq> - 1"
  moreover have "uint (- 1 :: u64) = 2 ^ 64 - 1"
    by (simp add: unsigned_minus_1_eq_mask mask_eq_exp_minus_1)
  ultimately have "uint w \<noteq> 2 ^ 64 - 1" by (simp add: word_uint_eq_iff)
  then have "uint w + 1 < 2 ^ 64" using uint_lt2p [of w] by simp
  then show ?thesis by (simp add: word_less_def uint_word_ariths)
qed

lemma invalidateAll_inv:
  assumes "mgr_inv r m" "globalEpoch m \<noteq> - 1" shows "mgr_inv r (invalidateAll m)"
  using assms word_less_succ [OF assms(2)] bucket_ok_cong [of "invalidateAll m" m]
  by (auto simp: mgr_inv_def invalidateAll_def less_imp_le)

lemma invalidateAllProcess_inv:
  assumes "mgr_inv r m" "processEpoch m \<noteq> - 1" shows "mgr_inv r (invalidateAllProcess m)"
  using assms word_less_succ [OF assms(2)] bucket_ok_cong [of "invalidateAllProcess m" m]
  by (auto simp: mgr_inv_def invalidateAllProcess_def less_imp_le)

lemma mgr_inv_slot:
  assumes "mgr_inv r m" "b \<in> set (m_shards m)" "e \<in> set (m_slots b)"
  shows "\<exists>s. slot_ok r m s e"
  using assms by (auto simp: mgr_inv_def bucket_ok_def list_all_iff in_set_conv_nth [of b])

lemma invalidateAll_live:
  assumes "mgr_inv r m" "globalEpoch m \<noteq> - 1" shows "live (invalidateAll m) = {}"
proof -
  have "\<not> isLiveUnder e (globalEpoch m + 1) p" if "b \<in> set (m_shards m)" "e \<in> set (m_slots b)" "valid e" for b e p
  proof -
    have "snap_global (ent_epochs e) \<le> globalEpoch m"
      using mgr_inv_slot [OF assms(1) that(1,2)] that(3) by (auto simp: slot_ok_def)
    then show ?thesis using word_less_succ [OF assms(2)] by (auto simp: isLiveUnder_def isEpochLive_def)
  qed
  then show ?thesis by (auto simp: live_def invalidateAll_def)
qed

lemma invalidateAllProcess_live:
  assumes "mgr_inv r m" "processEpoch m \<noteq> - 1" 
  shows "live (invalidateAllProcess m) = {e \<in> live m. bitASM (ent_pte e)}"
proof -
  have "isLiveUnder e (globalEpoch m) (processEpoch m + 1) \<longleftrightarrow> isLiveUnder e (globalEpoch m) (processEpoch m) \<and> bitASM (ent_pte e)"
    if "b \<in> set (m_shards m)" "e \<in> set (m_slots b)" "valid e" for b e
  proof -
    have "snap_process (ent_epochs e) \<le> processEpoch m" "asmGlobal e = bitASM (ent_pte e)"
      using mgr_inv_slot [OF assms(1) that(1,2)] that(3) by (auto simp: slot_ok_def)
    then show ?thesis using word_less_succ [OF assms(2)] by (auto simp: isLiveUnder_def isEpochLive_def)
  qed
  then show ?thesis by (auto simp: live_def invalidateAllProcess_def)
qed

definition kill_slot :: "u64 \<Rightarrow> u64 \<Rightarrow> TlbRealm \<Rightarrow> TlbEntry \<Rightarrow> TlbEntry" where
  "kill_slot v a r e = (if tag_realm (ent_tag e) = r \<and> matches e v a then invalidate e else e)"

lemma invalidateSlots_map: "fst (invalidateSlots ss v a r) = map (kill_slot v a r) ss"
  by (induction ss) (auto simp: kill_slot_def Let_def case_prod_beta dest: matches_valid)

lemma invalidateMatching_eq: "fst (invalidateMatching b v a r) = b\<lparr>m_slots := map (kill_slot v a r) (m_slots b)\<rparr>"
  using invalidateSlots_map [of "m_slots b" v a r] by (simp add: invalidateMatching_def case_prod_beta)

lemma invalidate_not_valid [simp]: "\<not> valid (invalidate e)" by (simp add: invalidate_def)

lemma kill_slot_valid: "valid (kill_slot v a r e) \<Longrightarrow> kill_slot v a r e = e \<and> \<not> (tag_realm (ent_tag e) = r \<and> matches e v a)"
  by (auto simp: kill_slot_def split: if_splits)

lemma kill_slot_ok: "slot_ok r m s e \<Longrightarrow> slot_ok r m s (kill_slot v a r' e)"
  using kill_slot_valid [of v a r' e] by (auto simp: slot_ok_def)

lemma invalidateMatching_ok: "bucket_ok r m s b \<Longrightarrow> bucket_ok r m s (fst (invalidateMatching b v a r'))"
  by (auto simp: invalidateMatching_eq bucket_ok_def list_all_iff kill_slot_ok)

text \<open>One probe of the targeted invalidation.\<close>

definition kill_shard :: "TlbRealm \<Rightarrow> u64 \<Rightarrow> u64 \<Rightarrow> u8 \<Rightarrow> SPAMShardManager \<Rightarrow> SPAMShardManager" where
  "kill_shard r v a g m = (let s = shardIndexOf m (mkTag v a r g) in
     m\<lparr>m_shards := (m_shards m)[s := fst (invalidateMatching (m_shards m ! s) v a r)]\<rparr>)"

lemma invalidateGh_fold: "fst (invalidateGh m r v a gs c) = fold (kill_shard r v a) gs m"
  by (induction gs arbitrary: m c) (simp_all add: kill_shard_def Let_def case_prod_beta)

lemma kill_shard_frame [simp]:
  "globalEpoch (kill_shard r v a g m) = globalEpoch m" "processEpoch (kill_shard r v a g m) = processEpoch m"
  "length (m_shards (kill_shard r v a g m)) = length (m_shards m)"
  "shardIndexOf (kill_shard r v a g m) t = shardIndexOf m t"
  by (simp_all add: kill_shard_def Let_def shardIndexOf_def)

lemma kill_shard_inv: "mgr_inv r m \<Longrightarrow> mgr_inv r (kill_shard r' v a g m)"
  unfolding kill_shard_def Let_def
  by (intro mgr_inv_update invalidateMatching_ok mgr_inv_bucket) auto

lemma kill_shards_inv: "mgr_inv r m \<Longrightarrow> mgr_inv r (fold (kill_shard r' v a) gs m)"
  by (induction gs arbitrary: m) (auto simp: kill_shard_inv)

lemma invalidateSingle_inv: "mgr_inv r m \<Longrightarrow> mgr_inv r (fst (invalidateSingle m r va a))"
  by (simp only: invalidateSingle_def invalidateGh_fold kill_shards_inv)

text \<open>Valid slots after a probe were there before, and a probed shard holds no match.\<close>

lemma kill_shard_slots:
  assumes "mgr_inv r m" "i < length (m_shards m)" "e \<in> set (m_slots (m_shards (kill_shard r v a g m) ! i))" "valid e"
  shows "e \<in> set (m_slots (m_shards m ! i)) \<and>
     (i = shardIndexOf m (mkTag v a r g) \<longrightarrow> \<not> (tag_realm (ent_tag e) = r \<and> matches e v a))"
proof (cases "i = shardIndexOf m (mkTag v a r g)")
  case True
  then have "e \<in> kill_slot v a r ` set (m_slots (m_shards m ! i))"
    using assms(2,3) by (simp add: kill_shard_def Let_def invalidateMatching_eq)
  then obtain x where "x \<in> set (m_slots (m_shards m ! i))" "e = kill_slot v a r x" by blast
  then show ?thesis using kill_slot_valid [of v a r x] assms(4) by simp
next
  case False
  then show ?thesis using assms(3) by (simp add: kill_shard_def Let_def)
qed

lemma kill_shards_slots:
  assumes "mgr_inv r m" "i < length (m_shards m)" "e \<in> set (m_slots (m_shards (fold (kill_shard r v a) gs m) ! i))" "valid e"
  shows "e \<in> set (m_slots (m_shards m ! i)) \<and>
     (\<forall>g \<in> set gs. i = shardIndexOf m (mkTag v a r g) \<longrightarrow> \<not> (tag_realm (ent_tag e) = r \<and> matches e v a))"
  using assms
proof (induction gs arbitrary: m)
  case (Cons g gs)
  have "e \<in> set (m_slots (m_shards (kill_shard r v a g m) ! i)) \<and>
     (\<forall>g' \<in> set gs. i = shardIndexOf m (mkTag v a r g') \<longrightarrow> \<not> (tag_realm (ent_tag e) = r \<and> matches e v a))"
    using Cons.IH [of "kill_shard r v a g m"] Cons.prems by (simp add: kill_shard_inv)
  then show ?case using kill_shard_slots [OF Cons.prems(1,2) _ Cons.prems(4), of v a g] by auto
qed simp

lemma fold_kill_frame [simp]:
  "globalEpoch (fold (kill_shard r v a) gs m) = globalEpoch m" "processEpoch (fold (kill_shard r v a) gs m) = processEpoch m"
  "length (m_shards (fold (kill_shard r v a) gs m)) = length (m_shards m)"
  "shardIndexOf (fold (kill_shard r v a) gs m) t = shardIndexOf m t"
  by (induction gs arbitrary: m) simp_all

lemma invalidateSingle_live:
  assumes "mgr_inv r m"
  shows "live (fst (invalidateSingle m r va a)) \<subseteq>
    {e \<in> live m. \<not> (matches e (vaToVpn va) a \<and> tag_asn (ent_tag e) = a)}"
proof
  let ?m = "fold (kill_shard r (vaToVpn va) a) [0, 1, 2, 3] m"
  fix e assume "e \<in> live (fst (invalidateSingle m r va a))"
  then have "e \<in> live ?m" by (simp only: invalidateSingle_def invalidateGh_fold)
  then obtain i where i: "i < length (m_shards m)" "e \<in> set (m_slots (m_shards ?m ! i))" "valid e"
    "isLiveUnder e (globalEpoch m) (processEpoch m)"
    unfolding live_def mem_Collect_eq by (metis in_set_conv_nth fold_kill_frame(1,2,3))
  note k = kill_shards_slots [OF assms i(1,2,3)]
  then have el: "e \<in> live m" using i by (auto simp: live_def)
  have ok: "slot_ok r m i e" using assms k i(1) by (auto simp: mgr_inv_def bucket_ok_def list_all_iff)
  have "\<not> (matches e (vaToVpn va) a \<and> tag_asn (ent_tag e) = a)"
  proof
    assume "matches e (vaToVpn va) a \<and> tag_asn (ent_tag e) = a"
    then have "i = shardIndexOf m (mkTag (vaToVpn va) a r (tag_gh (ent_tag e)))"
      using matches_mkTag [of e "vaToVpn va" a] ok i(3) by (auto simp: slot_ok_def)
    moreover have "tag_gh (ent_tag e) \<in> set [0, 1, 2, 3]" "tag_realm (ent_tag e) = r"
      using ok i(3) gh_le_3 [of "tag_gh (ent_tag e)"] by (simp_all add: slot_ok_def)
    ultimately show False using k \<open>matches e (vaToVpn va) a \<and> tag_asn (ent_tag e) = a\<close> by blast
  qed
  then show "e \<in> {e \<in> live m. \<not> (matches e (vaToVpn va) a \<and> tag_asn (ent_tag e) = a)}" using el by blast
qed

lemma invalidateSingle_miss:
  assumes "mgr_inv r m" shows "lookup (fst (invalidateSingle m r va a)) r va a = None"
proof -
  let ?m = "fold (kill_shard r (vaToVpn va) a) [0, 1, 2, 3] m"
  have "\<not> matches e (vaToVpn va) a" if g: "g \<in> set [0, 1, 2, 3]"
    and e: "e \<in> set (m_slots (m_shards ?m ! shardIndexOf ?m (mkTag (vaToVpn va) a r g)))" for g e
  proof
    assume m: "matches e (vaToVpn va) a"
    let ?i = "shardIndexOf m (mkTag (vaToVpn va) a r g)"
    have i: "?i < length (m_shards m)" "e \<in> set (m_slots (m_shards ?m ! ?i))" "valid e"
      using e assms matches_valid [OF m] by (simp_all only: fold_kill_frame shardIndexOf_less)
    note k = kill_shards_slots [OF assms this]
    then have "slot_ok r m ?i e" using assms i(1) by (auto simp: mgr_inv_def bucket_ok_def list_all_iff)
    with k g m i(3) show False by (auto simp: slot_ok_def)
  qed
  then show ?thesis unfolding lookup_def probeGh_None invalidateSingle_def invalidateGh_fold by blast
qed

lemma clear_inv: "mgr_inv r m \<Longrightarrow> mgr_inv r (clear m) \<and> live (clear m) = {}"
  by (auto simp: mgr_inv_def clear_def bucketClear_def bucket_ok_def list_all_iff slot_ok_def live_def)

lemma newManager_inv:
  "k \<le> 32 \<Longrightarrow> 0 < ways \<Longrightarrow> mgr_inv r (newManager (2 ^ k) ways) \<and> live (newManager (2 ^ k) ways) = {}"
  by (auto simp: mgr_inv_def newManager_def bucket_ok_def list_all_iff slot_ok_def live_def emptyEntry_def)

section \<open>What the translation buffer promises\<close>

text \<open>
  The contract the translator relies on, over an arbitrary buffer.  \<open>flushable\<close> says that
  the flush counter has not reached its last value.
\<close>

locale translation_buffer =
  fixes inv :: "'m \<Rightarrow> bool"
    and flushable :: "'m \<Rightarrow> bool"
    and look :: "'m \<Rightarrow> u64 \<Rightarrow> u64 \<Rightarrow> AlphaPte option"
    and fill :: "'m \<Rightarrow> u64 \<Rightarrow> u64 \<Rightarrow> AlphaPte \<Rightarrow> u8 \<Rightarrow> 'm"
    and tbia :: "'m \<Rightarrow> 'm"
    and tbis :: "'m \<Rightarrow> u64 \<Rightarrow> u64 \<Rightarrow> 'm"
  assumes inv_fill: "inv m \<Longrightarrow> g \<le> 3 \<Longrightarrow> inv (fill m va a p g)"
    and inv_tbia: "inv m \<Longrightarrow> flushable m \<Longrightarrow> inv (tbia m)"
    and inv_tbis: "inv m \<Longrightarrow> inv (tbis m va a)"
    and fill_hit: "inv m \<Longrightarrow> look m va a = None \<Longrightarrow> g \<le> 3 \<Longrightarrow>
                     look (fill m va a p g) va a = Some p"
    and tbia_miss: "inv m \<Longrightarrow> flushable m \<Longrightarrow> look (tbia m) va a = None"
    and tbis_miss: "inv m \<Longrightarrow> look (tbis m va a) va a = None"
begin

text \<open>Changing one mapping: invalidate it, then fill the new one.\<close>

lemma replace_mapping:
  "inv m \<Longrightarrow> g \<le> 3 \<Longrightarrow> look (fill (tbis m va a) va a p g) va a = Some p"
  by (intro fill_hit inv_tbis tbis_miss)

lemma refill_after_flush:
  "inv m \<Longrightarrow> flushable m \<Longrightarrow> g \<le> 3 \<Longrightarrow> look (fill (tbia m) va a p g) va a = Some p"
  by (intro fill_hit inv_tbia tbia_miss)

end

lemma no_live_no_hit: "mgr_inv r m \<Longrightarrow> live m = {} \<Longrightarrow> lookup m r va a = None"
  using lookup_sound [of r m va a] by (cases "lookup m r va a") auto

lemma invalidateAll_miss:
  "mgr_inv r m \<Longrightarrow> globalEpoch m \<noteq> - 1 \<Longrightarrow> lookup (invalidateAll m) r va a = None"
  by (intro no_live_no_hit invalidateAll_inv invalidateAll_live)

interpretation dtb: translation_buffer "mgr_inv Dtb" "\<lambda>m. globalEpoch m \<noteq> - 1"
  "\<lambda>m. lookup m Dtb" "\<lambda>m. insert_entry m Dtb" invalidateAll "\<lambda>m va a. fst (invalidateSingle m Dtb va a)"
  by unfold_locales
    (simp_all add: insert_inv invalidateAll_inv invalidateSingle_inv insert_hit
      invalidateAll_miss invalidateSingle_miss)

interpretation itb: translation_buffer "mgr_inv Itb" "\<lambda>m. globalEpoch m \<noteq> - 1"
  "\<lambda>m. lookup m Itb" "\<lambda>m. insert_entry m Itb" invalidateAll "\<lambda>m va a. fst (invalidateSingle m Itb va a)"
  by unfold_locales
    (simp_all add: insert_inv invalidateAll_inv invalidateSingle_inv insert_hit
      invalidateAll_miss invalidateSingle_miss)

section \<open>The buffer as a set of mappings\<close>

datatype tb_op = Fill u64 u64 AlphaPte u8 | TBIA | TBIAP | TBIS u64 u64 | Reset

fun tb_step :: "TlbRealm \<Rightarrow> tb_op \<Rightarrow> SPAMShardManager \<Rightarrow> SPAMShardManager" where
  "tb_step r (Fill va a p g) m = insert_entry m r va a p g"
| "tb_step r TBIA m = invalidateAll m"
| "tb_step r TBIAP m = invalidateAllProcess m"
| "tb_step r (TBIS va a) m = fst (invalidateSingle m r va a)"
| "tb_step r Reset m = clear m"

definition covers :: "TlbTag \<Rightarrow> u64 \<Rightarrow> bool" where
  "covers t va \<longleftrightarrow> vaToVpn va AND vpnMaskForGh (tag_gh t) = tag_vpn t"

fun spec_step :: "TlbRealm \<Rightarrow> tb_op \<Rightarrow> (TlbTag \<times> AlphaPte) set \<Rightarrow> (TlbTag \<times> AlphaPte) set" where
  "spec_step r (Fill va a p g) S = insert (mkTag (vaToVpn va) a r g, p) S"
| "spec_step r TBIA S = {}"
| "spec_step r TBIAP S = {e \<in> S. bitASM (snd e)}"
| "spec_step r (TBIS va a) S = {e \<in> S. \<not> (covers (fst e) va \<and> (bitASM (snd e) \<or> tag_asn (fst e) = a))}"
| "spec_step r Reset S = {}"

text \<open>
  A single invalidation selects its shard with the ASN of the request, so an entry for all address spaces
  is found only under the ASN it was filled with. A sequence is disciplined when every TBIS whose block
  such an entry covers carries that ASN.
\<close>

fun disciplined :: "TlbRealm \<Rightarrow> tb_op list \<Rightarrow> (TlbTag \<times> AlphaPte) set \<Rightarrow> bool" where
  "disciplined r [] S \<longleftrightarrow> True"
| "disciplined r (x # xs) S \<longleftrightarrow>
    (case x of TBIS va a \<Rightarrow> (\<forall>e\<in>S. covers (fst e) va \<and> bitASM (snd e) \<longrightarrow> tag_asn (fst e) = a) | _ \<Rightarrow> True) \<and>
    disciplined r xs (spec_step r x S)"

fun op_ok :: "tb_op \<Rightarrow> bool" where
  "op_ok (Fill va a p g) \<longleftrightarrow> g \<le> 3"
| "op_ok _ \<longleftrightarrow> True"

definition mappings :: "SPAMShardManager \<Rightarrow> (TlbTag \<times> AlphaPte) set" where
  "mappings m = (\<lambda>e. (ent_tag e, ent_pte e)) ` live m"

definition epochs_le :: "nat \<Rightarrow> SPAMShardManager \<Rightarrow> bool" where
  "epochs_le n m \<longleftrightarrow> unat (globalEpoch m) \<le> n \<and> unat (processEpoch m) \<le> n"

lemma unat_not_max: "unat (w :: u64) \<le> n \<Longrightarrow> n + 1 < 2 ^ 64 \<Longrightarrow> w \<noteq> - 1"
  by (auto simp: unsigned_minus_1_eq_mask mask_eq_exp_minus_1)

lemma unat_succ_le: "unat (w + 1 :: u64) \<le> unat w + 1"
  using unat_word_ariths(1) [of w 1] mod_less_eq_dividend by (metis unsigned_1)

lemma fold_kill_epochs: "epochs_le n m \<Longrightarrow> epochs_le n (fold (kill_shard r v a) gs m)"
  by (simp add: epochs_le_def)

lemma tb_step_inv:
  assumes "mgr_inv r m" "op_ok x" "epochs_le n m" "n + 1 < 2 ^ 64"
  shows "mgr_inv r (tb_step r x m) \<and> epochs_le (n + 1) (tb_step r x m)"
proof -
  have nm: "globalEpoch m \<noteq> - 1" "processEpoch m \<noteq> - 1"
    using assms(3,4) unat_not_max by (auto simp: epochs_le_def)
  have "mgr_inv r (tb_step r x m)"
    using assms(1,2) nm by (cases x) (auto simp: insert_inv invalidateAll_inv invalidateAllProcess_inv invalidateSingle_inv clear_inv)
  moreover have "epochs_le (n + 1) (tb_step r x m)"
  proof (cases x)
    case (TBIS va a)
    have "epochs_le (n + 1) m" using assms(3) by (simp add: epochs_le_def)
    then show ?thesis unfolding TBIS tb_step.simps invalidateSingle_def invalidateGh_fold by (rule fold_kill_epochs)
  qed (use assms(3) unat_succ_le [of "globalEpoch m"] unat_succ_le [of "processEpoch m"] in
      \<open>auto simp: epochs_le_def insert_entry_eq Let_def invalidateAll_def invalidateAllProcess_def clear_def\<close>)
  ultimately show ?thesis by blast
qed

lemma tb_step_sim:
  assumes "mgr_inv r m" "epochs_le n m" "n + 1 < 2 ^ 64" "mappings m \<subseteq> S" "disciplined r (x # xs) S"
  shows "mappings (tb_step r x m) \<subseteq> spec_step r x S"
proof -
  have nm: "globalEpoch m \<noteq> - 1" "processEpoch m \<noteq> - 1"
    using assms(2,3) unat_not_max by (auto simp: epochs_le_def)
  show ?thesis
  proof (cases x)
    case (Fill va a p g)
    have "mappings (insert_entry m r va a p g) \<subseteq> insert (mkTag (vaToVpn va) a r g, p) (mappings m)"
      using image_mono [OF insert_live(1) [OF assms(1), of va a p g], of "\<lambda>e. (ent_tag e, ent_pte e)"]
      by (simp add: mappings_def new_entry_def mkEntry_def)
    then show ?thesis using Fill assms(4) by auto
  next
    case TBIA then show ?thesis using invalidateAll_live [OF assms(1) nm(1)] by (simp add: mappings_def)
  next
    case TBIAP then show ?thesis using invalidateAllProcess_live [OF assms(1) nm(2)] assms(4) by (auto simp: mappings_def)
  next
    case (TBIS va a)
    have "matches e (vaToVpn va) a"
      if "e \<in> live m" "covers (ent_tag e) va" "bitASM (ent_pte e) \<or> tag_asn (ent_tag e) = a" for e
    proof -
      have "(ent_tag e, ent_pte e) \<in> S" using that(1) assms(4) by (auto simp: mappings_def)
      then have "tag_asn (ent_tag e) = a" using assms(5) that(2,3) TBIS by force
      then show ?thesis using that by (auto simp: covers_def matches_def live_def)
    qed
    moreover have "tag_asn (ent_tag e) = a"
      if "e \<in> live m" "covers (ent_tag e) va" "bitASM (ent_pte e) \<or> tag_asn (ent_tag e) = a" for e
      using that assms(4,5) TBIS by (force simp: mappings_def)
    ultimately show ?thesis using TBIS invalidateSingle_live [OF assms(1), of va a] assms(4) by (fastforce simp: mappings_def)
  next
    case Reset then show ?thesis using clear_inv [OF assms(1)] by (simp add: mappings_def)
  qed
qed

lemma tb_run_sim:
  assumes "mgr_inv r m" "epochs_le n m" "n + length xs < 2 ^ 64" "list_all op_ok xs" "mappings m \<subseteq> S"
    "disciplined r xs S"
  shows "mgr_inv r (fold (tb_step r) xs m) \<and> mappings (fold (tb_step r) xs m) \<subseteq> fold (spec_step r) xs S"
  using assms
proof (induction xs arbitrary: m n S)
  case (Cons x xs)
  then have "mgr_inv r (tb_step r x m) \<and> epochs_le (n + 1) (tb_step r x m)" by (intro tb_step_inv) auto
  moreover have "mappings (tb_step r x m) \<subseteq> spec_step r x S" using Cons by (intro tb_step_sim [of r m n S x xs]) auto
  ultimately show ?case using Cons.IH [of "tb_step r x m" "n + 1"] Cons.prems by simp
qed simp

section \<open>Properties\<close>

text \<open>
  C1. No stale translation.  Run any sequence of fills, TBIA, TBIAP, TBIS and resets from
  an empty buffer: a lookup that hits returns the entry of a fill of that sequence whose
  block covers the address, made for the same address space or for all of them, and that no
  later flush of the sequence was to remove: TBIA removes every entry, TBIAP those of one address
  space, TBIS those that cover its address, of its address space or of all.  The sequence is
  disciplined: a TBIS that meets an entry for all address spaces carries the ASN it was filled
  with.  The counters cannot wrap within \<open>2 ^ 64\<close> operations.
\<close>

theorem tb_no_stale_translation:
  assumes "k \<le> 32" "0 < ways" "length xs < 2 ^ 64" "list_all op_ok xs" "disciplined r xs {}"
    and "lookup (fold (tb_step r) xs (newManager (2 ^ k) ways)) r va a = Some q"
  shows "\<exists>t. (t, q) \<in> fold (spec_step r) xs {} \<and> covers t va \<and> (bitASM q \<or> tag_asn t = a)"
proof -
  let ?m = "fold (tb_step r) xs (newManager (2 ^ k) ways)"
  have "epochs_le 0 (newManager (2 ^ k) ways)" by (simp add: epochs_le_def newManager_def)
  then have sim: "mgr_inv r ?m" "mappings ?m \<subseteq> fold (spec_step r) xs {}"
    using tb_run_sim [of r "newManager (2 ^ k) ways" 0 xs "{}"] newManager_inv [OF assms(1,2)] assms(3-5)
    by (auto simp: mappings_def)
  obtain e where e: "e \<in> live ?m" "matches e (vaToVpn va) a" "ent_pte e = q"
    using lookup_sound [OF sim(1) assms(6)] by blast
  have "asmGlobal e = bitASM q"
    using mgr_inv_slot [OF sim(1)] e by (auto simp: live_def slot_ok_def)
  then have "covers (ent_tag e) va \<and> (bitASM q \<or> tag_asn (ent_tag e) = a)"
    using e by (auto simp: covers_def matches_def split: if_splits)
  then show ?thesis using sim(2) e by (force simp: mappings_def)
qed

text \<open>
  Two pages, one of them for all address spaces, each invalidated once and the first filled again: the
  hit is the second fill, and the other page misses.
\<close>

definition exampleHistory :: "tb_op list" where
  "exampleHistory = [Fill 0x4000 1 (makeValid 9 True True False False False) 0,
     Fill 0x8000 2 (makeValid 7 True True False False True) 0,
     TBIS 0x4000 1, TBIS 0x8000 2, Fill 0x4000 1 (makeValid 5 True True False False False) 0]"

theorem tb_no_stale_translation_witness:
  "lookup (fold (tb_step Dtb) exampleHistory (newManager (2 ^ 4) 8)) Dtb 0x8000 2 = None \<and>
   lookup (fold (tb_step Dtb) exampleHistory (newManager (2 ^ 4) 8)) Dtb 0x4008 1 =
     Some (makeValid 5 True True False False False) \<and>
   (\<exists>t. (t, makeValid 5 True True False False False) \<in> fold (spec_step Dtb) exampleHistory {} \<and>
      covers t 0x4008 \<and> tag_asn t = 1)"
proof -
  have miss: "lookup (fold (tb_step Dtb) exampleHistory (newManager (2 ^ 4) 8)) Dtb 0x8000 2 = None" by code_simp
  have hit: "lookup (fold (tb_step Dtb) exampleHistory (newManager (2 ^ 4) 8)) Dtb 0x4008 1 =
      Some (makeValid 5 True True False False False)" by code_simp
  have ok: "list_all op_ok exampleHistory" by (simp add: exampleHistory_def)
  have d: "disciplined Dtb exampleHistory {}" by code_simp
  have g: "\<not> bitASM (makeValid 5 True True False False False)" by code_simp
  have l: "length exampleHistory < 2 ^ 64" by (simp add: exampleHistory_def)
  show ?thesis
    using miss hit g tb_no_stale_translation [OF _ _ l ok d hit] by auto
qed

text \<open>
  Every operation of the buffer keeps its invariant: a power of two of shards, cursors
  within the ways, every valid slot in the shard its tag hashes to, of the buffer's realm,
  with a cached match bit that is the entry's and epochs not beyond the counters.
\<close>

theorem tb_invariant_preserved:
  "mgr_inv r m \<Longrightarrow> op_ok x \<Longrightarrow> globalEpoch m \<noteq> - 1 \<Longrightarrow> processEpoch m \<noteq> - 1 \<Longrightarrow>
     mgr_inv r (tb_step r x m)"
  by (cases x) (simp_all add: insert_inv invalidateAll_inv invalidateAllProcess_inv
      invalidateSingle_inv clear_inv)

theorem tb_invariant_preserved_witness:
  "mgr_inv Dtb (tb_step Dtb TBIAP (newManager (2 ^ 4) 8))"
  using tb_invariant_preserved [of Dtb "newManager (2 ^ 4) 8" TBIAP] newManager_inv [of 4 8 Dtb]
  by (simp add: newManager_def)

text \<open>
  A fill is found: after a miss, filling a mapping makes every address of its
  granularity-hint block that missed before hit with the new entry, in the same address space.
\<close>

theorem tb_fill_covers_block:
  "mgr_inv r m \<Longrightarrow> lookup m r va' a = None \<Longrightarrow> g \<le> 3 \<Longrightarrow>
   covers (mkTag (vaToVpn va) a r g) va' \<Longrightarrow>
   lookup (insert_entry m r va a p g) r va' a = Some p"
  by (rule insert_hit_block) (simp_all add: covers_def mkTag_def)

theorem tb_fill_covers_block_witness:
  "lookup (newManager (2 ^ 4) 8) Itb 0xE000 5 = None \<and>
   lookup (insert_entry (newManager (2 ^ 4) 8) Itb 0x2000 5 makeInvalid 1) Itb 0xE000 5 =
     Some makeInvalid"
proof -
  have inv: "mgr_inv Itb (newManager (2 ^ 4) 8)" "live (newManager (2 ^ 4) 8) = {}"
    using newManager_inv [of 4 8 Itb] by simp_all
  have cov: "covers (mkTag (vaToVpn 0x2000) 5 Itb 1) 0xE000" by code_simp
  show ?thesis
    using no_live_no_hit [OF inv] tb_fill_covers_block [OF inv(1) no_live_no_hit [OF inv] _ cov]
    by simp
qed

text \<open>
  Replacing one mapping the way the PALcode does it, TBIS and then a fill, makes the
  lookup return the new entry whatever the buffer held before; and TBIA followed by a fill
  does the same after a flush of everything.
\<close>

theorem tb_replace_mapping:
  "mgr_inv Dtb m \<Longrightarrow> g \<le> 3 \<Longrightarrow>
   lookup (insert_entry (fst (invalidateSingle m Dtb va a)) Dtb va a p g) Dtb va a = Some p \<and>
   (globalEpoch m \<noteq> - 1 \<longrightarrow> lookup (insert_entry (invalidateAll m) Dtb va a p g) Dtb va a = Some p)"
  using dtb.replace_mapping dtb.refill_after_flush by blast

theorem tb_replace_mapping_witness:
  "lookup (insert_entry (fst (invalidateSingle (newManager (2 ^ 4) 8) Dtb 0x2000 0)) Dtb 0x2000 0
     makeInvalid 0) Dtb 0x2000 0 = Some makeInvalid \<and>
   lookup (insert_entry (invalidateAll (newManager (2 ^ 4) 8)) Dtb 0x2000 0
     makeInvalid 0) Dtb 0x2000 0 = Some makeInvalid"
  using tb_replace_mapping [of "newManager (2 ^ 4) 8" 0 "0x2000" 0 makeInvalid]
    newManager_inv [of 4 8 Dtb] by (simp add: newManager_def)

text \<open>
  Bulk invalidation: after TBIA every lookup misses, and TBIAP keeps exactly the live
  mappings whose entry has the address-space-match bit.
\<close>

theorem tb_bulk_invalidation:
  "mgr_inv r m \<Longrightarrow> globalEpoch m \<noteq> - 1 \<Longrightarrow> processEpoch m \<noteq> - 1 \<Longrightarrow>
   lookup (invalidateAll m) r va a = None \<and>
   mappings (invalidateAllProcess m) = {e \<in> mappings m. bitASM (snd e)}"
  using invalidateAllProcess_live [of r m] by (auto simp: invalidateAll_miss mappings_def)

theorem tb_bulk_invalidation_witness:
  "lookup (invalidateAll (newManager (2 ^ 4) 8)) Itb 0x2000 0 = None \<and>
   mappings (invalidateAllProcess (newManager (2 ^ 4) 8)) =
     {e \<in> mappings (newManager (2 ^ 4) 8). bitASM (snd e)}"
  using tb_bulk_invalidation [of Itb "newManager (2 ^ 4) 8" "0x2000" 0] newManager_inv [of 4 8 Itb]
  by (simp add: newManager_def)

text \<open>
  A global (address-space-match) mapping filled under one address space is not found under
  another one when the two hash to different shards, and TBIS under the other one leaves it:
  the hash of the probe mixes in the address space of the access.
\<close>

theorem asm_entry_missed_under_other_asn:
  "bitASM (makeValid 9 True True False False True) \<and>
   lookup (insert_entry (newManager 16 8) Dtb 0x4000 0 (makeValid 9 True True False False True) 0)
     Dtb 0x4000 0 \<noteq> None \<and>
   lookup (insert_entry (newManager 16 8) Dtb 0x4000 0 (makeValid 9 True True False False True) 0)
     Dtb 0x4000 1 = None \<and>
   lookup (fst (invalidateSingle
     (insert_entry (newManager 16 8) Dtb 0x4000 0 (makeValid 9 True True False False True) 0)
     Dtb 0x4000 1)) Dtb 0x4000 0 \<noteq> None"
  by code_simp

end
