(* ===== verification/Translator.thy ===== *)
theory Translator
  imports Tlb
begin

text \<open>
  The EV6 address translator of mmuLib/Ev6Translator.h (canonical-address check, kseg
  superpages, permission check, data and instruction translation), the result codes of
  mmuLib/TranslationResult.h with the fault constants of coreLib/BoxResult.h, and the
  HW\_MTPR cases of palBoxLib/grains/PalEntries.cpp through which PALcode fills and flushes
  the two translation buffers.  An output parameter is passed in and returned, so that a
  fault visibly leaves it alone.  The debug build option EMULATR\_BOOTSTRAP\_ITB\_BYPASS is
  off and the unaligned-access log is not modelled.
\<close>

section \<open>Results and fault codes\<close>

datatype TranslationResult =
    Success | NonCanonical | NotKseg | DtbMiss | ItbMiss | AccessViolation
  | FaultOnRead | FaultOnWrite | FaultOnExecute | BusError | Unaligned

fun toFaultCode :: "TranslationResult \<Rightarrow> u16" where
  "toFaultCode Success = 0"
| "toFaultCode NotKseg = 0"
| "toFaultCode NonCanonical = 12"
| "toFaultCode DtbMiss = 5"
| "toFaultCode ItbMiss = 6"
| "toFaultCode AccessViolation = 7"
| "toFaultCode FaultOnRead = 8"
| "toFaultCode FaultOnWrite = 9"
| "toFaultCode FaultOnExecute = 10"
| "toFaultCode BusError = 11"
| "toFaultCode Unaligned = 4"

section \<open>The processor state the translator reads\<close>

record CpuState =
  pc :: u64
  mode :: Mode_Privilege
  asn :: u64
  va_ctl :: u64
  i_spe :: u8
  m_spe :: u8
  unalignTrapEnabled :: bool
  itbMgr :: SPAMShardManager
  dtbMgr :: SPAMShardManager
  itbTag :: u64
  dtbTag0 :: u64
  dtbTag1 :: u64
  dtbAsn0 :: u64
  dtbAsn1 :: u64
  itbPteTemp :: u64
  dtbPteTemp :: u64

definition inPalMode :: "'a CpuState_scheme \<Rightarrow> bool" where
  "inPalMode cpu \<longleftrightarrow> pc cpu AND 1 \<noteq> 0"

definition kEv6PaMask :: u64 where
  "kEv6PaMask = push_bit 44 1 - 1"

section \<open>Address checks\<close>

definition isCanonicalVA :: "u64 \<Rightarrow> u64 \<Rightarrow> bool" where
  "isCanonicalVA va vactl =
     (let va48 = (vactl AND 0x2 \<noteq> 0);
          msb = (if va48 then 47 else 42 :: nat);
          high = drop_bit msb va;
          allOnes = (if msb = 0 then NOT 0 else drop_bit msb (NOT 0))
      in high = 0 \<or> high = allOnes)"

definition tryKsegTranslate ::
  "u64 \<Rightarrow> Mode_Privilege \<Rightarrow> u8 \<Rightarrow> u64 \<Rightarrow> TranslationResult \<times> u64" where
  "tryKsegTranslate va md spe pa_out =
     (let nonKernel = (md \<noteq> Kernel)
      in if spe AND 0x4 \<noteq> 0 \<and> drop_bit 46 va AND 0x3 = 0x2
         then (if nonKernel then (AccessViolation, pa_out)
               else (Success, va AND 0x00000FFFFFFFE000))
         else if spe AND 0x2 \<noteq> 0 \<and> drop_bit 41 va AND 0x7F = 0x7E
         then (if nonKernel then (AccessViolation, pa_out)
               else let base = va AND 0x000001FFFFFFE000
                    in if base AND push_bit 40 1 \<noteq> 0
                       then (Success, base OR 0x00000E0000000000)
                       else (Success, base))
         else if spe AND 0x1 \<noteq> 0 \<and> drop_bit 30 va AND 0x3FFFF = 0x3FFFE
         then (if nonKernel then (AccessViolation, pa_out)
               else (Success, va AND 0x000000003FFFE000))
         else (NotKseg, pa_out))"

definition isAlignedFor :: "u64 \<Rightarrow> u8 \<Rightarrow> bool" where
  "isAlignedFor va accessSize =
     (if accessSize \<le> 1 then True else va AND (ucast accessSize - 1) = 0)"

definition applyTlbHit ::
  "AlphaPte \<Rightarrow> u64 \<Rightarrow> AccessKind \<Rightarrow> Mode_Privilege \<Rightarrow> u64 \<Rightarrow> TranslationResult \<times> u64" where
  "applyTlbHit p va access md pa_out =
     (let pa = (push_bit 13 (pfn p) OR (va AND (push_bit 13 1 - 1))) AND kEv6PaMask
      in case access of
           DataRead \<Rightarrow> if bitFOR p then (FaultOnRead, pa_out)
                      else if \<not> canRead md p then (AccessViolation, pa_out) else (Success, pa)
         | DataWrite \<Rightarrow> if bitFOW p then (FaultOnWrite, pa_out)
                       else if \<not> canWrite md p then (AccessViolation, pa_out) else (Success, pa)
         | Execute \<Rightarrow> if bitFOE p then (FaultOnExecute, pa_out)
                     else if \<not> canExecute md p then (AccessViolation, pa_out) else (Success, pa))"

section \<open>The translator entry points\<close>

definition translateData ::
  "'a CpuState_scheme \<Rightarrow> u64 \<Rightarrow> AccessKind \<Rightarrow> u64 \<Rightarrow> TranslationResult \<times> u64" where
  "translateData cpu va access pa_out =
     (if \<not> isCanonicalVA va (va_ctl cpu) then (NonCanonical, pa_out)
      else let (kr, ksegPa) = tryKsegTranslate va (mode cpu) (m_spe cpu) 0
           in if kr = Success then (Success, ksegPa AND kEv6PaMask)
              else if kr = AccessViolation then (AccessViolation, pa_out)
              else case lookup (dtbMgr cpu) Dtb va (asn cpu) of
                     Some p \<Rightarrow> applyTlbHit p va access (mode cpu) pa_out
                   | None \<Rightarrow> (DtbMiss, pa_out))"

definition translateDataAligned ::
  "'a CpuState_scheme \<Rightarrow> u64 \<Rightarrow> u8 \<Rightarrow> AccessKind \<Rightarrow> u64 \<Rightarrow> TranslationResult \<times> u64" where
  "translateDataAligned cpu va accessSize access pa_out =
     (if \<not> isAlignedFor va accessSize \<and> unalignTrapEnabled cpu then (Unaligned, pa_out)
      else translateData cpu va access pa_out)"

definition translateInstruction :: "'a CpuState_scheme \<Rightarrow> u64 \<Rightarrow> u64 \<Rightarrow> TranslationResult \<times> u64" where
  "translateInstruction cpu va pa_out =
     (if \<not> isAlignedFor (va AND NOT 1) 4 then (Unaligned, pa_out)
      else if inPalMode cpu then (Success, (va AND NOT 1) AND kEv6PaMask)
      else if \<not> isCanonicalVA va (va_ctl cpu) then (NonCanonical, pa_out)
      else let (kr, ksegPa) = tryKsegTranslate va (mode cpu) (i_spe cpu) 0
           in if kr = Success then (Success, ksegPa AND kEv6PaMask)
              else if kr = AccessViolation then (AccessViolation, pa_out)
              else case lookup (itbMgr cpu) Itb va (asn cpu) of
                     Some p \<Rightarrow> applyTlbHit p va Execute (mode cpu) pa_out
                   | None \<Rightarrow> (ItbMiss, pa_out))"

section \<open>Filling and flushing from PALcode\<close>

datatype TbIpr =
    HW_ITB_TAG | HW_ITB_PTE | HW_ITB_IAP | HW_ITB_IA | HW_ITB_IS
  | HW_DTB_TAG0 | HW_DTB_TAG1 | HW_DTB_ASN0 | HW_DTB_ASN1 | HW_DTB_PTE0 | HW_DTB_PTE1
  | HW_DTB_IAP | HW_DTB_IA | HW_DTB_IS0 | HW_DTB_IS1

definition ghField :: "u64 \<Rightarrow> u8" where
  "ghField opB = ucast (drop_bit 5 opB AND 0x3)"

fun hwMtprTb :: "TbIpr \<Rightarrow> u64 \<Rightarrow> 'a CpuState_scheme \<Rightarrow> 'a CpuState_scheme" where
  "hwMtprTb HW_ITB_TAG opB cpu = cpu\<lparr>itbTag := opB\<rparr>"
| "hwMtprTb HW_ITB_PTE opB cpu =
     cpu\<lparr>itbPteTemp := opB,
         itbMgr := insert_entry (itbMgr cpu) Itb (itbTag cpu) (asn cpu)
                     (canonicalFromItbPte opB) (ghField opB)\<rparr>"
| "hwMtprTb HW_ITB_IAP opB cpu = cpu\<lparr>itbMgr := invalidateAllProcess (itbMgr cpu)\<rparr>"
| "hwMtprTb HW_ITB_IA opB cpu = cpu\<lparr>itbMgr := invalidateAll (itbMgr cpu)\<rparr>"
| "hwMtprTb HW_ITB_IS opB cpu =
     cpu\<lparr>itbMgr := fst (invalidateSingle (itbMgr cpu) Itb opB (asn cpu))\<rparr>"
| "hwMtprTb HW_DTB_TAG0 opB cpu = cpu\<lparr>dtbTag0 := opB\<rparr>"
| "hwMtprTb HW_DTB_TAG1 opB cpu = cpu\<lparr>dtbTag1 := opB\<rparr>"
| "hwMtprTb HW_DTB_ASN0 opB cpu = cpu\<lparr>dtbAsn0 := drop_bit 56 opB AND 0xFF\<rparr>"
| "hwMtprTb HW_DTB_ASN1 opB cpu = cpu\<lparr>dtbAsn1 := drop_bit 56 opB AND 0xFF\<rparr>"
| "hwMtprTb HW_DTB_PTE0 opB cpu =
     cpu\<lparr>dtbPteTemp := opB,
         dtbMgr := insert_entry (dtbMgr cpu) Dtb (dtbTag0 cpu) (dtbAsn0 cpu)
                     (canonicalFromDtbPte opB) (ghField opB)\<rparr>"
| "hwMtprTb HW_DTB_PTE1 opB cpu =
     cpu\<lparr>dtbPteTemp := opB,
         dtbMgr := insert_entry (dtbMgr cpu) Dtb (dtbTag1 cpu) (dtbAsn1 cpu)
                     (canonicalFromDtbPte opB) (ghField opB)\<rparr>"
| "hwMtprTb HW_DTB_IAP opB cpu = cpu\<lparr>dtbMgr := invalidateAllProcess (dtbMgr cpu)\<rparr>"
| "hwMtprTb HW_DTB_IA opB cpu = cpu\<lparr>dtbMgr := invalidateAll (dtbMgr cpu)\<rparr>"
| "hwMtprTb HW_DTB_IS0 opB cpu =
     cpu\<lparr>dtbMgr := fst (invalidateSingle (dtbMgr cpu) Dtb opB (dtbAsn0 cpu))\<rparr>"
| "hwMtprTb HW_DTB_IS1 opB cpu =
     cpu\<lparr>dtbMgr := fst (invalidateSingle (dtbMgr cpu) Dtb opB (dtbAsn1 cpu))\<rparr>"

section \<open>Lemmas\<close>

lemma kEv6PaMask_mask: "kEv6PaMask = mask 44"
  by (simp add: kEv6PaMask_def mask_eq_exp_minus_1)

lemma pageMask_mask: "push_bit 13 1 - 1 = (mask 13 :: u64)"
  by (simp add: mask_eq_exp_minus_1)

lemma isCanonicalVA_bits:
  "isCanonicalVA va vactl \<longleftrightarrow>
     (\<forall>n. (if bit vactl 1 then 47 else 42) \<le> n \<and> n < 64 \<longrightarrow> bit va n = bit va 63)"
proof -
  have ones: "drop_bit k va = drop_bit k (NOT 0) \<longleftrightarrow> (\<forall>n. k \<le> n \<and> n < 64 \<longrightarrow> bit va n)" for k
  proof
    assume *: "drop_bit k va = drop_bit k (NOT 0)"
    show "\<forall>n. k \<le> n \<and> n < 64 \<longrightarrow> bit va n"
    proof (intro allI impI)
      fix n assume n: "k \<le> n \<and> n < 64"
      have "bit (drop_bit k va) (n - k) = bit (drop_bit k (NOT 0 :: u64)) (n - k)" using * by simp
      with n show "bit va n" by (auto simp: bit_simps)
    qed
  next
    assume *: "\<forall>n. k \<le> n \<and> n < 64 \<longrightarrow> bit va n"
    show "drop_bit k va = drop_bit k (NOT 0)"
    proof (rule bit_word_eqI)
      fix n show "bit (drop_bit k va) n = bit (drop_bit k (NOT 0 :: u64)) n"
        using * bit_u64_out [of "k + n" va] by (cases "k + n < 64") (auto simp add: bit_simps)
    qed
  qed
  have zeros: "drop_bit k va = 0 \<longleftrightarrow> (\<forall>n. k \<le> n \<and> n < 64 \<longrightarrow> \<not> bit va n)" for k
  proof
    assume *: "drop_bit k va = 0"
    show "\<forall>n. k \<le> n \<and> n < 64 \<longrightarrow> \<not> bit va n"
    proof (intro allI impI)
      fix n assume n: "k \<le> n \<and> n < 64"
      have "\<not> bit (drop_bit k va) (n - k)" using * by simp
      with n show "\<not> bit va n" by (simp add: bit_simps)
    qed
  next
    assume *: "\<forall>n. k \<le> n \<and> n < 64 \<longrightarrow> \<not> bit va n"
    show "drop_bit k va = 0"
    proof (rule bit_word_eqI)
      fix n show "bit (drop_bit k va) n = bit (0 :: u64) n"
        using * bit_u64_out [of "k + n" va] by (cases "k + n < 64") (auto simp: bit_simps)
    qed
  qed
  define k where "k = (if bit vactl 1 then 47 else 42 :: nat)"
  have "vactl AND 2 \<noteq> 0 \<longleftrightarrow> bit vactl 1" using and_exp_neq_0_iff [of vactl 1] by simp
  moreover have k: "k \<noteq> 0" "k \<le> 63" by (simp_all add: k_def)
  ultimately have "isCanonicalVA va vactl \<longleftrightarrow> drop_bit k va = 0 \<or> drop_bit k va = drop_bit k (NOT 0)"
    unfolding isCanonicalVA_def Let_def k_def by simp
  also have "\<dots> \<longleftrightarrow> (\<forall>n. k \<le> n \<and> n < 64 \<longrightarrow> bit va n = bit va 63)"
    unfolding zeros ones using k by (auto dest: spec [of _ 63])
  finally show ?thesis unfolding k_def .
qed

definition ksegFrame :: "u64 \<Rightarrow> bool" where
  "ksegFrame q \<longleftrightarrow> q AND 0x1FFF = 0 \<and> q AND kEv6PaMask = q"

lemma ksegFrameI:
  "ksegFrame (va AND 0x00000FFFFFFFE000)" "ksegFrame (va AND 0x000001FFFFFFE000)"
  "ksegFrame (va AND 0x000000003FFFE000)"
  "ksegFrame (va AND 0x000001FFFFFFE000 OR 0x00000E0000000000)"
  by (simp_all add: ksegFrame_def kEv6PaMask_def and.assoc bit.conj_disj_distrib2)

lemma tryKseg_disj:
  "tryKsegTranslate va md spe pa = (NotKseg, pa) \<or>
   (tryKsegTranslate va md spe pa = (AccessViolation, pa) \<and> md \<noteq> Kernel) \<or>
   (\<exists>q. tryKsegTranslate va md spe pa = (Success, q) \<and> md = Kernel \<and> ksegFrame q)"
  using ksegFrameI [of va] by (simp add: tryKsegTranslate_def Let_def)

lemma tryKseg_cases:
  obtains "tryKsegTranslate va md spe pa = (NotKseg, pa)"
  | "tryKsegTranslate va md spe pa = (AccessViolation, pa)" "md \<noteq> Kernel"
  | q where "tryKsegTranslate va md spe pa = (Success, q)" "md = Kernel" "ksegFrame q"
  using tryKseg_disj by blast

lemma tryKseg_fst_pa: "fst (tryKsegTranslate va md spe pa) = fst (tryKsegTranslate va md spe pa')"
  by (simp add: tryKsegTranslate_def Let_def)

definition allowed :: "AccessKind \<Rightarrow> Mode_Privilege \<Rightarrow> AlphaPte \<Rightarrow> bool" where
  "allowed acc md p = (case acc of DataRead \<Rightarrow> canRead md p | DataWrite \<Rightarrow> canWrite md p
                                 | Execute \<Rightarrow> canExecute md p)"

definition composePa :: "u64 \<Rightarrow> u64 \<Rightarrow> u64" where
  "composePa frame va = (push_bit 13 frame OR (va AND mask 13)) AND mask 44"

lemma applyTlbHit_allowed:
  "allowed acc md p \<Longrightarrow> applyTlbHit p va acc md pa = (Success, composePa (pfn p) va)"
  unfolding applyTlbHit_def Let_def kEv6PaMask_mask pageMask_mask composePa_def allowed_def
  by (cases acc) (simp_all add: canRead_def canWrite_def canExecute_def split: if_splits)

lemma applyTlbHit_denied:
  "\<not> allowed acc md p \<Longrightarrow>
   fst (applyTlbHit p va acc md pa) \<in> {FaultOnRead, FaultOnWrite, FaultOnExecute, AccessViolation} \<and>
   snd (applyTlbHit p va acc md pa) = pa"
  unfolding applyTlbHit_def Let_def allowed_def by (cases acc) simp_all

lemma ghField_le: "ghField opB \<le> 3"
proof -
  have "unat (ghField opB) \<le> 3"
    using unat_and_le [of "drop_bit 5 opB" 3] by (simp add: ghField_def unsigned_ucast_eq) (metis dual_order.trans take_bit_nat_less_eq_self)
  then show ?thesis by (simp add: word_le_nat_alt)
qed

lemma asn_field: "a < 256 \<Longrightarrow> drop_bit 56 (push_bit 56 a) AND 0xFF = (a :: u64)"
proof (rule bit_word_eqI)
  fix n assume "a < 256"
  then have "unat a < 2 ^ 8" by (simp add: word_less_nat_alt)
  then have "take_bit 8 (unat a) = unat a" by (simp add: take_bit_nat_eq_self_iff)
  then have "bit a n \<Longrightarrow> n < 8" by (metis bit_take_bit_iff bit_unat)
  then show "bit (drop_bit 56 (push_bit 56 a) AND 0xFF) n = bit a n" by (auto simp: bit_simps)
qed

lemma translateData_miss:
  assumes "fst (translateData cpu va acc pa) = DtbMiss"
  shows "isCanonicalVA va (va_ctl cpu)" "tryKsegTranslate va (mode cpu) (m_spe cpu) 0 = (NotKseg, 0)"
    "lookup (dtbMgr cpu) Dtb va (asn cpu) = None"
proof -
  show c: "isCanonicalVA va (va_ctl cpu)" using assms by (auto simp: translateData_def split: if_splits)
  show k: "tryKsegTranslate va (mode cpu) (m_spe cpu) 0 = (NotKseg, 0)"
    using assms c by (cases rule: tryKseg_cases [of va "mode cpu" "m_spe cpu" 0]) (auto simp: translateData_def)
  show "lookup (dtbMgr cpu) Dtb va (asn cpu) = None"
  proof (rule ccontr)
    assume "lookup (dtbMgr cpu) Dtb va (asn cpu) \<noteq> None"
    then obtain p where "translateData cpu va acc pa = applyTlbHit p va acc (mode cpu) pa"
      using c k by (auto simp: translateData_def)
    with assms show False
      using applyTlbHit_allowed [of acc "mode cpu" p va pa] applyTlbHit_denied [of acc "mode cpu" p va pa]
      by (cases "allowed acc (mode cpu) p") auto
  qed
qed


lemma translateInstruction_miss:
  assumes "fst (translateInstruction cpu va pa) = ItbMiss"
  shows "isAlignedFor (va AND NOT 1) 4" "\<not> inPalMode cpu" "isCanonicalVA va (va_ctl cpu)"
    "tryKsegTranslate va (mode cpu) (i_spe cpu) 0 = (NotKseg, 0)"
    "lookup (itbMgr cpu) Itb va (asn cpu) = None"
proof -
  show a: "isAlignedFor (va AND NOT 1) 4" and p: "\<not> inPalMode cpu" and c: "isCanonicalVA va (va_ctl cpu)"
    using assms by (auto simp: translateInstruction_def split: if_splits)
  show k: "tryKsegTranslate va (mode cpu) (i_spe cpu) 0 = (NotKseg, 0)"
    using assms a p c
    by (cases rule: tryKseg_cases [of va "mode cpu" "i_spe cpu" 0]) (auto simp: translateInstruction_def)
  show "lookup (itbMgr cpu) Itb va (asn cpu) = None"
  proof (rule ccontr)
    assume "lookup (itbMgr cpu) Itb va (asn cpu) \<noteq> None"
    then obtain q where "translateInstruction cpu va pa = applyTlbHit q va Execute (mode cpu) pa"
      using a p c k by (auto simp: translateInstruction_def)
    with assms show False
      using applyTlbHit_allowed [of Execute "mode cpu" q va pa] applyTlbHit_denied [of Execute "mode cpu" q va pa]
      by (cases "allowed Execute (mode cpu) q") auto
  qed
qed

lemma composePa_fields:
  "composePa frame va AND mask 13 = va AND mask 13" "composePa frame va AND kEv6PaMask = composePa frame va"
  unfolding composePa_def kEv6PaMask_mask by (auto intro!: bit_word_eqI simp: bit_simps)

lemma data_outcomes:
  obtains "\<not> isCanonicalVA va (va_ctl cpu)" "translateData cpu va acc pa = (NonCanonical, pa)"
  | "isCanonicalVA va (va_ctl cpu)"
    "fst (translateData cpu va acc pa) \<in>
       {AccessViolation, DtbMiss, FaultOnRead, FaultOnWrite, FaultOnExecute}"
    "snd (translateData cpu va acc pa) = pa"
  | q where "isCanonicalVA va (va_ctl cpu)" "translateData cpu va acc pa = (Success, q)"
    "mode cpu = Kernel" "ksegFrame q" "tryKsegTranslate va (mode cpu) (m_spe cpu) 0 = (Success, q)"
  | p where "isCanonicalVA va (va_ctl cpu)"
    "translateData cpu va acc pa = (Success, composePa (pfn p) va)"
    "lookup (dtbMgr cpu) Dtb va (asn cpu) = Some p" "allowed acc (mode cpu) p"
proof (cases "isCanonicalVA va (va_ctl cpu)")
  case False then show ?thesis using that(1) by (simp add: translateData_def)
next
  case c: True
  show ?thesis
  proof (cases rule: tryKseg_cases [of va "mode cpu" "m_spe cpu" 0])
    case 1
    show ?thesis
    proof (cases "lookup (dtbMgr cpu) Dtb va (asn cpu)")
      case None then show ?thesis using that(2) c 1 by (simp add: translateData_def)
    next
      case (Some p)
      then have t: "translateData cpu va acc pa = applyTlbHit p va acc (mode cpu) pa"
        using c 1 by (simp add: translateData_def)
      show ?thesis
      proof (cases "allowed acc (mode cpu) p")
        case True then show ?thesis using that(4) c t Some applyTlbHit_allowed by simp
      next
        case False then show ?thesis using that(2) c t applyTlbHit_denied [OF False, of va pa] by auto
      qed
    qed
  next
    case 2 then show ?thesis using that(2) c by (simp add: translateData_def)
  next
    case (3 q) then show ?thesis using that(3) c by (simp add: translateData_def ksegFrame_def)
  qed
qed

text \<open>A processor with empty buffers, for the concrete runs below.\<close>

definition bootCpu :: CpuState where
  "bootCpu = \<lparr>pc = 0x10000, mode = User, asn = 3, va_ctl = 0, i_spe = 0, m_spe = 0,
     unalignTrapEnabled = False, itbMgr = newManager (2 ^ 4) 8, dtbMgr = newManager (2 ^ 4) 8,
     itbTag = 0, dtbTag0 = 0, dtbTag1 = 0, dtbAsn0 = 0, dtbAsn1 = 0, itbPteTemp = 0, dtbPteTemp = 0\<rparr>"

lemma bootCpu_inv: "mgr_inv Dtb (dtbMgr bootCpu)" "mgr_inv Itb (itbMgr bootCpu)"
  using newManager_inv [of 4 8] by (simp_all add: bootCpu_def)

section \<open>Properties\<close>

text \<open>
  C10. The DTB-miss protocol succeeds.  When a data access misses, PALcode that writes the
  faulting address to DTB\_TAG0, the current address space to DTB\_ASN0 and a register value
  that allows the access to DTB\_PTE0 makes the retried access succeed, at the physical
  address of the register's frame with the offset of the virtual address.
\<close>

theorem dtb_fill_then_retry:
  assumes "mgr_inv Dtb (dtbMgr cpu)" "asn cpu < 256"
    and "fst (translateData cpu va access pa) = DtbMiss"
    and "allowed access (mode cpu) (canonicalFromDtbPte reg)"
  shows "translateData
     (hwMtprTb HW_DTB_PTE0 reg (hwMtprTb HW_DTB_ASN0 (push_bit 56 (asn cpu)) (hwMtprTb HW_DTB_TAG0 va cpu)))
     va access pa = (Success, composePa (drop_bit 32 reg) va)"
proof -
  note miss = translateData_miss [OF assms(3)]
  have "lookup (insert_entry (dtbMgr cpu) Dtb va (asn cpu) (canonicalFromDtbPte reg) (ghField reg)) Dtb va (asn cpu)
     = Some (canonicalFromDtbPte reg)"
    by (rule dtb.fill_hit [OF assms(1) miss(3) ghField_le])
  then show ?thesis
    using miss applyTlbHit_allowed [OF assms(4)]
    by (simp add: translateData_def asn_field [OF assms(2)] pfn_canonicalFromDtbPte)
qed

theorem dtb_fill_then_retry_witness:
  "translateData
     (hwMtprTb HW_DTB_PTE0 0x0000000900000800 (hwMtprTb HW_DTB_ASN0 (push_bit 56 (asn bootCpu))
        (hwMtprTb HW_DTB_TAG0 0x12345 bootCpu)))
     0x12345 DataRead 0 = (Success, composePa (drop_bit 32 0x0000000900000800) 0x12345)"
proof (rule dtb_fill_then_retry [OF bootCpu_inv(1)])
  show "asn bootCpu < 256" by (simp add: bootCpu_def)
  show "fst (translateData bootCpu 0x12345 DataRead 0) = DtbMiss" by code_simp
  show "allowed DataRead (mode bootCpu) (canonicalFromDtbPte 0x0000000900000800)" by code_simp
qed

text \<open>
  The ITB-miss protocol succeeds: after an instruction fetch misses, writing ITB\_TAG
  and an ITB\_PTE value whose read enable covers the current mode makes the retried fetch
  succeed at the frame of the register.
\<close>

theorem itb_fill_then_retry:
  assumes "mgr_inv Itb (itbMgr cpu)"
    and "fst (translateInstruction cpu va pa) = ItbMiss"
    and "allowed Execute (mode cpu) (canonicalFromItbPte reg)"
  shows "translateInstruction (hwMtprTb HW_ITB_PTE reg (hwMtprTb HW_ITB_TAG va cpu)) va pa =
     (Success, composePa (drop_bit 13 reg AND mask 32) va)"
proof -
  note miss = translateInstruction_miss [OF assms(2)]
  have "lookup (insert_entry (itbMgr cpu) Itb va (asn cpu) (canonicalFromItbPte reg) (ghField reg))
      Itb va (asn cpu) = Some (canonicalFromItbPte reg)"
    by (rule itb.fill_hit [OF assms(1) miss(5) ghField_le])
  then show ?thesis
    using miss applyTlbHit_allowed [OF assms(3)]
    by (simp add: translateInstruction_def inPalMode_def pfn_canonicalFromItbPte)
qed

theorem itb_fill_then_retry_witness:
  "translateInstruction (hwMtprTb HW_ITB_PTE 0x12800 (hwMtprTb HW_ITB_TAG 0x20000 bootCpu)) 0x20000 0 =
     (Success, composePa (drop_bit 13 0x12800 AND mask 32) 0x20000)"
proof (rule itb_fill_then_retry [OF bootCpu_inv(2)])
  show "fst (translateInstruction bootCpu 0x20000 0) = ItbMiss" by code_simp
  show "allowed Execute (mode bootCpu) (canonicalFromItbPte 0x12800)" by code_simp
qed

text \<open>
  C8. A successful data translation is authorised: it is either a kseg access in kernel
  mode, or there is a live mapping of the data buffer that covers the address, belongs to
  the current address space or to all of them, and allows the access in the current mode;
  the physical address then keeps the page offset and lies within 44 bits.
\<close>

theorem data_translation_authorised:
  assumes "mgr_inv Dtb (dtbMgr cpu)" "translateData cpu va access pa = (Success, q)"
  shows "q AND kEv6PaMask = q \<and>
    ((mode cpu = Kernel \<and> tryKsegTranslate va Kernel (m_spe cpu) 0 = (Success, q)) \<or>
     (\<exists>t p. (t, p) \<in> mappings (dtbMgr cpu) \<and> covers t va \<and> (bitASM p \<or> tag_asn t = asn cpu) \<and>
        allowed access (mode cpu) p \<and> q = composePa (pfn p) va \<and> q AND mask 13 = va AND mask 13))"
proof (cases rule: data_outcomes [of va cpu access pa])
  case 1 then show ?thesis using assms(2) by auto
next
  case 2 then show ?thesis using assms(2) by auto
next
  case (3 q') then show ?thesis using assms(2) by (simp add: ksegFrame_def)
next
  case (4 p)
  obtain e where e: "e \<in> live (dtbMgr cpu)" "matches e (vaToVpn va) (asn cpu)" "ent_pte e = p"
    using lookup_sound [OF assms(1) 4(3)] by blast
  then have "asmGlobal e = bitASM p"
    using mgr_inv_slot [OF assms(1)] by (auto simp: live_def slot_ok_def)
  then have "covers (ent_tag e) va \<and> (bitASM p \<or> tag_asn (ent_tag e) = asn cpu)"
    using e by (auto simp: covers_def matches_def split: if_splits)
  moreover have "(ent_tag e, p) \<in> mappings (dtbMgr cpu)" using e by (force simp: mappings_def)
  ultimately show ?thesis using 4 assms(2) composePa_fields [of "pfn p" va] by auto
qed

theorem data_translation_authorised_witness:
  "\<exists>(cpu :: CpuState) q. translateData cpu 0x12345 DataRead 0 = (Success, q) \<and> q AND kEv6PaMask = q"
proof -
  let ?cpu = "hwMtprTb HW_DTB_PTE0 0x0000000900000800 (hwMtprTb HW_DTB_ASN0 (push_bit 56 3)
        (hwMtprTb HW_DTB_TAG0 0x12345 bootCpu))"
  have i: "mgr_inv Dtb (dtbMgr ?cpu)"
    using insert_inv [OF bootCpu_inv(1) ghField_le] by (simp add: bootCpu_def)
  have s: "translateData ?cpu 0x12345 DataRead 0 = (Success, 0x12345)" by code_simp
  show ?thesis using s data_translation_authorised [OF i s] by blast
qed

text \<open>
  Outcomes of a data translation: the internal code for a non-kseg address and the
  codes of other paths never surface, a fault leaves the output address alone, the fault
  code handed to the trap logic is zero exactly on success, and an access outside kernel
  mode never uses a kseg mapping.
\<close>

theorem data_translation_outcomes:
  "fst (translateData cpu va access pa) \<notin> {NotKseg, ItbMiss, BusError, Unaligned} \<and>
   (fst (translateData cpu va access pa) \<noteq> Success \<longrightarrow> snd (translateData cpu va access pa) = pa) \<and>
   (toFaultCode (fst (translateData cpu va access pa)) = 0 \<longleftrightarrow>
      fst (translateData cpu va access pa) = Success) \<and>
   (fst (translateData cpu va access pa) = NonCanonical \<longleftrightarrow> \<not> isCanonicalVA va (va_ctl cpu)) \<and>
   (fst (translateData cpu va access pa) = Success \<longrightarrow> mode cpu \<noteq> Kernel \<longrightarrow>
      lookup (dtbMgr cpu) Dtb va (asn cpu) \<noteq> None)"
  by (cases rule: data_outcomes [of va cpu access pa]) auto

theorem data_translation_outcomes_witness:
  "fst (translateData bootCpu 0x12345 DataRead 7) = DtbMiss \<and>
   snd (translateData bootCpu 0x12345 DataRead 7) = 7"
proof -
  have "fst (translateData bootCpu 0x12345 DataRead 7) = DtbMiss" by code_simp
  then show ?thesis using data_translation_outcomes [of bootCpu "0x12345" DataRead 7] by simp
qed

text \<open>
  The canonical-address check accepts exactly the addresses whose bits from the sign
  bit of the selected format (bit 47 when VA\_CTL selects 48-bit addresses, else bit 42) up
  to bit 63 are all equal.
\<close>

theorem canonical_va_sign_extended:
  "isCanonicalVA va vactl \<longleftrightarrow>
     (\<forall>n. (if bit vactl 1 then 47 else 42) \<le> n \<and> n < 64 \<longrightarrow> bit va n = bit va 63)"
  by (rule isCanonicalVA_bits)

theorem canonical_va_sign_extended_witness:
  "isCanonicalVA 0xFFFFFC0000000000 0 \<and> bit (0xFFFFFC0000000000 :: u64) 50 \<and>
   \<not> isCanonicalVA 0x0000040000000000 0"
proof -
  have c: "isCanonicalVA 0xFFFFFC0000000000 0" "\<not> isCanonicalVA 0x0000040000000000 0" by code_simp+
  then have "bit (0xFFFFFC0000000000 :: u64) 50 = bit (0xFFFFFC0000000000 :: u64) 63"
    using canonical_va_sign_extended [of "0xFFFFFC0000000000" 0] by simp
  then show ?thesis using c by simp
qed

text \<open>
  A kseg translation returns the frame only: the page offset of the virtual address is lost.
\<close>

theorem kseg_drops_page_offset:
  "fst (tryKsegTranslate va md spe pa) = Success \<Longrightarrow> snd (tryKsegTranslate va md spe pa) AND 0x1FFF = 0"
  by (cases rule: tryKseg_cases [of va md spe pa]) (auto simp: ksegFrame_def)

end
