(* ===== verification/ByteOps.thy ===== *)
theory ByteOps
  imports Prelude
begin

text \<open>
  The Alpha byte-manipulation helpers of coreLib/alpha\_int\_byteops.h: sign extension,
  ZAP and ZAPNOT, the EXT, INS and MSK families, little-endian packing and the two-quadword
  merge of an unaligned store.  A value is a 64-bit word; the offset operand is masked to
  its low three bits by each helper, as in the source.
\<close>

section \<open>The helpers\<close>

definition sext16To64 :: "u16 \<Rightarrow> u64" where
  "sext16To64 v = scast v"

definition signExtend :: "nat \<Rightarrow> u64 \<Rightarrow> u64" where
  "signExtend bits value = signed_drop_bit (64 - bits) (push_bit (64 - bits) value)"

definition alignDown :: "u64 \<Rightarrow> u64 \<Rightarrow> u64" where
  "alignDown v align = v AND NOT (align - 1)"

definition zap :: "u64 \<Rightarrow> u64 \<Rightarrow> u64" where
  "zap value zmask =
     fold (\<lambda>i result. if zmask AND push_bit i 1 \<noteq> 0
                       then result AND NOT (push_bit (i * 8) 0xFF) else result)
       [0..<8] value"

definition zapnot :: "u64 \<Rightarrow> u64 \<Rightarrow> u64" where
  "zapnot value zmask =
     fold (\<lambda>i result. if zmask AND push_bit i 1 \<noteq> 0
                       then result OR (value AND push_bit (i * 8) 0xFF) else result)
       [0..<8] 0"

definition bytePos :: "u64 \<Rightarrow> nat" where
  "bytePos offset = unat (offset AND 7)"

definition mskbl :: "u64 \<Rightarrow> u64 \<Rightarrow> u64" where
  "mskbl value offset = value AND NOT (push_bit (bytePos offset * 8) 0xFF)"

definition mskwl :: "u64 \<Rightarrow> u64 \<Rightarrow> u64" where
  "mskwl value offset = value AND NOT (push_bit (bytePos offset * 8) 0xFFFF)"

definition mskll :: "u64 \<Rightarrow> u64 \<Rightarrow> u64" where
  "mskll value offset = value AND NOT (push_bit (bytePos offset * 8) 0xFFFFFFFF)"

definition mskql :: "u64 \<Rightarrow> u64 \<Rightarrow> u64" where
  "mskql value offset =
     (if bytePos offset = 0 then 0
      else value AND (push_bit (bytePos offset * 8) 1 - 1))"

definition mskwh :: "u64 \<Rightarrow> u64 \<Rightarrow> u64" where
  "mskwh value offset =
     (let spillBytes = int (bytePos offset) + 2 - 8
      in if spillBytes \<le> 0 then value
         else value AND NOT (push_bit (nat spillBytes * 8) 1 - 1))"

definition msklh :: "u64 \<Rightarrow> u64 \<Rightarrow> u64" where
  "msklh value offset =
     (let spillBytes = int (bytePos offset) + 4 - 8
      in if spillBytes \<le> 0 then value
         else value AND NOT (push_bit (nat spillBytes * 8) 1 - 1))"

definition mskqh :: "u64 \<Rightarrow> u64 \<Rightarrow> u64" where
  "mskqh value offset =
     (let spillBytes = bytePos offset
      in if spillBytes = 0 then value
         else value AND NOT (push_bit (spillBytes * 8) 1 - 1))"

definition extbl :: "u64 \<Rightarrow> u64 \<Rightarrow> u64" where
  "extbl value offset = drop_bit (bytePos offset * 8) value AND 0xFF"

definition extwl :: "u64 \<Rightarrow> u64 \<Rightarrow> u64" where
  "extwl value offset = drop_bit (bytePos offset * 8) value AND 0xFFFF"

definition extll :: "u64 \<Rightarrow> u64 \<Rightarrow> u64" where
  "extll value offset = drop_bit (bytePos offset * 8) value AND 0xFFFFFFFF"

definition extql :: "u64 \<Rightarrow> u64 \<Rightarrow> u64" where
  "extql value offset = drop_bit (bytePos offset * 8) value"

definition extwh :: "u64 \<Rightarrow> u64 \<Rightarrow> u64" where
  "extwh value offset =
     (if bytePos offset = 0 then 0
      else let shift = (8 - bytePos offset) * 8
           in if shift \<ge> 64 then 0 else push_bit shift value AND 0xFFFF)"

definition extlh :: "u64 \<Rightarrow> u64 \<Rightarrow> u64" where
  "extlh value offset =
     (if bytePos offset = 0 then 0
      else let shift = (8 - bytePos offset) * 8
           in if shift \<ge> 64 then 0 else push_bit shift value AND 0xFFFFFFFF)"

definition extqh :: "u64 \<Rightarrow> u64 \<Rightarrow> u64" where
  "extqh value offset =
     (if bytePos offset = 0 then 0
      else let shift = (8 - bytePos offset) * 8
           in if shift \<ge> 64 then 0 else push_bit shift value)"

definition insbl :: "u64 \<Rightarrow> u64 \<Rightarrow> u64" where
  "insbl value offset = push_bit (bytePos offset * 8) (value AND 0xFF)"

definition inswl :: "u64 \<Rightarrow> u64 \<Rightarrow> u64" where
  "inswl value offset = push_bit (bytePos offset * 8) (value AND 0xFFFF)"

definition insll :: "u64 \<Rightarrow> u64 \<Rightarrow> u64" where
  "insll value offset = push_bit (bytePos offset * 8) (value AND 0xFFFFFFFF)"

definition insql :: "u64 \<Rightarrow> u64 \<Rightarrow> u64" where
  "insql value offset = push_bit (bytePos offset * 8) value"

definition inswh :: "u64 \<Rightarrow> u64 \<Rightarrow> u64" where
  "inswh value offset =
     (if bytePos offset = 0 then 0
      else let shift = (8 - bytePos offset) * 8
           in if shift \<ge> 64 then 0 else drop_bit shift (value AND 0xFFFF))"

definition inslh :: "u64 \<Rightarrow> u64 \<Rightarrow> u64" where
  "inslh value offset =
     (if bytePos offset = 0 then 0
      else let shift = (8 - bytePos offset) * 8
           in if shift \<ge> 64 then 0 else drop_bit shift (value AND 0xFFFFFFFF))"

definition insqh :: "u64 \<Rightarrow> u64 \<Rightarrow> u64" where
  "insqh value offset =
     (if bytePos offset = 0 then 0
      else let shift = (8 - bytePos offset) * 8
           in if shift \<ge> 64 then 0 else drop_bit shift value)"

definition unpackLE64 :: "u64 \<Rightarrow> u8 list" where
  "unpackLE64 value =
     [ucast (drop_bit 0 value), ucast (drop_bit 8 value),
      ucast (drop_bit 16 value), ucast (drop_bit 24 value),
      ucast (drop_bit 32 value), ucast (drop_bit 40 value),
      ucast (drop_bit 48 value), ucast (drop_bit 56 value)]"

text \<open>The source reads eight bytes whatever the buffer holds; a shorter buffer, a read out of bounds there, is None.\<close>

definition packLE64 :: "u8 list \<Rightarrow> u64 option" where
  "packLE64 bs =
     (if length bs < 8 then None
      else Some (push_bit 0 (ucast (bs ! 0)) OR push_bit 8 (ucast (bs ! 1))
              OR push_bit 16 (ucast (bs ! 2)) OR push_bit 24 (ucast (bs ! 3))
              OR push_bit 32 (ucast (bs ! 4)) OR push_bit 40 (ucast (bs ! 5))
              OR push_bit 48 (ucast (bs ! 6)) OR push_bit 56 (ucast (bs ! 7))))"

definition stqUMergeLane :: "u64 \<Rightarrow> u64 \<Rightarrow> u64 \<Rightarrow> u8 \<Rightarrow> u64 \<times> u64 \<times> bool" where
  "stqUMergeLane q0In q1In src byteOffset =
     (let k = unat (byteOffset AND 7)
      in if k = 0 then (src, q1In, False)
         else let sh = k * 8;
                  lowMask = push_bit sh 1 - 1;
                  q0Out = (q0In AND lowMask) OR push_bit sh src;
                  shiftRight = (8 - k) * 8;
                  insertLow = drop_bit shiftRight src AND lowMask
              in (q0Out, (q1In AND NOT lowMask) OR insertLow, True))"

lemmas byte_op_defs [byte_defs] =
  mskbl_def mskwl_def mskll_def mskql_def mskwh_def msklh_def mskqh_def
  extbl_def extwl_def extll_def extql_def extwh_def extlh_def extqh_def
  insbl_def inswl_def insll_def insql_def inswh_def inslh_def insqh_def

section \<open>Each helper, bit by bit\<close>

lemma bytePos_less [simp]: "bytePos offset < 8"
  using unat_and_le [of offset 7] by (simp add: bytePos_def)

lemma bytePos_bound: "bytePos k * 8 \<le> 56"
  using bytePos_less [of k] by linarith

lemma high_shift [simp]: "(8 - p) * 8 = 64 - p * (8 :: nat)"
  by simp

lemmas byte_bit_simps = bit_simps Let_def nat_diff_distrib diff_mult_distrib

lemma bit_mskbl [bit_simps]:
  "bit (mskbl v k) n \<longleftrightarrow> bit v n \<and> \<not> (bytePos k * 8 \<le> n \<and> n < bytePos k * 8 + 8)"
  using bytePos_bound [of k]
  by (auto simp: mskbl_def byte_bit_simps dest: bit_imp_le_length)

lemma bit_mskwl [bit_simps]:
  "bit (mskwl v k) n \<longleftrightarrow> bit v n \<and> \<not> (bytePos k * 8 \<le> n \<and> n < bytePos k * 8 + 16)"
  using bytePos_bound [of k]
  by (auto simp: mskwl_def byte_bit_simps dest: bit_imp_le_length)

lemma bit_mskll [bit_simps]:
  "bit (mskll v k) n \<longleftrightarrow> bit v n \<and> \<not> (bytePos k * 8 \<le> n \<and> n < bytePos k * 8 + 32)"
  using bytePos_bound [of k]
  by (auto simp: mskll_def byte_bit_simps dest: bit_imp_le_length)

lemma bit_mskql [bit_simps]: "bit (mskql v k) n \<longleftrightarrow> n < bytePos k * 8 \<and> bit v n"
   by (auto simp: mskql_def byte_bit_simps simp flip: mask_eq_exp_minus_1 dest: bit_imp_le_length)

lemma bit_mskqh [bit_simps]: "bit (mskqh v k) n \<longleftrightarrow> bytePos k * 8 \<le> n \<and> bit v n"
   by (auto simp: mskqh_def byte_bit_simps simp flip: mask_eq_exp_minus_1 dest: bit_imp_le_length)

lemma bit_mskwh [bit_simps]: "bit (mskwh v k) n \<longleftrightarrow> bytePos k * 8 + 16 \<le> n + 64 \<and> bit v n"
   using bytePos_less[of k] by (auto simp: mskwh_def byte_bit_simps simp flip: mask_eq_exp_minus_1 dest: bit_imp_le_length)

lemma bit_msklh [bit_simps]: "bit (msklh v k) n \<longleftrightarrow> bytePos k * 8 + 32 \<le> n + 64 \<and> bit v n"
   using bytePos_less[of k] by (auto simp: msklh_def byte_bit_simps simp flip: mask_eq_exp_minus_1 dest: bit_imp_le_length)

lemma bit_extbl [bit_simps]: "bit (extbl v k) n \<longleftrightarrow> n < 8 \<and> bit v (bytePos k * 8 + n)"
  by (auto simp: extbl_def byte_bit_simps)

lemma bit_extwl [bit_simps]: "bit (extwl v k) n \<longleftrightarrow> n < 16 \<and> bit v (bytePos k * 8 + n)"
  by (auto simp: extwl_def byte_bit_simps)

lemma bit_extll [bit_simps]: "bit (extll v k) n \<longleftrightarrow> n < 32 \<and> bit v (bytePos k * 8 + n)"
  by (auto simp: extll_def byte_bit_simps)

lemma bit_extql [bit_simps]: "bit (extql v k) n \<longleftrightarrow> bit v (bytePos k * 8 + n)"
  by (auto simp: extql_def byte_bit_simps)

lemma bit_extwh [bit_simps]:
  "bit (extwh v k) n \<longleftrightarrow> n < 16 \<and> 0 < bytePos k \<and> 64 - bytePos k * 8 \<le> n \<and> bit v (n - (64 - bytePos k * 8))"
  using bytePos_bound [of k] by (auto simp: extwh_def byte_bit_simps)

lemma bit_extlh [bit_simps]:
  "bit (extlh v k) n \<longleftrightarrow> n < 32 \<and> 0 < bytePos k \<and> 64 - bytePos k * 8 \<le> n \<and> bit v (n - (64 - bytePos k * 8))"
  using bytePos_bound [of k] by (auto simp: extlh_def byte_bit_simps)

lemma bit_extqh [bit_simps]:
  "bit (extqh v k) n \<longleftrightarrow> n < 64 \<and> 0 < bytePos k \<and> 64 - bytePos k * 8 \<le> n \<and> bit v (n - (64 - bytePos k * 8))"
  using bytePos_bound [of k] by (auto simp: extqh_def byte_bit_simps)

lemma bit_insbl [bit_simps]:
  "bit (insbl v k) n \<longleftrightarrow> bytePos k * 8 \<le> n \<and> n < bytePos k * 8 + 8 \<and> bit v (n - bytePos k * 8)"
  using bytePos_bound [of k] by (auto simp: insbl_def byte_bit_simps)

lemma bit_inswl [bit_simps]:
  "bit (inswl v k) n \<longleftrightarrow> n < 64 \<and> bytePos k * 8 \<le> n \<and> n < bytePos k * 8 + 16 \<and> bit v (n - bytePos k * 8)"
  using bytePos_bound [of k] by (auto simp: inswl_def byte_bit_simps)

lemma bit_insll [bit_simps]:
  "bit (insll v k) n \<longleftrightarrow> n < 64 \<and> bytePos k * 8 \<le> n \<and> n < bytePos k * 8 + 32 \<and> bit v (n - bytePos k * 8)"
  using bytePos_bound [of k] by (auto simp: insll_def byte_bit_simps)

lemma bit_insql [bit_simps]:
  "bit (insql v k) n \<longleftrightarrow> n < 64 \<and> bytePos k * 8 \<le> n \<and> bit v (n - bytePos k * 8)"
  using bytePos_bound [of k] by (auto simp: insql_def byte_bit_simps)

lemma bit_inswh [bit_simps]:
  "bit (inswh v k) n \<longleftrightarrow> 0 < bytePos k \<and> 64 - bytePos k * 8 + n < 16 \<and> bit v (64 - bytePos k * 8 + n)"
  using bytePos_bound [of k] by (auto simp: inswh_def byte_bit_simps)

lemma bit_inslh [bit_simps]:
  "bit (inslh v k) n \<longleftrightarrow> 0 < bytePos k \<and> 64 - bytePos k * 8 + n < 32 \<and> bit v (64 - bytePos k * 8 + n)"
  using bytePos_bound [of k] by (auto simp: inslh_def byte_bit_simps)

lemma bit_insqh [bit_simps]:
  "bit (insqh v k) n \<longleftrightarrow> 0 < bytePos k \<and> bit v (64 - bytePos k * 8 + n)"
  using bytePos_bound [of k] by (auto simp: insqh_def byte_bit_simps)


section \<open>ZAP, ZAPNOT and sign extension\<close>

lemma zap_step:
   "bit (fold (\<lambda>i result. if bit m i
                       then result AND NOT (push_bit (i * 8) 0xFF) else result)
       xs v) n \<longleftrightarrow> bit (v::u64) n \<and> \<not> (bit (m::u64) (n div 8) \<and> n div 8 \<in> set xs)"
proof (induction xs arbitrary: v)
  case (Cons x xs)
  have "(x * 8 \<le> n \<and> n < x * 8 + 8) = (n div 8 = x)" by auto
  then show ?case using Cons 
   by (auto simp: bit_simps dest: bit_imp_le_length)
qed simp

lemma bit_byte_lane:
  "bit (push_bit (x * 8) 0xFF :: u64) n \<longleftrightarrow> n < 64 \<and> n div 8 = x"
  by (auto simp: bit_simps)

lemma zapnot_step:
   "bit (fold (\<lambda>i result. if bit m i
                       then result OR (value AND (push_bit (i * 8) 0xFF)) else result)
       xs v) n \<longleftrightarrow> bit (v::u64) n \<or> (bit value n \<and> bit (m::u64) (n div 8) \<and> n div 8 \<in> set xs)"
proof (induction xs arbitrary: v)
  case (Cons x xs)
  then show ?case using bit_imp_le_length [of "value" n]
    by (cases "n div 8 = x") (auto simp: bit_or_iff bit_and_iff bit_byte_lane)
qed simp

lemma bit_zap [bit_simps]:
   "bit (zap v m) n \<longleftrightarrow> bit v n \<and> \<not> bit m (n div 8)"
   using bit_imp_le_length [of v n] by (auto simp add: zap_def zap_step) 

lemma bit_zapnot [bit_simps]:
   "bit (zapnot v m) n \<longleftrightarrow> bit v n \<and> bit m (n div 8)"
   using bit_imp_le_length [of v n] by (auto simp add: zapnot_def zapnot_step) 

lemma bit_signExtend:
  "0 < bits \<Longrightarrow> bits \<le> 64 \<Longrightarrow> n < 64 \<Longrightarrow>
     bit (signExtend bits v) n \<longleftrightarrow> bit v (min n (bits - 1))"
  by (auto simp: signExtend_def bit_simps min_def)

lemma signExtend_sint:
  "0 < bits \<Longrightarrow> bits \<le> 64 \<Longrightarrow> sint (signExtend bits v) = signed_take_bit (bits - 1) (uint v)"
proof (rule bit_eqI)
  fix n assume *: "0 < bits" "bits \<le> 64"
  then have "min (min n 63) (bits - 1) = min n (bits - 1)" by auto
  with * show "bit (sint (signExtend bits v)) n = bit (signed_take_bit (bits - 1) (uint v)) n"
    by (simp add: bit_simps bit_signExtend min.commute)
qed

lemma sext16To64_sint: "sint (sext16To64 v) = sint v"
proof (rule bit_eqI)
  fix n :: nat
  have "min 15 (min 63 n) = min 15 n" by auto
  then show "bit (sint (sext16To64 v)) n = bit (sint v) n"
    by (simp add: sext16To64_def bit_simps min_less_iff_disj)
qed


section \<open>Unaligned access: one contract, three operand sizes\<close>

text \<open>
  The word, longword and quadword forms of MSK, EXT and INS promise the same thing for
  different operand widths.  The locale states the promise bit by bit; what an unaligned
  load and an unaligned store do is proved once from it and read off for each width.
\<close>

definition pair128 :: "u64 \<Rightarrow> u64 \<Rightarrow> 128 word" where
  "pair128 hi lo = push_bit 64 (ucast hi) OR ucast lo"

lemma bit_pair128 [bit_simps]:
  "bit (pair128 hi lo) n \<longleftrightarrow> (if n < 64 then bit lo n else n < 128 \<and> bit hi (n - 64))"
  by (auto simp: pair128_def bit_simps bit_u64_out)

lemma pair128_eqI:
  assumes "\<And>n. n < 64 \<Longrightarrow> bit lo n = bit w n"
    and "\<And>n. n < 64 \<Longrightarrow> bit hi n = bit w (64 + n)"
  shows "pair128 hi lo = w"
proof (rule bit_word_eqI)
  fix n assume "n < LENGTH(128)"
  then show "bit (pair128 hi lo) n = bit w n"
    using assms(1) [of n] assms(2) [of "n - 64"] by (cases "n < 64") (simp_all add: bit_pair128)
qed

locale unaligned_lane =
  fixes width :: nat
    and mskl mskh extl exth insl insh :: "u64 \<Rightarrow> u64 \<Rightarrow> u64"
  assumes width_le: "width \<le> 64"
    and bit_mskl: "bit (mskl v k) n \<longleftrightarrow> bit v n \<and> \<not> (bytePos k * 8 \<le> n \<and> n < bytePos k * 8 + width)"
    and bit_mskh: "bit (mskh v k) n \<longleftrightarrow> bytePos k * 8 + width \<le> n + 64 \<and> bit v n"
    and bit_extl: "bit (extl v k) n \<longleftrightarrow> n < width \<and> bit v (bytePos k * 8 + n)"
    and bit_exth: "bit (exth v k) n \<longleftrightarrow> n < width \<and> 0 < bytePos k \<and>
                     64 - bytePos k * 8 \<le> n \<and> bit v (n - (64 - bytePos k * 8))"
    and bit_insl: "bit (insl v k) n \<longleftrightarrow> n < 64 \<and> bytePos k * 8 \<le> n \<and>
                     n < bytePos k * 8 + width \<and> bit v (n - bytePos k * 8)"
    and bit_insh: "bit (insh v k) n \<longleftrightarrow> 0 < bytePos k \<and>
                     64 - bytePos k * 8 + n < width \<and> bit v (64 - bytePos k * 8 + n)"
begin

lemmas lane_bits = bit_mskl bit_mskh bit_extl bit_exth bit_insl bit_insh

lemma load_eq_shift:
  "extl lo k OR exth hi k = ucast (drop_bit (bytePos k * 8) (pair128 hi lo)) AND mask width"
proof (rule bit_word_eqI)
  fix n assume "n < LENGTH(64)"
  then show "bit (extl lo k OR exth hi k) n =
      bit (ucast (drop_bit (bytePos k * 8) (pair128 hi lo)) AND mask width :: u64) n"
    using bytePos_bound [of k] width_le
    by (cases "n < width"; cases "bytePos k * 8 + n < 64")
      (auto simp: bit_simps lane_bits bit_u64_out add.commute)
qed

lemma store_eq_splice:
  "pair128 (mskh hi k OR insh v k) (mskl lo k OR insl v k) =
     (pair128 hi lo AND NOT (push_bit (bytePos k * 8) (mask width)))
       OR push_bit (bytePos k * 8) (ucast (v AND mask width))"
  using bytePos_bound [of k] width_le
  by (intro pair128_eqI) (auto simp: bit_simps lane_bits)

lemma load_after_store:
  "extl (mskl lo k OR insl v k) k OR exth (mskh hi k OR insh v k) k = v AND mask width"
  using bytePos_bound [of k] width_le
  by (intro bit_word_eqI) (auto simp: bit_simps lane_bits)

end

interpretation wlane: unaligned_lane 16 mskwl mskwh extwl extwh inswl inswh
  by unfold_locales (auto simp: bit_simps)

interpretation llane: unaligned_lane 32 mskll msklh extll extlh insll inslh
  by unfold_locales (auto simp: bit_simps)

interpretation qlane: unaligned_lane 64 mskql mskqh extql extqh insql insqh
  by unfold_locales (auto simp: bit_simps bit_u64_out dest: bit_imp_le_length)

section \<open>The store merge and the little-endian bytes\<close>

lemma and_take_bit_7: "unat (k AND 7) = unat (ucast (k :: u8) AND 7 :: u64)"
  using unat_ucast_u8 [of k] by (simp only: unsigned_and_eq) simp

lemma merge_lane:
  "stqUMergeLane q0 q1 src k =
   (mskql q0 (ucast k) OR insql src (ucast k), mskqh q1 (ucast k) OR insqh src (ucast k),
    bytePos (ucast k) \<noteq> 0)"
proof -
  have k: "unat (k AND 7) = bytePos (ucast k)"
    by (metis bytePos_def and_take_bit_7)
  show ?thesis
  proof (cases "bytePos (ucast k) = 0")
    case True then show ?thesis
      by (auto simp: stqUMergeLane_def k Let_def bit_simps diff_mult_distrib intro!: bit_word_eqI)
  next
    case False then show ?thesis using bytePos_bound [of "ucast k"]
      by (auto simp: stqUMergeLane_def k Let_def bit_simps diff_mult_distrib  simp flip: mask_eq_exp_minus_1 intro!: bit_word_eqI
          simp: bit_u64_out)
  qed
qed

lemma lane_and:
  "push_bit i (ucast (ucast (drop_bit i v) :: u8)) = (v::u64) AND push_bit i 0xFF"
  by (intro bit_word_eqI) (auto simp: bit_simps)

lemma unpack_pack: "packLE64 (unpackLE64 v) = Some v"
  using lane_and [of 0 v] lane_and [of 8 v] lane_and [of 16 v] lane_and [of 24 v]
    lane_and [of 32 v] lane_and [of 40 v] lane_and [of 48 v] lane_and [of 56 v]
  by (simp add: packLE64_def unpackLE64_def and_all_ones flip: bit.conj_disj_distrib)

lemma pack_unpack:
  assumes "length bs = 8"
  shows "map_option unpackLE64 (packLE64 bs) = Some bs"
proof -
  obtain a b c d e f g h where [simp]: "bs = [a,b,c,d,e,f,g,h]" using list8 [OF assms] by blast
  show ?thesis
  apply (simp add: packLE64_def unpackLE64_def)
  by (intro conjI; rule bit_word_eqI; simp add: bit_simps bit_u8_out)
qed

section \<open>Properties\<close>

text \<open>
  C17. The unaligned load sequence of the Alpha (EXTxL on the low quadword, EXTxH on the
  high one, OR of the two) reads exactly the addressed bytes of the 128-bit pair of
  quadwords, for the word, longword and quadword forms and every byte offset.
\<close>

theorem unaligned_load_reads_pair:
  "extwl lo k OR extwh hi k = ucast (drop_bit (bytePos k * 8) (pair128 hi lo)) AND mask 16 \<and>
   extll lo k OR extlh hi k = ucast (drop_bit (bytePos k * 8) (pair128 hi lo)) AND mask 32 \<and>
   extql lo k OR extqh hi k = ucast (drop_bit (bytePos k * 8) (pair128 hi lo)) AND mask 64"
  using wlane.load_eq_shift llane.load_eq_shift qlane.load_eq_shift by blast

text \<open>
  C18. The unaligned store sequence (MSKxL and MSKxH clear, INSxL and INSxH insert) replaces
  exactly the addressed bytes of the pair of quadwords by the low bytes of the operand and
  keeps every other byte, and the unaligned load at the same offset reads the operand back.
\<close>

theorem unaligned_store_splices_pair:
  "pair128 (mskwh hi k OR inswh v k) (mskwl lo k OR inswl v k) =
     (pair128 hi lo AND NOT (push_bit (bytePos k * 8) (mask 16)))
       OR push_bit (bytePos k * 8) (ucast (v AND mask 16)) \<and>
   pair128 (msklh hi k OR inslh v k) (mskll lo k OR insll v k) =
     (pair128 hi lo AND NOT (push_bit (bytePos k * 8) (mask 32)))
       OR push_bit (bytePos k * 8) (ucast (v AND mask 32)) \<and>
   pair128 (mskqh hi k OR insqh v k) (mskql lo k OR insql v k) =
     (pair128 hi lo AND NOT (push_bit (bytePos k * 8) (mask 64)))
       OR push_bit (bytePos k * 8) (ucast (v AND mask 64)) \<and>
   extql (mskql lo k OR insql v k) k OR extqh (mskqh hi k OR insqh v k) k = v"
proof -
  have "v AND mask 64 = v" by (rule bit_word_eqI) (simp add: bit_simps)
  then show ?thesis
    using wlane.store_eq_splice llane.store_eq_splice qlane.store_eq_splice
      qlane.load_after_store [of lo k v hi] by auto
qed

text \<open>
  The single-pass merge of an unaligned quadword store produces the same two quadwords
  as the MSK and INS instruction sequence, and it reports that the second quadword is
  touched exactly when the store is not aligned.
\<close>

theorem stqUMergeLane_refines_sequence:
  "stqUMergeLane q0 q1 src k =
     (mskql q0 (ucast k) OR insql src (ucast k),
      mskqh q1 (ucast k) OR insqh src (ucast k), k AND 7 \<noteq> 0)"
proof -
  have "k AND 7 = 0 \<longleftrightarrow> bytePos (ucast k) = 0"
    using and_take_bit_7 [of k] by (simp add: bytePos_def unat_eq_0 flip: unat_eq_0)
  then show ?thesis by (simp add: merge_lane)
qed

text \<open>
  ZAP clears exactly the bytes selected by the mask and ZAPNOT keeps exactly those
  bytes, so that the two split a quadword into disjoint parts.
\<close>

theorem zap_bytes:
  "i < 8 \<Longrightarrow> byte_at i (zap v m) = (if bit m i then 0 else byte_at i v) \<and>
     byte_at i (zapnot v m) = (if bit m i then byte_at i v else 0) \<and>
     zap v m OR zapnot v m = v \<and> zap v m AND zapnot v m = 0"
  by (intro conjI) (auto intro!: bit_word_eqI simp: bit_simps)

theorem zap_bytes_witness:
  "byte_at 2 (zap 0x0123456789ABCDEF 0x3C) = 0 \<and>
   zap 0x0123456789ABCDEF 0x3C = 0x012300000000CDEF"
  using zap_bytes [of 2 "0x0123456789ABCDEF" "0x3C"] by code_simp

text \<open>
  Packing eight little-endian bytes inverts unpacking in both directions, and packing
  a shorter buffer is refused.
\<close>

theorem packLE64_inverse:
  "packLE64 (unpackLE64 v) = Some v \<and>
   (length bs = 8 \<longrightarrow> map_option unpackLE64 (packLE64 bs) = Some bs) \<and>
   (length bs < 8 \<longrightarrow> packLE64 bs = None)"
  using unpack_pack pack_unpack by (auto simp: packLE64_def)

theorem packLE64_inverse_witness:
  "map_option unpackLE64 (packLE64 [1, 2, 3, 4, 5, 6, 7, 8]) = Some [1, 2, 3, 4, 5, 6, 7, 8] \<and>
   packLE64 [1, 2, 3] = None"
  using packLE64_inverse [of 0 "[1, 2, 3, 4, 5, 6, 7, 8]"] packLE64_inverse [of 0 "[1, 2, 3]"]
  by simp

end
