(* ===== verification/IntHelpers.thy ===== *)
theory IntHelpers
  imports Prelude "HOL-Library.Signed_Division"
begin

text \<open>
  The integer helpers of coreLib: the arithmetic, compare, conditional-move, shift and
  multiply-high helpers of alpha\_int\_helpers.h, the overflow predicates of
  alpha\_alu\_inl.h and the bit scans of bitutils.h.  A signed C integer is a word read
  through \<^term>\<open>sint\<close>; signed arithmetic wraps, as on the two's-complement targets the
  emulator is built for.  A shift by at least the operand width is undefined in C++ and is
  the value \<^term>\<open>None\<close>.
\<close>

section \<open>Arithmetic with status flags\<close>

record IntStatus =
  overflow :: bool
  divideByZero :: bool
  unalignedAccess :: bool
  reservedOperand :: bool
  floatingPointException :: bool

definition hasError :: "IntStatus \<Rightarrow> bool" where
  "hasError st \<longleftrightarrow> overflow st \<or> divideByZero st \<or> unalignedAccess st
     \<or> reservedOperand st \<or> floatingPointException st"

definition clear_status :: "IntStatus \<Rightarrow> IntStatus" where
  "clear_status st = st\<lparr>overflow := False, divideByZero := False, unalignedAccess := False,
     reservedOperand := False, floatingPointException := False\<rparr>"

definition addL :: "u32 \<Rightarrow> u32 \<Rightarrow> IntStatus \<Rightarrow> u32 \<times> IntStatus" where
  "addL a b status =
     (let result = a + b
      in (result,
          if (sint a > 0 \<and> sint b > 0 \<and> sint result < 0) \<or>
             (sint a < 0 \<and> sint b < 0 \<and> sint result > 0)
          then status\<lparr>overflow := True\<rparr> else status))"

definition subL :: "u32 \<Rightarrow> u32 \<Rightarrow> IntStatus \<Rightarrow> u32 \<times> IntStatus" where
  "subL a b status =
     (let result = a - b
      in (result,
          if (sint a > 0 \<and> sint b < 0 \<and> sint result < 0) \<or>
             (sint a < 0 \<and> sint b > 0 \<and> sint result > 0)
          then status\<lparr>overflow := True\<rparr> else status))"

definition mulL :: "u32 \<Rightarrow> u32 \<Rightarrow> IntStatus \<Rightarrow> u32 \<times> IntStatus" where
  "mulL a b status =
     (let wide = (scast a :: u64) * scast b;
          result = (ucast wide :: u32)
      in (result,
          if wide \<noteq> scast result then status\<lparr>overflow := True\<rparr> else status))"

definition addQ :: "u64 \<Rightarrow> u64 \<Rightarrow> IntStatus \<Rightarrow> u64 \<times> IntStatus" where
  "addQ a b status =
     (let result = a + b
      in (result,
          if (sint a > 0 \<and> sint b > 0 \<and> sint result < 0) \<or>
             (sint a < 0 \<and> sint b < 0 \<and> sint result > 0)
          then status\<lparr>overflow := True\<rparr> else status))"

definition subQ :: "u64 \<Rightarrow> u64 \<Rightarrow> IntStatus \<Rightarrow> u64 \<times> IntStatus" where
  "subQ a b status =
     (let result = a - b
      in (result,
          if (sint a > 0 \<and> sint b < 0 \<and> sint result < 0) \<or>
             (sint a < 0 \<and> sint b > 0 \<and> sint result > 0)
          then status\<lparr>overflow := True\<rparr> else status))"

definition int64_min :: u64 where
  "int64_min = push_bit 63 1"

definition mulQ :: "u64 \<Rightarrow> u64 \<Rightarrow> IntStatus \<Rightarrow> u64 \<times> IntStatus" where
  "mulQ a b status =
     (let result = a * b
      in (result,
          if a \<noteq> 0 \<and> b \<noteq> 0
          then (if (a = - 1 \<and> b = int64_min) \<or> (b = - 1 \<and> a = int64_min)
                then status\<lparr>overflow := True\<rparr>
                else if sint result sdiv sint a \<noteq> sint b
                then status\<lparr>overflow := True\<rparr> else status)
          else status))"

definition addQU :: "u64 \<Rightarrow> u64 \<Rightarrow> IntStatus \<Rightarrow> u64 \<times> IntStatus" where
  "addQU a b status =
     (let result = a + b
      in (result, if result < a then status\<lparr>overflow := True\<rparr> else status))"

definition subQU :: "u64 \<Rightarrow> u64 \<Rightarrow> IntStatus \<Rightarrow> u64 \<times> IntStatus" where
  "subQU a b status = (a - b, if a < b then status\<lparr>overflow := True\<rparr> else status)"

definition mulQU :: "u64 \<Rightarrow> u64 \<Rightarrow> IntStatus \<Rightarrow> u64 \<times> IntStatus" where
  "mulQU a b status =
     (let result = a * b
      in (result,
          if b \<noteq> 0 \<and> result div b \<noteq> a then status\<lparr>overflow := True\<rparr> else status))"

section \<open>Logic, compare, conditional move and shift\<close>

definition andQ :: "u64 \<Rightarrow> u64 \<Rightarrow> u64" where "andQ a b = a AND b"
definition orQ :: "u64 \<Rightarrow> u64 \<Rightarrow> u64" where "orQ a b = a OR b"
definition xorQ :: "u64 \<Rightarrow> u64 \<Rightarrow> u64" where "xorQ a b = a XOR b"
definition notQ :: "u64 \<Rightarrow> u64" where "notQ a = NOT a"
definition bicQ :: "u64 \<Rightarrow> u64 \<Rightarrow> u64" where "bicQ a b = a AND NOT b"
definition ornotQ :: "u64 \<Rightarrow> u64 \<Rightarrow> u64" where "ornotQ a b = a OR NOT b"
definition eqvQ :: "u64 \<Rightarrow> u64 \<Rightarrow> u64" where "eqvQ a b = NOT (a XOR b)"

definition cmpEQ :: "u64 \<Rightarrow> u64 \<Rightarrow> u64" where "cmpEQ a b = (if a = b then 1 else 0)"
definition cmpLT :: "u64 \<Rightarrow> u64 \<Rightarrow> u64" where "cmpLT a b = (if sint a < sint b then 1 else 0)"
definition cmpLE :: "u64 \<Rightarrow> u64 \<Rightarrow> u64" where "cmpLE a b = (if sint a \<le> sint b then 1 else 0)"
definition cmpULT :: "u64 \<Rightarrow> u64 \<Rightarrow> u64" where "cmpULT a b = (if a < b then 1 else 0)"
definition cmpULE :: "u64 \<Rightarrow> u64 \<Rightarrow> u64" where "cmpULE a b = (if a \<le> b then 1 else 0)"

definition cmovEQ :: "u64 \<Rightarrow> u64 \<Rightarrow> u64 \<Rightarrow> u64" where
  "cmovEQ src dst test = (if test = 0 then src else dst)"
definition cmovNE :: "u64 \<Rightarrow> u64 \<Rightarrow> u64 \<Rightarrow> u64" where
  "cmovNE src dst test = (if test \<noteq> 0 then src else dst)"
definition cmovLT :: "u64 \<Rightarrow> u64 \<Rightarrow> u64 \<Rightarrow> u64" where
  "cmovLT src dst test = (if sint test < 0 then src else dst)"
definition cmovLE :: "u64 \<Rightarrow> u64 \<Rightarrow> u64 \<Rightarrow> u64" where
  "cmovLE src dst test = (if sint test \<le> 0 then src else dst)"
definition cmovGT :: "u64 \<Rightarrow> u64 \<Rightarrow> u64 \<Rightarrow> u64" where
  "cmovGT src dst test = (if sint test > 0 then src else dst)"
definition cmovGE :: "u64 \<Rightarrow> u64 \<Rightarrow> u64 \<Rightarrow> u64" where
  "cmovGE src dst test = (if sint test \<ge> 0 then src else dst)"
definition cmovLBC :: "u64 \<Rightarrow> u64 \<Rightarrow> u64 \<Rightarrow> u64" where
  "cmovLBC src dst test = (if test AND 1 = 0 then src else dst)"
definition cmovLBS :: "u64 \<Rightarrow> u64 \<Rightarrow> u64 \<Rightarrow> u64" where
  "cmovLBS src dst test = (if test AND 1 \<noteq> 0 then src else dst)"

definition sllQ :: "u64 \<Rightarrow> int \<Rightarrow> u64" where
  "sllQ v s = (if s \<ge> 64 then 0 else if s < 0 then v else push_bit (nat s) v)"

definition srlQ :: "u64 \<Rightarrow> int \<Rightarrow> u64" where
  "srlQ v s = (if s \<ge> 64 then 0 else if s < 0 then v else drop_bit (nat s) v)"

definition sraQ :: "u64 \<Rightarrow> int \<Rightarrow> u64" where
  "sraQ v s = (if s \<ge> 64 then (if sint v < 0 then - 1 else 0)
               else if s < 0 then v else signed_drop_bit (nat s) v)"

section \<open>UMULH and the trap variant\<close>

text \<open>
  The three forms the sources have: the 128-bit product, the fallback of
  alpha\_int\_helpers.h and the fallback of alpha\_int\_helpers\_inl.h.
\<close>

definition umulh :: "u64 \<Rightarrow> u64 \<Rightarrow> u64" where
  "umulh a b = ucast (drop_bit 64 ((ucast a :: 128 word) * ucast b))"

definition umulh_fallback :: "u64 \<Rightarrow> u64 \<Rightarrow> u64" where
  "umulh_fallback a b =
     (let a_lo = a AND 0xFFFFFFFF; a_hi = drop_bit 32 a;
          b_lo = b AND 0xFFFFFFFF; b_hi = drop_bit 32 b;
          p0 = a_lo * b_lo; p1 = a_lo * b_hi; p2 = a_hi * b_lo; p3 = a_hi * b_hi;
          mid = p1 + p2 + drop_bit 32 p0
      in p3 + drop_bit 32 mid)"

definition umulh_inl_fallback :: "u64 \<Rightarrow> u64 \<Rightarrow> u64" where
  "umulh_inl_fallback a b =
     (let a_lo = a AND 0xFFFFFFFF; a_hi = drop_bit 32 a;
          b_lo = b AND 0xFFFFFFFF; b_hi = drop_bit 32 b;
          p0 = a_lo * b_lo; p1 = a_lo * b_hi; p2 = a_hi * b_lo; p3 = a_hi * b_hi;
          carry = drop_bit 32 (drop_bit 32 p0 + (p1 AND 0xFFFFFFFF) + (p2 AND 0xFFFFFFFF))
      in p3 + drop_bit 32 p1 + drop_bit 32 p2 + carry)"

definition isTrappingVariant :: "u8 \<Rightarrow> u16 \<Rightarrow> bool" where
  "isTrappingVariant opcode subDecode =
     (if opcode \<noteq> 0x10 then False else subDecode AND 0x40 \<noteq> 0)"

section \<open>The overflow predicates of the ALU header\<close>

definition addOverflow :: "u64 \<Rightarrow> u64 \<Rightarrow> u64 \<Rightarrow> bool" where
  "addOverflow a b r \<longleftrightarrow>
     (sint a \<ge> 0 \<and> sint b \<ge> 0 \<and> sint r < 0) \<or> (sint a < 0 \<and> sint b < 0 \<and> sint r \<ge> 0)"

definition addOverflow_fast :: "u64 \<Rightarrow> u64 \<Rightarrow> u64 \<Rightarrow> bool" where
  "addOverflow_fast a b r \<longleftrightarrow> (a XOR r) AND (b XOR r) AND int64_min \<noteq> 0"

definition subOverflow :: "u64 \<Rightarrow> u64 \<Rightarrow> u64 \<Rightarrow> bool" where
  "subOverflow a b r \<longleftrightarrow> addOverflow a (- b) r"

definition addCarry :: "u64 \<Rightarrow> u64 \<Rightarrow> u64 \<Rightarrow> bool" where
  "addCarry a b r \<longleftrightarrow> r < a \<or> r < b"

definition subBorrow :: "u64 \<Rightarrow> u64 \<Rightarrow> u64 \<Rightarrow> bool" where
  "subBorrow a b r \<longleftrightarrow> a < b"

section \<open>Bit scans\<close>

text \<open>
  The portable loops of bitutils.h at 64 bits.  The scan for the lowest bit is only entered
  with a non-zero operand; the guard at the width makes the recursion total and is never
  the reason it stops (\<open>lowestSetBit_loop_bit\<close> below).
\<close>

fun highestSetBit_loop :: "u64 \<Rightarrow> nat \<Rightarrow> nat" where
  "highestSetBit_loop mask_value b =
     (if b > 0 \<and> mask_value AND push_bit b 1 = 0
      then highestSetBit_loop mask_value (b - 1) else b)"

declare highestSetBit_loop.simps [simp del]

definition highestSetBit :: "u64 \<Rightarrow> nat" where
  "highestSetBit value = (if value = 0 then 0 else highestSetBit_loop value 63)"

function lowestSetBit_loop :: "u64 \<Rightarrow> nat \<Rightarrow> nat" where
  "lowestSetBit_loop mask_value b =
     (if b < 64 \<and> mask_value AND push_bit b 1 = 0
      then lowestSetBit_loop mask_value (b + 1) else b)"
  by pat_completeness auto
termination by (relation "measure (\<lambda>(_, b). 64 - b)") auto

declare lowestSetBit_loop.simps [simp del]

definition lowestSetBit :: "u64 \<Rightarrow> nat" where
  "lowestSetBit value = (if value = 0 then 0 else lowestSetBit_loop value 0)"

function popcount_loop :: "u64 \<Rightarrow> nat \<Rightarrow> nat" where
  "popcount_loop m count =
     (if m \<noteq> 0 then popcount_loop (drop_bit 1 m) (count + unat (m AND 1)) else count)"
  by pat_completeness auto
termination
  by (relation "measure (\<lambda>(m, _). unat m)") (auto simp: drop_bit_eq_div unat_div_distrib unat_gt_0)

declare popcount_loop.simps [simp del]

definition popcount :: "u64 \<Rightarrow> nat" where
  "popcount value = popcount_loop value 0"

definition isPowerOfTwo :: "u64 \<Rightarrow> bool" where
  "isPowerOfTwo value \<longleftrightarrow> value \<noteq> 0 \<and> value AND (value - 1) = 0"

definition shl_checked :: "u64 \<Rightarrow> nat \<Rightarrow> u64 option" where
  "shl_checked v s = (if s < 64 then Some (push_bit s v) else None)"

definition nextPowerOfTwo :: "u64 \<Rightarrow> u64 option" where
  "nextPowerOfTwo value =
     (if value = 0 then Some 1
      else if isPowerOfTwo value then Some value
      else shl_checked 1 (highestSetBit value + 1))"

definition extractBits :: "u64 \<Rightarrow> nat \<Rightarrow> nat \<Rightarrow> u64 option" where
  "extractBits value startBit bitCount =
     (case shl_checked 1 bitCount of
        None \<Rightarrow> None
      | Some m \<Rightarrow> if startBit < 64 then Some (drop_bit startBit value AND (m - 1)) else None)"

section \<open>Wrap-around of signed arithmetic\<close>

text \<open>A signed value fits in \<open>n + 1\<close> bits.\<close>

definition fits :: "nat \<Rightarrow> int \<Rightarrow> bool" where
  "fits n i \<longleftrightarrow> - (2 ^ n) \<le> i \<and> i < 2 ^ n"

lemma sint_range: "- (2 ^ (LENGTH('a) - 1)) \<le> sint (w :: 'a::len word)" "sint w < 2 ^ (LENGTH('a) - 1)"
  using sint_ge [of w] sint_lt [of w] by simp_all

lemma sint_add: "sint (a + b :: 'a::len word) = signed_take_bit (LENGTH('a) - 1) (sint a + sint b)"
proof -
  have "a + b = of_int (sint a + sint b)" by simp
  then show ?thesis by (simp only: signed_of_int) simp
qed

lemma sint_diff: "sint (a - b :: 'a::len word) = signed_take_bit (LENGTH('a) - 1) (sint a - sint b)"
proof -
  have "a - b = of_int (sint a - sint b)" by simp
  then show ?thesis by (simp only: signed_of_int) simp
qed

lemma sint_mult: "sint (a * b :: 'a::len word) = signed_take_bit (LENGTH('a) - 1) (sint a * sint b)"
proof -
  have "a * b = of_int (sint a * sint b)" by simp
  then show ?thesis by (simp only: signed_of_int) simp
qed

lemma sint_minus: "sint (- a :: 'a::len word) = signed_take_bit (LENGTH('a) - 1) (- sint a)"
proof -
  have "- a = of_int (- sint a)" by simp
  then show ?thesis by (simp only: signed_of_int) simp
qed

lemma stb_mod: "\<exists>k. signed_take_bit n (i::int) = i + k * 2 ^ Suc n"
proof -
  have "signed_take_bit n i = (i + 2 ^ n) mod 2 ^ Suc n - 2 ^ n" 
    by (simp add: signed_take_bit_eq_take_bit_shift take_bit_eq_mod)
  moreover have "(i + 2 ^ n) mod 2 ^ Suc n = (i + 2 ^ n) - ((i + 2 ^ n) div 2 ^ Suc n) * 2 ^ Suc n"
    by (simp only: minus_div_mult_eq_mod)
  ultimately have "signed_take_bit n i = i + (- ((i + 2 ^ n) div 2 ^ Suc n)) * 2 ^ Suc n" by (simp add: algebra_simps)
  then show ?thesis by blast
qed

lemma stb_range: "- (2 ^ n) \<le> signed_take_bit n (i::int) \<and> signed_take_bit n i < 2 ^ n"
  by (simp add: signed_take_bit_int_greater_eq_minus_exp signed_take_bit_int_less_exp)

lemma wrap_once:
  fixes i :: int
  assumes "- (2 ^ Suc n) \<le> i" "i < 2 ^ Suc n"
  shows "signed_take_bit n i = (if i < - (2 ^ n) then i + 2 ^ Suc n else if i \<ge> 2 ^ n then i - 2 ^ Suc n else i)"
proof -
  have eq: "signed_take_bit n i = (i + 2 ^ n) mod 2 ^ Suc n - 2 ^ n"
    by (simp add: signed_take_bit_eq_take_bit_shift take_bit_eq_mod)
  consider "i < - (2 ^ n)" | "- (2 ^ n) \<le> i" "i < 2 ^ n" | "2 ^ n \<le> i" by linarith
  then show ?thesis
  proof cases
    case 1
    then have "(i + 2 ^ n) mod 2 ^ Suc n = i + 2 ^ n + 2 ^ Suc n"
      using assms by (intro int_mod_pos_eq [where q = "- 1"]) auto
    with 1 show ?thesis by (simp add: eq)
  next
    case 2
    then have "(i + 2 ^ n) mod 2 ^ Suc n = i + 2 ^ n" by (intro mod_pos_pos_trivial) auto
    with 2 show ?thesis by (simp add: eq)
  next
    case 3
    then have "(i + 2 ^ n) mod 2 ^ Suc n = i + 2 ^ n - 2 ^ Suc n"
      using assms by (intro int_mod_pos_eq [where q = 1]) auto
    moreover have "\<not> i < - (2 ^ n)" using 3 zero_less_power [of "2 :: int" n] by linarith
    ultimately show ?thesis using 3 by (simp add: eq)
  qed
qed

lemma mult_wrap:
  fixes i :: int
  assumes "signed_take_bit n i \<noteq> i"
  shows "2 ^ Suc n \<le> \<bar>signed_take_bit n i - i\<bar>"
proof -
  obtain k where k: "signed_take_bit n i = i + k * 2 ^ Suc n" using stb_mod by blast
  with assms have "k \<noteq> 0" by auto
  then have "1 \<le> \<bar>k\<bar>" by auto
  then have "(1::int) * 2 ^ Suc n \<le> \<bar>k\<bar> * 2 ^ Suc n" by (intro mult_right_mono) auto
  then show ?thesis by (simp add: k abs_mult)
qed

lemma sdiv_mult_self: "(a::int) \<noteq> 0 \<Longrightarrow> (a * b) sdiv a = b"
proof -
  assume a: "a \<noteq> 0"
  then have "\<bar>a * b\<bar> div \<bar>a\<bar> = \<bar>b\<bar>" by (simp add: abs_mult)
  then have "(a * b) sdiv a = sgn a * sgn a * (sgn b * \<bar>b\<bar>)"
    by (simp add: signed_divide_int_def sgn_mult)
  moreover have "sgn a * sgn a = 1" using a by (cases "0 < a") auto
  ultimately show ?thesis by (simp add: sgn_mult_abs)
qed

lemma sdiv_rem_bound: assumes "(a::int) \<noteq> 0" shows "\<bar>r - a * (r sdiv a)\<bar> < \<bar>a\<bar>"
  using smod_int_range [OF assms, of r] minus_mult_sdiv_eq_smod [of r a] by auto

lemma sdiv_exact:
  assumes "(a::int) \<noteq> 0" "\<bar>a\<bar> \<le> 2 ^ n" "p = a * b" 
  shows "signed_take_bit n p sdiv a = b \<longleftrightarrow> signed_take_bit n p = p"
proof
  assume *: "signed_take_bit n p sdiv a = b"
  show "signed_take_bit n p = p"
  proof (rule ccontr)
    assume "signed_take_bit n p \<noteq> p"
    then have "2 ^ Suc n \<le> \<bar>signed_take_bit n p - p\<bar>" by (rule mult_wrap)
    moreover have "\<bar>signed_take_bit n p - p\<bar> < \<bar>a\<bar>"
      using sdiv_rem_bound [OF assms(1), of "signed_take_bit n p"] * assms(3) by simp
    moreover have "(2::int) ^ n \<le> 2 ^ Suc n" by simp
    ultimately show False using assms(2) by linarith
  qed
next
  assume "signed_take_bit n p = p"
  then show "signed_take_bit n p sdiv a = b" using assms by (simp add: sdiv_mult_self)
qed

lemma signed_take_bit_fits: "signed_take_bit n i = i \<longleftrightarrow> fits n i"
  by (simp add: signed_take_bit_int_eq_self_iff fits_def)

lemma sint_zero_iff: "sint (a :: 'a::len word) = 0 \<longleftrightarrow> a = 0"
  by (metis signed_0 signed_word_eqI)

lemma signed_word_eq_iff: "v = w \<longleftrightarrow> sint v = sint (w :: 'a::len word)"
  by (metis signed_word_eqI)

lemma int64_min_sint: "sint int64_min = - (2 ^ 63)"
  by (simp add: int64_min_def)

lemma eq_int64_min: "a = int64_min \<longleftrightarrow> sint a = - (2 ^ 63)"
  by (metis int64_min_sint signed_word_eqI)

lemmas signed_flag_simps = Let_def sint_add sint_diff wrap_once fits_def eq_int64_min

lemma addQ_flag:
  "overflow (snd (addQ a b st)) = (overflow st \<or> (\<not> fits 63 (sint a + sint b) \<and> \<not> (a = int64_min \<and> b = int64_min)))"
  using sint_range [of a] sint_range [of b] by (auto simp: addQ_def signed_flag_simps)

lemma addL_flag:
  "overflow (snd (addL a b st)) = (overflow st \<or> (\<not> fits 31 (sint a + sint b) \<and>
      \<not> (sint a = - (2 ^ 31) \<and> sint b = - (2 ^ 31))))"
  using sint_range [of a] sint_range [of b] by (auto simp: addL_def signed_flag_simps)

lemma sint_sign_cases: obtains "a = 0" | "0 < sint a" | "sint (a :: 'a::len word) < 0"
  using sint_zero_iff [of a] by linarith

lemma subQ_flag:
  "overflow (snd (subQ a b st)) = (overflow st \<or> (\<not> fits 63 (sint a - sint b) \<and> \<not> (a = 0 \<and> b = int64_min)))"
  using sint_range [of a] sint_range [of b]
  by (cases a rule: sint_sign_cases) (auto simp: subQ_def signed_flag_simps)

lemma subL_flag:
  "overflow (snd (subL a b st)) = (overflow st \<or> (\<not> fits 31 (sint a - sint b) \<and> \<not> (a = 0 \<and> sint b = - (2 ^ 31))))"
  using sint_range [of a] sint_range [of b]
  by (cases a rule: sint_sign_cases) (auto simp: subL_def signed_flag_simps)

lemma unsigned_flags:
  "overflow (snd (addQU a b st)) = (overflow st \<or> uint a + uint b \<ge> 2 ^ 64)"
  "overflow (snd (subQU a b st)) = (overflow st \<or> uint a < uint b)"
proof -
  show "overflow (snd (addQU a b st)) = (overflow st \<or> uint a + uint b \<ge> 2 ^ 64)"
  proof (cases "uint a + uint b \<ge> 2 ^ 64")
    case True
    then have "(uint a + uint b) mod 2 ^ 64 = uint a + uint b - 2 ^ 64"
      using uint_lt2p [of a] uint_lt2p [of b] by (intro int_mod_pos_eq [where q = 1]) auto
    with True show ?thesis using uint_lt2p [of b]
      by (simp add: addQU_def Let_def word_less_def uint_word_ariths)
  next
    case False
    then show ?thesis by (simp add: addQU_def Let_def word_less_def uint_word_ariths)
  qed
qed (auto simp: subQU_def word_less_def)

lemma div_wrap_exact:
  assumes "0 < (b::int)" "b < m" "0 \<le> a"
  shows "(a * b) mod m div b = a \<longleftrightarrow> a * b < m"
proof
  assume *: "(a * b) mod m div b = a"
  have "(a * b) mod m \<ge> ((a * b) mod m div b) * b"
    using assms pos_mod_sign [of b "(a * b) mod m"] div_mult_mod_eq [of "(a * b) mod m" b] by linarith
  with * have "a * b \<le> (a * b) mod m" by simp
  also have "\<dots> < m" using assms by simp
  finally show "a * b < m" .
next
  assume "a * b < m"
  with assms show "(a * b) mod m div b = a" by simp
qed

lemma mulQU_flag:
  "overflow (snd (mulQU a b st)) = (overflow st \<or> uint a * uint b \<ge> 2 ^ 64)"
proof (cases "b = 0")
  case False
  then have "a * b div b = a \<longleftrightarrow> (uint a * uint b) mod 2 ^ 64 div uint b = uint a"
    by (simp add: word_uint_eq_iff uint_div_distrib uint_word_ariths)
  also have "\<dots> \<longleftrightarrow> uint a * uint b < 2 ^ 64"
    using False uint_lt2p [of b] by (intro div_wrap_exact) (auto simp: word_neq_0_conv word_less_def)
  finally show ?thesis using False by (auto simp: mulQU_def Let_def)
qed (simp add: mulQU_def)

lemma mulQ_flag:
  "overflow (snd (mulQ a b st)) = (overflow st \<or> \<not> fits 63 (sint a * sint b))"
proof (cases "a = 0 \<or> b = 0")
  case True then show ?thesis by (auto simp: mulQ_def fits_def)
next
  case False
  then have "sint (a * b) sdiv sint a = sint b \<longleftrightarrow> fits 63 (sint a * sint b)"
    using sint_range [of a] by (simp add: sint_mult sdiv_exact sint_zero_iff abs_le_iff signed_take_bit_fits)
  moreover have "a = - 1 \<and> b = int64_min \<or> b = - 1 \<and> a = int64_min \<Longrightarrow> \<not> fits 63 (sint a * sint b)"
    by (auto simp: int64_min_sint fits_def)
  ultimately show ?thesis using False by (auto simp: mulQ_def Let_def)
qed

lemma mulL_flag:
  "overflow (snd (mulL c d st)) = (overflow st \<or> \<not> fits 31 (sint c * sint d))"
  "sint (fst (mulL c d st)) = signed_take_bit 31 (sint c * sint d)"
proof -
  have b: "\<bar>sint c * sint d\<bar> \<le> 2 ^ 62"
    using sint_range [of c] sint_range [of d] abs_mult [of "sint c" "sint d"]
     mult_mono [of "\<bar>sint c\<bar>" "2 ^ 31" "\<bar>sint d\<bar>" "2 ^ 31"] by simp
  have s: "sint (scast x :: u64) = sint x" for x :: u32
    using sint_range [of x] by (simp add: signed_scast_eq signed_take_bit_fits fits_def)
  have w: "sint (scast c * scast d :: u64) = sint c * sint d"
    using b by (auto simp: sint_mult s signed_take_bit_fits fits_def)
  have n: "sint (ucast x :: u32) = signed_take_bit 31 (sint x)" for x :: u64
    by (rule bit_eqI) (auto simp: bit_simps min_def)
  show r: "sint (fst (mulL c d st)) = signed_take_bit 31 (sint c * sint d)"
    by (simp add: mulL_def Let_def n w)
  have "(scast c * scast d = (scast (ucast (scast c * scast d :: u64) :: u32) :: u64)) \<longleftrightarrow> fits 31 (sint c * sint d)"
    by (simp add: signed_word_eq_iff w s n flip: signed_take_bit_fits) (rule eq_commute)
  then show "overflow (snd (mulL c d st)) = (overflow st \<or> \<not> fits 31 (sint c * sint d))"
    by (auto simp: mulL_def Let_def)
qed

lemma addOverflow_exact: "addOverflow a b (a + b) \<longleftrightarrow> \<not> fits 63 (sint a + sint b)"
  using sint_range [of a] sint_range [of b] by (auto simp: addOverflow_def signed_flag_simps)

lemma bit_63_sint: "bit (a::u64) 63 \<longleftrightarrow> sint a < 0"
  using bit_last_iff [of a] by simp

lemma addOverflow_fast_eq: "addOverflow_fast a b r \<longleftrightarrow> addOverflow a b r"
proof -
  have "int64_min = 2 ^ 63" by (simp add: int64_min_def)
  then have "addOverflow_fast a b r \<longleftrightarrow> bit ((a XOR r) AND (b XOR r)) 63"
    unfolding addOverflow_fast_def by (metis and.assoc and_exp_neq_0_iff)
  also have "\<dots> \<longleftrightarrow> (bit a 63 \<noteq> bit r 63) \<and> (bit b 63 \<noteq> bit r 63)"
    by (simp only: bit_and_iff bit_xor_iff)
  finally show ?thesis by (auto simp: addOverflow_def bit_63_sint)
qed

lemma subOverflow_exact: "subOverflow a b (a - b) \<longleftrightarrow> (\<not> fits 63 (sint a - sint b)) \<noteq> (b = int64_min)"
proof -
  have "sint (- b) = (if b = int64_min then sint b else - sint b)"
    using sint_range [of b] by (auto simp: sint_minus wrap_once eq_int64_min)
  then show ?thesis using sint_range [of a] sint_range [of b]
  by (auto simp: subOverflow_def addOverflow_def signed_flag_simps int64_min_sint)
qed

lemma uint_ucast128: "uint (ucast (a :: u64) :: 128 word) = uint a"
  using uint_lt2p [of a] by (simp add: unsigned_ucast_eq take_bit_int_eq_self_iff)

lemma umulh_spec: "uint (umulh a b) = (uint a * uint b) div 2 ^ 64"
proof -
  have b: "uint a * uint b < 2 ^ 128"
    using uint_lt2p [of a] uint_lt2p [of b] mult_strict_mono [of "uint a" "2 ^ 64" "uint b" "2 ^ 64"] by simp
  then have "uint ((ucast a :: 128 word) * ucast b) = uint a * uint b"
    using uint_mult_lem [of "ucast a :: 128 word" "ucast b"] by (simp add: uint_ucast128)
  then have "uint (drop_bit 64 ((ucast a :: 128 word) * ucast b)) = (uint a * uint b) div 2 ^ 64"
    by (simp add: drop_bit_eq_div uint_div_distrib)
  moreover have "(uint a * uint b) div 2 ^ 64 < 2 ^ 64"
    using b by (simp add: div_less_iff_less_mult)
  ultimately show ?thesis by (simp add: umulh_def unsigned_ucast_eq take_bit_int_eq_self_iff pos_imp_zdiv_nonneg_iff)
qed

lemma school_mult:
  fixes al ah bl bh m :: int
  assumes "0 < m"
  shows "((ah * m + al) * (bh * m + bl)) div (m * m) =
    ah * bh + (al * bh) div m + (ah * bl) div m +
      ((al * bl) div m + (al * bh) mod m + (ah * bl) mod m) div m"
proof -
  have "(ah * m + al) * (bh * m + bl) = al * bl + m * (al * bh + ah * bl + m * (ah * bh))"
    by (simp add: algebra_simps)
  then have "((ah * m + al) * (bh * m + bl)) div m div m =
      (al * bl div m + (al * bh + ah * bl) + m * (ah * bh)) div m"
    using assms by (simp add: ac_simps)
  also have "\<dots> = (al * bl div m + (al * bh + ah * bl)) div m + ah * bh"
    using assms by simp
  also have "al * bl div m + (al * bh + ah * bl) =
    (al * bl div m + (al * bh) mod m + (ah * bl) mod m) + m * ((al * bh) div m + (ah * bl) div m)"
    using mult_div_mod_eq [of m "al * bh"] mult_div_mod_eq [of m "ah * bl"] by (simp add: algebra_simps)
  finally show ?thesis using assms by (simp add: zdiv_zmult2_eq)
qed

lemma uint_mult_small: "uint (a::u64) < 2 ^ 32 \<Longrightarrow> uint b < 2 ^ 32 \<Longrightarrow> uint (a * b) = uint a * uint b"
  using mult_strict_mono [of "uint a" "2 ^ 32" "uint b" "2 ^ 32"] uint_mult_lem [of a b] by simp

lemma uint_halves:
  "uint (a AND 0xFFFFFFFF :: u64) = uint a mod 2 ^ 32" "uint (drop_bit 32 a) = uint a div 2 ^ 32"
proof -
  have "a AND 0xFFFFFFFF = take_bit 32 a" by (simp add: take_bit_eq_mask mask_eq_exp_minus_1)
  then show "uint (a AND 0xFFFFFFFF :: u64) = uint a mod 2 ^ 32"
    by (simp add: take_bit_eq_mod uint_mod_distrib)
qed (simp add: drop_bit_eq_div uint_div_distrib)

lemma sum3_no_wrap:
  fixes x y z :: int
  assumes "0 \<le> x" "x < 2 ^ 32" "0 \<le> y" "y < 2 ^ 32" "0 \<le> z" "z < 2 ^ 32"
  shows "((x + y) mod 2 ^ 64 + z) mod 2 ^ 64 = x + y + z"
  using assms by (simp add: mod_add_left_eq)

lemma umulh_inl_fallback_correct: "umulh_inl_fallback a b = umulh a b"
proof -
  define al ah bl bh where d: "al = a AND 0xFFFFFFFF" "ah = drop_bit 32 a" "bl = b AND 0xFFFFFFFF" "bh = drop_bit 32 b"
  have small: "uint al < 2 ^ 32" "uint ah < 2 ^ 32" "uint bl < 2 ^ 32" "uint bh < 2 ^ 32"
    using uint_lt2p [of a] uint_lt2p [of b] by (simp_all add: d uint_halves div_less_iff_less_mult)
  note prods = uint_mult_small [OF small(1) small(3)] uint_mult_small [OF small(1) small(4)]
    uint_mult_small [OF small(2) small(3)] uint_mult_small [OF small(2) small(4)]
  define s where "s = drop_bit 32 (al * bl) + (al * bh AND 0xFFFFFFFF) + (ah * bl AND 0xFFFFFFFF)"
  have "uint (al * bl) div 2 ^ 32 < 2 ^ 32" using uint_lt2p [of "al * bl"] by (simp add: div_less_iff_less_mult)
  then have s: "uint s = (uint al * uint bl) div 2 ^ 32 + (uint al * uint bh) mod 2 ^ 32 + (uint ah * uint bl) mod 2 ^ 32"
    using sum3_no_wrap [of "(uint al * uint bl) div 2 ^ 32" "(uint al * uint bh) mod 2 ^ 32"
        "(uint ah * uint bl) mod 2 ^ 32"]
    by (simp add: s_def uint_word_ariths(1) uint_halves prods pos_imp_zdiv_nonneg_iff)
  have ab: "uint a = uint ah * 2 ^ 32 + uint al" "uint b = uint bh * 2 ^ 32 + uint bl"
    by (simp_all add: d uint_halves)
  have sq: "(2 :: int) ^ 64 = 2 ^ 32 * 2 ^ 32" and pos: "(0 :: int) < 2 ^ 32" by simp_all
  have r: "(uint a * uint b) div 2 ^ 64 = uint ah * uint bh + (uint al * uint bh) div 2 ^ 32 + (uint ah * uint bl) div 2 ^ 32 + uint s div 2 ^ 32"
    by (simp only: ab sq s school_mult [OF pos])
  have "uint (umulh_inl_fallback a b) = (uint (ah * bh) + uint (al * bh) div 2 ^ 32 + uint (ah * bl) div 2 ^ 32 + uint s div 2 ^ 32) mod 2 ^ 64"
    by (simp add: umulh_inl_fallback_def Let_def uint_word_ariths(1) uint_halves mod_add_left_eq flip: d s_def)
  also have "\<dots> = uint (umulh a b) mod 2 ^ 64" by (simp only: prods umulh_spec r)
  also have "\<dots> = uint (umulh a b)" using uint_lt2p [of "umulh a b"] by simp
  finally show ?thesis by (simp add: word_uint_eq_iff)
qed

section \<open>The bit scans\<close>

lemma highestSetBit_loop_bit:
  assumes "v \<noteq> 0" "\<And>n. b < n \<Longrightarrow> \<not> bit v n"
  shows "bit v (highestSetBit_loop v b) \<and> (\<forall>n > highestSetBit_loop v b. \<not> bit v n)"
  using assms
proof (induction v b rule: highestSetBit_loop.induct)
  case (1 v b)
  show ?case
  proof (cases "b > 0 \<and> \<not> bit v b")
    case True
    then have "\<And>n. b - 1 < n \<Longrightarrow> \<not> bit v n" using 1(3)
      by (metis Suc_pred' less_antisym not_less_eq Suc_leI diff_less_Suc linorder_neqE_nat less_Suc_eq)
    with 1 True show ?thesis by (subst (1 2) highestSetBit_loop.simps) simp
  next
    case False
    have "bit v b"
    proof (rule ccontr)
      assume "\<not> bit v b"
      with False have "b = 0" by simp
      with 1(3) \<open>\<not> bit v b\<close> have "\<not> bit v n" for n by (cases n) auto
      with 1(2) show False by (simp add: bit_eq_iff)
    qed
    with False 1 show ?thesis by (subst (1 2) highestSetBit_loop.simps) auto
  qed
qed

lemma lowestSetBit_loop_bit:
  assumes "v \<noteq> 0" "\<And>n. n < b \<Longrightarrow> \<not> bit v n"
  shows "bit v (lowestSetBit_loop v b) \<and> (\<forall>n < lowestSetBit_loop v b. \<not> bit v n)"
  using assms
proof (induction v b rule: lowestSetBit_loop.induct)
  case (1 v b)
  show ?case
  proof (cases "b < 64 \<and> \<not> bit v b")
    case True
    then have "\<And>n. n < b + 1 \<Longrightarrow> \<not> bit v n" using 1(3) by (metis less_Suc_eq Suc_eq_plus1)
    with 1 True show ?thesis by (subst (1 2) lowestSetBit_loop.simps) simp
  next
    case False
    have "bit v b"
    proof (rule ccontr)
      assume *: "\<not> bit v b"
      with False have "64 \<le> b" by simp
      with 1(3) have "\<not> bit v n" for n using bit_u64_out [of n v] by (cases "n < b") auto
      with 1(2) show False by (simp add: bit_eq_iff)
    qed
    with False 1 show ?thesis by (subst (1 2) lowestSetBit_loop.simps) auto
  qed
qed

lemma finite_bits [simp]: "finite {n. bit (m :: u64) n}"
  by (rule finite_subset [of _ "{..<64}"]) (auto dest: bit_imp_le_length)

lemma card_bits_drop: "card {n. bit (m::u64) n} = card {n. bit (drop_bit 1 m) n} + unat (m AND 1)"
proof -
  define B where "B = bit m"
  have d: "bit (drop_bit 1 m) n = B (Suc n)" for n
    by (simp only: bit_drop_bit_eq B_def) simp
  have "{n. B n} = Suc ` {n. B (Suc n)} \<union> (if B 0 then {0} else {})"
  proof (rule set_eqI)
    fix n show "n \<in> {n. B n} \<longleftrightarrow> n \<in> Suc ` {n. B (Suc n)} \<union> (if B 0 then {0} else {})"
      by (cases n) auto
  qed
  moreover have "unat (m AND 1) = (if B 0 then 1 else 0)"
    by (simp only: B_def unat_and_1)
  moreover have "finite {n. B n}" by (simp add: B_def)
  ultimately show ?thesis unfolding d B_def [symmetric] by (auto simp: card_image card_insert_if)
qed

lemma popcount_loop_card: "popcount_loop m c = c + card {n. bit m n}"
proof (induction m c rule: popcount_loop.induct)
  case (1 m c)
  then show ?case by (subst popcount_loop.simps) (use card_bits_drop [of m] in auto)
qed

lemma highest_bounds:
  assumes "bit v h" "\<forall>n > h. \<not> bit (v :: u64) n"
  shows "2 ^ h \<le> unat v" "unat v < 2 ^ Suc h"
proof -
  have eq: "unat v = take_bit (Suc h) (unat v)"
    using assms(2) by (intro bit_eqI) (auto simp: bit_simps less_Suc_eq_le not_le [symmetric] bit_unsigned_iff)
  show "unat v < 2 ^ Suc h" by (subst eq) (rule take_bit_nat_less_exp)
  show "2 ^ h \<le> unat v" using assms(1)
    by (subst eq) (simp add: take_bit_Suc_from_most bit_unsigned_iff)
qed

lemma bounds_bit: "2 ^ h \<le> unat v \<Longrightarrow> unat v < 2 ^ Suc h \<Longrightarrow> bit (v::u64) h"
proof -
  assume a: "2 ^ h \<le> unat v" "unat v < 2 ^ Suc h"
  have "unat v div 2 ^ h = 1" using a by (intro div_nat_eqI) simp_all
  then have "bit (unat v) h" by (simp add: bit_iff_odd)
  then show ?thesis by (simp add: bit_unsigned_iff)
qed

lemma isPowerOfTwo_iff: "isPowerOfTwo v \<longleftrightarrow> (\<exists>k. unat v = 2 ^ k)"
proof (cases "v = 0")
  case False
  define h where "h = highestSetBit v"
  have b: "2 ^ h \<le> unat v" "unat v < 2 ^ Suc h"
    using highestSetBit_loop_bit [OF False, of 63] highest_bounds [of v h] bit_imp_le_length [of v] False
    by (force simp: h_def highestSetBit_def)+
  have m: "unat (v - 1) = unat v - 1" using False unat_minus_one by blast
  show ?thesis
  proof (cases "unat v = 2 ^ h")
    case True
    have "bit v n \<longleftrightarrow> n = h" for n
      using bit_unat [of v n] True by (auto simp: bit_exp_iff)
    moreover have "bit (v - 1) n \<Longrightarrow> n < h" for n
      using bit_unat [of "v - 1" n] True m bit_mask_iff [of h n, where ?'a = nat]
      by (simp add: mask_eq_exp_minus_1)
    ultimately have "v AND (v - 1) = 0"
      by (intro bit_word_eqI) (auto simp only: bit_and_iff bit_0_eq)
    with True False show ?thesis by (auto simp: isPowerOfTwo_def)
  next
    case neq: False
    with b m have "2 ^ h \<le> unat (v - 1)" "unat (v - 1) < 2 ^ Suc h" by auto
    then have "bit (v AND (v - 1)) h" using b bounds_bit by (auto simp: bit_simps)
    then have "\<not> isPowerOfTwo v" by (auto simp: isPowerOfTwo_def)
    moreover have "unat v \<noteq> 2 ^ k" for k
    proof
      assume "unat v = 2 ^ k"
      with b neq have "(2 :: nat) ^ h < 2 ^ k" "(2 :: nat) ^ k < 2 ^ Suc h" by auto
      then have "h < k" "k < Suc h" by (simp_all only: power_strict_increasing_iff)
      then show False by simp
    qed
    ultimately show ?thesis by blast
  qed
qed (simp add: isPowerOfTwo_def)

lemma highestSetBit_bounds:
  "v \<noteq> 0 \<Longrightarrow> 2 ^ highestSetBit v \<le> unat v \<and> unat v < 2 ^ Suc (highestSetBit v)"
  using highestSetBit_loop_bit [of v 63] highest_bounds [of v "highestSetBit v"] bit_imp_le_length [of v]
  by (force simp: highestSetBit_def)

lemma nextPowerOfTwo_spec:
  "nextPowerOfTwo v = (if unat v \<le> 2 ^ 63 then Some (2 ^ (LEAST k. unat v \<le> 2 ^ k)) else None)"
proof (cases "v = 0 \<or> isPowerOfTwo v")
  case True
  then obtain k where k: "unat v = 2 ^ k \<or> v = 0 \<and> k = 0" by (auto simp: isPowerOfTwo_iff)
  have "(LEAST k. unat v \<le> 2 ^ k) = k"
  proof (rule Least_equality)
    fix j assume "unat v \<le> 2 ^ j" with k show "k \<le> j" by auto
  qed (use k in auto)
  moreover have "unat v \<le> 2 ^ 63"
  proof -
    have "unat v < 2 ^ 64" using unsigned_less [of v, where ?'a = nat] by simp
    with k have "(2 :: nat) ^ k < 2 ^ 64" by auto
    then have "k \<le> 63" by (simp only: power_strict_increasing_iff)
    then have "(2 :: nat) ^ k \<le> 2 ^ 63" by (intro power_increasing) simp_all
    with k show ?thesis by auto
  qed
  moreover have "nextPowerOfTwo v = Some (2 ^ k)"
    using True k unat_power_eq [of v k] by (auto simp: nextPowerOfTwo_def isPowerOfTwo_iff)
  ultimately show ?thesis by simp
next
  case False
  define h where "h = highestSetBit v"
  have b: "2 ^ h \<le> unat v" "unat v < 2 ^ Suc h" using False highestSetBit_bounds [of v] by (simp_all add: h_def)
  have "unat v \<noteq> 2 ^ h" using False by (auto simp: isPowerOfTwo_iff)
  with b have b': "2 ^ h < unat v" by simp
  have "(LEAST k. unat v \<le> 2 ^ k) = Suc h"
  proof (rule Least_equality)
    fix k assume "unat v \<le> 2 ^ k"
    with b' have "(2::nat) ^ h < 2 ^ k" by linarith
    then show "Suc h \<le> k" by simp
  qed (use b in simp)
  moreover have "unat v \<le> 2 ^ 63 \<longleftrightarrow> h < 63"
  proof
    assume "unat v \<le> 2 ^ 63"
    with b' have "(2::nat) ^ h < 2 ^ 63" by linarith
    then show "h < 63" by (simp only: power_strict_increasing_iff)
  next
    assume "h < 63"
    then have "(2::nat) ^ Suc h \<le> 2 ^ 63" by (intro power_increasing) simp_all
    with b show "unat v \<le> 2 ^ 63" by linarith
  qed
  ultimately show ?thesis using False by (simp add: nextPowerOfTwo_def shl_checked_def h_def [symmetric] push_bit_eq_mult)
qed

section \<open>Properties\<close>

text \<open>
  The signed add and subtract helpers return the wrapped result and set the overflow
  flag exactly when the true result does not fit, with one exception each: the sum of two
  most negative operands, and zero minus the most negative operand, leave the flag as it was.
\<close>

theorem signed_add_sub_overflow:
  "sint (fst (addQ a b st)) = signed_take_bit 63 (sint a + sint b) \<and>
   (overflow (snd (addQ a b st)) \<longleftrightarrow> overflow st \<or>
      \<not> fits 63 (sint a + sint b) \<and> \<not> (a = int64_min \<and> b = int64_min)) \<and>
   sint (fst (subQ a b st)) = signed_take_bit 63 (sint a - sint b) \<and>
   (overflow (snd (subQ a b st)) \<longleftrightarrow> overflow st \<or>
      \<not> fits 63 (sint a - sint b) \<and> \<not> (a = 0 \<and> b = int64_min)) \<and>
   sint (fst (addL c d st)) = signed_take_bit 31 (sint c + sint d) \<and>
   (overflow (snd (addL c d st)) \<longleftrightarrow> overflow st \<or>
      \<not> fits 31 (sint c + sint d) \<and> \<not> (sint c = - (2 ^ 31) \<and> sint d = - (2 ^ 31))) \<and>
   sint (fst (subL c d st)) = signed_take_bit 31 (sint c - sint d) \<and>
   (overflow (snd (subL c d st)) \<longleftrightarrow> overflow st \<or>
      \<not> fits 31 (sint c - sint d) \<and> \<not> (c = 0 \<and> sint d = - (2 ^ 31)))"
  unfolding addQ_flag subQ_flag addL_flag subL_flag
  by (simp add: addQ_def subQ_def addL_def subL_def Let_def sint_add sint_diff)

text \<open>
  The multiply helpers return the wrapped product and set the overflow flag exactly
  when the true product does not fit; the division-based test of the quadword form is exact.
\<close>

theorem signed_mul_overflow:
  "sint (fst (mulQ a b st)) = signed_take_bit 63 (sint a * sint b) \<and>
   (\<not> overflow (snd (mulQ a b st)) \<longleftrightarrow> \<not> overflow st \<and> fits 63 (sint a * sint b)) \<and>
   sint (fst (mulL c d st)) = signed_take_bit 31 (sint c * sint d) \<and>
   (\<not> overflow (snd (mulL c d st)) \<longleftrightarrow> \<not> overflow st \<and> fits 31 (sint c * sint d))"
  unfolding mulQ_flag mulL_flag by (simp add: mulQ_def Let_def sint_mult)

text \<open>
  The unsigned helpers set the overflow flag exactly on a carry out, a borrow, or a
  product of more than 64 bits.
\<close>

theorem unsigned_overflow:
  "(overflow (snd (addQU a b st)) \<longleftrightarrow> overflow st \<or> uint a + uint b \<ge> 2 ^ 64) \<and>
   (overflow (snd (subQU a b st)) \<longleftrightarrow> overflow st \<or> uint a < uint b) \<and>
   (overflow (snd (mulQU a b st)) \<longleftrightarrow> overflow st \<or> uint a * uint b \<ge> 2 ^ 64)"
  unfolding unsigned_flags mulQU_flag by simp

text \<open>
  UMULH computes the high half of the 128-bit product, and the school-multiplication
  fallback of alpha\_int\_helpers\_inl.h computes the same value on every input.
\<close>

theorem umulh_high_half:
  "uint (umulh a b) = (uint a * uint b) div 2 ^ 64 \<and> umulh_inl_fallback a b = umulh a b"
  by (simp only: umulh_spec umulh_inl_fallback_correct)

text \<open>
  The fallback of alpha\_int\_helpers.h drops the carry of the middle sum.
\<close>

theorem umulh_fallback_drops_carry:
  "umulh_fallback (- 1) (- 1) = 0xFFFFFFFEFFFFFFFE \<and> umulh (- 1) (- 1) = 0xFFFFFFFFFFFFFFFE"
  by code_simp

text \<open>
  The ALU header's overflow tests: the signed and the bit-trick form of the add test
  agree and are exact for the wrapped sum, and the subtract test is exact except when the
  subtrahend is the most negative value, where its answer is inverted.
\<close>

theorem alu_overflow_tests:
  "(addOverflow a b (a + b) \<longleftrightarrow> \<not> fits 63 (sint a + sint b)) \<and>
   (addOverflow_fast a b r \<longleftrightarrow> addOverflow a b r) \<and>
   (subOverflow a b (a - b) \<longleftrightarrow> (\<not> fits 63 (sint a - sint b)) \<noteq> (b = int64_min))"
  using addOverflow_exact addOverflow_fast_eq subOverflow_exact by blast

text \<open>
  The bit scans: the highest and the lowest set bit of a non-zero quadword, the number
  of set bits, and the rounding up to a power of two, which is the least one not below the
  operand and undefined (a shift by the width) above two to the 63.
\<close>

theorem bit_scans:
  "v \<noteq> 0 \<Longrightarrow>
   2 ^ highestSetBit v \<le> unat v \<and> unat v < 2 ^ Suc (highestSetBit v) \<and>
   bit v (lowestSetBit v) \<and> (\<forall>n < lowestSetBit v. \<not> bit v n) \<and>
   popcount v = card {n. bit v n} \<and>
   nextPowerOfTwo v = (if unat v \<le> 2 ^ 63 then Some (2 ^ (LEAST k. unat v \<le> 2 ^ k)) else None)"
  using highestSetBit_bounds [of v] lowestSetBit_loop_bit [of v 0] nextPowerOfTwo_spec [of v]
  by (simp add: lowestSetBit_def popcount_def popcount_loop_card)

theorem bit_scans_witness:
  "bit (0x60 :: u64) (lowestSetBit 0x60) \<and> 2 ^ highestSetBit 0x60 \<le> unat (0x60 :: u64) \<and>
   popcount 0x60 = card {n. bit (0x60 :: u64) n}"
  using bit_scans [of "0x60"] by simp

end
