(* ===== verification/FpFormat.thy ===== *)
theory FpFormat
  imports Prelude
begin

text \<open>
  The conversions between the memory formats of floating point data and the 64-bit register format,
  fBoxLib/grains/FpFormat.h: IEEE single (S) and double (T), VAX F and G.
\<close>

definition expand8 :: "u32 \<Rightarrow> u32" where
  "expand8 exp8 = (let msb = drop_bit 7 exp8 AND 1; fill = (if msb \<noteq> 0 then 0 else 7)
     in push_bit 10 msb OR push_bit 7 fill OR (exp8 AND 0x7F))"

definition convertS_FloatingToRegister :: "u32 \<Rightarrow> u64" where
  "convertS_FloatingToRegister mem =
    (let sign = ucast (drop_bit 31 mem AND 1) :: u64;
         exp8 = drop_bit 23 mem AND 0xFF;
         frac = mem AND 0x7FFFFF
     in if exp8 = 0 then push_bit 63 sign
        else let exp11 = (if exp8 = 0xFF then 0x7FF else expand8 exp8)
             in push_bit 63 sign OR push_bit 52 (ucast exp11) OR push_bit 29 (ucast frac))"

definition convertS_FloatingToMemory :: "u64 \<Rightarrow> u32" where
  "convertS_FloatingToMemory reg =
    (let sign = ucast (drop_bit 63 reg AND 1) :: u32;
         exp11 = ucast (drop_bit 52 reg AND 0x7FF) :: u32;
         frac = ucast (drop_bit 29 reg AND 0x7FFFFF) :: u32
     in if exp11 = 0 then push_bit 31 sign
        else let exp8 = (if exp11 = 0x7FF then 0xFF
                         else (drop_bit 3 exp11 AND 0x80) OR (exp11 AND 0x7F))
             in push_bit 31 sign OR push_bit 23 exp8 OR frac)"

definition convertT_FloatingToRegister :: "u64 \<Rightarrow> u64" where
  "convertT_FloatingToRegister mem = mem"

definition convertT_FloatingToMemory :: "u64 \<Rightarrow> u64" where
  "convertT_FloatingToMemory reg = reg"

definition convertF_FloatingToRegister :: "u32 \<Rightarrow> u64" where
  "convertF_FloatingToRegister mem =
    (let sign = ucast (drop_bit 31 mem AND 1) :: u64;
         exp8 = drop_bit 23 mem AND 0xFF;
         frac_hi = drop_bit 16 mem AND 0x7F;
         frac_lo = mem AND 0xFFFF
     in if exp8 = 0 then push_bit 63 sign
        else let exp11 = expand8 exp8;
                 frac23 = push_bit 16 frac_hi OR frac_lo
             in push_bit 63 sign OR push_bit 52 (ucast exp11) OR push_bit 29 (ucast frac23))"

definition convertF_FloatingToMemory :: "u64 \<Rightarrow> u32" where
  "convertF_FloatingToMemory reg =
    (let sign = ucast (drop_bit 63 reg AND 1) :: u32;
         exp11 = ucast (drop_bit 52 reg AND 0x7FF) :: u32;
         frac = ucast (drop_bit 29 reg AND 0x7FFFFF) :: u32
     in if exp11 = 0 then push_bit 31 sign
        else let exp8 = (drop_bit 3 exp11 AND 0x80) OR (exp11 AND 0x7F);
                 frac_hi = drop_bit 16 frac AND 0x7F;
                 frac_lo = frac AND 0xFFFF
             in push_bit 31 sign OR push_bit 23 exp8 OR push_bit 16 frac_hi OR frac_lo)"

definition convertG_FloatingToRegister :: "u64 \<Rightarrow> u64" where
  "convertG_FloatingToRegister mem =
    (let w0 = mem AND 0xFFFF; w1 = drop_bit 16 mem AND 0xFFFF;
         w2 = drop_bit 32 mem AND 0xFFFF; w3 = drop_bit 48 mem AND 0xFFFF
     in push_bit 48 w0 OR push_bit 32 w1 OR push_bit 16 w2 OR w3)"

definition convertG_FloatingToMemory :: "u64 \<Rightarrow> u64" where
  "convertG_FloatingToMemory reg =
    (let w0 = reg AND 0xFFFF; w1 = drop_bit 16 reg AND 0xFFFF;
         w2 = drop_bit 32 reg AND 0xFFFF; w3 = drop_bit 48 reg AND 0xFFFF
     in push_bit 48 w0 OR push_bit 32 w1 OR push_bit 16 w2 OR w3)"

section \<open>Round trips\<close>

lemma and_masks_take_bit:
  "v AND 0xFF = take_bit 8 (v :: 'a::len word)" "v AND 0x7F = take_bit 7 v"
  "v AND 0xFFFF = take_bit 16 v" "v AND 0x7FF = take_bit 11 v" "v AND 0x7FFFFF = take_bit 23 v"
  using take_bit_eq_mask [of 7 v] take_bit_eq_mask [of 8 v]
    take_bit_eq_mask [of 16 v] take_bit_eq_mask [of 11 v] take_bit_eq_mask [of 23 v]
  by (simp_all add: mask_numeral)

lemma drop_bit_and_1: "drop_bit n (v :: 'a::len word) AND 1 = of_bool (bit v n)"
  by (simp add: and_one_eq bit_iff_odd_drop_bit mod2_eq_if)

lemma expand8_table:
  "list_all (\<lambda>k. let x = expand8 (word_of_nat k) in
     take_bit 11 x = x \<and> x \<noteq> 0 \<and> x \<noteq> 0x7FF \<and>
     (drop_bit 3 x AND 0x80) OR (x AND 0x7F) = word_of_nat k) [1..<256]"
  by code_simp

lemma expand8_collapse:
  assumes "take_bit 8 e \<noteq> (0 :: u32)"
  shows "let x = expand8 (take_bit 8 e) in
     take_bit 11 x = x \<and> x \<noteq> 0 \<and> x \<noteq> 0x7FF \<and>
     (drop_bit 3 x AND 0x80) OR (x AND 0x7F) = take_bit 8 e"
proof -
  have "unat (take_bit 8 e) < 2 ^ 8"
    unfolding unsigned_take_bit_eq by (rule take_bit_nat_less_exp)
  moreover have "unat (take_bit 8 e) \<noteq> 0" using assms by (simp only: unat_eq_zero not_False_eq_True)
  ultimately have "unat (take_bit 8 e) \<in> set [1..<256]" by (simp only: set_upt) simp
  moreover have "word_of_nat (unat (take_bit 8 e)) = take_bit 8 e" by (simp only: of_nat_unat ucast_id)
  ultimately show ?thesis
    using expand8_table unfolding list_all_iff by metis
qed

text \<open>A register image by its three fields.\<close>

definition regImage :: "bool \<Rightarrow> u32 \<Rightarrow> u32 \<Rightarrow> u64" where
  "regImage s e f = push_bit 63 (of_bool s) OR push_bit 52 (ucast e) OR push_bit 29 (ucast f)"

lemma bit_regImage:
  "bit (regImage s e f) n \<longleftrightarrow> n < 64 \<and> (n = 63 \<and> s \<or> 52 \<le> n \<and> bit e (n - 52) \<or> 29 \<le> n \<and> bit f (n - 29))"
proof -
  have "push_bit 63 (of_bool s) = (if s then 2 ^ 63 else 0 :: u64)"
    by (simp add: push_bit_eq_mult)
  then show ?thesis unfolding regImage_def
    by (auto simp: bit_or_iff bit_push_bit_iff bit_unsigned_iff bit_exp_iff simp del: power_numeral)
qed

lemma take_bit_bound: "take_bit k e = (e :: 'a::len word) \<Longrightarrow> bit e n \<Longrightarrow> n < k"
  by (metis bit_take_bit_iff)

lemma regImage_fields:
  assumes "take_bit 11 e = e" "take_bit 23 f = f"
  shows regImage_sign: "bit (regImage s e f) 63 = s"
    and regImage_exp: "ucast (drop_bit 52 (regImage s e f) AND 0x7FF) = e"
    and regImage_frac: "ucast (drop_bit 29 (regImage s e f) AND 0x7FFFFF) = f"
proof -
  note b = take_bit_bound [OF assms(1)] take_bit_bound [OF assms(2)]
  show "bit (regImage s e f) 63 = s"
    using b(1) [of 11] b(2) [of 34] by (auto simp: bit_regImage)
  show "ucast (drop_bit 52 (regImage s e f) AND 0x7FF) = e"
  proof (rule bit_word_eqI)
    fix n assume "n < LENGTH(32)"
    then show "bit (ucast (drop_bit 52 (regImage s e f) AND 0x7FF) :: u32) n = bit e n"
      using b(1) [of n] b(2) [of "23 + n"]
      by (auto simp: and_masks_take_bit bit_regImage bit_take_bit_iff bit_drop_bit_eq bit_unsigned_iff)
  qed
  show "ucast (drop_bit 29 (regImage s e f) AND 0x7FFFFF) = f"
  proof (rule bit_word_eqI)
    fix n assume "n < LENGTH(32)"
    then show "bit (ucast (drop_bit 29 (regImage s e f) AND 0x7FFFFF) :: u32) n = bit f n"
      using b(2) [of n]
      by (auto simp: and_masks_take_bit bit_regImage bit_take_bit_iff bit_drop_bit_eq bit_unsigned_iff)
  qed
qed


lemma memory_split:
  "push_bit 31 (of_bool (bit m 31)) OR push_bit 23 (take_bit 8 (drop_bit 23 m)) OR take_bit 23 m
     = (m :: u32)"
proof -
  have "push_bit 31 (of_bool (bit m 31)) = (if bit m 31 then 2 ^ 31 else 0 :: u32)"
    by (simp add: push_bit_eq_mult)
  moreover have "n - 23 < 8" if "n < 32" "n \<noteq> 31" "\<not> n < 23" for n :: nat
    using that by arith
  ultimately show ?thesis
    by (intro bit_word_eqI) (auto simp: bit_or_iff bit_push_bit_iff bit_take_bit_iff bit_drop_bit_eq
        bit_exp_iff simp del: power_numeral)
qed

lemma frac_split: "push_bit 16 (take_bit 7 (drop_bit 16 f)) OR take_bit 16 f = take_bit 23 (f :: u32)"
  by (intro bit_word_eqI) (auto simp: bit_simps)

lemma frac_join:
  "push_bit 16 (drop_bit 16 (take_bit 23 f)) AND 0x7F0000 OR take_bit 23 f AND 0xFFFF = take_bit 23 (f :: u32)"
proof -
  have "(0x7F0000 :: u32) = push_bit 16 0x7F" by simp
  then have "push_bit 16 (drop_bit 16 (take_bit 23 f)) AND 0x7F0000
      = push_bit 16 (drop_bit 16 (take_bit 23 f) AND 0x7F)"
    by (simp only: push_bit_and)
  then show ?thesis
    by (intro bit_word_eqI) (auto simp: and_masks_take_bit bit_or_iff bit_push_bit_iff
        bit_take_bit_iff bit_drop_bit_eq simp del: push_bit_and)
qed

lemma convertS_image:
  "convertS_FloatingToRegister m = (if take_bit 8 (drop_bit 23 m) = 0 then regImage (bit m 31) 0 0
     else regImage (bit m 31) (if take_bit 8 (drop_bit 23 m) = 0xFF then 0x7FF else expand8 (take_bit 8 (drop_bit 23 m)))
            (take_bit 23 m))"
  by (simp add: convertS_FloatingToRegister_def Let_def regImage_def drop_bit_and_1 and_masks_take_bit)

lemma convertF_image:
  "convertF_FloatingToRegister m = (if take_bit 8 (drop_bit 23 m) = 0 then regImage (bit m 31) 0 0
     else regImage (bit m 31) (expand8 (take_bit 8 (drop_bit 23 m))) (take_bit 23 m))"
  by (simp add: convertF_FloatingToRegister_def Let_def regImage_def drop_bit_and_1 and_masks_take_bit frac_split)

lemma sign_alone: "(m :: u32) AND 0x80000000 = (if bit m 31 then 0x80000000 else 0)"
proof -
  have "m AND 2 ^ 31 = (if bit m 31 then 2 ^ 31 else 0)"
    by (rule bit_word_eqI) (auto simp: bit_and_iff bit_exp_iff simp del: power_numeral)
  then show ?thesis by simp
qed

lemmas image_simps = drop_bit_and_1 regImage_fields and_masks_take_bit(1) sign_alone

lemma convertS_roundtrip:
  "convertS_FloatingToMemory (convertS_FloatingToRegister m)
     = (if drop_bit 23 m AND 0xFF = 0 then m AND 0x80000000 else m)"
proof -
  let ?e = "take_bit 8 (drop_bit 23 m)"
  note x = expand8_collapse [of "drop_bit 23 m", unfolded Let_def]
  consider "?e = 0" | "?e = 0xFF" | "?e \<noteq> 0" "?e \<noteq> 0xFF" by blast
  then show ?thesis
  proof cases
    case 1
    then show ?thesis
      by (simp add: convertS_image convertS_FloatingToMemory_def image_simps)
  next
    case 2
    have "take_bit 11 (0x7FF :: u32) = 0x7FF" by simp
    then show ?thesis using 2 memory_split [of m]
      by (cases "bit m 31") (simp_all add: convertS_image convertS_FloatingToMemory_def image_simps)
  next
    case 3
    then show ?thesis using x memory_split [of m]
      by (cases "bit m 31") (simp_all add: convertS_image convertS_FloatingToMemory_def image_simps)
  qed
qed

lemma convertF_roundtrip:
  "convertF_FloatingToMemory (convertF_FloatingToRegister m)
     = (if drop_bit 23 m AND 0xFF = 0 then m AND 0x80000000 else m)"
proof (cases "take_bit 8 (drop_bit 23 m) = 0")
  case True
  then show ?thesis
    by (simp add: convertF_image convertF_FloatingToMemory_def image_simps)
next
  case False
  note x = expand8_collapse [OF False, unfolded Let_def]
  show ?thesis using False x memory_split [of m]
    by (cases "bit m 31") (simp_all add: convertF_image convertF_FloatingToMemory_def image_simps frac_join Let_def)
qed

lemma bit_swapWords:
  "bit (convertG_FloatingToRegister m) n \<longleftrightarrow>
     (if n < 16 then bit m (n + 48) else if n < 32 then bit m (n + 16)
      else if n < 48 then bit m (n - 16) else n < 64 \<and> bit m (n - 48))"
  by (auto simp: convertG_FloatingToRegister_def Let_def and_masks_take_bit bit_or_iff bit_push_bit_iff
      bit_take_bit_iff bit_drop_bit_eq ac_simps)

lemma convertG_same: "convertG_FloatingToMemory = convertG_FloatingToRegister"
  by (rule ext) (simp add: convertG_FloatingToMemory_def convertG_FloatingToRegister_def)

lemma convertG_roundtrip: "convertG_FloatingToMemory (convertG_FloatingToRegister g) = g"
  unfolding convertG_same
proof (rule bit_word_eqI)
  fix n assume "n < LENGTH(64)"
  then consider "n < 16" | "16 \<le> n" "n < 32" | "32 \<le> n" "n < 48" | "48 \<le> n" "n < 64" by fastforce
  then show "bit (convertG_FloatingToRegister (convertG_FloatingToRegister g)) n = bit g n"
    by cases (simp_all add: bit_swapWords, linarith+)
qed

text \<open>
  C36. Memory to register and back. T and G data survive unchanged. S and F data survive exactly when
  the 8-bit exponent is not zero; with a zero exponent only the sign survives, which is the value
  itself for a true zero and loses the fraction of an IEEE denormal.
\<close>

theorem fp_format_roundtrip:
  "convertS_FloatingToMemory (convertS_FloatingToRegister m)
     = (if drop_bit 23 m AND 0xFF = 0 then m AND 0x80000000 else m) \<and>
   convertF_FloatingToMemory (convertF_FloatingToRegister m)
     = (if drop_bit 23 m AND 0xFF = 0 then m AND 0x80000000 else m) \<and>
   convertT_FloatingToMemory (convertT_FloatingToRegister q) = q \<and>
   convertG_FloatingToMemory (convertG_FloatingToRegister q) = q"
  by (simp only: convertS_roundtrip convertF_roundtrip convertG_roundtrip
      convertT_FloatingToMemory_def convertT_FloatingToRegister_def simp_thms)

text \<open>The smallest IEEE denormal is stored back as zero.\<close>

lemma denormal_flushed: "convertS_FloatingToMemory (convertS_FloatingToRegister 1) = 0"
  by code_simp

end
