(* ===== verification/Grains.thy ===== *)
theory Grains
  imports Translator ByteOps IntHelpers FpFormat
begin

text \<open>
  The instruction leaves of the emulator: the integer operate group of eBoxLib/grains/IntArith.cpp,
  branches and jumps of iBoxLib/grains/ControlFlow.cpp, loads and stores of
  mBoxLib/grains/LoadStore.cpp, barriers and hints of cBoxLib/grains/CacheOps.cpp, and the
  decode-error leaf of coreLib/OpcDec.cpp. A leaf maps a decoded grain and the resolved operands to
  a BoxResult, the record of the effects the later stages apply; RC, RS and RPCC also read or write
  the processor state through the context's pointer and so take it as an argument.

  Of struct CpuState, Translator holds the part that address translation reads; Cpu extends it with
  the registers the pipeline, the floating point leaves and the PALcode leaves work on, those of the
  cache box (struct CBoxState) among them.
\<close>

section \<open>Data\<close>

record Cpu = CpuState +
  intReg :: "u64 list"
  fpReg :: "u64 list"
  intShadow :: "u64 list"
  cpuSlot :: u32
  i_ctl :: u64
  cycleCount :: u64
  ccOffset :: u64
  intrFlag :: u64
  palPersonality :: u8
  mm_stat :: u64
  cpu_va :: u64
  excAddr :: u64
  palBase :: u64
  errorReg :: u64
  dataReg :: u8
  halted :: bool
  lastFaultCode :: u16
  fpcr :: u64
  ptbr :: u64
  m_ctl :: u64
  warpCycles :: u64
  writeMany :: u64
  shftCtrl :: u8
  ier :: u64
  isum :: u64
  vptb :: u64
  scbb :: u64
  palTemp :: "u64 list"
  ksp :: u64
  esp :: u64
  ssp :: u64
  usp :: u64
  fen :: u64
  asten_sr :: u64
  pcbb :: u64

datatype Box = Ibox | Ebox | Fbox | Mbox | Cbox | PalBox

record InstructionGrain =
  g_pc :: u64
  g_semFlags :: u64
  encoded :: u32
  g_box :: Box
  primaryOp :: u8

record ExecCtx =
  opA :: u64
  opB :: u64
  ctx_cycleCount :: u64
  palMode :: bool

record BoxResult =
  semFlags :: u64
  regWriteValue :: u64
  memAddr :: u64
  memData :: u64
  memPhysAddr :: u64
  divertTarget :: u64
  faultCode :: u16
  regWriteIdx :: u8
  memSize :: u8
  regWriteIsFp :: bool
  memIsStore :: bool
  divert :: bool

definition kNoRegWrite :: u8 where
  "kNoRegWrite = 31"

definition kNoMemEffect :: u8 where
  "kNoMemEffect = 0"

definition kNoFault :: u16 where
  "kNoFault = 0"

definition kFaultOpcDec :: u16 where
  "kFaultOpcDec = 1"

definition kFaultDtbMiss :: u16 where
  "kFaultDtbMiss = 5"

definition kFaultBusError :: u16 where
  "kFaultBusError = 11"

definition kFaultHalt :: u16 where
  "kFaultHalt = 13"

definition kFaultDtbMissDouble :: u16 where
  "kFaultDtbMissDouble = 14"

definition newBoxResult :: BoxResult where
  "newBoxResult = \<lparr>semFlags = 0, regWriteValue = 0, memAddr = 0, memData = 0, memPhysAddr = 0,
     divertTarget = 0, faultCode = kNoFault, regWriteIdx = kNoRegWrite, memSize = kNoMemEffect,
     regWriteIsFp = False, memIsStore = False, divert = False\<rparr>"

section \<open>Semantic flags\<close>

datatype GrainSem =
    S_PalFormat | S_BraFormat | S_MemFormat | S_OpFormat | S_FpFormat | S_HwFormat
  | S_JmpFormat | S_MiscFormat | S_ReadsRa | S_ReadsRb | S_WritesRc | S_HasLit
  | S_WritesRa | S_ReadsInt | S_ReadsFp | S_WritesInt | S_WritesFp | S_Load
  | S_Store | S_Locked | S_PhysAddr | S_NoTbCheck | S_Cacheable | S_ChangesPC
  | S_Uncond | S_Branch | S_Indirect | S_CallBased | S_RetBased | S_Privileged
  | S_PalEntry | S_PalExit | S_OpcDec | S_PalTru64 | S_PalVms | S_PalIntrinsic
  | S_PalLinux | S_FpTrap | S_FpcrRead | S_FpcrWrite | S_VaxFp | S_IprRead
  | S_IprWrite | S_Mb | S_Wmb | S_TrapBarrier | S_ExcBarrier | S_Imb
  | S_NoTrace | S_RpccLike | S_PrefetchOnly | S_WriteHint

primrec flagBit :: "GrainSem \<Rightarrow> nat" where
  "flagBit S_PalFormat = 0"
| "flagBit S_BraFormat = 1"
| "flagBit S_MemFormat = 2"
| "flagBit S_OpFormat = 3"
| "flagBit S_FpFormat = 4"
| "flagBit S_HwFormat = 5"
| "flagBit S_JmpFormat = 6"
| "flagBit S_MiscFormat = 7"
| "flagBit S_ReadsRa = 8"
| "flagBit S_ReadsRb = 9"
| "flagBit S_WritesRc = 10"
| "flagBit S_HasLit = 11"
| "flagBit S_WritesRa = 22"
| "flagBit S_ReadsInt = 12"
| "flagBit S_ReadsFp = 13"
| "flagBit S_WritesInt = 14"
| "flagBit S_WritesFp = 15"
| "flagBit S_Load = 16"
| "flagBit S_Store = 17"
| "flagBit S_Locked = 18"
| "flagBit S_PhysAddr = 19"
| "flagBit S_NoTbCheck = 20"
| "flagBit S_Cacheable = 21"
| "flagBit S_ChangesPC = 24"
| "flagBit S_Uncond = 25"
| "flagBit S_Branch = 26"
| "flagBit S_Indirect = 27"
| "flagBit S_CallBased = 28"
| "flagBit S_RetBased = 29"
| "flagBit S_Privileged = 32"
| "flagBit S_PalEntry = 33"
| "flagBit S_PalExit = 34"
| "flagBit S_OpcDec = 35"
| "flagBit S_PalTru64 = 36"
| "flagBit S_PalVms = 37"
| "flagBit S_PalIntrinsic = 38"
| "flagBit S_PalLinux = 39"
| "flagBit S_FpTrap = 40"
| "flagBit S_FpcrRead = 41"
| "flagBit S_FpcrWrite = 42"
| "flagBit S_VaxFp = 43"
| "flagBit S_IprRead = 48"
| "flagBit S_IprWrite = 49"
| "flagBit S_Mb = 50"
| "flagBit S_Wmb = 51"
| "flagBit S_TrapBarrier = 52"
| "flagBit S_ExcBarrier = 53"
| "flagBit S_Imb = 54"
| "flagBit S_NoTrace = 56"
| "flagBit S_RpccLike = 57"
| "flagBit S_PrefetchOnly = 58"
| "flagBit S_WriteHint = 59"

definition flagSet :: "GrainSem list \<Rightarrow> u64" where
  "flagSet fs = fold (\<lambda>f w. w OR push_bit (flagBit f) 1) fs 0"

definition has :: "u64 \<Rightarrow> GrainSem \<Rightarrow> bool" where
  "has flags f \<longleftrightarrow> flags AND push_bit (flagBit f) 1 \<noteq> 0"

section \<open>Encoding fields\<close>

definition rcIndex :: "InstructionGrain \<Rightarrow> u8" where
  "rcIndex g = ucast (encoded g AND 0x1F)"

definition raIndex :: "InstructionGrain \<Rightarrow> u8" where
  "raIndex g = ucast (drop_bit 21 (encoded g) AND 0x1F)"

definition braDispSext :: "InstructionGrain \<Rightarrow> u64" where
  "braDispSext g = scast (signed_drop_bit 11 (push_bit 11 (encoded g))) * 4"

definition memDispSext :: "InstructionGrain \<Rightarrow> u64" where
  "memDispSext g = scast (ucast (encoded g AND 0xFFFF) :: u16)"

definition hwDispSext :: "InstructionGrain \<Rightarrow> u64" where
  "hwDispSext g = scast (signed_drop_bit 20 (push_bit 20 (encoded g)))"

definition hwQuadSize :: "InstructionGrain \<Rightarrow> u8" where
  "hwQuadSize g = (if drop_bit 12 (encoded g) AND 0x1 \<noteq> 0 then 8 else 4)"

text \<open>The result of an operate-format leaf: Rc receives the value, nothing else happens.\<close>

definition writeRc :: "InstructionGrain \<Rightarrow> u64 \<Rightarrow> BoxResult" where
  "writeRc g v = newBoxResult\<lparr>semFlags := g_semFlags g, regWriteIdx := rcIndex g, regWriteValue := v\<rparr>"

section \<open>Integer operate leaves\<close>

definition byteLane :: "nat \<Rightarrow> u64 \<Rightarrow> u8" where
  "byteLane i w = ucast (drop_bit (i * 8) w)"

definition wordLane :: "nat \<Rightarrow> u64 \<Rightarrow> u16" where
  "wordLane i w = ucast (drop_bit (i * 16) w)"

definition execAmask :: "InstructionGrain \<Rightarrow> ExecCtx \<Rightarrow> BoxResult" where
  "execAmask g c = writeRc g (opB c AND NOT (push_bit 0 1 OR push_bit 1 1 OR push_bit 2 1 OR push_bit 8 1))"

text \<open>
  The longword sums and differences of the source are signed 32-bit expressions, whose overflow C++ leaves
  undefined; they are modelled as the two's complement result that the comments there rely on.
\<close>

definition execAddl :: "InstructionGrain \<Rightarrow> ExecCtx \<Rightarrow> BoxResult" where
  "execAddl g c = writeRc g (scast (ucast (opA c) + ucast (opB c) :: u32))"

definition execSubl :: "InstructionGrain \<Rightarrow> ExecCtx \<Rightarrow> BoxResult" where
  "execSubl g c = writeRc g (scast (ucast (opA c) - ucast (opB c) :: u32))"

definition execAddq :: "InstructionGrain \<Rightarrow> ExecCtx \<Rightarrow> BoxResult" where
  "execAddq g c = writeRc g (opA c + opB c)"

definition execSubq :: "InstructionGrain \<Rightarrow> ExecCtx \<Rightarrow> BoxResult" where
  "execSubq g c = writeRc g (opA c - opB c)"

definition execS4addl :: "InstructionGrain \<Rightarrow> ExecCtx \<Rightarrow> BoxResult" where
  "execS4addl g c = writeRc g (scast (ucast (push_bit 2 (opA c) + opB c) :: u32))"

definition execS4subl :: "InstructionGrain \<Rightarrow> ExecCtx \<Rightarrow> BoxResult" where
  "execS4subl g c = writeRc g (scast (ucast (push_bit 2 (opA c) - opB c) :: u32))"

definition execS8addl :: "InstructionGrain \<Rightarrow> ExecCtx \<Rightarrow> BoxResult" where
  "execS8addl g c = writeRc g (scast (ucast (push_bit 3 (opA c) + opB c) :: u32))"

definition execS8subl :: "InstructionGrain \<Rightarrow> ExecCtx \<Rightarrow> BoxResult" where
  "execS8subl g c = writeRc g (scast (ucast (push_bit 3 (opA c) - opB c) :: u32))"

definition execS4addq :: "InstructionGrain \<Rightarrow> ExecCtx \<Rightarrow> BoxResult" where
  "execS4addq g c = writeRc g (push_bit 2 (opA c) + opB c)"

definition execS4subq :: "InstructionGrain \<Rightarrow> ExecCtx \<Rightarrow> BoxResult" where
  "execS4subq g c = writeRc g (push_bit 2 (opA c) - opB c)"

definition execS8addq :: "InstructionGrain \<Rightarrow> ExecCtx \<Rightarrow> BoxResult" where
  "execS8addq g c = writeRc g (push_bit 3 (opA c) + opB c)"

definition execS8subq :: "InstructionGrain \<Rightarrow> ExecCtx \<Rightarrow> BoxResult" where
  "execS8subq g c = writeRc g (push_bit 3 (opA c) - opB c)"

definition execCmpeq :: "InstructionGrain \<Rightarrow> ExecCtx \<Rightarrow> BoxResult" where
  "execCmpeq g c = writeRc g (if opA c = opB c then 1 else 0)"

definition execCmpult :: "InstructionGrain \<Rightarrow> ExecCtx \<Rightarrow> BoxResult" where
  "execCmpult g c = writeRc g (if opA c < opB c then 1 else 0)"

definition execCmpule :: "InstructionGrain \<Rightarrow> ExecCtx \<Rightarrow> BoxResult" where
  "execCmpule g c = writeRc g (if opA c \<le> opB c then 1 else 0)"

definition execCmplt :: "InstructionGrain \<Rightarrow> ExecCtx \<Rightarrow> BoxResult" where
  "execCmplt g c = writeRc g (if sint (opA c) < sint (opB c) then 1 else 0)"

definition execCmple :: "InstructionGrain \<Rightarrow> ExecCtx \<Rightarrow> BoxResult" where
  "execCmple g c = writeRc g (if sint (opA c) \<le> sint (opB c) then 1 else 0)"

definition execUmulh :: "InstructionGrain \<Rightarrow> ExecCtx \<Rightarrow> BoxResult" where
  "execUmulh g c = writeRc g (umulh (opA c) (opB c))"

definition execMulq :: "InstructionGrain \<Rightarrow> ExecCtx \<Rightarrow> BoxResult" where
  "execMulq g c = writeRc g (opA c * opB c)"

definition execMull :: "InstructionGrain \<Rightarrow> ExecCtx \<Rightarrow> BoxResult" where
  "execMull g c = writeRc g (scast (ucast (opA c) * ucast (opB c) :: u32))"

definition execCtpop :: "InstructionGrain \<Rightarrow> ExecCtx \<Rightarrow> BoxResult" where
  "execCtpop g c = writeRc g (of_nat (popcount (opB c)))"

definition execCtlz :: "InstructionGrain \<Rightarrow> ExecCtx \<Rightarrow> BoxResult" where
  "execCtlz g c = writeRc g (if opB c \<noteq> 0 then 63 - of_nat (highestSetBit (opB c)) else 64)"

definition execCttz :: "InstructionGrain \<Rightarrow> ExecCtx \<Rightarrow> BoxResult" where
  "execCttz g c = writeRc g (if opB c \<noteq> 0 then of_nat (lowestSetBit (opB c)) else 64)"

definition execAnd :: "InstructionGrain \<Rightarrow> ExecCtx \<Rightarrow> BoxResult" where
  "execAnd g c = writeRc g (opA c AND opB c)"

definition execBic :: "InstructionGrain \<Rightarrow> ExecCtx \<Rightarrow> BoxResult" where
  "execBic g c = writeRc g (opA c AND NOT (opB c))"

definition execBis :: "InstructionGrain \<Rightarrow> ExecCtx \<Rightarrow> BoxResult" where
  "execBis g c = writeRc g (opA c OR opB c)"

definition execEqv :: "InstructionGrain \<Rightarrow> ExecCtx \<Rightarrow> BoxResult" where
  "execEqv g c = writeRc g (NOT (opA c XOR opB c))"

definition execOrnot :: "InstructionGrain \<Rightarrow> ExecCtx \<Rightarrow> BoxResult" where
  "execOrnot g c = writeRc g (opA c OR NOT (opB c))"

definition execXor :: "InstructionGrain \<Rightarrow> ExecCtx \<Rightarrow> BoxResult" where
  "execXor g c = writeRc g (opA c XOR opB c)"

text \<open>A conditional move whose condition fails names the zero register, so nothing is written.\<close>

definition writeRcIf :: "bool \<Rightarrow> InstructionGrain \<Rightarrow> u64 \<Rightarrow> BoxResult" where
  "writeRcIf met g v = newBoxResult\<lparr>semFlags := g_semFlags g,
     regWriteIdx := (if met then rcIndex g else kNoRegWrite),
     regWriteValue := (if met then v else 0)\<rparr>"

definition execCmoveq :: "InstructionGrain \<Rightarrow> ExecCtx \<Rightarrow> BoxResult" where
  "execCmoveq g c = writeRcIf (opA c = 0) g (opB c)"

definition execCmovne :: "InstructionGrain \<Rightarrow> ExecCtx \<Rightarrow> BoxResult" where
  "execCmovne g c = writeRcIf (opA c \<noteq> 0) g (opB c)"

definition execCmovlt :: "InstructionGrain \<Rightarrow> ExecCtx \<Rightarrow> BoxResult" where
  "execCmovlt g c = writeRcIf (sint (opA c) < 0) g (opB c)"

definition execCmovge :: "InstructionGrain \<Rightarrow> ExecCtx \<Rightarrow> BoxResult" where
  "execCmovge g c = writeRcIf (sint (opA c) \<ge> 0) g (opB c)"

definition execCmovle :: "InstructionGrain \<Rightarrow> ExecCtx \<Rightarrow> BoxResult" where
  "execCmovle g c = writeRcIf (sint (opA c) \<le> 0) g (opB c)"

definition execCmovgt :: "InstructionGrain \<Rightarrow> ExecCtx \<Rightarrow> BoxResult" where
  "execCmovgt g c = writeRcIf (sint (opA c) > 0) g (opB c)"

definition execCmovlbs :: "InstructionGrain \<Rightarrow> ExecCtx \<Rightarrow> BoxResult" where
  "execCmovlbs g c = writeRcIf (opA c AND 1 \<noteq> 0) g (opB c)"

definition execCmovlbc :: "InstructionGrain \<Rightarrow> ExecCtx \<Rightarrow> BoxResult" where
  "execCmovlbc g c = writeRcIf (opA c AND 1 = 0) g (opB c)"

definition execSll :: "InstructionGrain \<Rightarrow> ExecCtx \<Rightarrow> BoxResult" where
  "execSll g c = writeRc g (push_bit (unat (opB c AND 0x3F)) (opA c))"

definition execSrl :: "InstructionGrain \<Rightarrow> ExecCtx \<Rightarrow> BoxResult" where
  "execSrl g c = writeRc g (drop_bit (unat (opB c AND 0x3F)) (opA c))"

definition execSra :: "InstructionGrain \<Rightarrow> ExecCtx \<Rightarrow> BoxResult" where
  "execSra g c = writeRc g (signed_drop_bit (unat (opB c AND 0x3F)) (opA c))"

definition execCmpbge :: "InstructionGrain \<Rightarrow> ExecCtx \<Rightarrow> BoxResult" where
  "execCmpbge g c = writeRc g (fold (\<lambda>i result. if byteLane i (opB c) \<le> byteLane i (opA c)
      then result OR push_bit i 1 else result) [0..<8] 0)"

definition execExtbl :: "InstructionGrain \<Rightarrow> ExecCtx \<Rightarrow> BoxResult" where
  "execExtbl g c = writeRc g (extbl (opA c) (opB c))"

definition execExtwl :: "InstructionGrain \<Rightarrow> ExecCtx \<Rightarrow> BoxResult" where
  "execExtwl g c = writeRc g (extwl (opA c) (opB c))"

definition execExtll :: "InstructionGrain \<Rightarrow> ExecCtx \<Rightarrow> BoxResult" where
  "execExtll g c = writeRc g (extll (opA c) (opB c))"

definition execExtql :: "InstructionGrain \<Rightarrow> ExecCtx \<Rightarrow> BoxResult" where
  "execExtql g c = writeRc g (extql (opA c) (opB c))"

definition execExtwh :: "InstructionGrain \<Rightarrow> ExecCtx \<Rightarrow> BoxResult" where
  "execExtwh g c = writeRc g (extwh (opA c) (opB c))"

definition execExtlh :: "InstructionGrain \<Rightarrow> ExecCtx \<Rightarrow> BoxResult" where
  "execExtlh g c = writeRc g (extlh (opA c) (opB c))"

definition execExtqh :: "InstructionGrain \<Rightarrow> ExecCtx \<Rightarrow> BoxResult" where
  "execExtqh g c = writeRc g (extqh (opA c) (opB c))"

definition execInsbl :: "InstructionGrain \<Rightarrow> ExecCtx \<Rightarrow> BoxResult" where
  "execInsbl g c = writeRc g (insbl (opA c) (opB c))"

definition execInswl :: "InstructionGrain \<Rightarrow> ExecCtx \<Rightarrow> BoxResult" where
  "execInswl g c = writeRc g (inswl (opA c) (opB c))"

definition execInsll :: "InstructionGrain \<Rightarrow> ExecCtx \<Rightarrow> BoxResult" where
  "execInsll g c = writeRc g (insll (opA c) (opB c))"

definition execInsql :: "InstructionGrain \<Rightarrow> ExecCtx \<Rightarrow> BoxResult" where
  "execInsql g c = writeRc g (insql (opA c) (opB c))"

definition execInswh :: "InstructionGrain \<Rightarrow> ExecCtx \<Rightarrow> BoxResult" where
  "execInswh g c = writeRc g (inswh (opA c) (opB c))"

definition execInslh :: "InstructionGrain \<Rightarrow> ExecCtx \<Rightarrow> BoxResult" where
  "execInslh g c = writeRc g (inslh (opA c) (opB c))"

definition execInsqh :: "InstructionGrain \<Rightarrow> ExecCtx \<Rightarrow> BoxResult" where
  "execInsqh g c = writeRc g (insqh (opA c) (opB c))"

definition execMskbl :: "InstructionGrain \<Rightarrow> ExecCtx \<Rightarrow> BoxResult" where
  "execMskbl g c = writeRc g (mskbl (opA c) (opB c))"

definition execMskwl :: "InstructionGrain \<Rightarrow> ExecCtx \<Rightarrow> BoxResult" where
  "execMskwl g c = writeRc g (mskwl (opA c) (opB c))"

definition execMskll :: "InstructionGrain \<Rightarrow> ExecCtx \<Rightarrow> BoxResult" where
  "execMskll g c = writeRc g (mskll (opA c) (opB c))"

definition execMskql :: "InstructionGrain \<Rightarrow> ExecCtx \<Rightarrow> BoxResult" where
  "execMskql g c = writeRc g (mskql (opA c) (opB c))"

definition execMskwh :: "InstructionGrain \<Rightarrow> ExecCtx \<Rightarrow> BoxResult" where
  "execMskwh g c = writeRc g (mskwh (opA c) (opB c))"

definition execMsklh :: "InstructionGrain \<Rightarrow> ExecCtx \<Rightarrow> BoxResult" where
  "execMsklh g c = writeRc g (msklh (opA c) (opB c))"

definition execMskqh :: "InstructionGrain \<Rightarrow> ExecCtx \<Rightarrow> BoxResult" where
  "execMskqh g c = writeRc g (mskqh (opA c) (opB c))"

definition execSextb :: "InstructionGrain \<Rightarrow> ExecCtx \<Rightarrow> BoxResult" where
  "execSextb g c = writeRc g (scast (ucast (opB c) :: u8))"

definition execSextw :: "InstructionGrain \<Rightarrow> ExecCtx \<Rightarrow> BoxResult" where
  "execSextw g c = writeRc g (scast (ucast (opB c) :: u16))"

definition execZap :: "InstructionGrain \<Rightarrow> ExecCtx \<Rightarrow> BoxResult" where
  "execZap g c = writeRc g (zap (opA c) (opB c))"

definition execZapnot :: "InstructionGrain \<Rightarrow> ExecCtx \<Rightarrow> BoxResult" where
  "execZapnot g c = writeRc g (zapnot (opA c) (opB c))"

definition execMaxub8 :: "InstructionGrain \<Rightarrow> ExecCtx \<Rightarrow> BoxResult" where
  "execMaxub8 g c = writeRc g (fold (\<lambda>i result. result OR push_bit (8 * i) (ucast
      (if byteLane i (opA c) > byteLane i (opB c) then byteLane i (opA c) else byteLane i (opB c)))) [0..<8] 0)"

definition execMaxsb8 :: "InstructionGrain \<Rightarrow> ExecCtx \<Rightarrow> BoxResult" where
  "execMaxsb8 g c = writeRc g (fold (\<lambda>i result. result OR push_bit (8 * i) (ucast
      (if sint (byteLane i (opA c)) > sint (byteLane i (opB c)) then byteLane i (opA c) else byteLane i (opB c)))) [0..<8] 0)"

definition execMaxuw4 :: "InstructionGrain \<Rightarrow> ExecCtx \<Rightarrow> BoxResult" where
  "execMaxuw4 g c = writeRc g (fold (\<lambda>i result. result OR push_bit (16 * i) (ucast
      (if wordLane i (opA c) > wordLane i (opB c) then wordLane i (opA c) else wordLane i (opB c)))) [0..<4] 0)"

definition execMaxsw4 :: "InstructionGrain \<Rightarrow> ExecCtx \<Rightarrow> BoxResult" where
  "execMaxsw4 g c = writeRc g (fold (\<lambda>i result. result OR push_bit (16 * i) (ucast
      (if sint (wordLane i (opA c)) > sint (wordLane i (opB c)) then wordLane i (opA c) else wordLane i (opB c)))) [0..<4] 0)"

definition execMinub8 :: "InstructionGrain \<Rightarrow> ExecCtx \<Rightarrow> BoxResult" where
  "execMinub8 g c = writeRc g (fold (\<lambda>i result. result OR push_bit (8 * i) (ucast
      (if byteLane i (opA c) < byteLane i (opB c) then byteLane i (opA c) else byteLane i (opB c)))) [0..<8] 0)"

definition execMinsb8 :: "InstructionGrain \<Rightarrow> ExecCtx \<Rightarrow> BoxResult" where
  "execMinsb8 g c = writeRc g (fold (\<lambda>i result. result OR push_bit (8 * i) (ucast
      (if sint (byteLane i (opA c)) < sint (byteLane i (opB c)) then byteLane i (opA c) else byteLane i (opB c)))) [0..<8] 0)"

definition execMinuw4 :: "InstructionGrain \<Rightarrow> ExecCtx \<Rightarrow> BoxResult" where
  "execMinuw4 g c = writeRc g (fold (\<lambda>i result. result OR push_bit (16 * i) (ucast
      (if wordLane i (opA c) < wordLane i (opB c) then wordLane i (opA c) else wordLane i (opB c)))) [0..<4] 0)"

definition execMinsw4 :: "InstructionGrain \<Rightarrow> ExecCtx \<Rightarrow> BoxResult" where
  "execMinsw4 g c = writeRc g (fold (\<lambda>i result. result OR push_bit (16 * i) (ucast
      (if sint (wordLane i (opA c)) < sint (wordLane i (opB c)) then wordLane i (opA c) else wordLane i (opB c)))) [0..<4] 0)"

definition execPerr :: "InstructionGrain \<Rightarrow> ExecCtx \<Rightarrow> BoxResult" where
  "execPerr g c = writeRc g (fold (\<lambda>i result. result + (if byteLane i (opB c) \<le> byteLane i (opA c)
      then ucast (byteLane i (opA c)) - ucast (byteLane i (opB c))
      else ucast (byteLane i (opB c)) - ucast (byteLane i (opA c)))) [0..<8] 0)"

definition execUnpkbw :: "InstructionGrain \<Rightarrow> ExecCtx \<Rightarrow> BoxResult" where
  "execUnpkbw g c = writeRc g (push_bit 0 (drop_bit 0 (opB c) AND 0xFF)
      OR push_bit 16 (drop_bit 8 (opB c) AND 0xFF)
      OR push_bit 32 (drop_bit 16 (opB c) AND 0xFF)
      OR push_bit 48 (drop_bit 24 (opB c) AND 0xFF))"

definition execUnpkbl :: "InstructionGrain \<Rightarrow> ExecCtx \<Rightarrow> BoxResult" where
  "execUnpkbl g c = writeRc g (push_bit 0 (drop_bit 0 (opB c) AND 0xFF)
      OR push_bit 32 (drop_bit 8 (opB c) AND 0xFF))"

definition execPkwb :: "InstructionGrain \<Rightarrow> ExecCtx \<Rightarrow> BoxResult" where
  "execPkwb g c = writeRc g (push_bit 0 (drop_bit 0 (opB c) AND 0xFF)
      OR push_bit 8 (drop_bit 16 (opB c) AND 0xFF)
      OR push_bit 16 (drop_bit 32 (opB c) AND 0xFF)
      OR push_bit 24 (drop_bit 48 (opB c) AND 0xFF))"

definition execPklb :: "InstructionGrain \<Rightarrow> ExecCtx \<Rightarrow> BoxResult" where
  "execPklb g c = writeRc g (push_bit 0 (drop_bit 0 (opB c) AND 0xFF)
      OR push_bit 8 (drop_bit 32 (opB c) AND 0xFF))"

definition execImplver :: "InstructionGrain \<Rightarrow> ExecCtx \<Rightarrow> BoxResult" where
  "execImplver g c = writeRc g (2)"

definition execFtoit :: "InstructionGrain \<Rightarrow> ExecCtx \<Rightarrow> BoxResult" where
  "execFtoit g c = writeRc g (opA c)"

definition execItoft :: "InstructionGrain \<Rightarrow> ExecCtx \<Rightarrow> BoxResult" where
  "execItoft g c = (writeRc g (opA c))\<lparr>regWriteIsFp := True\<rparr>"

definition execItofs :: "InstructionGrain \<Rightarrow> ExecCtx \<Rightarrow> BoxResult" where
  "execItofs g c = (writeRc g (convertS_FloatingToRegister (ucast (opA c))))\<lparr>regWriteIsFp := True\<rparr>"

definition execItoff :: "InstructionGrain \<Rightarrow> ExecCtx \<Rightarrow> BoxResult" where
  "execItoff g c = (writeRc g (convertF_FloatingToRegister (ucast (opA c))))\<lparr>regWriteIsFp := True\<rparr>"

section \<open>Leaves that touch the processor state\<close>

definition writeRa :: "InstructionGrain \<Rightarrow> u64 \<Rightarrow> BoxResult" where
  "writeRa g v = newBoxResult\<lparr>semFlags := g_semFlags g, regWriteIdx := raIndex g, regWriteValue := v\<rparr>"

definition kCcMultiplier :: u64 where
  "kCcMultiplier = 1"

definition execRc :: "InstructionGrain \<Rightarrow> Cpu \<Rightarrow> BoxResult \<times> Cpu" where
  "execRc g cpu = (writeRa g (intrFlag cpu), cpu\<lparr>intrFlag := 0\<rparr>)"

definition execRs :: "InstructionGrain \<Rightarrow> Cpu \<Rightarrow> BoxResult \<times> Cpu" where
  "execRs g cpu = (writeRa g (intrFlag cpu), cpu\<lparr>intrFlag := 1\<rparr>)"

definition execRpcc :: "InstructionGrain \<Rightarrow> Cpu \<Rightarrow> BoxResult" where
  "execRpcc g cpu = writeRa g ((cycleCount cpu + ccOffset cpu) * kCcMultiplier)"

section \<open>Branches and jumps\<close>

definition branchTarget :: "InstructionGrain \<Rightarrow> u64" where
  "branchTarget g = g_pc g + 4 + braDispSext g"

definition linkValue :: "InstructionGrain \<Rightarrow> u64" where
  "linkValue g = (g_pc g + 4) AND NOT 3"

definition execBr :: "InstructionGrain \<Rightarrow> ExecCtx \<Rightarrow> BoxResult" where
  "execBr g c = (writeRa g (linkValue g))\<lparr>divertTarget := branchTarget g, divert := True\<rparr>"

definition execBsr :: "InstructionGrain \<Rightarrow> ExecCtx \<Rightarrow> BoxResult" where
  "execBsr g c = (writeRa g (linkValue g))\<lparr>divertTarget := branchTarget g, divert := True\<rparr>"

definition condBranch :: "bool \<Rightarrow> InstructionGrain \<Rightarrow> BoxResult" where
  "condBranch taken g = newBoxResult\<lparr>semFlags := g_semFlags g, divert := taken,
     divertTarget := (if taken then branchTarget g else 0)\<rparr>"

definition execBeq :: "InstructionGrain \<Rightarrow> ExecCtx \<Rightarrow> BoxResult" where
  "execBeq g c = condBranch (opA c = 0) g"

definition execBne :: "InstructionGrain \<Rightarrow> ExecCtx \<Rightarrow> BoxResult" where
  "execBne g c = condBranch (opA c \<noteq> 0) g"

definition execBlt :: "InstructionGrain \<Rightarrow> ExecCtx \<Rightarrow> BoxResult" where
  "execBlt g c = condBranch (sint (opA c) < 0) g"

definition execBge :: "InstructionGrain \<Rightarrow> ExecCtx \<Rightarrow> BoxResult" where
  "execBge g c = condBranch (sint (opA c) \<ge> 0) g"

definition execBle :: "InstructionGrain \<Rightarrow> ExecCtx \<Rightarrow> BoxResult" where
  "execBle g c = condBranch (sint (opA c) \<le> 0) g"

definition execBgt :: "InstructionGrain \<Rightarrow> ExecCtx \<Rightarrow> BoxResult" where
  "execBgt g c = condBranch (sint (opA c) > 0) g"

definition execBlbc :: "InstructionGrain \<Rightarrow> ExecCtx \<Rightarrow> BoxResult" where
  "execBlbc g c = condBranch (opA c AND 1 = 0) g"

definition execBlbs :: "InstructionGrain \<Rightarrow> ExecCtx \<Rightarrow> BoxResult" where
  "execBlbs g c = condBranch (opA c AND 1 \<noteq> 0) g"

definition indirectJump :: "InstructionGrain \<Rightarrow> ExecCtx \<Rightarrow> BoxResult" where
  "indirectJump g c = (writeRa g (linkValue g))\<lparr>
     divertTarget := (opB c AND NOT 0x3) OR (g_pc g AND 1), divert := True\<rparr>"

definition execJmp :: "InstructionGrain \<Rightarrow> ExecCtx \<Rightarrow> BoxResult" where
  "execJmp g c = indirectJump g c"

definition execJsr :: "InstructionGrain \<Rightarrow> ExecCtx \<Rightarrow> BoxResult" where
  "execJsr g c = indirectJump g c"

definition execRet :: "InstructionGrain \<Rightarrow> ExecCtx \<Rightarrow> BoxResult" where
  "execRet g c = indirectJump g c"

definition execJsrCoroutine :: "InstructionGrain \<Rightarrow> ExecCtx \<Rightarrow> BoxResult" where
  "execJsrCoroutine g c = indirectJump g c"

section \<open>Loads and stores\<close>

definition effAddr :: "InstructionGrain \<Rightarrow> ExecCtx \<Rightarrow> u64" where
  "effAddr g c = opB c + memDispSext g"

definition loadRa :: "InstructionGrain \<Rightarrow> u64 \<Rightarrow> u8 \<Rightarrow> BoxResult" where
  "loadRa g ea sz = newBoxResult\<lparr>semFlags := g_semFlags g, regWriteIdx := raIndex g,
     memAddr := ea, memSize := sz\<rparr>"

definition storeRa :: "InstructionGrain \<Rightarrow> ExecCtx \<Rightarrow> u64 \<Rightarrow> u8 \<Rightarrow> BoxResult" where
  "storeRa g c ea sz = newBoxResult\<lparr>semFlags := g_semFlags g, regWriteIdx := kNoRegWrite,
     memAddr := ea, memData := opA c, memSize := sz, memIsStore := True\<rparr>"

definition execLda :: "InstructionGrain \<Rightarrow> ExecCtx \<Rightarrow> BoxResult" where
  "execLda g c = writeRa g (opB c + memDispSext g)"

definition execLdah :: "InstructionGrain \<Rightarrow> ExecCtx \<Rightarrow> BoxResult" where
  "execLdah g c = writeRa g (opB c + push_bit 16 (memDispSext g))"

definition execLdbu :: "InstructionGrain \<Rightarrow> ExecCtx \<Rightarrow> BoxResult" where
  "execLdbu g c = loadRa g (effAddr g c) 1"

definition execLdwu :: "InstructionGrain \<Rightarrow> ExecCtx \<Rightarrow> BoxResult" where
  "execLdwu g c = loadRa g (effAddr g c) 2"

definition execLdl :: "InstructionGrain \<Rightarrow> ExecCtx \<Rightarrow> BoxResult" where
  "execLdl g c = loadRa g (effAddr g c) 4"

definition execLdq :: "InstructionGrain \<Rightarrow> ExecCtx \<Rightarrow> BoxResult" where
  "execLdq g c = loadRa g (effAddr g c) 8"

definition execLdqU :: "InstructionGrain \<Rightarrow> ExecCtx \<Rightarrow> BoxResult" where
  "execLdqU g c = loadRa g (effAddr g c AND NOT 0x7) 8"

definition execLdlL :: "InstructionGrain \<Rightarrow> ExecCtx \<Rightarrow> BoxResult" where
  "execLdlL g c = loadRa g (effAddr g c) 4"

definition execLdqL :: "InstructionGrain \<Rightarrow> ExecCtx \<Rightarrow> BoxResult" where
  "execLdqL g c = loadRa g (effAddr g c) 8"

definition execStb :: "InstructionGrain \<Rightarrow> ExecCtx \<Rightarrow> BoxResult" where
  "execStb g c = storeRa g c (effAddr g c) 1"

definition execStw :: "InstructionGrain \<Rightarrow> ExecCtx \<Rightarrow> BoxResult" where
  "execStw g c = storeRa g c (effAddr g c) 2"

definition execStl :: "InstructionGrain \<Rightarrow> ExecCtx \<Rightarrow> BoxResult" where
  "execStl g c = storeRa g c (effAddr g c) 4"

definition execStq :: "InstructionGrain \<Rightarrow> ExecCtx \<Rightarrow> BoxResult" where
  "execStq g c = storeRa g c (effAddr g c) 8"

definition execStqU :: "InstructionGrain \<Rightarrow> ExecCtx \<Rightarrow> BoxResult" where
  "execStqU g c = storeRa g c (effAddr g c AND NOT 0x7) 8"

definition execStlC :: "InstructionGrain \<Rightarrow> ExecCtx \<Rightarrow> BoxResult" where
  "execStlC g c = (storeRa g c (effAddr g c) 4)\<lparr>regWriteIdx := raIndex g\<rparr>"

definition execStqC :: "InstructionGrain \<Rightarrow> ExecCtx \<Rightarrow> BoxResult" where
  "execStqC g c = (storeRa g c (effAddr g c) 8)\<lparr>regWriteIdx := raIndex g\<rparr>"

definition execHwLd :: "InstructionGrain \<Rightarrow> ExecCtx \<Rightarrow> BoxResult" where
  "execHwLd g c = loadRa g (opB c + hwDispSext g) (hwQuadSize g)"

definition execHwSt :: "InstructionGrain \<Rightarrow> ExecCtx \<Rightarrow> BoxResult" where
  "execHwSt g c = storeRa g c (opB c + hwDispSext g) (hwQuadSize g)"

definition execFetch :: "InstructionGrain \<Rightarrow> ExecCtx \<Rightarrow> BoxResult" where
  "execFetch g c = newBoxResult\<lparr>semFlags := g_semFlags g\<rparr>"

section \<open>Barriers, hints and the decode error\<close>

definition execTrapb :: "InstructionGrain \<Rightarrow> ExecCtx \<Rightarrow> BoxResult" where
  "execTrapb g c = newBoxResult\<lparr>semFlags := g_semFlags g\<rparr>"

definition execExcb :: "InstructionGrain \<Rightarrow> ExecCtx \<Rightarrow> BoxResult" where
  "execExcb g c = newBoxResult\<lparr>semFlags := g_semFlags g\<rparr>"

definition execMb :: "InstructionGrain \<Rightarrow> ExecCtx \<Rightarrow> BoxResult" where
  "execMb g c = newBoxResult\<lparr>semFlags := g_semFlags g\<rparr>"

definition execWmb :: "InstructionGrain \<Rightarrow> ExecCtx \<Rightarrow> BoxResult" where
  "execWmb g c = newBoxResult\<lparr>semFlags := g_semFlags g\<rparr>"

definition execEcb :: "InstructionGrain \<Rightarrow> ExecCtx \<Rightarrow> BoxResult" where
  "execEcb g c = newBoxResult\<lparr>semFlags := g_semFlags g\<rparr>"

definition execOpcDec :: "InstructionGrain \<Rightarrow> ExecCtx \<Rightarrow> BoxResult" where
  "execOpcDec g c = newBoxResult\<lparr>semFlags := g_semFlags g OR flagSet [S_OpcDec], faultCode := kFaultOpcDec\<rparr>"

section \<open>Arithmetic facts\<close>

lemma sint_scast_u32: "sint (scast (w :: u32) :: u64) = sint w"
  by (rule sint_up_scast) (simp add: is_up)

lemma sint_scast_u16: "sint (scast (w :: u16) :: u64) = sint w"
  by (rule sint_up_scast) (simp add: is_up)

lemma sint_scast_u8: "sint (scast (w :: u8) :: u64) = sint w"
  by (rule sint_up_scast) (simp add: is_up)

lemma low_of_int:
  "(ucast (x :: u64) :: u32) = of_int (sint x)"
  "(ucast (x :: u64) :: u16) = of_int (sint x)"
  "(ucast (x :: u64) :: u8) = of_int (sint x)"
  by (rule bit_word_eqI; simp add: bit_simps bit_signed_iff)+

lemma sint_of_int:
  "sint (of_int k :: u32) = signed_take_bit 31 k"
  "sint (of_int k :: u16) = signed_take_bit 15 k"
  "sint (of_int k :: u8) = signed_take_bit 7 k"
  by (simp_all add: signed_of_int)
lemma writeRc_simps [simp]:
  "regWriteValue (writeRc g v) = v" "regWriteIdx (writeRc g v) = rcIndex g"
  "faultCode (writeRc g v) = kNoFault" "memSize (writeRc g v) = kNoMemEffect"
  "divert (writeRc g v) = False" "regWriteIsFp (writeRc g v) = False" "semFlags (writeRc g v) = g_semFlags g"
  by (simp_all add: writeRc_def newBoxResult_def)

lemma push_bit_of_int: "push_bit k (x :: u64) + y = of_int (2 ^ k * sint x + sint y)"
  "push_bit k x - y = of_int (2 ^ k * sint x - sint y)"
  by (simp_all add: push_bit_eq_mult mult.commute)

lemma ucast_of_int: "(ucast (of_int k :: u64) :: u32) = of_int k"
  by (rule bit_word_eqI) (simp add: bit_simps)

lemma sint_scaled:
  "sint (scast (ucast (push_bit k x + y :: u64) :: u32) :: u64) = signed_take_bit 31 (2 ^ k * sint x + sint y)"
  "sint (scast (ucast (push_bit k x - y :: u64) :: u32) :: u64) = signed_take_bit 31 (2 ^ k * sint x - sint y)"
  unfolding push_bit_of_int ucast_of_int sint_scast_u32 sint_of_int by simp_all

lemma sint_long_ops:
  "sint (scast (ucast x + ucast y :: u32) :: u64) = signed_take_bit 31 (sint (x :: u64) + sint (y :: u64))"
  "sint (scast (ucast x - ucast y :: u32) :: u64) = signed_take_bit 31 (sint (x :: u64) - sint (y :: u64))"
  "sint (scast (ucast x * ucast y :: u32) :: u64) = signed_take_bit 31 (sint (x :: u64) * sint (y :: u64))"
  unfolding sint_scast_u32 low_of_int of_int_add [symmetric] of_int_diff [symmetric]
    of_int_mult [symmetric] sint_of_int by simp_all

lemma mul_parts: "uint (umulh a b) * 2 ^ 64 + uint (a * b) = uint a * uint (b :: u64)"
proof -
  have "uint (umulh a b) = uint a * uint b div 2 ^ 64"
    by (rule umulh_spec)
  moreover have "uint (a * b) = uint a * uint b mod 2 ^ 64"
    by (simp add: uint_word_ariths)
  ultimately show ?thesis by simp
qed

lemma shift_amount: "unat (b AND 0x3F :: u64) = unat b mod 64"
proof -
  have "b AND 0x3F = take_bit 6 b" using take_bit_eq_mask [of 6 b] by (simp add: mask_numeral)
  then show ?thesis by (simp add: take_bit_eq_mod unat_mod_distrib)
qed

lemma sint_signed_drop_bit: "sint (signed_drop_bit k (a :: u64)) = sint a div 2 ^ k"
  by (simp add: sint_signed_drop_bit_eq drop_bit_eq_div)

lemma uint_scaled:
  "uint (push_bit k a + b :: u64) = (2 ^ k * uint a + uint b) mod 2 ^ 64"
  "uint (push_bit k a - b :: u64) = (2 ^ k * uint a - uint b) mod 2 ^ 64"
proof -
  have "push_bit k a + b = of_int (2 ^ k * uint a + uint b)"
    "push_bit k a - b = of_int (2 ^ k * uint a - uint b)"
    by (simp_all add: push_bit_eq_mult mult.commute)
  then show "uint (push_bit k a + b) = (2 ^ k * uint a + uint b) mod 2 ^ 64"
    "uint (push_bit k a - b) = (2 ^ k * uint a - uint b) mod 2 ^ 64"
    by (simp_all only: uint_word_of_int len_of_numeral_defs) simp_all
qed

lemma uint_shifts:
  "uint (push_bit k a :: u64) = (uint a * 2 ^ k) mod 2 ^ 64"
  "uint (drop_bit k a :: u64) = uint a div 2 ^ k"
proof -
  have t: "take_bit 64 (uint a) = uint a"
    using uint_lt2p [of a] by (simp add: take_bit_int_eq_self_iff)
  show "uint (push_bit k a) = (uint a * 2 ^ k) mod 2 ^ 64"
    using uint_scaled(1) [of k a 0] by (simp add: mult.commute)
  show "uint (drop_bit k a) = uint a div 2 ^ k"
    using unsigned_drop_bit_eq [of k a, where ?'a = int] by (simp add: t drop_bit_eq_div)
qed

lemma sint_sext:
  "sint (scast (ucast (x :: u64) :: u8) :: u64) = signed_take_bit 7 (sint x)"
  "sint (scast (ucast (x :: u64) :: u16) :: u64) = signed_take_bit 15 (sint x)"
  unfolding sint_scast_u16 sint_scast_u8 low_of_int sint_of_int by simp_all

lemma highestSetBit_Max: "v \<noteq> 0 \<Longrightarrow> highestSetBit v = Max {n. bit v n}"
proof -
  assume "v \<noteq> 0"
  then have "bit v (highestSetBit v)" "\<forall>n > highestSetBit v. \<not> bit v n"
    using highestSetBit_loop_bit [of v 63] bit_imp_le_length [of v] by (force simp: highestSetBit_def)+
  then show ?thesis by (intro Max_eqI [symmetric]) (auto simp: finite_bits not_less [symmetric])
qed

lemma lowestSetBit_Min: "v \<noteq> 0 \<Longrightarrow> lowestSetBit v = Min {n. bit v n}"
proof -
  assume "v \<noteq> 0"
  then have "bit v (lowestSetBit v)" "\<forall>n < lowestSetBit v. \<not> bit v n"
    using lowestSetBit_loop_bit [of v 0] by (auto simp: lowestSetBit_def)
  then show ?thesis by (intro Min_eqI [symmetric]) (auto simp: finite_bits not_less [symmetric])
qed

lemma bit_index_less: "v \<noteq> 0 \<Longrightarrow> Max {n. bit (v :: u64) n} < 64 \<and> Min {n. bit v n} < 64"
proof -
  assume v: "v \<noteq> 0"
  then have "{n. bit v n} \<noteq> {}" by (auto simp: bit_eq_iff)
  then have "Max {n. bit v n} \<in> {n. bit v n}" "Min {n. bit v n} \<in> {n. bit v n}"
    by (intro Max_in Min_in finite_bits, assumption)+
  then show ?thesis using bit_imp_le_length [of v] by auto
qed

text \<open>The leaves that form one result from two operands and write it to Rc, by name.\<close>

definition arithLeaves :: "(InstructionGrain \<Rightarrow> ExecCtx \<Rightarrow> BoxResult) list" where
  "arithLeaves = [execAddl, execSubl, execMull, execS4addl, execS4subl, execS8addl, execS8subl, execAddq,
     execSubq, execS4addq, execS4subq, execS8addq, execS8subq, execUmulh, execMulq, execCmpeq, execCmpult,
     execCmpule, execCmplt, execCmple, execSll, execSrl, execSra, execSextb, execSextw, execCtpop, execCtlz,
     execCttz]"

lemma arith_leaves_write_rc:
  "list_all (\<lambda>leaf. leaf g c = newBoxResult\<lparr>semFlags := g_semFlags g, regWriteIdx := ucast (encoded g AND 0x1F),
     regWriteIsFp := False, regWriteValue := regWriteValue (leaf g c)\<rparr>) arithLeaves"
  unfolding arithLeaves_def list.pred_inject
  by (intro conjI; simp add: writeRc_def rcIndex_def newBoxResult_def execAddl_def execSubl_def execMull_def
      execS4addl_def execS4subl_def execS8addl_def execS8subl_def execAddq_def execSubq_def execS4addq_def
      execS4subq_def execS8addq_def execS8subq_def execUmulh_def execMulq_def execCmpeq_def execCmpult_def
      execCmpule_def execCmplt_def execCmple_def execSll_def execSrl_def execSra_def execSextb_def
      execSextw_def execCtpop_def execCtlz_def execCttz_def)

text \<open>
  C13. The 28 add, subtract, scaled, multiply, compare, shift, sign extension and bit count leaves have the
  one effect of writing integer register Rc, the register in the low five bits of the instruction word,
  and the value is the architecturally specified mathematical result on every
  operand: longword forms sign-extend the exact sum, difference, scaled sum or product reduced to 32
  bits, quadword forms are exact modulo 2^64, UMULH and MULQ together give the full 128-bit product,
  the comparisons order signed and unsigned values, the shifts multiply and divide by a power of two
  with the count taken modulo 64, and the bit counts count from the right end, also for zero.
\<close>

theorem int_grains_exact:
  "list_all (\<lambda>leaf. leaf g c = newBoxResult\<lparr>semFlags := g_semFlags g, regWriteIdx := ucast (encoded g AND 0x1F),
     regWriteIsFp := False, regWriteValue := regWriteValue (leaf g c)\<rparr>) arithLeaves \<and>
   (let a = opA c; b = opB c; V = (\<lambda>f. regWriteValue (f g c)) in
    sint (V execAddl) = signed_take_bit 31 (sint a + sint b) \<and>
    sint (V execSubl) = signed_take_bit 31 (sint a - sint b) \<and>
    sint (V execMull) = signed_take_bit 31 (sint a * sint b) \<and>
    sint (V execS4addl) = signed_take_bit 31 (4 * sint a + sint b) \<and>
    sint (V execS4subl) = signed_take_bit 31 (4 * sint a - sint b) \<and>
    sint (V execS8addl) = signed_take_bit 31 (8 * sint a + sint b) \<and>
    sint (V execS8subl) = signed_take_bit 31 (8 * sint a - sint b) \<and>
    uint (V execAddq) = (uint a + uint b) mod 2 ^ 64 \<and>
    uint (V execSubq) = (uint a - uint b) mod 2 ^ 64 \<and>
    uint (V execS4addq) = (4 * uint a + uint b) mod 2 ^ 64 \<and>
    uint (V execS4subq) = (4 * uint a - uint b) mod 2 ^ 64 \<and>
    uint (V execS8addq) = (8 * uint a + uint b) mod 2 ^ 64 \<and>
    uint (V execS8subq) = (8 * uint a - uint b) mod 2 ^ 64 \<and>
    uint (V execUmulh) * 2 ^ 64 + uint (V execMulq) = uint a * uint b \<and>
    V execCmpeq = of_bool (uint a = uint b) \<and> V execCmpult = of_bool (uint a < uint b) \<and>
    V execCmpule = of_bool (uint a \<le> uint b) \<and> V execCmplt = of_bool (sint a < sint b) \<and>
    V execCmple = of_bool (sint a \<le> sint b) \<and>
    uint (V execSll) = uint a * 2 ^ (unat b mod 64) mod 2 ^ 64 \<and>
    uint (V execSrl) = uint a div 2 ^ (unat b mod 64) \<and>
    sint (V execSra) = sint a div 2 ^ (unat b mod 64) \<and>
    sint (V execSextb) = signed_take_bit 7 (sint b) \<and>
    sint (V execSextw) = signed_take_bit 15 (sint b) \<and>
    unat (V execCtpop) = card {n. bit b n} \<and>
    unat (V execCtlz) = (if b = 0 then 64 else 63 - Max {n. bit b n}) \<and>
    unat (V execCttz) = (if b = 0 then 64 else Min {n. bit b n}))"
proof -
  define b where "b = opB c"
  have card: "card {n. bit b n} \<le> 64"
    using card_mono [of "{..<64}" "{n. bit b n}"] bit_imp_le_length [of b] by auto
  then have pop: "unat (of_nat (popcount b) :: u64) = card {n. bit b n}"
    by (simp add: popcount_def popcount_loop_card unat_of_nat_small)
  have ctz: "unat (of_nat (lowestSetBit b) :: u64) = Min {n. bit b n}" if "b \<noteq> 0"
  proof -
    have "Min {n. bit b n} < 2 ^ 64" using bit_index_less [OF that] by simp
    then show ?thesis unfolding lowestSetBit_Min [OF that] by (rule unat_of_nat_small)
  qed
  have sub: "unat (63 - of_nat k :: u64) = 63 - k" if "k < 64" for k
    using that by (simp add: unat_sub word_le_nat_alt unat_of_nat_small)
  have clz: "unat (63 - of_nat (highestSetBit b) :: u64) = 63 - Max {n. bit b n}" if "b \<noteq> 0"
    unfolding highestSetBit_Max [OF that] by (rule sub) (use bit_index_less [OF that] in blast)
  show ?thesis unfolding Let_def b_def [symmetric]
    by (intro conjI arith_leaves_write_rc; (simp add: execS4addl_def execS4subl_def execS8addl_def execS8subl_def
      execS4addq_def execS4subq_def execS8addq_def execS8subq_def sint_scaled uint_scaled
      b_def [symmetric]; fail)?;
      simp add: execAddl_def execSubl_def execMull_def execAddq_def execSubq_def execUmulh_def
      execMulq_def execCmpeq_def execCmpult_def execCmpule_def execCmplt_def execCmple_def
      execSll_def execSrl_def execSra_def execSextb_def execSextw_def execCtpop_def execCtlz_def
      execCttz_def b_def [symmetric] sint_long_ops uint_word_ariths(1, 2) uint_shifts
      mul_parts [simplified] word_uint_eq_iff [symmetric]
      shift_amount sint_signed_drop_bit sint_sext word_less_def word_le_def pop ctz clz)
qed

section \<open>Packed operations\<close>

lemma bit_lane_fold:
  fixes f :: "nat \<Rightarrow> 'b::len word"
  assumes "LENGTH('b) = w"
  shows "bit (fold (\<lambda>i r. r OR push_bit (w * i) (ucast (f i))) [0..<n] 0 :: u64) k \<longleftrightarrow>
    k < 64 \<and> k div w < n \<and> bit (f (k div w)) (k mod w)"
proof (induction n)
  case (Suc n)
  have w: "0 < w" using assms by (metis len_gt_0)
  have "w * n \<le> k \<and> bit (f n) (k - w * n) \<longleftrightarrow> k div w = n \<and> bit (f n) (k mod w)"
  proof (cases "k div w = n")
    case True
    then have "w * n \<le> k" "k - w * n = k mod w" by (auto simp: minus_mult_div_eq_mod)
    then show ?thesis using True by simp
  next
    case False
    have "k < w * n \<or> w \<le> k - w * n"
    proof (rule ccontr)
      assume "\<not> ?thesis"
      then have "w * n \<le> k" "k < w * n + w" by auto
      then have "k div w = n" using w by (intro div_nat_eqI) (simp_all add: mult.commute add.commute)
      then show False using False by simp
    qed
    then show ?thesis using False bit_imp_le_length [of "f n" "k - w * n"] assms by auto
  qed
  then show ?case using Suc by (auto simp: bit_simps less_Suc_eq)
qed simp

lemma byteLane_fold:
  "map (\<lambda>i. byteLane i (fold (\<lambda>i r. r OR push_bit (8 * i) (ucast (f i :: u8))) [0..<8] 0)) [0..<8] = map f [0..<8]"
proof (rule map_cong [OF refl])
  fix i assume "i \<in> set [0..<8 :: nat]"
  then have i: "i < 8" by simp
  show "byteLane i (fold (\<lambda>i r. r OR push_bit (8 * i) (ucast (f i :: u8))) [0..<8] 0) = f i"
  proof (rule bit_word_eqI)
    fix n assume "n < LENGTH(8)"
    then have n: "n < 8" by simp
    then have "(i * 8 + n) div 8 = i" "(i * 8 + n) mod 8 = n" "i * 8 + n < 64" using i by simp_all
    then show "bit (byteLane i (fold (\<lambda>i r. r OR push_bit (8 * i) (ucast (f i :: u8))) [0..<8] 0)) n
        = bit (f i) n"
      using i n bit_lane_fold [of 8 f 8 "i * 8 + n"] by (simp only: byteLane_def bit_simps) simp
  qed
qed

lemma wordLane_fold:
  "map (\<lambda>i. wordLane i (fold (\<lambda>i r. r OR push_bit (16 * i) (ucast (f i :: u16))) [0..<4] 0)) [0..<4] = map f [0..<4]"
proof (rule map_cong [OF refl])
  fix i assume "i \<in> set [0..<4 :: nat]"
  then have i: "i < 4" by simp
  show "wordLane i (fold (\<lambda>i r. r OR push_bit (16 * i) (ucast (f i :: u16))) [0..<4] 0) = f i"
  proof (rule bit_word_eqI)
    fix n assume "n < LENGTH(16)"
    then have n: "n < 16" by simp
    then have "(i * 16 + n) div 16 = i" "(i * 16 + n) mod 16 = n" "i * 16 + n < 64" using i by simp_all
    then show "bit (wordLane i (fold (\<lambda>i r. r OR push_bit (16 * i) (ucast (f i :: u16))) [0..<4] 0)) n
        = bit (f i) n"
      using i n bit_lane_fold [of 16 f 4 "i * 16 + n"] by (simp only: wordLane_def bit_simps) simp
  qed
qed

lemma bit_cmpbge_fold:
  "bit (fold (\<lambda>i r. if P i then r OR push_bit i 1 else r) [0..<n] 0 :: u64) k \<longleftrightarrow> k < 64 \<and> k < n \<and> P k"
  by (induction n) (auto simp: bit_simps less_Suc_eq)

lemma uint_perr_fold:
  assumes "n \<le> 8"
  shows "uint (fold (\<lambda>i r. r + (if y i \<le> x i then ucast (x i) - ucast (y i) else ucast (y i) - ucast (x i)))
      [0..<n] (0 :: u64)) = (\<Sum>i<n. \<bar>uint (x i :: u8) - uint (y i)\<bar>)"
  using assms
proof (induction n)
  case (Suc n)
  define s where "s = fold (\<lambda>i r. r + (if y i \<le> x i then ucast (x i) - ucast (y i) else ucast (y i) - ucast (x i)))
      [0..<n] (0 :: u64)"
  define e :: u64 where "e = (if y n \<le> x n then ucast (x n) - ucast (y n) else ucast (y n) - ucast (x n))"
  have u: "uint (ucast (z :: u8) :: u64) = uint z" for z
    using uint_lt2p [of z] by (simp add: unsigned_ucast_eq take_bit_int_eq_self)
  have b: "uint z < 256" for z :: u8 using uint_lt2p [of z] by simp
  have e: "uint e = \<bar>uint (x n) - uint (y n)\<bar>"
    by (auto simp: e_def word_le_def u uint_sub_lem [THEN iffD1])
  have "(\<Sum>i<n. \<bar>uint (x i) - uint (y i)\<bar>) \<le> (\<Sum>i<n. 255)"
    by (rule sum_mono) (smt (verit) b uint_nonnegative)
  then have "uint s \<le> 255 * 8" using Suc by (simp add: s_def)
  moreover have "uint e \<le> 255" unfolding e by (smt (verit) b uint_nonnegative)
  ultimately have "uint (s + e) = uint s + uint e" by (simp add: uint_add_lem [THEN iffD1])
  then show ?case using Suc e by (simp add: s_def e_def)
qed simp

lemma and_take_bit:
  "(w :: u64) AND 0xFF = take_bit 8 w" "w AND 0xFFFF = take_bit 16 w" "w AND 0xFFFFFFFF = take_bit 32 w"
  using take_bit_eq_mask [of 8 w] take_bit_eq_mask [of 16 w] take_bit_eq_mask [of 32 w]
  by (simp_all add: mask_numeral)

lemma bit_field: "bit (push_bit d (take_bit 8 w) :: u64) k \<longleftrightarrow> k < 64 \<and> d \<le> k \<and> k < d + 8 \<and> bit w (k - d)"
  by (auto simp: bit_simps)

lemma unpacked_fields:
  fixes b :: u64
  defines "U \<equiv> push_bit 0 (take_bit 8 (drop_bit 0 b)) OR push_bit 16 (take_bit 8 (drop_bit 8 b))
    OR push_bit 32 (take_bit 8 (drop_bit 16 b)) OR push_bit 48 (take_bit 8 (drop_bit 24 b))"
  shows "take_bit 8 (drop_bit 0 U) = take_bit 8 (drop_bit 0 b)"
    "take_bit 8 (drop_bit 16 U) = take_bit 8 (drop_bit 8 b)"
    "take_bit 8 (drop_bit 32 U) = take_bit 8 (drop_bit 16 b)"
    "take_bit 8 (drop_bit 48 U) = take_bit 8 (drop_bit 24 b)"
  unfolding U_def
  by (rule bit_word_eqI; simp only: bit_take_bit_iff bit_drop_bit_eq o_apply bit_or_iff bit_field; auto)+

lemma unpacked_long_fields:
  fixes b :: u64
  defines "U \<equiv> push_bit 0 (take_bit 8 (drop_bit 0 b)) OR push_bit 32 (take_bit 8 (drop_bit 8 b))"
  shows "take_bit 8 (drop_bit 0 U) = take_bit 8 (drop_bit 0 b)"
    "take_bit 8 (drop_bit 32 U) = take_bit 8 (drop_bit 8 b)"
  unfolding U_def
  by (rule bit_word_eqI; simp only: bit_take_bit_iff bit_drop_bit_eq o_apply bit_or_iff bit_field; auto)+

lemma bit_field_same:
  "bit (push_bit d (take_bit 8 (drop_bit d w)) :: u64) k \<longleftrightarrow> k < 64 \<and> d \<le> k \<and> k < d + 8 \<and> bit w k"
  by (auto simp: bit_simps)

lemma joined_fields:
  "push_bit 0 (take_bit 8 (drop_bit 0 b)) OR push_bit 8 (take_bit 8 (drop_bit 8 b))
    OR push_bit 16 (take_bit 8 (drop_bit 16 b)) OR push_bit 24 (take_bit 8 (drop_bit 24 b)) = take_bit 32 (b :: u64)"
  "push_bit 0 (take_bit 8 (drop_bit 0 b)) OR push_bit 8 (take_bit 8 (drop_bit 8 b)) = take_bit 16 b"
  by (rule bit_word_eqI; simp only: bit_take_bit_iff bit_or_iff bit_field_same; auto)+

lemma pack_unpack_bytes:
  "regWriteValue (execPkwb g (c\<lparr>opB := regWriteValue (execUnpkbw g c)\<rparr>)) = opB c AND 0xFFFFFFFF"
  "regWriteValue (execPklb g (c\<lparr>opB := regWriteValue (execUnpkbl g c)\<rparr>)) = opB c AND 0xFFFF"
proof -
  have upd: "opB (c\<lparr>opB := w\<rparr>) = w" for w by simp
  show "regWriteValue (execPkwb g (c\<lparr>opB := regWriteValue (execUnpkbw g c)\<rparr>)) = opB c AND 0xFFFFFFFF"
    "regWriteValue (execPklb g (c\<lparr>opB := regWriteValue (execUnpkbl g c)\<rparr>)) = opB c AND 0xFFFF"
    unfolding execPkwb_def execUnpkbw_def execPklb_def execUnpkbl_def and_take_bit
    by (simp_all only: writeRc_simps upd unpacked_fields unpacked_long_fields joined_fields)
qed

text \<open>
  The packed leaves work lane by lane: the eight byte and four word minima and maxima, signed and
  unsigned, are those of the corresponding lanes, CMPBGE sets exactly the bits of the bytes of the
  first operand that are not below those of the second, PERR is the sum of the absolute byte
  differences without wrap-around, and packing after unpacking returns the low bytes.
\<close>

theorem packed_grains_lanewise:
  "let a = opA c; b = opB c; V = (\<lambda>f. regWriteValue (f g c));
       bytes = (\<lambda>w. map (\<lambda>i. byteLane i w) [0..<8]); words = (\<lambda>w. map (\<lambda>i. wordLane i w) [0..<4]) in
    bytes (V execMaxub8) = map2 (\<lambda>x y. if uint x > uint y then x else y) (bytes a) (bytes b) \<and>
    bytes (V execMinub8) = map2 (\<lambda>x y. if uint x < uint y then x else y) (bytes a) (bytes b) \<and>
    bytes (V execMaxsb8) = map2 (\<lambda>x y. if sint x > sint y then x else y) (bytes a) (bytes b) \<and>
    bytes (V execMinsb8) = map2 (\<lambda>x y. if sint x < sint y then x else y) (bytes a) (bytes b) \<and>
    words (V execMaxuw4) = map2 (\<lambda>x y. if uint x > uint y then x else y) (words a) (words b) \<and>
    words (V execMinuw4) = map2 (\<lambda>x y. if uint x < uint y then x else y) (words a) (words b) \<and>
    words (V execMaxsw4) = map2 (\<lambda>x y. if sint x > sint y then x else y) (words a) (words b) \<and>
    words (V execMinsw4) = map2 (\<lambda>x y. if sint x < sint y then x else y) (words a) (words b) \<and>
    {n. bit (V execCmpbge) n} = {n. n < 8 \<and> uint (byteLane n b) \<le> uint (byteLane n a)} \<and>
    uint (V execPerr) = (\<Sum>i<8. \<bar>uint (byteLane i a) - uint (byteLane i b)\<bar>) \<and>
    regWriteValue (execPkwb g (c\<lparr>opB := V execUnpkbw\<rparr>)) = b AND 0xFFFFFFFF \<and>
    regWriteValue (execPklb g (c\<lparr>opB := V execUnpkbl\<rparr>)) = b AND 0xFFFF"
proof -
  have zip: "map2 h (map p [0..<n]) (map q [0..<n]) = map (\<lambda>i. h (p i) (q i)) [0..<n]"
    for h :: "'x \<Rightarrow> 'x \<Rightarrow> 'x" and p q and n :: nat
    by (simp add: list_eq_iff_nth_eq)
  have perr: "uint (regWriteValue (execPerr g c)) =
      (\<Sum>i<8. \<bar>uint (byteLane i (opA c)) - uint (byteLane i (opB c))\<bar>)"
    unfolding execPerr_def writeRc_simps by (rule uint_perr_fold) simp
  show ?thesis unfolding Let_def zip
    by (intro conjI perr pack_unpack_bytes; (simp only: execMaxub8_def execMinub8_def execMaxsb8_def execMinsb8_def
        execMaxuw4_def execMinuw4_def execMaxsw4_def execMinsw4_def writeRc_simps byteLane_fold
        wordLane_fold; fail)?;
      (auto simp: execCmpbge_def bit_cmpbge_fold word_le_def
        execMaxub8_def execMinub8_def execMaxuw4_def execMinuw4_def byteLane_fold wordLane_fold
        word_less_def simp del: upt_rec_numeral))
qed

section \<open>Control flow\<close>

lemma bit_sext_field:
  assumes "k < 32"
  shows "signed_drop_bit k (push_bit k (w :: u32)) = of_int (signed_take_bit (31 - k) (uint w))"
proof (rule bit_word_eqI)
  fix n assume n: "n < LENGTH(32)"
  then have n32: "n < 32" by simp
  show "bit (signed_drop_bit k (push_bit k w)) n = bit (of_int (signed_take_bit (31 - k) (uint w)) :: u32) n"
  proof (cases "k + n < 31")
    case True
    then show ?thesis using n32 assms
      by (auto simp: bit_simps bit_signed_take_bit_iff min_def)
  next
    case False
    show ?thesis
    proof (cases "n = 31 - k")
      case True
      then have "\<not> 32 - k \<le> n" "n < 32" using assms by simp_all
      then show ?thesis using True assms by (simp add: bit_simps bit_signed_take_bit_iff)
    next
      case far: False
      then have "31 - k < n" "32 - k \<le> n" using False by simp_all
      then show ?thesis using False n32 assms
        by (simp add: bit_simps bit_signed_take_bit_iff min_def)
    qed
  qed
qed

lemma scast_of_int32: "(scast (of_int k :: u32) :: u64) = of_int (signed_take_bit 31 k)"
  by (rule bit_word_eqI) (auto simp: bit_simps bit_signed_take_bit_iff min_def)

lemma scast_sext_field:
  assumes "k < 32"
  shows "(scast (signed_drop_bit k (push_bit k (w :: u32))) :: u64) = of_int (signed_take_bit (31 - k) (uint w))"
  unfolding bit_sext_field [OF assms] scast_of_int32
  by (simp add: signed_take_bit_signed_take_bit min_absorb2)

lemma braDispSext_eq: "braDispSext g = of_int (4 * signed_take_bit 20 (uint (encoded g)))"
  unfolding braDispSext_def scast_sext_field [of 11, simplified] by (simp add: mult.commute)

lemma hwDispSext_eq: "hwDispSext g = of_int (signed_take_bit 11 (uint (encoded g)))"
  unfolding hwDispSext_def scast_sext_field [of 20, simplified] ..

lemma writeRa_simps [simp]:
  "regWriteValue (writeRa g v) = v" "regWriteIdx (writeRa g v) = raIndex g"
  "faultCode (writeRa g v) = kNoFault" "memSize (writeRa g v) = kNoMemEffect"
  "divert (writeRa g v) = False" "regWriteIsFp (writeRa g v) = False" "semFlags (writeRa g v) = g_semFlags g"
  by (simp_all add: writeRa_def newBoxResult_def)

lemma condBranch_simps [simp]:
  "divert (condBranch t g) = t" "divertTarget (condBranch t g) = (if t then branchTarget g else 0)"
  "regWriteIdx (condBranch t g) = kNoRegWrite" "memSize (condBranch t g) = kNoMemEffect"
  "faultCode (condBranch t g) = kNoFault" "semFlags (condBranch t g) = g_semFlags g"
  by (simp_all add: condBranch_def newBoxResult_def)

lemma writeRcIf_simps [simp]:
  "regWriteIdx (writeRcIf m g v) = (if m then rcIndex g else kNoRegWrite)"
  "regWriteValue (writeRcIf m g v) = (if m then v else 0)"
  "faultCode (writeRcIf m g v) = kNoFault" "memSize (writeRcIf m g v) = kNoMemEffect"
  "divert (writeRcIf m g v) = False" "regWriteIsFp (writeRcIf m g v) = False"
  by (simp_all add: writeRcIf_def newBoxResult_def)

lemma and_3_add_mult4: "(x + 4 * y :: u64) AND 3 = x AND 3"
proof -
  have m: "unat ((w :: u64) AND 3) = unat w mod 4" for w
    using take_bit_eq_mask [of 2 w] unat_mod_distrib [of w 4]
    by (simp add: mask_numeral take_bit_eq_mod)
  have "unat (x + 4 * y) = (unat x + 4 * unat y) mod 2 ^ 64"
    by (simp add: unat_word_ariths mod_simps)
  moreover have "(unat x + 4 * unat y) mod 2 ^ 64 mod 4 = (unat x + 4 * unat y) mod 4"
    by (rule mod_mod_cancel) (simp add: dvd_def)
  ultimately have "unat ((x + 4 * y) AND 3) = unat (x AND 3)" unfolding m by simp
  then show ?thesis by (rule unsigned_word_eqI)
qed

lemma branchTarget_eq:
  "branchTarget g = g_pc g + 4 * (1 + of_int (signed_take_bit 20 (uint (encoded g))))"
  by (simp add: branchTarget_def braDispSext_eq algebra_simps)

text \<open>
  Branches: an unconditional branch goes to the instruction after it plus four times the signed
  21-bit displacement and saves the return address with its two low bits clear; a conditional branch
  is taken exactly when the signed or low-bit test on Ra holds; the conditional moves use the same
  eight tests, and leave the register file alone when the test fails; a relative branch keeps the two
  low bits of the PC, so it never changes PALmode; an indirect jump takes the word-aligned Rb with the
  PALmode bit of the PC.
\<close>

theorem branch_grains:
  "let a = opA c; t = g_pc g + 4 + of_int (4 * signed_take_bit 20 (uint (encoded g))) in
   divertTarget (execBr g c) = t \<and> divertTarget (execBsr g c) = t \<and> t AND 3 = g_pc g AND 3 \<and>
   regWriteValue (execBsr g c) = (g_pc g + 4) AND NOT 3 \<and> regWriteIdx (execBsr g c) = raIndex g \<and>
   list_all (\<lambda>(f, cm, test).
      divert (f g c) = test \<and> divertTarget (f g c) = (if test then t else 0) \<and>
      regWriteIdx (f g c) = kNoRegWrite \<and>
      regWriteIdx (cm g c) = (if test then rcIndex g else kNoRegWrite) \<and>
      regWriteValue (cm g c) = (if test then opB c else 0))
     [(execBeq, execCmoveq, a = 0), (execBne, execCmovne, a \<noteq> 0),
        (execBlt, execCmovlt, sint a < 0), (execBge, execCmovge, sint a \<ge> 0),
        (execBle, execCmovle, sint a \<le> 0), (execBgt, execCmovgt, sint a > 0),
        (execBlbc, execCmovlbc, even (uint a)), (execBlbs, execCmovlbs, odd (uint a))] \<and>
   list_all (\<lambda>f. divert (f g c) \<and> divertTarget (f g c) = (opB c AND NOT 3) OR (g_pc g AND 1) \<and>
      divertTarget (f g c) AND 3 = g_pc g AND 1) [execJmp, execJsr, execRet, execJsrCoroutine]"
proof -
  have t: "g_pc g + 4 + of_int (4 * signed_take_bit 20 (uint (encoded g))) = branchTarget g"
    by (simp add: branchTarget_def braDispSext_eq)
  have low: "branchTarget g AND 3 = g_pc g AND 3"
    unfolding branchTarget_eq by (rule and_3_add_mult4)
  have odd: "opA c AND 1 \<noteq> 0 \<longleftrightarrow> odd (uint (opA c))"
    using and_exp_neq_0_iff [of "opA c" 0] bit_uint_iff [of "opA c" 0] by (simp add: bit_0)
  have jump: "((opB c AND NOT 3) OR (g_pc g AND 1)) AND 3 = g_pc g AND 1"
    by (rule bit_word_eqI) (auto simp: bit_simps)
  show ?thesis unfolding Let_def t using low odd jump
    by (simp add: execBr_def execBsr_def linkValue_def execBeq_def execBne_def execBlt_def execBge_def
        execBle_def execBgt_def execBlbc_def execBlbs_def execCmoveq_def execCmovne_def execCmovlt_def
        execCmovge_def execCmovle_def execCmovgt_def execCmovlbc_def execCmovlbs_def execJmp_def
        execJsr_def execRet_def execJsrCoroutine_def indirectJump_def)
qed

text \<open>
  The link value and the PALmode bit of the PC together give back the address after the call.
\<close>

lemma link_roundtrip:
  fixes p :: u64
  assumes "p AND 2 = 0"
  shows "(((p + 4) AND NOT 3) AND NOT 3) OR (p AND 1) = p + 4"
proof -
  have "(p + 4) AND 3 = p AND 3" using and_3_add_mult4 [of p 1] by simp
  moreover have "p AND 3 = (p AND 1) OR (p AND 2)"
    using bit.conj_disj_distrib [of p 1 2] by simp
  ultimately have low: "(p + 4) AND 3 = p AND 1" using assms by simp
  have "(((p + 4) AND NOT 3) AND NOT 3) OR ((p + 4) AND 3) = p + 4"
    by (rule bit_word_eqI) (auto simp: bit_simps)
  then show ?thesis by (simp add: low)
qed

end
