(* ===== verification/VaxFloat.thy ===== *)
theory VaxFloat
  imports Complex_Main IntHelpers
begin

text \<open>
  VAX F and G arithmetic: the integer kernels of fpBoxLib/vax_float.h on register images, which the
  floating point back end calls for the VAX instruction set. An operand is unpacked into sign,
  exponent and a 64-bit fraction with the hidden bit on top, the fractions are added, multiplied,
  divided or rooted as integers, normalised, rounded and packed.

  The specification is a real number: the value of a register image, and the value rounded to the
  precision of the format, half away from zero or chopped. Multiplication, division and the addition
  of operands of one sign are shown to return the exactly rounded result with the documented overflow
  and underflow behaviour.
\<close>

section \<open>Geometry\<close>

record VaxGeom =
  fracBits :: nat
  expHi :: int
  expLo :: int

definition vax_G :: VaxGeom where
  "vax_G = \<lparr>fracBits = 52, expHi = 0x7FF, expLo = 1\<rparr>"

definition vax_F :: VaxGeom where
  "vax_F = \<lparr>fracBits = 23, expHi = 1151, expLo = 897\<rparr>"

definition kExpBias :: int where "kExpBias = 0x400"

definition kHidden :: u64 where "kHidden = push_bit 52 1"

definition kFracMask :: u64 where "kFracMask = push_bit 52 1 - 1"

definition kGuard :: nat where "kGuard = 11"

definition kNormBit :: u64 where "kNormBit = push_bit 63 1"

definition VaxInv :: u32 where "VaxInv = 0x02"

definition VaxDze :: u32 where "VaxDze = 0x04"

definition VaxOvf :: u32 where "VaxOvf = 0x08"

definition VaxUnf :: u32 where "VaxUnf = 0x10"

section \<open>Kernels\<close>

text \<open>The product as two words, low half first, in the two forms of the source.\<close>

definition umul128 :: "u64 \<Rightarrow> u64 \<Rightarrow> u64 \<times> u64" where
  "umul128 a b = (let p = (ucast a :: 128 word) * ucast b in (ucast p, ucast (drop_bit 64 p)))"

definition umul128_portable :: "u64 \<Rightarrow> u64 \<Rightarrow> u64 \<times> u64" where
  "umul128_portable a b =
    (let aL = a AND 0xFFFFFFFF; aH = drop_bit 32 a; bL = b AND 0xFFFFFFFF; bH = drop_bit 32 b;
         ll = aL * bL; lh = aL * bH; hl = aH * bL; hh = aH * bH;
         mid = drop_bit 32 ll + (lh AND 0xFFFFFFFF) + (hl AND 0xFFFFFFFF)
     in (push_bit 32 mid OR (ll AND 0xFFFFFFFF), hh + drop_bit 32 lh + drop_bit 32 hl + drop_bit 32 mid))"

record Ufp =
  u_sign :: u32
  u_exp :: int
  u_frac :: u64

definition unpack :: "u64 \<Rightarrow> u32 \<Rightarrow> Ufp \<times> u32" where
  "unpack op exc =
    (let sign = ucast (drop_bit 63 op) AND 1;
         e = uint (drop_bit 52 op AND 0x7FF);
         frac = op AND kFracMask
     in if e = 0 then (\<lparr>u_sign = 0, u_exp = 0, u_frac = 0\<rparr>, if sign \<noteq> 0 then exc OR VaxInv else exc)
        else (\<lparr>u_sign = sign, u_exp = e, u_frac = push_bit kGuard (frac OR kHidden)\<rparr>, exc))"

lemma top_bit_unat: "bit (f :: u64) 63 \<longleftrightarrow> 2 ^ 63 \<le> unat f"
proof -
  have "bit f 63 \<longleftrightarrow> odd (unat f div 2 ^ 63)"
    using bit_unsigned_iff [of f 63, where ?'a = nat] by (simp add: bit_iff_odd)
  moreover have "unat f div 2 ^ 63 < 2" using unsigned_less [of f, where ?'a = nat] by (simp add: div_less_iff_less_mult)
  ultimately show ?thesis using less_2_cases [of "unat f div 2 ^ 63"] by (auto simp: div_eq_0_iff)
qed

lemma unat_double:
  assumes "\<not> bit (f :: u64) 63"
  shows "unat (push_bit 1 f) = 2 * unat f"
  using assms by (simp add: top_bit_unat push_bit_eq_mult unat_word_ariths)

function normLoop :: "u64 \<Rightarrow> int \<Rightarrow> u64 \<times> int" where
  "normLoop f e = (if f = 0 \<or> bit f 63 then (f, e) else normLoop (push_bit 1 f) (e - 1))"
  by pat_completeness auto
termination
proof (relation "measure (\<lambda>(f, e). 2 ^ 64 - unat f)")
  fix f :: u64 and e :: int
  assume a: "\<not> (f = 0 \<or> bit f 63)"
  then have b: "unat f < 2 ^ 63" by (simp add: top_bit_unat)
  moreover from a have "unat f \<noteq> 0" by (simp add: unat_eq_zero)
  ultimately show "((push_bit 1 f, e - 1), (f, e)) \<in> measure (\<lambda>(f, e). 2 ^ 64 - unat f)"
    using a unat_double [of f] by simp
qed simp

definition norm_ufp :: "Ufp \<Rightarrow> Ufp" where
  "norm_ufp r =
    (if u_frac r = 0 then r\<lparr>u_sign := 0, u_exp := 0\<rparr>
     else case normLoop (u_frac r) (u_exp r) of (f, e) \<Rightarrow> r\<lparr>u_frac := f, u_exp := e\<rparr>)"

definition rpack :: "Ufp \<Rightarrow> VaxGeom \<Rightarrow> bool \<Rightarrow> bool \<Rightarrow> u32 \<Rightarrow> u64 \<times> u32" where
  "rpack r g chop unfEnable exc =
    (if u_frac r = 0 then (0, exc)
     else
       (let roundShift = 63 - fracBits g;
            sum = u_frac r + push_bit (roundShift - 1) 1;
            (frac, e) = (if chop then (u_frac r, u_exp r)
                         else if sum AND kNormBit = 0 then (drop_bit 1 sum OR kNormBit, u_exp r + 1)
                         else (sum, u_exp r));
            frac = frac AND NOT (push_bit roundShift 1 - 1);
            (exc, e) = (if e > expHi g then (exc OR VaxOvf, expHi g) else (exc, e))
        in if e < expLo g then (0, if unfEnable then exc OR VaxUnf else exc)
           else (push_bit 63 (ucast (u_sign r)) OR push_bit 52 (word_of_int e)
                   OR (drop_bit kGuard frac AND kFracMask), exc)))"

fun ufdivLoop :: "nat \<Rightarrow> u64 \<Rightarrow> u64 \<Rightarrow> u64 \<Rightarrow> nat \<Rightarrow> u64 \<times> nat" where
  "ufdivLoop 0 dvnd dvr quo i = (quo, i)"
| "ufdivLoop (Suc n) dvnd dvr quo i =
    (if dvnd = 0 then (quo, i)
     else if dvnd \<ge> dvr then ufdivLoop n (push_bit 1 (dvnd - dvr)) dvr (push_bit 1 quo + 1) (i + 1)
     else ufdivLoop n (push_bit 1 dvnd) dvr (push_bit 1 quo) (i + 1))"

definition ufdiv :: "u64 \<Rightarrow> u64 \<Rightarrow> nat \<Rightarrow> u64" where
  "ufdiv dvnd dvr prec = (case ufdivLoop prec dvnd dvr 0 0 of (quo, i) \<Rightarrow> push_bit (63 - i + 1) quo)"

definition vax_addsub :: "u64 \<Rightarrow> u64 \<Rightarrow> bool \<Rightarrow> VaxGeom \<Rightarrow> bool \<Rightarrow> bool \<Rightarrow> u32 \<Rightarrow> u64 \<times> u32" where
  "vax_addsub opa opb sub g chop unfEnable exc =
    (let (a, exc) = unpack opa exc; (b, exc) = unpack opb exc;
         b = (if sub then b\<lparr>u_sign := u_sign b XOR 1\<rparr> else b)
     in if u_exp a = 0 then rpack b g chop unfEnable exc
        else if u_exp b = 0 then rpack a g chop unfEnable exc
        else
          (let (a, b) = (if u_exp a < u_exp b then (b, a) else (a, b));
               sh = nat (u_exp a - u_exp b);
               bf = (if sh \<ge> 64 then 0 else drop_bit sh (u_frac b));
               a = (if u_sign a = u_sign b
                    then (let s = u_frac a + bf
                          in if s < bf then a\<lparr>u_frac := drop_bit 1 s OR kNormBit, u_exp := u_exp a + 1\<rparr>
                             else a\<lparr>u_frac := s\<rparr>)
                    else a\<lparr>u_frac := u_frac a - bf\<rparr>)
           in rpack (norm_ufp a) g chop unfEnable exc))"

definition vax_mul :: "u64 \<Rightarrow> u64 \<Rightarrow> VaxGeom \<Rightarrow> bool \<Rightarrow> bool \<Rightarrow> u32 \<Rightarrow> u64 \<times> u32" where
  "vax_mul opa opb g chop unfEnable exc =
    (let (a, exc) = unpack opa exc; (b, exc) = unpack opb exc
     in if u_exp a = 0 \<or> u_exp b = 0 then (0, exc)
        else
          (let e = u_exp a + u_exp b - kExpBias - 1;
               (pLo, pHi) = umul128 (u_frac a) (u_frac b);
               a = a\<lparr>u_sign := u_sign a XOR u_sign b\<rparr>;
               a = (if drop_bit 63 pHi \<noteq> 0 then a\<lparr>u_frac := pHi, u_exp := e + 1\<rparr>
                    else a\<lparr>u_frac := push_bit 1 pHi OR drop_bit 63 pLo, u_exp := e\<rparr>)
           in rpack (norm_ufp a) g chop unfEnable exc))"

definition vax_div :: "u64 \<Rightarrow> u64 \<Rightarrow> VaxGeom \<Rightarrow> bool \<Rightarrow> bool \<Rightarrow> u32 \<Rightarrow> u64 \<times> u32" where
  "vax_div opa opb g chop unfEnable exc =
    (let (a, exc) = unpack opa exc; (b, exc) = unpack opb exc
     in if u_exp b = 0 then (0, exc OR VaxDze)
        else if u_exp a = 0 then (0, exc)
        else
          (let a1 = a\<lparr>u_sign := u_sign a XOR u_sign b, u_exp := u_exp a - u_exp b + kExpBias + 1,
                      u_frac := ufdiv (drop_bit 1 (u_frac a)) (drop_bit 1 (u_frac b)) 55\<rparr>
           in rpack (norm_ufp a1) g chop unfEnable exc))"

fun rootLoop :: "nat \<Rightarrow> u64 \<Rightarrow> u64 \<Rightarrow> u64 \<Rightarrow> u64" where
  "rootLoop 0 radHi radLo rt = rt"
| "rootLoop (Suc n) radHi radLo rt =
    (let trial = rt OR push_bit n 1;
         (tLo, tHi) = umul128 trial trial
     in rootLoop n radHi radLo (if tHi < radHi \<or> tHi = radHi \<and> tLo \<le> radLo then trial else rt))"

definition vax_sqrt :: "u64 \<Rightarrow> VaxGeom \<Rightarrow> bool \<Rightarrow> bool \<Rightarrow> u32 \<Rightarrow> u64 \<times> u32" where
  "vax_sqrt opa g chop unfEnable exc =
    (let (a, exc) = unpack opa exc
     in if u_sign a \<noteq> 0 \<and> u_exp a \<noteq> 0 then (0, exc OR VaxInv)
        else if u_exp a = 0 then (0, exc)
        else
          (let e = u_exp a - kExpBias - 1;
               (m, e) = (if odd e then (drop_bit 1 (u_frac a), e + 1) else (u_frac a, e));
               a = a\<lparr>u_exp := e div 2 + kExpBias + 1, u_frac := rootLoop 64 (drop_bit 2 m) (push_bit 62 m) 0\<rparr>
           in rpack (norm_ufp a) g chop unfEnable exc))"

section \<open>The numbers register images stand for\<close>

definition vaxExp :: "u64 \<Rightarrow> int" where
  "vaxExp op = uint (drop_bit 52 op AND 0x7FF)"

definition vaxMag :: "u64 \<Rightarrow> real" where
  "vaxMag op = (if vaxExp op = 0 then 0 else real (2 ^ 52 + unat (op AND kFracMask)) * 2 powi (vaxExp op - 1077))"

definition vaxVal :: "u64 \<Rightarrow> real" where
  "vaxVal op = (if bit op 63 then - vaxMag op else vaxMag op)"

text \<open>
  Rounding to the precision of a format: to the multiple of the unit in the last place that is
  nearest, the larger one in a tie, or to the one below when the instruction chops.
\<close>

definition vaxRound :: "VaxGeom \<Rightarrow> bool \<Rightarrow> real \<Rightarrow> real" where
  "vaxRound g chop x =
    (let u = 2 powi (\<lfloor>log 2 x\<rfloor> - int (fracBits g))
     in real_of_int \<lfloor>x / u + (if chop then 0 else 1 / 2)\<rfloor> * u)"

text \<open>
  What an operation with the exact result x (its magnitude) and sign promises: the rounded result
  when it is in the range of the format, zero with an optional underflow trap below the range, and
  the overflow trap above it.
\<close>

definition vaxResult :: "VaxGeom \<Rightarrow> bool \<Rightarrow> bool \<Rightarrow> u32 \<Rightarrow> bool \<Rightarrow> real \<Rightarrow> u64 \<times> u32 \<Rightarrow> bool" where
  "vaxResult g chop unfEnable exc neg x res =
    (let m = vaxRound g chop x in
     if m < 2 powi (expLo g - 1025) then res = (0, if unfEnable then exc OR VaxUnf else exc)
     else if m < 2 powi (expHi g - 1024)
     then vaxMag (fst res) = m \<and> (bit (fst res) 63 \<longleftrightarrow> neg) \<and> snd res = exc
     else vaxExp (fst res) = expHi g \<and> snd res = exc OR VaxOvf)"

definition geom_ok :: "VaxGeom \<Rightarrow> bool" where
  "geom_ok g \<longleftrightarrow> 1 \<le> fracBits g \<and> fracBits g \<le> 52 \<and> 1 \<le> expLo g \<and> expLo g \<le> expHi g \<and> expHi g \<le> 0x7FF"

lemma geoms_ok: "geom_ok vax_F" "geom_ok vax_G"
  by (simp_all add: geom_ok_def vax_F_def vax_G_def)

section \<open>Unpacking and normalising\<close>

lemma kFracMask_mask: "kFracMask = mask 52"
  by (simp add: kFracMask_def mask_eq_exp_minus_1)

lemma unat_frac: "unat (op AND kFracMask) < 2 ^ 52"
  using take_bit_nat_less_exp [of 52 "unat op"]
  by (simp add: kFracMask_mask unsigned_take_bit_eq flip: take_bit_eq_mask)

lemma bit_kHidden: "bit kHidden n \<longleftrightarrow> n = 52"
  by (simp only: kHidden_def bit_push_bit_iff bit_1_iff) auto

lemma kHidden_plus: "(op AND kFracMask) OR kHidden = kHidden + (op AND kFracMask)"
  by (subst disjunctive_add) (auto simp: bit_and_iff bit_kHidden kFracMask_mask bit_mask_iff or.commute)

lemma unpack_eq:
  assumes "vaxExp op \<noteq> 0"
  shows "fst (unpack op exc) = \<lparr>u_sign = ucast (drop_bit 63 op) AND 1, u_exp = vaxExp op,
           u_frac = word_of_nat ((2 ^ 52 + unat (op AND kFracMask)) * 2 ^ 11)\<rparr>"
    "snd (unpack op exc) = exc"
proof -
  have "(op AND kFracMask) OR kHidden = word_of_nat (2 ^ 52 + unat (op AND kFracMask))"
    by (simp add: kHidden_plus) (simp add: kHidden_def)
  then have "push_bit kGuard ((op AND kFracMask) OR kHidden) = word_of_nat ((2 ^ 52 + unat (op AND kFracMask)) * 2 ^ 11)"
    by (simp add: kGuard_def push_bit_eq_mult)
  then show "fst (unpack op exc) = \<lparr>u_sign = ucast (drop_bit 63 op) AND 1, u_exp = vaxExp op,
           u_frac = word_of_nat ((2 ^ 52 + unat (op AND kFracMask)) * 2 ^ 11)\<rparr>"
    "snd (unpack op exc) = exc"
    using assms by (simp_all add: unpack_def Let_def vaxExp_def)
qed

lemma unpack_zero:
  assumes "vaxExp op = 0"
  shows "u_exp (fst (unpack op exc)) = 0" "u_frac (fst (unpack op exc)) = 0"
  using assms by (simp_all add: unpack_def Let_def vaxExp_def)

lemma unat_unpacked:
  assumes "vaxExp op \<noteq> 0"
  shows "unat (u_frac (fst (unpack op exc))) = (2 ^ 52 + unat (op AND kFracMask)) * 2 ^ 11"
proof -
  have "(2 ^ 52 + unat (op AND kFracMask)) * 2 ^ 11 < 2 ^ LENGTH(64)" using unat_frac [of op] by simp
  then show ?thesis using assms by (simp add: unpack_eq unsigned_of_nat take_bit_nat_eq_self del: of_nat_mult of_nat_add)
qed

definition uval :: "Ufp \<Rightarrow> real" where
  "uval r = real (unat (u_frac r)) * 2 powi (u_exp r - 1088)"

lemma powi_shift: "(2 :: real) powi (e + int n) = 2 ^ n * 2 powi e"
  by (simp add: power_int_add)

lemma uval_unpack: "uval (fst (unpack op exc)) = vaxMag op"
proof (cases "vaxExp op = 0")
  case True
  then show ?thesis by (simp add: uval_def vaxMag_def unpack_zero)
next
  case False
  have "(2 :: real) powi (vaxExp op - 1077) = 2 ^ 11 * 2 powi (vaxExp op - 1088)"
    using powi_shift [of "vaxExp op - 1088" 11] by simp
  then show ?thesis using False by (simp add: uval_def vaxMag_def unat_unpacked) (simp add: unpack_eq)
qed

lemma unpacked_top:
  assumes "vaxExp op \<noteq> 0"
  shows "2 ^ 63 \<le> unat (u_frac (fst (unpack op exc)))"
  using assms by (simp add: unat_unpacked)

declare normLoop.simps [simp del]

lemma normLoop_spec:
  assumes "f \<noteq> 0"
  shows "\<exists>k. fst (normLoop f e) = push_bit k f \<and> unat (fst (normLoop f e)) = unat f * 2 ^ k \<and> snd (normLoop f e) = e - int k \<and>
     2 ^ 63 \<le> unat (fst (normLoop f e))"
  using assms
proof (induction f e rule: normLoop.induct)
  case (1 f e)
  show ?case
  proof (cases "bit f 63")
    case True
    then have "normLoop f e = (f, e)" by (simp add: normLoop.simps)
    then show ?thesis using True by (intro exI [of _ 0]) (simp add: top_bit_unat)
  next
    case False
    then have d: "unat (push_bit 1 f) = 2 * unat f" by (rule unat_double)
    with 1(2) have "push_bit 1 f \<noteq> 0" by (metis mult_eq_0_iff unat_eq_zero zero_neq_numeral)
    with 1 False obtain k where k: "fst (normLoop (push_bit 1 f) (e - 1)) = push_bit k (push_bit 1 f)"
      "unat (fst (normLoop (push_bit 1 f) (e - 1))) = unat (push_bit 1 f) * 2 ^ k"
      "snd (normLoop (push_bit 1 f) (e - 1)) = e - 1 - int k"
      "2 ^ 63 \<le> unat (fst (normLoop (push_bit 1 f) (e - 1)))" by auto
    have "normLoop f e = normLoop (push_bit 1 f) (e - 1)" using 1(2) False by (simp add: normLoop.simps [of f e])
    then show ?thesis using k d by (intro exI [of _ "Suc k"]) (simp add: push_bit_push_bit)
  qed
qed

lemma norm_ufp_spec:
  assumes "u_frac r \<noteq> 0"
  obtains k where "unat (u_frac (norm_ufp r)) = unat (u_frac r) * 2 ^ k" "u_exp (norm_ufp r) = u_exp r - int k"
    "2 ^ 63 \<le> unat (u_frac (norm_ufp r))" "u_sign (norm_ufp r) = u_sign r"
proof -
  obtain f e where fe: "normLoop (u_frac r) (u_exp r) = (f, e)" by force
  with normLoop_spec [OF assms, of "u_exp r"] obtain k
    where "unat f = unat (u_frac r) * 2 ^ k" "e = u_exp r - int k" "2 ^ 63 \<le> unat f" by auto
  with fe assms show thesis by (intro that [of k]) (simp_all add: norm_ufp_def)
qed

lemma norm_id:
  assumes "2 ^ 63 \<le> unat (u_frac r)"
  shows "norm_ufp r = r"
  using assms by (auto simp: norm_ufp_def normLoop.simps top_bit_unat)

section \<open>Rounding and packing\<close>

lemma floor_log2:
  assumes "2 powi e \<le> x" "x < 2 powi (e + 1)"
  shows "\<lfloor>log 2 x\<rfloor> = e"
proof -
  have "0 < x" using assms(1) by (meson less_le_trans zero_less_numeral zero_less_power_int)
  then have "real_of_int e \<le> log 2 x" "log 2 x < real_of_int e + 1"
    using assms by (simp_all add: le_log_iff log_less_iff powr_real_of_int' powr_add power_int_add)
  then show ?thesis by (simp add: floor_unique)
qed

lemma floor_div_exp:
  fixes y :: real and F h k s :: nat
  assumes "real F \<le> y" "y < real F + 2 ^ k" "2 ^ k dvd F" "2 ^ k dvd h" "k \<le> s"
  shows "\<lfloor>(y + real h) / 2 ^ s\<rfloor> = int ((F + h) div 2 ^ s)"
proof (rule floor_unique)
  let ?N = "(F + h) div 2 ^ s"
  have "?N * 2 ^ s \<le> F + h" by simp
  then have "real (?N * 2 ^ s) \<le> real (F + h)" by (simp only: of_nat_le_iff)
  then show "real_of_int (int ?N) \<le> (y + real h) / 2 ^ s" using assms(1) by (simp add: field_simps)
  have "F + h < Suc ?N * 2 ^ s" using dividend_less_div_times [of "2 ^ s" "F + h"] by (simp add: algebra_simps)
  moreover have "2 ^ k dvd Suc ?N * 2 ^ s" using assms(5) by (simp add: le_imp_power_dvd)
  ultimately have "F + h + 2 ^ k \<le> Suc ?N * 2 ^ s" using assms(3,4)
    by (metis (no_types, opaque_lifting) add.commute dvd_add dvd_diffD1 dvd_imp_le le_diff_conv2 less_imp_le_nat zero_less_diff dvd_diff_nat)
  then have "real (F + h + 2 ^ k) \<le> real (Suc ?N * 2 ^ s)" by (simp only: of_nat_le_iff)
  then show "(y + real h) / 2 ^ s < real_of_int (int ?N) + 1" using assms(2) by (simp add: field_simps)
qed

text \<open>The fraction after rounding, as the natural number it stands for before it wraps.\<close>

definition roundedFrac :: "nat \<Rightarrow> bool \<Rightarrow> nat \<Rightarrow> nat" where
  "roundedFrac s chop F = (F + (if chop then 0 else 2 ^ (s - 1))) div 2 ^ s * 2 ^ s"

lemma vaxRound_frac:
  assumes g: "geom_ok g" and F: "2 ^ 63 \<le> F" "F < 2 ^ 64"
    and y: "real F \<le> y" "y < real F + 2 ^ k" and k: "2 ^ k dvd F" "k \<le> 62 - fracBits g"
  shows "vaxRound g chop (y * 2 powi (e - 1088)) = real (roundedFrac (63 - fracBits g) chop F) * 2 powi (e - 1088)"
proof -
  let ?s = "63 - fracBits g"
  have s: "Suc (62 - fracBits g) = ?s" "k \<le> ?s - 1" "k \<le> ?s" using g k(2) by (auto simp: geom_ok_def)
  have "2 ^ k dvd (2 :: nat) ^ 64" using k(2) by (intro le_imp_power_dvd) simp
  then have "2 ^ k dvd (2 :: nat) ^ 64 - F" using k(1) by (rule dvd_diff_nat)
  then have "2 ^ k \<le> 2 ^ 64 - F" using F(2) by (intro dvd_imp_le) auto
  then have "F + 2 ^ k \<le> 2 ^ 64" using F(2) by linarith
  then have "real (F + 2 ^ k) \<le> real (2 ^ 64)" by (simp only: of_nat_le_iff)
  then have "y < 2 ^ 64" using y(2) by simp
  moreover have "(2 :: real) ^ 63 \<le> y" using F(1) y(1) by (metis of_nat_le_iff of_nat_numeral of_nat_power order_trans)
  moreover have p: "(0 :: real) < 2 powi (e - 1088)" by simp
  moreover have "(2 :: real) powi (e - 1025) = 2 ^ 63 * 2 powi (e - 1088)" "(2 :: real) powi (e - 1024) = 2 ^ 64 * 2 powi (e - 1088)"
    using powi_shift [of "e - 1088" 63] powi_shift [of "e - 1088" 64] by simp_all
  ultimately have "\<lfloor>log 2 (y * 2 powi (e - 1088))\<rfloor> = e - 1025"
    by (intro floor_log2) (simp_all add: mult_right_mono)
  moreover have u: "(2 :: real) powi (e - 1025 - int (fracBits g)) = 2 ^ ?s * 2 powi (e - 1088)"
    using powi_shift [of "e - 1088" ?s] g by (simp add: geom_ok_def of_nat_diff algebra_simps)
  moreover have h: "2 ^ k dvd (if chop then 0 else (2 :: nat) ^ (?s - 1))" using s by (simp add: le_imp_power_dvd)
  moreover have "(2 :: real) ^ ?s = 2 * 2 ^ (?s - 1)" using s by (simp flip: power_Suc)
  then have "y / 2 ^ ?s + (if chop then 0 else 1 / 2) = (y + real (if chop then 0 else 2 ^ (?s - 1))) / 2 ^ ?s"
    by (simp add: field_simps)
  ultimately show ?thesis using floor_div_exp [OF y k(1) h s(3)] p
    by (simp add: vaxRound_def Let_def roundedFrac_def)
qed

lemma unat_and_not_mask: "unat (w AND NOT (2 ^ s - 1) :: u64) = unat w div 2 ^ s * 2 ^ s"
proof -
  have "w AND NOT (2 ^ s - 1) = push_bit s (drop_bit s w)"
    by (rule bit_word_eqI) (auto simp: bit_simps simp flip: mask_eq_exp_minus_1)
  moreover have "unat w div 2 ^ s * 2 ^ s < 2 ^ 64"
    by (rule le_less_trans [of _ "unat w"]) (use unsigned_less [of w, where ?'a = nat] in auto)
  moreover have "unat (push_bit s (drop_bit s w)) = take_bit 64 (push_bit s (drop_bit s (unat w)))"
    using unsigned_less [of w, where ?'a = nat]
    by (simp add: unsigned_push_bit_eq unsigned_drop_bit_eq take_bit_nat_eq_self)
  ultimately show ?thesis
    by (simp add: take_bit_nat_eq_self push_bit_eq_mult [where ?'a = nat] drop_bit_eq_div [where ?'a = nat])
qed

lemma mask_7FF: "(0x7FF :: u64) = mask 11"
  by (simp add: mask_eq_exp_minus_1)

lemma pack_fields:
  fixes frac :: u64 and sign :: u32
  assumes f: "2 ^ 63 \<le> unat frac" "2 ^ 11 dvd unat frac" and e: "1 \<le> e" "e \<le> 0x7FF"
    and s: "sign = 0 \<or> sign = 1"
  defines "w \<equiv> push_bit 63 (ucast sign) OR push_bit 52 (word_of_int e) OR (drop_bit 11 frac AND kFracMask)"
  shows "vaxExp w = e" "bit w 63 \<longleftrightarrow> sign = 1" "vaxMag w = real (unat frac) * 2 powi (e - 1088)"
proof -
  have "take_bit 11 e = e" using e by (simp add: take_bit_int_eq_self)
  then have eb: "bit e n \<Longrightarrow> n < 11" for n by (metis bit_take_bit_iff)
  have "drop_bit 52 w AND 0x7FF = word_of_int e"
  proof (rule bit_word_eqI)
    fix n assume n: "n < LENGTH(64)"
    show "bit (drop_bit 52 w AND 0x7FF) n = bit (word_of_int e :: u64) n"
      unfolding mask_7FF using n s by (auto simp: w_def bit_simps kFracMask_mask dest: eb)
  qed
  then show x: "vaxExp w = e" using e by (simp add: vaxExp_def uint_word_of_int_eq take_bit_int_eq_self)
  show "bit w 63 \<longleftrightarrow> sign = 1"
    using eb [of 11] s by (auto simp: w_def bit_simps kFracMask_mask)
  have "w AND kFracMask = take_bit 52 (drop_bit 11 frac)"
    by (rule bit_word_eqI) (use s in \<open>auto simp: w_def bit_simps kFracMask_mask\<close>)
  then have "unat (w AND kFracMask) = (unat frac div 2 ^ 11) mod 2 ^ 52"
    using unsigned_less [of frac, where ?'a = nat]
    by (simp add: unsigned_take_bit_eq unsigned_drop_bit_eq take_bit_nat_eq_self)
      (simp add: take_bit_eq_mod drop_bit_eq_div)
  moreover have "2 ^ 63 div 2 ^ 11 \<le> unat frac div 2 ^ 11" using f(1) by (rule div_le_mono)
  moreover have "unat frac div 2 ^ 11 < 2 ^ 53" using unsigned_less [of frac, where ?'a = nat]
    by (simp add: div_less_iff_less_mult)
  ultimately have "2 ^ 52 + unat (w AND kFracMask) = unat frac div 2 ^ 11"
    by (simp add: le_mod_geq)
  then have "real (2 ^ 52 + unat (w AND kFracMask)) * 2 ^ 11 = real (unat frac)"
    using f(2) by (simp only: real_of_nat_div) simp
  moreover have "(2 :: real) powi (e - 1077) = 2 ^ 11 * 2 powi (e - 1088)" using powi_shift [of "e - 1088" 11] by simp
  ultimately show "vaxMag w = real (unat frac) * 2 powi (e - 1088)" using x e(1) by (simp add: vaxMag_def)
qed

lemma roundedFrac_bounds:
  assumes s: "11 \<le> s" "s \<le> 62" and F: "2 ^ 63 \<le> F" "F < 2 ^ 64"
  shows "2 ^ 63 \<le> roundedFrac s chop F" "roundedFrac s chop F \<le> 2 ^ 64" "2 ^ 11 dvd roundedFrac s chop F"
proof -
  have d: "2 ^ s dvd (2 :: nat) ^ n" if "63 \<le> n" for n using s(2) that by (intro le_imp_power_dvd) simp
  define H where "H = (if chop then 0 else (2 :: nat) ^ (s - 1))"
  have h: "H \<le> 2 ^ s" by (simp add: H_def power_increasing)
  have R: "roundedFrac s chop F = (F + H) div 2 ^ s * 2 ^ s" by (simp add: roundedFrac_def H_def)
  have m: "2 ^ 63 div 2 ^ s * 2 ^ s = (2 :: nat) ^ 63" "2 ^ 64 div 2 ^ s * 2 ^ s = (2 :: nat) ^ 64"
    by (rule dvd_div_mult_self; rule d; simp)+
  have "2 ^ 63 div 2 ^ s \<le> (F + H) div 2 ^ s" using F(1) by (intro div_le_mono) simp
  then show "2 ^ 63 \<le> roundedFrac s chop F" unfolding R by (metis m(1) mult_le_mono1)
  have "F + H < 2 ^ 64 + 2 ^ s" using F(2) h by linarith
  also have "\<dots> = (2 ^ 64 div 2 ^ s + 1) * 2 ^ s" by (simp only: add_mult_distrib m(2) mult_1)
  finally have "(F + H) div 2 ^ s < 2 ^ 64 div 2 ^ s + 1" by (simp only: div_less_iff_less_mult zero_less_power pos2)
  then have "(F + H) div 2 ^ s \<le> 2 ^ 64 div 2 ^ s" by simp
  then show "roundedFrac s chop F \<le> 2 ^ 64" unfolding R by (metis m(2) mult_le_mono1)
  show "2 ^ 11 dvd roundedFrac s chop F" using s(1) unfolding R by (intro dvd_mult le_imp_power_dvd)
qed

text \<open>Fraction and exponent that rpack packs.\<close>

definition packFrac :: "nat \<Rightarrow> bool \<Rightarrow> u64 \<Rightarrow> int \<Rightarrow> u64 \<times> int" where
  "packFrac s chop f e =
    (let sum = f + push_bit (s - 1) 1;
         (frac, e) = (if chop then (f, e)
                      else if sum AND kNormBit = 0 then (drop_bit 1 sum OR kNormBit, e + 1) else (sum, e))
     in (frac AND NOT (push_bit s 1 - 1), e))"

lemma rpack_packFrac:
  assumes "u_frac r \<noteq> 0"
  shows "rpack r g chop unfEnable exc =
    (case packFrac (63 - fracBits g) chop (u_frac r) (u_exp r) of (fr, e) \<Rightarrow>
     let (exc, e) = (if e > expHi g then (exc OR VaxOvf, expHi g) else (exc, e))
     in if e < expLo g then (0, if unfEnable then exc OR VaxUnf else exc)
        else (push_bit 63 (ucast (u_sign r)) OR push_bit 52 (word_of_int e)
                OR (drop_bit 11 fr AND kFracMask), exc))"
  using assms by (simp add: rpack_def packFrac_def Let_def kGuard_def)

lemma kNormBit_top: "w AND kNormBit = 0 \<longleftrightarrow> \<not> 2 ^ 63 \<le> unat w"
  using and_exp_eq_0_iff [of w 63] by (simp add: kNormBit_def top_bit_unat)

lemma normBit_masked:
  assumes "unat w < 2 ^ (s - 1)" "s \<le> 62"
  shows "(drop_bit 1 w OR kNormBit) AND NOT (2 ^ s - 1) = kNormBit"
proof -
  have "\<not> bit w n" if "s - 1 \<le> n" for n
  proof -
    have "unat w < 2 ^ n" using assms(1) that by (meson less_le_trans one_le_numeral power_increasing)
    then show ?thesis by (metis bit_unat bit_iff_odd div_less even_zero)
  qed
  moreover have "bit kNormBit n \<longleftrightarrow> n = 63" for n
    by (simp only: kNormBit_def bit_push_bit_iff bit_1_iff) auto
  ultimately show ?thesis using assms(2)
    by (intro bit_word_eqI) (auto simp: bit_simps push_bit_of_1 simp flip: mask_eq_exp_minus_1)
qed

lemma le_div_times:
  assumes "2 ^ n \<le> (m :: nat)" "s \<le> n"
  shows "2 ^ n \<le> m div 2 ^ s * 2 ^ s"
proof -
  have "2 ^ n div 2 ^ s * 2 ^ s \<le> m div 2 ^ s * 2 ^ s" using assms(1) by (intro mult_le_mono1 div_le_mono)
  then show ?thesis using assms(2) by (simp add: le_imp_power_dvd)
qed

lemma packFrac_spec:
  assumes s: "11 \<le> s" "s \<le> 62" and F: "2 ^ 63 \<le> unat f"
  obtains f1 e1 where "packFrac s chop f e = (f1, e1)" "2 ^ 63 \<le> unat f1" "2 ^ 11 dvd unat f1"
    "real (unat f1) * 2 powi (e1 - 1088) = real (roundedFrac s chop (unat f)) * 2 powi (e - 1088)"
proof -
  let ?R = "roundedFrac s chop (unat f)" and ?sum = "f + push_bit (s - 1) 1"
  have lt: "unat f < 2 ^ 64" using unsigned_less [of f, where ?'a = nat] by simp
  note b = roundedFrac_bounds [OF s F lt, of chop]
  have hl: "(2 :: nat) ^ (s - 1) < 2 ^ 62" using s by (intro power_strict_increasing) auto
  have "unat (of_nat (2 ^ (s - 1)) :: u64) = 2 ^ (s - 1)"
    using s by (simp only: unsigned_of_nat) (simp add: take_bit_nat_eq_self)
  then have "unat (push_bit (s - 1) 1 :: u64) = 2 ^ (s - 1)" by (simp add: push_bit_of_1)
  then have us: "unat ?sum = (unat f + 2 ^ (s - 1)) mod 2 ^ 64" by (simp add: unat_word_ariths)
  consider (keep) "chop" | (plain) "\<not> chop" "unat f + 2 ^ (s - 1) < 2 ^ 64" | (carry) "\<not> chop" "2 ^ 64 \<le> unat f + 2 ^ (s - 1)" by linarith
  then show thesis
  proof cases
    case keep
    have u: "unat (f AND NOT (2 ^ s - 1)) = ?R" using keep by (simp add: unat_and_not_mask roundedFrac_def)
    show ?thesis
    proof (rule that)
      show "packFrac s chop f e = (f AND NOT (2 ^ s - 1), e)" using keep by (simp add: packFrac_def)
    qed (unfold u, rule b(1), rule b(3), rule refl)
  next
    case plain
    then have "unat ?sum = unat f + 2 ^ (s - 1)" using us by simp
    then have t: "2 ^ 63 \<le> unat ?sum" and u: "unat (?sum AND NOT (2 ^ s - 1)) = ?R"
      using plain F by (simp_all only: unat_and_not_mask roundedFrac_def if_False)
    show ?thesis
    proof (rule that)
      show "packFrac s chop f e = (?sum AND NOT (2 ^ s - 1), e)"
        using t plain by (simp add: packFrac_def Let_def kNormBit_top)
    qed (unfold u, rule b(1), rule b(3), rule refl)
  next
    case carry
    have "unat f + 2 ^ (s - 1) - 2 ^ 64 < 2 ^ 64" using lt hl by simp
    with carry us have u: "unat ?sum = unat f + 2 ^ (s - 1) - 2 ^ 64" by (simp only: le_mod_geq mod_less)
    then have small: "unat ?sum < 2 ^ (s - 1)" using lt carry by linarith
    then have n: "?sum AND kNormBit = 0" using hl by (simp add: kNormBit_top)
    have "(drop_bit 1 ?sum OR kNormBit) AND NOT (2 ^ s - 1) = kNormBit"
      by (rule normBit_masked) (use small s in auto)
    moreover have "?R = 2 ^ 64"
      using carry b(2) le_div_times [OF carry(2), of s] s by (simp add: roundedFrac_def)
    moreover have "(2 :: real) powi (e + 1 - 1088) = 2 * 2 powi (e - 1088)" using powi_shift [of "e - 1088" 1] by simp
    ultimately show ?thesis using n carry
      by (intro that [of kNormBit "e + 1"]) (simp_all add: packFrac_def Let_def kNormBit_def)
  qed
qed

lemma powi_le: "(2 :: real) powi a \<le> 2 powi b \<longleftrightarrow> a \<le> b"
  using power_int_increasing [of a b "2 :: real"] power_int_strict_increasing [of b a "2 :: real"] by fastforce

lemma binade_bounds:
  assumes "2 ^ 63 \<le> F" "F < 2 ^ 64"
  shows "2 powi (e - 1025) \<le> real F * 2 powi (e - 1088)" "real F * 2 powi (e - 1088) < 2 powi (e - 1024)"
proof -
  have "(2 :: real) powi (e - 1025) = 2 ^ 63 * 2 powi (e - 1088)" "(2 :: real) powi (e - 1024) = 2 ^ 64 * 2 powi (e - 1088)"
    using powi_shift [of "e - 1088" 63] powi_shift [of "e - 1088" 64] by simp_all
  moreover have "real (2 ^ 63) \<le> real F" "real F < real (2 ^ 64)" using assms by (simp_all only: of_nat_le_iff of_nat_less_iff)
  ultimately show "2 powi (e - 1025) \<le> real F * 2 powi (e - 1088)" "real F * 2 powi (e - 1088) < 2 powi (e - 1024)"
    by (simp_all add: mult_right_mono)
qed

lemma rpack_result:
  assumes g: "geom_ok g" and F: "2 ^ 63 \<le> unat (u_frac r)"
    and y: "real (unat (u_frac r)) \<le> y" "y < real (unat (u_frac r)) + 2 ^ k"
    and k: "2 ^ k dvd unat (u_frac r)" "k \<le> 62 - fracBits g"
    and s: "u_sign r = 0 \<or> u_sign r = 1" and x: "x = y * 2 powi (u_exp r - 1088)"
  shows "vaxResult g chop unfEnable exc (u_sign r = 1) x (rpack r g chop unfEnable exc)"
proof -
  have lt: "unat (u_frac r) < 2 ^ 64" using unsigned_less [of "u_frac r", where ?'a = nat] by simp
  have gs: "11 \<le> 63 - fracBits g" "63 - fracBits g \<le> 62" using g by (auto simp: geom_ok_def)
  obtain f1 e1 where p: "packFrac (63 - fracBits g) chop (u_frac r) (u_exp r) = (f1, e1)" "2 ^ 63 \<le> unat f1" "2 ^ 11 dvd unat f1"
    "real (unat f1) * 2 powi (e1 - 1088) = real (roundedFrac (63 - fracBits g) chop (unat (u_frac r))) * 2 powi (u_exp r - 1088)"
    using packFrac_spec [OF gs F] by metis
  define m where "m = vaxRound g chop x"
  have m: "m = real (unat f1) * 2 powi (e1 - 1088)"
    unfolding m_def x p(4) by (rule vaxRound_frac [OF g F lt y k])
  have f1: "unat f1 < 2 ^ 64" using unsigned_less [of f1, where ?'a = nat] by simp
  note b = binade_bounds [OF p(2) f1, of e1, folded m]
  have lo: "m < 2 powi (expLo g - 1025) \<longleftrightarrow> e1 < expLo g"
    using b powi_le [of "expLo g - 1025" "e1 - 1025"] powi_le [of "e1 - 1024" "expLo g - 1025"] by linarith
  have hi: "m < 2 powi (expHi g - 1024) \<longleftrightarrow> e1 \<le> expHi g"
    using b powi_le [of "expHi g - 1024" "e1 - 1025"] powi_le [of "e1 - 1024" "expHi g - 1024"] by linarith
  have nz: "u_frac r \<noteq> 0" using F by auto
  have go: "1 \<le> expLo g" "expLo g \<le> expHi g" "expHi g \<le> 0x7FF" using g by (auto simp: geom_ok_def)
  note rp = rpack_packFrac [OF nz, of g chop unfEnable exc, unfolded p(1) prod.case]
  consider (low) "e1 < expLo g" | (mid) "expLo g \<le> e1" "e1 \<le> expHi g" | (high) "expHi g < e1" by linarith
  then show ?thesis
  proof cases
    case low
    then show ?thesis using go lo by (simp add: vaxResult_def rp flip: m_def)
  next
    case mid
    note q = pack_fields [OF p(2,3) _ _ s, of e1]
    from mid go have "1 \<le> e1" "e1 \<le> 0x7FF" by simp_all
    note q = q [OF this]
    show ?thesis using mid lo hi q m by (simp add: vaxResult_def rp flip: m_def)
  next
    case high
    have "1 \<le> expHi g" using go by simp
    note q = pack_fields(1) [OF p(2,3) this go(3) s]
    show ?thesis using high go lo hi q by (simp add: vaxResult_def rp flip: m_def)
  qed
qed

text \<open>Normalising moves the fraction up by at most c places; then the precision that is left decides.\<close>

lemma norm_result:
  assumes g: "geom_ok g" and F: "2 ^ (63 - c) \<le> unat (u_frac r)" "c \<le> 63"
    and y: "real (unat (u_frac r)) \<le> y" "y < real (unat (u_frac r)) + 2 ^ k"
    and k: "2 ^ k dvd unat (u_frac r)" "k + c \<le> 62 - fracBits g"
    and s: "u_sign r = 0 \<or> u_sign r = 1" and x: "x = y * 2 powi (u_exp r - 1088)"
  shows "vaxResult g chop unfEnable exc (u_sign r = 1) x (rpack (norm_ufp r) g chop unfEnable exc)"
proof -
  have "u_frac r \<noteq> 0" using F(1) by auto
  then obtain i where i: "unat (u_frac (norm_ufp r)) = unat (u_frac r) * 2 ^ i" "u_exp (norm_ufp r) = u_exp r - int i"
    "2 ^ 63 \<le> unat (u_frac (norm_ufp r))" "u_sign (norm_ufp r) = u_sign r" by (rule norm_ufp_spec)
  have "i \<le> c"
  proof (rule ccontr)
    assume "\<not> i \<le> c"
    then have "2 ^ Suc c \<le> (2 :: nat) ^ i" by (intro power_increasing) auto
    with F(1) have "2 ^ (63 - c) * 2 ^ Suc c \<le> unat (u_frac r) * 2 ^ i" by (rule mult_le_mono)
    moreover have "(2 :: nat) ^ (63 - c) * 2 ^ Suc c = 2 ^ 64" using F(2) by (simp only: power_add [symmetric]) simp
    ultimately have "2 ^ 64 \<le> unat (u_frac r) * 2 ^ i" by (simp only:)
    then show False using i(1) unsigned_less [of "u_frac (norm_ufp r)", where ?'a = nat] by simp
  qed
  moreover have "u_exp r - 1088 = u_exp (norm_ufp r) - 1088 + int i" using i(2) by simp
  then have "(2 :: real) powi (u_exp r - 1088) = 2 ^ i * 2 powi (u_exp (norm_ufp r) - 1088)" by (simp only: powi_shift)
  then have x1: "x = y * 2 ^ i * 2 powi (u_exp (norm_ufp r) - 1088)" using x by simp
  ultimately show ?thesis unfolding i(4) [symmetric]
  proof (intro rpack_result [OF g i(3) _ _ _ _ _ x1])
    show "real (unat (u_frac (norm_ufp r))) \<le> y * 2 ^ i" unfolding i(1) using y(1) by simp
    show "y * 2 ^ i < real (unat (u_frac (norm_ufp r))) + 2 ^ (k + i)"
      unfolding i(1) using y(2) by (simp add: power_add flip: distrib_right)
    show "2 ^ (k + i) dvd unat (u_frac (norm_ufp r))" unfolding i(1) using k(1) by (simp add: power_add)
  qed (use k(2) s i(4) in auto)
qed

section \<open>The operations\<close>

lemma unat_drop: "unat (drop_bit n (w :: 'a::len word)) = unat w div 2 ^ n"
  by (simp add: unat_drop_bit_eq drop_bit_eq_div [where ?'a = nat])

lemma sign_cases: "u_sign (fst (unpack op exc)) = 0 \<or> u_sign (fst (unpack op exc)) = 1"
proof (cases "vaxExp op = 0")
  case False
  have "x AND 1 = 0 \<or> x AND 1 = (1 :: u32)" for x :: u32 by (simp add: and_one_eq mod2_eq_if)
  with False show ?thesis by (simp add: unpack_eq)
qed (simp add: unpack_def Let_def vaxExp_def)

lemma sign_bit:
  assumes "vaxExp op \<noteq> 0"
  shows "u_sign (fst (unpack op exc)) = 1 \<longleftrightarrow> bit op 63"
proof -
  have "x AND 1 = (1 :: u32) \<longleftrightarrow> bit x 0" for x :: u32 by (simp add: and_one_eq mod2_eq_if bit_0)
  with assms show ?thesis by (simp add: unpack_eq bit_simps)
qed

lemma umul128_parts:
  "unat (fst (umul128 a b)) = (unat a * unat b) mod 2 ^ 64" "unat (snd (umul128 a b)) = (unat a * unat b) div 2 ^ 64"
proof -
  have ab: "unat a * unat b < 2 ^ 128"
  proof -
    have "unat a * unat b \<le> 2 ^ 64 * (2 ^ 64 - 1)"
      using unsigned_less [of a, where ?'a = nat] unsigned_less [of b, where ?'a = nat] by (intro mult_le_mono) auto
    then show ?thesis by simp
  qed
  have "unat ((ucast a :: 128 word) * ucast b) = unat a * unat b"
    using ab by (simp add: unat_word_ariths unsigned_ucast_eq take_bit_nat_eq_self unsigned_less [THEN less_trans])
  then show "unat (fst (umul128 a b)) = (unat a * unat b) mod 2 ^ 64" "unat (snd (umul128 a b)) = (unat a * unat b) div 2 ^ 64"
    using ab by (simp_all add: umul128_def Let_def unsigned_ucast_eq unat_drop take_bit_eq_mod [where ?'a = nat] div_less_iff_less_mult)
qed

lemma product_frac:
  assumes "2 ^ 63 \<le> unat a" "2 ^ 63 \<le> unat b"
  defines "P \<equiv> unat a * unat b" and "lo \<equiv> fst (umul128 a b)" and "hi \<equiv> snd (umul128 a b)"
  shows "drop_bit 63 hi \<noteq> 0 \<longleftrightarrow> 2 ^ 127 \<le> P"
    "2 ^ 127 \<le> P \<Longrightarrow> 2 ^ 63 \<le> unat hi \<and> unat hi = P div 2 ^ 64"
    "\<not> 2 ^ 127 \<le> P \<Longrightarrow> unat (push_bit 1 hi OR drop_bit 63 lo) = P div 2 ^ 63 \<and> 2 ^ 63 \<le> P div 2 ^ 63"
proof -
  have hi: "unat hi = P div 2 ^ 64" and lo: "unat lo = P mod 2 ^ 64" unfolding hi_def lo_def P_def by (rule umul128_parts)+
  have top: "drop_bit 63 hi \<noteq> 0 \<longleftrightarrow> 2 ^ 63 \<le> unat hi"
  proof -
    have "drop_bit 63 hi = 0 \<longleftrightarrow> unat hi div 2 ^ 63 = 0"
      by (simp add: unat_drop flip: unat_eq_zero)
    then show ?thesis by (simp add: div_eq_0_iff not_less)
  qed
  also have "\<dots> \<longleftrightarrow> 2 ^ 127 \<le> P" by (simp add: hi less_eq_div_iff_mult_less_eq)
  finally show c: "drop_bit 63 hi \<noteq> 0 \<longleftrightarrow> 2 ^ 127 \<le> P" .
  show "2 ^ 127 \<le> P \<Longrightarrow> 2 ^ 63 \<le> unat hi \<and> unat hi = P div 2 ^ 64" using hi top c by blast
  assume n: "\<not> 2 ^ 127 \<le> P"
  have "2 ^ 63 * 2 ^ 63 \<le> P" unfolding P_def using assms(1,2) by (rule mult_le_mono)
  then have "2 ^ 63 \<le> P div 2 ^ 63" by (simp add: less_eq_div_iff_mult_less_eq)
  moreover have nb: "\<not> bit hi 63" using n top c by (simp add: top_bit_unat)
  have d: "unat (push_bit 1 hi) = 2 * (P div 2 ^ 64)" by (simp only: unat_double [OF nb] hi)
  moreover have "push_bit 1 hi OR drop_bit 63 lo = push_bit 1 hi + drop_bit 63 lo"
  proof (subst disjunctive_add)
    fix n
    have "\<not> bit lo (63 + n)" if "1 \<le> n" using bit_imp_le_length [of lo "63 + n"] that by auto
    then show "\<not> bit (push_bit 1 hi) n \<or> \<not> bit (drop_bit 63 lo) n"
      by (simp only: bit_push_bit_iff bit_drop_bit_eq comp_apply) blast
  qed simp
  moreover have r: "unat (drop_bit 63 lo) = P mod 2 ^ 64 div 2 ^ 63"
    by (simp only: unat_drop lo)
  have e: "2 * (P div 2 ^ 64) + P mod 2 ^ 64 div 2 ^ 63 = P div 2 ^ 63"
    using div_mult2_eq [of P "2 ^ 63" 2] mod_mult2_eq [of P "2 ^ 63" 2] by simp
  have "unat (push_bit 1 hi + drop_bit 63 lo) = P div 2 ^ 63"
  proof -
    have "P div 2 ^ 63 < 2 ^ 64" using n by (simp add: div_less_iff_less_mult)
    then have "unat (push_bit 1 hi) + unat (drop_bit 63 lo) < 2 ^ LENGTH(64)" using d r e by simp
    then show ?thesis using d r e by (simp add: unat_word_ariths)
  qed
  ultimately show "unat (push_bit 1 hi OR drop_bit 63 lo) = P div 2 ^ 63 \<and> 2 ^ 63 \<le> P div 2 ^ 63" by simp
qed

lemma div_real_bounds:
  assumes "N = P div 2 ^ k"
  shows "real N \<le> real P / 2 ^ k" "real P / 2 ^ k < real N + 1"
proof -
  have "N * 2 ^ k \<le> P" "P < Suc N * 2 ^ k" using assms dividend_less_div_times [of "2 ^ k" P] by (simp_all add: algebra_simps)
  then have "real (N * 2 ^ k) \<le> real P" "real P < real (Suc N * 2 ^ k)" by (simp_all only: of_nat_le_iff of_nat_less_iff)
  then show "real N \<le> real P / 2 ^ k" "real P / 2 ^ k < real N + 1" by (simp_all add: field_simps)
qed

lemma unpack_split: "unpack op exc = (fst (unpack op exc), snd (unpack op exc))" by simp

lemma exp_of_unpack: "u_exp (fst (unpack op exc)) = vaxExp op"
  by (cases "vaxExp op = 0") (simp_all add: unpack_zero unpack_eq)

lemma xor_signs:
  fixes s t :: u32
  assumes "s = 0 \<or> s = 1" "t = 0 \<or> t = 1"
  shows "s XOR t = 0 \<or> s XOR t = 1" "s XOR t = 1 \<longleftrightarrow> (s = 1 \<longleftrightarrow> t \<noteq> 1)"
  using assms by auto

lemma product_sign:
  fixes exc :: u32
  assumes "vaxExp a \<noteq> 0" "vaxExp b \<noteq> 0"
  defines "s \<equiv> u_sign (fst (unpack a exc)) XOR u_sign (fst (unpack b exc))"
  shows "s = 0 \<or> s = 1" "s = 1 \<longleftrightarrow> bit a 63 \<noteq> bit b 63"
proof -
  note xs = xor_signs [OF sign_cases [of a exc] sign_cases [of b exc]]
  show "s = 0 \<or> s = 1" unfolding s_def by (rule xs(1))
  show "s = 1 \<longleftrightarrow> bit a 63 \<noteq> bit b 63" unfolding s_def xs(2) using assms(1,2) by (simp add: sign_bit)
qed

lemma mul_rounded:
  assumes g: "geom_ok g" and n: "vaxExp a \<noteq> 0" "vaxExp b \<noteq> 0"
  shows "vaxResult g chop unfEnable exc (bit a 63 \<noteq> bit b 63) (vaxMag a * vaxMag b) (vax_mul a b g chop unfEnable exc)"
proof -
  define ua ub where "ua = fst (unpack a exc)" and "ub = fst (unpack b exc)"
  let ?P = "unat (u_frac ua) * unat (u_frac ub)" and ?e = "vaxExp a + vaxExp b - kExpBias - 1"
  note sg = product_sign [OF n, of exc, folded ua_def ub_def]
  have top: "2 ^ 63 \<le> unat (u_frac ua)" "2 ^ 63 \<le> unat (u_frac ub)" unfolding ua_def ub_def by (rule unpacked_top, rule n)+
  note pf = product_frac [OF top]
  define r where "r = (if 2 ^ 127 \<le> ?P
      then ua\<lparr>u_sign := u_sign ua XOR u_sign ub, u_frac := snd (umul128 (u_frac ua) (u_frac ub)), u_exp := ?e + 1\<rparr>
      else ua\<lparr>u_sign := u_sign ua XOR u_sign ub,
              u_frac := push_bit 1 (snd (umul128 (u_frac ua) (u_frac ub))) OR drop_bit 63 (fst (umul128 (u_frac ua) (u_frac ub))),
              u_exp := ?e\<rparr>)"
  define k where "k = (if 2 ^ 127 \<le> ?P then 64 else 63 :: nat)"
  have f: "2 ^ 63 \<le> unat (u_frac r)" and N: "unat (u_frac r) = ?P div 2 ^ k"
    using pf(2,3) by (auto simp: r_def k_def)
  have er: "u_exp r = vaxExp a + vaxExp b - 1088 + int k" by (simp add: r_def k_def kExpBias_def)
  have v: "vax_mul a b g chop unfEnable exc = rpack (norm_ufp r) g chop unfEnable exc"
    using n pf(1) unfolding ua_def ub_def r_def
    by (simp add: vax_mul_def Let_def case_prod_beta exp_of_unpack unpack_eq(2) split: if_splits)
  have "vaxMag a * vaxMag b = uval ua * uval ub" by (simp add: ua_def ub_def uval_unpack)
  also have "\<dots> = real ?P * (2 powi (vaxExp a - 1088) * 2 powi (vaxExp b - 1088))"
    by (simp add: uval_def ua_def ub_def exp_of_unpack)
  also have "\<dots> = real ?P / 2 ^ k * 2 powi (u_exp r - 1088)"
  proof -
    have "u_exp r - 1088 = vaxExp a + vaxExp b - 2176 + int k" using er by simp
    then have "(2 :: real) powi (u_exp r - 1088) = 2 ^ k * 2 powi (vaxExp a + vaxExp b - 2176)" by (simp only: powi_shift)
    then show ?thesis by (simp add: power_int_add [symmetric])
  qed
  finally have x: "vaxMag a * vaxMag b = real ?P / 2 ^ k * 2 powi (u_exp r - 1088)" .
  have s: "u_sign r = 0 \<or> u_sign r = 1" "u_sign r = 1 \<longleftrightarrow> bit a 63 \<noteq> bit b 63" using sg by (simp_all add: r_def)
  show ?thesis unfolding v s(2) [symmetric]
    by (rule norm_result [OF g _ _ _ _ _ _ s(1) x, of 0 0]) (use f div_real_bounds [OF N] in auto)
qed

text \<open>A pair of quotient and quotient bits that divides D by a divisor, with the remainder left.\<close>

definition quotient_of :: "nat \<Rightarrow> u64 \<Rightarrow> nat \<Rightarrow> u64 \<times> nat \<Rightarrow> bool" where
  "quotient_of D dvr m p \<longleftrightarrow>
    (\<exists>rm. D * 2 ^ snd p = 2 * unat (fst p) * unat dvr + rm \<and> rm < 2 * unat dvr \<and> unat (fst p) < 2 ^ snd p \<and>
       snd p \<le> m \<and> (rm = 0 \<or> snd p = m))"

lemma ufdivLoop_quotient:
  assumes "unat dvnd < 2 * unat dvr" "unat dvr < 2 ^ 63" "D * 2 ^ i = 2 * unat quo * unat dvr + unat dvnd"
    "unat quo < 2 ^ i" "i + n \<le> 63"
  shows "quotient_of D dvr (i + n) (ufdivLoop n dvnd dvr quo i)"
  using assms
proof (induction n arbitrary: dvnd quo i)
  case 0
  then show ?case by (auto simp: quotient_of_def)
next
  case (Suc n)
  have i: "(2 :: nat) ^ i \<le> 2 ^ 62" using Suc.prems(5) by (intro power_increasing) auto
  then have q2: "unat (push_bit 1 quo) = 2 * unat quo"
    using Suc.prems(4) by (intro unat_double) (simp add: top_bit_unat)
  consider (stop) "dvnd = 0" | (one) "dvnd \<noteq> 0" "dvr \<le> dvnd" | (zero) "dvnd \<noteq> 0" "\<not> dvr \<le> dvnd" by blast
  then show ?case
  proof cases
    case stop
    then show ?thesis using Suc.prems by (auto simp: quotient_of_def)
  next
    case one
    then have d: "unat (dvnd - dvr) = unat dvnd - unat dvr" "unat dvr \<le> unat dvnd" by (simp_all add: unat_sub word_le_nat_alt)
    have q3: "unat (push_bit 1 quo + 1) = 2 * unat quo + 1"
      using q2 Suc.prems(4) i by (subst unat_word_ariths(1)) simp
    have d2: "unat (push_bit 1 (dvnd - dvr)) = 2 * (unat dvnd - unat dvr)"
      using d Suc.prems(1,2) by (subst unat_double) (auto simp: top_bit_unat)
    have "quotient_of D dvr (i + 1 + n) (ufdivLoop n (push_bit 1 (dvnd - dvr)) dvr (push_bit 1 quo + 1) (i + 1))"
    proof (rule Suc.IH)
      show "D * 2 ^ (i + 1) = 2 * unat (push_bit 1 quo + 1) * unat dvr + unat (push_bit 1 (dvnd - dvr))"
        unfolding q3 d2 using Suc.prems(3) d(2) by (simp add: algebra_simps diff_mult_distrib)
      show "unat (push_bit 1 quo + 1) < 2 ^ (i + 1)" unfolding q3 using Suc.prems(4) by simp
      show "unat (push_bit 1 (dvnd - dvr)) < 2 * unat dvr" unfolding d2 using Suc.prems(1) d(2) by simp
    qed (use Suc.prems in auto)
    with one show ?thesis by simp
  next
    case zero
    then have lt: "unat dvnd < unat dvr" by (simp add: word_le_nat_alt)
    then have d2: "unat (push_bit 1 dvnd) = 2 * unat dvnd" using Suc.prems(2) by (subst unat_double) (auto simp: top_bit_unat)
    have "quotient_of D dvr (i + 1 + n) (ufdivLoop n (push_bit 1 dvnd) dvr (push_bit 1 quo) (i + 1))"
    proof (rule Suc.IH)
      show "D * 2 ^ (i + 1) = 2 * unat (push_bit 1 quo) * unat dvr + unat (push_bit 1 dvnd)"
        unfolding q2 d2 using Suc.prems(3) by (simp add: algebra_simps)
      show "unat (push_bit 1 quo) < 2 ^ (i + 1)" unfolding q2 using Suc.prems(4) by simp
      show "unat (push_bit 1 dvnd) < 2 * unat dvr" unfolding d2 using lt by simp
    qed (use Suc.prems in auto)
    with zero show ?thesis by simp
  qed
qed

lemma unat_less_64: "unat (w :: u64) < 2 ^ 64"
  using unsigned_less [of w, where ?'a = nat] by simp

lemma ufdiv_quotient:
  assumes a: "2 ^ 62 \<le> unat a" "unat a < 2 ^ 63" and b: "2 ^ 62 \<le> unat b" "unat b < 2 ^ 63"
  defines "y \<equiv> real (unat a) / real (unat b) * 2 ^ 63"
  obtains k where "k \<le> 9" "2 ^ k dvd unat (ufdiv a b 55)" "real (unat (ufdiv a b 55)) \<le> y"
    "y < real (unat (ufdiv a b 55)) + 2 ^ k" "2 ^ 62 \<le> unat (ufdiv a b 55)"
proof -
  obtain q j where qj: "ufdivLoop 55 a b 0 0 = (q, j)" by force
  have "quotient_of (unat a) b (0 + 55) (ufdivLoop 55 a b 0 0)"
    using a b by (intro ufdivLoop_quotient) auto
  then obtain rm where r: "unat a * 2 ^ j = 2 * unat q * unat b + rm" "rm < 2 * unat b" "unat q < 2 ^ j" "j \<le> 55" "rm = 0 \<or> j = 55"
    by (auto simp: qj quotient_of_def)
  have j: "(2 :: nat) ^ j * 2 ^ (64 - j) = 2 ^ 64" using r(4) by (simp flip: power_add)
  then have lt: "unat q * 2 ^ (64 - j) < 2 ^ 64" using r(3) by (metis mult_less_cancel2 zero_less_power pos2)
  have "63 - j + 1 = 64 - j" using r(4) by simp
  then have "ufdiv a b 55 = push_bit (64 - j) q" by (simp only: ufdiv_def qj prod.case)
  then have u: "unat (ufdiv a b 55) = unat q * 2 ^ (64 - j)"
    using lt by (simp add: unsigned_push_bit_eq take_bit_nat_eq_self push_bit_eq_mult [where ?'a = nat])
  have "0 < unat b" using b(1) by (rule less_le_trans [rotated]) simp
  then have bp: "0 < real (unat b)" by (simp only: of_nat_0_less_iff)
  have "real (unat a) * 2 ^ j = 2 * real (unat q) * real (unat b) + real rm"
    using arg_cong [OF r(1), of real] by simp
  then have ratio: "real (unat a) / real (unat b) = (2 * real (unat q) + real rm / real (unat b)) / 2 ^ j"
    using bp by (simp add: field_simps)
  have j2: "(2 :: real) ^ 63 = 2 ^ j * 2 ^ (63 - j)" "(2 :: real) ^ (64 - j) = 2 * 2 ^ (63 - j)"
    using r(4) by (simp_all flip: power_add power_Suc add: Suc_diff_le)
  have "y = (2 * real (unat q) + real rm / real (unat b)) / 2 ^ j * (2 ^ j * 2 ^ (63 - j))"
    unfolding y_def by (simp only: ratio j2(1))
  then have "y = (2 * real (unat q) + real rm / real (unat b)) * 2 ^ (63 - j)" by simp
  then have y: "y = real (unat q) * 2 ^ (64 - j) + real rm / real (unat b) * 2 ^ (63 - j)"
    by (simp add: j2(2) distrib_right)
  have rb: "0 \<le> real rm / real (unat b)" "real rm / real (unat b) < 2"
    using bp r(2) of_nat_less_iff [of rm "2 * unat b", where ?'a = real] by (simp_all add: divide_less_eq)
  have "2 ^ 62 \<le> unat (ufdiv a b 55)"
  proof (cases "j < 2")
    case True
    then have "j = 0 \<or> j = 1" "rm = 0" using r(5) by auto
    then have "j = 1" "unat q = 1" using r(1,3) a(1) less_2_cases [of "unat q"] by auto
    then show ?thesis by (simp add: u)
  next
    case False
    have "2 ^ 62 * 2 ^ j \<le> unat a * 2 ^ j" using a(1) by simp
    also have "\<dots> < 2 * (unat q + 1) * unat b" using r(1,2) by (simp add: algebra_simps)
    also have "\<dots> \<le> 2 * (unat q + 1) * 2 ^ 63" using b(2) by (intro mult_le_mono2) simp
    finally have q: "2 ^ j < 4 * (unat q + 1)" by simp
    have "2 + (j - 2) = j" "j - 2 + (64 - j) = 62" using False r(4) by simp_all
    then have p: "(2 :: nat) ^ j = 4 * 2 ^ (j - 2)" "(2 :: nat) ^ 62 = 2 ^ (j - 2) * 2 ^ (64 - j)"
      using power_add [of "2 :: nat" 2 "j - 2"] power_add [of "2 :: nat" "j - 2" "64 - j"] by simp_all
    from q have "2 ^ (j - 2) \<le> unat q" unfolding p(1) by simp
    then show ?thesis unfolding u p(2) by (rule mult_le_mono1)
  qed
  moreover have "\<exists>k \<le> 9. 2 ^ k dvd unat (ufdiv a b 55) \<and> y < real (unat (ufdiv a b 55)) + 2 ^ k"
  proof (cases "rm = 0")
    case True
    then show ?thesis using y u by (intro exI [of _ 0]) simp
  next
    case False
    then have j: "64 - j = 9" using r(5) by simp
    have "real rm / real (unat b) * 2 ^ (63 - j) < 2 * 2 ^ (63 - j)" by (intro mult_strict_right_mono rb(2)) simp
    then have "y < real (unat (ufdiv a b 55)) + 2 ^ (64 - j)" unfolding y u by (simp add: j2(2))
    moreover have "2 ^ (64 - j) dvd unat (ufdiv a b 55)" unfolding u by simp
    ultimately show ?thesis unfolding j by blast
  qed
  moreover have "real (unat (ufdiv a b 55)) \<le> y" unfolding y u using mult_nonneg_nonneg [OF rb(1), of "2 ^ (63 - j)"] by simp
  ultimately show thesis using that by blast
qed

lemma div_rounded:
  assumes g: "geom_ok g" and n: "vaxExp a \<noteq> 0" "vaxExp b \<noteq> 0"
  shows "vaxResult g chop unfEnable exc (bit a 63 \<noteq> bit b 63) (vaxMag a / vaxMag b) (vax_div a b g chop unfEnable exc)"
proof -
  define ua ub where "ua = fst (unpack a exc)" and "ub = fst (unpack b exc)"
  note sg = product_sign [OF n, of exc, folded ua_def ub_def]
  note u = unat_unpacked [OF n(1), of exc, folded ua_def] unat_unpacked [OF n(2), of exc, folded ub_def]
  have h: "unat (drop_bit 1 (u_frac ua)) * 2 = unat (u_frac ua)" "unat (drop_bit 1 (u_frac ub)) * 2 = unat (u_frac ub)"
    by (simp_all only: unat_drop u) simp_all
  have top: "2 ^ 63 \<le> unat (u_frac ua)" "2 ^ 63 \<le> unat (u_frac ub)" unfolding ua_def ub_def by (rule unpacked_top, rule n)+
  have lt: "unat (u_frac ua) < 2 ^ 64" "unat (u_frac ub) < 2 ^ 64" by (rule unat_less_64)+
  define r where "r = ua\<lparr>u_sign := u_sign ua XOR u_sign ub, u_exp := vaxExp a - vaxExp b + kExpBias + 1,
                      u_frac := ufdiv (drop_bit 1 (u_frac ua)) (drop_bit 1 (u_frac ub)) 55\<rparr>"
  let ?y = "real (unat (drop_bit 1 (u_frac ua))) / real (unat (drop_bit 1 (u_frac ub))) * 2 ^ 63"
  have b: "2 ^ 62 \<le> unat (drop_bit 1 (u_frac ua))" "unat (drop_bit 1 (u_frac ua)) < 2 ^ 63"
    "2 ^ 62 \<le> unat (drop_bit 1 (u_frac ub))" "unat (drop_bit 1 (u_frac ub)) < 2 ^ 63" using h top lt by simp_all
  obtain k where k: "k \<le> 9" "2 ^ k dvd unat (u_frac r)" "real (unat (u_frac r)) \<le> ?y" "?y < real (unat (u_frac r)) + 2 ^ k"
    "2 ^ 62 \<le> unat (u_frac r)"
    using ufdiv_quotient [OF b] by (auto simp: r_def)
  have v: "vax_div a b g chop unfEnable exc = rpack (norm_ufp r) g chop unfEnable exc"
    using n unfolding r_def ua_def ub_def by (simp add: vax_div_def Let_def case_prod_beta exp_of_unpack unpack_eq(2))
  have "vaxMag a / vaxMag b = uval ua / uval ub" by (simp add: ua_def ub_def uval_unpack)
  also have "\<dots> = real (unat (u_frac ua)) / real (unat (u_frac ub)) * 2 powi (vaxExp a - vaxExp b)"
    by (simp add: uval_def ua_def ub_def exp_of_unpack power_int_diff)
  also have "\<dots> = ?y * 2 powi (u_exp r - 1088)"
  proof -
    have "vaxExp a - vaxExp b = u_exp r - 1088 + int 63" by (simp add: r_def kExpBias_def)
    then have "2 powi (vaxExp a - vaxExp b) = (2 ^ 63 * 2 powi (u_exp r - 1088) :: real)" by (simp only: powi_shift)
    then show ?thesis by (simp flip: h)
  qed
  finally have x: "vaxMag a / vaxMag b = ?y * 2 powi (u_exp r - 1088)" .
  have s: "u_sign r = 0 \<or> u_sign r = 1" "u_sign r = 1 \<longleftrightarrow> bit a 63 \<noteq> bit b 63" using sg by (simp_all add: r_def)
  have "k + 1 \<le> 62 - fracBits g" using g k(1) by (auto simp: geom_ok_def)
  then show ?thesis unfolding v s(2) [symmetric]
    by (intro norm_result [where c = 1, OF g _ _ k(3,4,2) _ s(1) x]) (use k(5) in auto)
qed

text \<open>The sum of two aligned fractions, with the carry moved into the exponent.\<close>

definition carrySum :: "Ufp \<Rightarrow> u64 \<Rightarrow> Ufp" where
  "carrySum p bf = (let s = u_frac p + bf
     in if s < bf then p\<lparr>u_frac := drop_bit 1 s OR kNormBit, u_exp := u_exp p + 1\<rparr> else p\<lparr>u_frac := s\<rparr>)"

lemma unat_or_top: "unat (drop_bit 1 w OR kNormBit) = unat (drop_bit 1 w) + unat kNormBit"
proof -
  have n: "unat kNormBit = 2 ^ 63" by (simp add: kNormBit_def)
  have b: "bit kNormBit i \<longleftrightarrow> i = 63" for i by (simp only: kNormBit_def bit_push_bit_iff bit_1_iff) auto
  have "\<not> bit w (1 + 63)" using bit_imp_le_length [of w 64] by auto
  then have "drop_bit 1 w OR kNormBit = drop_bit 1 w + kNormBit"
    by (subst disjunctive_add) (auto simp: bit_drop_bit_eq b)
  moreover have "unat (drop_bit 1 w) < 2 ^ 63" using unat_less_64 [of w] by (simp only: unat_drop) (simp add: div_less_iff_less_mult)
  ultimately show ?thesis using n by (simp add: unat_word_ariths)
qed

lemma carrySum_spec:
  assumes "2 ^ 63 \<le> unat (u_frac p)"
  obtains k where "unat (u_frac (carrySum p bf)) = (unat (u_frac p) + unat bf) div 2 ^ k" "u_exp (carrySum p bf) = u_exp p + int k"
    "2 ^ 63 \<le> unat (u_frac (carrySum p bf))" "u_sign (carrySum p bf) = u_sign p"
proof (cases "unat (u_frac p) + unat bf < 2 ^ 64")
  case True
  then have u: "unat (u_frac p + bf) = unat (u_frac p) + unat bf" by (simp add: unat_word_ariths)
  then have "\<not> u_frac p + bf < bf" by (simp add: word_less_nat_alt)
  then show thesis using u assms by (intro that [of 0]) (simp_all add: carrySum_def)
next
  case False
  have lt: "unat (u_frac p) < 2 ^ 64" "unat bf < 2 ^ 64" by (rule unat_less_64)+
  then have u: "unat (u_frac p + bf) = unat (u_frac p) + unat bf - 2 ^ 64"
    using False by (simp add: unat_word_ariths le_mod_geq)
  then have c: "u_frac p + bf < bf" using lt False by (simp add: word_less_nat_alt)
  have "unat (drop_bit 1 (u_frac p + bf) OR kNormBit) = unat (drop_bit 1 (u_frac p + bf)) + unat kNormBit"
    by (rule unat_or_top)
  then have "unat (u_frac (carrySum p bf)) = (unat (u_frac p) + unat bf) div 2" using c u False
    by (simp add: carrySum_def Let_def unat_drop kNormBit_def)
  then show thesis using c lt False by (intro that [of 1]) (simp_all add: carrySum_def Let_def)
qed

lemma addsub_aligned:
  assumes p: "2 ^ 63 \<le> unat (u_frac p)" and e: "u_exp q \<le> u_exp p" and g: "geom_ok g"
    and s: "u_sign p = 0 \<or> u_sign p = 1"
  defines "sh \<equiv> nat (u_exp p - u_exp q)"
  defines "bf \<equiv> if sh \<ge> 64 then 0 else drop_bit sh (u_frac q)"
  shows "vaxResult g chop unfEnable exc (u_sign p = 1) (uval p + uval q)
           (rpack (norm_ufp (carrySum p bf)) g chop unfEnable exc)"
proof -
  obtain k where k: "unat (u_frac (carrySum p bf)) = (unat (u_frac p) + unat bf) div 2 ^ k" "u_exp (carrySum p bf) = u_exp p + int k"
    "2 ^ 63 \<le> unat (u_frac (carrySum p bf))" "u_sign (carrySum p bf) = u_sign p"
    using carrySum_spec [OF p] by metis
  have bf: "unat bf = unat (u_frac q) div 2 ^ sh"
  proof (cases "sh \<ge> 64")
    case True
    then have "unat (u_frac q) < 2 ^ sh" using unat_less_64 [of "u_frac q"] power_increasing [of 64 sh "2 :: nat"] by linarith
    then show ?thesis using True by (simp add: bf_def)
  qed (simp add: bf_def unat_drop)
  have "unat (u_frac p) + unat bf = (unat (u_frac p) * 2 ^ sh + unat (u_frac q)) div 2 ^ sh" by (simp add: bf)
  then have N: "unat (u_frac (carrySum p bf)) = (unat (u_frac p) * 2 ^ sh + unat (u_frac q)) div 2 ^ (sh + k)"
    by (simp only: k(1) div_mult2_eq [symmetric] power_add)
  have "u_exp p - 1088 = u_exp q - 1088 + int sh" "u_exp (carrySum p bf) - 1088 = u_exp q - 1088 + int (sh + k)"
    using e k(2) by (simp_all add: sh_def)
  then have "(2 :: real) powi (u_exp p - 1088) = 2 ^ sh * 2 powi (u_exp q - 1088)"
    "(2 :: real) powi (u_exp (carrySum p bf) - 1088) = 2 ^ (sh + k) * 2 powi (u_exp q - 1088)" by (simp_all only: powi_shift)
  then have x: "uval p + uval q = real (unat (u_frac p) * 2 ^ sh + unat (u_frac q)) / 2 ^ (sh + k) * 2 powi (u_exp (carrySum p bf) - 1088)"
    by (simp add: uval_def) (simp add: field_simps)
  show ?thesis unfolding k(4) [symmetric]
    by (rule norm_result [where c = 0 and k = 0, OF g _ _ _ _ _ _ _ x]) (use k(3,4) s g div_real_bounds [OF N] in auto)
qed

lemma add_rounded:
  assumes g: "geom_ok g" and n: "vaxExp a \<noteq> 0" "vaxExp b \<noteq> 0" and s: "bit b 63 = (bit a 63 \<noteq> sub)"
  shows "vaxResult g chop unfEnable exc (bit a 63) (vaxMag a + vaxMag b) (vax_addsub a b sub g chop unfEnable exc)"
proof -
  define ua ub where "ua = fst (unpack a exc)"
    and "ub = (let u = fst (unpack b exc) in if sub then u\<lparr>u_sign := u_sign u XOR 1\<rparr> else u)"
  have uv: "uval ua = vaxMag a" "uval ub = vaxMag b" "u_exp ua = vaxExp a" "u_exp ub = vaxExp b"
    "u_frac ub = u_frac (fst (unpack b exc))"
    using uval_unpack [of a exc] uval_unpack [of b exc] by (simp_all add: ua_def ub_def Let_def uval_def exp_of_unpack)
  have top: "2 ^ 63 \<le> unat (u_frac ua)" "2 ^ 63 \<le> unat (u_frac ub)"
    unfolding ua_def uv(5) by (rule unpacked_top, rule n)+
  have sa: "u_sign ua = 0 \<or> u_sign ua = 1" "u_sign ua = 1 \<longleftrightarrow> bit a 63" unfolding ua_def
    using sign_cases [of a exc] sign_bit [OF n(1), of exc] by auto
  have sb: "u_sign ub = u_sign ua"
    using s sa sign_bit [OF n(2), of exc] sign_cases [of b exc] by (auto simp: ub_def Let_def)
  note al = addsub_aligned [OF top(1) _ g, of ub] addsub_aligned [OF top(2) _ g, of ua]
  have v: "vax_addsub a b sub g chop unfEnable exc =
     (let (p, q) = (if vaxExp a < vaxExp b then (ub, ua) else (ua, ub)); sh = nat (u_exp p - u_exp q);
          bf = (if sh \<ge> 64 then 0 else drop_bit sh (u_frac q))
      in rpack (norm_ufp (carrySum p bf)) g chop unfEnable exc)"
    using n uv(3,4) sb unfolding vax_addsub_def Let_def
    by (simp add: case_prod_beta unpack_eq(2) carrySum_def Let_def flip: ua_def ub_def [unfolded Let_def])
  show ?thesis
  proof (cases "vaxExp a < vaxExp b")
    case True
    then show ?thesis using al(2) sa sb uv by (simp add: v Let_def add.commute)
  next
    case False
    then show ?thesis using al(1) sa uv by (simp add: v Let_def)
  qed
qed

section \<open>Subtraction and square root\<close>

lemma norm_exact:
  assumes g: "geom_ok g" and F: "u_frac r \<noteq> 0" and s: "u_sign r = 0 \<or> u_sign r = 1"
  shows "vaxResult g chop unfEnable exc (u_sign r = 1) (uval r) (rpack (norm_ufp r) g chop unfEnable exc)"
proof -
  obtain i where i: "unat (u_frac (norm_ufp r)) = unat (u_frac r) * 2 ^ i" "u_exp (norm_ufp r) = u_exp r - int i"
    "2 ^ 63 \<le> unat (u_frac (norm_ufp r))" "u_sign (norm_ufp r) = u_sign r" using F by (rule norm_ufp_spec)
  have "u_exp r - 1088 = u_exp (norm_ufp r) - 1088 + int i" using i(2) by simp
  then have "(2 :: real) powi (u_exp r - 1088) = 2 ^ i * 2 powi (u_exp (norm_ufp r) - 1088)" by (simp only: powi_shift)
  then have "uval r = real (unat (u_frac (norm_ufp r))) * 2 powi (u_exp (norm_ufp r) - 1088)"
    unfolding i(1) by (simp add: uval_def)
  then show ?thesis unfolding i(4) [symmetric]
    by (intro rpack_result [OF g i(3), of _ 0]) (use s i(4) in auto)
qed

text \<open>
  The difference of two unpacked operands of opposite sign, the first of the larger exponent. The
  code takes the first to be the larger magnitude, which it need not be when the exponents agree.
\<close>

lemma sub_unpacked:
  fixes exc :: u32
  assumes n: "vaxExp a \<noteq> 0" "vaxExp b \<noteq> 0" and s: "bit b 63 = (bit a 63 = sub)"
  defines "ua \<equiv> fst (unpack a exc)" and "ub \<equiv> (let u = fst (unpack b exc) in if sub then u\<lparr>u_sign := u_sign u XOR 1\<rparr> else u)"
  shows "vax_addsub a b sub g chop unfEnable exc =
     (let (p, q) = (if vaxExp a < vaxExp b then (ub, ua) else (ua, ub)); sh = nat (u_exp p - u_exp q);
          bf = (if sh \<ge> 64 then 0 else drop_bit sh (u_frac q))
      in rpack (norm_ufp (p\<lparr>u_frac := u_frac p - bf\<rparr>)) g chop unfEnable exc)"
    "u_sign ua = 0 \<or> u_sign ua = 1" "u_sign ua = 1 \<longleftrightarrow> bit a 63" "u_sign ub = 0 \<or> u_sign ub = 1" "u_sign ub = 1 \<longleftrightarrow> \<not> bit a 63"
proof -
  have e: "u_exp ua = vaxExp a" "u_exp ub = vaxExp b" by (simp_all add: ua_def ub_def Let_def exp_of_unpack)
  show sa: "u_sign ua = 0 \<or> u_sign ua = 1" "u_sign ua = 1 \<longleftrightarrow> bit a 63" unfolding ua_def
    using sign_cases [of a exc] sign_bit [OF n(1), of exc] by auto
  show sb: "u_sign ub = 0 \<or> u_sign ub = 1" "u_sign ub = 1 \<longleftrightarrow> \<not> bit a 63"
    using s sign_bit [OF n(2), of exc] sign_cases [of b exc] by (auto simp: ub_def Let_def)
  have ne: "u_sign ua \<noteq> u_sign ub" using sa sb by auto
  show "vax_addsub a b sub g chop unfEnable exc =
     (let (p, q) = (if vaxExp a < vaxExp b then (ub, ua) else (ua, ub)); sh = nat (u_exp p - u_exp q);
          bf = (if sh \<ge> 64 then 0 else drop_bit sh (u_frac q))
      in rpack (norm_ufp (p\<lparr>u_frac := u_frac p - bf\<rparr>)) g chop unfEnable exc)"
    using n e ne unfolding vax_addsub_def Let_def
    by (simp add: case_prod_beta unpack_eq(2) flip: ua_def ub_def [unfolded Let_def])
qed

lemma shifted_exact:
  assumes "2 ^ 11 dvd unat (u_frac q)" "u_exp q \<le> u_exp p" "u_exp p - u_exp q \<le> 11"
  shows "uval q = real (unat (drop_bit (nat (u_exp p - u_exp q)) (u_frac q))) * 2 powi (u_exp p - 1088)"
proof -
  let ?s = "nat (u_exp p - u_exp q)"
  have "2 ^ ?s dvd unat (u_frac q)" using assms by (intro dvd_trans [OF le_imp_power_dvd [of _ 11] assms(1)]) simp
  then have "unat (drop_bit ?s (u_frac q)) * 2 ^ ?s = unat (u_frac q)" by (simp add: unat_drop)
  then have "real (unat (drop_bit ?s (u_frac q))) * 2 ^ ?s = real (unat (u_frac q))" by (metis of_nat_mult of_nat_numeral of_nat_power)
  moreover have "u_exp p - 1088 = u_exp q - 1088 + int ?s" using assms(2) by simp
  then have "(2 :: real) powi (u_exp p - 1088) = 2 ^ ?s * 2 powi (u_exp q - 1088)" by (simp only: powi_shift)
  ultimately show ?thesis by (simp add: uval_def)
qed

lemma sub_aligned:
  assumes g: "geom_ok g" and s: "u_sign p = 0 \<or> u_sign p = 1"
    and q: "2 ^ 11 dvd unat (u_frac q)" "u_exp q \<le> u_exp p" "u_exp p - u_exp q \<le> 11" and lt: "uval q < uval p"
  defines "sh \<equiv> nat (u_exp p - u_exp q)"
  defines "bf \<equiv> if sh \<ge> 64 then 0 else drop_bit sh (u_frac q)"
  shows "vaxResult g chop unfEnable exc (u_sign p = 1) (uval p - uval q)
           (rpack (norm_ufp (p\<lparr>u_frac := u_frac p - bf\<rparr>)) g chop unfEnable exc)"
proof -
  have bf: "bf = drop_bit (nat (u_exp p - u_exp q)) (u_frac q)" 
  proof -
    have "sh < 64" using q(3) by (simp add: sh_def)
    then show ?thesis by (simp add: bf_def sh_def)
  qed
  note se = shifted_exact [OF q, folded bf]
  have pos: "(0 :: real) < 2 powi (u_exp p - 1088)" by simp
  have "real (unat bf) < real (unat (u_frac p))" using lt unfolding se by (simp add: uval_def)
  then have "unat bf < unat (u_frac p)" by (simp only: of_nat_less_iff)
  then have u: "unat (u_frac p - bf) = unat (u_frac p) - unat bf" "unat bf \<le> unat (u_frac p)" "u_frac p - bf \<noteq> 0"
    by (auto simp: unat_sub word_le_nat_alt)
  have "uval p - uval q = real (unat (u_frac p) - unat bf) * 2 powi (u_exp p - 1088)"
    unfolding se using u(2) by (simp add: uval_def of_nat_diff left_diff_distrib)
  also have "\<dots> = uval (p\<lparr>u_frac := u_frac p - bf\<rparr>)" unfolding uval_def u(1) [symmetric] by simp
  finally have x: "uval p - uval q = uval (p\<lparr>u_frac := u_frac p - bf\<rparr>)" .
  show ?thesis unfolding x using norm_exact [OF g, of "p\<lparr>u_frac := u_frac p - bf\<rparr>"] u(3) s by simp
qed

lemma unpacked_guard: "2 ^ 11 dvd unat (u_frac (fst (unpack op exc)))"
  by (cases "vaxExp op = 0") (simp_all add: unpack_zero unat_unpacked)

lemma sub_rounded:
  assumes g: "geom_ok g" and n: "vaxExp a \<noteq> 0" "vaxExp b \<noteq> 0" and s: "bit b 63 = (bit a 63 = sub)"
    and e: "vaxExp a \<noteq> vaxExp b \<or> vaxMag b < vaxMag a" "\<bar>vaxExp a - vaxExp b\<bar> \<le> 11"
  shows "vaxResult g chop unfEnable exc (bit a 63 = (vaxMag b < vaxMag a)) \<bar>vaxMag a - vaxMag b\<bar>
           (vax_addsub a b sub g chop unfEnable exc)"
proof -
  define ua ub where "ua = fst (unpack a exc)"
    and "ub = (let u = fst (unpack b exc) in if sub then u\<lparr>u_sign := u_sign u XOR 1\<rparr> else u)"
  note v = sub_unpacked [OF n s, where exc = exc, folded ua_def ub_def]
  have uv: "uval ua = vaxMag a" "uval ub = vaxMag b" "u_exp ua = vaxExp a" "u_exp ub = vaxExp b"
    "u_frac ub = u_frac (fst (unpack b exc))"
    using uval_unpack [of a exc] uval_unpack [of b exc] by (simp_all add: ua_def ub_def Let_def uval_def exp_of_unpack)
  have gd: "2 ^ 11 dvd unat (u_frac ua)" "2 ^ 11 dvd unat (u_frac ub)" unfolding ua_def uv(5) by (rule unpacked_guard)+
  have top: "2 ^ 63 \<le> unat (u_frac ua)" "2 ^ 63 \<le> unat (u_frac ub)"
    unfolding ua_def uv(5) by (rule unpacked_top, rule n)+
  note ba = binade_bounds [OF top(1) unat_less_64, of "vaxExp a"] and bb = binade_bounds [OF top(2) unat_less_64, of "vaxExp b"]
  have ma: "vaxMag a = real (unat (u_frac ua)) * 2 powi (vaxExp a - 1088)" "vaxMag b = real (unat (u_frac ub)) * 2 powi (vaxExp b - 1088)"
    using uv by (simp_all add: uval_def)
  have small: "vaxExp a < vaxExp b \<Longrightarrow> vaxMag a < vaxMag b" "vaxExp b < vaxExp a \<Longrightarrow> vaxMag b < vaxMag a"
    using ba bb powi_le [of "vaxExp a - 1024" "vaxExp b - 1025"] powi_le [of "vaxExp b - 1024" "vaxExp a - 1025"]
    unfolding ma by linarith+
  show ?thesis
  proof (cases "vaxExp a < vaxExp b")
    case True
    have "vaxResult g chop unfEnable exc (u_sign ub = 1) (uval ub - uval ua) (vax_addsub a b sub g chop unfEnable exc)"
      unfolding v(1) using sub_aligned [OF g v(4) gd(1)] True small(1) e(2) uv by (simp add: Let_def)
    then show ?thesis using v(5) uv small(1) True by simp
  next
    case False
    with e(1) small(2) have lt: "vaxMag b < vaxMag a" by linarith
    have "vaxResult g chop unfEnable exc (u_sign ua = 1) (uval ua - uval ub) (vax_addsub a b sub g chop unfEnable exc)"
      unfolding v(1) using sub_aligned [OF g v(2) gd(2)] False lt e(2) uv by (simp add: Let_def)
    then show ?thesis using v(3) uv lt by simp
  qed
qed

lemma unat_diff_wrap:
  assumes "unat x < unat (y :: u64)"
  shows "unat (x - y) + unat y = 2 ^ 64 + unat x"
proof -
  have m: "unat x = (unat (x - y) + unat y) mod 2 ^ 64" using unat_word_ariths(1) [of "x - y" y] by simp
  have ge: "2 ^ 64 \<le> unat (x - y) + unat y"
  proof (rule ccontr)
    assume "\<not> 2 ^ 64 \<le> unat (x - y) + unat y"
    then have "unat x = unat (x - y) + unat y" using m by simp
    then show False using assms by simp
  qed
  have "unat (x - y) + unat y - 2 ^ 64 < 2 ^ 64" using unat_less_64 [of "x - y"] unat_less_64 [of y] by linarith
  then have "unat x = unat (x - y) + unat y - 2 ^ 64" using m ge by (simp only: le_mod_geq mod_less)
  then show ?thesis using ge by linarith
qed

text \<open>With equal exponents and the smaller magnitude first the difference wraps.\<close>

lemma sub_wraps:
  assumes g: "geom_ok g" and n: "vaxExp a \<noteq> 0" "vaxExp b = vaxExp a" and s: "bit b 63 = (bit a 63 = sub)"
    and lt: "vaxMag a < vaxMag b"
  shows "vaxResult g chop unfEnable exc (bit a 63) (2 powi (vaxExp a - 1024) - (vaxMag b - vaxMag a))
           (vax_addsub a b sub g chop unfEnable exc)"
proof -
  define ua ub where "ua = fst (unpack a exc)"
    and "ub = (let u = fst (unpack b exc) in if sub then u\<lparr>u_sign := u_sign u XOR 1\<rparr> else u)"
  have nb: "vaxExp b \<noteq> 0" using n by simp
  note v = sub_unpacked [OF n(1) nb s, where exc = exc, folded ua_def ub_def]
  have uv: "uval ua = vaxMag a" "uval ub = vaxMag b" "u_exp ua = vaxExp a" "u_exp ub = vaxExp a"
    using uval_unpack [of a exc] uval_unpack [of b exc] n(2) by (simp_all add: ua_def ub_def Let_def uval_def exp_of_unpack)
  have "real (unat (u_frac ua)) < real (unat (u_frac ub))" using lt uv by (simp add: uval_def flip: uv(1,2))
  then have l: "unat (u_frac ua) < unat (u_frac ub)" by (simp only: of_nat_less_iff)
  let ?r = "ua\<lparr>u_frac := u_frac ua - u_frac ub\<rparr>"
  have w: "unat (u_frac ua - u_frac ub) + unat (u_frac ub) = 2 ^ 64 + unat (u_frac ua)"
    using l by (rule unat_diff_wrap)
  have "real (unat (u_frac ua - u_frac ub)) + real (unat (u_frac ub)) = 2 ^ 64 + real (unat (u_frac ua))"
    using arg_cong [OF w, of real] by simp
  then have "real (unat (u_frac ua - u_frac ub)) = 2 ^ 64 + real (unat (u_frac ua)) - real (unat (u_frac ub))" by linarith
  moreover have "(2 :: real) powi (vaxExp a - 1024) = 2 ^ 64 * 2 powi (vaxExp a - 1088)" using powi_shift [of "vaxExp a - 1088" 64] by simp
  ultimately have x: "2 powi (vaxExp a - 1024) - (vaxMag b - vaxMag a) = uval ?r"
    unfolding uv(1,2) [symmetric] by (simp add: uval_def uv(3,4) left_diff_distrib distrib_right)
  have "?r = ua\<lparr>u_frac := u_frac ua - u_frac ub\<rparr>" "u_frac ua - u_frac ub \<noteq> 0" using l by auto
  then show ?thesis unfolding v(1) x using norm_exact [OF g, of ?r] v(2,3) uv(3,4) n(2) by (simp add: Let_def)
qed

lemma umul128_compare:
  "snd (umul128 w w) < hi \<or> snd (umul128 w w) = hi \<and> fst (umul128 w w) \<le> lo
     \<longleftrightarrow> (unat w) ^ 2 \<le> unat hi * 2 ^ 64 + unat lo"
proof -
  define H L where "H = unat (snd (umul128 w w))" and "L = unat (fst (umul128 w w))"
  have "(unat w) ^ 2 = H * 2 ^ 64 + L" unfolding H_def L_def umul128_parts power2_eq_square by simp
  moreover have "L < 2 ^ 64" "unat lo < 2 ^ 64" unfolding L_def by (rule unat_less_64)+
  moreover have "snd (umul128 w w) < hi \<or> snd (umul128 w w) = hi \<and> fst (umul128 w w) \<le> lo
     \<longleftrightarrow> H < unat hi \<or> H = unat hi \<and> L \<le> unat lo"
    by (auto simp: H_def L_def word_less_nat_alt word_le_nat_alt dest: unsigned_word_eqI)
  ultimately show ?thesis by auto
qed

lemma rootLoop_spec:
  fixes radHi radLo :: u64
  defines "R \<equiv> unat radHi * 2 ^ 64 + unat radLo"
  assumes "(unat rt) ^ 2 \<le> R" "R < (unat rt + 2 ^ n) ^ 2" "2 ^ n dvd unat rt" "n \<le> 64"
  shows "(unat (rootLoop n radHi radLo rt)) ^ 2 \<le> R \<and> R < (unat (rootLoop n radHi radLo rt) + 1) ^ 2"
  using assms(2-5)
proof (induction n arbitrary: rt)
  case 0
  then show ?case by simp
next
  case (Suc n)
  define trial where "trial = rt OR 2 ^ n"
  have "\<not> bit rt n"
  proof -
    from Suc.prems(3) obtain c where "unat rt = 2 ^ Suc n * c" by (rule dvdE)
    then have "even (unat rt div 2 ^ n)" by simp
    then show ?thesis by (metis bit_unat bit_iff_odd)
  qed
  moreover have bp: "bit (push_bit n 1 :: u64) i \<longleftrightarrow> i = n \<and> n < 64" for i by (auto simp: push_bit_of_1 bit_exp_iff)
  ultimately have tr: "trial = rt + push_bit n 1" unfolding trial_def push_bit_of_1 by (subst disjunctive_add) (auto simp: push_bit_of_1)
  have n: "n < 64" using Suc.prems(4) by simp
  have one: "unat (push_bit n 1 :: u64) = 2 ^ n"
  proof -
    have "unat (of_nat (2 ^ n) :: u64) = 2 ^ n" using n by (simp only: unsigned_of_nat) (simp add: take_bit_nat_eq_self)
    then show ?thesis by (simp add: push_bit_of_1)
  qed
  have "2 ^ Suc n dvd (2 :: nat) ^ 64" using Suc.prems(4) by (rule le_imp_power_dvd)
  then have "2 ^ Suc n dvd 2 ^ 64 - unat rt" using Suc.prems(3) by (rule dvd_diff_nat)
  then have "2 ^ Suc n \<le> 2 ^ 64 - unat rt" using unat_less_64 [of rt] by (intro dvd_imp_le) auto
  then have "unat rt + 2 ^ n < 2 ^ LENGTH(64)" using unat_less_64 [of rt] zero_less_power [of "2 :: nat" n] by simp
  then have t: "unat trial = unat rt + 2 ^ n" unfolding tr using one by (simp add: unat_word_ariths)
  have d: "2 ^ n dvd unat rt" using Suc.prems(3) by (simp add: power_Suc dvd_mult_right)
  have c: "snd (umul128 trial trial) < radHi \<or> snd (umul128 trial trial) = radHi \<and> fst (umul128 trial trial) \<le> radLo
      \<longleftrightarrow> (unat trial) ^ 2 \<le> R"
    using umul128_compare [of trial radHi radLo] by (simp add: R_def)
  show ?case
  proof (cases "(unat trial) ^ 2 \<le> R")
    case True
    have "(unat (rootLoop n radHi radLo trial)) ^ 2 \<le> R \<and> R < (unat (rootLoop n radHi radLo trial) + 1) ^ 2"
      using True Suc.prems(2) t d n by (intro Suc.IH) (auto simp: mult_2 add.assoc)
    then show ?thesis using c True by (simp add: Let_def case_prod_beta flip: trial_def)
  next
    case False
    have "(unat (rootLoop n radHi radLo rt)) ^ 2 \<le> R \<and> R < (unat (rootLoop n radHi radLo rt) + 1) ^ 2"
      using False Suc.prems(1) t d n by (intro Suc.IH) auto
    then show ?thesis using c False by (auto simp: Let_def case_prod_beta simp flip: trial_def)
  qed
qed

lemma root_bounds:
  assumes m: "2 ^ 62 \<le> unat m"
  defines "rt \<equiv> rootLoop 64 (drop_bit 2 m) (push_bit 62 m) 0"
  shows "real (unat rt) \<le> sqrt (real (unat m) * 2 ^ 62)" "sqrt (real (unat m) * 2 ^ 62) < real (unat rt) + 1" "2 ^ 62 \<le> unat rt"
proof -
  have "unat (push_bit 62 m) = unat m * 2 ^ 62 mod 2 ^ 64"
    by (simp only: unsigned_push_bit_eq) (simp add: take_bit_eq_mod [where ?'a = nat] push_bit_eq_mult [where ?'a = nat])
  also have "\<dots> = (unat m mod 4) * 2 ^ 62" using mod_mult_mult2 [of "unat m" "2 ^ 62" 4] by simp
  finally have "unat (push_bit 62 m) = (unat m mod 4) * 2 ^ 62" .
  moreover have "unat (drop_bit 2 m) = unat m div 4" by (simp add: unat_drop)
  moreover have "D * 2 ^ 64 + M * 2 ^ 62 = unat m * 2 ^ 62" if "D * 4 + M = unat m" for D M using that by simp
  ultimately have R: "unat (drop_bit 2 m) * 2 ^ 64 + unat (push_bit 62 m) = unat m * 2 ^ 62"
    by (simp only: div_mult_mod_eq)
  have "unat m * 2 ^ 62 < (2 ^ 64) ^ 2" using unat_less_64 [of m] by simp
  then have r: "(unat rt) ^ 2 \<le> unat m * 2 ^ 62" "unat m * 2 ^ 62 < (unat rt + 1) ^ 2"
    using rootLoop_spec [of 0 "drop_bit 2 m" "push_bit 62 m" 64] unfolding R rt_def by simp_all
  have "real ((unat rt) ^ 2) \<le> real (unat m * 2 ^ 62)" using r(1) by (simp only: of_nat_le_iff)
  then show "real (unat rt) \<le> sqrt (real (unat m) * 2 ^ 62)" by (intro real_le_rsqrt) simp
  have "real (unat m * 2 ^ 62) < real ((unat rt + 1) ^ 2)" using r(2) by (simp only: of_nat_less_iff)
  then show "sqrt (real (unat m) * 2 ^ 62) < real (unat rt) + 1" 
    by (intro real_less_lsqrt add_nonneg_nonneg of_nat_0_le_iff) (simp_all add: algebra_simps)
  show "2 ^ 62 \<le> unat rt"
  proof (rule ccontr)
    assume "\<not> 2 ^ 62 \<le> unat rt"
    then have "(unat rt + 1) ^ 2 \<le> (2 ^ 62) ^ 2" by (intro power_mono) auto
    moreover have "2 ^ 62 * 2 ^ 62 \<le> unat m * 2 ^ 62" using m by simp
    ultimately show False using r(2) by simp
  qed
qed

lemma sqrt_halved:
  assumes g: "geom_ok g" and n: "vaxExp a \<noteq> 0" "\<not> bit a 63"
  shows "vaxResult g chop unfEnable exc False (sqrt (vaxMag a / 2)) (vax_sqrt a g chop unfEnable exc)"
proof -
  define ua where "ua = fst (unpack a exc)"
  note u = unat_unpacked [OF n(1), of exc, folded ua_def]
  have sg: "u_sign ua = 0" using sign_cases [of a exc] sign_bit [OF n(1), of exc] n(2) by (auto simp: ua_def)
  define e0 e m where "e0 = vaxExp a - kExpBias - 1" and "e = (if odd e0 then e0 + 1 else e0)"
    and "m = (if odd e0 then drop_bit 1 (u_frac ua) else u_frac ua)"
  define r where "r = ua\<lparr>u_exp := e div 2 + kExpBias + 1, u_frac := rootLoop 64 (drop_bit 2 m) (push_bit 62 m) 0\<rparr>"
  have top: "2 ^ 63 \<le> unat (u_frac ua)" unfolding ua_def by (rule unpacked_top, rule n)
  have half: "unat (drop_bit 1 (u_frac ua)) * 2 = unat (u_frac ua)" by (simp only: unat_drop u) simp
  have m62: "2 ^ 62 \<le> unat m" using top half by (simp add: m_def)
  have mag: "vaxMag a = real (unat m) * 2 powi (e - 63)"
  proof -
    have "vaxMag a = real (unat (u_frac ua)) * 2 powi (e0 - 63)"
      using uval_unpack [of a exc] by (simp add: uval_def e0_def kExpBias_def exp_of_unpack flip: ua_def)
        (simp add: ua_def exp_of_unpack)
    moreover have "real (unat (u_frac ua)) = 2 * real (unat (drop_bit 1 (u_frac ua)))" using arg_cong [OF half, of real] by simp
    moreover have "(2 :: real) powi (e0 + 1 - 63) = 2 * 2 powi (e0 - 63)" using powi_shift [of "e0 - 63" 1] by simp
    ultimately show ?thesis by (simp add: e_def m_def)
  qed
  have ev: "even e" by (simp add: e_def)
  have v: "vax_sqrt a g chop unfEnable exc = rpack (norm_ufp r) g chop unfEnable exc"
    using n(1) sg by (simp add: vax_sqrt_def Let_def case_prod_beta unpack_eq(2) exp_of_unpack r_def e_def m_def e0_def flip: ua_def)
      (simp add: ua_def exp_of_unpack)
  have x: "sqrt (vaxMag a / 2) = sqrt (real (unat m) * 2 ^ 62) * 2 powi (u_exp r - 1088)"
  proof -
    have "e - 63 = e - 126 + int 63" by simp
    then have "vaxMag a / 2 = real (unat m) * 2 ^ 62 * 2 powi (e - 126)" unfolding mag by (simp only: powi_shift) simp
    moreover have "e - 126 = (u_exp r - 1088) + (u_exp r - 1088)" using ev by (simp add: r_def kExpBias_def)
    then have "(2 :: real) powi (e - 126) = (2 powi (u_exp r - 1088)) ^ 2" by (simp only: power2_eq_square) (rule power_int_add, simp)
    ultimately show ?thesis by (simp add: real_sqrt_mult)
  qed
  have "1 \<le> 62 - fracBits g" using g by (auto simp: geom_ok_def)
  then have "vaxResult g chop unfEnable exc (u_sign r = 1) (sqrt (vaxMag a / 2)) (rpack (norm_ufp r) g chop unfEnable exc)"
    by (intro norm_result [where c = 1 and k = 0, OF g _ _ _ _ _ _ _ x]) (use root_bounds [OF m62] sg in \<open>auto simp: r_def\<close>)
  then show ?thesis using sg by (simp add: v r_def)
qed

section \<open>Equivalence of the products\<close>

lemma push_bit_32_mask: "push_bit 32 (x AND 0xFFFFFFFF :: u64) = push_bit 32 x"
proof -
  have "(0xFFFFFFFF :: u64) = mask 32" by (simp add: mask_eq_exp_minus_1)
  then show ?thesis by (intro bit_word_eqI) (simp only: bit_push_bit_iff bit_and_iff bit_mask_iff, auto)
qed

lemma halves_join: "push_bit 32 x OR (y AND 0xFFFFFFFF :: u64) = push_bit 32 x + (y AND 0xFFFFFFFF)"
proof -
  have "(0xFFFFFFFF :: u64) = mask 32" by (simp add: mask_eq_exp_minus_1)
  then show ?thesis by (subst disjunctive_add) (auto simp only: bit_push_bit_iff bit_and_iff bit_mask_iff)
qed

lemma halves_split: "push_bit 32 (drop_bit 32 w) + (w AND 0xFFFFFFFF) = (w :: u64)"
proof -
  have "(0xFFFFFFFF :: u64) = mask 32" by (simp add: mask_eq_exp_minus_1)
  then have "push_bit 32 (drop_bit 32 w) OR (w AND 0xFFFFFFFF) = w"
    by (intro bit_word_eqI) (auto simp only: bit_push_bit_iff bit_and_iff bit_or_iff bit_drop_bit_eq bit_mask_iff possible_bit_word comp_apply le_add_diff_inverse not_less)
  then show ?thesis by (simp only: halves_join)
qed

lemma umul128_portable_low: "fst (umul128_portable a b) = a * b"
proof -
  define aL aH bL bH where d: "aL = a AND 0xFFFFFFFF" "aH = drop_bit 32 a" "bL = b AND 0xFFFFFFFF" "bH = drop_bit 32 b"
  have ab: "a = aH * 2 ^ 32 + aL" "b = bH * 2 ^ 32 + bL"
    unfolding d using halves_split [of a] halves_split [of b] by (simp_all only: push_bit_eq_mult)
  have "fst (umul128_portable a b) = push_bit 32 (drop_bit 32 (aL * bL) + (aL * bH AND 0xFFFFFFFF) + (aH * bL AND 0xFFFFFFFF))
      + (aL * bL AND 0xFFFFFFFF)"
    by (simp only: umul128_portable_def Let_def fst_conv halves_join d)
  also have "\<dots> = aL * bL + push_bit 32 (aL * bH) + push_bit 32 (aH * bL)"
    using halves_split [of "aL * bL"] by (simp only: push_bit_add push_bit_32_mask) (simp only: ac_simps)
  also have "\<dots> = (aH * 2 ^ 32 + aL) * (bH * 2 ^ 32 + bL) - aH * bH * 2 ^ 64"
    by (simp add: push_bit_eq_mult algebra_simps)
  also have "(2 :: u64) ^ 64 = 0" by simp
  finally show ?thesis unfolding ab [symmetric] by simp
qed

section \<open>Properties\<close>

text \<open>
  C12. VAX multiplication and division, and addition of operands of one sign, round exactly. On operands
  that are neither zero nor reserved the result of a multiplication is the product of the two values
  rounded to the precision of the format (half away from zero, or chopped), zero with the underflow
  trap when the rounded product is below the range and the overflow trap when it is above; the same
  holds of the quotient and of the sum of operands of one sign. Of a difference (an effective
  subtraction) it is stated only where the exponents are at most eleven apart and, when they are equal,
  the first operand is the larger one: for equal exponents and a smaller first operand the code is
  wrong, as vax\_difference\_wraps shows.
\<close>

theorem vax_arithmetic_rounded:
  assumes "geom_ok g" "vaxExp a \<noteq> 0" "vaxExp b \<noteq> 0"
  shows "vaxResult g chop unf exc (bit a 63 \<noteq> bit b 63) (vaxMag a * vaxMag b) (vax_mul a b g chop unf exc) \<and>
    vaxResult g chop unf exc (bit a 63 \<noteq> bit b 63) (vaxMag a / vaxMag b) (vax_div a b g chop unf exc) \<and>
    (bit b 63 = (bit a 63 \<noteq> sub) \<longrightarrow>
       vaxResult g chop unf exc (bit a 63) (vaxMag a + vaxMag b) (vax_addsub a b sub g chop unf exc)) \<and>
    (bit b 63 = (bit a 63 = sub) \<and> (vaxExp a \<noteq> vaxExp b \<or> vaxMag b < vaxMag a) \<and> \<bar>vaxExp a - vaxExp b\<bar> \<le> 11 \<longrightarrow>
       vaxResult g chop unf exc (bit a 63 = (vaxMag b < vaxMag a)) \<bar>vaxMag a - vaxMag b\<bar> (vax_addsub a b sub g chop unf exc))"
  using assms by (blast intro: mul_rounded div_rounded add_rounded sub_rounded)

theorem vax_arithmetic_rounded_witness:
  "vaxResult vax_G False False 0 False (vaxMag 0x4010000000000000 * vaxMag 0x4018000000000000)
     (vax_mul 0x4010000000000000 0x4018000000000000 vax_G False False 0) \<and>
   vaxResult vax_F True True 0 False (vaxMag 0x4010000000000000 + vaxMag 0x4018000000000000)
     (vax_addsub 0x4010000000000000 0x4018000000000000 False vax_F True True 0)"
  using vax_arithmetic_rounded [OF geoms_ok(2), of "0x4010000000000000" "0x4018000000000000" False False 0 False]
    vax_arithmetic_rounded [OF geoms_ok(1), of "0x4010000000000000" "0x4018000000000000" True True 0 False]
  by (simp add: vaxExp_def)

text \<open>
  C38. The two forms of the 128-bit product agree: the school multiplication on 32-bit halves that a
  compiler without a 128-bit type gets returns the low and the high word of the wide product.
\<close>

theorem umul128_forms_agree: "umul128_portable a b = umul128 a b"
proof (rule prod_eqI)
  show "fst (umul128_portable a b) = fst (umul128 a b)"
    unfolding umul128_portable_low by (simp add: word_unat_eq_iff umul128_parts unat_word_ariths)
  have "snd (umul128_portable a b) = umulh_inl_fallback a b"
    by (simp add: umul128_portable_def umulh_inl_fallback_def Let_def)
  then show "snd (umul128_portable a b) = snd (umul128 a b)"
    by (simp add: umulh_inl_fallback_correct umulh_def umul128_def Let_def)
qed

text \<open>One minus one and a half is one and a half, and the root of one is below three quarters.\<close>

lemma vax_difference_wraps:
  "vax_addsub 0x4010000000000000 0x4018000000000000 True vax_G False False 0 = (0x4018000000000000, 0)"
  by (simp add: vax_addsub_def unpack_def Let_def kFracMask_def kHidden_def kGuard_def norm_ufp_def normLoop.simps rpack_def
      vax_G_def kNormBit_def)

end
