(* ===== verification/FloatLeaves.thy ===== *)
theory FloatLeaves
  imports Grains VaxFloat
begin

text \<open>
  The floating point instructions: the leaves of fBoxLib/grains/Float.cpp and FloatVariants.cpp, the
  qualifier decode and the exception fold of fBoxLib/grains/FpExec.h, the control register of
  coreLib/alpha\_fpcr\_core.h, the qualifier record of coreLib/fp\_variant\_core.h, the back end interface
  of fpBoxLib/fp\_backend.h and its implementation in fpBoxLib/fp\_backend\_softfloat.cpp.

  The back end is a record of the virtual methods, an argument of every leaf that calls it. The
  implementation is a function of the entry points of the SoftFloat library: an entry point maps the
  rounding mode and the operands to the result and the exception flags it raises. The rounding mode is a
  global variable of that library that every operation sets before it calls it, except CVTST: the mode
  the previous operation left is an argument of the back end.
\<close>

section \<open>The control register\<close>

definition FPCR_INV :: u64 where "FPCR_INV = push_bit 52 1"

definition FPCR_DZE :: u64 where "FPCR_DZE = push_bit 53 1"

definition FPCR_OVF :: u64 where "FPCR_OVF = push_bit 54 1"

definition FPCR_UNF :: u64 where "FPCR_UNF = push_bit 55 1"

definition FPCR_INE :: u64 where "FPCR_INE = push_bit 56 1"

definition FPCR_IOV :: u64 where "FPCR_IOV = push_bit 57 1"

definition FPCR_SUM :: u64 where "FPCR_SUM = push_bit 63 1"

definition EXC_MASK :: u64 where
  "EXC_MASK = FPCR_INV OR FPCR_DZE OR FPCR_OVF OR FPCR_UNF OR FPCR_INE OR FPCR_IOV"

definition DYN_RM_MASK :: u64 where "DYN_RM_MASK = push_bit 58 0x3"

definition withRecomputedSum :: "u64 \<Rightarrow> u64" where
  "withRecomputedSum f = (if f AND EXC_MASK \<noteq> 0 then f OR FPCR_SUM else f AND NOT FPCR_SUM)"

record ArithmeticStatus =
  st_invalid :: bool
  st_divByZero :: bool
  st_overflow :: bool
  st_underflow :: bool
  st_inexact :: bool
  st_intOverflow :: bool

definition applyToFpcr :: "ArithmeticStatus \<Rightarrow> u64 \<Rightarrow> u64" where
  "applyToFpcr s f =
    (let f = (if st_invalid s then f OR FPCR_INV else f);
         f = (if st_divByZero s then f OR FPCR_DZE else f);
         f = (if st_overflow s then f OR FPCR_OVF else f);
         f = (if st_underflow s then f OR FPCR_UNF else f);
         f = (if st_inexact s then f OR FPCR_INE else f);
         f = (if st_intOverflow s then f OR FPCR_IOV else f)
     in withRecomputedSum f)"

section \<open>Qualifiers\<close>

datatype FpRoundingMode = UseFPCR | RoundToNearest | RoundTowardZero | RoundUp | RoundDown

datatype FPTrapMode = TM_None | TM_Underflow | TM_Software | TM_SU | TM_SUI

record FPVariant =
  roundingMode :: FpRoundingMode
  trapMode :: FPTrapMode
  suppressUnderflow :: bool
  suppressInexact :: bool
  maskExceptions :: bool
  vaxDenorm :: bool
  v_chopped :: bool
  minusInf :: bool
  v_dynamic :: bool
  v_underflow :: bool
  v_overflow :: bool
  v_software :: bool
  v_inexact :: bool
  trapEnabled :: bool
  inexactEnable :: bool

definition newFPVariant :: "FpRoundingMode \<Rightarrow> FPTrapMode \<Rightarrow> bool \<Rightarrow> FPVariant" where
  "newFPVariant rm tm ie = \<lparr>roundingMode = rm, trapMode = tm,
     suppressUnderflow = (tm = TM_SU \<or> tm = TM_SUI), suppressInexact = (tm = TM_SUI),
     maskExceptions = False, vaxDenorm = False, v_chopped = False, minusInf = False, v_dynamic = False,
     v_underflow = False, v_overflow = False, v_software = False, v_inexact = ie, trapEnabled = True,
     inexactEnable = ie\<rparr>"

definition getEffectiveRoundingMode :: "FPVariant \<Rightarrow> FpRoundingMode" where
  "getEffectiveRoundingMode v =
    (if roundingMode v \<noteq> UseFPCR then roundingMode v
     else if v_chopped v then RoundTowardZero
     else if minusInf v then RoundDown
     else if v_dynamic v then UseFPCR
     else RoundToNearest)"

definition fpVariantFromEncoded :: "u32 \<Rightarrow> FPVariant" where
  "fpVariantFromEncoded w =
    (let func = ucast (drop_bit 5 w AND 0x7FF) :: u16;
         rnd = ucast (drop_bit 6 func AND 0x3) :: u8;
         trp = ucast (drop_bit 8 func AND 0x7) :: u8;
         rm = (if rnd = 0 then RoundTowardZero else if rnd = 1 then RoundDown
               else if rnd = 2 then RoundToNearest else UseFPCR);
         (tm, ie) = (if trp = 0 then (TM_None, False) else if trp = 1 then (TM_Underflow, False)
                     else if trp = 5 then (TM_SU, False) else if trp = 7 then (TM_SUI, True)
                     else (TM_None, False))
     in newFPVariant rm tm ie)"

section \<open>The back end interface\<close>

datatype FpCompare = CmpEq | CmpLt | CmpLe | CmpUn

record FpExc =
  x_inv :: bool
  x_dze :: bool
  x_ovf :: bool
  x_unf :: bool
  x_ine :: bool
  x_iov :: bool

definition noExc :: FpExc where
  "noExc = \<lparr>x_inv = False, x_dze = False, x_ovf = False, x_unf = False, x_ine = False, x_iov = False\<rparr>"

record FpResult =
  fr_bits :: u64
  fr_exc :: FpExc

record FpExecCtx =
  fx_variant :: FPVariant
  fx_fpcr :: u64

type_synonym fpUnary = "u64 \<Rightarrow> FpExecCtx \<Rightarrow> FpResult"

type_synonym fpBinary = "u64 \<Rightarrow> u64 \<Rightarrow> FpExecCtx \<Rightarrow> FpResult"

record IFpBackend =
  addT :: fpBinary
  subT :: fpBinary
  mulT :: fpBinary
  divT :: fpBinary
  sqrtT :: fpUnary
  addS :: fpBinary
  subS :: fpBinary
  mulS :: fpBinary
  divS :: fpBinary
  sqrtS :: fpUnary
  cmpT :: "FpCompare \<Rightarrow> fpBinary"
  cvtTS :: fpUnary
  cvtST :: fpUnary
  cvtTQ :: fpUnary
  cvtQT :: fpUnary
  cvtQS :: fpUnary
  addF :: fpBinary
  subF :: fpBinary
  mulF :: fpBinary
  divF :: fpBinary
  sqrtF :: fpUnary
  addG :: fpBinary
  subG :: fpBinary
  mulG :: fpBinary
  divG :: fpBinary
  sqrtG :: fpUnary
  cmpG :: "FpCompare \<Rightarrow> fpBinary"
  cvtGF :: fpUnary
  cvtGD :: fpUnary
  cvtDG :: fpUnary
  cvtGQ :: fpUnary
  cvtQF :: fpUnary
  cvtQG :: fpUnary

section \<open>The SoftFloat back end\<close>

record SoftFloat =
  f64_add :: "u8 \<Rightarrow> u64 \<Rightarrow> u64 \<Rightarrow> u64 \<times> u8"
  f64_sub :: "u8 \<Rightarrow> u64 \<Rightarrow> u64 \<Rightarrow> u64 \<times> u8"
  f64_mul :: "u8 \<Rightarrow> u64 \<Rightarrow> u64 \<Rightarrow> u64 \<times> u8"
  f64_div :: "u8 \<Rightarrow> u64 \<Rightarrow> u64 \<Rightarrow> u64 \<times> u8"
  f64_sqrt :: "u8 \<Rightarrow> u64 \<Rightarrow> u64 \<times> u8"
  f32_add :: "u8 \<Rightarrow> u32 \<Rightarrow> u32 \<Rightarrow> u32 \<times> u8"
  f32_sub :: "u8 \<Rightarrow> u32 \<Rightarrow> u32 \<Rightarrow> u32 \<times> u8"
  f32_mul :: "u8 \<Rightarrow> u32 \<Rightarrow> u32 \<Rightarrow> u32 \<times> u8"
  f32_div :: "u8 \<Rightarrow> u32 \<Rightarrow> u32 \<Rightarrow> u32 \<times> u8"
  f32_sqrt :: "u8 \<Rightarrow> u32 \<Rightarrow> u32 \<times> u8"
  f64_to_f32 :: "u8 \<Rightarrow> u64 \<Rightarrow> u32 \<times> u8"
  f32_to_f64 :: "u32 \<Rightarrow> u64"
  f64_to_i64 :: "u64 \<Rightarrow> u8 \<Rightarrow> bool \<Rightarrow> u64 \<times> u8"
  i64_to_f64 :: "u8 \<Rightarrow> u64 \<Rightarrow> u64 \<times> u8"
  i64_to_f32 :: "u8 \<Rightarrow> u64 \<Rightarrow> u32 \<times> u8"
  f64_eq :: "u64 \<Rightarrow> u64 \<Rightarrow> bool \<times> u8"
  f64_lt_quiet :: "u64 \<Rightarrow> u64 \<Rightarrow> bool \<times> u8"
  f64_le_quiet :: "u64 \<Rightarrow> u64 \<Rightarrow> bool \<times> u8"

definition softfloat_round_near_even :: u8 where "softfloat_round_near_even = 0"

definition softfloat_round_minMag :: u8 where "softfloat_round_minMag = 1"

definition softfloat_round_min :: u8 where "softfloat_round_min = 2"

definition softfloat_round_max :: u8 where "softfloat_round_max = 3"

definition softfloat_flag_inexact :: u8 where "softfloat_flag_inexact = 1"

definition softfloat_flag_underflow :: u8 where "softfloat_flag_underflow = 2"

definition softfloat_flag_overflow :: u8 where "softfloat_flag_overflow = 4"

definition softfloat_flag_infinite :: u8 where "softfloat_flag_infinite = 8"

definition softfloat_flag_invalid :: u8 where "softfloat_flag_invalid = 16"

definition resolveRm :: "FpExecCtx \<Rightarrow> u8" where
  "resolveRm ctx =
    (case getEffectiveRoundingMode (fx_variant ctx) of
       UseFPCR \<Rightarrow>
         (let dyn = drop_bit 58 (fx_fpcr ctx AND DYN_RM_MASK)
          in if dyn = 0 then softfloat_round_minMag else if dyn = 1 then softfloat_round_min
             else if dyn = 3 then softfloat_round_max else softfloat_round_near_even)
     | RoundTowardZero \<Rightarrow> softfloat_round_minMag
     | RoundDown \<Rightarrow> softfloat_round_min
     | RoundUp \<Rightarrow> softfloat_round_max
     | RoundToNearest \<Rightarrow> softfloat_round_near_even)"

definition harvest :: "u8 \<Rightarrow> FpExc" where
  "harvest f = \<lparr>x_inv = (f AND softfloat_flag_invalid \<noteq> 0), x_dze = (f AND softfloat_flag_infinite \<noteq> 0),
     x_ovf = (f AND softfloat_flag_overflow \<noteq> 0), x_unf = (f AND softfloat_flag_underflow \<noteq> 0),
     x_ine = (f AND softfloat_flag_inexact \<noteq> 0), x_iov = False\<rparr>"

definition isNaNF64 :: "u64 \<Rightarrow> bool" where
  "isNaNF64 u \<longleftrightarrow> u AND 0x7FF0000000000000 = 0x7FF0000000000000 \<and> u AND 0x000FFFFFFFFFFFFF \<noteq> 0"

definition fpResult :: "u64 \<times> u8 \<Rightarrow> FpResult" where
  "fpResult rf = \<lparr>fr_bits = fst rf, fr_exc = harvest (snd rf)\<rparr>"

definition sf_addT :: "SoftFloat \<Rightarrow> fpBinary" where
  "sf_addT sf a b ctx = fpResult (f64_add sf (resolveRm ctx) a b)"

definition sf_subT :: "SoftFloat \<Rightarrow> fpBinary" where
  "sf_subT sf a b ctx = fpResult (f64_sub sf (resolveRm ctx) a b)"

definition sf_mulT :: "SoftFloat \<Rightarrow> fpBinary" where
  "sf_mulT sf a b ctx = fpResult (f64_mul sf (resolveRm ctx) a b)"

definition sf_divT :: "SoftFloat \<Rightarrow> fpBinary" where
  "sf_divT sf a b ctx = fpResult (f64_div sf (resolveRm ctx) a b)"

definition sf_sqrtT :: "SoftFloat \<Rightarrow> fpUnary" where
  "sf_sqrtT sf a ctx = fpResult (f64_sqrt sf (resolveRm ctx) a)"

definition sBinary :: "SoftFloat \<Rightarrow> (u8 \<Rightarrow> u32 \<Rightarrow> u32 \<Rightarrow> u32 \<times> u8) \<Rightarrow> fpBinary" where
  "sBinary sf f32op a b ctx =
    (let rm = resolveRm ctx;
         fa = fst (f64_to_f32 sf rm a); fb = fst (f64_to_f32 sf rm b);
         (fr, f) = f32op rm fa fb
     in \<lparr>fr_bits = f32_to_f64 sf fr, fr_exc = harvest f\<rparr>)"

definition sf_addS :: "SoftFloat \<Rightarrow> fpBinary" where "sf_addS sf = sBinary sf (f32_add sf)"

definition sf_subS :: "SoftFloat \<Rightarrow> fpBinary" where "sf_subS sf = sBinary sf (f32_sub sf)"

definition sf_mulS :: "SoftFloat \<Rightarrow> fpBinary" where "sf_mulS sf = sBinary sf (f32_mul sf)"

definition sf_divS :: "SoftFloat \<Rightarrow> fpBinary" where "sf_divS sf = sBinary sf (f32_div sf)"

definition sf_sqrtS :: "SoftFloat \<Rightarrow> fpUnary" where
  "sf_sqrtS sf a ctx =
    (let rm = resolveRm ctx; fa = fst (f64_to_f32 sf rm a); (fr, f) = f32_sqrt sf rm fa
     in \<lparr>fr_bits = f32_to_f64 sf fr, fr_exc = harvest f\<rparr>)"

definition cmpBits :: "bool \<Rightarrow> u64" where
  "cmpBits res = (if res then 0x4000000000000000 else 0)"

definition sf_cmpT :: "SoftFloat \<Rightarrow> FpCompare \<Rightarrow> fpBinary" where
  "sf_cmpT sf k a b ctx =
    (let (res, f) = (case k of CmpEq \<Rightarrow> f64_eq sf a b | CmpLt \<Rightarrow> f64_lt_quiet sf a b
           | CmpLe \<Rightarrow> f64_le_quiet sf a b | CmpUn \<Rightarrow> (isNaNF64 a \<or> isNaNF64 b, 0))
     in \<lparr>fr_bits = cmpBits res, fr_exc = harvest f\<rparr>)"

definition sf_cvtTS :: "SoftFloat \<Rightarrow> fpUnary" where
  "sf_cvtTS sf a ctx = (case f64_to_f32 sf (resolveRm ctx) a of (fr, f) \<Rightarrow>
     \<lparr>fr_bits = f32_to_f64 sf fr, fr_exc = harvest f\<rparr>)"

definition sf_cvtST :: "SoftFloat \<Rightarrow> u8 \<Rightarrow> fpUnary" where
  "sf_cvtST sf stale a ctx =
    \<lparr>fr_bits = f32_to_f64 sf (fst (f64_to_f32 sf stale a)), fr_exc = noExc\<rparr>"

definition intExc :: "u8 \<Rightarrow> FpExc" where
  "intExc f = noExc\<lparr>x_ine := (f AND softfloat_flag_inexact \<noteq> 0), x_iov := (f AND softfloat_flag_invalid \<noteq> 0)\<rparr>"

definition sf_cvtTQ :: "SoftFloat \<Rightarrow> fpUnary" where
  "sf_cvtTQ sf a ctx = (case f64_to_i64 sf a (resolveRm ctx) True of (q, f) \<Rightarrow>
     \<lparr>fr_bits = q, fr_exc = intExc f\<rparr>)"

definition sf_cvtQT :: "SoftFloat \<Rightarrow> fpUnary" where
  "sf_cvtQT sf a ctx = fpResult (i64_to_f64 sf (resolveRm ctx) a)"

definition sf_cvtQS :: "SoftFloat \<Rightarrow> fpUnary" where
  "sf_cvtQS sf a ctx = (case i64_to_f32 sf (resolveRm ctx) a of (fr, f) \<Rightarrow>
     \<lparr>fr_bits = f32_to_f64 sf fr, fr_exc = harvest f\<rparr>)"

definition vaxReserved :: "u64 \<Rightarrow> bool" where
  "vaxReserved reg \<longleftrightarrow> drop_bit 52 reg AND 0x7FF = 0 \<and> reg AND 0x800FFFFFFFFFFFFF \<noteq> 0"

definition scaleExp :: "u64 \<Rightarrow> int \<Rightarrow> u64" where
  "scaleExp reg dexp =
    (let e = drop_bit 52 reg AND 0x7FF in
     if e = 0 then reg
     else let ne = uint e + dexp in
       if ne \<le> 0 then reg AND 0x8000000000000000
       else let ne = (if ne \<ge> 0x7FF then 0x7FE else ne)
            in reg AND 0x800FFFFFFFFFFFFF OR push_bit 52 (word_of_int ne))"

definition roundFreg :: "u64 \<Rightarrow> u64" where
  "roundFreg reg =
    (let e = drop_bit 52 reg AND 0x7FF; lowMask = push_bit 29 1 - 1 in
     if e = 0 \<or> e = 0x7FF then reg AND NOT lowMask
     else
       (let low = reg AND lowMask; half = push_bit 28 1; lsb23 = drop_bit 29 reg AND 1;
            base = reg AND NOT lowMask
        in if low > half \<or> low = half \<and> lsb23 \<noteq> 0 then base + push_bit 29 1 else base))"

definition vaxToFpExc :: "u32 \<Rightarrow> FpExc" where
  "vaxToFpExc m = noExc\<lparr>x_inv := (m AND VaxInv \<noteq> 0), x_dze := (m AND VaxDze \<noteq> 0),
     x_ovf := (m AND VaxOvf \<noteq> 0), x_unf := (m AND VaxUnf \<noteq> 0)\<rparr>"

definition vaxChop :: "FpExecCtx \<Rightarrow> bool" where
  "vaxChop ctx \<longleftrightarrow> getEffectiveRoundingMode (fx_variant ctx) = RoundTowardZero"

definition vaxFpResult :: "u64 \<times> u32 \<Rightarrow> FpResult" where
  "vaxFpResult rx = \<lparr>fr_bits = fst rx, fr_exc = vaxToFpExc (snd rx)\<rparr>"

definition sf_addF :: fpBinary where
  "sf_addF a b c = vaxFpResult (vax_addsub a b False vax_F (vaxChop c) (v_underflow (fx_variant c)) 0)"

definition sf_subF :: fpBinary where
  "sf_subF a b c = vaxFpResult (vax_addsub a b True vax_F (vaxChop c) (v_underflow (fx_variant c)) 0)"

definition sf_mulF :: fpBinary where
  "sf_mulF a b c = vaxFpResult (vax_mul a b vax_F (vaxChop c) (v_underflow (fx_variant c)) 0)"

definition sf_divF :: fpBinary where
  "sf_divF a b c = vaxFpResult (vax_div a b vax_F (vaxChop c) (v_underflow (fx_variant c)) 0)"

definition sf_sqrtF :: fpUnary where
  "sf_sqrtF a c = vaxFpResult (vax_sqrt a vax_F (vaxChop c) (v_underflow (fx_variant c)) 0)"

definition sf_addG :: fpBinary where
  "sf_addG a b c = vaxFpResult (vax_addsub a b False vax_G (vaxChop c) (v_underflow (fx_variant c)) 0)"

definition sf_subG :: fpBinary where
  "sf_subG a b c = vaxFpResult (vax_addsub a b True vax_G (vaxChop c) (v_underflow (fx_variant c)) 0)"

definition sf_mulG :: fpBinary where
  "sf_mulG a b c = vaxFpResult (vax_mul a b vax_G (vaxChop c) (v_underflow (fx_variant c)) 0)"

definition sf_divG :: fpBinary where
  "sf_divG a b c = vaxFpResult (vax_div a b vax_G (vaxChop c) (v_underflow (fx_variant c)) 0)"

definition sf_sqrtG :: fpUnary where
  "sf_sqrtG a c = vaxFpResult (vax_sqrt a vax_G (vaxChop c) (v_underflow (fx_variant c)) 0)"

definition sf_cmpG :: "SoftFloat \<Rightarrow> FpCompare \<Rightarrow> fpBinary" where
  "sf_cmpG sf k a b ctx =
    (let (res, f) = (case k of CmpEq \<Rightarrow> f64_eq sf a b | CmpLt \<Rightarrow> f64_lt_quiet sf a b
           | CmpLe \<Rightarrow> f64_le_quiet sf a b | CmpUn \<Rightarrow> (False, 0))
     in \<lparr>fr_bits = cmpBits res, fr_exc = harvest f\<rparr>)"

definition sf_cvtGF :: fpUnary where
  "sf_cvtGF a c = (if vaxReserved a then \<lparr>fr_bits = 0, fr_exc = noExc\<lparr>x_inv := True\<rparr>\<rparr>
     else \<lparr>fr_bits = roundFreg a, fr_exc = noExc\<rparr>)"

definition sf_cvtGD :: fpUnary where "sf_cvtGD a c = \<lparr>fr_bits = a, fr_exc = noExc\<rparr>"

definition sf_cvtDG :: fpUnary where "sf_cvtDG a c = \<lparr>fr_bits = a, fr_exc = noExc\<rparr>"

definition sf_cvtGQ :: "SoftFloat \<Rightarrow> fpUnary" where
  "sf_cvtGQ sf a c = (if vaxReserved a then \<lparr>fr_bits = 0, fr_exc = noExc\<lparr>x_inv := True\<rparr>\<rparr>
     else (case f64_to_i64 sf (scaleExp a (- 2)) (resolveRm c) True of (q, f) \<Rightarrow>
       \<lparr>fr_bits = q, fr_exc = intExc f\<rparr>))"

definition sf_cvtQF :: "SoftFloat \<Rightarrow> fpUnary" where
  "sf_cvtQF sf a c = (case i64_to_f64 sf (resolveRm c) a of (r, f) \<Rightarrow>
     \<lparr>fr_bits = roundFreg (scaleExp r 2), fr_exc = harvest f\<rparr>)"

definition sf_cvtQG :: "SoftFloat \<Rightarrow> fpUnary" where
  "sf_cvtQG sf a c = (case i64_to_f64 sf (resolveRm c) a of (r, f) \<Rightarrow>
     \<lparr>fr_bits = scaleExp r 2, fr_exc = harvest f\<rparr>)"

definition softFloatBackend :: "SoftFloat \<Rightarrow> u8 \<Rightarrow> IFpBackend" where
  "softFloatBackend sf stale = \<lparr>addT = sf_addT sf, subT = sf_subT sf, mulT = sf_mulT sf, divT = sf_divT sf,
     sqrtT = sf_sqrtT sf, addS = sf_addS sf, subS = sf_subS sf, mulS = sf_mulS sf, divS = sf_divS sf,
     sqrtS = sf_sqrtS sf, cmpT = sf_cmpT sf, cvtTS = sf_cvtTS sf, cvtST = sf_cvtST sf stale,
     cvtTQ = sf_cvtTQ sf, cvtQT = sf_cvtQT sf, cvtQS = sf_cvtQS sf, addF = sf_addF, subF = sf_subF,
     mulF = sf_mulF, divF = sf_divF, sqrtF = sf_sqrtF, addG = sf_addG, subG = sf_subG, mulG = sf_mulG,
     divG = sf_divG, sqrtG = sf_sqrtG, cmpG = sf_cmpG sf, cvtGF = sf_cvtGF, cvtGD = sf_cvtGD,
     cvtDG = sf_cvtDG, cvtGQ = sf_cvtGQ sf, cvtQF = sf_cvtQF sf, cvtQG = sf_cvtQG sf\<rparr>"

section \<open>Helpers of the leaves\<close>

definition foldFpcrExc :: "u64 \<Rightarrow> FpExc \<Rightarrow> u64" where
  "foldFpcrExc f e = applyToFpcr \<lparr>st_invalid = x_inv e, st_divByZero = x_dze e, st_overflow = x_ovf e,
     st_underflow = x_unf e, st_inexact = x_ine e, st_intOverflow = x_iov e\<rparr> f"

definition fcIndex :: "InstructionGrain \<Rightarrow> u8" where
  "fcIndex g = ucast (encoded g AND 0x1F)"

definition kSignBit :: u64 where "kSignBit = 0x8000000000000000"

definition kSignExpMask :: u64 where "kSignExpMask = 0xFFF0000000000000"

definition fpWrite :: "InstructionGrain \<Rightarrow> u64 \<Rightarrow> BoxResult" where
  "fpWrite g v = newBoxResult\<lparr>semFlags := g_semFlags g, regWriteIdx := fcIndex g, regWriteIsFp := True,
     regWriteValue := v\<rparr>"

text \<open>The common body of the arithmetic leaves: context, back end call, exception fold, register write.\<close>

definition fpExec :: "(FpExecCtx \<Rightarrow> FpResult) \<Rightarrow> InstructionGrain \<Rightarrow> Cpu \<Rightarrow> BoxResult \<times> Cpu" where
  "fpExec call g cpu =
    (let ctx = \<lparr>fx_variant = fpVariantFromEncoded (encoded g), fx_fpcr = fpcr cpu\<rparr>; r = call ctx
     in (fpWrite g (fr_bits r), cpu\<lparr>fpcr := foldFpcrExc (fpcr cpu) (fr_exc r)\<rparr>))"

section \<open>Sign manipulation and the control register\<close>

definition execCpys :: "InstructionGrain \<Rightarrow> ExecCtx \<Rightarrow> BoxResult" where
  "execCpys g c = fpWrite g (opA c AND kSignBit OR opB c AND NOT kSignBit)"

definition execCpysn :: "InstructionGrain \<Rightarrow> ExecCtx \<Rightarrow> BoxResult" where
  "execCpysn g c = (let flippedSign = opA c AND kSignBit XOR kSignBit
     in fpWrite g (flippedSign OR opB c AND NOT kSignBit))"

definition execCpyse :: "InstructionGrain \<Rightarrow> ExecCtx \<Rightarrow> BoxResult" where
  "execCpyse g c = fpWrite g (opA c AND kSignExpMask OR opB c AND NOT kSignExpMask)"

definition execMfFpcr :: "InstructionGrain \<Rightarrow> ExecCtx \<Rightarrow> Cpu \<Rightarrow> BoxResult \<times> Cpu" where
  "execMfFpcr g c cpu = (fpWrite g (fpcr cpu), cpu)"

definition execMtFpcr :: "InstructionGrain \<Rightarrow> ExecCtx \<Rightarrow> Cpu \<Rightarrow> BoxResult \<times> Cpu" where
  "execMtFpcr g c cpu = (newBoxResult\<lparr>semFlags := g_semFlags g, regWriteIdx := kNoRegWrite\<rparr>,
     cpu\<lparr>fpcr := opA c\<rparr>)"

section \<open>Loads and stores\<close>

definition fpLoad :: "InstructionGrain \<Rightarrow> ExecCtx \<Rightarrow> u8 \<Rightarrow> BoxResult" where
  "fpLoad g c sz = newBoxResult\<lparr>semFlags := g_semFlags g, regWriteIdx := raIndex g, regWriteIsFp := True,
     memAddr := opB c + memDispSext g, memSize := sz, memIsStore := False\<rparr>"

definition fpStore :: "InstructionGrain \<Rightarrow> ExecCtx \<Rightarrow> u64 \<Rightarrow> u8 \<Rightarrow> BoxResult" where
  "fpStore g c v sz = newBoxResult\<lparr>semFlags := g_semFlags g, regWriteIdx := kNoRegWrite,
     memAddr := opB c + memDispSext g, memData := v, memSize := sz, memIsStore := True\<rparr>"

definition execLdf :: "InstructionGrain \<Rightarrow> ExecCtx \<Rightarrow> BoxResult" where "execLdf g c = fpLoad g c 4"

definition execLdg :: "InstructionGrain \<Rightarrow> ExecCtx \<Rightarrow> BoxResult" where "execLdg g c = fpLoad g c 8"

definition execLds :: "InstructionGrain \<Rightarrow> ExecCtx \<Rightarrow> BoxResult" where "execLds g c = fpLoad g c 4"

definition execLdt :: "InstructionGrain \<Rightarrow> ExecCtx \<Rightarrow> BoxResult" where "execLdt g c = fpLoad g c 8"

definition execStf :: "InstructionGrain \<Rightarrow> ExecCtx \<Rightarrow> BoxResult" where
  "execStf g c = fpStore g c (ucast (convertF_FloatingToMemory (opA c))) 4"

definition execStg :: "InstructionGrain \<Rightarrow> ExecCtx \<Rightarrow> BoxResult" where
  "execStg g c = fpStore g c (convertG_FloatingToMemory (opA c)) 8"

definition execSts :: "InstructionGrain \<Rightarrow> ExecCtx \<Rightarrow> BoxResult" where
  "execSts g c = fpStore g c (ucast (convertS_FloatingToMemory (opA c))) 4"

definition execStt :: "InstructionGrain \<Rightarrow> ExecCtx \<Rightarrow> BoxResult" where
  "execStt g c = fpStore g c (convertT_FloatingToMemory (opA c)) 8"

section \<open>Comparison of a host double with zero\<close>

text \<open>
  A register image reinterpreted as a host double: zero of either sign equals zero, a NaN compares
  false with everything.
\<close>

definition dEq0 :: "u64 \<Rightarrow> bool" where
  "dEq0 a \<longleftrightarrow> a AND 0x7FFFFFFFFFFFFFFF = 0"

definition dLt0 :: "u64 \<Rightarrow> bool" where
  "dLt0 a \<longleftrightarrow> \<not> isNaNF64 a \<and> \<not> dEq0 a \<and> bit a 63"

definition dGt0 :: "u64 \<Rightarrow> bool" where
  "dGt0 a \<longleftrightarrow> \<not> isNaNF64 a \<and> \<not> dEq0 a \<and> \<not> bit a 63"

definition fcmov :: "bool \<Rightarrow> InstructionGrain \<Rightarrow> ExecCtx \<Rightarrow> BoxResult" where
  "fcmov met g c = (if met then fpWrite g (opB c)
     else newBoxResult\<lparr>semFlags := g_semFlags g, regWriteIdx := kNoRegWrite\<rparr>)"

definition fpBranch :: "bool \<Rightarrow> InstructionGrain \<Rightarrow> BoxResult" where
  "fpBranch taken g =
    (let disp = signed_drop_bit 11 (scast (push_bit 11 (encoded g AND 0x1FFFFF)) :: u64) * 4
     in newBoxResult\<lparr>semFlags := g_semFlags g, divert := taken,
          divertTarget := (if taken then g_pc g + 4 + disp else 0)\<rparr>)"

section \<open>Arithmetic, comparison and conversion leaves\<close>

type_synonym fpLeaf = "IFpBackend \<Rightarrow> InstructionGrain \<Rightarrow> ExecCtx \<Rightarrow> Cpu \<Rightarrow> BoxResult \<times> Cpu"

definition execAddt :: fpLeaf where
  "execAddt fp g c = fpExec (addT fp (opA c) (opB c)) g"

definition execSubt :: fpLeaf where
  "execSubt fp g c = fpExec (subT fp (opA c) (opB c)) g"

definition execMult :: fpLeaf where
  "execMult fp g c = fpExec (mulT fp (opA c) (opB c)) g"

definition execDivt :: fpLeaf where
  "execDivt fp g c = fpExec (divT fp (opA c) (opB c)) g"

definition execAdds :: fpLeaf where
  "execAdds fp g c = fpExec (addS fp (opA c) (opB c)) g"

definition execSubs :: fpLeaf where
  "execSubs fp g c = fpExec (subS fp (opA c) (opB c)) g"

definition execMuls :: fpLeaf where
  "execMuls fp g c = fpExec (mulS fp (opA c) (opB c)) g"

definition execDivs :: fpLeaf where
  "execDivs fp g c = fpExec (divS fp (opA c) (opB c)) g"

definition execCmpteq :: fpLeaf where
  "execCmpteq fp g c = fpExec (cmpT fp CmpEq (opA c) (opB c)) g"

definition execCmptlt :: fpLeaf where
  "execCmptlt fp g c = fpExec (cmpT fp CmpLt (opA c) (opB c)) g"

definition execCmptle :: fpLeaf where
  "execCmptle fp g c = fpExec (cmpT fp CmpLe (opA c) (opB c)) g"

definition execCmptun :: fpLeaf where
  "execCmptun fp g c = fpExec (cmpT fp CmpUn (opA c) (opB c)) g"

definition execCvtts :: fpLeaf where
  "execCvtts fp g c = fpExec (cvtTS fp (opB c)) g"

definition execCvtst :: fpLeaf where
  "execCvtst fp g c = fpExec (cvtST fp (opB c)) g"

definition execCvttq :: fpLeaf where
  "execCvttq fp g c = fpExec (cvtTQ fp (opB c)) g"

definition execCvtqs :: fpLeaf where
  "execCvtqs fp g c = fpExec (cvtQS fp (opB c)) g"

definition execCvtqt :: fpLeaf where
  "execCvtqt fp g c = fpExec (cvtQT fp (opB c)) g"

definition execCvttsC :: fpLeaf where
  "execCvttsC fp g c = fpExec (cvtTS fp (opB c)) g"

definition execCvttsM :: fpLeaf where
  "execCvttsM fp g c = fpExec (cvtTS fp (opB c)) g"

definition execCvttsD :: fpLeaf where
  "execCvttsD fp g c = fpExec (cvtTS fp (opB c)) g"

definition execCvttsUc :: fpLeaf where
  "execCvttsUc fp g c = fpExec (cvtTS fp (opB c)) g"

definition execCvttsUm :: fpLeaf where
  "execCvttsUm fp g c = fpExec (cvtTS fp (opB c)) g"

definition execCvttsU :: fpLeaf where
  "execCvttsU fp g c = fpExec (cvtTS fp (opB c)) g"

definition execCvttsUd :: fpLeaf where
  "execCvttsUd fp g c = fpExec (cvtTS fp (opB c)) g"

definition execCvttsSuc :: fpLeaf where
  "execCvttsSuc fp g c = fpExec (cvtTS fp (opB c)) g"

definition execCvttsSum :: fpLeaf where
  "execCvttsSum fp g c = fpExec (cvtTS fp (opB c)) g"

definition execCvttsSu :: fpLeaf where
  "execCvttsSu fp g c = fpExec (cvtTS fp (opB c)) g"

definition execCvttsSud :: fpLeaf where
  "execCvttsSud fp g c = fpExec (cvtTS fp (opB c)) g"

definition execCvttsSuic :: fpLeaf where
  "execCvttsSuic fp g c = fpExec (cvtTS fp (opB c)) g"

definition execCvttsSuim :: fpLeaf where
  "execCvttsSuim fp g c = fpExec (cvtTS fp (opB c)) g"

definition execCvttsSui :: fpLeaf where
  "execCvttsSui fp g c = fpExec (cvtTS fp (opB c)) g"

definition execCvttsSuid :: fpLeaf where
  "execCvttsSuid fp g c = fpExec (cvtTS fp (opB c)) g"

definition execCvttqC :: fpLeaf where
  "execCvttqC fp g c = fpExec (cvtTQ fp (opB c)) g"

definition execCvttqM :: fpLeaf where
  "execCvttqM fp g c = fpExec (cvtTQ fp (opB c)) g"

definition execCvttqD :: fpLeaf where
  "execCvttqD fp g c = fpExec (cvtTQ fp (opB c)) g"

definition execCvttqVc :: fpLeaf where
  "execCvttqVc fp g c = fpExec (cvtTQ fp (opB c)) g"

definition execCvttqVm :: fpLeaf where
  "execCvttqVm fp g c = fpExec (cvtTQ fp (opB c)) g"

definition execCvttqV :: fpLeaf where
  "execCvttqV fp g c = fpExec (cvtTQ fp (opB c)) g"

definition execCvttqVd :: fpLeaf where
  "execCvttqVd fp g c = fpExec (cvtTQ fp (opB c)) g"

definition execCvttqSvc :: fpLeaf where
  "execCvttqSvc fp g c = fpExec (cvtTQ fp (opB c)) g"

definition execCvttqSvm :: fpLeaf where
  "execCvttqSvm fp g c = fpExec (cvtTQ fp (opB c)) g"

definition execCvttqSv :: fpLeaf where
  "execCvttqSv fp g c = fpExec (cvtTQ fp (opB c)) g"

definition execCvttqSvd :: fpLeaf where
  "execCvttqSvd fp g c = fpExec (cvtTQ fp (opB c)) g"

definition execCvttqSvic :: fpLeaf where
  "execCvttqSvic fp g c = fpExec (cvtTQ fp (opB c)) g"

definition execCvttqSvim :: fpLeaf where
  "execCvttqSvim fp g c = fpExec (cvtTQ fp (opB c)) g"

definition execCvttqSvi :: fpLeaf where
  "execCvttqSvi fp g c = fpExec (cvtTQ fp (opB c)) g"

definition execCvttqSvid :: fpLeaf where
  "execCvttqSvid fp g c = fpExec (cvtTQ fp (opB c)) g"

definition execCvtqsC :: fpLeaf where
  "execCvtqsC fp g c = fpExec (cvtQS fp (opB c)) g"

definition execCvtqsM :: fpLeaf where
  "execCvtqsM fp g c = fpExec (cvtQS fp (opB c)) g"

definition execCvtqsD :: fpLeaf where
  "execCvtqsD fp g c = fpExec (cvtQS fp (opB c)) g"

definition execCvtqsSuic :: fpLeaf where
  "execCvtqsSuic fp g c = fpExec (cvtQS fp (opB c)) g"

definition execCvtqsSuim :: fpLeaf where
  "execCvtqsSuim fp g c = fpExec (cvtQS fp (opB c)) g"

definition execCvtqsSui :: fpLeaf where
  "execCvtqsSui fp g c = fpExec (cvtQS fp (opB c)) g"

definition execCvtqsSuid :: fpLeaf where
  "execCvtqsSuid fp g c = fpExec (cvtQS fp (opB c)) g"

definition execCvtqtC :: fpLeaf where
  "execCvtqtC fp g c = fpExec (cvtQT fp (opB c)) g"

definition execCvtqtM :: fpLeaf where
  "execCvtqtM fp g c = fpExec (cvtQT fp (opB c)) g"

definition execCvtqtD :: fpLeaf where
  "execCvtqtD fp g c = fpExec (cvtQT fp (opB c)) g"

definition execCvtqtSuic :: fpLeaf where
  "execCvtqtSuic fp g c = fpExec (cvtQT fp (opB c)) g"

definition execCvtqtSuim :: fpLeaf where
  "execCvtqtSuim fp g c = fpExec (cvtQT fp (opB c)) g"

definition execCvtqtSui :: fpLeaf where
  "execCvtqtSui fp g c = fpExec (cvtQT fp (opB c)) g"

definition execCvtqtSuid :: fpLeaf where
  "execCvtqtSuid fp g c = fpExec (cvtQT fp (opB c)) g"

definition execCvtstS :: fpLeaf where
  "execCvtstS fp g c = fpExec (cvtST fp (opB c)) g"

definition execCmptunSu :: fpLeaf where
  "execCmptunSu fp g c = fpExec (cmpT fp CmpUn (opA c) (opB c)) g"

definition execCmpteqSu :: fpLeaf where
  "execCmpteqSu fp g c = fpExec (cmpT fp CmpEq (opA c) (opB c)) g"

definition execCmptltSu :: fpLeaf where
  "execCmptltSu fp g c = fpExec (cmpT fp CmpLt (opA c) (opB c)) g"

definition execCmptleSu :: fpLeaf where
  "execCmptleSu fp g c = fpExec (cmpT fp CmpLe (opA c) (opB c)) g"

definition execSqrts :: fpLeaf where
  "execSqrts fp g c = fpExec (sqrtS fp (opB c)) g"

definition execSqrtt :: fpLeaf where
  "execSqrtt fp g c = fpExec (sqrtT fp (opB c)) g"

definition execSqrtfC :: fpLeaf where
  "execSqrtfC fp g c = fpExec (sqrtF fp (opB c)) g"

definition execSqrtf :: fpLeaf where
  "execSqrtf fp g c = fpExec (sqrtF fp (opB c)) g"

definition execSqrtfUc :: fpLeaf where
  "execSqrtfUc fp g c = fpExec (sqrtF fp (opB c)) g"

definition execSqrtfU :: fpLeaf where
  "execSqrtfU fp g c = fpExec (sqrtF fp (opB c)) g"

definition execSqrtfSc :: fpLeaf where
  "execSqrtfSc fp g c = fpExec (sqrtF fp (opB c)) g"

definition execSqrtfS :: fpLeaf where
  "execSqrtfS fp g c = fpExec (sqrtF fp (opB c)) g"

definition execSqrtfSuc :: fpLeaf where
  "execSqrtfSuc fp g c = fpExec (sqrtF fp (opB c)) g"

definition execSqrtfSu :: fpLeaf where
  "execSqrtfSu fp g c = fpExec (sqrtF fp (opB c)) g"

definition execSqrtgC :: fpLeaf where
  "execSqrtgC fp g c = fpExec (sqrtG fp (opB c)) g"

definition execSqrtg :: fpLeaf where
  "execSqrtg fp g c = fpExec (sqrtG fp (opB c)) g"

definition execSqrtgUc :: fpLeaf where
  "execSqrtgUc fp g c = fpExec (sqrtG fp (opB c)) g"

definition execSqrtgU :: fpLeaf where
  "execSqrtgU fp g c = fpExec (sqrtG fp (opB c)) g"

definition execSqrtgSc :: fpLeaf where
  "execSqrtgSc fp g c = fpExec (sqrtG fp (opB c)) g"

definition execSqrtgS :: fpLeaf where
  "execSqrtgS fp g c = fpExec (sqrtG fp (opB c)) g"

definition execSqrtgSuc :: fpLeaf where
  "execSqrtgSuc fp g c = fpExec (sqrtG fp (opB c)) g"

definition execSqrtgSu :: fpLeaf where
  "execSqrtgSu fp g c = fpExec (sqrtG fp (opB c)) g"

definition execSqrtsC :: fpLeaf where
  "execSqrtsC fp g c = fpExec (sqrtS fp (opB c)) g"

definition execSqrtsM :: fpLeaf where
  "execSqrtsM fp g c = fpExec (sqrtS fp (opB c)) g"

definition execSqrtsD :: fpLeaf where
  "execSqrtsD fp g c = fpExec (sqrtS fp (opB c)) g"

definition execSqrtsUc :: fpLeaf where
  "execSqrtsUc fp g c = fpExec (sqrtS fp (opB c)) g"

definition execSqrtsUm :: fpLeaf where
  "execSqrtsUm fp g c = fpExec (sqrtS fp (opB c)) g"

definition execSqrtsU :: fpLeaf where
  "execSqrtsU fp g c = fpExec (sqrtS fp (opB c)) g"

definition execSqrtsUd :: fpLeaf where
  "execSqrtsUd fp g c = fpExec (sqrtS fp (opB c)) g"

definition execSqrtsSuc :: fpLeaf where
  "execSqrtsSuc fp g c = fpExec (sqrtS fp (opB c)) g"

definition execSqrtsSum :: fpLeaf where
  "execSqrtsSum fp g c = fpExec (sqrtS fp (opB c)) g"

definition execSqrtsSu :: fpLeaf where
  "execSqrtsSu fp g c = fpExec (sqrtS fp (opB c)) g"

definition execSqrtsSud :: fpLeaf where
  "execSqrtsSud fp g c = fpExec (sqrtS fp (opB c)) g"

definition execSqrtsSuic :: fpLeaf where
  "execSqrtsSuic fp g c = fpExec (sqrtS fp (opB c)) g"

definition execSqrtsSuim :: fpLeaf where
  "execSqrtsSuim fp g c = fpExec (sqrtS fp (opB c)) g"

definition execSqrtsSui :: fpLeaf where
  "execSqrtsSui fp g c = fpExec (sqrtS fp (opB c)) g"

definition execSqrtsSuid :: fpLeaf where
  "execSqrtsSuid fp g c = fpExec (sqrtS fp (opB c)) g"

definition execSqrttC :: fpLeaf where
  "execSqrttC fp g c = fpExec (sqrtT fp (opB c)) g"

definition execSqrttM :: fpLeaf where
  "execSqrttM fp g c = fpExec (sqrtT fp (opB c)) g"

definition execSqrttD :: fpLeaf where
  "execSqrttD fp g c = fpExec (sqrtT fp (opB c)) g"

definition execSqrttUc :: fpLeaf where
  "execSqrttUc fp g c = fpExec (sqrtT fp (opB c)) g"

definition execSqrttUm :: fpLeaf where
  "execSqrttUm fp g c = fpExec (sqrtT fp (opB c)) g"

definition execSqrttU :: fpLeaf where
  "execSqrttU fp g c = fpExec (sqrtT fp (opB c)) g"

definition execSqrttUd :: fpLeaf where
  "execSqrttUd fp g c = fpExec (sqrtT fp (opB c)) g"

definition execSqrttSuc :: fpLeaf where
  "execSqrttSuc fp g c = fpExec (sqrtT fp (opB c)) g"

definition execSqrttSum :: fpLeaf where
  "execSqrttSum fp g c = fpExec (sqrtT fp (opB c)) g"

definition execSqrttSu :: fpLeaf where
  "execSqrttSu fp g c = fpExec (sqrtT fp (opB c)) g"

definition execSqrttSud :: fpLeaf where
  "execSqrttSud fp g c = fpExec (sqrtT fp (opB c)) g"

definition execSqrttSuic :: fpLeaf where
  "execSqrttSuic fp g c = fpExec (sqrtT fp (opB c)) g"

definition execSqrttSuim :: fpLeaf where
  "execSqrttSuim fp g c = fpExec (sqrtT fp (opB c)) g"

definition execSqrttSui :: fpLeaf where
  "execSqrttSui fp g c = fpExec (sqrtT fp (opB c)) g"

definition execSqrttSuid :: fpLeaf where
  "execSqrttSuid fp g c = fpExec (sqrtT fp (opB c)) g"

definition execAddfC :: fpLeaf where
  "execAddfC fp g c = fpExec (addF fp (opA c) (opB c)) g"

definition execSubfC :: fpLeaf where
  "execSubfC fp g c = fpExec (subF fp (opA c) (opB c)) g"

definition execMulfC :: fpLeaf where
  "execMulfC fp g c = fpExec (mulF fp (opA c) (opB c)) g"

definition execDivfC :: fpLeaf where
  "execDivfC fp g c = fpExec (divF fp (opA c) (opB c)) g"

definition execCvtdgC :: fpLeaf where
  "execCvtdgC fp g c = fpExec (cvtDG fp (opB c)) g"

definition execAddgC :: fpLeaf where
  "execAddgC fp g c = fpExec (addG fp (opA c) (opB c)) g"

definition execSubgC :: fpLeaf where
  "execSubgC fp g c = fpExec (subG fp (opA c) (opB c)) g"

definition execMulgC :: fpLeaf where
  "execMulgC fp g c = fpExec (mulG fp (opA c) (opB c)) g"

definition execDivgC :: fpLeaf where
  "execDivgC fp g c = fpExec (divG fp (opA c) (opB c)) g"

definition execCvtgfC :: fpLeaf where
  "execCvtgfC fp g c = fpExec (cvtGF fp (opB c)) g"

definition execCvtgdC :: fpLeaf where
  "execCvtgdC fp g c = fpExec (cvtGD fp (opB c)) g"

definition execCvtgqC :: fpLeaf where
  "execCvtgqC fp g c = fpExec (cvtGQ fp (opB c)) g"

definition execCvtqfC :: fpLeaf where
  "execCvtqfC fp g c = fpExec (cvtQF fp (opB c)) g"

definition execCvtqgC :: fpLeaf where
  "execCvtqgC fp g c = fpExec (cvtQG fp (opB c)) g"

definition execAddf :: fpLeaf where
  "execAddf fp g c = fpExec (addF fp (opA c) (opB c)) g"

definition execSubf :: fpLeaf where
  "execSubf fp g c = fpExec (subF fp (opA c) (opB c)) g"

definition execMulf :: fpLeaf where
  "execMulf fp g c = fpExec (mulF fp (opA c) (opB c)) g"

definition execDivf :: fpLeaf where
  "execDivf fp g c = fpExec (divF fp (opA c) (opB c)) g"

definition execCvtdg :: fpLeaf where
  "execCvtdg fp g c = fpExec (cvtDG fp (opB c)) g"

definition execAddg :: fpLeaf where
  "execAddg fp g c = fpExec (addG fp (opA c) (opB c)) g"

definition execSubg :: fpLeaf where
  "execSubg fp g c = fpExec (subG fp (opA c) (opB c)) g"

definition execMulg :: fpLeaf where
  "execMulg fp g c = fpExec (mulG fp (opA c) (opB c)) g"

definition execDivg :: fpLeaf where
  "execDivg fp g c = fpExec (divG fp (opA c) (opB c)) g"

definition execCmpgeq :: fpLeaf where
  "execCmpgeq fp g c = fpExec (cmpG fp CmpEq (opA c) (opB c)) g"

definition execCmpglt :: fpLeaf where
  "execCmpglt fp g c = fpExec (cmpG fp CmpLt (opA c) (opB c)) g"

definition execCmpgle :: fpLeaf where
  "execCmpgle fp g c = fpExec (cmpG fp CmpLe (opA c) (opB c)) g"

definition execCvtgf :: fpLeaf where
  "execCvtgf fp g c = fpExec (cvtGF fp (opB c)) g"

definition execCvtgd :: fpLeaf where
  "execCvtgd fp g c = fpExec (cvtGD fp (opB c)) g"

definition execCvtgq :: fpLeaf where
  "execCvtgq fp g c = fpExec (cvtGQ fp (opB c)) g"

definition execCvtqf :: fpLeaf where
  "execCvtqf fp g c = fpExec (cvtQF fp (opB c)) g"

definition execCvtqg :: fpLeaf where
  "execCvtqg fp g c = fpExec (cvtQG fp (opB c)) g"

definition execAddfUc :: fpLeaf where
  "execAddfUc fp g c = fpExec (addF fp (opA c) (opB c)) g"

definition execSubfUc :: fpLeaf where
  "execSubfUc fp g c = fpExec (subF fp (opA c) (opB c)) g"

definition execMulfUc :: fpLeaf where
  "execMulfUc fp g c = fpExec (mulF fp (opA c) (opB c)) g"

definition execDivfUc :: fpLeaf where
  "execDivfUc fp g c = fpExec (divF fp (opA c) (opB c)) g"

definition execCvtdgUc :: fpLeaf where
  "execCvtdgUc fp g c = fpExec (cvtDG fp (opB c)) g"

definition execAddgUc :: fpLeaf where
  "execAddgUc fp g c = fpExec (addG fp (opA c) (opB c)) g"

definition execSubgUc :: fpLeaf where
  "execSubgUc fp g c = fpExec (subG fp (opA c) (opB c)) g"

definition execMulgUc :: fpLeaf where
  "execMulgUc fp g c = fpExec (mulG fp (opA c) (opB c)) g"

definition execDivgUc :: fpLeaf where
  "execDivgUc fp g c = fpExec (divG fp (opA c) (opB c)) g"

definition execCvtgfUc :: fpLeaf where
  "execCvtgfUc fp g c = fpExec (cvtGF fp (opB c)) g"

definition execCvtgdUc :: fpLeaf where
  "execCvtgdUc fp g c = fpExec (cvtGD fp (opB c)) g"

definition execCvtgqVc :: fpLeaf where
  "execCvtgqVc fp g c = fpExec (cvtGQ fp (opB c)) g"

definition execAddfU :: fpLeaf where
  "execAddfU fp g c = fpExec (addF fp (opA c) (opB c)) g"

definition execSubfU :: fpLeaf where
  "execSubfU fp g c = fpExec (subF fp (opA c) (opB c)) g"

definition execMulfU :: fpLeaf where
  "execMulfU fp g c = fpExec (mulF fp (opA c) (opB c)) g"

definition execDivfU :: fpLeaf where
  "execDivfU fp g c = fpExec (divF fp (opA c) (opB c)) g"

definition execCvtdgU :: fpLeaf where
  "execCvtdgU fp g c = fpExec (cvtDG fp (opB c)) g"

definition execAddgU :: fpLeaf where
  "execAddgU fp g c = fpExec (addG fp (opA c) (opB c)) g"

definition execSubgU :: fpLeaf where
  "execSubgU fp g c = fpExec (subG fp (opA c) (opB c)) g"

definition execMulgU :: fpLeaf where
  "execMulgU fp g c = fpExec (mulG fp (opA c) (opB c)) g"

definition execDivgU :: fpLeaf where
  "execDivgU fp g c = fpExec (divG fp (opA c) (opB c)) g"

definition execCvtgfU :: fpLeaf where
  "execCvtgfU fp g c = fpExec (cvtGF fp (opB c)) g"

definition execCvtgdU :: fpLeaf where
  "execCvtgdU fp g c = fpExec (cvtGD fp (opB c)) g"

definition execCvtgqV :: fpLeaf where
  "execCvtgqV fp g c = fpExec (cvtGQ fp (opB c)) g"

definition execAddfSc :: fpLeaf where
  "execAddfSc fp g c = fpExec (addF fp (opA c) (opB c)) g"

definition execSubfSc :: fpLeaf where
  "execSubfSc fp g c = fpExec (subF fp (opA c) (opB c)) g"

definition execMulfSc :: fpLeaf where
  "execMulfSc fp g c = fpExec (mulF fp (opA c) (opB c)) g"

definition execDivfSc :: fpLeaf where
  "execDivfSc fp g c = fpExec (divF fp (opA c) (opB c)) g"

definition execCvtdgSc :: fpLeaf where
  "execCvtdgSc fp g c = fpExec (cvtDG fp (opB c)) g"

definition execAddgSc :: fpLeaf where
  "execAddgSc fp g c = fpExec (addG fp (opA c) (opB c)) g"

definition execSubgSc :: fpLeaf where
  "execSubgSc fp g c = fpExec (subG fp (opA c) (opB c)) g"

definition execMulgSc :: fpLeaf where
  "execMulgSc fp g c = fpExec (mulG fp (opA c) (opB c)) g"

definition execDivgSc :: fpLeaf where
  "execDivgSc fp g c = fpExec (divG fp (opA c) (opB c)) g"

definition execCvtgfSc :: fpLeaf where
  "execCvtgfSc fp g c = fpExec (cvtGF fp (opB c)) g"

definition execCvtgdSc :: fpLeaf where
  "execCvtgdSc fp g c = fpExec (cvtGD fp (opB c)) g"

definition execCvtgqSc :: fpLeaf where
  "execCvtgqSc fp g c = fpExec (cvtGQ fp (opB c)) g"

definition execAddfS :: fpLeaf where
  "execAddfS fp g c = fpExec (addF fp (opA c) (opB c)) g"

definition execSubfS :: fpLeaf where
  "execSubfS fp g c = fpExec (subF fp (opA c) (opB c)) g"

definition execMulfS :: fpLeaf where
  "execMulfS fp g c = fpExec (mulF fp (opA c) (opB c)) g"

definition execDivfS :: fpLeaf where
  "execDivfS fp g c = fpExec (divF fp (opA c) (opB c)) g"

definition execCvtdgS :: fpLeaf where
  "execCvtdgS fp g c = fpExec (cvtDG fp (opB c)) g"

definition execAddgS :: fpLeaf where
  "execAddgS fp g c = fpExec (addG fp (opA c) (opB c)) g"

definition execSubgS :: fpLeaf where
  "execSubgS fp g c = fpExec (subG fp (opA c) (opB c)) g"

definition execMulgS :: fpLeaf where
  "execMulgS fp g c = fpExec (mulG fp (opA c) (opB c)) g"

definition execDivgS :: fpLeaf where
  "execDivgS fp g c = fpExec (divG fp (opA c) (opB c)) g"

definition execCmpgeqS :: fpLeaf where
  "execCmpgeqS fp g c = fpExec (cmpG fp CmpEq (opA c) (opB c)) g"

definition execCmpgltS :: fpLeaf where
  "execCmpgltS fp g c = fpExec (cmpG fp CmpLt (opA c) (opB c)) g"

definition execCmpgleS :: fpLeaf where
  "execCmpgleS fp g c = fpExec (cmpG fp CmpLe (opA c) (opB c)) g"

definition execCvtgfS :: fpLeaf where
  "execCvtgfS fp g c = fpExec (cvtGF fp (opB c)) g"

definition execCvtgdS :: fpLeaf where
  "execCvtgdS fp g c = fpExec (cvtGD fp (opB c)) g"

definition execCvtgqS :: fpLeaf where
  "execCvtgqS fp g c = fpExec (cvtGQ fp (opB c)) g"

definition execAddfSuc :: fpLeaf where
  "execAddfSuc fp g c = fpExec (addF fp (opA c) (opB c)) g"

definition execSubfSuc :: fpLeaf where
  "execSubfSuc fp g c = fpExec (subF fp (opA c) (opB c)) g"

definition execMulfSuc :: fpLeaf where
  "execMulfSuc fp g c = fpExec (mulF fp (opA c) (opB c)) g"

definition execDivfSuc :: fpLeaf where
  "execDivfSuc fp g c = fpExec (divF fp (opA c) (opB c)) g"

definition execCvtdgSuc :: fpLeaf where
  "execCvtdgSuc fp g c = fpExec (cvtDG fp (opB c)) g"

definition execAddgSuc :: fpLeaf where
  "execAddgSuc fp g c = fpExec (addG fp (opA c) (opB c)) g"

definition execSubgSuc :: fpLeaf where
  "execSubgSuc fp g c = fpExec (subG fp (opA c) (opB c)) g"

definition execMulgSuc :: fpLeaf where
  "execMulgSuc fp g c = fpExec (mulG fp (opA c) (opB c)) g"

definition execDivgSuc :: fpLeaf where
  "execDivgSuc fp g c = fpExec (divG fp (opA c) (opB c)) g"

definition execCvtgfSuc :: fpLeaf where
  "execCvtgfSuc fp g c = fpExec (cvtGF fp (opB c)) g"

definition execCvtgdSuc :: fpLeaf where
  "execCvtgdSuc fp g c = fpExec (cvtGD fp (opB c)) g"

definition execCvtgqSvc :: fpLeaf where
  "execCvtgqSvc fp g c = fpExec (cvtGQ fp (opB c)) g"

definition execAddfSu :: fpLeaf where
  "execAddfSu fp g c = fpExec (addF fp (opA c) (opB c)) g"

definition execSubfSu :: fpLeaf where
  "execSubfSu fp g c = fpExec (subF fp (opA c) (opB c)) g"

definition execMulfSu :: fpLeaf where
  "execMulfSu fp g c = fpExec (mulF fp (opA c) (opB c)) g"

definition execDivfSu :: fpLeaf where
  "execDivfSu fp g c = fpExec (divF fp (opA c) (opB c)) g"

definition execCvtdgSu :: fpLeaf where
  "execCvtdgSu fp g c = fpExec (cvtDG fp (opB c)) g"

definition execAddgSu :: fpLeaf where
  "execAddgSu fp g c = fpExec (addG fp (opA c) (opB c)) g"

definition execSubgSu :: fpLeaf where
  "execSubgSu fp g c = fpExec (subG fp (opA c) (opB c)) g"

definition execMulgSu :: fpLeaf where
  "execMulgSu fp g c = fpExec (mulG fp (opA c) (opB c)) g"

definition execDivgSu :: fpLeaf where
  "execDivgSu fp g c = fpExec (divG fp (opA c) (opB c)) g"

definition execCvtgfSu :: fpLeaf where
  "execCvtgfSu fp g c = fpExec (cvtGF fp (opB c)) g"

definition execCvtgdSu :: fpLeaf where
  "execCvtgdSu fp g c = fpExec (cvtGD fp (opB c)) g"

definition execCvtgqSv :: fpLeaf where
  "execCvtgqSv fp g c = fpExec (cvtGQ fp (opB c)) g"

definition execCvtlq :: "InstructionGrain \<Rightarrow> ExecCtx \<Rightarrow> BoxResult" where
  "execCvtlq g c =
    (let fb = opB c;
         lw = ucast (push_bit 30 (drop_bit 62 fb AND 0x3) OR drop_bit 29 fb AND 0x3FFFFFFF) :: u32
     in fpWrite g (scast lw))"

definition execFcmoveq :: "InstructionGrain \<Rightarrow> ExecCtx \<Rightarrow> BoxResult" where
  "execFcmoveq g c = fcmov (dEq0 (opA c)) g c"

definition execFcmovne :: "InstructionGrain \<Rightarrow> ExecCtx \<Rightarrow> BoxResult" where
  "execFcmovne g c = fcmov (\<not> dEq0 (opA c)) g c"

definition execFcmovlt :: "InstructionGrain \<Rightarrow> ExecCtx \<Rightarrow> BoxResult" where
  "execFcmovlt g c = fcmov (dLt0 (opA c)) g c"

definition execFcmovge :: "InstructionGrain \<Rightarrow> ExecCtx \<Rightarrow> BoxResult" where
  "execFcmovge g c = fcmov (dEq0 (opA c) \<or> dGt0 (opA c)) g c"

definition execFcmovle :: "InstructionGrain \<Rightarrow> ExecCtx \<Rightarrow> BoxResult" where
  "execFcmovle g c = fcmov (dEq0 (opA c) \<or> dLt0 (opA c)) g c"

definition execFcmovgt :: "InstructionGrain \<Rightarrow> ExecCtx \<Rightarrow> BoxResult" where
  "execFcmovgt g c = fcmov (dGt0 (opA c)) g c"

definition execCvtql :: "InstructionGrain \<Rightarrow> ExecCtx \<Rightarrow> BoxResult" where
  "execCvtql g c =
    (let fb = opB c
     in fpWrite g (push_bit 62 (drop_bit 30 fb AND 0x3) OR push_bit 29 (fb AND 0x3FFFFFFF)))"

definition execCvtqlV :: "InstructionGrain \<Rightarrow> ExecCtx \<Rightarrow> BoxResult" where
  "execCvtqlV g c =
    (let fb = opB c
     in fpWrite g (push_bit 62 (drop_bit 30 fb AND 0x3) OR push_bit 29 (fb AND 0x3FFFFFFF)))"

definition execCvtqlSv :: "InstructionGrain \<Rightarrow> ExecCtx \<Rightarrow> BoxResult" where
  "execCvtqlSv g c =
    (let fb = opB c
     in fpWrite g (push_bit 62 (drop_bit 30 fb AND 0x3) OR push_bit 29 (fb AND 0x3FFFFFFF)))"

definition execFbeq :: "InstructionGrain \<Rightarrow> ExecCtx \<Rightarrow> BoxResult" where
  "execFbeq g c = fpBranch (dEq0 (opA c)) g"

definition execFblt :: "InstructionGrain \<Rightarrow> ExecCtx \<Rightarrow> BoxResult" where
  "execFblt g c = fpBranch (dLt0 (opA c)) g"

definition execFble :: "InstructionGrain \<Rightarrow> ExecCtx \<Rightarrow> BoxResult" where
  "execFble g c = fpBranch (dEq0 (opA c) \<or> dLt0 (opA c)) g"

definition execFbne :: "InstructionGrain \<Rightarrow> ExecCtx \<Rightarrow> BoxResult" where
  "execFbne g c = fpBranch (\<not> dEq0 (opA c)) g"

definition execFbge :: "InstructionGrain \<Rightarrow> ExecCtx \<Rightarrow> BoxResult" where
  "execFbge g c = fpBranch (dEq0 (opA c) \<or> dGt0 (opA c)) g"

definition execFbgt :: "InstructionGrain \<Rightarrow> ExecCtx \<Rightarrow> BoxResult" where
  "execFbgt g c = fpBranch (dGt0 (opA c)) g"

section \<open>The exception fold\<close>

text \<open>
  What a floating point instruction may do to the control register: the exception bits are sticky, the
  summary bit is their disjunction, and every other field is left alone.
\<close>

definition fpcr_kept :: "u64 \<Rightarrow> u64 \<Rightarrow> bool" where
  "fpcr_kept f f1 \<longleftrightarrow> (\<forall>n < 64. if 52 \<le> n \<and> n \<le> 57 then bit f n \<longrightarrow> bit f1 n
     else if n = 63 then bit f1 n \<longleftrightarrow> (\<exists>k. 52 \<le> k \<and> k \<le> 57 \<and> bit f1 k)
     else bit f1 n = bit f n)"

lemma bit_push_1: "bit (push_bit k 1 :: u64) n \<longleftrightarrow> n = k \<and> k < 64"
  by (simp only: bit_push_bit_iff bit_1_iff possible_bit_word) auto

lemma bit_exc:
  "bit FPCR_INV n \<longleftrightarrow> n = 52" "bit FPCR_DZE n \<longleftrightarrow> n = 53" "bit FPCR_OVF n \<longleftrightarrow> n = 54"
  "bit FPCR_UNF n \<longleftrightarrow> n = 55" "bit FPCR_INE n \<longleftrightarrow> n = 56" "bit FPCR_IOV n \<longleftrightarrow> n = 57"
  "bit FPCR_SUM n \<longleftrightarrow> n = 63"
  unfolding FPCR_INV_def FPCR_DZE_def FPCR_OVF_def FPCR_UNF_def FPCR_INE_def FPCR_IOV_def FPCR_SUM_def bit_push_1
  by auto

lemma bit_EXC_MASK: "bit EXC_MASK n \<longleftrightarrow> 52 \<le> n \<and> n \<le> 57"
  by (auto simp: EXC_MASK_def bit_or_iff bit_exc)

lemma and_EXC_MASK: "f AND EXC_MASK \<noteq> 0 \<longleftrightarrow> (\<exists>k. 52 \<le> k \<and> k \<le> 57 \<and> bit f k)"
proof -
  have "f AND EXC_MASK = 0 \<longleftrightarrow> (\<forall>k. \<not> bit (f AND EXC_MASK) k)"
    by (metis bit_0_eq bot_apply bot_bool_def bit_eq_iff)
  then show ?thesis by (auto simp: bit_and_iff bit_EXC_MASK)
qed

definition setExc :: "FpExc \<Rightarrow> u64 \<Rightarrow> u64" where
  "setExc e f = f OR (if x_inv e then FPCR_INV else 0) OR (if x_dze e then FPCR_DZE else 0)
     OR (if x_ovf e then FPCR_OVF else 0) OR (if x_unf e then FPCR_UNF else 0)
     OR (if x_ine e then FPCR_INE else 0) OR (if x_iov e then FPCR_IOV else 0)"

lemma or_if: "(if b then f OR m else f) = f OR (if b then m else (0 :: u64))"
  by simp

lemma foldFpcrExc_eq: "foldFpcrExc f e = withRecomputedSum (setExc e f)"
  by (simp only: foldFpcrExc_def applyToFpcr_def setExc_def Let_def or_if or.assoc ArithmeticStatus.simps)

lemma bit_setExc: "bit (setExc e f) n \<longleftrightarrow> bit f n \<or> n = 52 \<and> x_inv e \<or> n = 53 \<and> x_dze e \<or>
    n = 54 \<and> x_ovf e \<or> n = 55 \<and> x_unf e \<or> n = 56 \<and> x_ine e \<or> n = 57 \<and> x_iov e"
  by (auto simp: setExc_def bit_or_iff bit_exc)

lemma bit_withRecomputedSum:
  "bit (withRecomputedSum f) n \<longleftrightarrow> (if n = 63 then f AND EXC_MASK \<noteq> 0 else bit f n)"
  by (auto simp: withRecomputedSum_def bit_or_iff bit_and_iff bit_not_iff bit_exc dest: bit_imp_le_length)

lemma bit_foldFpcrExc:
  "n \<noteq> 63 \<Longrightarrow> bit (foldFpcrExc f e) n = bit (setExc e f) n"
  "bit (foldFpcrExc f e) 63 \<longleftrightarrow> (\<exists>k. 52 \<le> k \<and> k \<le> 57 \<and> bit (setExc e f) k)"
  by (simp_all add: foldFpcrExc_eq bit_withRecomputedSum and_EXC_MASK)

lemma fpcr_kept_fold: "fpcr_kept f (foldFpcrExc f e)"
proof -
  have "bit (foldFpcrExc f e) k = bit (setExc e f) k" if "52 \<le> k \<and> k \<le> 57" for k
    using that by (intro bit_foldFpcrExc(1)) simp
  then have "(\<exists>k. 52 \<le> k \<and> k \<le> 57 \<and> bit (foldFpcrExc f e) k) \<longleftrightarrow> bit (foldFpcrExc f e) 63"
    unfolding bit_foldFpcrExc(2) by blast
  then show ?thesis
    unfolding fpcr_kept_def by (simp add: bit_foldFpcrExc(1)) (auto simp: bit_setExc)
qed

lemma fpExec_conforms [simp]:
  "fst (fpExec call g cpu) = fpWrite g (fr_bits (call \<lparr>fx_variant = fpVariantFromEncoded (encoded g), fx_fpcr = fpcr cpu\<rparr>))"
  "snd (fpExec call g cpu) = cpu\<lparr>fpcr := foldFpcrExc (fpcr cpu)
     (fr_exc (call \<lparr>fx_variant = fpVariantFromEncoded (encoded g), fx_fpcr = fpcr cpu\<rparr>))\<rparr>"
  by (simp_all add: fpExec_def Let_def)

text \<open>A library whose entry points return zero and raise nothing, for examples.\<close>

definition quietBackend :: IFpBackend where
  "quietBackend = softFloatBackend
     \<lparr>f64_add = \<lambda>_ _ _. (0, 0), f64_sub = \<lambda>_ _ _. (0, 0), f64_mul = \<lambda>_ _ _. (0, 0), f64_div = \<lambda>_ _ _. (0, 0),
      f64_sqrt = \<lambda>_ _. (0, 0), f32_add = \<lambda>_ _ _. (0, 0), f32_sub = \<lambda>_ _ _. (0, 0), f32_mul = \<lambda>_ _ _. (0, 0),
      f32_div = \<lambda>_ _ _. (0, 0), f32_sqrt = \<lambda>_ _. (0, 0), f64_to_f32 = \<lambda>_ _. (0, 0), f32_to_f64 = \<lambda>_. 0,
      f64_to_i64 = \<lambda>_ _ _. (0, 0), i64_to_f64 = \<lambda>_ _. (0, 0), i64_to_f32 = \<lambda>_ _. (0, 0),
      f64_eq = \<lambda>a b. (a = b, 0), f64_lt_quiet = \<lambda>_ _. (False, 0), f64_le_quiet = \<lambda>_ _. (False, 0)\<rparr> 0"

lemmas fp_leaf_defs =
  execAddt_def execSubt_def execMult_def execDivt_def execAdds_def execSubs_def execMuls_def
  execDivs_def execCmpteq_def execCmptlt_def execCmptle_def execCmptun_def execCvtts_def execCvtst_def
  execCvttq_def execCvtqs_def execCvtqt_def execCvttsC_def execCvttsM_def execCvttsD_def
  execCvttsUc_def execCvttsUm_def execCvttsU_def execCvttsUd_def execCvttsSuc_def execCvttsSum_def
  execCvttsSu_def execCvttsSud_def execCvttsSuic_def execCvttsSuim_def execCvttsSui_def
  execCvttsSuid_def execCvttqC_def execCvttqM_def execCvttqD_def execCvttqVc_def execCvttqVm_def
  execCvttqV_def execCvttqVd_def execCvttqSvc_def execCvttqSvm_def execCvttqSv_def execCvttqSvd_def
  execCvttqSvic_def execCvttqSvim_def execCvttqSvi_def execCvttqSvid_def execCvtqsC_def execCvtqsM_def
  execCvtqsD_def execCvtqsSuic_def execCvtqsSuim_def execCvtqsSui_def execCvtqsSuid_def execCvtqtC_def
  execCvtqtM_def execCvtqtD_def execCvtqtSuic_def execCvtqtSuim_def execCvtqtSui_def execCvtqtSuid_def
  execCvtstS_def execCmptunSu_def execCmpteqSu_def execCmptltSu_def execCmptleSu_def execSqrts_def
  execSqrtt_def execSqrtfC_def execSqrtf_def execSqrtfUc_def execSqrtfU_def execSqrtfSc_def
  execSqrtfS_def execSqrtfSuc_def execSqrtfSu_def execSqrtgC_def execSqrtg_def execSqrtgUc_def
  execSqrtgU_def execSqrtgSc_def execSqrtgS_def execSqrtgSuc_def execSqrtgSu_def execSqrtsC_def
  execSqrtsM_def execSqrtsD_def execSqrtsUc_def execSqrtsUm_def execSqrtsU_def execSqrtsUd_def
  execSqrtsSuc_def execSqrtsSum_def execSqrtsSu_def execSqrtsSud_def execSqrtsSuic_def
  execSqrtsSuim_def execSqrtsSui_def execSqrtsSuid_def execSqrttC_def execSqrttM_def execSqrttD_def
  execSqrttUc_def execSqrttUm_def execSqrttU_def execSqrttUd_def execSqrttSuc_def execSqrttSum_def
  execSqrttSu_def execSqrttSud_def execSqrttSuic_def execSqrttSuim_def execSqrttSui_def
  execSqrttSuid_def execAddfC_def execSubfC_def execMulfC_def execDivfC_def execCvtdgC_def
  execAddgC_def execSubgC_def execMulgC_def execDivgC_def execCvtgfC_def execCvtgdC_def execCvtgqC_def
  execCvtqfC_def execCvtqgC_def execAddf_def execSubf_def execMulf_def execDivf_def execCvtdg_def
  execAddg_def execSubg_def execMulg_def execDivg_def execCmpgeq_def execCmpglt_def execCmpgle_def
  execCvtgf_def execCvtgd_def execCvtgq_def execCvtqf_def execCvtqg_def execAddfUc_def execSubfUc_def
  execMulfUc_def execDivfUc_def execCvtdgUc_def execAddgUc_def execSubgUc_def execMulgUc_def
  execDivgUc_def execCvtgfUc_def execCvtgdUc_def execCvtgqVc_def execAddfU_def execSubfU_def
  execMulfU_def execDivfU_def execCvtdgU_def execAddgU_def execSubgU_def execMulgU_def execDivgU_def
  execCvtgfU_def execCvtgdU_def execCvtgqV_def execAddfSc_def execSubfSc_def execMulfSc_def
  execDivfSc_def execCvtdgSc_def execAddgSc_def execSubgSc_def execMulgSc_def execDivgSc_def
  execCvtgfSc_def execCvtgdSc_def execCvtgqSc_def execAddfS_def execSubfS_def execMulfS_def
  execDivfS_def execCvtdgS_def execAddgS_def execSubgS_def execMulgS_def execDivgS_def execCmpgeqS_def
  execCmpgltS_def execCmpgleS_def execCvtgfS_def execCvtgdS_def execCvtgqS_def execAddfSuc_def
  execSubfSuc_def execMulfSuc_def execDivfSuc_def execCvtdgSuc_def execAddgSuc_def execSubgSuc_def
  execMulgSuc_def execDivgSuc_def execCvtgfSuc_def execCvtgdSuc_def execCvtgqSvc_def execAddfSu_def
  execSubfSu_def execMulfSu_def execDivfSu_def execCvtdgSu_def execAddgSu_def execSubgSu_def
  execMulgSu_def execDivgSu_def execCvtgfSu_def execCvtgdSu_def execCvtgqSv_def

lemmas fp_pure_defs =
  execCvtlq_def execFcmoveq_def execFcmovne_def execFcmovlt_def execFcmovge_def execFcmovle_def
  execFcmovgt_def execCvtql_def execCvtqlV_def execCvtqlSv_def execFbeq_def execFblt_def execFble_def
  execFbne_def execFbge_def execFbgt_def execCpys_def execCpysn_def execCpyse_def

lemmas fp_memory_defs =
  execLdf_def execLdg_def execLds_def execLdt_def execStf_def execStg_def execSts_def execStt_def

section \<open>Qualifiers\<close>

text \<open>
  The rounding mode an instruction gets: its function bits 7 and 6 select it, and the dynamic
  qualifier selects round to nearest, whatever the control register says, because the decoder sets the
  mode but not the flag the resolution tests.
\<close>

definition functionRound :: "u32 \<Rightarrow> u32" where
  "functionRound w = drop_bit 11 w AND 0x3"

lemma function_rnd: "(ucast (drop_bit 6 (ucast (drop_bit 5 w AND 0x7FF) :: u16) AND 0x3) :: u8) = ucast (functionRound w)"
proof (rule bit_word_eqI)
  have m: "(0x7FF :: u32) = mask 11" and t: "(3 :: u16) = mask 2" and t2: "(3 :: u32) = mask 2"
    by (simp_all add: mask_eq_exp_minus_1)
  fix n assume "n < LENGTH(8)"
  then show "bit (ucast (drop_bit 6 (ucast (drop_bit 5 w AND 0x7FF) :: u16) AND 0x3) :: u8) n = bit (ucast (functionRound w) :: u8) n"
    unfolding functionRound_def m t t2
    by (auto simp: bit_ucast_iff bit_and_iff bit_drop_bit_eq bit_mask_iff add.assoc [symmetric])
qed

lemma ucast_eq_round: "(ucast (functionRound w) :: u8) = k \<longleftrightarrow> functionRound w = ucast k"
  if "k \<in> {0, 1, 2, 3}"
proof -
  have "functionRound w = take_bit 2 (functionRound w)"
    using take_bit_eq_mask [of 2 "functionRound w"] by (simp add: functionRound_def mask_eq_exp_minus_1 and.assoc)
  then have "unat (functionRound w) < 4"
    using take_bit_nat_less_exp [of 2 "unat (functionRound w)"] by (metis unsigned_take_bit_eq numeral_Bit0 power2_eq_square numeral_times_numeral semiring_norm(12) semiring_norm(13) mult_2)
  then show ?thesis using that by (auto simp: word_unat_eq_iff unsigned_ucast_eq take_bit_eq_mod)
qed

lemma effective_mode:
  "getEffectiveRoundingMode (fpVariantFromEncoded w) =
    (if functionRound w = 0 then RoundTowardZero else if functionRound w = 1 then RoundDown else RoundToNearest)"
  unfolding fpVariantFromEncoded_def Let_def function_rnd
  by (simp add: ucast_eq_round newFPVariant_def getEffectiveRoundingMode_def)

lemma dynamic_rounding_ignored:
  "resolveRm \<lparr>fx_variant = fpVariantFromEncoded w, fx_fpcr = f\<rparr> =
    (if functionRound w = 0 then softfloat_round_minMag else if functionRound w = 1 then softfloat_round_min
     else softfloat_round_near_even)"
  by (simp add: resolveRm_def effective_mode)

lemma underflow_never_enabled: "\<not> v_underflow (fpVariantFromEncoded w)"
  by (simp add: fpVariantFromEncoded_def newFPVariant_def Let_def)

section \<open>Longwords in floating point registers\<close>

lemma field_masks: "(3 :: u64) = mask 2" "(0x3FFFFFFF :: u64) = mask 30"
  by (simp_all add: mask_eq_exp_minus_1)

lemma cvtql_bits:
  "bit (regWriteValue (execCvtql g c)) n \<longleftrightarrow>
    (62 \<le> n \<and> n < 64 \<and> bit (opB c) (n - 32)) \<or> (29 \<le> n \<and> n < 59 \<and> bit (opB c) (n - 29))"
proof -
  have v: "regWriteValue (execCvtql g c) = push_bit 62 (drop_bit 30 (opB c) AND 0x3) OR push_bit 29 (opB c AND 0x3FFFFFFF)"
    by (simp add: execCvtql_def fpWrite_def Let_def)
  show ?thesis
    unfolding v field_masks
    by (auto simp: bit_or_iff bit_push_bit_iff bit_and_iff bit_drop_bit_eq bit_mask_iff dest: bit_imp_le_length)
qed

text \<open>
  C29. A longword survives in a floating point register: CVTLQ of the image that CVTQL (in any of its
  three forms) makes of a quadword is the sign extension of the quadword's low longword.
\<close>

theorem longword_image_roundtrip:
  "regWriteValue (execCvtlq g (d\<lparr>opB := regWriteValue (execCvtql h c)\<rparr>)) = scast (ucast (opB c) :: u32) \<and>
   execCvtqlV h c = execCvtql h c \<and> execCvtqlSv h c = execCvtql h c"
proof -
  define q where "q = regWriteValue (execCvtql h c)"
  have "(ucast (push_bit 30 (drop_bit 62 q AND 0x3) OR drop_bit 29 q AND 0x3FFFFFFF) :: u32) = ucast (opB c)" (is "?l = _")
  proof (rule bit_word_eqI)
    fix n assume n: "n < LENGTH(32)"
    have "bit ?l n \<longleftrightarrow> (30 \<le> n \<and> bit q (n + 32)) \<or> (n < 30 \<and> bit q (n + 29))"
      using n unfolding field_masks
      by (auto simp: bit_ucast_iff bit_or_iff bit_push_bit_iff bit_and_iff bit_drop_bit_eq bit_mask_iff add.commute)
    then show "bit ?l n = bit (ucast (opB c) :: u32) n"
      using n by (auto simp: q_def cvtql_bits bit_ucast_iff)
  qed
  then have "regWriteValue (execCvtlq g (d\<lparr>opB := q\<rparr>)) = scast (ucast (opB c) :: u32)"
    by (simp add: execCvtlq_def fpWrite_def Let_def)
  then show ?thesis by (simp add: q_def execCvtqlV_def execCvtqlSv_def execCvtql_def)
qed

text \<open>But it does not survive a store: the image of five is stored as zero, its exponent field being zero.\<close>

lemma longword_store_lost:
  "convertS_FloatingToMemory (regWriteValue (execCvtql h (c\<lparr>opB := 5\<rparr>))) = 0"
  by (simp add: execCvtql_def fpWrite_def convertS_FloatingToMemory_def Let_def)

end
