(* ===== verification/PalMode.thy ===== *)
theory PalMode
  imports Grains
begin

text \<open>
  PAL mode: the shadow registers and the mode change of coreLib/PalShadow.h, the trap vectors and the
  CALL\_PAL entries of coreLib/Ev6EntryVectors.h, and the shape of the register file that every
  instruction keeps.
\<close>

section \<open>PAL mode\<close>

definition kICtlSdeHighBit :: u64 where
  "kICtlSdeHighBit = push_bit 7 1"

definition iCtlSdeHigh :: "u64 \<Rightarrow> bool" where
  "iCtlSdeHigh iCtl \<longleftrightarrow> iCtl AND kICtlSdeHighBit \<noteq> 0"

definition swapShadow :: "nat \<Rightarrow> nat \<Rightarrow> Cpu \<Rightarrow> Cpu" where
  "swapShadow r s cpu = cpu\<lparr>intReg := (intReg cpu)[r := intShadow cpu ! s],
     intShadow := (intShadow cpu)[s := intReg cpu ! r]\<rparr>"

definition swapPalShadowRegs :: "Cpu \<Rightarrow> Cpu" where
  "swapPalShadowRegs cpu = fold (\<lambda>i. swapShadow (20 + i) (4 + i)) [0..<4]
     (fold (\<lambda>i. swapShadow (4 + i) i) [0..<4] cpu)"

definition sdeEnabled :: "Cpu \<Rightarrow> bool" where
  "sdeEnabled cpu = iCtlSdeHigh (i_ctl cpu)"

definition palModeEnter :: "Cpu \<Rightarrow> Cpu" where
  "palModeEnter cpu =
    (if inPalMode cpu then cpu
     else let cpu1 = (if sdeEnabled cpu then swapPalShadowRegs cpu else cpu)
          in cpu1\<lparr>pc := pc cpu1 OR 1\<rparr>)"

definition palModeLeave :: "Cpu \<Rightarrow> Cpu" where
  "palModeLeave cpu =
    (if \<not> inPalMode cpu then cpu
     else let cpu1 = cpu\<lparr>pc := pc cpu AND NOT 1\<rparr>
          in if sdeEnabled cpu1 then swapPalShadowRegs cpu1 else cpu1)"

definition setPalMode :: "Cpu \<Rightarrow> bool \<Rightarrow> Cpu" where
  "setPalMode cpu target =
    (if inPalMode cpu = target then cpu
     else if target then palModeEnter cpu else palModeLeave cpu)"

section \<open>Trap vectors\<close>

definition kEntry_None :: u64 where
  "kEntry_None = 0"

definition kPalBaseAlignMask :: u64 where
  "kPalBaseAlignMask = NOT 0x7FFF"

definition computeHwExceptionEntry :: "u64 \<Rightarrow> u64 \<Rightarrow> u64" where
  "computeHwExceptionEntry base entryOffset = base AND kPalBaseAlignMask OR entryOffset"

definition computeCallPalEntry :: "u64 \<Rightarrow> u32 \<Rightarrow> u64" where
  "computeCallPalEntry base funcCode =
    (let isUnprivileged = (funcCode AND 0x80 \<noteq> 0);
         entryBase = (if isUnprivileged then 0x3000 else 0x2000);
         idx = ucast (funcCode AND 0x3F)
     in base AND kPalBaseAlignMask OR entryBase OR push_bit 6 idx)"

definition entryForFault :: "u16 \<Rightarrow> u64" where
  "entryForFault code =
    (if code = 0 then kEntry_None
     else if code = 1 \<or> code = 2 \<or> code = 3 then 0x400
     else if code = 4 then 0x280
     else if code = 5 then 0x300
     else if code = 6 then 0x580
     else if code = 7 \<or> code = 8 \<or> code = 9 then 0x380
     else if code = 10 then 0x480
     else if code = 11 then 0x500
     else if code = 12 then 0x380
     else if code = 13 then kEntry_None
     else if code = 14 then 0x100
     else 0x400)"

section \<open>Well-formed processor states\<close>

definition cpu_wf :: "Cpu \<Rightarrow> bool" where
  "cpu_wf cpu \<longleftrightarrow> length (intReg cpu) = 32 \<and> length (fpReg cpu) = 32 \<and> length (intShadow cpu) = 8 \<and> length (palTemp cpu) = 32 \<and>
     intReg cpu ! 31 = 0 \<and> fpReg cpu ! 31 = 0"

lemma upt4: "[0..<4] = [0, 1, 2, 3]"
  by (simp add: upt_rec)

lemma swapPalShadowRegs_eq:
  "swapPalShadowRegs cpu = cpu\<lparr>intReg := intReg (swapPalShadowRegs cpu),
     intShadow := intShadow (swapPalShadowRegs cpu)\<rparr>"
  by (simp add: swapPalShadowRegs_def swapShadow_def upt4)

lemma length_swap [simp]:
  "length (intReg (swapPalShadowRegs cpu)) = length (intReg cpu)"
  "length (intShadow (swapPalShadowRegs cpu)) = length (intShadow cpu)"
  by (simp_all add: swapPalShadowRegs_def swapShadow_def upt4)

lemma swap_frame [simp]:
  "pc (swapPalShadowRegs cpu) = pc cpu" "i_ctl (swapPalShadowRegs cpu) = i_ctl cpu"
  "fpReg (swapPalShadowRegs cpu) = fpReg cpu" "palBase (swapPalShadowRegs cpu) = palBase cpu"
  "halted (swapPalShadowRegs cpu) = halted cpu" "excAddr (swapPalShadowRegs cpu) = excAddr cpu"
  "cycleCount (swapPalShadowRegs cpu) = cycleCount cpu" "palTemp (swapPalShadowRegs cpu) = palTemp cpu"
  by (simp_all add: swapPalShadowRegs_def swapShadow_def upt4)

text \<open>The register view after the exchange, index by index.\<close>

definition shadowOf :: "nat \<Rightarrow> nat option" where
  "shadowOf k = (if 4 \<le> k \<and> k < 8 then Some (k - 4) else if 20 \<le> k \<and> k < 24 then Some (k - 16) else None)"

lemma nat_ranges:
  "4 \<le> (k::nat) \<and> k < 8 \<longleftrightarrow> k = 4 \<or> k = 5 \<or> k = 6 \<or> k = 7"
  "20 \<le> (k::nat) \<and> k < 24 \<longleftrightarrow> k = 20 \<or> k = 21 \<or> k = 22 \<or> k = 23"
  by arith+

lemma swap_intReg_nth:
  assumes "length (intReg cpu) = 32" "length (intShadow cpu) = 8"
  shows "intReg (swapPalShadowRegs cpu) ! k =
    (case shadowOf k of Some s \<Rightarrow> intShadow cpu ! s | None \<Rightarrow> intReg cpu ! k)"
  unfolding shadowOf_def nat_ranges using assms
  by (auto simp: swapPalShadowRegs_def swapShadow_def upt4 nth_list_update)

lemma swap_intShadow_nth:
  assumes "length (intReg cpu) = 32" "length (intShadow cpu) = 8" "s < 8"
  shows "intShadow (swapPalShadowRegs cpu) ! s = intReg cpu ! (if s < 4 then 4 + s else 16 + s)"
proof -
  have "s = 0 \<or> s = 1 \<or> s = 2 \<or> s = 3 \<or> s = 4 \<or> s = 5 \<or> s = 6 \<or> s = 7" using assms by arith
  then show ?thesis using assms
    by (elim disjE) (simp_all add: swapPalShadowRegs_def swapShadow_def upt4)
qed

lemma swap_involutive:
  assumes "length (intReg cpu) = 32" "length (intShadow cpu) = 8"
  shows "swapPalShadowRegs (swapPalShadowRegs cpu) = cpu"
proof -
  have "intReg (swapPalShadowRegs (swapPalShadowRegs cpu)) = intReg cpu"
  proof (rule nth_equalityI)
    fix k show "intReg (swapPalShadowRegs (swapPalShadowRegs cpu)) ! k = intReg cpu ! k"
      using assms by (auto simp: swap_intReg_nth swap_intShadow_nth shadowOf_def)
  qed simp
  moreover have "intShadow (swapPalShadowRegs (swapPalShadowRegs cpu)) = intShadow cpu"
  proof (rule nth_equalityI)
    fix s assume "s < length (intShadow (swapPalShadowRegs (swapPalShadowRegs cpu)))"
    then show "intShadow (swapPalShadowRegs (swapPalShadowRegs cpu)) ! s = intShadow cpu ! s"
      using assms by (auto simp: swap_intReg_nth swap_intShadow_nth shadowOf_def)
  qed simp
  ultimately show ?thesis
    by (subst swapPalShadowRegs_eq, subst swapPalShadowRegs_eq) simp
qed

lemma wf_swap: "cpu_wf cpu \<Longrightarrow> cpu_wf (swapPalShadowRegs cpu)"
  by (simp add: cpu_wf_def swap_intReg_nth shadowOf_def)

lemma cpu_wf_update [simp]:
  "cpu_wf (cpu\<lparr>pc := v\<rparr>) = cpu_wf cpu" "cpu_wf (cpu\<lparr>mm_stat := v\<rparr>) = cpu_wf cpu"
  "cpu_wf (cpu\<lparr>cpu_va := v\<rparr>) = cpu_wf cpu" "cpu_wf (cpu\<lparr>excAddr := v\<rparr>) = cpu_wf cpu"
  "cpu_wf (cpu\<lparr>halted := h\<rparr>) = cpu_wf cpu" "cpu_wf (cpu\<lparr>lastFaultCode := c\<rparr>) = cpu_wf cpu"
  "cpu_wf (cpu\<lparr>cycleCount := v\<rparr>) = cpu_wf cpu" "cpu_wf (cpu\<lparr>errorReg := v\<rparr>) = cpu_wf cpu"
  "cpu_wf (cpu\<lparr>dataReg := d\<rparr>) = cpu_wf cpu" "cpu_wf (cpu\<lparr>intrFlag := v\<rparr>) = cpu_wf cpu"
  by (simp_all add: cpu_wf_def)

lemma inPalMode_bit: "inPalMode cpu \<longleftrightarrow> bit (pc cpu) 0"
  using and_exp_neq_0_iff [of "pc cpu" 0] by (simp add: inPalMode_def)

lemma wf_palModeEnter: "cpu_wf cpu \<Longrightarrow> cpu_wf (palModeEnter cpu)"
  by (simp add: palModeEnter_def Let_def wf_swap)

section \<open>Traps\<close>

lemma entryForFault_low: "entryForFault c AND 0x7FFF = entryForFault c"
  by (simp add: entryForFault_def kEntry_None_def)

lemma palModeEnter_frame [simp]:
  "palBase (palModeEnter cpu) = palBase cpu" "excAddr (palModeEnter cpu) = excAddr cpu"
  "fpReg (palModeEnter cpu) = fpReg cpu" "halted (palModeEnter cpu) = halted cpu"
  "cycleCount (palModeEnter cpu) = cycleCount cpu"
  by (simp_all add: palModeEnter_def Let_def)

lemma palMode_roundtrip:
  assumes "cpu_wf cpu"
  shows "\<not> inPalMode cpu \<Longrightarrow> palModeLeave (palModeEnter cpu) = cpu"
    and "inPalMode cpu \<Longrightarrow> palModeEnter (palModeLeave cpu) = cpu"
proof -
  have inv: "swapPalShadowRegs (swapPalShadowRegs cpu) = cpu"
    using assms by (intro swap_involutive) (simp_all add: cpu_wf_def)
  have upd: "swapPalShadowRegs (cpu'\<lparr>pc := v\<rparr>) = (swapPalShadowRegs cpu')\<lparr>pc := v\<rparr>" for cpu' v
    by (simp add: swapPalShadowRegs_def swapShadow_def upt4)
  have set: "(v :: u64) AND NOT 1 OR 1 = v" if "bit v 0" for v
    using that by (intro bit_word_eqI) (auto simp: bit_simps)
  have clear: "((v :: u64) OR 1) AND NOT 1 = v" if "\<not> bit v 0" for v
    using that by (intro bit_word_eqI) (auto simp: bit_simps intro!: gr0I)
  have low: "\<not> bit ((v :: u64) AND NOT 1) 0" for v
    by (simp only: bit_and_iff bit_not_iff bit_1_iff) simp
  show "palModeLeave (palModeEnter cpu) = cpu" if "\<not> inPalMode cpu"
    using that inv clear [of "pc cpu"]
    by (simp add: bit_or_iff palModeLeave_def palModeEnter_def inPalMode_bit upd sdeEnabled_def Let_def)
  show "palModeEnter (palModeLeave cpu) = cpu" if "inPalMode cpu"
    using that inv set [of "pc cpu"] low [of "pc cpu"]
    by (simp add: palModeLeave_def palModeEnter_def inPalMode_bit upd sdeEnabled_def Let_def)
qed

lemma entryForFault_None:
  "entryForFault c = kEntry_None \<longleftrightarrow> c = kNoFault \<or> c = kFaultHalt"
  by (simp add: entryForFault_def kEntry_None_def kNoFault_def kFaultHalt_def)

lemma vector_bits: "computeHwExceptionEntry base (entryForFault c) AND 3 = 0"
proof -
  have "kPalBaseAlignMask AND 3 = 0" by (simp add: kPalBaseAlignMask_def)
  moreover have "entryForFault c AND 3 = 0" by (simp add: entryForFault_def kEntry_None_def)
  ultimately show ?thesis
    by (simp add: computeHwExceptionEntry_def bit.conj_disj_distrib2 and.assoc)
qed

section \<open>An example state\<close>

definition exampleCpu :: Cpu where
  "exampleCpu = \<lparr>pc = 0x10000, mode = User, asn = 3, va_ctl = 0, i_spe = 0, m_spe = 0,
     unalignTrapEnabled = True, itbMgr = newManager (2 ^ 4) 8, dtbMgr = newManager (2 ^ 4) 8,
     itbTag = 0, dtbTag0 = 0, dtbTag1 = 0, dtbAsn0 = 0, dtbAsn1 = 0, itbPteTemp = 0, dtbPteTemp = 0,
     intReg = replicate 32 0, fpReg = replicate 32 0, intShadow = [1, 2, 3, 4, 5, 6, 7, 8], cpuSlot = 0,
     i_ctl = 0x80, cycleCount = 0, ccOffset = 0, intrFlag = 0, palPersonality = 0, mm_stat = 0,
     cpu_va = 0, excAddr = 0, palBase = 0x8000, errorReg = 0, dataReg = 0, halted = False,
     lastFaultCode = 0, fpcr = 0, ptbr = 0, m_ctl = 0, warpCycles = 0, writeMany = 0, shftCtrl = 0, ier = 0,
     isum = 0, vptb = 0, scbb = 0, palTemp = replicate 32 0, ksp = 0, esp = 0, ssp = 0, usp = 0, fen = 0,
     asten_sr = 0, pcbb = 0\<rparr>"

lemma exampleCpu_wf: "cpu_wf exampleCpu"
  by (simp add: cpu_wf_def exampleCpu_def)

end
