(* ===== verification/GuestMemory.thy ===== *)
theory GuestMemory
  imports Prelude
begin

text \<open>
  The guest's physical memory of memoryLib/GuestMemory.h and GuestMemory.cpp: a sparse array of
  64 KB pages allocated on the first store, a dirty bitmap for incremental snapshots, the
  aligned fast paths and page-crossing slow paths of the 1, 2, 4 and 8 byte accesses, the block
  transfers, and the load-locked / store-conditional reservations of the LockMonitor.

  A page is a function from its 65536 byte offsets; the pointer table is a list of optional
  pages, the null pointer being None. The host allocator is represented by the number of page
  allocations that still succeed. The pointer a method obtains from ensurePage is used only to
  update the page in place, so the model writes the changed page back to its slot. The host is
  little-endian, which the memcpy fast paths of the source rely on.
\<close>

section \<open>Little-endian values\<close>

primrec leWord :: "u8 list \<Rightarrow> 'a::len word" where
  "leWord [] = 0"
| "leWord (b # bs) = ucast b OR push_bit 8 (leWord bs)"

definition leByte :: "nat \<Rightarrow> 'a::len word \<Rightarrow> u8" where
  "leByte i v = ucast (drop_bit (8 * i) v)"

definition leBytes :: "nat \<Rightarrow> 'a::len word \<Rightarrow> u8 list" where
  "leBytes n v = map (\<lambda>i. leByte i v) [0..<n]"

section \<open>The reservations\<close>

record Reservation =
  res_pa :: u64
  res_valid :: bool

definition kMaxCPUs :: nat where
  "kMaxCPUs = 4"

definition kCacheLineMask :: u64 where
  "kCacheLineMask = NOT (64 - 1)"

definition newLocks :: "Reservation list" where
  "newLocks = replicate kMaxCPUs \<lparr>res_pa = 0, res_valid = False\<rparr>"

definition lockSet :: "int \<Rightarrow> u64 \<Rightarrow> Reservation list \<Rightarrow> Reservation list" where
  "lockSet cpuId pa locks =
    (if cpuId < 0 \<or> int kMaxCPUs \<le> cpuId then locks
     else locks[nat cpuId := \<lparr>res_pa = pa AND kCacheLineMask, res_valid = True\<rparr>])"

definition lockCheck :: "int \<Rightarrow> u64 \<Rightarrow> Reservation list \<Rightarrow> bool" where
  "lockCheck cpuId pa locks =
    (if cpuId < 0 \<or> int kMaxCPUs \<le> cpuId then False
     else res_valid (locks ! nat cpuId) \<and> res_pa (locks ! nat cpuId) = pa AND kCacheLineMask)"

definition lockClear :: "int \<Rightarrow> Reservation list \<Rightarrow> Reservation list" where
  "lockClear cpuId locks =
    (if cpuId < 0 \<or> int kMaxCPUs \<le> cpuId then locks
     else locks[nat cpuId := (locks ! nat cpuId)\<lparr>res_valid := False\<rparr>])"

definition clearLineStep :: "u64 \<Rightarrow> int \<Rightarrow> nat \<Rightarrow> Reservation list \<Rightarrow> Reservation list" where
  "clearLineStep line exceptCpu i locks =
    (if int i = exceptCpu then locks
     else if res_valid (locks ! i) \<and> res_pa (locks ! i) = line
     then locks[i := (locks ! i)\<lparr>res_valid := False\<rparr>] else locks)"

definition lockClearLine :: "u64 \<Rightarrow> int \<Rightarrow> Reservation list \<Rightarrow> Reservation list" where
  "lockClearLine pa exceptCpu locks =
    fold (clearLineStep (pa AND kCacheLineMask) exceptCpu) [0..<kMaxCPUs] locks"

section \<open>The store\<close>

datatype MemStatus = Ok | OutOfRange

type_synonym page = "nat \<Rightarrow> u8"

record GuestMemory =
  m_allocatedPages :: u32
  m_size :: u64
  m_pages :: "page option list"
  m_pageCount :: u32
  m_dirtyBitmap :: "u64 list"
  m_dirtyWordCount :: u32
  m_locks :: "Reservation list"
  pageAllocs :: nat

definition kPageSize :: u64 where
  "kPageSize = 64 * 1024"

definition kPageMask :: u64 where
  "kPageMask = kPageSize - 1"

definition kPageShift :: nat where
  "kPageShift = 16"

definition kPagesPerDirty :: u32 where
  "kPagesPerDirty = 64"

definition zeroPage :: page where
  "zeroPage = (\<lambda>_. 0)"

text \<open>
  The constructor. The two flags say whether the calloc of the pointer table and of the dirty
  bitmap succeed; None is the thrown bad_alloc.
\<close>

definition newGuestMemory :: "bool \<Rightarrow> bool \<Rightarrow> nat \<Rightarrow> u64 \<Rightarrow> GuestMemory option" where
  "newGuestMemory tableOk bitmapOk allocs sizeBytes =
    (let empty = \<lparr>m_allocatedPages = 0, m_size = sizeBytes, m_pages = [], m_pageCount = 0,
                  m_dirtyBitmap = [], m_dirtyWordCount = 0, m_locks = newLocks,
                  pageAllocs = allocs\<rparr> in
     if sizeBytes = 0 then Some empty
     else
       let count = ucast ((sizeBytes + kPageMask) div kPageSize) :: u32 in
       if \<not> tableOk then None
       else if allocs = 0 then None
       else
         let words = (count + kPagesPerDirty - 1) div kPagesPerDirty in
         if \<not> bitmapOk then None
         else Some (empty\<lparr>m_pageCount := count, m_pages := replicate (unat count) None,
                          pageAllocs := allocs - 1, m_dirtyWordCount := words,
                          m_dirtyBitmap := replicate (unat words) 0\<rparr>))"

definition pageIndex :: "u64 \<Rightarrow> u32" where
  "pageIndex pa = ucast (drop_bit kPageShift pa)"

definition pageOffset :: "u64 \<Rightarrow> nat" where
  "pageOffset pa = unat (pa AND kPageMask)"

definition pageAt :: "GuestMemory \<Rightarrow> u32 \<Rightarrow> page option" where
  "pageAt m pidx = m_pages m ! unat pidx"

definition ensurePage :: "u32 \<Rightarrow> GuestMemory \<Rightarrow> page option \<times> GuestMemory" where
  "ensurePage pidx m =
    (if m_pageCount m \<le> pidx then (None, m)
     else case pageAt m pidx of
       Some existing \<Rightarrow> (Some existing, m)
     | None \<Rightarrow>
         if pageAllocs m = 0 then (None, m)
         else (Some zeroPage,
               m\<lparr>m_pages := (m_pages m)[unat pidx := Some zeroPage],
                 pageAllocs := pageAllocs m - 1,
                 m_allocatedPages := m_allocatedPages m + 1\<rparr>))"

definition markDirty :: "u32 \<Rightarrow> GuestMemory \<Rightarrow> GuestMemory" where
  "markDirty pidx m =
    (let w = unat (pidx div kPagesPerDirty) in
     m\<lparr>m_dirtyBitmap := (m_dirtyBitmap m)[w :=
        m_dirtyBitmap m ! w OR push_bit (unat (pidx mod kPagesPerDirty)) 1]\<rparr>)"

text \<open>The memcpy into a page, and a store through the pointer of ensurePage.\<close>

definition copyIn :: "nat \<Rightarrow> u8 list \<Rightarrow> page \<Rightarrow> page" where
  "copyIn off bs pg = (\<lambda>k. if off \<le> k \<and> k < off + length bs then bs ! (k - off) else pg k)"

definition copyOut :: "nat \<Rightarrow> nat \<Rightarrow> page \<Rightarrow> u8 list" where
  "copyOut off n pg = map pg [off..<off + n]"

definition storePage :: "u32 \<Rightarrow> nat \<Rightarrow> u8 list \<Rightarrow> GuestMemory \<Rightarrow> MemStatus \<times> GuestMemory" where
  "storePage pidx off bs m =
    (case ensurePage pidx m of
       (None, m1) \<Rightarrow> (OutOfRange, m1)
     | (Some pg, m1) \<Rightarrow>
         (Ok, markDirty pidx (m1\<lparr>m_pages := (m_pages m1)[unat pidx := Some (copyIn off bs pg)]\<rparr>)))"

subsection \<open>Reads\<close>

definition read1 :: "GuestMemory \<Rightarrow> u64 \<Rightarrow> MemStatus \<times> u8" where
  "read1 m pa =
    (let pidx = pageIndex pa; offset = pageOffset pa in
     if m_pageCount m \<le> pidx then (Ok, 0)
     else case pageAt m pidx of None \<Rightarrow> (Ok, 0) | Some pg \<Rightarrow> (Ok, pg offset))"

definition readCross :: "nat \<Rightarrow> GuestMemory \<Rightarrow> u64 \<Rightarrow> 'a::len word" where
  "readCross n m pa =
    fold (\<lambda>i v. v OR push_bit (8 * i) (ucast (snd (read1 m (pa + of_nat i))))) [0..<n] 0"

definition readWithin :: "nat \<Rightarrow> GuestMemory \<Rightarrow> u64 \<Rightarrow> 'a::len word" where
  "readWithin n m pa =
    (let pidx = pageIndex pa; offset = pageOffset pa in
     if m_pageCount m \<le> pidx then 0
     else case pageAt m pidx of None \<Rightarrow> 0 | Some pg \<Rightarrow> leWord (copyOut offset n pg))"

definition read2 :: "GuestMemory \<Rightarrow> u64 \<Rightarrow> MemStatus \<times> u16" where
  "read2 m pa =
    (if kPageMask - 1 < pa AND kPageMask then (Ok, readCross 2 m pa) else (Ok, readWithin 2 m pa))"

definition read4 :: "GuestMemory \<Rightarrow> u64 \<Rightarrow> MemStatus \<times> u32" where
  "read4 m pa =
    (if kPageMask - 3 < pa AND kPageMask then (Ok, readCross 4 m pa) else (Ok, readWithin 4 m pa))"

definition read8 :: "GuestMemory \<Rightarrow> u64 \<Rightarrow> MemStatus \<times> u64" where
  "read8 m pa =
    (if kPageMask - 7 < pa AND kPageMask then (Ok, readCross 8 m pa) else (Ok, readWithin 8 m pa))"

subsection \<open>Writes\<close>

definition write1 :: "u64 \<Rightarrow> u8 \<Rightarrow> GuestMemory \<Rightarrow> MemStatus \<times> GuestMemory" where
  "write1 pa value m = storePage (pageIndex pa) (pageOffset pa) [value] m"

definition writeCross :: "nat \<Rightarrow> u64 \<Rightarrow> 'a::len word \<Rightarrow> GuestMemory \<Rightarrow> GuestMemory" where
  "writeCross n pa value m =
    fold (\<lambda>i m. snd (write1 (pa + of_nat i) (ucast (drop_bit (8 * i) value)) m)) [0..<n] m"

definition writeWithin ::
    "nat \<Rightarrow> u64 \<Rightarrow> 'a::len word \<Rightarrow> GuestMemory \<Rightarrow> MemStatus \<times> GuestMemory" where
  "writeWithin n pa value m = storePage (pageIndex pa) (pageOffset pa) (leBytes n value) m"

definition write2 :: "u64 \<Rightarrow> u16 \<Rightarrow> GuestMemory \<Rightarrow> MemStatus \<times> GuestMemory" where
  "write2 pa value m =
    (if kPageMask - 1 < pa AND kPageMask then (Ok, writeCross 2 pa value m)
     else writeWithin 2 pa value m)"

definition write4 :: "u64 \<Rightarrow> u32 \<Rightarrow> GuestMemory \<Rightarrow> MemStatus \<times> GuestMemory" where
  "write4 pa value m =
    (if kPageMask - 3 < pa AND kPageMask then (Ok, writeCross 4 pa value m)
     else writeWithin 4 pa value m)"

definition write8 :: "u64 \<Rightarrow> u64 \<Rightarrow> GuestMemory \<Rightarrow> MemStatus \<times> GuestMemory" where
  "write8 pa value m =
    (if kPageMask - 7 < pa AND kPageMask then (Ok, writeCross 8 pa value m)
     else writeWithin 8 pa value m)"

subsection \<open>Block transfers\<close>

text \<open>
  One round handles the part of the block that lies in one page. The source bytes and the
  destination buffer are lists; the result None of readBlock is the unchecked index into the
  pointer table beyond its end.
\<close>

function writeBlock :: "u64 \<Rightarrow> u8 list \<Rightarrow> GuestMemory \<Rightarrow> bool \<times> GuestMemory" where
  "writeBlock addr src m =
    (if src = [] then (True, m)
     else
       let chunk = min (length src) (unat kPageSize - pageOffset addr) in
       case storePage (pageIndex addr) (pageOffset addr) (take chunk src) m of
         (OutOfRange, m1) \<Rightarrow> (False, m1)
       | (Ok, m1) \<Rightarrow> writeBlock (addr + of_nat chunk) (drop chunk src) m1)"
  by pat_completeness auto
termination
proof (relation "measure (\<lambda>(_, src, _). length src)", goal_cases)
  case (2 addr src m chunk st m1)
  have "pageOffset addr < 65536"
    using unat_and_le [of addr kPageMask] by (simp add: pageOffset_def kPageMask_def kPageSize_def)
  then have "0 < chunk" using 2 by (simp add: kPageSize_def)
  then show ?case using 2 by simp
qed simp

function readBlock :: "GuestMemory \<Rightarrow> u64 \<Rightarrow> nat \<Rightarrow> u8 list option" where
  "readBlock m addr remaining =
    (if remaining = 0 then Some []
     else
       let chunk = min remaining (unat kPageSize - pageOffset addr) in
       if length (m_pages m) \<le> unat (pageIndex addr) then None
       else map_option
         (\<lambda>rest. (case pageAt m (pageIndex addr) of
             Some pg \<Rightarrow> copyOut (pageOffset addr) chunk pg | None \<Rightarrow> replicate chunk 0) @ rest)
         (readBlock m (addr + of_nat chunk) (remaining - chunk)))"
  by pat_completeness auto
termination
proof (relation "measure (\<lambda>(_, _, remaining). remaining)", goal_cases)
  case (2 m addr remaining chunk)
  have "pageOffset addr < 65536"
    using unat_and_le [of addr kPageMask] by (simp add: pageOffset_def kPageMask_def kPageSize_def)
  then have "0 < chunk" using 2 by (simp add: kPageSize_def)
  then show ?case using 2 by simp
qed simp

declare writeBlock.simps [simp del] readBlock.simps [simp del]

subsection \<open>Dirty pages\<close>

definition isDirty :: "GuestMemory \<Rightarrow> u32 \<Rightarrow> bool" where
  "isDirty m pidx =
    (if m_pageCount m \<le> pidx then False
     else m_dirtyBitmap m ! unat (pidx div kPagesPerDirty)
            AND push_bit (unat (pidx mod kPagesPerDirty)) 1 \<noteq> 0)"

definition clearDirty :: "GuestMemory \<Rightarrow> GuestMemory" where
  "clearDirty m = m\<lparr>m_dirtyBitmap := replicate (unat (m_dirtyWordCount m)) 0\<rparr>"

definition allocatedIndices :: "GuestMemory \<Rightarrow> nat list" where
  "allocatedIndices m = filter (\<lambda>i. m_pages m ! i \<noteq> None) [0..<unat (m_pageCount m)]"

section \<open>Addresses and little-endian values\<close>

lemma bit_leWord: "bit (leWord bs :: 'a::len word) n \<longleftrightarrow>
    n < LENGTH('a) \<and> n div 8 < length bs \<and> bit (bs ! (n div 8)) (n mod 8)"
proof (induction bs arbitrary: n)
  case Nil then show ?case by simp
next
  case (Cons b bs)
  show ?case
  proof (cases "n < 8")
    case True then show ?thesis by (auto simp: bit_simps)
  next
    case False
    then have "n div 8 = Suc ((n - 8) div 8)" "(n - 8) mod 8 = n mod 8"
      by (simp_all add: le_div_geq le_mod_geq not_less)
    then show ?thesis using False Cons.IH [of "n - 8"]
      by (auto simp: bit_simps bit_u8_out)
  qed
qed

lemma leWord_leBytes:
  assumes "LENGTH('a::len) = 8 * n"
  shows "leWord (leBytes n (v :: 'a word)) = v"
proof (rule bit_word_eqI)
  fix k assume "k < LENGTH('a)"
  moreover from this have "k div 8 < n" using assms by (simp add: div_less_iff_less_mult mult.commute)
  ultimately show "bit (leWord (leBytes n v) :: 'a word) k = bit v k"
    by (simp add: bit_leWord leBytes_def leByte_def bit_simps)
qed

lemma length_leBytes [simp]: "length (leBytes n v) = n"
  by (simp add: leBytes_def)

lemma kPageMask_mask: "kPageMask = mask 16"
  by (simp add: kPageMask_def kPageSize_def mask_numeral)

lemma pageOffset_mod: "pageOffset pa = unat pa mod 65536"
  by (simp add: pageOffset_def kPageMask_mask take_bit_eq_mod unat_mod_distrib flip: take_bit_eq_mask)

lemma pageIndex_div: "unat (pageIndex pa) = unat pa div 65536 mod 2 ^ 32"
  by (simp add: pageIndex_def kPageShift_def unsigned_ucast_eq take_bit_eq_mod drop_bit_eq_div
      unat_div_distrib)

lemma pageOffset_less [simp]: "pageOffset pa < 65536"
  by (simp add: pageOffset_mod)

lemma within_page:
  assumes "pageOffset pa + i < 65536"
  shows "pageIndex (pa + of_nat i) = pageIndex pa" "pageOffset (pa + of_nat i) = pageOffset pa + i"
proof -
  define q where "q = unat pa div 65536"
  define r where "r = unat pa mod 65536"
  have pa: "unat pa = q * 65536 + r" by (simp add: q_def r_def)
  have r: "r + i < 65536" using assms by (simp add: pageOffset_mod r_def)
  have "unat pa < 2 ^ 64" using unsigned_less [of pa, where ?'a = nat] by simp
  then have "q < 2 ^ 48" by (simp add: q_def div_less_iff_less_mult)
  then have "q * 65536 + r + i < 2 ^ 64" using r by simp
  then have s: "unat (pa + of_nat i) = q * 65536 + (r + i)"
    using pa by (simp add: unat_word_ariths(1) unsigned_of_nat take_bit_eq_mod mod_simps)
  show "pageIndex (pa + of_nat i) = pageIndex pa"
    using r by (intro unsigned_word_eqI [where ?'a = nat]) (simp add: pageIndex_div s pa)
  show "pageOffset (pa + of_nat i) = pageOffset pa + i"
    using r by (simp add: pageOffset_mod s pa)
qed

lemma crossing_guard:
  assumes "k < 65536"
  shows "kPageMask - of_nat k < pa AND kPageMask \<longleftrightarrow> 65536 \<le> pageOffset pa + k"
proof -
  have k: "unat (of_nat k :: u64) = k" using assms by (simp add: unat_of_nat_small)
  have "unat (kPageMask - of_nat k) = 65535 - k"
    using assms k by (simp add: unat_sub word_le_nat_alt kPageMask_def kPageSize_def)
  then show ?thesis using assms by (auto simp: word_less_nat_alt pageOffset_def)
qed

text \<open>Two addresses name the same cell when their low 48 bits agree.\<close>

definition sameCell :: "u64 \<Rightarrow> u64 \<Rightarrow> bool" where
  "sameCell p q \<longleftrightarrow> pageIndex p = pageIndex q \<and> pageOffset p = pageOffset q"

lemma sameCell_iff: "sameCell p q \<longleftrightarrow> (ucast p :: 48 word) = ucast q"
proof
  assume "(ucast p :: 48 word) = ucast q"
  then have b: "bit p n = bit q n" if "n < 48" for n
    using that by (auto simp: bit_eq_iff bit_simps)
  have "pageIndex p = pageIndex q"
    unfolding pageIndex_def kPageShift_def by (rule bit_word_eqI) (simp add: bit_simps b)
  moreover have "p AND kPageMask = q AND kPageMask"
    unfolding kPageMask_mask by (rule bit_word_eqI) (auto simp: bit_simps b)
  ultimately show "sameCell p q" by (simp add: sameCell_def pageOffset_def)
next
  assume "sameCell p q"
  then have i: "pageIndex p = pageIndex q" and o: "p AND kPageMask = q AND kPageMask"
    by (auto simp: sameCell_def pageOffset_def intro: unsigned_word_eqI [where ?'a = nat])
  have "bit p n = bit q n" if n: "n < 48" for n
  proof (cases "n < 16")
    case True
    then show ?thesis using arg_cong [OF o, of "\<lambda>w. bit w n"]
      by (simp add: kPageMask_mask bit_simps)
  next
    case False
    then have "n - 16 < 32" using n by simp
    then show ?thesis using False arg_cong [OF i, of "\<lambda>w. bit w (n - 16)"]
      by (simp add: pageIndex_def kPageShift_def bit_simps)
  qed
  then show "(ucast p :: 48 word) = ucast q"
    by (intro bit_word_eqI) (simp add: bit_simps)
qed

lemma ucast48_uint: "(ucast (p :: u64) :: 48 word) = of_int (uint p)"
  by simp

lemma ucast48_hom:
  "(ucast (p + q :: u64) :: 48 word) = ucast p + ucast q"
  "(ucast (p - q :: u64) :: 48 word) = ucast p - ucast q"
  "(ucast (of_nat i :: u64) :: 48 word) = of_nat i"
proof -
  have d: "(2 :: int) ^ 48 dvd 2 ^ 64" by (rule le_imp_power_dvd) simp
  have m: "(of_int (a mod 2 ^ 64) :: 48 word) = of_int a" for a
  proof (rule word_uint_eqI)
    show "uint (of_int (a mod 2 ^ 64) :: 48 word) = uint (of_int a :: 48 word)"
      using mod_mod_cancel [OF d, of a] by (simp only: uint_word_of_int len_of_numeral_defs) simp
  qed
  show "(ucast (p + q :: u64) :: 48 word) = ucast p + ucast q"
    "(ucast (p - q :: u64) :: 48 word) = ucast p - ucast q"
    using m [of "uint p + uint q"] m [of "uint p - uint q"]
    by (simp_all only: ucast48_uint uint_word_ariths len_of_numeral_defs of_int_add of_int_diff) simp_all
  show "(ucast (of_nat i :: u64) :: 48 word) = of_nat i"
    using m [of "int i"] by (simp only: ucast48_uint uint_nat unat_of_nat len_of_numeral_defs) (simp add: zmod_int)
qed

lemma sameCell_plus: "sameCell q (p + of_nat i) \<longleftrightarrow> (ucast (q - p) :: 48 word) = of_nat i"
  by (auto simp: sameCell_iff ucast48_hom algebra_simps)
section \<open>The invariant\<close>

text \<open>
  The flat byte memory: the byte of the backed page an address decodes to, and zero where no page is
  backed or configured.
\<close>

definition byteAt :: "GuestMemory \<Rightarrow> u64 \<Rightarrow> u8" where
  "byteAt m pa =
    (if pageIndex pa < m_pageCount m
     then case pageAt m (pageIndex pa) of Some pg \<Rightarrow> pg (pageOffset pa) | None \<Rightarrow> 0
     else 0)"

lemma byteAt_read1: "byteAt m pa = snd (read1 m pa)"
  by (auto simp: byteAt_def read1_def Let_def not_le split: option.split)

definition gm_inv :: "GuestMemory \<Rightarrow> bool" where
  "gm_inv m \<longleftrightarrow>
    length (m_pages m) = unat (m_pageCount m) \<and>
    length (m_dirtyBitmap m) = unat (m_dirtyWordCount m) \<and>
    unat (m_pageCount m) \<le> 64 * unat (m_dirtyWordCount m) \<and>
    m_allocatedPages m = of_nat (length (allocatedIndices m)) \<and>
    length (m_locks m) = kMaxCPUs"

text \<open>The host has enough memory left for every page that is not backed yet.\<close>

definition funded :: "GuestMemory \<Rightarrow> bool" where
  "funded m \<longleftrightarrow> length (filter (\<lambda>p. p = None) (m_pages m)) \<le> pageAllocs m"

definition inRange :: "GuestMemory \<Rightarrow> u64 \<Rightarrow> bool" where
  "inRange m pa \<longleftrightarrow> pageIndex pa < m_pageCount m"

lemma gm_inv_pages: "gm_inv m \<Longrightarrow> length (m_pages m) = unat (m_pageCount m)"
  by (simp add: gm_inv_def)

lemma length_allocatedIndices:
  assumes "length (m_pages m) = unat (m_pageCount m)"
  shows "length (allocatedIndices m) = length (filter (\<lambda>p. p \<noteq> None) (m_pages m))"
proof -
  have "filter (\<lambda>p. p \<noteq> None) (m_pages m) = map ((!) (m_pages m)) (allocatedIndices m)"
    unfolding allocatedIndices_def assms [symmetric]
    by (metis (mono_tags, lifting) filter_cong filter_map map_nth comp_apply)
  then show ?thesis by simp
qed

lemma length_filter_update:
  assumes "i < length xs" "\<not> P (xs ! i)" "P y"
  shows "length (filter P (xs[i := y])) = Suc (length (filter P xs))"
  using assms by (induction xs arbitrary: i) (auto split: nat.splits)

lemma length_filter_keep:
  assumes "P (xs ! i) = P y" "i < length xs"
  shows "length (filter P (xs[i := y])) = length (filter P xs)"
  using assms by (induction xs arbitrary: i) (auto split: nat.splits)

lemma copyIn_append: "copyIn (off + length bs) cs (copyIn off bs pg) = copyIn off (bs @ cs) pg"
  by (auto simp: copyIn_def nth_append fun_eq_iff)

definition basePage :: "GuestMemory \<Rightarrow> u32 \<Rightarrow> page" where
  "basePage m p = (case pageAt m p of Some pg \<Rightarrow> pg | None \<Rightarrow> zeroPage)"

definition backable :: "GuestMemory \<Rightarrow> u32 \<Rightarrow> bool" where
  "backable m p \<longleftrightarrow> p < m_pageCount m \<and> (pageAt m p \<noteq> None \<or> 0 < pageAllocs m)"

text \<open>The page table, the allocator and the allocation counter after a store that succeeds.\<close>

definition stored :: "u32 \<Rightarrow> nat \<Rightarrow> u8 list \<Rightarrow> GuestMemory \<Rightarrow> GuestMemory" where
  "stored p off bs m = markDirty p
     (m\<lparr>m_pages := (m_pages m)[unat p := Some (copyIn off bs (basePage m p))],
        pageAllocs := (if pageAt m p = None then pageAllocs m - 1 else pageAllocs m),
        m_allocatedPages :=
          (if pageAt m p = None then m_allocatedPages m + 1 else m_allocatedPages m)\<rparr>)"

lemma storePage_eq:
  "storePage p off bs m = (if backable m p then (Ok, stored p off bs m) else (OutOfRange, m))"
proof (cases "pageAt m p")
  case None
  have swap: "m\<lparr>pageAllocs := a, m_allocatedPages := b, m_pages := c\<rparr> =
      m\<lparr>m_pages := c, pageAllocs := a, m_allocatedPages := b\<rparr>" for a b c by simp
  show ?thesis using None
    by (auto simp: storePage_def ensurePage_def backable_def stored_def basePage_def swap not_less)
next
  case (Some pg)
  have same: "m\<lparr>m_pages := c, pageAllocs := pageAllocs m, m_allocatedPages := m_allocatedPages m\<rparr>
      = m\<lparr>m_pages := c\<rparr>" for c by simp
  show ?thesis using Some
    by (auto simp: storePage_def ensurePage_def backable_def stored_def basePage_def same not_less)
qed

lemma markDirty_simps [simp]:
  "m_pages (markDirty p m) = m_pages m" "m_pageCount (markDirty p m) = m_pageCount m"
  "pageAllocs (markDirty p m) = pageAllocs m" "m_locks (markDirty p m) = m_locks m"
  "m_allocatedPages (markDirty p m) = m_allocatedPages m" "m_size (markDirty p m) = m_size m"
  "m_dirtyWordCount (markDirty p m) = m_dirtyWordCount m"
  "length (m_dirtyBitmap (markDirty p m)) = length (m_dirtyBitmap m)"
  "pageAt (markDirty p m) = pageAt m"
  by (simp_all add: markDirty_def Let_def pageAt_def fun_eq_iff)

lemma stored_simps [simp]:
  "m_pageCount (stored p off bs m) = m_pageCount m" "m_locks (stored p off bs m) = m_locks m"
  "m_size (stored p off bs m) = m_size m"
  "m_dirtyWordCount (stored p off bs m) = m_dirtyWordCount m"
  "length (m_dirtyBitmap (stored p off bs m)) = length (m_dirtyBitmap m)"
  "length (m_pages (stored p off bs m)) = length (m_pages m)"
  by (simp_all add: stored_def)

lemma page_bound: "gm_inv m \<Longrightarrow> p < m_pageCount m \<Longrightarrow> unat p < length (m_pages m)"
  by (simp add: gm_inv_pages word_less_nat_alt)

lemma pageAt_stored:
  assumes "gm_inv m" "p < m_pageCount m"
  shows "pageAt (stored p off bs m) q =
    (if q = p then Some (copyIn off bs (basePage m p)) else pageAt m q)"
proof -
  have "unat q = unat p \<longleftrightarrow> q = p" by (auto intro: unsigned_word_eqI [where ?'a = nat])
  then show ?thesis using page_bound [OF assms]
    by (auto simp: pageAt_def stored_def nth_list_update)
qed

lemma storePage_inv:
  assumes inv: "gm_inv m"
  shows "gm_inv (snd (storePage p off bs m))"
proof (cases "backable m p")
  case True
  then have "unat p < length (m_pages m)" using inv by (simp add: backable_def page_bound)
  then show ?thesis using inv True
    by (cases "pageAt m p")
      (simp_all add: storePage_eq stored_def gm_inv_def pageAt_def length_allocatedIndices
        length_filter_keep length_filter_update)
qed (simp add: storePage_eq inv)

lemma storePage_funded:
  assumes inv: "gm_inv m" and "funded m"
  shows "funded (snd (storePage p off bs m))"
proof (cases "backable m p")
  case True
  then have lt: "unat p < length (m_pages m)" using inv by (simp add: backable_def page_bound)
  have none: "length (filter (\<lambda>p. p = None) xs) = Suc (length (filter (\<lambda>p. p = None) (xs[i := Some y])))"
    if "i < length xs" "xs ! i = None" for i and xs :: "page option list" and y
    using that by (induction xs arbitrary: i) (auto split: nat.splits)
  show ?thesis using assms True lt none [of "unat p" "m_pages m" "copyIn off bs (basePage m p)"]
    by (cases "pageAt m p")
      (simp_all add: storePage_eq stored_def funded_def pageAt_def length_filter_keep)
qed (simp add: storePage_eq assms)

lemma funded_backable:
  assumes "gm_inv m" "funded m" "p < m_pageCount m"
  shows "backable m p"
proof (cases "pageAt m p")
  case None
  then have "m_pages m ! unat p = None" by (simp add: pageAt_def)
  then have "None \<in> set (m_pages m)" using page_bound [OF assms(1, 3)] nth_mem by metis
  then have "filter (\<lambda>p. p = None) (m_pages m) \<noteq> []" by (simp add: filter_empty_conv)
  then show ?thesis using assms by (auto simp: funded_def backable_def)
qed (use assms in \<open>simp add: backable_def\<close>)
section \<open>Accesses as sequences of byte accesses\<close>

primrec storeBytes :: "u64 \<Rightarrow> u8 list \<Rightarrow> GuestMemory \<Rightarrow> GuestMemory" where
  "storeBytes pa [] m = m"
| "storeBytes pa (b # bs) m = storeBytes (pa + 1) bs (snd (write1 pa b m))"

lemma storeBytes_append:
  "storeBytes pa (bs @ cs) m = storeBytes (pa + of_nat (length bs)) cs (storeBytes pa bs m)"
  by (induction bs arbitrary: pa m) (simp_all add: algebra_simps)

lemma storeBytes_inv:
  "gm_inv m \<Longrightarrow> gm_inv (storeBytes pa bs m)"
  "gm_inv m \<Longrightarrow> funded m \<Longrightarrow> funded (storeBytes pa bs m)"
  by (induction bs arbitrary: pa m) (simp_all add: write1_def storePage_inv storePage_funded)

lemma markDirty_twice: "markDirty p (markDirty p m) = markDirty p m"
proof (cases "unat (p div kPagesPerDirty) < length (m_dirtyBitmap m)")
  case True
  then show ?thesis by (simp add: markDirty_def Let_def or.assoc)
qed (simp add: markDirty_def Let_def list_update_beyond)

lemma markDirty_update:
  "markDirty p m\<lparr>m_pages := a, pageAllocs := b, m_allocatedPages := c\<rparr> =
   markDirty p (m\<lparr>m_pages := a, pageAllocs := b, m_allocatedPages := c\<rparr>)"
  by (simp add: markDirty_def Let_def)

lemma stored_append:
  assumes "gm_inv m" "p < m_pageCount m"
  shows "stored p (off + length bs) cs (stored p off bs m) = stored p off (bs @ cs) m"
proof -
  have at: "pageAt (stored p off bs m) p = Some (copyIn off bs (basePage m p))"
    by (simp add: pageAt_stored assms)
  have base: "basePage (stored p off bs m) p = copyIn off bs (basePage m p)"
    by (simp add: basePage_def at)
  have "stored p (off + length bs) cs (stored p off bs m) =
    markDirty p ((stored p off bs m)\<lparr>
      m_pages := (m_pages (stored p off bs m))[unat p := Some (copyIn off (bs @ cs) (basePage m p))],
      pageAllocs := pageAllocs (stored p off bs m),
      m_allocatedPages := m_allocatedPages (stored p off bs m)\<rparr>)"
    unfolding stored_def [of p "off + length bs"] by (simp add: at base copyIn_append)
  also have "\<dots> = stored p off (bs @ cs) m"
    unfolding stored_def by (simp add: markDirty_update markDirty_twice)
  finally show ?thesis .
qed

lemma storePage_append:
  assumes "gm_inv m"
  shows "storePage p (off + length bs) cs (snd (storePage p off bs m)) =
    storePage p off (bs @ cs) m"
proof (cases "backable m p")
  case True
  then have p: "p < m_pageCount m" by (simp add: backable_def)
  then have "backable (stored p off bs m) p"
    by (simp add: backable_def pageAt_stored assms)
  then show ?thesis using True by (simp add: storePage_eq stored_append assms p)
qed (simp add: storePage_eq)

lemma storeBytes_page:
  assumes "gm_inv m" "bs \<noteq> []" "pageOffset pa + length bs \<le> 65536"
  shows "storeBytes pa bs m = snd (storePage (pageIndex pa) (pageOffset pa) bs m)"
  using assms
proof (induction bs rule: rev_induct)
  case (snoc b bs)
  show ?case
  proof (cases "bs = []")
    case True then show ?thesis by (simp add: write1_def)
  next
    case False
    have w: "pageIndex (pa + of_nat (length bs)) = pageIndex pa"
      "pageOffset (pa + of_nat (length bs)) = pageOffset pa + length bs"
      using snoc.prems by (simp_all add: within_page)
    have "storeBytes pa (bs @ [b]) m = snd (write1 (pa + of_nat (length bs)) b (storeBytes pa bs m))"
      by (simp add: storeBytes_append)
    also have "storeBytes pa bs m = snd (storePage (pageIndex pa) (pageOffset pa) bs m)"
      using snoc False by simp
    finally show ?thesis by (simp add: write1_def w storePage_append snoc.prems)
  qed
qed simp

lemma writeCross_bytes: "writeCross n pa v m = storeBytes pa (leBytes n v) m"
proof (induction n)
  case (Suc n)
  then show ?case by (simp add: writeCross_def leBytes_def storeBytes_append leByte_def)
qed (simp add: writeCross_def leBytes_def)

lemma writeWithin_bytes:
  assumes "gm_inv m" "0 < n" "pageOffset pa + n \<le> 65536"
  shows "snd (writeWithin n pa v m) = storeBytes pa (leBytes n v) m"
proof -
  have "leBytes n v \<noteq> []" using assms(2) by (metis length_leBytes list.size(3) less_irrefl)
  then show ?thesis using assms storeBytes_page [of m "leBytes n v" pa] by (simp add: writeWithin_def)
qed

lemma readCross_bytes:
  "(readCross n m pa :: 'a::len word) = leWord (map (\<lambda>i. byteAt m (pa + of_nat i)) [0..<n])"
proof (rule bit_word_eqI)
  fix k assume "k < LENGTH('a)"
  then show "bit (readCross n m pa :: 'a word) k =
      bit (leWord (map (\<lambda>i. byteAt m (pa + of_nat i)) [0..<n]) :: 'a word) k"
  proof (induction n)
    case (Suc n)
    have "8 * n \<le> k \<and> bit (byteAt m (pa + of_nat n)) (k - 8 * n) \<longleftrightarrow>
        k div 8 = n \<and> bit (byteAt m (pa + of_nat n)) (k mod 8)"
    proof (cases "k div 8 = n")
      case True
      then have "8 * n \<le> k" "k - 8 * n = k mod 8" by (auto simp: minus_mult_div_eq_mod)
      then show ?thesis using True by simp
    next
      case False
      then have "k < 8 * n \<or> 8 \<le> k - 8 * n" by linarith
      then show ?thesis using False by (auto simp: bit_u8_out)
    qed
    then show ?case using Suc
      by (auto simp: readCross_def bit_simps bit_leWord nth_append less_Suc_eq byteAt_read1)
  qed (simp add: readCross_def bit_leWord)
qed

lemma readWithin_bytes:
  assumes "pageOffset pa + n \<le> 65536"
  shows "(readWithin n m pa :: 'a::len word) = leWord (map (\<lambda>i. byteAt m (pa + of_nat i)) [0..<n])"
proof -
  have b: "byteAt m (pa + of_nat i) =
      (if m_pageCount m \<le> pageIndex pa then 0
       else case pageAt m (pageIndex pa) of None \<Rightarrow> 0 | Some pg \<Rightarrow> pg (pageOffset pa + i))"
    if "i < n" for i
    using that assms
    by (simp add: byteAt_read1 read1_def Let_def within_page split: option.splits)
  have zero: "(leWord (map (\<lambda>i. 0) [0..<n]) :: 'a word) = 0"
    by (rule bit_word_eqI) (simp add: bit_leWord)
  have "map (\<lambda>i. byteAt m (pa + of_nat i)) [0..<n] =
      (if m_pageCount m \<le> pageIndex pa then map (\<lambda>i. 0) [0..<n]
       else case pageAt m (pageIndex pa) of None \<Rightarrow> map (\<lambda>i. 0) [0..<n]
            | Some pg \<Rightarrow> copyOut (pageOffset pa) n pg)"
    by (auto simp: b copyOut_def list_eq_iff_nth_eq split: option.splits)
  then show ?thesis using zero
    by (auto simp: readWithin_def Let_def split: option.splits)
qed
section \<open>The byte memory the store implements\<close>

lemma storePage_frame [simp]: "m_pageCount (snd (storePage p off bs m)) = m_pageCount m"
  "m_locks (snd (storePage p off bs m)) = m_locks m"
  by (simp_all add: storePage_eq)

lemma storeBytes_frame [simp]: "m_pageCount (storeBytes pa bs m) = m_pageCount m"
  "m_locks (storeBytes pa bs m) = m_locks m"
  by (induction bs arbitrary: pa m) (simp_all add: write1_def)

lemma byteAt_write1:
  assumes "gm_inv m" "backable m (pageIndex pa)"
  shows "byteAt (snd (write1 pa b m)) q = (if sameCell q pa then b else byteAt m q)"
proof -
  have p: "pageIndex pa < m_pageCount m" using assms(2) by (simp add: backable_def)
  show ?thesis using assms p
    by (auto simp: byteAt_read1 read1_def Let_def write1_def storePage_eq pageAt_stored sameCell_def
        copyIn_def basePage_def zeroPage_def split: option.splits)
qed

definition cellDistance :: "u64 \<Rightarrow> u64 \<Rightarrow> nat" where
  "cellDistance q pa = unat (ucast (q - pa) :: 48 word)"

lemma sameCell_distance:
  assumes "i < 2 ^ 48"
  shows "sameCell q (pa + of_nat i) \<longleftrightarrow> cellDistance q pa = i"
proof -
  have "unat (of_nat i :: 48 word) = i" using assms by (simp add: unsigned_of_nat take_bit_nat_eq_self)
  then show ?thesis unfolding sameCell_plus cellDistance_def by (metis unsigned_word_eqI)
qed

lemma byteAt_storeBytes:
  assumes "gm_inv m" "funded m" "length bs \<le> 2 ^ 48"
    and "\<And>i. i < length bs \<Longrightarrow> inRange m (pa + of_nat i)"
  shows "byteAt (storeBytes pa bs m) q =
    (if cellDistance q pa < length bs then bs ! cellDistance q pa else byteAt m q)"
  using assms(3, 4)
proof (induction bs rule: rev_induct)
  case (snoc b bs)
  have "backable (storeBytes pa bs m) (pageIndex (pa + of_nat (length bs)))"
    using snoc.prems(2) [of "length bs"] assms(1, 2)
    by (intro funded_backable) (simp_all add: storeBytes_inv inRange_def)
  then have "byteAt (storeBytes pa (bs @ [b]) m) q =
      (if cellDistance q pa = length bs then b else byteAt (storeBytes pa bs m) q)"
    using snoc.prems(1) assms(1)
    by (simp add: storeBytes_append byteAt_write1 storeBytes_inv sameCell_distance)
  then show ?case using snoc by (auto simp: nth_append)
qed simp

lemma cellDistance_plus: "i < 2 ^ 48 \<Longrightarrow> cellDistance (pa + of_nat i) pa = i"
  using sameCell_distance [of i "pa + of_nat i" pa] by (simp add: sameCell_def)

text \<open>
  What each access width promises. The laws say that an access is the little-endian sequence
  of byte accesses; the flat view of memory follows from them once for all widths.
\<close>

locale memory_port =
  fixes n :: nat
    and rd :: "GuestMemory \<Rightarrow> u64 \<Rightarrow> MemStatus \<times> 'a::len word"
    and wr :: "u64 \<Rightarrow> 'a word \<Rightarrow> GuestMemory \<Rightarrow> MemStatus \<times> GuestMemory"
  assumes width: "LENGTH('a) = 8 * n"
    and size: "n \<le> 8"
    and read_law: "rd m pa = (Ok, leWord (map (\<lambda>i. byteAt m (pa + of_nat i)) [0..<n]))"
    and write_law: "gm_inv m \<Longrightarrow> snd (wr pa v m) = storeBytes pa (leBytes n v) m"
    and status_law: "gm_inv m \<Longrightarrow> funded m \<Longrightarrow> inRange m pa \<Longrightarrow> fst (wr pa v m) = Ok"
begin

lemma write_inv:
  assumes "gm_inv m"
  shows "gm_inv (snd (wr pa v m))" "funded m \<Longrightarrow> funded (snd (wr pa v m))"
    "m_locks (snd (wr pa v m)) = m_locks m" "m_pageCount (snd (wr pa v m)) = m_pageCount m"
  using assms by (simp_all add: write_law storeBytes_inv)

lemma write_bytes:
  assumes "gm_inv m" "funded m" "\<And>i. i < n \<Longrightarrow> inRange m (pa + of_nat i)"
  shows "byteAt (snd (wr pa v m)) q =
    (if cellDistance q pa < n then leByte (cellDistance q pa) v else byteAt m q)"
proof -
  have "length (leBytes n v) \<le> 2 ^ 48" using size by simp
  then have "byteAt (storeBytes pa (leBytes n v) m) q =
      (if cellDistance q pa < n then leBytes n v ! cellDistance q pa else byteAt m q)"
    using assms by (subst byteAt_storeBytes) simp_all
  then show ?thesis using assms(1) by (simp add: write_law leBytes_def)
qed

lemma read_after_write:
  assumes "gm_inv m" "funded m" "\<And>i. i < n \<Longrightarrow> inRange m (pa + of_nat i)"
  shows "rd (snd (wr pa v m)) pa = (Ok, v)"
proof -
  have "map (\<lambda>i. byteAt (snd (wr pa v m)) (pa + of_nat i)) [0..<n] = leBytes n v"
    using size by (auto simp: write_bytes assms cellDistance_plus leBytes_def)
  then show ?thesis by (simp add: read_law leWord_leBytes width)
qed

lemma read_disjoint:
  assumes "gm_inv m" "funded m" "\<And>i. i < n \<Longrightarrow> inRange m (pa + of_nat i)"
    and "\<And>i. i < n \<Longrightarrow> n \<le> cellDistance (q + of_nat i) pa"
  shows "rd (snd (wr pa v m)) q = rd m q"
proof -
  have "map (\<lambda>i. byteAt (snd (wr pa v m)) (q + of_nat i)) [0..<n] =
      map (\<lambda>i. byteAt m (q + of_nat i)) [0..<n]"
    using leD [OF assms(4)] by (auto simp: write_bytes assms(1-3))
  then show ?thesis by (simp only: read_law)
qed

end

lemma fst_writeWithin:
  assumes "gm_inv m" "funded m" "inRange m pa"
  shows "fst (writeWithin n pa v m) = Ok"
  using assms by (simp add: writeWithin_def storePage_eq funded_backable inRange_def)

interpretation byte_port: memory_port 1 read1 write1
proof unfold_locales
  fix m pa and v :: u8
  show "read1 m pa = (Ok, leWord (map (\<lambda>i. byteAt m (pa + of_nat i)) [0..<1]))"
    by (simp add: byteAt_read1 read1_def Let_def split: option.split)
  have "leBytes 1 v = [v]" by (simp add: leBytes_def leByte_def)
  then show "snd (write1 pa v m) = storeBytes pa (leBytes 1 v) m" by simp
  show "gm_inv m \<Longrightarrow> funded m \<Longrightarrow> inRange m pa \<Longrightarrow> fst (write1 pa v m) = Ok"
    by (simp add: write1_def storePage_eq funded_backable inRange_def)
qed simp_all

lemma crossing_guards:
  "kPageMask - 1 < pa AND kPageMask \<longleftrightarrow> 65536 < pageOffset pa + 2"
  "kPageMask - 3 < pa AND kPageMask \<longleftrightarrow> 65536 < pageOffset pa + 4"
  "kPageMask - 7 < pa AND kPageMask \<longleftrightarrow> 65536 < pageOffset pa + 8"
  using crossing_guard [of 1 pa] crossing_guard [of 3 pa] crossing_guard [of 7 pa] by auto

lemma port_read:
  "(if 65536 < pageOffset pa + n then (Ok, readCross n m pa) else (Ok, readWithin n m pa)) =
   (Ok, leWord (map (\<lambda>i. byteAt m (pa + of_nat i)) [0..<n]) :: 'a::len word)"
  by (simp add: readCross_bytes readWithin_bytes not_less)

lemma port_write:
  assumes "gm_inv m" "0 < n"
  shows "snd (if 65536 < pageOffset pa + n then (Ok, writeCross n pa v m)
              else writeWithin n pa v m) = storeBytes pa (leBytes n v) m"
  using assms by (simp add: writeCross_bytes writeWithin_bytes not_less)

lemma port_status:
  assumes "gm_inv m" "funded m" "inRange m pa"
  shows "fst (if 65536 < pageOffset pa + n then (Ok, writeCross n pa v m)
              else writeWithin n pa v m) = Ok"
  using assms by (simp add: fst_writeWithin)

lemmas port_laws = port_read port_write port_status

interpretation word_port: memory_port 2 read2 write2
  by unfold_locales
    (simp_all only: read2_def write2_def crossing_guards port_laws zero_less_numeral, simp_all)

interpretation long_port: memory_port 4 read4 write4
  by unfold_locales
    (simp_all only: read4_def write4_def crossing_guards port_laws zero_less_numeral, simp_all)

interpretation quad_port: memory_port 8 read8 write8
  by unfold_locales
    (simp_all only: read8_def write8_def crossing_guards port_laws zero_less_numeral, simp_all)
section \<open>Block transfers\<close>

lemma chunk_bounds:
  assumes "0 < len"
  shows "0 < min len (unat kPageSize - pageOffset addr)"
    "pageOffset addr + min len (unat kPageSize - pageOffset addr) \<le> 65536"
  using assms pageOffset_less [of addr] less_imp_le [of "pageOffset addr" 65536]
  by (auto simp: kPageSize_def min_def)

lemma writeBlock_bytes:
  assumes "gm_inv m" "funded m" "\<And>i. i < length src \<Longrightarrow> inRange m (addr + of_nat i)"
  shows "writeBlock addr src m = (True, storeBytes addr src m)"
  using assms
proof (induction addr src m rule: writeBlock.induct)
  case (1 addr src m)
  show ?case
  proof (cases "src = []")
    case True then show ?thesis by (simp add: writeBlock.simps [of addr "[]"])
  next
    case False
    define chunk where "chunk = min (length src) (unat kPageSize - pageOffset addr)"
    define m1 where "m1 = storeBytes addr (take chunk src) m"
    note c = chunk_bounds [of "length src" addr, folded chunk_def]
    have le: "chunk \<le> length src" by (simp add: chunk_def)
    have st: "storePage (pageIndex addr) (pageOffset addr) (take chunk src) m = (Ok, m1)"
    proof -
      have "backable m (pageIndex addr)"
        using 1(2-4) 1(4) [of 0] False by (intro funded_backable) (auto simp: inRange_def)
      moreover have "m1 = snd (storePage (pageIndex addr) (pageOffset addr) (take chunk src) m)"
        unfolding m1_def using c False 1(2) by (intro storeBytes_page) (auto simp: min_def)
      ultimately show ?thesis by (simp add: storePage_eq)
    qed
    have "writeBlock (addr + of_nat chunk) (drop chunk src) m1 =
        (True, storeBytes (addr + of_nat chunk) (drop chunk src) m1)"
    proof (rule 1(1) [OF False chunk_def st [symmetric] refl])
      show "gm_inv m1" "funded m1" unfolding m1_def using 1(2, 3) by (simp_all add: storeBytes_inv)
      show "inRange m1 (addr + of_nat chunk + of_nat i)" if "i < length (drop chunk src)" for i
        using 1(4) [of "chunk + i"] that by (simp add: m1_def inRange_def add.assoc)
    qed
    moreover have "storeBytes (addr + of_nat chunk) (drop chunk src) m1 = storeBytes addr src m"
      using storeBytes_append [of addr "take chunk src" "drop chunk src" m] le
      by (simp add: m1_def)
    ultimately show ?thesis
      using False st by (simp add: writeBlock.simps [of addr src] chunk_def [symmetric] Let_def)
  qed
qed

lemma readBlock_bytes:
  assumes "gm_inv m" "\<And>i. i < n \<Longrightarrow> inRange m (addr + of_nat i)"
  shows "readBlock m addr n = Some (map (\<lambda>i. byteAt m (addr + of_nat i)) [0..<n])"
  using assms
proof (induction m addr n rule: readBlock.induct)
  case (1 m addr n)
  show ?case
  proof (cases "n = 0")
    case True then show ?thesis by (simp add: readBlock.simps [of m addr 0])
  next
    case False
    define chunk where "chunk = min n (unat kPageSize - pageOffset addr)"
    note c = chunk_bounds [of n addr, folded chunk_def]
    have le: "chunk \<le> n" by (simp add: chunk_def)
    have p: "pageIndex addr < m_pageCount m" using 1(3) [of 0] False by (simp add: inRange_def)
    then have lt: "\<not> length (m_pages m) \<le> unat (pageIndex addr)"
      using page_bound [OF 1(2)] by (simp add: not_le)
    have head: "(case pageAt m (pageIndex addr) of
        Some pg \<Rightarrow> copyOut (pageOffset addr) chunk pg | None \<Rightarrow> replicate chunk 0) =
        map (\<lambda>i. byteAt m (addr + of_nat i)) [0..<chunk]"
      using c False p by (auto simp: list_eq_iff_nth_eq copyOut_def byteAt_read1 read1_def Let_def
          within_page split: option.splits)
    have "readBlock m (addr + of_nat chunk) (n - chunk) =
        Some (map (\<lambda>i. byteAt m (addr + of_nat chunk + of_nat i)) [0..<n - chunk])"
    proof (rule 1(1) [OF False chunk_def lt 1(2)])
      show "inRange m (addr + of_nat chunk + of_nat i)" if "i < n - chunk" for i
        using 1(3) [of "chunk + i"] that by (simp add: add.assoc)
    qed
    moreover have "map (\<lambda>i. byteAt m (addr + of_nat i)) [0..<n] =
        map (\<lambda>i. byteAt m (addr + of_nat i)) [0..<chunk] @
        map (\<lambda>i. byteAt m (addr + of_nat chunk + of_nat i)) [0..<n - chunk]"
      using le by (auto simp: list_eq_iff_nth_eq nth_append)
    ultimately show ?thesis using False lt head
      by (simp add: readBlock.simps [of m addr n] chunk_def [symmetric] Let_def)
  qed
qed

section \<open>Dirty pages\<close>

definition dirtyBit :: "GuestMemory \<Rightarrow> u32 \<Rightarrow> bool" where
  "dirtyBit m p = bit (m_dirtyBitmap m ! unat (p div kPagesPerDirty)) (unat (p mod kPagesPerDirty))"

lemma isDirty_bit: "isDirty m p \<longleftrightarrow> p < m_pageCount m \<and> dirtyBit m p"
  by (simp add: isDirty_def dirtyBit_def linorder_not_le [symmetric])

lemma dirty_position:
  "unat (p div kPagesPerDirty) = unat p div 64" "unat (p mod kPagesPerDirty) = unat p mod 64"
  by (simp_all add: kPagesPerDirty_def unat_div_distrib unat_mod_distrib)

lemma isDirty_markDirty:
  assumes "gm_inv m" "p < m_pageCount m"
  shows "isDirty (markDirty p m) q \<longleftrightarrow> q = p \<or> isDirty m q"
proof -
  have "unat p div 64 < length (m_dirtyBitmap m)"
    using assms by (auto simp: gm_inv_def word_less_nat_alt)
  moreover have "unat q = unat p" if "unat q div 64 = unat p div 64" "unat q mod 64 = unat p mod 64"
    using that by (metis div_mult_mod_eq)
  ultimately show ?thesis using assms(2)
    by (auto simp: isDirty_bit dirtyBit_def markDirty_def Let_def dirty_position nth_list_update
        bit_simps dest: unsigned_word_eqI)
qed

datatype memOp = Write1 u64 u8 | Write2 u64 u16 | Write4 u64 u32 | Write8 u64 u64
  | WriteBlock u64 "u8 list"

primrec memStep :: "memOp \<Rightarrow> GuestMemory \<Rightarrow> GuestMemory" where
  "memStep (Write1 pa v) m = snd (write1 pa v m)"
| "memStep (Write2 pa v) m = snd (write2 pa v m)"
| "memStep (Write4 pa v) m = snd (write4 pa v m)"
| "memStep (Write8 pa v) m = snd (write8 pa v m)"
| "memStep (WriteBlock pa bs) m = snd (writeBlock pa bs m)"

text \<open>The relation between a memory and a later one that dirty tracking maintains.\<close>

definition tracked :: "GuestMemory \<Rightarrow> GuestMemory \<Rightarrow> bool" where
  "tracked m m' \<longleftrightarrow> gm_inv m' \<and> m_pageCount m' = m_pageCount m \<and>
    (\<forall>q < m_pageCount m. \<not> isDirty m' q \<longrightarrow> \<not> isDirty m q \<and> pageAt m' q = pageAt m q)"

lemma tracked_refl: "gm_inv m \<Longrightarrow> tracked m m"
  by (simp add: tracked_def)

lemma tracked_trans: "tracked m m1 \<Longrightarrow> tracked m1 m2 \<Longrightarrow> tracked m m2"
  by (auto simp: tracked_def)

lemma tracked_inv: "tracked m m' \<Longrightarrow> gm_inv m'"
  by (simp add: tracked_def)

lemma storePage_tracked:
  assumes inv: "gm_inv m"
  shows "tracked m (snd (storePage p off bs m))"
proof (cases "backable m p")
  case True
  then have p: "p < m_pageCount m" by (simp add: backable_def)
  define m0 where "m0 = m\<lparr>m_pages := (m_pages m)[unat p := Some (copyIn off bs (basePage m p))],
        pageAllocs := (if pageAt m p = None then pageAllocs m - 1 else pageAllocs m),
        m_allocatedPages :=
          (if pageAt m p = None then m_allocatedPages m + 1 else m_allocatedPages m)\<rparr>"
  have s: "stored p off bs m = markDirty p m0" by (simp add: stored_def m0_def)
  have inv0: "gm_inv (markDirty p m0)"
    using storePage_inv [OF inv, of p off bs] True by (simp add: storePage_eq s)
  then have "gm_inv m0" by (simp add: gm_inv_def allocatedIndices_def)
  then have "isDirty (markDirty p m0) q \<longleftrightarrow> q = p \<or> isDirty m q" for q
    using p isDirty_markDirty [of m0 p q] by (auto simp: m0_def isDirty_def)
  then show ?thesis using True p inv inv0 pageAt_stored [OF inv p, of off bs]
    by (auto simp: tracked_def storePage_eq s m0_def)
qed (simp add: storePage_eq tracked_refl inv)

lemma storeBytes_tracked: "gm_inv m \<Longrightarrow> tracked m (storeBytes pa bs m)"
proof (induction bs arbitrary: pa m)
  case (Cons b bs)
  have "tracked m (snd (write1 pa b m))"
    using Cons.prems by (simp add: write1_def storePage_tracked)
  moreover from this have "tracked (snd (write1 pa b m)) (storeBytes (pa + 1) bs (snd (write1 pa b m)))"
    by (intro Cons.IH tracked_inv)
  ultimately show ?case by (simp add: tracked_trans)
qed (simp add: tracked_refl)

lemma writeBlock_tracked: "gm_inv m \<Longrightarrow> tracked m (snd (writeBlock addr src m))"
proof (induction addr src m rule: writeBlock.induct)
  case (1 addr src m)
  define chunk where "chunk = min (length src) (unat kPageSize - pageOffset addr)"
  obtain st m1 where st: "storePage (pageIndex addr) (pageOffset addr) (take chunk src) m = (st, m1)"
    by fastforce
  have t: "tracked m m1" using storePage_tracked [OF 1(2)] st by (metis snd_conv)
  then have "tracked m1 (snd (writeBlock (addr + of_nat chunk) (drop chunk src) m1))"
    if "src \<noteq> []" "st = Ok"
    using 1(1) [OF that(1) chunk_def st [symmetric]] that(2) tracked_inv by blast
  then show ?case using t st tracked_refl [OF 1(2)]
    by (cases st) (auto simp: writeBlock.simps [of addr src] chunk_def [symmetric] Let_def
        intro: tracked_trans)
qed

lemma memStep_tracked: "gm_inv m \<Longrightarrow> tracked m (memStep c m)"
  by (cases c) (simp_all add: writeBlock_tracked storeBytes_tracked write1_def storePage_tracked
      word_port.write_law long_port.write_law quad_port.write_law)

lemma memRun_tracked: "gm_inv m \<Longrightarrow> tracked m (fold memStep cs m)"
proof (induction cs arbitrary: m)
  case (Cons c cs)
  then show ?case using memStep_tracked [OF Cons.prems, of c]
    by (auto intro: tracked_trans tracked_inv)
qed (simp add: tracked_refl)

lemma clearDirty_inv:
  assumes "gm_inv m"
  shows "gm_inv (clearDirty m)" "isDirty (clearDirty m) p = False" "pageAt (clearDirty m) = pageAt m"
proof -
  show "gm_inv (clearDirty m)" using assms by (simp add: clearDirty_def gm_inv_def allocatedIndices_def)
  have "unat p div 64 < unat (m_dirtyWordCount m)" if "p < m_pageCount m"
    using that assms by (auto simp: gm_inv_def word_less_nat_alt)
  then show "isDirty (clearDirty m) p = False"
    by (auto simp: isDirty_bit dirtyBit_def clearDirty_def dirty_position)
  show "pageAt (clearDirty m) = pageAt m" by (simp add: clearDirty_def pageAt_def fun_eq_iff)
qed

lemma newGuestMemory_inv:
  assumes new: "newGuestMemory tok bok allocs bytes = Some m" and small: "bytes \<le> 2 ^ 47"
  shows "gm_inv m" "unat (m_pageCount m) = (unat bytes + 65535) div 65536"
proof -
  have b: "unat bytes \<le> 2 ^ 47" using small by (simp add: word_le_nat_alt)
  have "unat (bytes + kPageMask) = unat bytes + 65535"
    using b by (simp add: kPageMask_def kPageSize_def unat_word_ariths(1))
  then have d: "unat ((bytes + kPageMask) div kPageSize) = (unat bytes + 65535) div 65536"
    by (simp add: kPageSize_def unat_div_distrib)
  define count where "count = (ucast ((bytes + kPageMask) div kPageSize) :: u32)"
  have le: "(unat bytes + 65535) div 65536 \<le> 2 ^ 31" using b by simp
  then have c: "unat count = (unat bytes + 65535) div 65536"
    by (simp add: count_def unsigned_ucast_eq take_bit_nat_eq_self d)
  have "unat (count + kPagesPerDirty - 1) = unat count + 63"
    using le c by (simp add: kPagesPerDirty_def unat_word_ariths(1))
  then have w: "unat ((count + kPagesPerDirty - 1) div kPagesPerDirty) = (unat count + 63) div 64"
    by (simp add: kPagesPerDirty_def unat_div_distrib)
  have idx: "filter (\<lambda>i. replicate k None ! i \<noteq> (None :: page option)) [0..<k] = []" for k
    by (simp add: filter_empty_conv)
  show "unat (m_pageCount m) = (unat bytes + 65535) div 65536"
    using new c by (auto simp: newGuestMemory_def Let_def count_def split: if_splits)
  show "gm_inv m"
  proof (cases "bytes = 0")
    case True
    then show ?thesis using new
      by (auto simp: newGuestMemory_def gm_inv_def allocatedIndices_def newLocks_def)
  next
    case False
    have "unat count \<le> 64 * ((unat count + 63) div 64)" by linarith
    then show ?thesis using new False w idx [of "unat count"]
      by (auto simp: newGuestMemory_def Let_def count_def [symmetric] gm_inv_def
          allocatedIndices_def newLocks_def split: if_splits)
  qed
qed
section \<open>Properties\<close>

text \<open>A memory of three pages, for the concrete instances.\<close>

definition exampleMemory :: GuestMemory where
  "exampleMemory = the (newGuestMemory True True 4 0x30000)"

lemma exampleMemory_eq:
  "exampleMemory = \<lparr>m_allocatedPages = 0, m_size = 0x30000, m_pages = [None, None, None],
     m_pageCount = 3, m_dirtyBitmap = [0], m_dirtyWordCount = 1, m_locks = newLocks, pageAllocs = 3\<rparr>"
  by (simp add: exampleMemory_def newGuestMemory_def Let_def kPageMask_def kPageSize_def
      kPagesPerDirty_def) (simp add: numeral_eq_Suc)

lemma exampleMemory_ok: "gm_inv exampleMemory" "funded exampleMemory"
  by (simp_all add: exampleMemory_eq gm_inv_def funded_def allocatedIndices_def newLocks_def
      upt_conv_Cons)

definition fits :: "GuestMemory \<Rightarrow> u64 \<Rightarrow> nat \<Rightarrow> bool" where
  "fits m pa n \<longleftrightarrow> unat pa + n \<le> 65536 * unat (m_pageCount m)"

lemma fits_inRange:
  assumes "fits m pa n" "i < n"
  shows "inRange m (pa + of_nat i)"
proof -
  have "unat (m_pageCount m) < 2 ^ 32" using unsigned_less [of "m_pageCount m", where ?'a = nat] by simp
  then have lt: "unat pa + i < 65536 * unat (m_pageCount m)" "unat pa + i < 2 ^ 48"
    using assms by (simp_all add: fits_def)
  then have "unat (pa + of_nat i) = unat pa + i"
    by (simp add: unat_word_ariths(1) unsigned_of_nat take_bit_eq_mod mod_simps)
  then have "unat (pageIndex (pa + of_nat i)) = (unat pa + i) div 65536"
    using lt(2) by (simp add: pageIndex_div)
  then show ?thesis using lt(1)
    by (simp add: inRange_def word_less_nat_alt div_less_iff_less_mult mult.commute)
qed

lemma read1_byteAt: "read1 m p = (Ok, byteAt m p)"
  using byte_port.read_law [of m p] by simp

lemma flat_write:
  assumes "gm_inv m" "funded m" "fits m pa 8"
  shows "fst (write1 pa v1 m) = Ok" "fst (write2 pa v2 m) = Ok"
      "fst (write4 pa v4 m) = Ok" "fst (write8 pa v8 m) = Ok"
    and "read1 (snd (write1 pa v1 m)) pa = (Ok, v1)" "read2 (snd (write2 pa v2 m)) pa = (Ok, v2)"
      "read4 (snd (write4 pa v4 m)) pa = (Ok, v4)" "read8 (snd (write8 pa v8 m)) pa = (Ok, v8)"
proof -
  note r = fits_inRange [OF assms(3)]
  have "inRange m pa" using r [of 0] by simp
  then show "fst (write1 pa v1 m) = Ok" "fst (write2 pa v2 m) = Ok"
      "fst (write4 pa v4 m) = Ok" "fst (write8 pa v8 m) = Ok"
    using assms(1, 2) byte_port.status_law word_port.status_law long_port.status_law
      quad_port.status_law by blast+
  show "read1 (snd (write1 pa v1 m)) pa = (Ok, v1)" "read2 (snd (write2 pa v2 m)) pa = (Ok, v2)"
      "read4 (snd (write4 pa v4 m)) pa = (Ok, v4)" "read8 (snd (write8 pa v8 m)) pa = (Ok, v8)"
    using assms(1, 2) by (rule byte_port.read_after_write word_port.read_after_write
        long_port.read_after_write quad_port.read_after_write,
        use r r [of 0] in \<open>auto simp: less_Suc_eq\<close>)+
qed

text \<open>
  C7. The sparse page store behaves as a flat little-endian byte memory at every access width,
  also across a 64 KB page boundary: a load at any address returns the little-endian value of the
  bytes it covers, a byte of a page that is not backed being zero; for an address inside the
  configured memory, and as long as the host can back the pages, a store succeeds, keeps the
  representation invariant and changes exactly the bytes it covers (addresses are decoded modulo
  2^48), so that a load of the same width at the same address returns the stored value.
\<close>

theorem guest_memory_flat:
  assumes "gm_inv m" "funded m" "fits m pa 8"
  shows "read1 m p = (Ok, byteAt m p) \<and>
    read2 m p = (Ok, leWord (map (\<lambda>i. byteAt m (p + of_nat i)) [0..<2])) \<and>
    read4 m p = (Ok, leWord (map (\<lambda>i. byteAt m (p + of_nat i)) [0..<4])) \<and>
    read8 m p = (Ok, leWord (map (\<lambda>i. byteAt m (p + of_nat i)) [0..<8])) \<and>
    fst (write1 pa v1 m) = Ok \<and> fst (write2 pa v2 m) = Ok \<and>
      fst (write4 pa v4 m) = Ok \<and> fst (write8 pa v8 m) = Ok \<and>
    read1 (snd (write1 pa v1 m)) pa = (Ok, v1) \<and> read2 (snd (write2 pa v2 m)) pa = (Ok, v2) \<and>
      read4 (snd (write4 pa v4 m)) pa = (Ok, v4) \<and> read8 (snd (write8 pa v8 m)) pa = (Ok, v8) \<and>
    byteAt (snd (write1 pa v1 m)) q =
      (if cellDistance q pa < 1 then leByte (cellDistance q pa) v1 else byteAt m q) \<and>
    byteAt (snd (write2 pa v2 m)) q =
      (if cellDistance q pa < 2 then leByte (cellDistance q pa) v2 else byteAt m q) \<and>
    byteAt (snd (write4 pa v4 m)) q =
      (if cellDistance q pa < 4 then leByte (cellDistance q pa) v4 else byteAt m q) \<and>
    byteAt (snd (write8 pa v8 m)) q =
      (if cellDistance q pa < 8 then leByte (cellDistance q pa) v8 else byteAt m q) \<and>
    gm_inv (snd (write1 pa v1 m)) \<and> gm_inv (snd (write2 pa v2 m)) \<and>
      gm_inv (snd (write4 pa v4 m)) \<and> gm_inv (snd (write8 pa v8 m))"
  by (intro conjI flat_write [OF assms] byte_port.write_bytes word_port.write_bytes
      long_port.write_bytes quad_port.write_bytes byte_port.write_inv word_port.write_inv
      long_port.write_inv quad_port.write_inv word_port.read_law long_port.read_law quad_port.read_law
      read1_byteAt)
    (use assms(1, 2) fits_inRange [OF assms(3)] fits_inRange [OF assms(3), of 0] in simp_all)

text \<open>A quadword across the end of a page, and a load of pages that are not backed.\<close>

theorem guest_memory_flat_witness:
  "read8 (snd (write8 0xFFFD 0x1122334455667788 exampleMemory)) 0xFFFD = (Ok, 0x1122334455667788) \<and>
   read8 exampleMemory 0xFFFD = (Ok, leWord (map (\<lambda>i. byteAt exampleMemory (0xFFFD + of_nat i)) [0..<8]))"
proof -
  have "fits exampleMemory 0xFFFD 8" by (simp add: fits_def exampleMemory_eq)
  then show ?thesis using guest_memory_flat [OF exampleMemory_ok] by blast
qed

text \<open>
  C22. Dirty tracking is sound for incremental snapshots: after any sequence of stores and block
  writes that follows a reset of the dirty bitmap, a page that is not marked dirty still has
  the contents it had at the reset, so saving the dirty pages alone loses nothing.
\<close>

theorem dirty_tracking_sound:
  assumes "gm_inv m" "\<not> isDirty (fold memStep cs (clearDirty m)) (pageIndex pa)"
  shows "byteAt (fold memStep cs (clearDirty m)) pa = byteAt m pa"
proof -
  have "tracked (clearDirty m) (fold memStep cs (clearDirty m))"
    by (rule memRun_tracked [OF clearDirty_inv(1) [OF assms(1)]])
  then have "m_pageCount (fold memStep cs (clearDirty m)) = m_pageCount m"
    and "pageIndex pa < m_pageCount m \<Longrightarrow>
      pageAt (fold memStep cs (clearDirty m)) (pageIndex pa) = pageAt m (pageIndex pa)"
    using assms clearDirty_inv [OF assms(1)] by (auto simp: tracked_def clearDirty_def)
  then show ?thesis by (auto simp: byteAt_read1 read1_def Let_def not_le)
qed

theorem dirty_tracking_sound_witness:
  "byteAt (fold memStep [Write1 5 7] (clearDirty exampleMemory)) 0x10000 = byteAt exampleMemory 0x10000"
  by (rule dirty_tracking_sound [OF exampleMemory_ok(1)])
    (simp add: exampleMemory_eq isDirty_def clearDirty_def write1_def storePage_def ensurePage_def
      pageIndex_def kPageShift_def pageAt_def markDirty_def kPagesPerDirty_def pageOffset_def)

text \<open>
  Block transfers terminate and round-trip: a block whose bytes all lie inside the configured
  memory is written completely, whatever page boundaries it spans, reading the same range back
  returns the block, and no byte outside the range changes.
\<close>

theorem block_roundtrip:
  assumes "gm_inv m" "funded m" "fits m pa (length src)"
  shows "\<exists>m'. writeBlock pa src m = (True, m') \<and> readBlock m' pa (length src) = Some src \<and>
    (\<forall>q. length src \<le> cellDistance q pa \<longrightarrow> byteAt m' q = byteAt m q)"
proof (intro exI conjI)
  note r = fits_inRange [OF assms(3)]
  have "unat (m_pageCount m) < 2 ^ 32" using unsigned_less [of "m_pageCount m", where ?'a = nat] by simp
  then have len: "length src \<le> 2 ^ 48" using assms(3) by (simp add: fits_def)
  show "writeBlock pa src m = (True, storeBytes pa src m)"
    by (rule writeBlock_bytes [OF assms(1, 2)]) (rule r)
  note bytes = byteAt_storeBytes [OF assms(1, 2) len r, simplified]
  have "map (\<lambda>i. byteAt (storeBytes pa src m) (pa + of_nat i)) [0..<length src] = src"
  proof (rule nth_equalityI)
    fix i assume "i < length (map (\<lambda>i. byteAt (storeBytes pa src m) (pa + of_nat i)) [0..<length src])"
    then have "i < length src" by simp
    moreover from this have "cellDistance (pa + of_nat i) pa = i"
      by (intro cellDistance_plus order.strict_trans2 [OF _ len])
    ultimately show "map (\<lambda>i. byteAt (storeBytes pa src m) (pa + of_nat i)) [0..<length src] ! i = src ! i"
      by (simp add: bytes)
  qed simp
  then show "readBlock (storeBytes pa src m) pa (length src) = Some src"
    using assms(1) r by (subst readBlock_bytes) (simp_all add: storeBytes_inv inRange_def)
  show "\<forall>q. length src \<le> cellDistance q pa \<longrightarrow> byteAt (storeBytes pa src m) q = byteAt m q"
    by (simp add: bytes leD)
qed

theorem block_roundtrip_witness:
  "\<exists>m'. writeBlock 0x1FFFE [1, 2, 3] exampleMemory = (True, m') \<and>
    readBlock m' 0x1FFFE (length [1, 2, 3 :: u8]) = Some [1, 2, 3]"
proof -
  have "fits exampleMemory 0x1FFFE (length [1, 2, 3 :: u8])" by (simp add: fits_def exampleMemory_eq)
  then show ?thesis using block_roundtrip [OF exampleMemory_ok] by blast
qed

section \<open>Accesses that leave the configured memory\<close>

text \<open>
  The page-crossing store discards the status of its byte stores, so at the end of memory it
  reports success while the bytes beyond the end are dropped.
\<close>

lemma crossing_store_hides_refusal:
  "fst (write8 0x2FFFD 0x1122334455667788 exampleMemory) = Ok \<and>
   fst (write1 0x30000 0x55 exampleMemory) = OutOfRange \<and>
   read8 (snd (write8 0x2FFFD 0x1122334455667788 exampleMemory)) 0x2FFFD = (Ok, 0x667788)"
proof (intro conjI)
  show "fst (write8 0x2FFFD 0x1122334455667788 exampleMemory) = Ok"
    by (simp add: write8_def kPageMask_def kPageSize_def)
  show "fst (write1 0x30000 0x55 exampleMemory) = OutOfRange"
    by (simp add: write1_def storePage_def ensurePage_def pageIndex_def kPageShift_def exampleMemory_eq)
  show "read8 (snd (write8 0x2FFFD 0x1122334455667788 exampleMemory)) 0x2FFFD = (Ok, 0x667788)"
    by (simp add: read8_def write8_def readCross_def writeCross_def read1_def write1_def
        storePage_def ensurePage_def markDirty_def pageAt_def pageIndex_def pageOffset_def copyIn_def
        kPageShift_def kPageMask_def kPageSize_def kPagesPerDirty_def exampleMemory_eq
        zeroPage_def upt_conv_Cons Let_def)
qed

text \<open>Reading a block beyond the end indexes the pointer table out of its bounds.\<close>

lemma readBlock_beyond_end: "readBlock exampleMemory 0x30000 1 = None"
  by (simp add: readBlock.simps [of _ "0x30000"] Let_def exampleMemory_eq
      pageIndex_def kPageShift_def)

end
