(* ===== verification/PalEntries.thy ===== *)
theory PalEntries
  imports PalMode GuestMemory
begin

text \<open>
  The PALcode leaves of palBoxLib/grains/PalEntries.cpp: CALL\_PAL with its linkage and its entry, the
  services the emulator performs itself (CSERVE, physical loads and stores, the page table base, WHAMI,
  HALT, the VMS context switch with deviceLib/HwpcbContext.h), and the hardware instructions HW\_MFPR,
  HW\_MTPR and HW\_REI with the field helpers of coreLib/IprFields.h and the cache box chain of
  coreLib/CBoxState.h.

  A leaf changes the processor state through the context's pointer, so it maps the state to the state
  besides its result. The context's memory pointer, which the driver always sets, is the guest memory
  that the services read and write directly. The writes of the translation buffer registers are those of
  Translator. The event log of the cache box, the bring-up probes and the divert bookkeeping that only
  they read are left out.
\<close>

section \<open>Register fields\<close>

definition kIerCmModeMask :: u64 where "kIerCmModeMask = 0x18"

definition modeOf :: "u64 \<Rightarrow> Mode_Privilege" where
  "modeOf v = (if v = 0 then Kernel else if v = 1 then Executive else if v = 2 then Supervisor else User)"

definition ierCmExtractMode :: "u64 \<Rightarrow> Mode_Privilege" where
  "ierCmExtractMode v = modeOf (drop_bit 3 v AND 0x3)"

definition ierCmIerPortion :: "u64 \<Rightarrow> u64" where
  "ierCmIerPortion v = v AND NOT kIerCmModeMask"

definition ierCmCompose :: "u64 \<Rightarrow> Mode_Privilege \<Rightarrow> u64" where
  "ierCmCompose ierStorage md = ierCmIerPortion ierStorage OR push_bit 3 (of_nat (mode_num md) AND 0x3)"

definition kPalBaseAddrMask :: u64 where "kPalBaseAddrMask = 0x000007FFFFFF8000"

definition palBaseSanitize :: "u64 \<Rightarrow> u64" where
  "palBaseSanitize v = v AND kPalBaseAddrMask"

definition kICtlVaForm32Bit :: u64 where "kICtlVaForm32Bit = push_bit 16 1"

definition kICtlCallPalR23Bit :: u64 where "kICtlCallPalR23Bit = push_bit 20 1"

definition kICtlVptbLowMask :: u64 where "kICtlVptbLowMask = push_bit 30 0x3FFFF"

definition iCtlCallPalUsesR23 :: "u64 \<Rightarrow> bool" where
  "iCtlCallPalUsesR23 iCtl \<longleftrightarrow> iCtl AND kICtlCallPalR23Bit \<noteq> 0"

definition iCtlCallPalLinkageReg :: "u64 \<Rightarrow> nat" where
  "iCtlCallPalLinkageReg iCtl = (if iCtlCallPalUsesR23 iCtl then 23 else 27)"

definition iCtlIsVaForm32 :: "u64 \<Rightarrow> bool" where
  "iCtlIsVaForm32 iCtl \<longleftrightarrow> iCtl AND kICtlVaForm32Bit \<noteq> 0"

definition iCtlVptb :: "u64 \<Rightarrow> u64" where
  "iCtlVptb iCtl =
    (let lower = iCtl AND kICtlVptbLowMask
     in if iCtl AND push_bit 47 1 \<noteq> 0 then lower OR 0xFFFF000000000000 else lower)"

definition computeVaForm :: "u64 \<Rightarrow> u64 \<Rightarrow> bool \<Rightarrow> u64" where
  "computeVaForm base faultVa form32 =
    base OR drop_bit 10 faultVa AND (if form32 then 0x00003FFFF8 else 0x1FFFFFFF8)"

section \<open>The cache box chain\<close>

definition pushWriteMany :: "u64 \<Rightarrow> Cpu \<Rightarrow> Cpu" where
  "pushWriteMany chunk6 cpu = cpu\<lparr>writeMany :=
     (push_bit 6 (writeMany cpu) OR chunk6 AND 0x3F) AND 0xFFFFFFFFF\<rparr>"

definition shiftErrorOut :: "Cpu \<Rightarrow> Cpu" where
  "shiftErrorOut cpu = cpu\<lparr>dataReg := ucast (errorReg cpu AND 0x3F), errorReg := drop_bit 6 (errorReg cpu)\<rparr>"

section \<open>Hardware register numbers\<close>

datatype HW_IPR = HW_TB TbIpr | HW_ITB_PTE_TEMP | HW_EXC_ADDR | HW_IVA_FORM | HW_CM | HW_IER | HW_IER_CM
  | HW_SIRR | HW_ISUM | HW_INT_CLR | HW_EXC_SUM | HW_PAL_BASE | HW_I_CTL | HW_IC_FLUSH_ASM | HW_IC_FLUSH
  | HW_PCTR_CTL | HW_CLR_MAP | HW_I_STAT | HW_SLEEP | HW_DTB_PTE_TEMP | HW_DTB_ALTMODE | HW_MM_STAT
  | HW_M_CTL | HW_DC_CTL | HW_DC_STAT | HW_C_DATA | HW_C_SHFT | HW_PCTX | HW_CC | HW_CC_CTL | HW_VA
  | HW_VA_FORM | HW_VA_CTL | HW_PAL_TEMP nat

definition hwIprTable :: "(u16 \<times> HW_IPR) list" where
  "hwIprTable =
   [(0x100, HW_TB HW_ITB_TAG), (0x101, HW_TB HW_ITB_PTE), (0x102, HW_TB HW_ITB_IAP),
    (0x103, HW_TB HW_ITB_IA), (0x104, HW_TB HW_ITB_IS), (0x105, HW_ITB_PTE_TEMP), (0x106, HW_EXC_ADDR),
    (0x107, HW_IVA_FORM), (0x109, HW_CM), (0x10A, HW_IER), (0x10B, HW_IER_CM), (0x10C, HW_SIRR),
    (0x10D, HW_ISUM), (0x10E, HW_INT_CLR), (0x10F, HW_EXC_SUM), (0x110, HW_PAL_BASE), (0x111, HW_I_CTL),
    (0x112, HW_IC_FLUSH_ASM), (0x113, HW_IC_FLUSH), (0x114, HW_PCTR_CTL), (0x115, HW_CLR_MAP),
    (0x116, HW_I_STAT), (0x117, HW_SLEEP), (0x120, HW_TB HW_DTB_TAG0), (0x121, HW_TB HW_DTB_PTE0),
    (0x122, HW_DTB_PTE_TEMP), (0x1A2, HW_TB HW_DTB_IAP), (0x1A3, HW_TB HW_DTB_IA), (0x124, HW_TB HW_DTB_IS0),
    (0x125, HW_TB HW_DTB_ASN0), (0x126, HW_DTB_ALTMODE), (0x127, HW_MM_STAT), (0x128, HW_M_CTL),
    (0x129, HW_DC_CTL), (0x12A, HW_DC_STAT), (0x12B, HW_C_DATA), (0x12C, HW_C_SHFT), (0x140, HW_PCTX),
    (0x1A0, HW_TB HW_DTB_TAG1), (0x1A1, HW_TB HW_DTB_PTE1), (0x1A4, HW_TB HW_DTB_IS1),
    (0x1A5, HW_TB HW_DTB_ASN1), (0x1C0, HW_CC), (0x1C1, HW_CC_CTL), (0x1C2, HW_VA), (0x1C3, HW_VA_FORM),
    (0x1C4, HW_VA_CTL)]"

definition isPalTemp :: "u16 \<Rightarrow> bool" where
  "isPalTemp sel \<longleftrightarrow> 0x200 \<le> sel \<and> sel \<le> 0x21F"

definition palTempIndex :: "u16 \<Rightarrow> nat" where
  "palTempIndex sel = unat sel - 0x200"

definition hwIpr :: "u16 \<Rightarrow> HW_IPR option" where
  "hwIpr sel = (if isPalTemp sel then Some (HW_PAL_TEMP (palTempIndex sel)) else map_of hwIprTable sel)"

definition iprSelector :: "InstructionGrain \<Rightarrow> u16" where
  "iprSelector g =
    (let scbd = ucast (drop_bit 8 (encoded g) AND 0xFF) :: u16
     in if 0x40 \<le> scbd \<and> scbd \<le> 0x5F then 0x1C0 + scbd else 0x100 + scbd)"

section \<open>CALL\_PAL\<close>

definition kFaultUnimplemented :: u16 where "kFaultUnimplemented = 3"

definition kFaultUnaligned :: u16 where "kFaultUnaligned = 4"

type_synonym palLeaf = "InstructionGrain \<Rightarrow> ExecCtx \<Rightarrow> Cpu \<Rightarrow> BoxResult \<times> Cpu"

type_synonym memLeaf = "InstructionGrain \<Rightarrow> ExecCtx \<Rightarrow> Cpu \<Rightarrow> GuestMemory \<Rightarrow> BoxResult \<times> Cpu \<times> GuestMemory"

definition palResult :: "InstructionGrain \<Rightarrow> BoxResult" where
  "palResult g = newBoxResult\<lparr>semFlags := g_semFlags g\<rparr>"

definition palReturn :: "InstructionGrain \<Rightarrow> u64 \<Rightarrow> BoxResult" where
  "palReturn g v = (palResult g)\<lparr>regWriteIdx := 0, regWriteIsFp := False, regWriteValue := v\<rparr>"

definition execCallPalDispatch :: palLeaf where
  "execCallPalDispatch g c cpu =
    (let funcCode = encoded g AND 0x03FFFFFF;
         entryPC = computeCallPalEntry (palBase cpu) funcCode;
         returnPc = g_pc g + 4;
         linkageValue = returnPc OR (if inPalMode cpu then 1 else 0);
         cpu1 = palModeEnter (cpu\<lparr>excAddr := linkageValue\<rparr>);
         linkageReg = iCtlCallPalLinkageReg (i_ctl cpu1)
     in ((palResult g)\<lparr>divertTarget := entryPC OR 1, divert := True\<rparr>,
         cpu1\<lparr>intReg := (intReg cpu1)[linkageReg := linkageValue]\<rparr>))"

definition execBpt_tru64 :: "InstructionGrain \<Rightarrow> ExecCtx \<Rightarrow> BoxResult" where
  "execBpt_tru64 g c = (palResult g)\<lparr>faultCode := kFaultUnimplemented\<rparr>"

definition execBpt_vms :: "InstructionGrain \<Rightarrow> ExecCtx \<Rightarrow> BoxResult" where
  "execBpt_vms g c = (palResult g)\<lparr>faultCode := kFaultUnimplemented\<rparr>"

definition execChmk_tru64 :: "InstructionGrain \<Rightarrow> ExecCtx \<Rightarrow> BoxResult" where
  "execChmk_tru64 g c = (palResult g)\<lparr>faultCode := kFaultUnimplemented\<rparr>"

definition execSwpctxOsf :: "InstructionGrain \<Rightarrow> ExecCtx \<Rightarrow> BoxResult" where
  "execSwpctxOsf g c = (palResult g)\<lparr>faultCode := kFaultUnimplemented\<rparr>"

definition execSwpctx_vms :: "InstructionGrain \<Rightarrow> ExecCtx \<Rightarrow> BoxResult" where
  "execSwpctx_vms g c = (palResult g)\<lparr>faultCode := kFaultUnimplemented\<rparr>"

definition execHalt :: "InstructionGrain \<Rightarrow> ExecCtx \<Rightarrow> BoxResult" where
  "execHalt g c = (palResult g)\<lparr>faultCode := kFaultHalt\<rparr>"

definition execWtint :: "InstructionGrain \<Rightarrow> ExecCtx \<Rightarrow> BoxResult" where
  "execWtint g c = palReturn g 0"

definition execMfprWhami :: palLeaf where
  "execMfprWhami g c cpu = (palReturn g (ucast (cpuSlot cpu)), cpu)"

definition execMfprVptb_vms :: palLeaf where
  "execMfprVptb_vms g c cpu = (palReturn g (vptb cpu), cpu)"

definition execMtprVptb_vms :: palLeaf where
  "execMtprVptb_vms g c cpu = (palResult g, cpu\<lparr>vptb := intReg cpu ! 16\<rparr>)"

definition execLdqp_vms :: palLeaf where
  "execLdqp_vms g c cpu =
    (let ea = intReg cpu ! 16 in
     if ea AND 0x7 \<noteq> 0 \<and> unalignTrapEnabled cpu
     then ((palResult g)\<lparr>faultCode := kFaultUnaligned\<rparr>, cpu\<lparr>mm_stat := ea\<rparr>)
     else ((palResult g)\<lparr>semFlags := g_semFlags g OR flagSet [S_PhysAddr, S_Load], memAddr := ea, memSize := 8,
             memIsStore := False, regWriteIdx := 0, regWriteIsFp := False\<rparr>, cpu))"

definition execStqp_vms :: palLeaf where
  "execStqp_vms g c cpu =
    (let ea = intReg cpu ! 16 in
     if ea AND 0x7 \<noteq> 0 \<and> unalignTrapEnabled cpu
     then ((palResult g)\<lparr>faultCode := kFaultUnaligned\<rparr>, cpu\<lparr>mm_stat := ea\<rparr>)
     else ((palResult g)\<lparr>semFlags := g_semFlags g OR flagSet [S_PhysAddr, S_Store], memAddr := ea,
             memData := intReg cpu ! 17, memSize := 8, memIsStore := True\<rparr>, cpu))"

definition execCserve :: memLeaf where
  "execCserve g c cpu mem =
    (let r = palResult g; funcCode = intReg cpu ! 16 AND 0xFF; addr = intReg cpu ! 17; v = intReg cpu ! 18 in
     if funcCode = 0x10 then (palReturn g (scast (snd (read4 mem addr))), cpu, mem)
     else if funcCode = 0x11 then (r, cpu, snd (write4 addr (ucast (v AND 0xFFFFFFFF)) mem))
     else if funcCode = 0x12 then (palReturn g (ucast (snd (read1 mem addr))), cpu, mem)
     else if funcCode = 0x13 then (r, cpu, snd (write1 addr (ucast (v AND 0xFF)) mem))
     else if funcCode = 0x44 then
       (r\<lparr>divertTarget := addr, divert := True\<rparr>, cpu\<lparr>excAddr := addr\<rparr>, mem)
     else if funcCode = 0x3F \<or> funcCode = 0x40 then (r\<lparr>faultCode := kFaultHalt\<rparr>, cpu, mem)
     else if funcCode = 0x41 then (palReturn g (ucast (cpuSlot cpu)), cpu, mem)
     else (r, cpu, mem))"

section \<open>The VMS context switch\<close>

record Hwpcb =
  h_ksp :: u64
  h_esp :: u64
  h_ssp :: u64
  h_usp :: u64
  h_ptbr :: u64
  h_asn :: u64
  h_asten_sr :: u64
  h_fen :: u64
  h_cc :: u64

definition loadCpuFromHwpcb :: "Hwpcb \<Rightarrow> Cpu \<Rightarrow> Cpu" where
  "loadCpuFromHwpcb src cpu = cpu\<lparr>ksp := h_ksp src, esp := h_esp src, ssp := h_ssp src, usp := h_usp src,
     ptbr := h_ptbr src AND NOT (push_bit 63 1), asn := h_asn src, asten_sr := h_asten_sr src,
     fen := h_fen src, ccOffset := h_cc src - cycleCount cpu\<rparr>"

definition storeCpuToHwpcb :: "Cpu \<Rightarrow> Hwpcb" where
  "storeCpuToHwpcb cpu = \<lparr>h_ksp = ksp cpu, h_esp = esp cpu, h_ssp = ssp cpu, h_usp = usp cpu,
     h_ptbr = ptbr cpu, h_asn = asn cpu, h_asten_sr = asten_sr cpu, h_fen = fen cpu,
     h_cc = cycleCount cpu + ccOffset cpu\<rparr>"

definition writeHwpcb :: "u64 \<Rightarrow> Hwpcb \<Rightarrow> GuestMemory \<Rightarrow> GuestMemory" where
  "writeHwpcb pa h mem =
    fold (\<lambda>(off, v) m. snd (write8 (pa + off) v m))
      [(0x00, h_ksp h), (0x08, h_esp h), (0x10, h_ssp h), (0x18, h_usp h), (0x20, h_ptbr h),
       (0x28, h_asn h), (0x30, h_asten_sr h), (0x38, h_fen h), (0x40, h_cc h)] mem"

definition readHwpcb :: "GuestMemory \<Rightarrow> u64 \<Rightarrow> Hwpcb" where
  "readHwpcb mem pa =
    (let rd = (\<lambda>off. snd (read8 mem (pa + off)))
     in \<lparr>h_ksp = rd 0x00, h_esp = rd 0x08, h_ssp = rd 0x10, h_usp = rd 0x18, h_ptbr = rd 0x20,
         h_asn = rd 0x28, h_asten_sr = rd 0x30, h_fen = rd 0x38, h_cc = rd 0x40\<rparr>)"

definition execSwpctxVms :: memLeaf where
  "execSwpctxVms g c cpu mem =
    (let oldPtbr = ptbr cpu; oldPcbb = pcbb cpu; newPcbb = intReg cpu ! 16;
         oldCtx = (storeCpuToHwpcb cpu)\<lparr>h_ksp := intReg cpu ! 30\<rparr>;
         mem1 = writeHwpcb oldPcbb oldCtx mem;
         newCtx = readHwpcb mem1 newPcbb;
         cpu1 = (loadCpuFromHwpcb newCtx cpu)\<lparr>pcbb := newPcbb\<rparr>
     in (palReturn g oldPtbr, cpu1\<lparr>intReg := (intReg cpu1)[30 := h_ksp newCtx]\<rparr>, mem1))"

section \<open>Hardware register access\<close>

text \<open>
  The value a read returns. The registers of the instruction translation buffer have no case of their
  own: their labels run into the case of the interrupt enable register.
\<close>

fun mfprValue :: "HW_IPR \<Rightarrow> Cpu \<Rightarrow> u64" where
  "mfprValue (HW_PAL_TEMP i) cpu = palTemp cpu ! i"
| "mfprValue HW_EXC_ADDR cpu = excAddr cpu"
| "mfprValue HW_PAL_BASE cpu = palBase cpu"
| "mfprValue HW_I_CTL cpu = i_ctl cpu"
| "mfprValue HW_M_CTL cpu = m_ctl cpu"
| "mfprValue HW_MM_STAT cpu = mm_stat cpu"
| "mfprValue HW_VA_CTL cpu = va_ctl cpu"
| "mfprValue HW_CC cpu = (cycleCount cpu + ccOffset cpu) * kCcMultiplier"
| "mfprValue HW_CM cpu = of_nat (mode_num (mode cpu))"
| "mfprValue HW_ISUM cpu = isum cpu"
| "mfprValue HW_IVA_FORM cpu = computeVaForm (iCtlVptb (i_ctl cpu)) (excAddr cpu) (iCtlIsVaForm32 (i_ctl cpu))"
| "mfprValue HW_VA_FORM cpu = computeVaForm (va_ctl cpu AND 0xFFFFFFFFC0000000) (cpu_va cpu)
     (drop_bit 2 (va_ctl cpu) AND 1 \<noteq> 0)"
| "mfprValue HW_ITB_PTE_TEMP cpu = itbPteTemp cpu"
| "mfprValue HW_DTB_PTE_TEMP cpu = dtbPteTemp cpu"
| "mfprValue (HW_TB t) cpu =
     (case t of HW_ITB_TAG \<Rightarrow> ier cpu | HW_ITB_PTE \<Rightarrow> ier cpu | HW_ITB_IAP \<Rightarrow> ier cpu
      | HW_ITB_IA \<Rightarrow> ier cpu | HW_ITB_IS \<Rightarrow> ier cpu | _ \<Rightarrow> 0)"
| "mfprValue HW_IER cpu = ier cpu"
| "mfprValue HW_IER_CM cpu = ierCmCompose (ier cpu) (mode cpu)"
| "mfprValue HW_C_DATA cpu = ucast (dataReg cpu)"
| "mfprValue HW_VA cpu = cpu_va cpu"
| "mfprValue _ cpu = 0"

definition execHwMfpr :: palLeaf where
  "execHwMfpr g c cpu =
    (case hwIpr (iprSelector g) of
       Some ipr \<Rightarrow> ((palResult g)\<lparr>regWriteIdx := raIndex g, regWriteIsFp := False,
                      regWriteValue := mfprValue ipr cpu\<rparr>, cpu)
     | None \<Rightarrow> ((palResult g)\<lparr>faultCode := kFaultUnimplemented\<rparr>, cpu))"

definition writeICtl :: "u64 \<Rightarrow> Cpu \<Rightarrow> Cpu" where
  "writeICtl v cpu =
    (let wasOn = iCtlSdeHigh (i_ctl cpu); nowOn = iCtlSdeHigh v;
         cpu1 = cpu\<lparr>i_ctl := v, i_spe := ucast (drop_bit 3 v AND 0x7)\<rparr>
     in if inPalMode cpu1 \<and> wasOn \<noteq> nowOn then swapPalShadowRegs cpu1 else cpu1)"

fun mtprEffect :: "HW_IPR \<Rightarrow> u64 \<Rightarrow> Cpu \<Rightarrow> Cpu" where
  "mtprEffect (HW_PAL_TEMP i) v cpu = cpu\<lparr>palTemp := (palTemp cpu)[i := v]\<rparr>"
| "mtprEffect HW_EXC_ADDR v cpu = cpu\<lparr>excAddr := v\<rparr>"
| "mtprEffect HW_PAL_BASE v cpu = cpu\<lparr>palBase := palBaseSanitize v\<rparr>"
| "mtprEffect HW_I_CTL v cpu = writeICtl v cpu"
| "mtprEffect HW_M_CTL v cpu = cpu\<lparr>m_ctl := v, m_spe := ucast (drop_bit 1 v AND 0x7)\<rparr>"
| "mtprEffect HW_IER v cpu = cpu\<lparr>ier := ierCmIerPortion v\<rparr>"
| "mtprEffect HW_IER_CM v cpu = cpu\<lparr>ier := ierCmIerPortion v, mode := ierCmExtractMode v\<rparr>"
| "mtprEffect HW_MM_STAT v cpu = cpu\<lparr>mm_stat := v\<rparr>"
| "mtprEffect HW_VA_CTL v cpu = cpu\<lparr>va_ctl := v\<rparr>"
| "mtprEffect HW_CC v cpu = cpu\<lparr>ccOffset := v - cycleCount cpu\<rparr>"
| "mtprEffect HW_CM v cpu = cpu\<lparr>mode := modeOf (v AND 0x3)\<rparr>"
| "mtprEffect (HW_TB t) v cpu = hwMtprTb t v cpu"
| "mtprEffect HW_ITB_PTE_TEMP v cpu = cpu\<lparr>itbPteTemp := v\<rparr>"
| "mtprEffect HW_DTB_PTE_TEMP v cpu = cpu\<lparr>dtbPteTemp := v\<rparr>"
| "mtprEffect HW_C_DATA v cpu = pushWriteMany (v AND 0x3F) cpu"
| "mtprEffect HW_C_SHFT v cpu =
     (let trig = v AND 1; cpu1 = cpu\<lparr>shftCtrl := ucast trig\<rparr>
      in if trig \<noteq> 0 then shiftErrorOut cpu1 else cpu1)"
| "mtprEffect _ v cpu = cpu"

definition execHwMtpr :: palLeaf where
  "execHwMtpr g c cpu =
    (case hwIpr (iprSelector g) of
       Some ipr \<Rightarrow> (palResult g, mtprEffect ipr (opB c) cpu)
     | None \<Rightarrow> ((palResult g)\<lparr>faultCode := kFaultUnimplemented\<rparr>, cpu))"

definition execHwRei :: palLeaf where
  "execHwRei g c cpu =
    (let stacked = (drop_bit 12 (encoded g) AND 0x1 \<noteq> 0);
         rawTarget = (if stacked then excAddr cpu else intReg cpu ! unat (drop_bit 16 (encoded g) AND 0x1F));
         resumeInPal = (rawTarget AND 1 \<noteq> 0)
     in ((palResult g)\<lparr>divertTarget := rawTarget, divert := True\<rparr>, setPalMode cpu resumeInPal))"

section \<open>CALL\_PAL leaves that enter the PALcode image\<close>

definition execChme_vms :: palLeaf where "execChme_vms = execCallPalDispatch"

definition execMfprScbb_vms :: palLeaf where "execMfprScbb_vms = execCallPalDispatch"

definition execMtprScbb_vms :: palLeaf where "execMtprScbb_vms = execCallPalDispatch"

definition execMfprFen_vms :: palLeaf where "execMfprFen_vms = execCallPalDispatch"

definition execMtprFen_vms :: palLeaf where "execMtprFen_vms = execCallPalDispatch"

definition execMfprAsn_vms :: palLeaf where "execMfprAsn_vms = execCallPalDispatch"

definition execMfprAsten_vms :: palLeaf where "execMfprAsten_vms = execCallPalDispatch"

definition execMfprAstsr_vms :: palLeaf where "execMfprAstsr_vms = execCallPalDispatch"

definition execMfprEsp_vms :: palLeaf where "execMfprEsp_vms = execCallPalDispatch"

definition execMfprIpl_vms :: palLeaf where "execMfprIpl_vms = execCallPalDispatch"

definition execMfprMces :: palLeaf where "execMfprMces = execCallPalDispatch"

definition execMfprPcbb_vms :: palLeaf where "execMfprPcbb_vms = execCallPalDispatch"

definition execMfprPrbr_vms :: palLeaf where "execMfprPrbr_vms = execCallPalDispatch"

definition execMfprPtbr_vms :: palLeaf where "execMfprPtbr_vms = execCallPalDispatch"

definition execMfprSisr_vms :: palLeaf where "execMfprSisr_vms = execCallPalDispatch"

definition execMfprSsp_vms :: palLeaf where "execMfprSsp_vms = execCallPalDispatch"

definition execMfprSysptbr :: palLeaf where "execMfprSysptbr = execCallPalDispatch"

definition execMfprTbchk_vms :: palLeaf where "execMfprTbchk_vms = execCallPalDispatch"

definition execMfprUsp_vms :: palLeaf where "execMfprUsp_vms = execCallPalDispatch"

definition execMfprVirbnd :: palLeaf where "execMfprVirbnd = execCallPalDispatch"

definition execMtprAsten_vms :: palLeaf where "execMtprAsten_vms = execCallPalDispatch"

definition execMtprAstsr_vms :: palLeaf where "execMtprAstsr_vms = execCallPalDispatch"

definition execMtprDatfx :: palLeaf where "execMtprDatfx = execCallPalDispatch"

definition execMtprEsp_vms :: palLeaf where "execMtprEsp_vms = execCallPalDispatch"

definition execMtprIpir :: palLeaf where "execMtprIpir = execCallPalDispatch"

definition execMtprIpl_vms :: palLeaf where "execMtprIpl_vms = execCallPalDispatch"

definition execMtprMces :: palLeaf where "execMtprMces = execCallPalDispatch"

definition execMtprPerfmon :: palLeaf where "execMtprPerfmon = execCallPalDispatch"

definition execMtprPrbr_vms :: palLeaf where "execMtprPrbr_vms = execCallPalDispatch"

definition execMtprSirr_vms :: palLeaf where "execMtprSirr_vms = execCallPalDispatch"

definition execMtprSsp_vms :: palLeaf where "execMtprSsp_vms = execCallPalDispatch"

definition execMtprTbia_vms :: palLeaf where "execMtprTbia_vms = execCallPalDispatch"

definition execMtprTbiap_vms :: palLeaf where "execMtprTbiap_vms = execCallPalDispatch"

definition execMtprTbis_vms :: palLeaf where "execMtprTbis_vms = execCallPalDispatch"

definition execMtprTbisd_vms :: palLeaf where "execMtprTbisd_vms = execCallPalDispatch"

definition execMtprTbisi_vms :: palLeaf where "execMtprTbisi_vms = execCallPalDispatch"

definition execMtprUsp_vms :: palLeaf where "execMtprUsp_vms = execCallPalDispatch"

definition execBpt :: palLeaf where "execBpt = execCallPalDispatch"

definition execBugchk_vms :: palLeaf where "execBugchk_vms = execCallPalDispatch"

definition execCflush :: palLeaf where "execCflush = execCallPalDispatch"

definition execChmk :: palLeaf where "execChmk = execCallPalDispatch"

definition execChms_vms :: palLeaf where "execChms_vms = execCallPalDispatch"

definition execChmu_vms :: palLeaf where "execChmu_vms = execCallPalDispatch"

definition execClrfen :: palLeaf where "execClrfen = execCallPalDispatch"

definition execDraina :: palLeaf where "execDraina = execCallPalDispatch"

definition execGentrap :: palLeaf where "execGentrap = execCallPalDispatch"

definition execImb :: palLeaf where "execImb = execCallPalDispatch"

definition execRei :: palLeaf where "execRei = execCallPalDispatch"

definition execRetsys_tru64 :: palLeaf where "execRetsys_tru64 = execCallPalDispatch"

definition execSwpipl_tru64 :: palLeaf where "execSwpipl_tru64 = execCallPalDispatch"

definition execSwppal :: palLeaf where "execSwppal = execCallPalDispatch"

definition execRdps_tru64 :: palLeaf where "execRdps_tru64 = execCallPalDispatch"

definition execRdusp_tru64 :: palLeaf where "execRdusp_tru64 = execCallPalDispatch"

definition execRdPs_vms :: palLeaf where "execRdPs_vms = execCallPalDispatch"

definition execTbi_tru64 :: palLeaf where "execTbi_tru64 = execCallPalDispatch"

definition execWrent_tru64 :: palLeaf where "execWrent_tru64 = execCallPalDispatch"

definition execWriteUnq :: palLeaf where "execWriteUnq = execCallPalDispatch"

definition execWrkgp_tru64 :: palLeaf where "execWrkgp_tru64 = execCallPalDispatch"

definition execWrperfmon_tru64 :: palLeaf where "execWrperfmon_tru64 = execCallPalDispatch"

definition execWrusp_tru64 :: palLeaf where "execWrusp_tru64 = execCallPalDispatch"

definition execWrval_tru64 :: palLeaf where "execWrval_tru64 = execCallPalDispatch"

definition execWrvptptr_tru64 :: palLeaf where "execWrvptptr_tru64 = execCallPalDispatch"

definition execWrPsSw_vms :: palLeaf where "execWrPsSw_vms = execCallPalDispatch"

definition execInsqhil_vms :: palLeaf where "execInsqhil_vms = execCallPalDispatch"

definition execInsqhilr_vms :: palLeaf where "execInsqhilr_vms = execCallPalDispatch"

definition execInsqhiq_vms :: palLeaf where "execInsqhiq_vms = execCallPalDispatch"

definition execInsqhiqr_vms :: palLeaf where "execInsqhiqr_vms = execCallPalDispatch"

definition execInsqtil_vms :: palLeaf where "execInsqtil_vms = execCallPalDispatch"

definition execInsqtilr_vms :: palLeaf where "execInsqtilr_vms = execCallPalDispatch"

definition execInsqtiq_vms :: palLeaf where "execInsqtiq_vms = execCallPalDispatch"

definition execInsqtiqr_vms :: palLeaf where "execInsqtiqr_vms = execCallPalDispatch"

definition execInsquel_vms :: palLeaf where "execInsquel_vms = execCallPalDispatch"

definition execInsquelD_vms :: palLeaf where "execInsquelD_vms = execCallPalDispatch"

definition execInsqueq_vms :: palLeaf where "execInsqueq_vms = execCallPalDispatch"

definition execInsqueqD_vms :: palLeaf where "execInsqueqD_vms = execCallPalDispatch"

definition execRemqhil_vms :: palLeaf where "execRemqhil_vms = execCallPalDispatch"

definition execRemqhiq_vms :: palLeaf where "execRemqhiq_vms = execCallPalDispatch"

definition execRemqtil_vms :: palLeaf where "execRemqtil_vms = execCallPalDispatch"

definition execRemqtiq_vms :: palLeaf where "execRemqtiq_vms = execCallPalDispatch"

definition execRemqhilr_vms :: palLeaf where "execRemqhilr_vms = execCallPalDispatch"

definition execRemqtilr_vms :: palLeaf where "execRemqtilr_vms = execCallPalDispatch"

definition execRemqhiqr_vms :: palLeaf where "execRemqhiqr_vms = execCallPalDispatch"

definition execRemqtiqr_vms :: palLeaf where "execRemqtiqr_vms = execCallPalDispatch"

definition execRemquel_vms :: palLeaf where "execRemquel_vms = execCallPalDispatch"

definition execRemquelD_vms :: palLeaf where "execRemquelD_vms = execCallPalDispatch"

definition execRemqueq_vms :: palLeaf where "execRemqueq_vms = execCallPalDispatch"

definition execRemqueqD_vms :: palLeaf where "execRemqueqD_vms = execCallPalDispatch"

definition execAmovrm_vms :: palLeaf where "execAmovrm_vms = execCallPalDispatch"

definition execAmovrr_vms :: palLeaf where "execAmovrr_vms = execCallPalDispatch"

definition execProber_vms :: palLeaf where "execProber_vms = execCallPalDispatch"

definition execProbew_vms :: palLeaf where "execProbew_vms = execCallPalDispatch"

definition execReadUnq :: palLeaf where "execReadUnq = execCallPalDispatch"

definition execRscc_vms :: palLeaf where "execRscc_vms = execCallPalDispatch"

definition execSwasten_vms :: palLeaf where "execSwasten_vms = execCallPalDispatch"

definition execWhami_tru64 :: palLeaf where "execWhami_tru64 = execCallPalDispatch"

section \<open>What the leaves keep\<close>

text \<open>
  A PALcode leaf may change any processor register, but it keeps the shape of the register file, names
  R0 or a valid register as its destination, and when it faults or leaves a memory access to the drainer it
  has changed nothing but MM\_STAT. CSERVE faults only to halt, and then it has not touched memory.
\<close>

definition keeps_shape :: "Cpu \<Rightarrow> BoxResult \<Rightarrow> Cpu \<Rightarrow> bool" where
  "keeps_shape cpu r cpu1 \<longleftrightarrow> (cpu_wf cpu \<longrightarrow> cpu_wf cpu1) \<and>
     (faultCode r \<noteq> kNoFault \<or> memSize r \<noteq> kNoMemEffect \<longrightarrow> cpu1 = cpu\<lparr>mm_stat := mm_stat cpu1\<rparr>)"

lemma wf_linkage:
  "cpu_wf cpu \<Longrightarrow> i \<noteq> 31 \<Longrightarrow> cpu_wf (cpu\<lparr>intReg := (intReg cpu)[i := v]\<rparr>)"
  by (simp add: cpu_wf_def)

lemma linkageReg_not_zero: "iCtlCallPalLinkageReg x \<noteq> 31"
  by (simp add: iCtlCallPalLinkageReg_def)

lemma wf_callPal: "cpu_wf cpu \<Longrightarrow> cpu_wf (snd (execCallPalDispatch g c cpu))"
  by (simp add: execCallPalDispatch_def Let_def wf_linkage linkageReg_not_zero wf_palModeEnter)

lemma wf_palModeLeave: "cpu_wf cpu \<Longrightarrow> cpu_wf (palModeLeave cpu)"
  by (simp add: palModeLeave_def Let_def wf_swap)

lemma wf_setPalMode: "cpu_wf cpu \<Longrightarrow> cpu_wf (setPalMode cpu b)"
  by (simp add: setPalMode_def wf_palModeEnter wf_palModeLeave)

lemma wf_hwMtprTb: "cpu_wf cpu \<Longrightarrow> cpu_wf (hwMtprTb t v cpu)"
  by (cases t) (simp_all add: cpu_wf_def)

lemma cpu_wf_ipr_update [simp]:
  "cpu_wf (cpu\<lparr>palBase := v\<rparr>) = cpu_wf cpu" "cpu_wf (cpu\<lparr>i_ctl := v\<rparr>) = cpu_wf cpu"
  "cpu_wf (cpu\<lparr>i_spe := s\<rparr>) = cpu_wf cpu" "cpu_wf (cpu\<lparr>m_ctl := v\<rparr>) = cpu_wf cpu"
  "cpu_wf (cpu\<lparr>m_spe := s\<rparr>) = cpu_wf cpu" "cpu_wf (cpu\<lparr>ier := v\<rparr>) = cpu_wf cpu"
  "cpu_wf (cpu\<lparr>mode := m\<rparr>) = cpu_wf cpu" "cpu_wf (cpu\<lparr>va_ctl := v\<rparr>) = cpu_wf cpu"
  "cpu_wf (cpu\<lparr>ccOffset := v\<rparr>) = cpu_wf cpu" "cpu_wf (cpu\<lparr>itbPteTemp := v\<rparr>) = cpu_wf cpu"
  "cpu_wf (cpu\<lparr>dtbPteTemp := v\<rparr>) = cpu_wf cpu" "cpu_wf (cpu\<lparr>writeMany := v\<rparr>) = cpu_wf cpu"
  "cpu_wf (cpu\<lparr>shftCtrl := s\<rparr>) = cpu_wf cpu" "cpu_wf (cpu\<lparr>vptb := v\<rparr>) = cpu_wf cpu"
  "cpu_wf (cpu\<lparr>fpcr := v\<rparr>) = cpu_wf cpu" "cpu_wf (cpu\<lparr>palTemp := (palTemp cpu)[i := v]\<rparr>) = cpu_wf cpu"
  by (simp_all add: cpu_wf_def)

lemma wf_mtprEffect: "cpu_wf cpu \<Longrightarrow> cpu_wf (mtprEffect ipr v cpu)"
  by (cases "(ipr, v, cpu)" rule: mtprEffect.cases)
    (simp_all add: writeICtl_def pushWriteMany_def shiftErrorOut_def wf_hwMtprTb wf_swap Let_def)

lemma palResult_simps [simp]:
  "faultCode (palResult g) = kNoFault" "regWriteIdx (palResult g) = kNoRegWrite" "memSize (palResult g) = kNoMemEffect"
  "regWriteIsFp (palResult g) = False" "memIsStore (palResult g) = False" "divert (palResult g) = False"
  "semFlags (palResult g) = g_semFlags g"
  by (simp_all add: palResult_def newBoxResult_def)

lemma palReturn_simps [simp]:
  "faultCode (palReturn g v) = kNoFault" "regWriteIdx (palReturn g v) = 0" "memSize (palReturn g v) = kNoMemEffect"
  "regWriteIsFp (palReturn g v) = False" "regWriteValue (palReturn g v) = v"
  "memIsStore (palReturn g v) = False" "divert (palReturn g v) = False"
  by (simp_all add: palReturn_def)

lemma keeps_shape_callPal [simp]:
  "keeps_shape cpu (fst (execCallPalDispatch g c cpu)) (snd (execCallPalDispatch g c cpu))"
  by (simp add: keeps_shape_def wf_callPal) (simp add: execCallPalDispatch_def Let_def)

lemma keeps_shape_hw [simp]:
  "keeps_shape cpu (fst (execHwMfpr g c cpu)) (snd (execHwMfpr g c cpu))"
  "keeps_shape cpu (fst (execHwMtpr g c cpu)) (snd (execHwMtpr g c cpu))"
  "keeps_shape cpu (fst (execHwRei g c cpu)) (snd (execHwRei g c cpu))"
  by (simp_all add: keeps_shape_def execHwMfpr_def execHwMtpr_def execHwRei_def wf_mtprEffect wf_setPalMode Let_def
      split: option.split)

lemma keeps_shape_services [simp]:
  "keeps_shape cpu (fst (execMfprWhami g c cpu)) (snd (execMfprWhami g c cpu))"
  "keeps_shape cpu (fst (execMfprVptb_vms g c cpu)) (snd (execMfprVptb_vms g c cpu))"
  "keeps_shape cpu (fst (execMtprVptb_vms g c cpu)) (snd (execMtprVptb_vms g c cpu))"
  "keeps_shape cpu (fst (execLdqp_vms g c cpu)) (snd (execLdqp_vms g c cpu))"
  "keeps_shape cpu (fst (execStqp_vms g c cpu)) (snd (execStqp_vms g c cpu))"
  by (simp_all add: keeps_shape_def execMfprWhami_def execMfprVptb_vms_def execMtprVptb_vms_def
      execLdqp_vms_def execStqp_vms_def Let_def)

lemma keeps_shape_cserve:
  "case execCserve g c cpu mem of (r, cpu1, mem1) \<Rightarrow>
     keeps_shape cpu r cpu1 \<and> memSize r = kNoMemEffect \<and> faultCode r \<in> {kNoFault, kFaultHalt} \<and>
     (faultCode r \<noteq> kNoFault \<longrightarrow> mem1 = mem)"
proof -
  define f where "f = intReg cpu ! 16 AND 0xFF"
  show ?thesis
    unfolding execCserve_def Let_def f_def [symmetric] keeps_shape_def
    by (simp split: if_split)
qed

lemmas call_pal_defs =
  execChme_vms_def execMfprScbb_vms_def execMtprScbb_vms_def execMfprFen_vms_def execMtprFen_vms_def
  execMfprAsn_vms_def execMfprAsten_vms_def execMfprAstsr_vms_def execMfprEsp_vms_def
  execMfprIpl_vms_def execMfprMces_def execMfprPcbb_vms_def execMfprPrbr_vms_def execMfprPtbr_vms_def
  execMfprSisr_vms_def execMfprSsp_vms_def execMfprSysptbr_def execMfprTbchk_vms_def
  execMfprUsp_vms_def execMfprVirbnd_def execMtprAsten_vms_def execMtprAstsr_vms_def execMtprDatfx_def
  execMtprEsp_vms_def execMtprIpir_def execMtprIpl_vms_def execMtprMces_def execMtprPerfmon_def
  execMtprPrbr_vms_def execMtprSirr_vms_def execMtprSsp_vms_def execMtprTbia_vms_def
  execMtprTbiap_vms_def execMtprTbis_vms_def execMtprTbisd_vms_def execMtprTbisi_vms_def
  execMtprUsp_vms_def execBpt_def execBugchk_vms_def execCflush_def execChmk_def execChms_vms_def
  execChmu_vms_def execClrfen_def execDraina_def execGentrap_def execImb_def execRei_def
  execRetsys_tru64_def execSwpipl_tru64_def execSwppal_def execRdps_tru64_def execRdusp_tru64_def
  execRdPs_vms_def execTbi_tru64_def execWrent_tru64_def execWriteUnq_def execWrkgp_tru64_def
  execWrperfmon_tru64_def execWrusp_tru64_def execWrval_tru64_def execWrvptptr_tru64_def
  execWrPsSw_vms_def execInsqhil_vms_def execInsqhilr_vms_def execInsqhiq_vms_def execInsqhiqr_vms_def
  execInsqtil_vms_def execInsqtilr_vms_def execInsqtiq_vms_def execInsqtiqr_vms_def
  execInsquel_vms_def execInsquelD_vms_def execInsqueq_vms_def execInsqueqD_vms_def
  execRemqhil_vms_def execRemqhiq_vms_def execRemqtil_vms_def execRemqtiq_vms_def execRemqhilr_vms_def
  execRemqtilr_vms_def execRemqhiqr_vms_def execRemqtiqr_vms_def execRemquel_vms_def
  execRemquelD_vms_def execRemqueq_vms_def execRemqueqD_vms_def execAmovrm_vms_def execAmovrr_vms_def
  execProber_vms_def execProbew_vms_def execReadUnq_def execRscc_vms_def execSwasten_vms_def
  execWhami_tru64_def

section \<open>Register read-back\<close>




lemma icw_swap_frame [simp]: "i_ctl (swapPalShadowRegs cpu) = i_ctl cpu"
  by simp


lemma pal_base_drops_bit_43: "palBaseSanitize (push_bit 43 1) = 0"
  by (simp add: palBaseSanitize_def kPalBaseAddrMask_def)







end
