(* ===== verification/Dispatch.thy ===== *)
theory Dispatch
  imports FloatLeaves PalEntries
begin

text \<open>
  Instruction decode: the dispatch tables that grainFactoryLib/generated/DispatchTables.cpp builds from
  the opcode master file, with the entry types of coreLib/DispatchEntry.h, and the decode function of
  pipelineLib/PipelineDriver.h that selects an entry for an instruction word. A dense table is the
  list of its populated slots, every other slot holds the decode-error entry. A function pointer of an
  entry is the leaf itself; the constructor of the pointer says which of the processor state, the
  floating point back end and the guest memory the leaf reaches besides its operands.
\<close>

section \<open>Entries\<close>

datatype GrainFn =
    Pure "InstructionGrain \<Rightarrow> ExecCtx \<Rightarrow> BoxResult"
  | WithCpu "InstructionGrain \<Rightarrow> Cpu \<Rightarrow> BoxResult \<times> Cpu"
  | WithCtx "InstructionGrain \<Rightarrow> ExecCtx \<Rightarrow> Cpu \<Rightarrow> BoxResult \<times> Cpu"
  | Fp "IFpBackend \<Rightarrow> InstructionGrain \<Rightarrow> ExecCtx \<Rightarrow> Cpu \<Rightarrow> BoxResult \<times> Cpu"
  | WithMem "InstructionGrain \<Rightarrow> ExecCtx \<Rightarrow> Cpu \<Rightarrow> GuestMemory \<Rightarrow> BoxResult \<times> Cpu \<times> GuestMemory"

record GrainEntry =
  e_fn :: GrainFn
  e_semFlags :: u64
  e_box :: Box
  mnemonic :: string

definition grainEntry :: "GrainFn \<Rightarrow> GrainSem list \<Rightarrow> Box \<Rightarrow> string \<Rightarrow> GrainEntry" where
  "grainEntry f flags b name = \<lparr>e_fn = f, e_semFlags = flagSet flags, e_box = b,
       mnemonic = name\<rparr>"

definition kOpcDecEntry :: GrainEntry where
  "kOpcDecEntry = grainEntry (Pure execOpcDec) [S_OpcDec] PalBox ''OPCDEC''"

type_synonym subtable = "(nat \<times> GrainEntry) list"

definition slot :: "subtable \<Rightarrow> nat \<Rightarrow> GrainEntry" where
  "slot t i = (case map_of t i of Some e \<Rightarrow> e | None \<Rightarrow> kOpcDecEntry)"

section \<open>Sub-tables\<close>

definition g_intArithSubTable :: subtable where
  "g_intArithSubTable =
   [(0x0, grainEntry (Pure execAddl) [S_OpFormat, S_ReadsRa, S_ReadsRb, S_ReadsInt, S_WritesRc,
       S_WritesInt] Ebox ''ADDL''),
    (0x2, grainEntry (Pure execS4addl) [S_OpFormat, S_ReadsRa, S_ReadsRb, S_ReadsInt, S_WritesRc,
       S_WritesInt] Ebox ''S4ADDL''),
    (0x9, grainEntry (Pure execSubl) [S_OpFormat, S_ReadsRa, S_ReadsRb, S_ReadsInt, S_WritesRc,
       S_WritesInt] Ebox ''SUBL''),
    (0xb, grainEntry (Pure execS4subl) [S_OpFormat, S_ReadsRa, S_ReadsRb, S_ReadsInt, S_WritesRc,
       S_WritesInt] Ebox ''S4SUBL''),
    (0xf, grainEntry (Pure execCmpbge) [S_OpFormat, S_ReadsRa, S_ReadsRb, S_ReadsInt, S_WritesRc,
       S_WritesInt] Ebox ''CMPBGE''),
    (0x12, grainEntry (Pure execS8addl) [S_OpFormat, S_ReadsRa, S_ReadsRb, S_ReadsInt, S_WritesRc,
       S_WritesInt] Ebox ''S8ADDL''),
    (0x1b, grainEntry (Pure execS8subl) [S_OpFormat, S_ReadsRa, S_ReadsRb, S_ReadsInt, S_WritesRc,
       S_WritesInt] Ebox ''S8SUBL''),
    (0x1d, grainEntry (Pure execCmpult) [S_OpFormat, S_ReadsRa, S_ReadsRb, S_ReadsInt, S_WritesRc,
       S_WritesInt] Ebox ''CMPULT''),
    (0x20, grainEntry (Pure execAddq) [S_OpFormat, S_ReadsRa, S_ReadsRb, S_ReadsInt, S_WritesRc,
       S_WritesInt] Ebox ''ADDQ''),
    (0x22, grainEntry (Pure execS4addq) [S_OpFormat, S_ReadsRa, S_ReadsRb, S_ReadsInt, S_WritesRc,
       S_WritesInt] Ebox ''S4ADDQ''),
    (0x29, grainEntry (Pure execSubq) [S_OpFormat, S_ReadsRa, S_ReadsRb, S_ReadsInt, S_WritesRc,
       S_WritesInt] Ebox ''SUBQ''),
    (0x2b, grainEntry (Pure execS4subq) [S_OpFormat, S_ReadsRa, S_ReadsRb, S_ReadsInt, S_WritesRc,
       S_WritesInt] Ebox ''S4SUBQ''),
    (0x2d, grainEntry (Pure execCmpeq) [S_OpFormat, S_ReadsRa, S_ReadsRb, S_ReadsInt, S_WritesRc,
       S_WritesInt] Ebox ''CMPEQ''),
    (0x32, grainEntry (Pure execS8addq) [S_OpFormat, S_ReadsRa, S_ReadsRb, S_ReadsInt, S_WritesRc,
       S_WritesInt] Ebox ''S8ADDQ''),
    (0x3b, grainEntry (Pure execS8subq) [S_OpFormat, S_ReadsRa, S_ReadsRb, S_ReadsInt, S_WritesRc,
       S_WritesInt] Ebox ''S8SUBQ''),
    (0x3d, grainEntry (Pure execCmpule) [S_OpFormat, S_ReadsRa, S_ReadsRb, S_ReadsInt, S_WritesRc,
       S_WritesInt] Ebox ''CMPULE''),
    (0x4d, grainEntry (Pure execCmplt) [S_OpFormat, S_ReadsRa, S_ReadsRb, S_ReadsInt, S_WritesRc,
       S_WritesInt] Ebox ''CMPLT''),
    (0x6d, grainEntry (Pure execCmple) [S_OpFormat, S_ReadsRa, S_ReadsRb, S_ReadsInt, S_WritesRc,
       S_WritesInt] Ebox ''CMPLE'')]"

definition g_intLogicalSubTable :: subtable where
  "g_intLogicalSubTable =
   [(0x0, grainEntry (Pure execAnd) [S_OpFormat, S_ReadsRa, S_ReadsRb, S_ReadsInt, S_WritesRc,
       S_WritesInt] Ebox ''AND''),
    (0x8, grainEntry (Pure execBic) [S_OpFormat, S_ReadsRa, S_ReadsRb, S_ReadsInt, S_WritesRc,
       S_WritesInt] Ebox ''BIC''),
    (0x14, grainEntry (Pure execCmovlbs) [S_OpFormat, S_ReadsRa, S_ReadsRb, S_ReadsInt, S_WritesRc,
       S_WritesInt] Ebox ''CMOVLBS''),
    (0x16, grainEntry (Pure execCmovlbc) [S_OpFormat, S_ReadsRa, S_ReadsRb, S_ReadsInt, S_WritesRc,
       S_WritesInt] Ebox ''CMOVLBC''),
    (0x20, grainEntry (Pure execBis) [S_OpFormat, S_ReadsRa, S_ReadsRb, S_ReadsInt, S_WritesRc,
       S_WritesInt] Ebox ''BIS''),
    (0x24, grainEntry (Pure execCmoveq) [S_OpFormat, S_ReadsRa, S_ReadsRb, S_ReadsInt, S_WritesRc,
       S_WritesInt] Ebox ''CMOVEQ''),
    (0x26, grainEntry (Pure execCmovne) [S_OpFormat, S_ReadsRa, S_ReadsRb, S_ReadsInt, S_WritesRc,
       S_WritesInt] Ebox ''CMOVNE''),
    (0x28, grainEntry (Pure execOrnot) [S_OpFormat, S_ReadsRa, S_ReadsRb, S_ReadsInt, S_WritesRc,
       S_WritesInt] Ebox ''ORNOT''),
    (0x40, grainEntry (Pure execXor) [S_OpFormat, S_ReadsRa, S_ReadsRb, S_ReadsInt, S_WritesRc,
       S_WritesInt] Ebox ''XOR''),
    (0x44, grainEntry (Pure execCmovlt) [S_OpFormat, S_ReadsRa, S_ReadsRb, S_ReadsInt, S_WritesRc,
       S_WritesInt] Ebox ''CMOVLT''),
    (0x46, grainEntry (Pure execCmovge) [S_OpFormat, S_ReadsRa, S_ReadsRb, S_ReadsInt, S_WritesRc,
       S_WritesInt] Ebox ''CMOVGE''),
    (0x48, grainEntry (Pure execEqv) [S_OpFormat, S_ReadsRa, S_ReadsRb, S_ReadsInt, S_WritesRc,
       S_WritesInt] Ebox ''EQV''),
    (0x61, grainEntry (Pure execAmask) [S_OpFormat, S_ReadsRb, S_ReadsInt, S_WritesRc,
       S_WritesInt] Ebox ''AMASK''),
    (0x64, grainEntry (Pure execCmovle) [S_OpFormat, S_ReadsRa, S_ReadsRb, S_ReadsInt, S_WritesRc,
       S_WritesInt] Ebox ''CMOVLE''),
    (0x66, grainEntry (Pure execCmovgt) [S_OpFormat, S_ReadsRa, S_ReadsRb, S_ReadsInt, S_WritesRc,
       S_WritesInt] Ebox ''CMOVGT''),
    (0x6c, grainEntry (Pure execImplver) [S_OpFormat, S_WritesRc, S_WritesInt] Ebox ''IMPLVER'')]"

definition g_intShiftSubTable :: subtable where
  "g_intShiftSubTable =
   [(0x2, grainEntry (Pure execMskbl) [S_OpFormat, S_ReadsRa, S_ReadsRb, S_ReadsInt, S_WritesRc,
       S_WritesInt] Ebox ''MSKBL''),
    (0x6, grainEntry (Pure execExtbl) [S_OpFormat, S_ReadsRa, S_ReadsRb, S_ReadsInt, S_WritesRc,
       S_WritesInt] Ebox ''EXTBL''),
    (0xb, grainEntry (Pure execInsbl) [S_OpFormat, S_ReadsRa, S_ReadsRb, S_ReadsInt, S_WritesRc,
       S_WritesInt] Ebox ''INSBL''),
    (0x12, grainEntry (Pure execMskwl) [S_OpFormat, S_ReadsRa, S_ReadsRb, S_ReadsInt, S_WritesRc,
       S_WritesInt] Ebox ''MSKWL''),
    (0x16, grainEntry (Pure execExtwl) [S_OpFormat, S_ReadsRa, S_ReadsRb, S_ReadsInt, S_WritesRc,
       S_WritesInt] Ebox ''EXTWL''),
    (0x1b, grainEntry (Pure execInswl) [S_OpFormat, S_ReadsRa, S_ReadsRb, S_ReadsInt, S_WritesRc,
       S_WritesInt] Ebox ''INSWL''),
    (0x22, grainEntry (Pure execMskll) [S_OpFormat, S_ReadsRa, S_ReadsRb, S_ReadsInt, S_WritesRc,
       S_WritesInt] Ebox ''MSKLL''),
    (0x26, grainEntry (Pure execExtll) [S_OpFormat, S_ReadsRa, S_ReadsRb, S_ReadsInt, S_WritesRc,
       S_WritesInt] Ebox ''EXTLL''),
    (0x2b, grainEntry (Pure execInsll) [S_OpFormat, S_ReadsRa, S_ReadsRb, S_ReadsInt, S_WritesRc,
       S_WritesInt] Ebox ''INSLL''),
    (0x30, grainEntry (Pure execZap) [S_OpFormat, S_ReadsRa, S_ReadsRb, S_ReadsInt, S_WritesRc,
       S_WritesInt] Ebox ''ZAP''),
    (0x31, grainEntry (Pure execZapnot) [S_OpFormat, S_ReadsRa, S_ReadsRb, S_ReadsInt, S_WritesRc,
       S_WritesInt] Ebox ''ZAPNOT''),
    (0x32, grainEntry (Pure execMskql) [S_OpFormat, S_ReadsRa, S_ReadsRb, S_ReadsInt, S_WritesRc,
       S_WritesInt] Ebox ''MSKQL''),
    (0x34, grainEntry (Pure execSrl) [S_OpFormat, S_ReadsRa, S_ReadsRb, S_ReadsInt, S_WritesRc,
       S_WritesInt] Ebox ''SRL''),
    (0x36, grainEntry (Pure execExtql) [S_OpFormat, S_ReadsRa, S_ReadsRb, S_ReadsInt, S_WritesRc,
       S_WritesInt] Ebox ''EXTQL''),
    (0x39, grainEntry (Pure execSll) [S_OpFormat, S_ReadsRa, S_ReadsRb, S_ReadsInt, S_WritesRc,
       S_WritesInt] Ebox ''SLL''),
    (0x3b, grainEntry (Pure execInsql) [S_OpFormat, S_ReadsRa, S_ReadsRb, S_ReadsInt, S_WritesRc,
       S_WritesInt] Ebox ''INSQL''),
    (0x3c, grainEntry (Pure execSra) [S_OpFormat, S_ReadsRa, S_ReadsRb, S_ReadsInt, S_WritesRc,
       S_WritesInt] Ebox ''SRA''),
    (0x52, grainEntry (Pure execMskwh) [S_OpFormat, S_ReadsRa, S_ReadsRb, S_ReadsInt, S_WritesRc,
       S_WritesInt] Ebox ''MSKWH''),
    (0x57, grainEntry (Pure execInswh) [S_OpFormat, S_ReadsRa, S_ReadsRb, S_ReadsInt, S_WritesRc,
       S_WritesInt] Ebox ''INSWH''),
    (0x5a, grainEntry (Pure execExtwh) [S_OpFormat, S_ReadsRa, S_ReadsRb, S_ReadsInt, S_WritesRc,
       S_WritesInt] Ebox ''EXTWH''),
    (0x62, grainEntry (Pure execMsklh) [S_OpFormat, S_ReadsRa, S_ReadsRb, S_ReadsInt, S_WritesRc,
       S_WritesInt] Ebox ''MSKLH''),
    (0x67, grainEntry (Pure execInslh) [S_OpFormat, S_ReadsRa, S_ReadsRb, S_ReadsInt, S_WritesRc,
       S_WritesInt] Ebox ''INSLH''),
    (0x6a, grainEntry (Pure execExtlh) [S_OpFormat, S_ReadsRa, S_ReadsRb, S_ReadsInt, S_WritesRc,
       S_WritesInt] Ebox ''EXTLH''),
    (0x72, grainEntry (Pure execMskqh) [S_OpFormat, S_ReadsRa, S_ReadsRb, S_ReadsInt, S_WritesRc,
       S_WritesInt] Ebox ''MSKQH''),
    (0x77, grainEntry (Pure execInsqh) [S_OpFormat, S_ReadsRa, S_ReadsRb, S_ReadsInt, S_WritesRc,
       S_WritesInt] Ebox ''INSQH''),
    (0x7a, grainEntry (Pure execExtqh) [S_OpFormat, S_ReadsRa, S_ReadsRb, S_ReadsInt, S_WritesRc,
       S_WritesInt] Ebox ''EXTQH'')]"

definition g_intMulSubTable :: subtable where
  "g_intMulSubTable =
   [(0x0, grainEntry (Pure execMull) [S_OpFormat, S_ReadsRa, S_ReadsRb, S_ReadsInt, S_WritesRc,
       S_WritesInt] Ebox ''MULL''),
    (0x20, grainEntry (Pure execMulq) [S_OpFormat, S_ReadsRa, S_ReadsRb, S_ReadsInt, S_WritesRc,
       S_WritesInt] Ebox ''MULQ''),
    (0x30, grainEntry (Pure execUmulh) [S_OpFormat, S_ReadsRa, S_ReadsRb, S_ReadsInt, S_WritesRc,
       S_WritesInt] Ebox ''UMULH'')]"

definition g_itFpSubTable :: subtable where
  "g_itFpSubTable =
   [(0x4, grainEntry (Pure execItofs) [S_OpFormat, S_ReadsRa, S_ReadsInt, S_WritesRc,
       S_WritesFp] Ebox ''ITOFS''),
    (0xa, grainEntry (Fp execSqrtfC) [S_FpFormat, S_ReadsRb, S_ReadsFp, S_WritesRc,
       S_WritesFp, S_FpTrap] Fbox ''SQRTF_C''),
    (0xb, grainEntry (Fp execSqrtsC) [S_FpFormat, S_ReadsRb, S_ReadsFp, S_WritesRc,
       S_WritesFp, S_FpTrap] Fbox ''SQRTS_C''),
    (0x14, grainEntry (Pure execItoff) [S_OpFormat, S_ReadsRa, S_ReadsInt, S_WritesRc,
       S_WritesFp] Ebox ''ITOFF''),
    (0x24, grainEntry (Pure execItoft) [S_OpFormat, S_ReadsRa, S_ReadsInt, S_WritesRc,
       S_WritesFp] Ebox ''ITOFT''),
    (0x2a, grainEntry (Fp execSqrtgC) [S_FpFormat, S_ReadsRb, S_ReadsFp, S_WritesRc,
       S_WritesFp, S_FpTrap] Fbox ''SQRTG_C''),
    (0x2b, grainEntry (Fp execSqrttC) [S_FpFormat, S_ReadsRb, S_ReadsFp, S_WritesRc,
       S_WritesFp, S_FpTrap] Fbox ''SQRTT_C''),
    (0x4b, grainEntry (Fp execSqrtsM) [S_FpFormat, S_ReadsRb, S_ReadsFp, S_WritesRc,
       S_WritesFp, S_FpTrap] Fbox ''SQRTS_M''),
    (0x6b, grainEntry (Fp execSqrttM) [S_FpFormat, S_ReadsRb, S_ReadsFp, S_WritesRc,
       S_WritesFp, S_FpTrap] Fbox ''SQRTT_M''),
    (0x8a, grainEntry (Fp execSqrtf) [S_FpFormat, S_ReadsRb, S_ReadsFp, S_WritesRc,
       S_WritesFp, S_FpTrap] Fbox ''SQRTF''),
    (0x8b, grainEntry (Fp execSqrts) [S_FpFormat, S_ReadsRb, S_ReadsFp, S_WritesRc,
       S_WritesFp, S_FpTrap] Fbox ''SQRTS''),
    (0xaa, grainEntry (Fp execSqrtg) [S_FpFormat, S_ReadsRb, S_ReadsFp, S_WritesRc,
       S_WritesFp, S_FpTrap] Fbox ''SQRTG''),
    (0xab, grainEntry (Fp execSqrtt) [S_FpFormat, S_ReadsRb, S_ReadsFp, S_WritesRc,
       S_WritesFp, S_FpTrap] Fbox ''SQRTT''),
    (0xcb, grainEntry (Fp execSqrtsD) [S_FpFormat, S_ReadsRb, S_ReadsFp, S_WritesRc,
       S_WritesFp, S_FpTrap] Fbox ''SQRTS_D''),
    (0xeb, grainEntry (Fp execSqrttD) [S_FpFormat, S_ReadsRb, S_ReadsFp, S_WritesRc,
       S_WritesFp, S_FpTrap] Fbox ''SQRTT_D''),
    (0x10a, grainEntry (Fp execSqrtfUc) [S_FpFormat, S_ReadsRb, S_ReadsFp, S_WritesRc,
       S_WritesFp, S_FpTrap] Fbox ''SQRTF_UC''),
    (0x10b, grainEntry (Fp execSqrtsUc) [S_FpFormat, S_ReadsRb, S_ReadsFp, S_WritesRc,
       S_WritesFp, S_FpTrap] Fbox ''SQRTS_UC''),
    (0x12a, grainEntry (Fp execSqrtgUc) [S_FpFormat, S_ReadsRb, S_ReadsFp, S_WritesRc,
       S_WritesFp, S_FpTrap] Fbox ''SQRTG_UC''),
    (0x12b, grainEntry (Fp execSqrttUc) [S_FpFormat, S_ReadsRb, S_ReadsFp, S_WritesRc,
       S_WritesFp, S_FpTrap] Fbox ''SQRTT_UC''),
    (0x14b, grainEntry (Fp execSqrtsUm) [S_FpFormat, S_ReadsRb, S_ReadsFp, S_WritesRc,
       S_WritesFp, S_FpTrap] Fbox ''SQRTS_UM''),
    (0x16b, grainEntry (Fp execSqrttUm) [S_FpFormat, S_ReadsRb, S_ReadsFp, S_WritesRc,
       S_WritesFp, S_FpTrap] Fbox ''SQRTT_UM''),
    (0x18a, grainEntry (Fp execSqrtfU) [S_FpFormat, S_ReadsRb, S_ReadsFp, S_WritesRc,
       S_WritesFp, S_FpTrap] Fbox ''SQRTF_U''),
    (0x18b, grainEntry (Fp execSqrtsU) [S_FpFormat, S_ReadsRb, S_ReadsFp, S_WritesRc,
       S_WritesFp, S_FpTrap] Fbox ''SQRTS_U''),
    (0x1aa, grainEntry (Fp execSqrtgU) [S_FpFormat, S_ReadsRb, S_ReadsFp, S_WritesRc,
       S_WritesFp, S_FpTrap] Fbox ''SQRTG_U''),
    (0x1ab, grainEntry (Fp execSqrttU) [S_FpFormat, S_ReadsRb, S_ReadsFp, S_WritesRc,
       S_WritesFp, S_FpTrap] Fbox ''SQRTT_U''),
    (0x1cb, grainEntry (Fp execSqrtsUd) [S_FpFormat, S_ReadsRb, S_ReadsFp, S_WritesRc,
       S_WritesFp, S_FpTrap] Fbox ''SQRTS_UD''),
    (0x1eb, grainEntry (Fp execSqrttUd) [S_FpFormat, S_ReadsRb, S_ReadsFp, S_WritesRc,
       S_WritesFp, S_FpTrap] Fbox ''SQRTT_UD''),
    (0x40a, grainEntry (Fp execSqrtfSc) [S_FpFormat, S_ReadsRb, S_ReadsFp, S_WritesRc,
       S_WritesFp, S_FpTrap] Fbox ''SQRTF_SC''),
    (0x42a, grainEntry (Fp execSqrtgSc) [S_FpFormat, S_ReadsRb, S_ReadsFp, S_WritesRc,
       S_WritesFp, S_FpTrap] Fbox ''SQRTG_SC''),
    (0x48a, grainEntry (Fp execSqrtfS) [S_FpFormat, S_ReadsRb, S_ReadsFp, S_WritesRc,
       S_WritesFp, S_FpTrap] Fbox ''SQRTF_S''),
    (0x4aa, grainEntry (Fp execSqrtgS) [S_FpFormat, S_ReadsRb, S_ReadsFp, S_WritesRc,
       S_WritesFp, S_FpTrap] Fbox ''SQRTG_S''),
    (0x50a, grainEntry (Fp execSqrtfSuc) [S_FpFormat, S_ReadsRb, S_ReadsFp, S_WritesRc,
       S_WritesFp, S_FpTrap] Fbox ''SQRTF_SUC''),
    (0x50b, grainEntry (Fp execSqrtsSuc) [S_FpFormat, S_ReadsRb, S_ReadsFp, S_WritesRc,
       S_WritesFp, S_FpTrap] Fbox ''SQRTS_SUC''),
    (0x52a, grainEntry (Fp execSqrtgSuc) [S_FpFormat, S_ReadsRb, S_ReadsFp, S_WritesRc,
       S_WritesFp, S_FpTrap] Fbox ''SQRTG_SUC''),
    (0x52b, grainEntry (Fp execSqrttSuc) [S_FpFormat, S_ReadsRb, S_ReadsFp, S_WritesRc,
       S_WritesFp, S_FpTrap] Fbox ''SQRTT_SUC''),
    (0x54b, grainEntry (Fp execSqrtsSum) [S_FpFormat, S_ReadsRb, S_ReadsFp, S_WritesRc,
       S_WritesFp, S_FpTrap] Fbox ''SQRTS_SUM''),
    (0x56b, grainEntry (Fp execSqrttSum) [S_FpFormat, S_ReadsRb, S_ReadsFp, S_WritesRc,
       S_WritesFp, S_FpTrap] Fbox ''SQRTT_SUM''),
    (0x58a, grainEntry (Fp execSqrtfSu) [S_FpFormat, S_ReadsRb, S_ReadsFp, S_WritesRc,
       S_WritesFp, S_FpTrap] Fbox ''SQRTF_SU''),
    (0x58b, grainEntry (Fp execSqrtsSu) [S_FpFormat, S_ReadsRb, S_ReadsFp, S_WritesRc,
       S_WritesFp, S_FpTrap] Fbox ''SQRTS_SU''),
    (0x5aa, grainEntry (Fp execSqrtgSu) [S_FpFormat, S_ReadsRb, S_ReadsFp, S_WritesRc,
       S_WritesFp, S_FpTrap] Fbox ''SQRTG_SU''),
    (0x5ab, grainEntry (Fp execSqrttSu) [S_FpFormat, S_ReadsRb, S_ReadsFp, S_WritesRc,
       S_WritesFp, S_FpTrap] Fbox ''SQRTT_SU''),
    (0x5cb, grainEntry (Fp execSqrtsSud) [S_FpFormat, S_ReadsRb, S_ReadsFp, S_WritesRc,
       S_WritesFp, S_FpTrap] Fbox ''SQRTS_SUD''),
    (0x5eb, grainEntry (Fp execSqrttSud) [S_FpFormat, S_ReadsRb, S_ReadsFp, S_WritesRc,
       S_WritesFp, S_FpTrap] Fbox ''SQRTT_SUD''),
    (0x70b, grainEntry (Fp execSqrtsSuic) [S_FpFormat, S_ReadsRb, S_ReadsFp, S_WritesRc,
       S_WritesFp, S_FpTrap] Fbox ''SQRTS_SUIC''),
    (0x72b, grainEntry (Fp execSqrttSuic) [S_FpFormat, S_ReadsRb, S_ReadsFp, S_WritesRc,
       S_WritesFp, S_FpTrap] Fbox ''SQRTT_SUIC''),
    (0x74b, grainEntry (Fp execSqrtsSuim) [S_FpFormat, S_ReadsRb, S_ReadsFp, S_WritesRc,
       S_WritesFp, S_FpTrap] Fbox ''SQRTS_SUIM''),
    (0x76b, grainEntry (Fp execSqrttSuim) [S_FpFormat, S_ReadsRb, S_ReadsFp, S_WritesRc,
       S_WritesFp, S_FpTrap] Fbox ''SQRTT_SUIM''),
    (0x78b, grainEntry (Fp execSqrtsSui) [S_FpFormat, S_ReadsRb, S_ReadsFp, S_WritesRc,
       S_WritesFp, S_FpTrap] Fbox ''SQRTS_SUI''),
    (0x7ab, grainEntry (Fp execSqrttSui) [S_FpFormat, S_ReadsRb, S_ReadsFp, S_WritesRc,
       S_WritesFp, S_FpTrap] Fbox ''SQRTT_SUI''),
    (0x7cb, grainEntry (Fp execSqrtsSuid) [S_FpFormat, S_ReadsRb, S_ReadsFp, S_WritesRc,
       S_WritesFp, S_FpTrap] Fbox ''SQRTS_SUID''),
    (0x7eb, grainEntry (Fp execSqrttSuid) [S_FpFormat, S_ReadsRb, S_ReadsFp, S_WritesRc,
       S_WritesFp, S_FpTrap] Fbox ''SQRTT_SUID'')]"

definition g_fltVaxSubTable :: subtable where
  "g_fltVaxSubTable =
   [(0x0, grainEntry (Fp execAddfC) [S_FpFormat, S_ReadsRa, S_ReadsRb, S_ReadsFp,
       S_WritesRc, S_WritesFp, S_FpTrap] Fbox ''ADDF_C''),
    (0x1, grainEntry (Fp execSubfC) [S_FpFormat, S_ReadsRa, S_ReadsRb, S_ReadsFp,
       S_WritesRc, S_WritesFp, S_FpTrap] Fbox ''SUBF_C''),
    (0x2, grainEntry (Fp execMulfC) [S_FpFormat, S_ReadsRa, S_ReadsRb, S_ReadsFp,
       S_WritesRc, S_WritesFp, S_FpTrap] Fbox ''MULF_C''),
    (0x3, grainEntry (Fp execDivfC) [S_FpFormat, S_ReadsRa, S_ReadsRb, S_ReadsFp,
       S_WritesRc, S_WritesFp, S_FpTrap] Fbox ''DIVF_C''),
    (0x1e, grainEntry (Fp execCvtdgC) [S_FpFormat, S_ReadsRb, S_ReadsFp, S_WritesRc,
       S_WritesFp, S_FpTrap] Fbox ''CVTDG_C''),
    (0x20, grainEntry (Fp execAddgC) [S_FpFormat, S_ReadsRa, S_ReadsRb, S_ReadsFp,
       S_WritesRc, S_WritesFp, S_FpTrap] Fbox ''ADDG_C''),
    (0x21, grainEntry (Fp execSubgC) [S_FpFormat, S_ReadsRa, S_ReadsRb, S_ReadsFp,
       S_WritesRc, S_WritesFp, S_FpTrap] Fbox ''SUBG_C''),
    (0x22, grainEntry (Fp execMulgC) [S_FpFormat, S_ReadsRa, S_ReadsRb, S_ReadsFp,
       S_WritesRc, S_WritesFp, S_FpTrap] Fbox ''MULG_C''),
    (0x23, grainEntry (Fp execDivgC) [S_FpFormat, S_ReadsRa, S_ReadsRb, S_ReadsFp,
       S_WritesRc, S_WritesFp, S_FpTrap] Fbox ''DIVG_C''),
    (0x2c, grainEntry (Fp execCvtgfC) [S_FpFormat, S_ReadsRb, S_ReadsFp, S_WritesRc,
       S_WritesFp, S_FpTrap] Fbox ''CVTGF_C''),
    (0x2d, grainEntry (Fp execCvtgdC) [S_FpFormat, S_ReadsRb, S_ReadsFp, S_WritesRc,
       S_WritesFp, S_FpTrap] Fbox ''CVTGD_C''),
    (0x2f, grainEntry (Fp execCvtgqC) [S_FpFormat, S_ReadsRb, S_ReadsFp, S_WritesRc,
       S_WritesFp, S_FpTrap] Fbox ''CVTGQ_C''),
    (0x3c, grainEntry (Fp execCvtqfC) [S_FpFormat, S_ReadsRb, S_ReadsFp, S_WritesRc,
       S_WritesFp, S_FpTrap] Fbox ''CVTQF_C''),
    (0x3e, grainEntry (Fp execCvtqgC) [S_FpFormat, S_ReadsRb, S_ReadsFp, S_WritesRc,
       S_WritesFp, S_FpTrap] Fbox ''CVTQG_C''),
    (0x80, grainEntry (Fp execAddf) [S_FpFormat, S_ReadsRa, S_ReadsRb, S_ReadsFp,
       S_WritesRc, S_WritesFp, S_FpTrap] Fbox ''ADDF''),
    (0x81, grainEntry (Fp execSubf) [S_FpFormat, S_ReadsRa, S_ReadsRb, S_ReadsFp,
       S_WritesRc, S_WritesFp, S_FpTrap] Fbox ''SUBF''),
    (0x82, grainEntry (Fp execMulf) [S_FpFormat, S_ReadsRa, S_ReadsRb, S_ReadsFp,
       S_WritesRc, S_WritesFp, S_FpTrap] Fbox ''MULF''),
    (0x83, grainEntry (Fp execDivf) [S_FpFormat, S_ReadsRa, S_ReadsRb, S_ReadsFp,
       S_WritesRc, S_WritesFp, S_FpTrap] Fbox ''DIVF''),
    (0x9e, grainEntry (Fp execCvtdg) [S_FpFormat, S_ReadsRb, S_ReadsFp, S_WritesRc,
       S_WritesFp, S_FpTrap] Fbox ''CVTDG''),
    (0xa0, grainEntry (Fp execAddg) [S_FpFormat, S_ReadsRa, S_ReadsRb, S_ReadsFp,
       S_WritesRc, S_WritesFp, S_FpTrap] Fbox ''ADDG''),
    (0xa1, grainEntry (Fp execSubg) [S_FpFormat, S_ReadsRa, S_ReadsRb, S_ReadsFp,
       S_WritesRc, S_WritesFp, S_FpTrap] Fbox ''SUBG''),
    (0xa2, grainEntry (Fp execMulg) [S_FpFormat, S_ReadsRa, S_ReadsRb, S_ReadsFp,
       S_WritesRc, S_WritesFp, S_FpTrap] Fbox ''MULG''),
    (0xa3, grainEntry (Fp execDivg) [S_FpFormat, S_ReadsRa, S_ReadsRb, S_ReadsFp,
       S_WritesRc, S_WritesFp, S_FpTrap] Fbox ''DIVG''),
    (0xa5, grainEntry (Fp execCmpgeq) [S_FpFormat, S_ReadsRa, S_ReadsRb, S_ReadsFp,
       S_WritesRc, S_WritesFp, S_FpTrap] Fbox ''CMPGEQ''),
    (0xa6, grainEntry (Fp execCmpglt) [S_FpFormat, S_ReadsRa, S_ReadsRb, S_ReadsFp,
       S_WritesRc, S_WritesFp, S_FpTrap] Fbox ''CMPGLT''),
    (0xa7, grainEntry (Fp execCmpgle) [S_FpFormat, S_ReadsRa, S_ReadsRb, S_ReadsFp,
       S_WritesRc, S_WritesFp, S_FpTrap] Fbox ''CMPGLE''),
    (0xac, grainEntry (Fp execCvtgf) [S_FpFormat, S_ReadsRb, S_ReadsFp, S_WritesRc,
       S_WritesFp, S_FpTrap] Fbox ''CVTGF''),
    (0xad, grainEntry (Fp execCvtgd) [S_FpFormat, S_ReadsRb, S_ReadsFp, S_WritesRc,
       S_WritesFp, S_FpTrap] Fbox ''CVTGD''),
    (0xaf, grainEntry (Fp execCvtgq) [S_FpFormat, S_ReadsRb, S_ReadsFp, S_WritesRc,
       S_WritesFp, S_FpTrap] Fbox ''CVTGQ''),
    (0xbc, grainEntry (Fp execCvtqf) [S_FpFormat, S_ReadsRb, S_ReadsFp, S_WritesRc,
       S_WritesFp, S_FpTrap] Fbox ''CVTQF''),
    (0xbe, grainEntry (Fp execCvtqg) [S_FpFormat, S_ReadsRb, S_ReadsFp, S_WritesRc,
       S_WritesFp, S_FpTrap] Fbox ''CVTQG''),
    (0x100, grainEntry (Fp execAddfUc) [S_FpFormat, S_ReadsRa, S_ReadsRb, S_ReadsFp,
       S_WritesRc, S_WritesFp, S_FpTrap] Fbox ''ADDF_UC''),
    (0x101, grainEntry (Fp execSubfUc) [S_FpFormat, S_ReadsRa, S_ReadsRb, S_ReadsFp,
       S_WritesRc, S_WritesFp, S_FpTrap] Fbox ''SUBF_UC''),
    (0x102, grainEntry (Fp execMulfUc) [S_FpFormat, S_ReadsRa, S_ReadsRb, S_ReadsFp,
       S_WritesRc, S_WritesFp, S_FpTrap] Fbox ''MULF_UC''),
    (0x103, grainEntry (Fp execDivfUc) [S_FpFormat, S_ReadsRa, S_ReadsRb, S_ReadsFp,
       S_WritesRc, S_WritesFp, S_FpTrap] Fbox ''DIVF_UC''),
    (0x11e, grainEntry (Fp execCvtdgUc) [S_FpFormat, S_ReadsRb, S_ReadsFp, S_WritesRc,
       S_WritesFp, S_FpTrap] Fbox ''CVTDG_UC''),
    (0x120, grainEntry (Fp execAddgUc) [S_FpFormat, S_ReadsRa, S_ReadsRb, S_ReadsFp,
       S_WritesRc, S_WritesFp, S_FpTrap] Fbox ''ADDG_UC''),
    (0x121, grainEntry (Fp execSubgUc) [S_FpFormat, S_ReadsRa, S_ReadsRb, S_ReadsFp,
       S_WritesRc, S_WritesFp, S_FpTrap] Fbox ''SUBG_UC''),
    (0x122, grainEntry (Fp execMulgUc) [S_FpFormat, S_ReadsRa, S_ReadsRb, S_ReadsFp,
       S_WritesRc, S_WritesFp, S_FpTrap] Fbox ''MULG_UC''),
    (0x123, grainEntry (Fp execDivgUc) [S_FpFormat, S_ReadsRa, S_ReadsRb, S_ReadsFp,
       S_WritesRc, S_WritesFp, S_FpTrap] Fbox ''DIVG_UC''),
    (0x12c, grainEntry (Fp execCvtgfUc) [S_FpFormat, S_ReadsRb, S_ReadsFp, S_WritesRc,
       S_WritesFp, S_FpTrap] Fbox ''CVTGF_UC''),
    (0x12d, grainEntry (Fp execCvtgdUc) [S_FpFormat, S_ReadsRb, S_ReadsFp, S_WritesRc,
       S_WritesFp, S_FpTrap] Fbox ''CVTGD_UC''),
    (0x12f, grainEntry (Fp execCvtgqVc) [S_FpFormat, S_ReadsRb, S_ReadsFp, S_WritesRc,
       S_WritesFp, S_FpTrap] Fbox ''CVTGQ_VC''),
    (0x180, grainEntry (Fp execAddfU) [S_FpFormat, S_ReadsRa, S_ReadsRb, S_ReadsFp,
       S_WritesRc, S_WritesFp, S_FpTrap] Fbox ''ADDF_U''),
    (0x181, grainEntry (Fp execSubfU) [S_FpFormat, S_ReadsRa, S_ReadsRb, S_ReadsFp,
       S_WritesRc, S_WritesFp, S_FpTrap] Fbox ''SUBF_U''),
    (0x182, grainEntry (Fp execMulfU) [S_FpFormat, S_ReadsRa, S_ReadsRb, S_ReadsFp,
       S_WritesRc, S_WritesFp, S_FpTrap] Fbox ''MULF_U''),
    (0x183, grainEntry (Fp execDivfU) [S_FpFormat, S_ReadsRa, S_ReadsRb, S_ReadsFp,
       S_WritesRc, S_WritesFp, S_FpTrap] Fbox ''DIVF_U''),
    (0x19e, grainEntry (Fp execCvtdgU) [S_FpFormat, S_ReadsRb, S_ReadsFp, S_WritesRc,
       S_WritesFp, S_FpTrap] Fbox ''CVTDG_U''),
    (0x1a0, grainEntry (Fp execAddgU) [S_FpFormat, S_ReadsRa, S_ReadsRb, S_ReadsFp,
       S_WritesRc, S_WritesFp, S_FpTrap] Fbox ''ADDG_U''),
    (0x1a1, grainEntry (Fp execSubgU) [S_FpFormat, S_ReadsRa, S_ReadsRb, S_ReadsFp,
       S_WritesRc, S_WritesFp, S_FpTrap] Fbox ''SUBG_U''),
    (0x1a2, grainEntry (Fp execMulgU) [S_FpFormat, S_ReadsRa, S_ReadsRb, S_ReadsFp,
       S_WritesRc, S_WritesFp, S_FpTrap] Fbox ''MULG_U''),
    (0x1a3, grainEntry (Fp execDivgU) [S_FpFormat, S_ReadsRa, S_ReadsRb, S_ReadsFp,
       S_WritesRc, S_WritesFp, S_FpTrap] Fbox ''DIVG_U''),
    (0x1ac, grainEntry (Fp execCvtgfU) [S_FpFormat, S_ReadsRb, S_ReadsFp, S_WritesRc,
       S_WritesFp, S_FpTrap] Fbox ''CVTGF_U''),
    (0x1ad, grainEntry (Fp execCvtgdU) [S_FpFormat, S_ReadsRb, S_ReadsFp, S_WritesRc,
       S_WritesFp, S_FpTrap] Fbox ''CVTGD_U''),
    (0x1af, grainEntry (Fp execCvtgqV) [S_FpFormat, S_ReadsRb, S_ReadsFp, S_WritesRc,
       S_WritesFp, S_FpTrap] Fbox ''CVTGQ_V''),
    (0x400, grainEntry (Fp execAddfSc) [S_FpFormat, S_ReadsRa, S_ReadsRb, S_ReadsFp,
       S_WritesRc, S_WritesFp, S_FpTrap] Fbox ''ADDF_SC''),
    (0x401, grainEntry (Fp execSubfSc) [S_FpFormat, S_ReadsRa, S_ReadsRb, S_ReadsFp,
       S_WritesRc, S_WritesFp, S_FpTrap] Fbox ''SUBF_SC''),
    (0x402, grainEntry (Fp execMulfSc) [S_FpFormat, S_ReadsRa, S_ReadsRb, S_ReadsFp,
       S_WritesRc, S_WritesFp, S_FpTrap] Fbox ''MULF_SC''),
    (0x403, grainEntry (Fp execDivfSc) [S_FpFormat, S_ReadsRa, S_ReadsRb, S_ReadsFp,
       S_WritesRc, S_WritesFp, S_FpTrap] Fbox ''DIVF_SC''),
    (0x41e, grainEntry (Fp execCvtdgSc) [S_FpFormat, S_ReadsRb, S_ReadsFp, S_WritesRc,
       S_WritesFp, S_FpTrap] Fbox ''CVTDG_SC''),
    (0x420, grainEntry (Fp execAddgSc) [S_FpFormat, S_ReadsRa, S_ReadsRb, S_ReadsFp,
       S_WritesRc, S_WritesFp, S_FpTrap] Fbox ''ADDG_SC''),
    (0x421, grainEntry (Fp execSubgSc) [S_FpFormat, S_ReadsRa, S_ReadsRb, S_ReadsFp,
       S_WritesRc, S_WritesFp, S_FpTrap] Fbox ''SUBG_SC''),
    (0x422, grainEntry (Fp execMulgSc) [S_FpFormat, S_ReadsRa, S_ReadsRb, S_ReadsFp,
       S_WritesRc, S_WritesFp, S_FpTrap] Fbox ''MULG_SC''),
    (0x423, grainEntry (Fp execDivgSc) [S_FpFormat, S_ReadsRa, S_ReadsRb, S_ReadsFp,
       S_WritesRc, S_WritesFp, S_FpTrap] Fbox ''DIVG_SC''),
    (0x42c, grainEntry (Fp execCvtgfSc) [S_FpFormat, S_ReadsRb, S_ReadsFp, S_WritesRc,
       S_WritesFp, S_FpTrap] Fbox ''CVTGF_SC''),
    (0x42d, grainEntry (Fp execCvtgdSc) [S_FpFormat, S_ReadsRb, S_ReadsFp, S_WritesRc,
       S_WritesFp, S_FpTrap] Fbox ''CVTGD_SC''),
    (0x42f, grainEntry (Fp execCvtgqSc) [S_FpFormat, S_ReadsRb, S_ReadsFp, S_WritesRc,
       S_WritesFp, S_FpTrap] Fbox ''CVTGQ_SC''),
    (0x480, grainEntry (Fp execAddfS) [S_FpFormat, S_ReadsRa, S_ReadsRb, S_ReadsFp,
       S_WritesRc, S_WritesFp, S_FpTrap] Fbox ''ADDF_S''),
    (0x481, grainEntry (Fp execSubfS) [S_FpFormat, S_ReadsRa, S_ReadsRb, S_ReadsFp,
       S_WritesRc, S_WritesFp, S_FpTrap] Fbox ''SUBF_S''),
    (0x482, grainEntry (Fp execMulfS) [S_FpFormat, S_ReadsRa, S_ReadsRb, S_ReadsFp,
       S_WritesRc, S_WritesFp, S_FpTrap] Fbox ''MULF_S''),
    (0x483, grainEntry (Fp execDivfS) [S_FpFormat, S_ReadsRa, S_ReadsRb, S_ReadsFp,
       S_WritesRc, S_WritesFp, S_FpTrap] Fbox ''DIVF_S''),
    (0x49e, grainEntry (Fp execCvtdgS) [S_FpFormat, S_ReadsRb, S_ReadsFp, S_WritesRc,
       S_WritesFp, S_FpTrap] Fbox ''CVTDG_S''),
    (0x4a0, grainEntry (Fp execAddgS) [S_FpFormat, S_ReadsRa, S_ReadsRb, S_ReadsFp,
       S_WritesRc, S_WritesFp, S_FpTrap] Fbox ''ADDG_S''),
    (0x4a1, grainEntry (Fp execSubgS) [S_FpFormat, S_ReadsRa, S_ReadsRb, S_ReadsFp,
       S_WritesRc, S_WritesFp, S_FpTrap] Fbox ''SUBG_S''),
    (0x4a2, grainEntry (Fp execMulgS) [S_FpFormat, S_ReadsRa, S_ReadsRb, S_ReadsFp,
       S_WritesRc, S_WritesFp, S_FpTrap] Fbox ''MULG_S''),
    (0x4a3, grainEntry (Fp execDivgS) [S_FpFormat, S_ReadsRa, S_ReadsRb, S_ReadsFp,
       S_WritesRc, S_WritesFp, S_FpTrap] Fbox ''DIVG_S''),
    (0x4a5, grainEntry (Fp execCmpgeqS) [S_FpFormat, S_ReadsRa, S_ReadsRb, S_ReadsFp,
       S_WritesRc, S_WritesFp, S_FpTrap] Fbox ''CMPGEQ_S''),
    (0x4a6, grainEntry (Fp execCmpgltS) [S_FpFormat, S_ReadsRa, S_ReadsRb, S_ReadsFp,
       S_WritesRc, S_WritesFp, S_FpTrap] Fbox ''CMPGLT_S''),
    (0x4a7, grainEntry (Fp execCmpgleS) [S_FpFormat, S_ReadsRa, S_ReadsRb, S_ReadsFp,
       S_WritesRc, S_WritesFp, S_FpTrap] Fbox ''CMPGLE_S''),
    (0x4ac, grainEntry (Fp execCvtgfS) [S_FpFormat, S_ReadsRb, S_ReadsFp, S_WritesRc,
       S_WritesFp, S_FpTrap] Fbox ''CVTGF_S''),
    (0x4ad, grainEntry (Fp execCvtgdS) [S_FpFormat, S_ReadsRb, S_ReadsFp, S_WritesRc,
       S_WritesFp, S_FpTrap] Fbox ''CVTGD_S''),
    (0x4af, grainEntry (Fp execCvtgqS) [S_FpFormat, S_ReadsRb, S_ReadsFp, S_WritesRc,
       S_WritesFp, S_FpTrap] Fbox ''CVTGQ_S''),
    (0x500, grainEntry (Fp execAddfSuc) [S_FpFormat, S_ReadsRa, S_ReadsRb, S_ReadsFp,
       S_WritesRc, S_WritesFp, S_FpTrap] Fbox ''ADDF_SUC''),
    (0x501, grainEntry (Fp execSubfSuc) [S_FpFormat, S_ReadsRa, S_ReadsRb, S_ReadsFp,
       S_WritesRc, S_WritesFp, S_FpTrap] Fbox ''SUBF_SUC''),
    (0x502, grainEntry (Fp execMulfSuc) [S_FpFormat, S_ReadsRa, S_ReadsRb, S_ReadsFp,
       S_WritesRc, S_WritesFp, S_FpTrap] Fbox ''MULF_SUC''),
    (0x503, grainEntry (Fp execDivfSuc) [S_FpFormat, S_ReadsRa, S_ReadsRb, S_ReadsFp,
       S_WritesRc, S_WritesFp, S_FpTrap] Fbox ''DIVF_SUC''),
    (0x51e, grainEntry (Fp execCvtdgSuc) [S_FpFormat, S_ReadsRb, S_ReadsFp, S_WritesRc,
       S_WritesFp, S_FpTrap] Fbox ''CVTDG_SUC''),
    (0x520, grainEntry (Fp execAddgSuc) [S_FpFormat, S_ReadsRa, S_ReadsRb, S_ReadsFp,
       S_WritesRc, S_WritesFp, S_FpTrap] Fbox ''ADDG_SUC''),
    (0x521, grainEntry (Fp execSubgSuc) [S_FpFormat, S_ReadsRa, S_ReadsRb, S_ReadsFp,
       S_WritesRc, S_WritesFp, S_FpTrap] Fbox ''SUBG_SUC''),
    (0x522, grainEntry (Fp execMulgSuc) [S_FpFormat, S_ReadsRa, S_ReadsRb, S_ReadsFp,
       S_WritesRc, S_WritesFp, S_FpTrap] Fbox ''MULG_SUC''),
    (0x523, grainEntry (Fp execDivgSuc) [S_FpFormat, S_ReadsRa, S_ReadsRb, S_ReadsFp,
       S_WritesRc, S_WritesFp, S_FpTrap] Fbox ''DIVG_SUC''),
    (0x52c, grainEntry (Fp execCvtgfSuc) [S_FpFormat, S_ReadsRb, S_ReadsFp, S_WritesRc,
       S_WritesFp, S_FpTrap] Fbox ''CVTGF_SUC''),
    (0x52d, grainEntry (Fp execCvtgdSuc) [S_FpFormat, S_ReadsRb, S_ReadsFp, S_WritesRc,
       S_WritesFp, S_FpTrap] Fbox ''CVTGD_SUC''),
    (0x52f, grainEntry (Fp execCvtgqSvc) [S_FpFormat, S_ReadsRb, S_ReadsFp, S_WritesRc,
       S_WritesFp, S_FpTrap] Fbox ''CVTGQ_SVC''),
    (0x580, grainEntry (Fp execAddfSu) [S_FpFormat, S_ReadsRa, S_ReadsRb, S_ReadsFp,
       S_WritesRc, S_WritesFp, S_FpTrap] Fbox ''ADDF_SU''),
    (0x581, grainEntry (Fp execSubfSu) [S_FpFormat, S_ReadsRa, S_ReadsRb, S_ReadsFp,
       S_WritesRc, S_WritesFp, S_FpTrap] Fbox ''SUBF_SU''),
    (0x582, grainEntry (Fp execMulfSu) [S_FpFormat, S_ReadsRa, S_ReadsRb, S_ReadsFp,
       S_WritesRc, S_WritesFp, S_FpTrap] Fbox ''MULF_SU''),
    (0x583, grainEntry (Fp execDivfSu) [S_FpFormat, S_ReadsRa, S_ReadsRb, S_ReadsFp,
       S_WritesRc, S_WritesFp, S_FpTrap] Fbox ''DIVF_SU''),
    (0x59e, grainEntry (Fp execCvtdgSu) [S_FpFormat, S_ReadsRb, S_ReadsFp, S_WritesRc,
       S_WritesFp, S_FpTrap] Fbox ''CVTDG_SU''),
    (0x5a0, grainEntry (Fp execAddgSu) [S_FpFormat, S_ReadsRa, S_ReadsRb, S_ReadsFp,
       S_WritesRc, S_WritesFp, S_FpTrap] Fbox ''ADDG_SU''),
    (0x5a1, grainEntry (Fp execSubgSu) [S_FpFormat, S_ReadsRa, S_ReadsRb, S_ReadsFp,
       S_WritesRc, S_WritesFp, S_FpTrap] Fbox ''SUBG_SU''),
    (0x5a2, grainEntry (Fp execMulgSu) [S_FpFormat, S_ReadsRa, S_ReadsRb, S_ReadsFp,
       S_WritesRc, S_WritesFp, S_FpTrap] Fbox ''MULG_SU''),
    (0x5a3, grainEntry (Fp execDivgSu) [S_FpFormat, S_ReadsRa, S_ReadsRb, S_ReadsFp,
       S_WritesRc, S_WritesFp, S_FpTrap] Fbox ''DIVG_SU''),
    (0x5ac, grainEntry (Fp execCvtgfSu) [S_FpFormat, S_ReadsRb, S_ReadsFp, S_WritesRc,
       S_WritesFp, S_FpTrap] Fbox ''CVTGF_SU''),
    (0x5ad, grainEntry (Fp execCvtgdSu) [S_FpFormat, S_ReadsRb, S_ReadsFp, S_WritesRc,
       S_WritesFp, S_FpTrap] Fbox ''CVTGD_SU''),
    (0x5af, grainEntry (Fp execCvtgqSv) [S_FpFormat, S_ReadsRb, S_ReadsFp, S_WritesRc,
       S_WritesFp, S_FpTrap] Fbox ''CVTGQ_SV'')]"

definition g_fltIeeeSubTable :: subtable where
  "g_fltIeeeSubTable =
   [(0x0, grainEntry (Fp execAdds) [S_FpFormat, S_ReadsRa, S_ReadsRb, S_ReadsFp, S_WritesRc,
       S_WritesFp, S_FpTrap] Fbox ''ADDS_C''),
    (0x1, grainEntry (Fp execSubs) [S_FpFormat, S_ReadsRa, S_ReadsRb, S_ReadsFp, S_WritesRc,
       S_WritesFp, S_FpTrap] Fbox ''SUBS_C''),
    (0x2, grainEntry (Fp execMuls) [S_FpFormat, S_ReadsRa, S_ReadsRb, S_ReadsFp, S_WritesRc,
       S_WritesFp, S_FpTrap] Fbox ''MULS_C''),
    (0x3, grainEntry (Fp execDivs) [S_FpFormat, S_ReadsRa, S_ReadsRb, S_ReadsFp, S_WritesRc,
       S_WritesFp, S_FpTrap] Fbox ''DIVS_C''),
    (0x20, grainEntry (Fp execAddt) [S_FpFormat, S_ReadsRa, S_ReadsRb, S_ReadsFp,
       S_WritesRc, S_WritesFp, S_FpTrap] Fbox ''ADDT_C''),
    (0x21, grainEntry (Fp execSubt) [S_FpFormat, S_ReadsRa, S_ReadsRb, S_ReadsFp,
       S_WritesRc, S_WritesFp, S_FpTrap] Fbox ''SUBT_C''),
    (0x22, grainEntry (Fp execMult) [S_FpFormat, S_ReadsRa, S_ReadsRb, S_ReadsFp,
       S_WritesRc, S_WritesFp, S_FpTrap] Fbox ''MULT_C''),
    (0x23, grainEntry (Fp execDivt) [S_FpFormat, S_ReadsRa, S_ReadsRb, S_ReadsFp,
       S_WritesRc, S_WritesFp, S_FpTrap] Fbox ''DIVT_C''),
    (0x2c, grainEntry (Fp execCvttsC) [S_FpFormat, S_ReadsRb, S_ReadsFp, S_WritesRc,
       S_WritesFp, S_FpTrap] Fbox ''CVTTS_C''),
    (0x2f, grainEntry (Fp execCvttqC) [S_FpFormat, S_ReadsRb, S_ReadsFp, S_WritesRc,
       S_WritesFp, S_FpTrap] Fbox ''CVTTQ_C''),
    (0x3c, grainEntry (Fp execCvtqsC) [S_FpFormat, S_ReadsRb, S_ReadsFp, S_WritesRc,
       S_WritesFp, S_FpTrap] Fbox ''CVTQS_C''),
    (0x3e, grainEntry (Fp execCvtqtC) [S_FpFormat, S_ReadsRb, S_ReadsFp, S_WritesRc,
       S_WritesFp, S_FpTrap] Fbox ''CVTQT_C''),
    (0x40, grainEntry (Fp execAdds) [S_FpFormat, S_ReadsRa, S_ReadsRb, S_ReadsFp,
       S_WritesRc, S_WritesFp, S_FpTrap] Fbox ''ADDS_M''),
    (0x41, grainEntry (Fp execSubs) [S_FpFormat, S_ReadsRa, S_ReadsRb, S_ReadsFp,
       S_WritesRc, S_WritesFp, S_FpTrap] Fbox ''SUBS_M''),
    (0x42, grainEntry (Fp execMuls) [S_FpFormat, S_ReadsRa, S_ReadsRb, S_ReadsFp,
       S_WritesRc, S_WritesFp, S_FpTrap] Fbox ''MULS_M''),
    (0x43, grainEntry (Fp execDivs) [S_FpFormat, S_ReadsRa, S_ReadsRb, S_ReadsFp,
       S_WritesRc, S_WritesFp, S_FpTrap] Fbox ''DIVS_M''),
    (0x60, grainEntry (Fp execAddt) [S_FpFormat, S_ReadsRa, S_ReadsRb, S_ReadsFp,
       S_WritesRc, S_WritesFp, S_FpTrap] Fbox ''ADDT_M''),
    (0x61, grainEntry (Fp execSubt) [S_FpFormat, S_ReadsRa, S_ReadsRb, S_ReadsFp,
       S_WritesRc, S_WritesFp, S_FpTrap] Fbox ''SUBT_M''),
    (0x62, grainEntry (Fp execMult) [S_FpFormat, S_ReadsRa, S_ReadsRb, S_ReadsFp,
       S_WritesRc, S_WritesFp, S_FpTrap] Fbox ''MULT_M''),
    (0x63, grainEntry (Fp execDivt) [S_FpFormat, S_ReadsRa, S_ReadsRb, S_ReadsFp,
       S_WritesRc, S_WritesFp, S_FpTrap] Fbox ''DIVT_M''),
    (0x6c, grainEntry (Fp execCvttsM) [S_FpFormat, S_ReadsRb, S_ReadsFp, S_WritesRc,
       S_WritesFp, S_FpTrap] Fbox ''CVTTS_M''),
    (0x6f, grainEntry (Fp execCvttqM) [S_FpFormat, S_ReadsRb, S_ReadsFp, S_WritesRc,
       S_WritesFp, S_FpTrap] Fbox ''CVTTQ_M''),
    (0x7c, grainEntry (Fp execCvtqsM) [S_FpFormat, S_ReadsRb, S_ReadsFp, S_WritesRc,
       S_WritesFp, S_FpTrap] Fbox ''CVTQS_M''),
    (0x7e, grainEntry (Fp execCvtqtM) [S_FpFormat, S_ReadsRb, S_ReadsFp, S_WritesRc,
       S_WritesFp, S_FpTrap] Fbox ''CVTQT_M''),
    (0x80, grainEntry (Fp execAdds) [S_FpFormat, S_ReadsRa, S_ReadsRb, S_ReadsFp,
       S_WritesRc, S_WritesFp, S_FpTrap] Fbox ''ADDS''),
    (0x81, grainEntry (Fp execSubs) [S_FpFormat, S_ReadsRa, S_ReadsRb, S_ReadsFp,
       S_WritesRc, S_WritesFp, S_FpTrap] Fbox ''SUBS''),
    (0x82, grainEntry (Fp execMuls) [S_FpFormat, S_ReadsRa, S_ReadsRb, S_ReadsFp,
       S_WritesRc, S_WritesFp, S_FpTrap] Fbox ''MULS''),
    (0x83, grainEntry (Fp execDivs) [S_FpFormat, S_ReadsRa, S_ReadsRb, S_ReadsFp,
       S_WritesRc, S_WritesFp, S_FpTrap] Fbox ''DIVS''),
    (0xa0, grainEntry (Fp execAddt) [S_FpFormat, S_ReadsRa, S_ReadsRb, S_ReadsFp,
       S_WritesRc, S_WritesFp, S_FpTrap] Fbox ''ADDT''),
    (0xa1, grainEntry (Fp execSubt) [S_FpFormat, S_ReadsRa, S_ReadsRb, S_ReadsFp,
       S_WritesRc, S_WritesFp, S_FpTrap] Fbox ''SUBT''),
    (0xa2, grainEntry (Fp execMult) [S_FpFormat, S_ReadsRa, S_ReadsRb, S_ReadsFp,
       S_WritesRc, S_WritesFp, S_FpTrap] Fbox ''MULT''),
    (0xa3, grainEntry (Fp execDivt) [S_FpFormat, S_ReadsRa, S_ReadsRb, S_ReadsFp,
       S_WritesRc, S_WritesFp, S_FpTrap] Fbox ''DIVT''),
    (0xa4, grainEntry (Fp execCmptun) [S_FpFormat, S_ReadsRa, S_ReadsRb, S_ReadsFp,
       S_WritesRc, S_WritesFp, S_FpTrap] Fbox ''CMPTUN''),
    (0xa5, grainEntry (Fp execCmpteq) [S_FpFormat, S_ReadsRa, S_ReadsRb, S_ReadsFp,
       S_WritesRc, S_WritesFp, S_FpTrap] Fbox ''CMPTEQ''),
    (0xa6, grainEntry (Fp execCmptlt) [S_FpFormat, S_ReadsRa, S_ReadsRb, S_ReadsFp,
       S_WritesRc, S_WritesFp, S_FpTrap] Fbox ''CMPTLT''),
    (0xa7, grainEntry (Fp execCmptle) [S_FpFormat, S_ReadsRa, S_ReadsRb, S_ReadsFp,
       S_WritesRc, S_WritesFp, S_FpTrap] Fbox ''CMPTLE''),
    (0xac, grainEntry (Fp execCvtts) [S_FpFormat, S_ReadsRb, S_ReadsFp, S_WritesRc,
       S_WritesFp, S_FpTrap] Fbox ''CVTTS''),
    (0xaf, grainEntry (Fp execCvttq) [S_FpFormat, S_ReadsRb, S_ReadsFp, S_WritesRc,
       S_WritesFp, S_FpTrap] Fbox ''CVTTQ''),
    (0xbc, grainEntry (Fp execCvtqs) [S_FpFormat, S_ReadsRb, S_ReadsFp, S_WritesRc,
       S_WritesFp, S_FpTrap] Fbox ''CVTQS''),
    (0xbe, grainEntry (Fp execCvtqt) [S_FpFormat, S_ReadsRb, S_ReadsFp, S_WritesRc,
       S_WritesFp, S_FpTrap] Fbox ''CVTQT''),
    (0xc0, grainEntry (Fp execAdds) [S_FpFormat, S_ReadsRa, S_ReadsRb, S_ReadsFp,
       S_WritesRc, S_WritesFp, S_FpTrap] Fbox ''ADDS_D''),
    (0xc1, grainEntry (Fp execSubs) [S_FpFormat, S_ReadsRa, S_ReadsRb, S_ReadsFp,
       S_WritesRc, S_WritesFp, S_FpTrap] Fbox ''SUBS_D''),
    (0xc2, grainEntry (Fp execMuls) [S_FpFormat, S_ReadsRa, S_ReadsRb, S_ReadsFp,
       S_WritesRc, S_WritesFp, S_FpTrap] Fbox ''MULS_D''),
    (0xc3, grainEntry (Fp execDivs) [S_FpFormat, S_ReadsRa, S_ReadsRb, S_ReadsFp,
       S_WritesRc, S_WritesFp, S_FpTrap] Fbox ''DIVS_D''),
    (0xe0, grainEntry (Fp execAddt) [S_FpFormat, S_ReadsRa, S_ReadsRb, S_ReadsFp,
       S_WritesRc, S_WritesFp, S_FpTrap] Fbox ''ADDT_D''),
    (0xe1, grainEntry (Fp execSubt) [S_FpFormat, S_ReadsRa, S_ReadsRb, S_ReadsFp,
       S_WritesRc, S_WritesFp, S_FpTrap] Fbox ''SUBT_D''),
    (0xe2, grainEntry (Fp execMult) [S_FpFormat, S_ReadsRa, S_ReadsRb, S_ReadsFp,
       S_WritesRc, S_WritesFp, S_FpTrap] Fbox ''MULT_D''),
    (0xe3, grainEntry (Fp execDivt) [S_FpFormat, S_ReadsRa, S_ReadsRb, S_ReadsFp,
       S_WritesRc, S_WritesFp, S_FpTrap] Fbox ''DIVT_D''),
    (0xec, grainEntry (Fp execCvttsD) [S_FpFormat, S_ReadsRb, S_ReadsFp, S_WritesRc,
       S_WritesFp, S_FpTrap] Fbox ''CVTTS_D''),
    (0xef, grainEntry (Fp execCvttqD) [S_FpFormat, S_ReadsRb, S_ReadsFp, S_WritesRc,
       S_WritesFp, S_FpTrap] Fbox ''CVTTQ_D''),
    (0xfc, grainEntry (Fp execCvtqsD) [S_FpFormat, S_ReadsRb, S_ReadsFp, S_WritesRc,
       S_WritesFp, S_FpTrap] Fbox ''CVTQS_D''),
    (0xfe, grainEntry (Fp execCvtqtD) [S_FpFormat, S_ReadsRb, S_ReadsFp, S_WritesRc,
       S_WritesFp, S_FpTrap] Fbox ''CVTQT_D''),
    (0x100, grainEntry (Fp execAdds) [S_FpFormat, S_ReadsRa, S_ReadsRb, S_ReadsFp,
       S_WritesRc, S_WritesFp, S_FpTrap] Fbox ''ADDS_UC''),
    (0x101, grainEntry (Fp execSubs) [S_FpFormat, S_ReadsRa, S_ReadsRb, S_ReadsFp,
       S_WritesRc, S_WritesFp, S_FpTrap] Fbox ''SUBS_UC''),
    (0x102, grainEntry (Fp execMuls) [S_FpFormat, S_ReadsRa, S_ReadsRb, S_ReadsFp,
       S_WritesRc, S_WritesFp, S_FpTrap] Fbox ''MULS_UC''),
    (0x103, grainEntry (Fp execDivs) [S_FpFormat, S_ReadsRa, S_ReadsRb, S_ReadsFp,
       S_WritesRc, S_WritesFp, S_FpTrap] Fbox ''DIVS_UC''),
    (0x120, grainEntry (Fp execAddt) [S_FpFormat, S_ReadsRa, S_ReadsRb, S_ReadsFp,
       S_WritesRc, S_WritesFp, S_FpTrap] Fbox ''ADDT_UC''),
    (0x121, grainEntry (Fp execSubt) [S_FpFormat, S_ReadsRa, S_ReadsRb, S_ReadsFp,
       S_WritesRc, S_WritesFp, S_FpTrap] Fbox ''SUBT_UC''),
    (0x122, grainEntry (Fp execMult) [S_FpFormat, S_ReadsRa, S_ReadsRb, S_ReadsFp,
       S_WritesRc, S_WritesFp, S_FpTrap] Fbox ''MULT_UC''),
    (0x123, grainEntry (Fp execDivt) [S_FpFormat, S_ReadsRa, S_ReadsRb, S_ReadsFp,
       S_WritesRc, S_WritesFp, S_FpTrap] Fbox ''DIVT_UC''),
    (0x12c, grainEntry (Fp execCvttsUc) [S_FpFormat, S_ReadsRb, S_ReadsFp, S_WritesRc,
       S_WritesFp, S_FpTrap] Fbox ''CVTTS_UC''),
    (0x12f, grainEntry (Fp execCvttqVc) [S_FpFormat, S_ReadsRb, S_ReadsFp, S_WritesRc,
       S_WritesFp, S_FpTrap] Fbox ''CVTTQ_VC''),
    (0x140, grainEntry (Fp execAdds) [S_FpFormat, S_ReadsRa, S_ReadsRb, S_ReadsFp,
       S_WritesRc, S_WritesFp, S_FpTrap] Fbox ''ADDS_UM''),
    (0x141, grainEntry (Fp execSubs) [S_FpFormat, S_ReadsRa, S_ReadsRb, S_ReadsFp,
       S_WritesRc, S_WritesFp, S_FpTrap] Fbox ''SUBS_UM''),
    (0x142, grainEntry (Fp execMuls) [S_FpFormat, S_ReadsRa, S_ReadsRb, S_ReadsFp,
       S_WritesRc, S_WritesFp, S_FpTrap] Fbox ''MULS_UM''),
    (0x143, grainEntry (Fp execDivs) [S_FpFormat, S_ReadsRa, S_ReadsRb, S_ReadsFp,
       S_WritesRc, S_WritesFp, S_FpTrap] Fbox ''DIVS_UM''),
    (0x160, grainEntry (Fp execAddt) [S_FpFormat, S_ReadsRa, S_ReadsRb, S_ReadsFp,
       S_WritesRc, S_WritesFp, S_FpTrap] Fbox ''ADDT_UM''),
    (0x161, grainEntry (Fp execSubt) [S_FpFormat, S_ReadsRa, S_ReadsRb, S_ReadsFp,
       S_WritesRc, S_WritesFp, S_FpTrap] Fbox ''SUBT_UM''),
    (0x162, grainEntry (Fp execMult) [S_FpFormat, S_ReadsRa, S_ReadsRb, S_ReadsFp,
       S_WritesRc, S_WritesFp, S_FpTrap] Fbox ''MULT_UM''),
    (0x163, grainEntry (Fp execDivt) [S_FpFormat, S_ReadsRa, S_ReadsRb, S_ReadsFp,
       S_WritesRc, S_WritesFp, S_FpTrap] Fbox ''DIVT_UM''),
    (0x16c, grainEntry (Fp execCvttsUm) [S_FpFormat, S_ReadsRb, S_ReadsFp, S_WritesRc,
       S_WritesFp, S_FpTrap] Fbox ''CVTTS_UM''),
    (0x16f, grainEntry (Fp execCvttqVm) [S_FpFormat, S_ReadsRb, S_ReadsFp, S_WritesRc,
       S_WritesFp, S_FpTrap] Fbox ''CVTTQ_VM''),
    (0x180, grainEntry (Fp execAdds) [S_FpFormat, S_ReadsRa, S_ReadsRb, S_ReadsFp,
       S_WritesRc, S_WritesFp, S_FpTrap] Fbox ''ADDS_U''),
    (0x181, grainEntry (Fp execSubs) [S_FpFormat, S_ReadsRa, S_ReadsRb, S_ReadsFp,
       S_WritesRc, S_WritesFp, S_FpTrap] Fbox ''SUBS_U''),
    (0x182, grainEntry (Fp execMuls) [S_FpFormat, S_ReadsRa, S_ReadsRb, S_ReadsFp,
       S_WritesRc, S_WritesFp, S_FpTrap] Fbox ''MULS_U''),
    (0x183, grainEntry (Fp execDivs) [S_FpFormat, S_ReadsRa, S_ReadsRb, S_ReadsFp,
       S_WritesRc, S_WritesFp, S_FpTrap] Fbox ''DIVS_U''),
    (0x1a0, grainEntry (Fp execAddt) [S_FpFormat, S_ReadsRa, S_ReadsRb, S_ReadsFp,
       S_WritesRc, S_WritesFp, S_FpTrap] Fbox ''ADDT_U''),
    (0x1a1, grainEntry (Fp execSubt) [S_FpFormat, S_ReadsRa, S_ReadsRb, S_ReadsFp,
       S_WritesRc, S_WritesFp, S_FpTrap] Fbox ''SUBT_U''),
    (0x1a2, grainEntry (Fp execMult) [S_FpFormat, S_ReadsRa, S_ReadsRb, S_ReadsFp,
       S_WritesRc, S_WritesFp, S_FpTrap] Fbox ''MULT_U''),
    (0x1a3, grainEntry (Fp execDivt) [S_FpFormat, S_ReadsRa, S_ReadsRb, S_ReadsFp,
       S_WritesRc, S_WritesFp, S_FpTrap] Fbox ''DIVT_U''),
    (0x1ac, grainEntry (Fp execCvttsU) [S_FpFormat, S_ReadsRb, S_ReadsFp, S_WritesRc,
       S_WritesFp, S_FpTrap] Fbox ''CVTTS_U''),
    (0x1af, grainEntry (Fp execCvttqV) [S_FpFormat, S_ReadsRb, S_ReadsFp, S_WritesRc,
       S_WritesFp, S_FpTrap] Fbox ''CVTTQ_V''),
    (0x1c0, grainEntry (Fp execAdds) [S_FpFormat, S_ReadsRa, S_ReadsRb, S_ReadsFp,
       S_WritesRc, S_WritesFp, S_FpTrap] Fbox ''ADDS_UD''),
    (0x1c1, grainEntry (Fp execSubs) [S_FpFormat, S_ReadsRa, S_ReadsRb, S_ReadsFp,
       S_WritesRc, S_WritesFp, S_FpTrap] Fbox ''SUBS_UD''),
    (0x1c2, grainEntry (Fp execMuls) [S_FpFormat, S_ReadsRa, S_ReadsRb, S_ReadsFp,
       S_WritesRc, S_WritesFp, S_FpTrap] Fbox ''MULS_UD''),
    (0x1c3, grainEntry (Fp execDivs) [S_FpFormat, S_ReadsRa, S_ReadsRb, S_ReadsFp,
       S_WritesRc, S_WritesFp, S_FpTrap] Fbox ''DIVS_UD''),
    (0x1e0, grainEntry (Fp execAddt) [S_FpFormat, S_ReadsRa, S_ReadsRb, S_ReadsFp,
       S_WritesRc, S_WritesFp, S_FpTrap] Fbox ''ADDT_UD''),
    (0x1e1, grainEntry (Fp execSubt) [S_FpFormat, S_ReadsRa, S_ReadsRb, S_ReadsFp,
       S_WritesRc, S_WritesFp, S_FpTrap] Fbox ''SUBT_UD''),
    (0x1e2, grainEntry (Fp execMult) [S_FpFormat, S_ReadsRa, S_ReadsRb, S_ReadsFp,
       S_WritesRc, S_WritesFp, S_FpTrap] Fbox ''MULT_UD''),
    (0x1e3, grainEntry (Fp execDivt) [S_FpFormat, S_ReadsRa, S_ReadsRb, S_ReadsFp,
       S_WritesRc, S_WritesFp, S_FpTrap] Fbox ''DIVT_UD''),
    (0x1ec, grainEntry (Fp execCvttsUd) [S_FpFormat, S_ReadsRb, S_ReadsFp, S_WritesRc,
       S_WritesFp, S_FpTrap] Fbox ''CVTTS_UD''),
    (0x1ef, grainEntry (Fp execCvttqVd) [S_FpFormat, S_ReadsRb, S_ReadsFp, S_WritesRc,
       S_WritesFp, S_FpTrap] Fbox ''CVTTQ_VD''),
    (0x2ac, grainEntry (Fp execCvtst) [S_FpFormat, S_ReadsRb, S_ReadsFp, S_WritesRc,
       S_WritesFp, S_FpTrap] Fbox ''CVTST''),
    (0x500, grainEntry (Fp execAdds) [S_FpFormat, S_ReadsRa, S_ReadsRb, S_ReadsFp,
       S_WritesRc, S_WritesFp, S_FpTrap] Fbox ''ADDS_SUC''),
    (0x501, grainEntry (Fp execSubs) [S_FpFormat, S_ReadsRa, S_ReadsRb, S_ReadsFp,
       S_WritesRc, S_WritesFp, S_FpTrap] Fbox ''SUBS_SUC''),
    (0x502, grainEntry (Fp execMuls) [S_FpFormat, S_ReadsRa, S_ReadsRb, S_ReadsFp,
       S_WritesRc, S_WritesFp, S_FpTrap] Fbox ''MULS_SUC''),
    (0x503, grainEntry (Fp execDivs) [S_FpFormat, S_ReadsRa, S_ReadsRb, S_ReadsFp,
       S_WritesRc, S_WritesFp, S_FpTrap] Fbox ''DIVS_SUC''),
    (0x520, grainEntry (Fp execAddt) [S_FpFormat, S_ReadsRa, S_ReadsRb, S_ReadsFp,
       S_WritesRc, S_WritesFp, S_FpTrap] Fbox ''ADDT_SUC''),
    (0x521, grainEntry (Fp execSubt) [S_FpFormat, S_ReadsRa, S_ReadsRb, S_ReadsFp,
       S_WritesRc, S_WritesFp, S_FpTrap] Fbox ''SUBT_SUC''),
    (0x522, grainEntry (Fp execMult) [S_FpFormat, S_ReadsRa, S_ReadsRb, S_ReadsFp,
       S_WritesRc, S_WritesFp, S_FpTrap] Fbox ''MULT_SUC''),
    (0x523, grainEntry (Fp execDivt) [S_FpFormat, S_ReadsRa, S_ReadsRb, S_ReadsFp,
       S_WritesRc, S_WritesFp, S_FpTrap] Fbox ''DIVT_SUC''),
    (0x52c, grainEntry (Fp execCvttsSuc) [S_FpFormat, S_ReadsRb, S_ReadsFp, S_WritesRc,
       S_WritesFp, S_FpTrap] Fbox ''CVTTS_SUC''),
    (0x52f, grainEntry (Fp execCvttqSvc) [S_FpFormat, S_ReadsRb, S_ReadsFp, S_WritesRc,
       S_WritesFp, S_FpTrap] Fbox ''CVTTQ_SVC''),
    (0x540, grainEntry (Fp execAdds) [S_FpFormat, S_ReadsRa, S_ReadsRb, S_ReadsFp,
       S_WritesRc, S_WritesFp, S_FpTrap] Fbox ''ADDS_SUM''),
    (0x541, grainEntry (Fp execSubs) [S_FpFormat, S_ReadsRa, S_ReadsRb, S_ReadsFp,
       S_WritesRc, S_WritesFp, S_FpTrap] Fbox ''SUBS_SUM''),
    (0x542, grainEntry (Fp execMuls) [S_FpFormat, S_ReadsRa, S_ReadsRb, S_ReadsFp,
       S_WritesRc, S_WritesFp, S_FpTrap] Fbox ''MULS_SUM''),
    (0x543, grainEntry (Fp execDivs) [S_FpFormat, S_ReadsRa, S_ReadsRb, S_ReadsFp,
       S_WritesRc, S_WritesFp, S_FpTrap] Fbox ''DIVS_SUM''),
    (0x560, grainEntry (Fp execAddt) [S_FpFormat, S_ReadsRa, S_ReadsRb, S_ReadsFp,
       S_WritesRc, S_WritesFp, S_FpTrap] Fbox ''ADDT_SUM''),
    (0x561, grainEntry (Fp execSubt) [S_FpFormat, S_ReadsRa, S_ReadsRb, S_ReadsFp,
       S_WritesRc, S_WritesFp, S_FpTrap] Fbox ''SUBT_SUM''),
    (0x562, grainEntry (Fp execMult) [S_FpFormat, S_ReadsRa, S_ReadsRb, S_ReadsFp,
       S_WritesRc, S_WritesFp, S_FpTrap] Fbox ''MULT_SUM''),
    (0x563, grainEntry (Fp execDivt) [S_FpFormat, S_ReadsRa, S_ReadsRb, S_ReadsFp,
       S_WritesRc, S_WritesFp, S_FpTrap] Fbox ''DIVT_SUM''),
    (0x56c, grainEntry (Fp execCvttsSum) [S_FpFormat, S_ReadsRb, S_ReadsFp, S_WritesRc,
       S_WritesFp, S_FpTrap] Fbox ''CVTTS_SUM''),
    (0x56f, grainEntry (Fp execCvttqSvm) [S_FpFormat, S_ReadsRb, S_ReadsFp, S_WritesRc,
       S_WritesFp, S_FpTrap] Fbox ''CVTTQ_SVM''),
    (0x580, grainEntry (Fp execAdds) [S_FpFormat, S_ReadsRa, S_ReadsRb, S_ReadsFp,
       S_WritesRc, S_WritesFp, S_FpTrap] Fbox ''ADDS_SU''),
    (0x581, grainEntry (Fp execSubs) [S_FpFormat, S_ReadsRa, S_ReadsRb, S_ReadsFp,
       S_WritesRc, S_WritesFp, S_FpTrap] Fbox ''SUBS_SU''),
    (0x582, grainEntry (Fp execMuls) [S_FpFormat, S_ReadsRa, S_ReadsRb, S_ReadsFp,
       S_WritesRc, S_WritesFp, S_FpTrap] Fbox ''MULS_SU''),
    (0x583, grainEntry (Fp execDivs) [S_FpFormat, S_ReadsRa, S_ReadsRb, S_ReadsFp,
       S_WritesRc, S_WritesFp, S_FpTrap] Fbox ''DIVS_SU''),
    (0x5a0, grainEntry (Fp execAddt) [S_FpFormat, S_ReadsRa, S_ReadsRb, S_ReadsFp,
       S_WritesRc, S_WritesFp, S_FpTrap] Fbox ''ADDT_SU''),
    (0x5a1, grainEntry (Fp execSubt) [S_FpFormat, S_ReadsRa, S_ReadsRb, S_ReadsFp,
       S_WritesRc, S_WritesFp, S_FpTrap] Fbox ''SUBT_SU''),
    (0x5a2, grainEntry (Fp execMult) [S_FpFormat, S_ReadsRa, S_ReadsRb, S_ReadsFp,
       S_WritesRc, S_WritesFp, S_FpTrap] Fbox ''MULT_SU''),
    (0x5a3, grainEntry (Fp execDivt) [S_FpFormat, S_ReadsRa, S_ReadsRb, S_ReadsFp,
       S_WritesRc, S_WritesFp, S_FpTrap] Fbox ''DIVT_SU''),
    (0x5a4, grainEntry (Fp execCmptunSu) [S_FpFormat, S_ReadsRa, S_ReadsRb, S_ReadsFp,
       S_WritesRc, S_WritesFp, S_FpTrap] Fbox ''CMPTUN_SU''),
    (0x5a5, grainEntry (Fp execCmpteqSu) [S_FpFormat, S_ReadsRa, S_ReadsRb, S_ReadsFp,
       S_WritesRc, S_WritesFp, S_FpTrap] Fbox ''CMPTEQ_SU''),
    (0x5a6, grainEntry (Fp execCmptltSu) [S_FpFormat, S_ReadsRa, S_ReadsRb, S_ReadsFp,
       S_WritesRc, S_WritesFp, S_FpTrap] Fbox ''CMPTLT_SU''),
    (0x5a7, grainEntry (Fp execCmptleSu) [S_FpFormat, S_ReadsRa, S_ReadsRb, S_ReadsFp,
       S_WritesRc, S_WritesFp, S_FpTrap] Fbox ''CMPTLE_SU''),
    (0x5ac, grainEntry (Fp execCvttsSu) [S_FpFormat, S_ReadsRb, S_ReadsFp, S_WritesRc,
       S_WritesFp, S_FpTrap] Fbox ''CVTTS_SU''),
    (0x5af, grainEntry (Fp execCvttqSv) [S_FpFormat, S_ReadsRb, S_ReadsFp, S_WritesRc,
       S_WritesFp, S_FpTrap] Fbox ''CVTTQ_SV''),
    (0x5c0, grainEntry (Fp execAdds) [S_FpFormat, S_ReadsRa, S_ReadsRb, S_ReadsFp,
       S_WritesRc, S_WritesFp, S_FpTrap] Fbox ''ADDS_SUD''),
    (0x5c1, grainEntry (Fp execSubs) [S_FpFormat, S_ReadsRa, S_ReadsRb, S_ReadsFp,
       S_WritesRc, S_WritesFp, S_FpTrap] Fbox ''SUBS_SUD''),
    (0x5c2, grainEntry (Fp execMuls) [S_FpFormat, S_ReadsRa, S_ReadsRb, S_ReadsFp,
       S_WritesRc, S_WritesFp, S_FpTrap] Fbox ''MULS_SUD''),
    (0x5c3, grainEntry (Fp execDivs) [S_FpFormat, S_ReadsRa, S_ReadsRb, S_ReadsFp,
       S_WritesRc, S_WritesFp, S_FpTrap] Fbox ''DIVS_SUD''),
    (0x5e0, grainEntry (Fp execAddt) [S_FpFormat, S_ReadsRa, S_ReadsRb, S_ReadsFp,
       S_WritesRc, S_WritesFp, S_FpTrap] Fbox ''ADDT_SUD''),
    (0x5e1, grainEntry (Fp execSubt) [S_FpFormat, S_ReadsRa, S_ReadsRb, S_ReadsFp,
       S_WritesRc, S_WritesFp, S_FpTrap] Fbox ''SUBT_SUD''),
    (0x5e2, grainEntry (Fp execMult) [S_FpFormat, S_ReadsRa, S_ReadsRb, S_ReadsFp,
       S_WritesRc, S_WritesFp, S_FpTrap] Fbox ''MULT_SUD''),
    (0x5e3, grainEntry (Fp execDivt) [S_FpFormat, S_ReadsRa, S_ReadsRb, S_ReadsFp,
       S_WritesRc, S_WritesFp, S_FpTrap] Fbox ''DIVT_SUD''),
    (0x5ec, grainEntry (Fp execCvttsSud) [S_FpFormat, S_ReadsRb, S_ReadsFp, S_WritesRc,
       S_WritesFp, S_FpTrap] Fbox ''CVTTS_SUD''),
    (0x5ef, grainEntry (Fp execCvttqSvd) [S_FpFormat, S_ReadsRb, S_ReadsFp, S_WritesRc,
       S_WritesFp, S_FpTrap] Fbox ''CVTTQ_SVD''),
    (0x6ac, grainEntry (Fp execCvtstS) [S_FpFormat, S_ReadsRb, S_ReadsFp, S_WritesRc,
       S_WritesFp, S_FpTrap] Fbox ''CVTST_S''),
    (0x700, grainEntry (Fp execAdds) [S_FpFormat, S_ReadsRa, S_ReadsRb, S_ReadsFp,
       S_WritesRc, S_WritesFp, S_FpTrap] Fbox ''ADDS_SUIC''),
    (0x701, grainEntry (Fp execSubs) [S_FpFormat, S_ReadsRa, S_ReadsRb, S_ReadsFp,
       S_WritesRc, S_WritesFp, S_FpTrap] Fbox ''SUBS_SUIC''),
    (0x702, grainEntry (Fp execMuls) [S_FpFormat, S_ReadsRa, S_ReadsRb, S_ReadsFp,
       S_WritesRc, S_WritesFp, S_FpTrap] Fbox ''MULS_SUIC''),
    (0x703, grainEntry (Fp execDivs) [S_FpFormat, S_ReadsRa, S_ReadsRb, S_ReadsFp,
       S_WritesRc, S_WritesFp, S_FpTrap] Fbox ''DIVS_SUIC''),
    (0x720, grainEntry (Fp execAddt) [S_FpFormat, S_ReadsRa, S_ReadsRb, S_ReadsFp,
       S_WritesRc, S_WritesFp, S_FpTrap] Fbox ''ADDT_SUIC''),
    (0x721, grainEntry (Fp execSubt) [S_FpFormat, S_ReadsRa, S_ReadsRb, S_ReadsFp,
       S_WritesRc, S_WritesFp, S_FpTrap] Fbox ''SUBT_SUIC''),
    (0x722, grainEntry (Fp execMult) [S_FpFormat, S_ReadsRa, S_ReadsRb, S_ReadsFp,
       S_WritesRc, S_WritesFp, S_FpTrap] Fbox ''MULT_SUIC''),
    (0x723, grainEntry (Fp execDivt) [S_FpFormat, S_ReadsRa, S_ReadsRb, S_ReadsFp,
       S_WritesRc, S_WritesFp, S_FpTrap] Fbox ''DIVT_SUIC''),
    (0x72c, grainEntry (Fp execCvttsSuic) [S_FpFormat, S_ReadsRb, S_ReadsFp, S_WritesRc,
       S_WritesFp, S_FpTrap] Fbox ''CVTTS_SUIC''),
    (0x72f, grainEntry (Fp execCvttqSvic) [S_FpFormat, S_ReadsRb, S_ReadsFp, S_WritesRc,
       S_WritesFp, S_FpTrap] Fbox ''CVTTQ_SVIC''),
    (0x73c, grainEntry (Fp execCvtqsSuic) [S_FpFormat, S_ReadsRb, S_ReadsFp, S_WritesRc,
       S_WritesFp, S_FpTrap] Fbox ''CVTQS_SUIC''),
    (0x73e, grainEntry (Fp execCvtqtSuic) [S_FpFormat, S_ReadsRb, S_ReadsFp, S_WritesRc,
       S_WritesFp, S_FpTrap] Fbox ''CVTQT_SUIC''),
    (0x740, grainEntry (Fp execAdds) [S_FpFormat, S_ReadsRa, S_ReadsRb, S_ReadsFp,
       S_WritesRc, S_WritesFp, S_FpTrap] Fbox ''ADDS_SUIM''),
    (0x741, grainEntry (Fp execSubs) [S_FpFormat, S_ReadsRa, S_ReadsRb, S_ReadsFp,
       S_WritesRc, S_WritesFp, S_FpTrap] Fbox ''SUBS_SUIM''),
    (0x742, grainEntry (Fp execMuls) [S_FpFormat, S_ReadsRa, S_ReadsRb, S_ReadsFp,
       S_WritesRc, S_WritesFp, S_FpTrap] Fbox ''MULS_SUIM''),
    (0x743, grainEntry (Fp execDivs) [S_FpFormat, S_ReadsRa, S_ReadsRb, S_ReadsFp,
       S_WritesRc, S_WritesFp, S_FpTrap] Fbox ''DIVS_SUIM''),
    (0x760, grainEntry (Fp execAddt) [S_FpFormat, S_ReadsRa, S_ReadsRb, S_ReadsFp,
       S_WritesRc, S_WritesFp, S_FpTrap] Fbox ''ADDT_SUIM''),
    (0x761, grainEntry (Fp execSubt) [S_FpFormat, S_ReadsRa, S_ReadsRb, S_ReadsFp,
       S_WritesRc, S_WritesFp, S_FpTrap] Fbox ''SUBT_SUIM''),
    (0x762, grainEntry (Fp execMult) [S_FpFormat, S_ReadsRa, S_ReadsRb, S_ReadsFp,
       S_WritesRc, S_WritesFp, S_FpTrap] Fbox ''MULT_SUIM''),
    (0x763, grainEntry (Fp execDivt) [S_FpFormat, S_ReadsRa, S_ReadsRb, S_ReadsFp,
       S_WritesRc, S_WritesFp, S_FpTrap] Fbox ''DIVT_SUIM''),
    (0x76c, grainEntry (Fp execCvttsSuim) [S_FpFormat, S_ReadsRb, S_ReadsFp, S_WritesRc,
       S_WritesFp, S_FpTrap] Fbox ''CVTTS_SUIM''),
    (0x76f, grainEntry (Fp execCvttqSvim) [S_FpFormat, S_ReadsRb, S_ReadsFp, S_WritesRc,
       S_WritesFp, S_FpTrap] Fbox ''CVTTQ_SVIM''),
    (0x77c, grainEntry (Fp execCvtqsSuim) [S_FpFormat, S_ReadsRb, S_ReadsFp, S_WritesRc,
       S_WritesFp, S_FpTrap] Fbox ''CVTQS_SUIM''),
    (0x77e, grainEntry (Fp execCvtqtSuim) [S_FpFormat, S_ReadsRb, S_ReadsFp, S_WritesRc,
       S_WritesFp, S_FpTrap] Fbox ''CVTQT_SUIM''),
    (0x780, grainEntry (Fp execAdds) [S_FpFormat, S_ReadsRa, S_ReadsRb, S_ReadsFp,
       S_WritesRc, S_WritesFp, S_FpTrap] Fbox ''ADDS_SUI''),
    (0x781, grainEntry (Fp execSubs) [S_FpFormat, S_ReadsRa, S_ReadsRb, S_ReadsFp,
       S_WritesRc, S_WritesFp, S_FpTrap] Fbox ''SUBS_SUI''),
    (0x782, grainEntry (Fp execMuls) [S_FpFormat, S_ReadsRa, S_ReadsRb, S_ReadsFp,
       S_WritesRc, S_WritesFp, S_FpTrap] Fbox ''MULS_SUI''),
    (0x783, grainEntry (Fp execDivs) [S_FpFormat, S_ReadsRa, S_ReadsRb, S_ReadsFp,
       S_WritesRc, S_WritesFp, S_FpTrap] Fbox ''DIVS_SUI''),
    (0x7a0, grainEntry (Fp execAddt) [S_FpFormat, S_ReadsRa, S_ReadsRb, S_ReadsFp,
       S_WritesRc, S_WritesFp, S_FpTrap] Fbox ''ADDT_SUI''),
    (0x7a1, grainEntry (Fp execSubt) [S_FpFormat, S_ReadsRa, S_ReadsRb, S_ReadsFp,
       S_WritesRc, S_WritesFp, S_FpTrap] Fbox ''SUBT_SUI''),
    (0x7a2, grainEntry (Fp execMult) [S_FpFormat, S_ReadsRa, S_ReadsRb, S_ReadsFp,
       S_WritesRc, S_WritesFp, S_FpTrap] Fbox ''MULT_SUI''),
    (0x7a3, grainEntry (Fp execDivt) [S_FpFormat, S_ReadsRa, S_ReadsRb, S_ReadsFp,
       S_WritesRc, S_WritesFp, S_FpTrap] Fbox ''DIVT_SUI''),
    (0x7ac, grainEntry (Fp execCvttsSui) [S_FpFormat, S_ReadsRb, S_ReadsFp, S_WritesRc,
       S_WritesFp, S_FpTrap] Fbox ''CVTTS_SUI''),
    (0x7af, grainEntry (Fp execCvttqSvi) [S_FpFormat, S_ReadsRb, S_ReadsFp, S_WritesRc,
       S_WritesFp, S_FpTrap] Fbox ''CVTTQ_SVI''),
    (0x7bc, grainEntry (Fp execCvtqsSui) [S_FpFormat, S_ReadsRb, S_ReadsFp, S_WritesRc,
       S_WritesFp, S_FpTrap] Fbox ''CVTQS_SUI''),
    (0x7be, grainEntry (Fp execCvtqtSui) [S_FpFormat, S_ReadsRb, S_ReadsFp, S_WritesRc,
       S_WritesFp, S_FpTrap] Fbox ''CVTQT_SUI''),
    (0x7c0, grainEntry (Fp execAdds) [S_FpFormat, S_ReadsRa, S_ReadsRb, S_ReadsFp,
       S_WritesRc, S_WritesFp, S_FpTrap] Fbox ''ADDS_SUID''),
    (0x7c1, grainEntry (Fp execSubs) [S_FpFormat, S_ReadsRa, S_ReadsRb, S_ReadsFp,
       S_WritesRc, S_WritesFp, S_FpTrap] Fbox ''SUBS_SUID''),
    (0x7c2, grainEntry (Fp execMuls) [S_FpFormat, S_ReadsRa, S_ReadsRb, S_ReadsFp,
       S_WritesRc, S_WritesFp, S_FpTrap] Fbox ''MULS_SUID''),
    (0x7c3, grainEntry (Fp execDivs) [S_FpFormat, S_ReadsRa, S_ReadsRb, S_ReadsFp,
       S_WritesRc, S_WritesFp, S_FpTrap] Fbox ''DIVS_SUID''),
    (0x7e0, grainEntry (Fp execAddt) [S_FpFormat, S_ReadsRa, S_ReadsRb, S_ReadsFp,
       S_WritesRc, S_WritesFp, S_FpTrap] Fbox ''ADDT_SUID''),
    (0x7e1, grainEntry (Fp execSubt) [S_FpFormat, S_ReadsRa, S_ReadsRb, S_ReadsFp,
       S_WritesRc, S_WritesFp, S_FpTrap] Fbox ''SUBT_SUID''),
    (0x7e2, grainEntry (Fp execMult) [S_FpFormat, S_ReadsRa, S_ReadsRb, S_ReadsFp,
       S_WritesRc, S_WritesFp, S_FpTrap] Fbox ''MULT_SUID''),
    (0x7e3, grainEntry (Fp execDivt) [S_FpFormat, S_ReadsRa, S_ReadsRb, S_ReadsFp,
       S_WritesRc, S_WritesFp, S_FpTrap] Fbox ''DIVT_SUID''),
    (0x7ec, grainEntry (Fp execCvttsSuid) [S_FpFormat, S_ReadsRb, S_ReadsFp, S_WritesRc,
       S_WritesFp, S_FpTrap] Fbox ''CVTTS_SUID''),
    (0x7ef, grainEntry (Fp execCvttqSvid) [S_FpFormat, S_ReadsRb, S_ReadsFp, S_WritesRc,
       S_WritesFp, S_FpTrap] Fbox ''CVTTQ_SVID''),
    (0x7fc, grainEntry (Fp execCvtqsSuid) [S_FpFormat, S_ReadsRb, S_ReadsFp, S_WritesRc,
       S_WritesFp, S_FpTrap] Fbox ''CVTQS_SUID''),
    (0x7fe, grainEntry (Fp execCvtqtSuid) [S_FpFormat, S_ReadsRb, S_ReadsFp, S_WritesRc,
       S_WritesFp, S_FpTrap] Fbox ''CVTQT_SUID'')]"

definition g_fltLogicalSubTable :: subtable where
  "g_fltLogicalSubTable =
   [(0x10, grainEntry (Pure execCvtlq) [S_FpFormat, S_ReadsRb, S_ReadsFp, S_WritesRc,
       S_WritesFp] Fbox ''CVTLQ''),
    (0x20, grainEntry (Pure execCpys) [S_FpFormat, S_ReadsRa, S_ReadsRb, S_ReadsFp,
       S_WritesRc, S_WritesFp] Fbox ''CPYS''),
    (0x21, grainEntry (Pure execCpysn) [S_FpFormat, S_ReadsRa, S_ReadsRb, S_ReadsFp,
       S_WritesRc, S_WritesFp] Fbox ''CPYSN''),
    (0x22, grainEntry (Pure execCpyse) [S_FpFormat, S_ReadsRa, S_ReadsRb, S_ReadsFp,
       S_WritesRc, S_WritesFp] Fbox ''CPYSE''),
    (0x24, grainEntry (WithCtx execMtFpcr) [S_FpFormat, S_ReadsRa, S_ReadsFp,
       S_FpcrWrite] Fbox ''MT_FPCR''),
    (0x25, grainEntry (WithCtx execMfFpcr) [S_FpFormat, S_WritesRc, S_WritesFp,
       S_FpcrRead] Fbox ''MF_FPCR''),
    (0x2a, grainEntry (Pure execFcmoveq) [S_FpFormat, S_ReadsRa, S_ReadsRb, S_ReadsFp,
       S_WritesRc, S_WritesFp] Fbox ''FCMOVEQ''),
    (0x2b, grainEntry (Pure execFcmovne) [S_FpFormat, S_ReadsRa, S_ReadsRb, S_ReadsFp,
       S_WritesRc, S_WritesFp] Fbox ''FCMOVNE''),
    (0x2c, grainEntry (Pure execFcmovlt) [S_FpFormat, S_ReadsRa, S_ReadsRb, S_ReadsFp,
       S_WritesRc, S_WritesFp] Fbox ''FCMOVLT''),
    (0x2d, grainEntry (Pure execFcmovge) [S_FpFormat, S_ReadsRa, S_ReadsRb, S_ReadsFp,
       S_WritesRc, S_WritesFp] Fbox ''FCMOVGE''),
    (0x2e, grainEntry (Pure execFcmovle) [S_FpFormat, S_ReadsRa, S_ReadsRb, S_ReadsFp,
       S_WritesRc, S_WritesFp] Fbox ''FCMOVLE''),
    (0x2f, grainEntry (Pure execFcmovgt) [S_FpFormat, S_ReadsRa, S_ReadsRb, S_ReadsFp,
       S_WritesRc, S_WritesFp] Fbox ''FCMOVGT''),
    (0x30, grainEntry (Pure execCvtql) [S_FpFormat, S_ReadsRb, S_ReadsFp, S_WritesRc,
       S_WritesFp] Fbox ''CVTQL'')]"

definition g_jmpClassSubTable :: subtable where
  "g_jmpClassSubTable =
   [(0x0, grainEntry (Pure execJmp) [S_JmpFormat, S_ReadsRb, S_ReadsInt, S_WritesRa, S_WritesInt,
       S_ChangesPC, S_Uncond, S_Indirect] Ibox ''JMP''),
    (0x1, grainEntry (Pure execJsr) [S_JmpFormat, S_ReadsRb, S_ReadsInt, S_WritesRa, S_WritesInt,
       S_ChangesPC, S_Uncond, S_Indirect, S_CallBased] Ibox ''JSR''),
    (0x2, grainEntry (Pure execRet) [S_JmpFormat, S_ReadsRb, S_ReadsInt, S_WritesRa, S_WritesInt,
       S_ChangesPC, S_Uncond, S_Indirect, S_RetBased] Ibox ''RET''),
    (0x3, grainEntry (Pure execJsrCoroutine) [S_JmpFormat, S_ReadsRb, S_ReadsInt, S_WritesRa,
       S_WritesInt, S_ChangesPC, S_Uncond, S_Indirect, S_CallBased, S_RetBased] Ibox ''JSR_COROUTINE'')]"

definition g_fpTiExtSubTable :: subtable where
  "g_fpTiExtSubTable =
   [(0x0, grainEntry (Pure execSextb) [S_OpFormat, S_ReadsRb, S_ReadsInt, S_WritesRc,
       S_WritesInt] Ebox ''SEXTB''),
    (0x1, grainEntry (Pure execSextw) [S_OpFormat, S_ReadsRb, S_ReadsInt, S_WritesRc,
       S_WritesInt] Ebox ''SEXTW''),
    (0x30, grainEntry (Pure execCtpop) [S_OpFormat, S_ReadsRb, S_ReadsInt, S_WritesRc,
       S_WritesInt] Ebox ''CTPOP''),
    (0x31, grainEntry (Pure execPerr) [S_OpFormat, S_ReadsRa, S_ReadsRb, S_ReadsInt, S_WritesRc,
       S_WritesInt] Ebox ''PERR''),
    (0x32, grainEntry (Pure execCtlz) [S_OpFormat, S_ReadsRb, S_ReadsInt, S_WritesRc,
       S_WritesInt] Ebox ''CTLZ''),
    (0x33, grainEntry (Pure execCttz) [S_OpFormat, S_ReadsRb, S_ReadsInt, S_WritesRc,
       S_WritesInt] Ebox ''CTTZ''),
    (0x34, grainEntry (Pure execUnpkbw) [S_OpFormat, S_ReadsRb, S_ReadsInt, S_WritesRc,
       S_WritesInt] Ebox ''UNPKBW''),
    (0x35, grainEntry (Pure execUnpkbl) [S_OpFormat, S_ReadsRb, S_ReadsInt, S_WritesRc,
       S_WritesInt] Ebox ''UNPKBL''),
    (0x36, grainEntry (Pure execPkwb) [S_OpFormat, S_ReadsRb, S_ReadsInt, S_WritesRc,
       S_WritesInt] Ebox ''PKWB''),
    (0x37, grainEntry (Pure execPklb) [S_OpFormat, S_ReadsRb, S_ReadsInt, S_WritesRc,
       S_WritesInt] Ebox ''PKLB''),
    (0x38, grainEntry (Pure execMinsb8) [S_OpFormat, S_ReadsRa, S_ReadsRb, S_ReadsInt, S_WritesRc,
       S_WritesInt] Ebox ''MINSB8''),
    (0x39, grainEntry (Pure execMinsw4) [S_OpFormat, S_ReadsRa, S_ReadsRb, S_ReadsInt, S_WritesRc,
       S_WritesInt] Ebox ''MINSW4''),
    (0x3a, grainEntry (Pure execMinub8) [S_OpFormat, S_ReadsRa, S_ReadsRb, S_ReadsInt, S_WritesRc,
       S_WritesInt] Ebox ''MINUB8''),
    (0x3b, grainEntry (Pure execMinuw4) [S_OpFormat, S_ReadsRa, S_ReadsRb, S_ReadsInt, S_WritesRc,
       S_WritesInt] Ebox ''MINUW4''),
    (0x3c, grainEntry (Pure execMaxub8) [S_OpFormat, S_ReadsRa, S_ReadsRb, S_ReadsInt, S_WritesRc,
       S_WritesInt] Ebox ''MAXUB8''),
    (0x3d, grainEntry (Pure execMaxuw4) [S_OpFormat, S_ReadsRa, S_ReadsRb, S_ReadsInt, S_WritesRc,
       S_WritesInt] Ebox ''MAXUW4''),
    (0x3e, grainEntry (Pure execMaxsb8) [S_OpFormat, S_ReadsRa, S_ReadsRb, S_ReadsInt, S_WritesRc,
       S_WritesInt] Ebox ''MAXSB8''),
    (0x3f, grainEntry (Pure execMaxsw4) [S_OpFormat, S_ReadsRa, S_ReadsRb, S_ReadsInt, S_WritesRc,
       S_WritesInt] Ebox ''MAXSW4''),
    (0x70, grainEntry (Pure execFtoit) [S_OpFormat, S_ReadsRa, S_ReadsFp, S_WritesRc,
       S_WritesInt] Ebox ''FTOIT'')]"

definition lookupMisc_cases :: subtable where
  "lookupMisc_cases =
   [(0x0, grainEntry (Pure execTrapb) [S_MiscFormat, S_TrapBarrier] Cbox ''TRAPB''),
    (0x400, grainEntry (Pure execExcb) [S_MiscFormat, S_ExcBarrier] Cbox ''EXCB''),
    (0x4000, grainEntry (Pure execMb) [S_MiscFormat, S_Mb] Cbox ''MB''),
    (0x4400, grainEntry (Pure execWmb) [S_MiscFormat, S_Wmb] Cbox ''WMB''),
    (0x8000, grainEntry (Pure execFetch) [S_MiscFormat, S_ReadsRb, S_ReadsInt,
       S_PrefetchOnly] Mbox ''FETCH''),
    (0xc000, grainEntry (WithCpu (\<lambda>g cpu. (execRpcc g cpu, cpu))) [S_MiscFormat, S_WritesRa,
       S_WritesInt, S_RpccLike, S_NoTrace] Ebox ''RPCC''),
    (0xe000, grainEntry (WithCpu execRc) [S_MiscFormat, S_WritesRa, S_WritesInt, S_NoTrace] Ebox ''RC''),
    (0xe800, grainEntry (Pure execEcb) [S_MiscFormat, S_ReadsRb, S_ReadsInt, S_PrefetchOnly] Cbox ''ECB''),
    (0xf000, grainEntry (WithCpu execRs) [S_MiscFormat, S_WritesRa, S_WritesInt, S_NoTrace] Ebox ''RS'')]"

definition lookupMisc :: "u32 \<Rightarrow> GrainEntry" where
  "lookupMisc func = slot lookupMisc_cases (unat func)"

definition lookupPalTru64_cases :: subtable where
  "lookupPalTru64_cases =
   [(0x0, grainEntry (Pure execHalt) [S_PalFormat, S_PalEntry, S_ChangesPC, S_Uncond,
       S_PalTru64, S_PalVms, S_PalLinux] PalBox ''HALT''),
    (0x1, grainEntry (WithCtx execCflush) [S_PalFormat, S_PalEntry, S_ChangesPC, S_Uncond,
       S_PalTru64, S_PalVms, S_PalLinux] PalBox ''CFLUSH''),
    (0x2, grainEntry (WithCtx execDraina) [S_PalFormat, S_PalEntry, S_ChangesPC, S_Uncond,
       S_PalTru64, S_PalVms, S_PalLinux] PalBox ''DRAINA''),
    (0x9, grainEntry (WithMem execCserve) [S_PalFormat, S_PalIntrinsic, S_WritesRa, S_WritesInt,
       S_PalTru64, S_PalVms, S_PalLinux] PalBox ''CSERVE''),
    (0xa, grainEntry (WithCtx execSwppal) [S_PalFormat, S_PalEntry, S_ChangesPC, S_Uncond,
       S_PalTru64, S_PalVms, S_PalLinux] PalBox ''SWPPAL''),
    (0xd, grainEntry (WithCtx execMtprIpir) [S_PalFormat, S_PalEntry, S_ChangesPC, S_Uncond,
       S_PalTru64, S_PalVms, S_PalLinux] PalBox ''MTPR_IPIR''),
    (0x10, grainEntry (WithCtx execMfprMces) [S_PalFormat, S_PalEntry, S_ChangesPC, S_Uncond,
       S_PalTru64, S_PalVms, S_PalLinux] PalBox ''MFPR_MCES''),
    (0x11, grainEntry (WithCtx execMtprMces) [S_PalFormat, S_PalEntry, S_ChangesPC, S_Uncond,
       S_PalTru64, S_PalVms, S_PalLinux] PalBox ''MTPR_MCES''),
    (0x2b, grainEntry (WithCtx execMtprPerfmon) [S_PalFormat, S_PalEntry, S_ChangesPC, S_Uncond,
       S_PalTru64, S_PalVms, S_PalLinux] PalBox ''MTPR_PERFMON''),
    (0x2d, grainEntry (WithCtx execWrvptptr_tru64) [S_PalFormat, S_PalEntry, S_ChangesPC,
       S_Uncond, S_PalTru64, S_PalLinux] PalBox ''WRVPTPTR''),
    (0x2e, grainEntry (WithCtx execMtprDatfx) [S_PalFormat, S_PalEntry, S_ChangesPC, S_Uncond,
       S_PalTru64, S_PalVms] PalBox ''MTPR_DATFX''),
    (0x30, grainEntry (WithCtx execMfprVirbnd) [S_PalFormat, S_PalEntry, S_ChangesPC, S_Uncond,
       S_PalTru64, S_PalVms, S_PalLinux] PalBox ''MFPR_VIRBND''),
    (0x31, grainEntry (WithCtx execWrval_tru64) [S_PalFormat, S_PalEntry, S_ChangesPC, S_Uncond,
       S_PalTru64, S_PalLinux] PalBox ''WRVAL''),
    (0x32, grainEntry (WithCtx execMfprSysptbr) [S_PalFormat, S_PalEntry, S_ChangesPC, S_Uncond,
       S_PalTru64, S_PalVms, S_PalLinux] PalBox ''MFPR_SYSPTBR''),
    (0x33, grainEntry (WithCtx execTbi_tru64) [S_PalFormat, S_PalEntry, S_ChangesPC, S_Uncond,
       S_PalTru64, S_PalLinux] PalBox ''TBI''),
    (0x34, grainEntry (WithCtx execWrent_tru64) [S_PalFormat, S_PalEntry, S_ChangesPC, S_Uncond,
       S_PalTru64, S_PalLinux] PalBox ''WRENT''),
    (0x35, grainEntry (WithCtx execSwpipl_tru64) [S_PalFormat, S_PalEntry, S_ChangesPC, S_Uncond,
       S_PalTru64, S_PalLinux] PalBox ''SWPIPL''),
    (0x36, grainEntry (WithCtx execRdps_tru64) [S_PalFormat, S_PalEntry, S_ChangesPC, S_Uncond,
       S_PalTru64, S_PalLinux] PalBox ''RDPS''),
    (0x37, grainEntry (WithCtx execWrkgp_tru64) [S_PalFormat, S_PalEntry, S_ChangesPC, S_Uncond,
       S_PalTru64, S_PalLinux] PalBox ''WRKGP''),
    (0x38, grainEntry (WithCtx execWrusp_tru64) [S_PalFormat, S_PalEntry, S_ChangesPC, S_Uncond,
       S_PalTru64, S_PalLinux] PalBox ''WRUSP''),
    (0x39, grainEntry (WithCtx execWrperfmon_tru64) [S_PalFormat, S_PalEntry, S_ChangesPC,
       S_Uncond, S_PalTru64, S_PalLinux] PalBox ''WRPERFMON''),
    (0x3a, grainEntry (WithCtx execRdusp_tru64) [S_PalFormat, S_PalEntry, S_ChangesPC, S_Uncond,
       S_PalTru64, S_PalLinux] PalBox ''RDUSP''),
    (0x3c, grainEntry (WithCtx execWhami_tru64) [S_PalFormat, S_PalEntry, S_ChangesPC, S_Uncond,
       S_PalTru64, S_PalLinux] PalBox ''WHAMI''),
    (0x3d, grainEntry (WithCtx execRetsys_tru64) [S_PalFormat, S_PalEntry, S_ChangesPC, S_Uncond,
       S_PalTru64, S_PalLinux] PalBox ''RETSYS''),
    (0x3e, grainEntry (Pure execWtint) [S_PalFormat, S_PalIntrinsic, S_WritesRa, S_WritesInt,
       S_PalTru64, S_PalVms, S_PalLinux] PalBox ''WTINT''),
    (0x3f, grainEntry (WithCtx execMfprWhami) [S_PalFormat, S_PalEntry, S_ChangesPC, S_Uncond,
       S_PalTru64, S_PalVms, S_PalLinux] PalBox ''MFPR_WHAMI''),
    (0x80, grainEntry (WithCtx execBpt) [S_PalFormat, S_PalEntry, S_ChangesPC, S_Uncond,
       S_PalTru64, S_PalVms, S_PalLinux] PalBox ''BPT''),
    (0x83, grainEntry (WithCtx execChmk) [S_PalFormat, S_PalEntry, S_ChangesPC, S_Uncond,
       S_PalTru64, S_PalVms, S_PalLinux] PalBox ''CHMK''),
    (0x86, grainEntry (WithCtx execImb) [S_PalFormat, S_PalEntry, S_ChangesPC, S_Uncond,
       S_PalTru64, S_PalVms, S_PalLinux] PalBox ''IMB''),
    (0x92, grainEntry (WithCtx execRei) [S_PalFormat, S_PalEntry, S_ChangesPC, S_Uncond,
       S_PalTru64, S_PalVms] PalBox ''REI''),
    (0x9e, grainEntry (WithCtx execReadUnq) [S_PalFormat, S_PalEntry, S_ChangesPC, S_Uncond,
       S_PalTru64, S_PalVms, S_PalLinux] PalBox ''READ_UNQ''),
    (0x9f, grainEntry (WithCtx execWriteUnq) [S_PalFormat, S_PalEntry, S_ChangesPC, S_Uncond,
       S_PalTru64, S_PalVms, S_PalLinux] PalBox ''WRITE_UNQ''),
    (0xaa, grainEntry (WithCtx execGentrap) [S_PalFormat, S_PalEntry, S_ChangesPC, S_Uncond,
       S_PalTru64, S_PalVms, S_PalLinux] PalBox ''GENTRAP''),
    (0xae, grainEntry (WithCtx execClrfen) [S_PalFormat, S_PalEntry, S_ChangesPC, S_Uncond,
       S_PalTru64, S_PalVms, S_PalLinux] PalBox ''CLRFEN'')]"

definition lookupPalTru64 :: "u32 \<Rightarrow> GrainEntry" where
  "lookupPalTru64 func = (case map_of lookupPalTru64_cases (unat func) of Some e \<Rightarrow> e
     | None \<Rightarrow> grainEntry (WithCtx execCallPalDispatch) [S_PalFormat, S_PalEntry,
       S_ChangesPC, S_Uncond, S_PalTru64] PalBox ''CALL_PAL'')"

definition lookupPalVms_cases :: subtable where
  "lookupPalVms_cases =
   [(0x0, grainEntry (Pure execHalt) [S_PalFormat, S_PalEntry, S_ChangesPC, S_Uncond,
       S_PalTru64, S_PalVms, S_PalLinux] PalBox ''HALT''),
    (0x1, grainEntry (WithCtx execCflush) [S_PalFormat, S_PalEntry, S_ChangesPC, S_Uncond,
       S_PalTru64, S_PalVms, S_PalLinux] PalBox ''CFLUSH''),
    (0x2, grainEntry (WithCtx execDraina) [S_PalFormat, S_PalEntry, S_ChangesPC, S_Uncond,
       S_PalTru64, S_PalVms, S_PalLinux] PalBox ''DRAINA''),
    (0x3, grainEntry (WithCtx execLdqp_vms) [S_PalFormat, S_PalIntrinsic, S_WritesRa,
       S_WritesInt, S_PalVms] PalBox ''LDQP''),
    (0x4, grainEntry (WithCtx execStqp_vms) [S_PalFormat, S_PalIntrinsic, S_PalVms] PalBox ''STQP''),
    (0x5, grainEntry (Pure execSwpctx_vms) [S_PalFormat, S_PalIntrinsic, S_WritesRa,
       S_WritesInt, S_PalVms] PalBox ''SWPCTX''),
    (0x6, grainEntry (WithCtx execMfprAsn_vms) [S_PalFormat, S_PalEntry, S_ChangesPC, S_Uncond,
       S_PalVms] PalBox ''MFPR_ASN''),
    (0x7, grainEntry (WithCtx execMtprAsten_vms) [S_PalFormat, S_PalEntry, S_ChangesPC, S_Uncond,
       S_PalVms] PalBox ''MTPR_ASTEN''),
    (0x8, grainEntry (WithCtx execMtprAstsr_vms) [S_PalFormat, S_PalEntry, S_ChangesPC, S_Uncond,
       S_PalVms] PalBox ''MTPR_ASTSR''),
    (0x9, grainEntry (WithMem execCserve) [S_PalFormat, S_PalIntrinsic, S_WritesRa, S_WritesInt,
       S_PalTru64, S_PalVms, S_PalLinux] PalBox ''CSERVE''),
    (0xa, grainEntry (WithCtx execSwppal) [S_PalFormat, S_PalEntry, S_ChangesPC, S_Uncond,
       S_PalTru64, S_PalVms, S_PalLinux] PalBox ''SWPPAL''),
    (0xb, grainEntry (WithCtx execMfprFen_vms) [S_PalFormat, S_PalEntry, S_ChangesPC, S_Uncond,
       S_PalVms] PalBox ''MFPR_FEN''),
    (0xc, grainEntry (WithCtx execMtprFen_vms) [S_PalFormat, S_PalEntry, S_ChangesPC, S_Uncond,
       S_PalVms] PalBox ''MTPR_FEN''),
    (0xd, grainEntry (WithCtx execMtprIpir) [S_PalFormat, S_PalEntry, S_ChangesPC, S_Uncond,
       S_PalTru64, S_PalVms, S_PalLinux] PalBox ''MTPR_IPIR''),
    (0xe, grainEntry (WithCtx execMfprIpl_vms) [S_PalFormat, S_PalEntry, S_ChangesPC, S_Uncond,
       S_PalVms] PalBox ''MFPR_IPL''),
    (0xf, grainEntry (WithCtx execMtprIpl_vms) [S_PalFormat, S_PalEntry, S_ChangesPC, S_Uncond,
       S_PalVms] PalBox ''MTPR_IPL''),
    (0x10, grainEntry (WithCtx execMfprMces) [S_PalFormat, S_PalEntry, S_ChangesPC, S_Uncond,
       S_PalTru64, S_PalVms, S_PalLinux] PalBox ''MFPR_MCES''),
    (0x11, grainEntry (WithCtx execMtprMces) [S_PalFormat, S_PalEntry, S_ChangesPC, S_Uncond,
       S_PalTru64, S_PalVms, S_PalLinux] PalBox ''MTPR_MCES''),
    (0x12, grainEntry (WithCtx execMfprPcbb_vms) [S_PalFormat, S_PalEntry, S_ChangesPC, S_Uncond,
       S_PalVms] PalBox ''MFPR_PCBB''),
    (0x13, grainEntry (WithCtx execMfprPrbr_vms) [S_PalFormat, S_PalEntry, S_ChangesPC, S_Uncond,
       S_PalVms] PalBox ''MFPR_PRBR''),
    (0x14, grainEntry (WithCtx execMtprPrbr_vms) [S_PalFormat, S_PalEntry, S_ChangesPC, S_Uncond,
       S_PalVms] PalBox ''MTPR_PRBR''),
    (0x15, grainEntry (WithCtx execMfprPtbr_vms) [S_PalFormat, S_PalEntry, S_ChangesPC, S_Uncond,
       S_PalVms] PalBox ''MFPR_PTBR''),
    (0x16, grainEntry (WithCtx execMfprScbb_vms) [S_PalFormat, S_PalEntry, S_WritesRa,
       S_WritesInt, S_PalVms] PalBox ''MFPR_SCBB''),
    (0x17, grainEntry (WithCtx execMtprScbb_vms) [S_PalFormat, S_PalEntry,
       S_PalVms] PalBox ''MTPR_SCBB''),
    (0x18, grainEntry (WithCtx execMtprSirr_vms) [S_PalFormat, S_PalEntry, S_ChangesPC, S_Uncond,
       S_PalVms] PalBox ''MTPR_SIRR''),
    (0x19, grainEntry (WithCtx execMfprSisr_vms) [S_PalFormat, S_PalEntry, S_ChangesPC, S_Uncond,
       S_PalVms] PalBox ''MFPR_SISR''),
    (0x1a, grainEntry (WithCtx execMfprTbchk_vms) [S_PalFormat, S_PalEntry, S_ChangesPC,
       S_Uncond, S_PalVms] PalBox ''MFPR_TBCHK''),
    (0x1b, grainEntry (WithCtx execMtprTbia_vms) [S_PalFormat, S_PalEntry, S_ChangesPC, S_Uncond,
       S_PalVms] PalBox ''MTPR_TBIA''),
    (0x1c, grainEntry (WithCtx execMtprTbiap_vms) [S_PalFormat, S_PalEntry, S_ChangesPC,
       S_Uncond, S_PalVms] PalBox ''MTPR_TBIAP''),
    (0x1d, grainEntry (WithCtx execMtprTbis_vms) [S_PalFormat, S_PalEntry, S_ChangesPC, S_Uncond,
       S_PalVms] PalBox ''MTPR_TBIS''),
    (0x1e, grainEntry (WithCtx execMfprEsp_vms) [S_PalFormat, S_PalEntry, S_ChangesPC, S_Uncond,
       S_PalVms] PalBox ''MFPR_ESP''),
    (0x1f, grainEntry (WithCtx execMtprEsp_vms) [S_PalFormat, S_PalEntry, S_ChangesPC, S_Uncond,
       S_PalVms] PalBox ''MTPR_ESP''),
    (0x20, grainEntry (WithCtx execMfprSsp_vms) [S_PalFormat, S_PalEntry, S_ChangesPC, S_Uncond,
       S_PalVms] PalBox ''MFPR_SSP''),
    (0x21, grainEntry (WithCtx execMtprSsp_vms) [S_PalFormat, S_PalEntry, S_ChangesPC, S_Uncond,
       S_PalVms] PalBox ''MTPR_SSP''),
    (0x22, grainEntry (WithCtx execMfprUsp_vms) [S_PalFormat, S_PalEntry, S_ChangesPC, S_Uncond,
       S_PalVms] PalBox ''MFPR_USP''),
    (0x23, grainEntry (WithCtx execMtprUsp_vms) [S_PalFormat, S_PalEntry, S_ChangesPC, S_Uncond,
       S_PalVms] PalBox ''MTPR_USP''),
    (0x24, grainEntry (WithCtx execMtprTbisd_vms) [S_PalFormat, S_PalEntry, S_ChangesPC,
       S_Uncond, S_PalVms] PalBox ''MTPR_TBISD''),
    (0x25, grainEntry (WithCtx execMtprTbisi_vms) [S_PalFormat, S_PalEntry, S_ChangesPC,
       S_Uncond, S_PalVms] PalBox ''MTPR_TBISI''),
    (0x26, grainEntry (WithCtx execMfprAsten_vms) [S_PalFormat, S_PalEntry, S_ChangesPC,
       S_Uncond, S_PalVms] PalBox ''MFPR_ASTEN''),
    (0x27, grainEntry (WithCtx execMfprAstsr_vms) [S_PalFormat, S_PalEntry, S_ChangesPC,
       S_Uncond, S_PalVms] PalBox ''MFPR_ASTSR''),
    (0x29, grainEntry (WithCtx execMfprVptb_vms) [S_PalFormat, S_PalIntrinsic, S_WritesRa,
       S_WritesInt, S_PalVms] PalBox ''MFPR_VPTB''),
    (0x2a, grainEntry (WithCtx execMtprVptb_vms) [S_PalFormat, S_PalIntrinsic,
       S_PalVms] PalBox ''MTPR_VPTB''),
    (0x2b, grainEntry (WithCtx execMtprPerfmon) [S_PalFormat, S_PalEntry, S_ChangesPC, S_Uncond,
       S_PalTru64, S_PalVms, S_PalLinux] PalBox ''MTPR_PERFMON''),
    (0x2e, grainEntry (WithCtx execMtprDatfx) [S_PalFormat, S_PalEntry, S_ChangesPC, S_Uncond,
       S_PalTru64, S_PalVms] PalBox ''MTPR_DATFX''),
    (0x30, grainEntry (WithCtx execMfprVirbnd) [S_PalFormat, S_PalEntry, S_ChangesPC, S_Uncond,
       S_PalTru64, S_PalVms, S_PalLinux] PalBox ''MFPR_VIRBND''),
    (0x32, grainEntry (WithCtx execMfprSysptbr) [S_PalFormat, S_PalEntry, S_ChangesPC, S_Uncond,
       S_PalTru64, S_PalVms, S_PalLinux] PalBox ''MFPR_SYSPTBR''),
    (0x3e, grainEntry (Pure execWtint) [S_PalFormat, S_PalIntrinsic, S_WritesRa, S_WritesInt,
       S_PalTru64, S_PalVms, S_PalLinux] PalBox ''WTINT''),
    (0x3f, grainEntry (WithCtx execMfprWhami) [S_PalFormat, S_PalEntry, S_ChangesPC, S_Uncond,
       S_PalTru64, S_PalVms, S_PalLinux] PalBox ''MFPR_WHAMI''),
    (0x80, grainEntry (WithCtx execBpt) [S_PalFormat, S_PalEntry, S_ChangesPC, S_Uncond,
       S_PalTru64, S_PalVms, S_PalLinux] PalBox ''BPT''),
    (0x81, grainEntry (WithCtx execBugchk_vms) [S_PalFormat, S_PalEntry, S_ChangesPC, S_Uncond,
       S_PalVms] PalBox ''BUGCHK''),
    (0x82, grainEntry (WithCtx execChme_vms) [S_PalFormat, S_PalEntry, S_ChangesPC, S_Uncond,
       S_PalVms] PalBox ''CHME''),
    (0x83, grainEntry (WithCtx execChmk) [S_PalFormat, S_PalEntry, S_ChangesPC, S_Uncond,
       S_PalTru64, S_PalVms, S_PalLinux] PalBox ''CHMK''),
    (0x84, grainEntry (WithCtx execChms_vms) [S_PalFormat, S_PalEntry, S_ChangesPC, S_Uncond,
       S_PalVms] PalBox ''CHMS''),
    (0x85, grainEntry (WithCtx execChmu_vms) [S_PalFormat, S_PalEntry, S_ChangesPC, S_Uncond,
       S_PalVms] PalBox ''CHMU''),
    (0x86, grainEntry (WithCtx execImb) [S_PalFormat, S_PalEntry, S_ChangesPC, S_Uncond,
       S_PalTru64, S_PalVms, S_PalLinux] PalBox ''IMB''),
    (0x87, grainEntry (WithCtx execInsqhil_vms) [S_PalFormat, S_PalEntry, S_ChangesPC, S_Uncond,
       S_PalVms] PalBox ''INSQHIL''),
    (0x88, grainEntry (WithCtx execInsqtil_vms) [S_PalFormat, S_PalEntry, S_ChangesPC, S_Uncond,
       S_PalVms] PalBox ''INSQTIL''),
    (0x89, grainEntry (WithCtx execInsqhiq_vms) [S_PalFormat, S_PalEntry, S_ChangesPC, S_Uncond,
       S_PalVms] PalBox ''INSQHIQ''),
    (0x8a, grainEntry (WithCtx execInsqtiq_vms) [S_PalFormat, S_PalEntry, S_ChangesPC, S_Uncond,
       S_PalVms] PalBox ''INSQTIQ''),
    (0x8b, grainEntry (WithCtx execInsquel_vms) [S_PalFormat, S_PalEntry, S_ChangesPC, S_Uncond,
       S_PalVms] PalBox ''INSQUEL''),
    (0x8c, grainEntry (WithCtx execInsqueq_vms) [S_PalFormat, S_PalEntry, S_ChangesPC, S_Uncond,
       S_PalVms] PalBox ''INSQUEQ''),
    (0x8d, grainEntry (WithCtx execInsquelD_vms) [S_PalFormat, S_PalEntry, S_ChangesPC, S_Uncond,
       S_PalVms] PalBox ''INSQUEL_D''),
    (0x8e, grainEntry (WithCtx execInsqueqD_vms) [S_PalFormat, S_PalEntry, S_ChangesPC, S_Uncond,
       S_PalVms] PalBox ''INSQUEQ_D''),
    (0x8f, grainEntry (WithCtx execProber_vms) [S_PalFormat, S_PalEntry, S_ChangesPC, S_Uncond,
       S_PalVms] PalBox ''PROBER''),
    (0x90, grainEntry (WithCtx execProbew_vms) [S_PalFormat, S_PalEntry, S_ChangesPC, S_Uncond,
       S_PalVms] PalBox ''PROBEW''),
    (0x91, grainEntry (WithCtx execRdPs_vms) [S_PalFormat, S_PalEntry, S_ChangesPC, S_Uncond,
       S_PalVms] PalBox ''RD_PS''),
    (0x92, grainEntry (WithCtx execRei) [S_PalFormat, S_PalEntry, S_ChangesPC, S_Uncond,
       S_PalTru64, S_PalVms] PalBox ''REI''),
    (0x93, grainEntry (WithCtx execRemqhil_vms) [S_PalFormat, S_PalEntry, S_ChangesPC, S_Uncond,
       S_PalVms] PalBox ''REMQHIL''),
    (0x94, grainEntry (WithCtx execRemqtil_vms) [S_PalFormat, S_PalEntry, S_ChangesPC, S_Uncond,
       S_PalVms] PalBox ''REMQTIL''),
    (0x95, grainEntry (WithCtx execRemqhiq_vms) [S_PalFormat, S_PalEntry, S_ChangesPC, S_Uncond,
       S_PalVms] PalBox ''REMQHIQ''),
    (0x96, grainEntry (WithCtx execRemqtiq_vms) [S_PalFormat, S_PalEntry, S_ChangesPC, S_Uncond,
       S_PalVms] PalBox ''REMQTIQ''),
    (0x97, grainEntry (WithCtx execRemquel_vms) [S_PalFormat, S_PalEntry, S_ChangesPC, S_Uncond,
       S_PalVms] PalBox ''REMQUEL''),
    (0x98, grainEntry (WithCtx execRemqueq_vms) [S_PalFormat, S_PalEntry, S_ChangesPC, S_Uncond,
       S_PalVms] PalBox ''REMQUEQ''),
    (0x99, grainEntry (WithCtx execRemquelD_vms) [S_PalFormat, S_PalEntry, S_ChangesPC, S_Uncond,
       S_PalVms] PalBox ''REMQUEL_D''),
    (0x9a, grainEntry (WithCtx execRemqueqD_vms) [S_PalFormat, S_PalEntry, S_ChangesPC, S_Uncond,
       S_PalVms] PalBox ''REMQUEQ_D''),
    (0x9b, grainEntry (WithCtx execSwasten_vms) [S_PalFormat, S_PalEntry, S_ChangesPC, S_Uncond,
       S_PalVms] PalBox ''SWASTEN''),
    (0x9c, grainEntry (WithCtx execWrPsSw_vms) [S_PalFormat, S_PalEntry, S_ChangesPC, S_Uncond,
       S_PalVms] PalBox ''WR_PS_SW''),
    (0x9d, grainEntry (WithCtx execRscc_vms) [S_PalFormat, S_PalEntry, S_ChangesPC, S_Uncond,
       S_PalVms] PalBox ''RSCC''),
    (0x9e, grainEntry (WithCtx execReadUnq) [S_PalFormat, S_PalEntry, S_ChangesPC, S_Uncond,
       S_PalTru64, S_PalVms, S_PalLinux] PalBox ''READ_UNQ''),
    (0x9f, grainEntry (WithCtx execWriteUnq) [S_PalFormat, S_PalEntry, S_ChangesPC, S_Uncond,
       S_PalTru64, S_PalVms, S_PalLinux] PalBox ''WRITE_UNQ''),
    (0xa0, grainEntry (WithCtx execAmovrr_vms) [S_PalFormat, S_PalEntry, S_ChangesPC, S_Uncond,
       S_PalVms] PalBox ''AMOVRR''),
    (0xa1, grainEntry (WithCtx execAmovrm_vms) [S_PalFormat, S_PalEntry, S_ChangesPC, S_Uncond,
       S_PalVms] PalBox ''AMOVRM''),
    (0xa2, grainEntry (WithCtx execInsqhilr_vms) [S_PalFormat, S_PalEntry, S_ChangesPC, S_Uncond,
       S_PalVms] PalBox ''INSQHILR''),
    (0xa3, grainEntry (WithCtx execInsqtilr_vms) [S_PalFormat, S_PalEntry, S_ChangesPC, S_Uncond,
       S_PalVms] PalBox ''INSQTILR''),
    (0xa4, grainEntry (WithCtx execInsqhiqr_vms) [S_PalFormat, S_PalEntry, S_ChangesPC, S_Uncond,
       S_PalVms] PalBox ''INSQHIQR''),
    (0xa5, grainEntry (WithCtx execInsqtiqr_vms) [S_PalFormat, S_PalEntry, S_ChangesPC, S_Uncond,
       S_PalVms] PalBox ''INSQTIQR''),
    (0xa6, grainEntry (WithCtx execRemqhilr_vms) [S_PalFormat, S_PalEntry, S_ChangesPC, S_Uncond,
       S_PalVms] PalBox ''REMQHILR''),
    (0xa7, grainEntry (WithCtx execRemqtilr_vms) [S_PalFormat, S_PalEntry, S_ChangesPC, S_Uncond,
       S_PalVms] PalBox ''REMQTILR''),
    (0xa8, grainEntry (WithCtx execRemqhiqr_vms) [S_PalFormat, S_PalEntry, S_ChangesPC, S_Uncond,
       S_PalVms] PalBox ''REMQHIQR''),
    (0xa9, grainEntry (WithCtx execRemqtiqr_vms) [S_PalFormat, S_PalEntry, S_ChangesPC, S_Uncond,
       S_PalVms] PalBox ''REMQTIQR''),
    (0xaa, grainEntry (WithCtx execGentrap) [S_PalFormat, S_PalEntry, S_ChangesPC, S_Uncond,
       S_PalTru64, S_PalVms, S_PalLinux] PalBox ''GENTRAP''),
    (0xae, grainEntry (WithCtx execClrfen) [S_PalFormat, S_PalEntry, S_ChangesPC, S_Uncond,
       S_PalTru64, S_PalVms, S_PalLinux] PalBox ''CLRFEN'')]"

definition lookupPalVms :: "u32 \<Rightarrow> GrainEntry" where
  "lookupPalVms func = (case map_of lookupPalVms_cases (unat func) of Some e \<Rightarrow> e
     | None \<Rightarrow> grainEntry (WithCtx execCallPalDispatch) [S_PalFormat, S_PalEntry,
       S_ChangesPC, S_Uncond, S_PalVms] PalBox ''CALL_PAL'')"

section \<open>The primary table\<close>

datatype DispatchKind = Direct | IntArith | IntLogical | IntShift | IntMul | ItFp | FltVax | FltIeee
  | FltLogical | Misc | JmpClass | FpTiExt | Pal | HwMfpr | HwLd | HwMtpr | HwRei | HwSt | Reserved

record PrimaryEntry =
  kind :: DispatchKind
  direct :: GrainEntry
  subTable :: "subtable option"
  subTableLen :: nat

definition subEntry :: "DispatchKind \<Rightarrow> subtable \<Rightarrow> nat \<Rightarrow> PrimaryEntry" where
  "subEntry k t n = \<lparr>kind = k, direct = kOpcDecEntry, subTable = Some t, subTableLen = n\<rparr>"

definition directEntry :: "DispatchKind \<Rightarrow> GrainEntry \<Rightarrow> PrimaryEntry" where
  "directEntry k e = \<lparr>kind = k, direct = e, subTable = None, subTableLen = 0\<rparr>"

definition g_primaryTable :: "PrimaryEntry list" where
  "g_primaryTable =
   [directEntry Pal kOpcDecEntry,
    directEntry Reserved kOpcDecEntry,
    directEntry Reserved kOpcDecEntry,
    directEntry Reserved kOpcDecEntry,
    directEntry Reserved kOpcDecEntry,
    directEntry Reserved kOpcDecEntry,
    directEntry Reserved kOpcDecEntry,
    directEntry Reserved kOpcDecEntry,
    directEntry Direct (grainEntry (Pure execLda) [S_MemFormat, S_ReadsRb, S_WritesRa, S_ReadsInt,
       S_WritesInt] Mbox ''LDA''),
    directEntry Direct (grainEntry (Pure execLdah) [S_MemFormat, S_ReadsRb, S_WritesRa, S_ReadsInt,
       S_WritesInt] Mbox ''LDAH''),
    directEntry Direct (grainEntry (Pure execLdbu) [S_MemFormat, S_ReadsRb, S_WritesRa, S_ReadsInt,
       S_WritesInt, S_Load, S_Cacheable] Mbox ''LDBU''),
    directEntry Direct (grainEntry (Pure execLdqU) [S_MemFormat, S_ReadsRb, S_WritesRa, S_ReadsInt,
       S_WritesInt, S_Load, S_Cacheable] Mbox ''LDQ_U''),
    directEntry Direct (grainEntry (Pure execLdwu) [S_MemFormat, S_ReadsRb, S_WritesRa, S_ReadsInt,
       S_WritesInt, S_Load, S_Cacheable] Mbox ''LDWU''),
    directEntry Direct (grainEntry (Pure execStw) [S_MemFormat, S_ReadsRa, S_ReadsRb, S_ReadsInt,
       S_Store, S_Cacheable] Mbox ''STW''),
    directEntry Direct (grainEntry (Pure execStb) [S_MemFormat, S_ReadsRa, S_ReadsRb, S_ReadsInt,
       S_Store, S_Cacheable] Mbox ''STB''),
    directEntry Direct (grainEntry (Pure execStqU) [S_MemFormat, S_ReadsRa, S_ReadsRb, S_ReadsInt,
       S_Store, S_Cacheable] Mbox ''STQ_U''),
    subEntry IntArith g_intArithSubTable 128,
    subEntry IntLogical g_intLogicalSubTable 128,
    subEntry IntShift g_intShiftSubTable 128,
    subEntry IntMul g_intMulSubTable 128,
    subEntry ItFp g_itFpSubTable 2048,
    subEntry FltVax g_fltVaxSubTable 2048,
    subEntry FltIeee g_fltIeeeSubTable 2048,
    subEntry FltLogical g_fltLogicalSubTable 128,
    directEntry Misc kOpcDecEntry,
    directEntry HwMfpr (grainEntry (WithCtx execHwMfpr) [S_HwFormat, S_Privileged, S_IprRead,
       S_WritesRa, S_WritesInt] PalBox ''HW_MFPR''),
    subEntry JmpClass g_jmpClassSubTable 4,
    directEntry HwLd (grainEntry (Pure execHwLd) [S_HwFormat, S_Privileged, S_Load, S_ReadsRb,
       S_WritesRa, S_ReadsInt, S_WritesInt] Mbox ''HW_LD''),
    subEntry FpTiExt g_fpTiExtSubTable 128,
    directEntry HwMtpr (grainEntry (WithCtx execHwMtpr) [S_HwFormat, S_Privileged, S_IprWrite,
       S_ReadsRb, S_ReadsInt] PalBox ''HW_MTPR''),
    directEntry HwRei (grainEntry (WithCtx execHwRei) [S_HwFormat, S_Privileged, S_PalExit,
       S_ChangesPC, S_Uncond, S_NoTrace] PalBox ''HW_REI''),
    directEntry HwSt (grainEntry (Pure execHwSt) [S_HwFormat, S_Privileged, S_Store, S_ReadsRa,
       S_ReadsRb, S_ReadsInt] Mbox ''HW_ST''),
    directEntry Direct (grainEntry (Pure execLdf) [S_MemFormat, S_ReadsRb, S_WritesRa,
       S_ReadsInt, S_WritesFp, S_Load, S_VaxFp] Fbox ''LDF''),
    directEntry Direct (grainEntry (Pure execLdg) [S_MemFormat, S_ReadsRb, S_WritesRa,
       S_ReadsInt, S_WritesFp, S_Load, S_VaxFp] Fbox ''LDG''),
    directEntry Direct (grainEntry (Pure execLds) [S_MemFormat, S_ReadsRb, S_WritesRa,
       S_ReadsInt, S_WritesFp, S_Load] Fbox ''LDS''),
    directEntry Direct (grainEntry (Pure execLdt) [S_MemFormat, S_ReadsRb, S_WritesRa,
       S_ReadsInt, S_WritesFp, S_Load] Fbox ''LDT''),
    directEntry Direct (grainEntry (Pure execStf) [S_MemFormat, S_ReadsRa, S_ReadsRb,
       S_ReadsFp, S_ReadsInt, S_Store, S_VaxFp] Fbox ''STF''),
    directEntry Direct (grainEntry (Pure execStg) [S_MemFormat, S_ReadsRa, S_ReadsRb,
       S_ReadsFp, S_ReadsInt, S_Store, S_VaxFp] Fbox ''STG''),
    directEntry Direct (grainEntry (Pure execSts) [S_MemFormat, S_ReadsRa, S_ReadsRb,
       S_ReadsFp, S_ReadsInt, S_Store] Fbox ''STS''),
    directEntry Direct (grainEntry (Pure execStt) [S_MemFormat, S_ReadsRa, S_ReadsRb,
       S_ReadsFp, S_ReadsInt, S_Store] Fbox ''STT''),
    directEntry Direct (grainEntry (Pure execLdl) [S_MemFormat, S_ReadsRb, S_WritesRa, S_ReadsInt,
       S_WritesInt, S_Load, S_Cacheable] Mbox ''LDL''),
    directEntry Direct (grainEntry (Pure execLdq) [S_MemFormat, S_ReadsRb, S_WritesRa, S_ReadsInt,
       S_WritesInt, S_Load, S_Cacheable] Mbox ''LDQ''),
    directEntry Direct (grainEntry (Pure execLdlL) [S_MemFormat, S_ReadsRb, S_WritesRa, S_ReadsInt,
       S_WritesInt, S_Load, S_Locked, S_Cacheable] Mbox ''LDL_L''),
    directEntry Direct (grainEntry (Pure execLdqL) [S_MemFormat, S_ReadsRb, S_WritesRa, S_ReadsInt,
       S_WritesInt, S_Load, S_Locked, S_Cacheable] Mbox ''LDQ_L''),
    directEntry Direct (grainEntry (Pure execStl) [S_MemFormat, S_ReadsRa, S_ReadsRb, S_ReadsInt,
       S_Store, S_Cacheable] Mbox ''STL''),
    directEntry Direct (grainEntry (Pure execStq) [S_MemFormat, S_ReadsRa, S_ReadsRb, S_ReadsInt,
       S_Store, S_Cacheable] Mbox ''STQ''),
    directEntry Direct (grainEntry (Pure execStlC) [S_MemFormat, S_ReadsRa, S_ReadsRb, S_ReadsInt,
       S_WritesRa, S_WritesInt, S_Store, S_Locked, S_Cacheable] Mbox ''STL_C''),
    directEntry Direct (grainEntry (Pure execStqC) [S_MemFormat, S_ReadsRa, S_ReadsRb, S_ReadsInt,
       S_WritesRa, S_WritesInt, S_Store, S_Locked, S_Cacheable] Mbox ''STQ_C''),
    directEntry Direct (grainEntry (Pure execBr) [S_BraFormat, S_WritesRa, S_WritesInt, S_ChangesPC,
       S_Uncond, S_Branch, S_CallBased] Ibox ''BR''),
    directEntry Direct (grainEntry (Pure execFbeq) [S_BraFormat, S_ReadsRa, S_ReadsFp,
       S_ChangesPC, S_Branch] Fbox ''FBEQ''),
    directEntry Direct (grainEntry (Pure execFblt) [S_BraFormat, S_ReadsRa, S_ReadsFp,
       S_ChangesPC, S_Branch] Fbox ''FBLT''),
    directEntry Direct (grainEntry (Pure execFble) [S_BraFormat, S_ReadsRa, S_ReadsFp,
       S_ChangesPC, S_Branch] Fbox ''FBLE''),
    directEntry Direct (grainEntry (Pure execBsr) [S_BraFormat, S_WritesRa, S_WritesInt, S_ChangesPC,
       S_Uncond, S_Branch, S_CallBased] Ibox ''BSR''),
    directEntry Direct (grainEntry (Pure execFbne) [S_BraFormat, S_ReadsRa, S_ReadsFp,
       S_ChangesPC, S_Branch] Fbox ''FBNE''),
    directEntry Direct (grainEntry (Pure execFbge) [S_BraFormat, S_ReadsRa, S_ReadsFp,
       S_ChangesPC, S_Branch] Fbox ''FBGE''),
    directEntry Direct (grainEntry (Pure execFbgt) [S_BraFormat, S_ReadsRa, S_ReadsFp,
       S_ChangesPC, S_Branch] Fbox ''FBGT''),
    directEntry Direct (grainEntry (Pure execBlbc) [S_BraFormat, S_ReadsRa, S_ReadsInt, S_ChangesPC,
       S_Branch] Ibox ''BLBC''),
    directEntry Direct (grainEntry (Pure execBeq) [S_BraFormat, S_ReadsRa, S_ReadsInt, S_ChangesPC,
       S_Branch] Ibox ''BEQ''),
    directEntry Direct (grainEntry (Pure execBlt) [S_BraFormat, S_ReadsRa, S_ReadsInt, S_ChangesPC,
       S_Branch] Ibox ''BLT''),
    directEntry Direct (grainEntry (Pure execBle) [S_BraFormat, S_ReadsRa, S_ReadsInt, S_ChangesPC,
       S_Branch] Ibox ''BLE''),
    directEntry Direct (grainEntry (Pure execBlbs) [S_BraFormat, S_ReadsRa, S_ReadsInt, S_ChangesPC,
       S_Branch] Ibox ''BLBS''),
    directEntry Direct (grainEntry (Pure execBne) [S_BraFormat, S_ReadsRa, S_ReadsInt, S_ChangesPC,
       S_Branch] Ibox ''BNE''),
    directEntry Direct (grainEntry (Pure execBge) [S_BraFormat, S_ReadsRa, S_ReadsInt, S_ChangesPC,
       S_Branch] Ibox ''BGE''),
    directEntry Direct (grainEntry (Pure execBgt) [S_BraFormat, S_ReadsRa, S_ReadsInt, S_ChangesPC,
       S_Branch] Ibox ''BGT'')]"

definition primaryEntry :: "u8 \<Rightarrow> PrimaryEntry" where
  "primaryEntry op = g_primaryTable ! unat (op AND 0x3F)"

section \<open>Decode\<close>

definition subDecode :: "PrimaryEntry \<Rightarrow> u32 \<Rightarrow> GrainEntry" where
  "subDecode pe sub =
    (if unat sub < subTableLen pe
     then (case subTable pe of Some t \<Rightarrow> slot t (unat sub) | None \<Rightarrow> kOpcDecEntry)
     else kOpcDecEntry)"

definition decode :: "u32 \<Rightarrow> u8 \<Rightarrow> GrainEntry" where
  "decode w personality =
    (let pe = primaryEntry (ucast (drop_bit 26 w AND 0x3F)) in
     case kind pe of
       Direct \<Rightarrow> direct pe | HwMfpr \<Rightarrow> direct pe | HwLd \<Rightarrow> direct pe | HwMtpr \<Rightarrow> direct pe
     | HwRei \<Rightarrow> direct pe | HwSt \<Rightarrow> direct pe | Reserved \<Rightarrow> direct pe
     | IntArith \<Rightarrow> subDecode pe (drop_bit 5 w AND 0x7F)
     | IntLogical \<Rightarrow> subDecode pe (drop_bit 5 w AND 0x7F)
     | IntShift \<Rightarrow> subDecode pe (drop_bit 5 w AND 0x7F)
     | IntMul \<Rightarrow> subDecode pe (drop_bit 5 w AND 0x7F)
     | ItFp \<Rightarrow> subDecode pe (drop_bit 5 w AND 0x7F)
     | FltLogical \<Rightarrow> subDecode pe (drop_bit 5 w AND 0x7F)
     | FpTiExt \<Rightarrow> subDecode pe (drop_bit 5 w AND 0x7F)
     | FltIeee \<Rightarrow> subDecode pe (drop_bit 5 w AND 0x7FF)
     | JmpClass \<Rightarrow> subDecode pe (drop_bit 14 w AND 0x3)
     | Misc \<Rightarrow> lookupMisc (w AND 0xFFFF)
     | Pal \<Rightarrow> (if personality = 1 then lookupPalVms (w AND 0x03FFFFFF)
              else lookupPalTru64 (w AND 0x03FFFFFF))
     | FltVax \<Rightarrow> kOpcDecEntry)"

section \<open>Leaves respect their flags\<close>

lemma flagBit_less: "flagBit f < 64"
  by (cases f) simp_all

lemma flagBit_inject: "flagBit f = flagBit f' \<longleftrightarrow> f = f'"
  by (cases f; cases f') simp_all

lemma has_bit: "has w f \<longleftrightarrow> bit w (flagBit f)"
  by (simp add: has_def)

lemma bit_flagSet: "bit (fold (\<lambda>f w. w OR push_bit (flagBit f) 1) fs v) n \<longleftrightarrow>
    bit (v :: u64) n \<or> n \<in> flagBit ` set fs"
proof (induction fs arbitrary: v)
  case (Cons f fs)
  then show ?case using flagBit_less [of f] by (auto simp: bit_simps)
qed simp

lemma has_flagSet [simp]: "has (flagSet fs) f \<longleftrightarrow> f \<in> set fs"
  by (simp only: has_bit flagSet_def bit_flagSet) (auto simp: flagBit_inject)

text \<open>
  What a leaf may do is declared by the flags of its entry: a register destination, one of 32, only
  with a written-register flag, a memory access exactly with the load or store flag, a PC change only with
  the control-flow flag, the floating point file for a named destination exactly with its flag, and a
  fault at the execute stage only as a decode error or for an unknown hardware register. The leaf of a
  CALL\_PAL entry may fault, and names R0 as its destination or no register; otherwise it is held to the
  same flags. The table gives six of these entries flags that their leaves do not keep: CSERVE, LDQP,
  STQP, MFPR\_SCBB, MTPR\_SCBB and MFPR\_WHAMI. They are listed by name, and the lemma
  misflagged\_entries shows how each breaks the contract.
\<close>

definition plain_conforms :: "u64 \<Rightarrow> BoxResult \<Rightarrow> bool" where
  "plain_conforms fl r \<longleftrightarrow>
    regWriteIdx r \<le> 31 \<and>
    (regWriteIdx r = kNoRegWrite \<or> has fl S_WritesRa \<or> has fl S_WritesRc) \<and>
    (memSize r \<noteq> kNoMemEffect \<longleftrightarrow> has fl S_Load \<or> has fl S_Store) \<and>
    memSize r \<in> {0, 1, 2, 4, 8} \<and>
    (memIsStore r \<longleftrightarrow> has fl S_Store) \<and> (divert r \<longrightarrow> has fl S_ChangesPC) \<and>
    (regWriteIsFp r \<longrightarrow> has fl S_WritesFp) \<and>
    (has fl S_WritesFp \<longrightarrow> regWriteIsFp r \<or> regWriteIdx r = kNoRegWrite) \<and>
    (has fl S_OpcDec \<longrightarrow> faultCode r \<noteq> kNoFault) \<and>
    (faultCode r \<noteq> kNoFault \<longrightarrow> has fl S_OpcDec \<or> has fl S_HwFormat)"

definition pal_conforms :: "u64 \<Rightarrow> BoxResult \<Rightarrow> bool" where
  "pal_conforms fl r \<longleftrightarrow>
    regWriteIdx r \<in> {0, kNoRegWrite} \<and>
    (regWriteIdx r = kNoRegWrite \<or> has fl S_WritesRa \<or> has fl S_WritesRc) \<and>
    (memSize r \<noteq> kNoMemEffect \<longleftrightarrow> has fl S_Load \<or> has fl S_Store) \<and>
    (memIsStore r \<longleftrightarrow> has fl S_Store) \<and> (divert r \<longrightarrow> has fl S_ChangesPC) \<and> \<not> regWriteIsFp r"

definition misflagged :: "string list" where
  "misflagged = [''CSERVE'', ''LDQP'', ''STQP'', ''MFPR_SCBB'', ''MTPR_SCBB'', ''MFPR_WHAMI'']"

definition result_conforms :: "string \<Rightarrow> u64 \<Rightarrow> BoxResult \<Rightarrow> bool" where
  "result_conforms name fl r \<longleftrightarrow>
    (if \<not> has fl S_PalFormat then plain_conforms fl r
     else if name \<in> set misflagged
       then regWriteIdx r \<in> {0, kNoRegWrite} \<and> memSize r \<in> {0, 8} \<and> \<not> regWriteIsFp r
     else pal_conforms fl r)"

text \<open>
  What the leaf itself changes: an integer leaf the interrupt flag at most, an arithmetic leaf of the
  floating point box the control register, whose exception bits are sticky, a PALcode leaf any register,
  within the shape of the register file and only if it does not fault, and only CSERVE the memory.
\<close>

definition conforms :: "GrainEntry \<Rightarrow> InstructionGrain \<Rightarrow> ExecCtx \<Rightarrow> Cpu \<Rightarrow> IFpBackend \<Rightarrow> GuestMemory \<Rightarrow> bool" where
  "conforms e g c cpu fp mem \<longleftrightarrow> (case e_fn e of
      Pure f \<Rightarrow> result_conforms (mnemonic e) (e_semFlags e) (f g c)
    | WithCpu f \<Rightarrow> (case f g cpu of (r, cpu1) \<Rightarrow>
        result_conforms (mnemonic e) (e_semFlags e) r \<and> cpu1 = cpu\<lparr>intrFlag := intrFlag cpu1\<rparr>)
    | WithCtx f \<Rightarrow> (case f g c cpu of (r, cpu1) \<Rightarrow>
        result_conforms (mnemonic e) (e_semFlags e) r \<and> keeps_shape cpu r cpu1)
    | Fp f \<Rightarrow> (case f fp g c cpu of (r, cpu1) \<Rightarrow>
        result_conforms (mnemonic e) (e_semFlags e) r \<and> faultCode r = kNoFault \<and> memSize r = kNoMemEffect \<and>
        cpu1 = cpu\<lparr>fpcr := fpcr cpu1\<rparr> \<and> fpcr_kept (fpcr cpu) (fpcr cpu1))
    | WithMem f \<Rightarrow> (case f g c cpu mem of (r, cpu1, mem1) \<Rightarrow>
        result_conforms (mnemonic e) (e_semFlags e) r \<and> keeps_shape cpu r cpu1 \<and> memSize r = kNoMemEffect \<and>
        faultCode r \<in> {kNoFault, kFaultHalt} \<and> (faultCode r \<noteq> kNoFault \<longrightarrow> mem1 = mem)))"

definition entry_conforms :: "GrainEntry \<Rightarrow> bool" where
  "entry_conforms e \<longleftrightarrow> (\<forall>g c cpu fp mem. conforms e g c cpu fp mem)"

lemma conforms_entry [simp]:
  "entry_conforms (grainEntry (Pure f) fs b n) \<longleftrightarrow> (\<forall>g c. result_conforms n (flagSet fs) (f g c))"
  "entry_conforms (grainEntry (WithCpu h) fs b n) \<longleftrightarrow> (\<forall>g cpu. result_conforms n (flagSet fs) (fst (h g cpu)) \<and>
       snd (h g cpu) = cpu\<lparr>intrFlag := intrFlag (snd (h g cpu))\<rparr>)"
  "entry_conforms (grainEntry (WithCtx k) fs b n) \<longleftrightarrow> (\<forall>g c cpu. result_conforms n (flagSet fs) (fst (k g c cpu)) \<and>
       keeps_shape cpu (fst (k g c cpu)) (snd (k g c cpu)))"
  by (simp_all add: entry_conforms_def conforms_def grainEntry_def case_prod_beta)

lemma fpExec_shape [simp]: "\<exists>call'. fpExec call g = fpExec call' g"
  by blast

lemma conforms_fp_entry [simp]:
  assumes "\<forall>fp g c. \<exists>call. f fp g c = fpExec call g" "\<not> has (flagSet fs) S_PalFormat"
    "\<forall>g v. plain_conforms (flagSet fs) (fpWrite g v)"
  shows "entry_conforms (grainEntry (Fp f) fs b n)"
proof -
  have "conforms (grainEntry (Fp f) fs b n) g c cpu fp mem" for g c cpu fp mem
  proof -
    obtain call where "f fp g c = fpExec call g" using assms(1) by blast
    then show ?thesis using assms(2,3)
      by (simp add: conforms_def grainEntry_def fpExec_def Let_def result_conforms_def fpcr_kept_fold fpWrite_def
          newBoxResult_def kNoMemEffect_def)
  qed
  then show ?thesis by (simp add: entry_conforms_def)
qed

lemma conforms_fpWrite [simp]:
  "plain_conforms fl (fpWrite g v) \<longleftrightarrow> (fcIndex g = kNoRegWrite \<or> has fl S_WritesRa \<or> has fl S_WritesRc) \<and>
    \<not> has fl S_Load \<and> \<not> has fl S_Store \<and> has fl S_WritesFp \<and> \<not> has fl S_OpcDec"
proof -
  have "unat (ucast (encoded g AND 0x1F) :: u8) \<le> 31"
    using unat_and_le [of "encoded g" "0x1F"] by (simp add: unsigned_ucast_eq take_bit_eq_mod)
  then have "fcIndex g \<le> 31" by (simp add: fcIndex_def word_le_nat_alt)
  then show ?thesis
    by (auto simp: plain_conforms_def fpWrite_def newBoxResult_def kNoMemEffect_def)
qed

lemma register_index_le [simp]: "rcIndex g \<le> 31" "raIndex g \<le> 31"
proof -
  have "unat (ucast (x AND 0x1F :: u32) :: u8) \<le> 31" for x
    using unat_and_le [of x "0x1F"] by (simp add: unsigned_ucast_eq take_bit_eq_mod)
  then show "rcIndex g \<le> 31" "raIndex g \<le> 31"
    by (simp_all add: rcIndex_def raIndex_def word_le_nat_alt)
qed

lemma no_register_le [simp]: "kNoRegWrite \<le> 31"
  by (simp add: kNoRegWrite_def)

lemma conforms_writeRc [simp]:
  "(rcIndex g = kNoRegWrite \<or> has fl S_WritesRa \<or> has fl S_WritesRc) \<and>
    \<not> has fl S_Load \<and> \<not> has fl S_Store \<and> \<not> has fl S_WritesFp \<and> \<not> has fl S_OpcDec \<Longrightarrow>
    plain_conforms fl (writeRc g v)"
  "(\<not> m \<or> rcIndex g = kNoRegWrite \<or> has fl S_WritesRa \<or> has fl S_WritesRc) \<and>
    \<not> has fl S_Load \<and> \<not> has fl S_Store \<and> \<not> has fl S_WritesFp \<and> \<not> has fl S_OpcDec \<Longrightarrow>
    plain_conforms fl (writeRcIf m g v)"
  "(rcIndex g = kNoRegWrite \<or> has fl S_WritesRa \<or> has fl S_WritesRc) \<and>
    \<not> has fl S_Load \<and> \<not> has fl S_Store \<and> has fl S_WritesFp \<and> \<not> has fl S_OpcDec \<Longrightarrow>
    plain_conforms fl ((writeRc g v)\<lparr>regWriteIsFp := True\<rparr>)"
  by (auto simp: plain_conforms_def kNoMemEffect_def writeRc_def writeRcIf_def newBoxResult_def)

lemma conforms_writeRa [simp]:
  "(raIndex g = kNoRegWrite \<or> has fl S_WritesRa \<or> has fl S_WritesRc) \<and>
    \<not> has fl S_Load \<and> \<not> has fl S_Store \<and> \<not> has fl S_WritesFp \<and> \<not> has fl S_OpcDec \<Longrightarrow>
    plain_conforms fl (writeRa g v)"
  "(raIndex g = kNoRegWrite \<or> has fl S_WritesRa \<or> has fl S_WritesRc) \<and> has fl S_ChangesPC \<and>
    \<not> has fl S_Load \<and> \<not> has fl S_Store \<and> \<not> has fl S_WritesFp \<and> \<not> has fl S_OpcDec \<Longrightarrow>
    plain_conforms fl ((writeRa g v)\<lparr>divertTarget := t, divert := True\<rparr>)"
  "(\<not> b \<or> has fl S_ChangesPC) \<and>
    \<not> has fl S_Load \<and> \<not> has fl S_Store \<and> \<not> has fl S_WritesFp \<and> \<not> has fl S_OpcDec \<Longrightarrow>
    plain_conforms fl (condBranch b g)"
  "\<not> has fl S_Load \<and> \<not> has fl S_Store \<and> \<not> has fl S_WritesFp \<and> \<not> has fl S_OpcDec \<Longrightarrow>
    plain_conforms fl (newBoxResult\<lparr>semFlags := s\<rparr>)"
  by (auto simp: plain_conforms_def kNoMemEffect_def writeRa_def condBranch_def newBoxResult_def)

lemma conforms_memory [simp]:
  "sz \<in> {1, 2, 4, 8} \<Longrightarrow>
    (raIndex g = kNoRegWrite \<or> has fl S_WritesRa \<or> has fl S_WritesRc) \<and>
    has fl S_Load \<and> \<not> has fl S_Store \<and> \<not> has fl S_WritesFp \<and> \<not> has fl S_OpcDec \<Longrightarrow>
    plain_conforms fl (loadRa g ea sz)"
  "sz \<in> {1, 2, 4, 8} \<Longrightarrow> has fl S_Store \<and> \<not> has fl S_WritesFp \<and> \<not> has fl S_OpcDec \<Longrightarrow>
    plain_conforms fl (storeRa g c ea sz)"
  "sz \<in> {1, 2, 4, 8} \<Longrightarrow> i \<le> 31 \<and> (i = kNoRegWrite \<or> has fl S_WritesRa \<or> has fl S_WritesRc) \<and>
    has fl S_Store \<and> \<not> has fl S_WritesFp \<and> \<not> has fl S_OpcDec \<Longrightarrow>
    plain_conforms fl ((storeRa g c ea sz)\<lparr>regWriteIdx := i\<rparr>)"
  by (auto simp: plain_conforms_def kNoMemEffect_def loadRa_def storeRa_def newBoxResult_def)

lemma conforms_float [simp]:
  "(fcIndex g = kNoRegWrite \<or> has fl S_WritesRa \<or> has fl S_WritesRc) \<and>
    \<not> has fl S_Load \<and> \<not> has fl S_Store \<and> has fl S_WritesFp \<and> \<not> has fl S_OpcDec \<Longrightarrow>
    plain_conforms fl (fcmov m g c)"
  "(\<not> b \<or> has fl S_ChangesPC) \<and> \<not> has fl S_Load \<and> \<not> has fl S_Store \<and> \<not> has fl S_OpcDec \<Longrightarrow>
    plain_conforms fl (fpBranch b g)"
  "sz \<in> {4, 8} \<Longrightarrow> (raIndex g = kNoRegWrite \<or> has fl S_WritesRa \<or> has fl S_WritesRc) \<and>
    has fl S_Load \<and> \<not> has fl S_Store \<and> has fl S_WritesFp \<and> \<not> has fl S_OpcDec \<Longrightarrow>
    plain_conforms fl (fpLoad g c sz)"
  "sz \<in> {4, 8} \<Longrightarrow> has fl S_Store \<and> \<not> has fl S_OpcDec \<Longrightarrow> plain_conforms fl (fpStore g c v sz)"
proof -
  show "(fcIndex g = kNoRegWrite \<or> has fl S_WritesRa \<or> has fl S_WritesRc) \<and>
    \<not> has fl S_Load \<and> \<not> has fl S_Store \<and> has fl S_WritesFp \<and> \<not> has fl S_OpcDec \<Longrightarrow>
    plain_conforms fl (fcmov m g c)"
    by (cases m) (simp_all add: fcmov_def conforms_fpWrite, simp add: plain_conforms_def newBoxResult_def kNoMemEffect_def)
qed (auto simp: plain_conforms_def fpBranch_def fpLoad_def fpStore_def newBoxResult_def kNoMemEffect_def Let_def)

lemma hwQuadSize_width: "hwQuadSize g \<in> {1, 2, 4, 8}"
  by (simp add: hwQuadSize_def)

lemma conforms_opcdec [simp]: "entry_conforms kOpcDecEntry"
  by (simp add: kOpcDecEntry_def execOpcDec_def result_conforms_def plain_conforms_def newBoxResult_def kNoRegWrite_def
      kNoMemEffect_def kFaultOpcDec_def kNoFault_def)

definition table_conforms :: "subtable \<Rightarrow> bool" where
  "table_conforms t \<longleftrightarrow> list_all (\<lambda>(i, e). entry_conforms e) t"

lemma slot_conforms: "table_conforms t \<Longrightarrow> entry_conforms (slot t i)"
  by (auto simp: table_conforms_def list_all_iff slot_def dest!: map_of_SomeD split: option.split)

lemma int_tables_conform:
  "table_conforms g_intArithSubTable" "table_conforms g_intLogicalSubTable"
  "table_conforms g_intShiftSubTable" "table_conforms g_intMulSubTable"
  by (simp_all add: table_conforms_def result_conforms_def g_intArithSubTable_def g_intLogicalSubTable_def
    g_intShiftSubTable_def g_intMulSubTable_def execAddl_def execS4addl_def execSubl_def execS4subl_def
    execCmpbge_def execS8addl_def execS8subl_def execCmpult_def execAddq_def execS4addq_def execSubq_def
    execS4subq_def execCmpeq_def execS8addq_def execS8subq_def execCmpule_def execCmplt_def execCmple_def
    execAnd_def execBic_def execCmovlbs_def execCmovlbc_def execBis_def execCmoveq_def execCmovne_def
    execOrnot_def execXor_def execCmovlt_def execCmovge_def execEqv_def execAmask_def execCmovle_def
    execCmovgt_def execImplver_def execMskbl_def execExtbl_def execInsbl_def execMskwl_def execExtwl_def
    execInswl_def execMskll_def execExtll_def execInsll_def execZap_def execZapnot_def execMskql_def
    execSrl_def execExtql_def execSll_def execInsql_def execSra_def execMskwh_def execInswh_def
    execExtwh_def execMsklh_def execInslh_def execExtlh_def execMskqh_def execInsqh_def execExtqh_def
    execMull_def execMulq_def execUmulh_def)

lemma other_tables_conform:
  "table_conforms g_jmpClassSubTable" "table_conforms g_fpTiExtSubTable" "table_conforms lookupMisc_cases"
  by (simp_all add: table_conforms_def result_conforms_def
    g_jmpClassSubTable_def g_fpTiExtSubTable_def lookupMisc_cases_def
    execJmp_def execJsr_def execRet_def execJsrCoroutine_def
    indirectJump_def execSextb_def execSextw_def execCtpop_def execPerr_def execCtlz_def execCttz_def
    execUnpkbw_def execUnpkbl_def execPkwb_def execPklb_def execMinsb8_def execMinsw4_def execMinub8_def
    execMinuw4_def execMaxub8_def execMaxuw4_def execMaxsb8_def execMaxsw4_def execFtoit_def
    execTrapb_def execExcb_def execMb_def execWmb_def execFetch_def execRpcc_def execRc_def execEcb_def
    execRs_def)

lemma float_tables_conform:
  "table_conforms g_itFpSubTable" "table_conforms g_fltVaxSubTable" "table_conforms g_fltIeeeSubTable"
  by (simp_all add: table_conforms_def result_conforms_def g_itFpSubTable_def g_fltVaxSubTable_def
    g_fltIeeeSubTable_def fp_leaf_defs execItofs_def execItoff_def execItoft_def)

lemma conforms_fpcr [simp]:
  "keeps_shape cpu (fst (execMfFpcr g c cpu)) (snd (execMfFpcr g c cpu))"
  "keeps_shape cpu (fst (execMtFpcr g c cpu)) (snd (execMtFpcr g c cpu))"
  "\<not> has fl S_Load \<and> \<not> has fl S_Store \<and> \<not> has fl S_WritesFp \<and> \<not> has fl S_OpcDec \<Longrightarrow>
    plain_conforms fl (fst (execMtFpcr g c cpu))"
  "plain_conforms fl (fpWrite g (fpcr cpu)) \<Longrightarrow> plain_conforms fl (fst (execMfFpcr g c cpu))"
  by (simp_all add: keeps_shape_def execMfFpcr_def execMtFpcr_def fpWrite_def newBoxResult_def plain_conforms_def
      kNoMemEffect_def)

lemma fltLogical_conforms: "table_conforms g_fltLogicalSubTable"
  by (simp add: table_conforms_def result_conforms_def g_fltLogicalSubTable_def fp_leaf_defs fp_pure_defs Let_def)

lemma pal_result_conforms:
  "has fl S_PalFormat \<Longrightarrow> has fl S_ChangesPC \<Longrightarrow> \<not> has fl S_Load \<and> \<not> has fl S_Store \<Longrightarrow>
    result_conforms n fl (fst (execCallPalDispatch g c cpu))"
  "has fl S_PalFormat \<Longrightarrow> n \<in> set misflagged \<Longrightarrow> result_conforms n fl (fst (execCallPalDispatch g c cpu))"
  "has fl S_PalFormat \<Longrightarrow> \<not> has fl S_Load \<and> \<not> has fl S_Store \<Longrightarrow>
    result_conforms n fl ((palResult g)\<lparr>faultCode := x\<rparr>)"
  "has fl S_PalFormat \<Longrightarrow> has fl S_WritesRa \<Longrightarrow> \<not> has fl S_Load \<and> \<not> has fl S_Store \<Longrightarrow>
    result_conforms n fl (palReturn g v)"
  "has fl S_PalFormat \<Longrightarrow> \<not> has fl S_Load \<and> \<not> has fl S_Store \<Longrightarrow> result_conforms n fl (palResult g)"
  "has fl S_PalFormat \<Longrightarrow> n \<in> set misflagged \<Longrightarrow> result_conforms n fl (fst (execLdqp_vms g c cpu))"
  "has fl S_PalFormat \<Longrightarrow> n \<in> set misflagged \<Longrightarrow> result_conforms n fl (fst (execStqp_vms g c cpu))"
  "has fl S_PalFormat \<Longrightarrow> n \<in> set misflagged \<Longrightarrow> result_conforms n fl (fst (execMfprWhami g c cpu))"
  "has fl S_PalFormat \<Longrightarrow> has fl S_WritesRa \<Longrightarrow> \<not> has fl S_Load \<and> \<not> has fl S_Store \<Longrightarrow>
    result_conforms n fl (fst (execMfprVptb_vms g c cpu))"
  "has fl S_PalFormat \<Longrightarrow> \<not> has fl S_Load \<and> \<not> has fl S_Store \<Longrightarrow>
    result_conforms n fl (fst (execMtprVptb_vms g c cpu))"
  by (simp_all add: result_conforms_def pal_conforms_def execCallPalDispatch_def execLdqp_vms_def execStqp_vms_def
      Let_def kNoMemEffect_def execMfprWhami_def execMfprVptb_vms_def execMtprVptb_vms_def)

lemma cserve_result: "has fl S_PalFormat \<Longrightarrow> n \<in> set misflagged \<Longrightarrow> result_conforms n fl (fst (execCserve g c cpu mem))"
proof -
  assume fl: "has fl S_PalFormat" "n \<in> set misflagged"
  define f where "f = intReg cpu ! 16 AND 0xFF"
  have "case execCserve g c cpu mem of (r, x) \<Rightarrow> result_conforms n fl r"
    unfolding execCserve_def Let_def f_def [symmetric] result_conforms_def using fl
    by (simp add: kNoMemEffect_def split: if_split)
  then show ?thesis by (simp add: case_prod_beta)
qed

lemma conforms_cserve [simp]:
  "S_PalFormat \<in> set fs \<Longrightarrow> n \<in> set misflagged \<Longrightarrow> entry_conforms (grainEntry (WithMem execCserve) fs b n)"
proof -
  assume fs: "S_PalFormat \<in> set fs" "n \<in> set misflagged"
  have "conforms (grainEntry (WithMem execCserve) fs b n) g c cpu fp mem" for g c cpu fp mem
    using keeps_shape_cserve [where g = g and c = c and cpu = cpu and mem = mem]
      cserve_result [of "flagSet fs" n g c cpu mem] fs
    by (simp add: conforms_def grainEntry_def case_prod_beta)
  then show ?thesis by (simp add: entry_conforms_def)
qed

lemma misflagged_names:
  "''CSERVE'' \<in> set misflagged" "''LDQP'' \<in> set misflagged" "''STQP'' \<in> set misflagged"
  "''MFPR_SCBB'' \<in> set misflagged" "''MTPR_SCBB'' \<in> set misflagged" "''MFPR_WHAMI'' \<in> set misflagged"
  by (simp_all add: misflagged_def)

lemma pal_tables_conform: "table_conforms lookupPalTru64_cases" "table_conforms lookupPalVms_cases"
  by (simp_all add: table_conforms_def lookupPalTru64_cases_def lookupPalVms_cases_def pal_result_conforms misflagged_names
    call_pal_defs execBpt_tru64_def execBpt_vms_def execChmk_tru64_def execSwpctx_vms_def execHalt_def execWtint_def)

lemma pal_lookups_conform: "entry_conforms (lookupPalTru64 f)" "entry_conforms (lookupPalVms f)"
  using pal_tables_conform
  by (auto simp: lookupPalTru64_def lookupPalVms_def table_conforms_def list_all_iff pal_result_conforms
      dest!: map_of_SomeD split: option.split)

lemma hw_conforms [simp]:
  "S_HwFormat \<in> set fs \<Longrightarrow> S_WritesRa \<in> set fs \<Longrightarrow> set fs \<inter> {S_Load, S_Store, S_WritesFp, S_OpcDec} = {} \<Longrightarrow>
    plain_conforms (flagSet fs) (fst (execHwMfpr g c cpu))"
  "S_HwFormat \<in> set fs \<Longrightarrow> set fs \<inter> {S_Load, S_Store, S_WritesFp, S_OpcDec} = {} \<Longrightarrow>
    plain_conforms (flagSet fs) (fst (execHwMtpr g c cpu))"
  "S_ChangesPC \<in> set fs \<Longrightarrow> set fs \<inter> {S_Load, S_Store, S_WritesFp, S_OpcDec} = {} \<Longrightarrow>
    plain_conforms (flagSet fs) (fst (execHwRei g c cpu))"
  by (auto simp: plain_conforms_def execHwMfpr_def execHwMtpr_def execHwRei_def Let_def
      kNoMemEffect_def split: option.split)

lemma primary_conforms:
  "list_all (\<lambda>pe. entry_conforms (direct pe) \<and>
     (case subTable pe of Some t \<Rightarrow> table_conforms t | None \<Rightarrow> True)) g_primaryTable"
  by (simp add: g_primaryTable_def subEntry_def directEntry_def int_tables_conform other_tables_conform
    float_tables_conform fltLogical_conforms hw_conforms result_conforms_def fp_pure_defs fp_memory_defs
    execLda_def execLdah_def execLdbu_def execLdqU_def execLdwu_def execStw_def execStb_def execStqU_def
    execHwLd_def execHwSt_def execLdl_def execLdq_def execLdlL_def execLdqL_def execStl_def execStq_def
    execStlC_def execStqC_def execBr_def execBsr_def execBlbc_def execBeq_def execBlt_def execBle_def
    execBlbs_def execBne_def execBge_def execBgt_def hwQuadSize_def)

lemma length_primaryTable: "length g_primaryTable = 64"
  by (simp add: g_primaryTable_def)

lemma subDecode_conforms:
  "entry_conforms (direct pe) \<Longrightarrow> (\<And>t. subTable pe = Some t \<Longrightarrow> table_conforms t) \<Longrightarrow> entry_conforms (subDecode pe i)"
  by (auto simp: subDecode_def intro: slot_conforms split: option.split)

lemma decode_conforms: "entry_conforms (decode w p)"
proof -
  define pe where "pe = primaryEntry (ucast (drop_bit 26 w AND 0x3F))"
  have "unat (op AND 0x3F :: u8) < length g_primaryTable" for op
    using unat_and_le [of op "0x3F"] by (simp add: length_primaryTable)
  then have "pe \<in> set g_primaryTable" by (simp add: pe_def primaryEntry_def)
  then have "entry_conforms (direct pe)" "\<And>t. subTable pe = Some t \<Longrightarrow> table_conforms t"
    using primary_conforms by (auto simp: list_all_iff split: option.splits)
  then show ?thesis
    by (auto simp: decode_def pe_def [symmetric] Let_def subDecode_conforms pal_lookups_conform
        lookupMisc_def other_tables_conform float_tables_conform fltLogical_conforms intro: slot_conforms split: DispatchKind.split)
qed

text \<open>
  How the six entries break the contract: MFPR\_SCBB and MTPR\_SCBB divert the PC without the
  control-flow flag, MFPR\_WHAMI writes R0 without a written-register flag, LDQP and STQP access memory
  without the load or store flag, and the jump service of CSERVE diverts the PC without its flag.
\<close>

lemma misflagged_entries:
  "\<not> pal_conforms (e_semFlags (lookupPalVms 0x16)) (fst (execMfprScbb_vms g c cpu))"
  "\<not> pal_conforms (e_semFlags (lookupPalVms 0x17)) (fst (execMtprScbb_vms g c cpu))"
  "\<not> pal_conforms (e_semFlags (lookupPalVms 0x3F)) (fst (execMfprWhami g c cpu))"
  "intReg cpu ! 16 AND 7 = 0 \<Longrightarrow> \<not> pal_conforms (e_semFlags (lookupPalVms 0x3)) (fst (execLdqp_vms g c cpu))"
  "intReg cpu ! 16 AND 7 = 0 \<Longrightarrow> \<not> pal_conforms (e_semFlags (lookupPalVms 0x4)) (fst (execStqp_vms g c cpu))"
  "intReg cpu ! 16 AND 0xFF = 0x44 \<Longrightarrow> \<not> pal_conforms (e_semFlags (lookupPalVms 0x9)) (fst (execCserve g c cpu mem))"
  by (simp_all add: lookupPalVms_def lookupPalVms_cases_def grainEntry_def pal_conforms_def execMfprScbb_vms_def
      execMtprScbb_vms_def execCallPalDispatch_def Let_def execMfprWhami_def palReturn_def palResult_def newBoxResult_def
      kNoRegWrite_def kNoMemEffect_def execLdqp_vms_def execStqp_vms_def execCserve_def)

text \<open>
  C14. Every instruction word decodes to an entry whose leaf keeps the contract its semantic flags
  declare: it names a destination register only if the entry is flagged as writing one, accesses
  memory exactly when flagged as a load or store, with a width of 1, 2, 4 or 8 bytes, redirects the
  PC only if flagged as control flow, targets the floating point file exactly when flagged so, and
  faults at the execute stage only as the decode error or for an unknown hardware register. An integer
  leaf changes no processor state but the interrupt flag; a floating point leaf only the control
  register, where no exception bit is ever cleared and the summary bit is the disjunction of them. A
  CALL\_PAL leaf keeps the same flags, may fault, returns its value in R0 or none, keeps the register
  file's shape and, when it faults, has changed neither a register nor memory; for the six entries of
  misflagged (CSERVE, LDQP, STQP, MFPR\_SCBB, MTPR\_SCBB, MFPR\_WHAMI) only the latter is stated, since
  their flags do not announce what they do. This holds for every back end and every memory.
\<close>

theorem decoded_leaf_conforms: "conforms (decode w personality) g c cpu fp mem"
  using decode_conforms [of w personality] by (simp add: entry_conforms_def)

section \<open>Decode anomalies\<close>

text \<open>
  The ItFp group has an 11-bit function code and a 2048-entry table, but decode indexes it with seven
  bits: SQRTS, function 0x08B, reaches the slot 0x00B of SQRTS/C, which rounds toward zero.
\<close>

lemma sqrts_decodes_as_chopped:
  "mnemonic (slot g_itFpSubTable 0x08B) = ''SQRTS'' \<and>
   mnemonic (decode 0x53E01160 0) = mnemonic (slot g_itFpSubTable 0x00B) \<and>
   mnemonic (slot g_itFpSubTable 0x00B) \<noteq> ''SQRTS'' \<and> drop_bit 5 (0x53E01160 :: u32) AND 0x7FF = 0x08B"
  by (simp add: decode_def primaryEntry_def g_primaryTable_def subEntry_def subDecode_def
      slot_def g_itFpSubTable_def grainEntry_def)

text \<open>The VAX floating point group has a populated table that decode never consults.\<close>

lemma vax_group_unreachable:
  assumes "drop_bit 26 w AND 0x3F = 0x15"
  shows "decode w p = kOpcDecEntry"
  using assms by (simp add: decode_def primaryEntry_def g_primaryTable_def subEntry_def)

end
