(* ===== verification/Pipeline.thy ===== *)
theory Pipeline
  imports Dispatch
begin

text \<open>
  The instruction cycle: pipelineLib/PipelineDriver.h (operand fetch, execute, retire, the run loop)
  and pipelineLib/MemDrainer.h (the memory and register effects of a result).

  The system bus is the abstract class of memoryLib/ISystemBus.h: a record of its three virtual
  methods over the state of the implementing object. The guest memory that the source passes as a second
  reference is the one behind that bus: the drainer uses its lock monitor, which is a component of its
  own here, and the console service its bytes, through an accessor of the bus state. The floating point
  back end is an argument. The fetch override, the trace sink, the diagnostic probes and the time-warp
  option that an environment variable enables are left out; the environment variable that selects the
  platform is an argument.
\<close>

section \<open>The bus interface\<close>

datatype BusStatus = BS_Ok | BS_BusError

record BusResult =
  br_status :: BusStatus
  br_data :: u64

record 'b ISystemBus =
  bus_read :: "u64 \<Rightarrow> u8 \<Rightarrow> 'b \<Rightarrow> BusResult \<times> 'b"
  bus_write :: "u64 \<Rightarrow> u64 \<Rightarrow> u8 \<Rightarrow> 'b \<Rightarrow> BusResult \<times> 'b"
  bus_fetch :: "u64 \<Rightarrow> u8 \<Rightarrow> 'b \<Rightarrow> BusResult \<times> 'b"

type_synonym locks = "Reservation list"

record 'b MemPort =
  mp_get :: "'b \<Rightarrow> GuestMemory"
  mp_put :: "GuestMemory \<Rightarrow> 'b \<Rightarrow> 'b"

section \<open>The memory drainer\<close>

definition formatLoadValue :: "u64 \<Rightarrow> u8 \<Rightarrow> bool \<Rightarrow> u64 \<Rightarrow> u64" where
  "formatLoadValue rawv msize isFp flags =
    (if isFp then
       (let isVax = has flags S_VaxFp in
        if msize = 4 then
          (let mem32 = ucast rawv :: u32 in
           if isVax then convertF_FloatingToRegister mem32 else convertS_FloatingToRegister mem32)
        else if msize = 8 then
          (if isVax then convertG_FloatingToRegister rawv else convertT_FloatingToRegister rawv)
        else rawv)
     else if msize = 4 then scast (ucast rawv :: u32)
     else rawv)"

definition busFault :: "BoxResult \<Rightarrow> Cpu \<Rightarrow> BoxResult \<times> Cpu" where
  "busFault r cpu = (r\<lparr>faultCode := kFaultBusError\<rparr>,
     cpu\<lparr>mm_stat := memAddr r, errorReg := errorReg cpu OR 1, dataReg := 1\<rparr>)"

definition applyLoadEffect :: "'b ISystemBus \<Rightarrow> bool \<Rightarrow> BoxResult \<Rightarrow> Cpu \<Rightarrow> 'b \<Rightarrow> locks \<Rightarrow> u64 \<Rightarrow> bool \<Rightarrow>
    BoxResult \<times> Cpu \<times> 'b \<times> locks" where
  "applyLoadEffect bus isp r cpu b locks pa isLocked =
    (case bus_read bus pa (memSize r) b of (br, b1) \<Rightarrow>
       let rawv = (if isp \<and> pa = 0xBFFC then 0xCAFEBEEF else br_data br) in
       if br_status br \<noteq> BS_Ok then (case busFault r cpu of (r1, cpu1) \<Rightarrow> (r1, cpu1, b1, locks))
       else (r\<lparr>regWriteValue := formatLoadValue rawv (memSize r) (regWriteIsFp r) (semFlags r)\<rparr>,
             cpu, b1,
             if isLocked then lockSet (sint (cpuSlot cpu)) pa locks else locks))"

definition applyStoreEffect :: "'b ISystemBus \<Rightarrow> BoxResult \<Rightarrow> Cpu \<Rightarrow> 'b \<Rightarrow> locks \<Rightarrow> u64 \<Rightarrow> bool \<Rightarrow>
    BoxResult \<times> Cpu \<times> 'b \<times> locks" where
  "applyStoreEffect bus r cpu b locks pa isLocked =
    (let lockSlot = sint (cpuSlot cpu);
         valid = lockCheck lockSlot pa locks;
         locks1 = (if isLocked then lockClear lockSlot locks else locks)
     in if isLocked \<and> \<not> valid then (r\<lparr>regWriteValue := 0\<rparr>, cpu, b, locks1)
        else case bus_write bus pa (memData r) (memSize r) b of (br, b1) \<Rightarrow>
          if br_status br \<noteq> BS_Ok then (case busFault r cpu of (r1, cpu1) \<Rightarrow> (r1, cpu1, b1, locks1))
          else (if isLocked then r\<lparr>regWriteValue := 1\<rparr> else r, cpu, b1,
                lockClearLine pa lockSlot locks1))"

definition faultStatus :: "InstructionGrain \<Rightarrow> BoxResult \<Rightarrow> TranslationResult \<Rightarrow> u64" where
  "faultStatus g r tr =
     (if memIsStore r then 1 else 0)
     OR (if tr = AccessViolation then push_bit 1 1 else 0)
     OR (if tr = FaultOnRead then push_bit 2 1 else 0)
     OR (if tr = FaultOnWrite then push_bit 3 1 else 0)
     OR push_bit 4 (ucast (drop_bit 26 (encoded g)) AND 0x3F)"

definition applyMemEffect :: "'b ISystemBus \<Rightarrow> bool \<Rightarrow> InstructionGrain \<Rightarrow> BoxResult \<Rightarrow> Cpu \<Rightarrow> 'b \<Rightarrow>
    locks \<Rightarrow> BoxResult \<times> Cpu \<times> 'b \<times> locks" where
  "applyMemEffect bus isp g r cpu b locks =
    (let physAddr = has (semFlags r) S_PhysAddr;
         access = (if memIsStore r then DataWrite else DataRead);
         (tr, pa) = (if physAddr then (Success, memAddr r)
                     else translateDataAligned cpu (memAddr r) (memSize r) access 0)
     in if \<not> physAddr \<and> tr \<noteq> Success then
          (let code = toFaultCode tr;
               code1 = (if code = kFaultDtbMiss \<and> primaryOp g = 0x1B \<and>
                           drop_bit 13 (encoded g) AND 0x7 = 0x2
                        then kFaultDtbMissDouble else code)
           in (r\<lparr>faultCode := code1\<rparr>,
               cpu\<lparr>mm_stat := faultStatus g r tr, cpu_va := memAddr r\<rparr>, b, locks))
        else
          (let r1 = r\<lparr>memPhysAddr := pa\<rparr>; isLocked = has (semFlags r) S_Locked
           in if memIsStore r then applyStoreEffect bus r1 cpu b locks pa isLocked
              else applyLoadEffect bus isp r1 cpu b locks pa isLocked))"

definition commitReg :: "BoxResult \<Rightarrow> Cpu \<Rightarrow> Cpu" where
  "commitReg r cpu =
    (let cpu1 = (if regWriteIdx r = kNoRegWrite then cpu
                 else if regWriteIsFp r
                 then cpu\<lparr>fpReg := (fpReg cpu)[unat (regWriteIdx r) := regWriteValue r]\<rparr>
                 else cpu\<lparr>intReg := (intReg cpu)[unat (regWriteIdx r) := regWriteValue r]\<rparr>)
     in if intReg cpu1 ! 31 \<noteq> 0 then cpu1\<lparr>intReg := (intReg cpu1)[31 := 0]\<rparr> else cpu1)"

definition drain :: "'b ISystemBus \<Rightarrow> bool \<Rightarrow> InstructionGrain \<Rightarrow> BoxResult \<Rightarrow> Cpu \<Rightarrow> 'b \<Rightarrow> locks \<Rightarrow>
    BoxResult \<times> Cpu \<times> 'b \<times> locks" where
  "drain bus isp g r cpu b locks =
    (if faultCode r \<noteq> kNoFault then (r, cpu, b, locks)
     else case (if memSize r \<noteq> kNoMemEffect then applyMemEffect bus isp g r cpu b locks
                else (r, cpu, b, locks)) of
       (r1, cpu1, b1, locks1) \<Rightarrow>
         if faultCode r1 \<noteq> kNoFault then (r1, cpu1, b1, locks1)
         else (r1, commitReg r1 cpu1, b1, locks1))"

section \<open>The driver\<close>

definition buildCtx :: "InstructionGrain \<Rightarrow> Cpu \<Rightarrow> ExecCtx" where
  "buildCtx g cpu =
    (let flags = g_semFlags g;
         useFp = has flags S_ReadsFp;
         isMemFormat = has flags S_MemFormat;
         ra = unat (drop_bit 21 (encoded g) AND 0x1F);
         rb = unat (drop_bit 16 (encoded g) AND 0x1F);
         a = (if has flags S_ReadsRa then (if useFp then fpReg cpu ! ra else intReg cpu ! ra) else 0);
         isOpFormat = (has flags S_OpFormat \<or> has flags S_FpFormat);
         immBit = (isOpFormat \<and> encoded g AND push_bit 12 1 \<noteq> 0);
         rbFromFp = (useFp \<and> \<not> isMemFormat);
         bv = (if has flags S_ReadsRb then
                 (if immBit then ucast (drop_bit 13 (encoded g) AND 0xFF)
                  else if rbFromFp then fpReg cpu ! rb else intReg cpu ! rb)
               else 0)
     in \<lparr>opA = a, opB = bv, ctx_cycleCount = cycleCount cpu, palMode = inPalMode cpu\<rparr>)"

definition retire :: "InstructionGrain \<Rightarrow> BoxResult \<Rightarrow> Cpu \<Rightarrow> Cpu" where
  "retire g r cpu =
    (if faultCode r = kFaultHalt then cpu\<lparr>halted := True, lastFaultCode := kFaultHalt\<rparr>
     else if faultCode r \<noteq> kNoFault then
       (let cpu1 = cpu\<lparr>lastFaultCode := faultCode r\<rparr>;
            entryOffset = entryForFault (faultCode r)
        in if palBase cpu1 = 0 \<or> entryOffset = kEntry_None
           then cpu1\<lparr>excAddr := g_pc g, halted := True\<rparr>
           else
             (let basePc = g_pc g AND NOT 1;
                  basePc1 = (if faultCode r = kFaultBusError then basePc + 4 else basePc);
                  cpu2 = cpu1\<lparr>excAddr := basePc1 OR (if inPalMode cpu1 then 1 else 0)\<rparr>;
                  cpu3 = palModeEnter cpu2
              in cpu3\<lparr>pc := computeHwExceptionEntry (palBase cpu3) entryOffset OR 1\<rparr>))
     else if divert r then cpu\<lparr>pc := divertTarget r\<rparr>
     else cpu\<lparr>pc := g_pc g + 4\<rparr>)"

text \<open>The slot before decode, and the decoded grain.\<close>

definition fetchedGrain :: "Cpu \<Rightarrow> InstructionGrain" where
  "fetchedGrain cpu = \<lparr>g_pc = pc cpu, g_semFlags = 0, encoded = 0, g_box = Ebox, primaryOp = 0\<rparr>"

definition decodedGrain :: "Cpu \<Rightarrow> u32 \<Rightarrow> GrainEntry \<Rightarrow> InstructionGrain" where
  "decodedGrain cpu w e =
    (let op = ucast (drop_bit 26 w AND 0x3F) :: u8;
         physical = ((op = 0x1B \<or> op = 0x1F) \<and> drop_bit 14 w AND 0x3 = 0)
     in \<lparr>g_pc = pc cpu,
         g_semFlags = (if physical then e_semFlags e OR push_bit (flagBit S_PhysAddr) 1
                       else e_semFlags e),
         encoded = w, g_box = e_box e, primaryOp = op\<rparr>)"

definition execFn :: "'b MemPort \<Rightarrow> IFpBackend \<Rightarrow> GrainFn \<Rightarrow> InstructionGrain \<Rightarrow> ExecCtx \<Rightarrow> Cpu \<Rightarrow> 'b \<Rightarrow>
    BoxResult \<times> Cpu \<times> 'b" where
  "execFn gm fp f g c cpu b =
    (case f of Pure leaf \<Rightarrow> (leaf g c, cpu, b)
     | WithCpu leaf \<Rightarrow> (case leaf g cpu of (r, cpu1) \<Rightarrow> (r, cpu1, b))
     | WithCtx leaf \<Rightarrow> (case leaf g c cpu of (r, cpu1) \<Rightarrow> (r, cpu1, b))
     | Fp leaf \<Rightarrow> (case leaf fp g c cpu of (r, cpu1) \<Rightarrow> (r, cpu1, b))
     | WithMem leaf \<Rightarrow> (case leaf g c cpu (mp_get gm b) of (r, cpu1, m) \<Rightarrow> (r, cpu1, mp_put gm m b)))"

definition fetchFault :: "u16 \<Rightarrow> Cpu \<Rightarrow> Cpu" where
  "fetchFault code cpu =
    (let cpu1 = cpu\<lparr>cpu_va := pc cpu, mm_stat := pc cpu\<rparr>;
         cpu2 = retire (fetchedGrain cpu) (newBoxResult\<lparr>faultCode := code\<rparr>) cpu1
     in cpu2\<lparr>cycleCount := cycleCount cpu2 + 1\<rparr>)"

definition issue :: "'b ISystemBus \<Rightarrow> 'b MemPort \<Rightarrow> IFpBackend \<Rightarrow> bool \<Rightarrow> u32 \<Rightarrow> Cpu \<Rightarrow> 'b \<Rightarrow> locks \<Rightarrow>
    BoxResult \<times> Cpu \<times> 'b \<times> locks" where
  "issue bus gm fp isp w cpu b locks =
    (let e = decode w (palPersonality cpu);
         g = decodedGrain cpu w e
     in case execFn gm fp (e_fn e) g (buildCtx g cpu) cpu b of (r, cpu1, b1) \<Rightarrow>
        case drain bus isp g r cpu1 b1 locks of (r1, cpu2, b2, locks1) \<Rightarrow>
          let cpu3 = retire g r1 cpu2
          in (r1, cpu3\<lparr>cycleCount := cycleCount cpu3 + 1\<rparr>, b2, locks1))"

definition step :: "'b ISystemBus \<Rightarrow> 'b MemPort \<Rightarrow> IFpBackend \<Rightarrow> bool \<Rightarrow> Cpu \<times> 'b \<times> locks \<Rightarrow>
    bool \<times> Cpu \<times> 'b \<times> locks" where
  "step bus gm fp isp s =
    (case s of (cpu, b, locks) \<Rightarrow>
     if halted cpu then (False, cpu, b, locks)
     else case translateInstruction cpu (pc cpu) 0 of (itr, pa) \<Rightarrow>
       if itr \<noteq> Success then
         (let cpu1 = fetchFault (toFaultCode itr) cpu in (\<not> halted cpu1, cpu1, b, locks))
       else case bus_fetch bus pa 4 b of (fr, b1) \<Rightarrow>
         if br_status fr \<noteq> BS_Ok then
           (let cpu1 = fetchFault kFaultBusError cpu in (\<not> halted cpu1, cpu1, b1, locks))
         else case issue bus gm fp isp (ucast (br_data fr)) cpu b1 locks of (r, cpu1, b2, locks1) \<Rightarrow>
           (\<not> halted cpu1, cpu1, b2, locks1))"

fun run :: "'b ISystemBus \<Rightarrow> 'b MemPort \<Rightarrow> IFpBackend \<Rightarrow> bool \<Rightarrow> nat \<Rightarrow> Cpu \<times> 'b \<times> locks \<Rightarrow> Cpu \<times> 'b \<times> locks" where
  "run bus gm fp isp 0 s = s"
| "run bus gm fp isp (Suc n) s =
    (case step bus gm fp isp s of (go, s1) \<Rightarrow> if go then run bus gm fp isp n s1 else s1)"

section \<open>Well-formed processor states\<close>

lemma wf_retire: "cpu_wf cpu \<Longrightarrow> cpu_wf (retire g r cpu)"
  by (simp add: retire_def Let_def wf_palModeEnter)

lemma wf_commitReg: "cpu_wf cpu \<Longrightarrow> cpu_wf (commitReg r cpu)"
proof -
  assume wf: "cpu_wf cpu"
  have "unat (regWriteIdx r) \<noteq> 31" if "regWriteIdx r \<noteq> kNoRegWrite"
    using that by (auto simp: kNoRegWrite_def word_unat_eq_iff)
  then show ?thesis using wf
    by (auto simp: cpu_wf_def commitReg_def Let_def nth_list_update)
qed

lemma wf_applyLoad: "cpu_wf cpu \<Longrightarrow> cpu_wf (fst (snd (applyLoadEffect bus isp r cpu b locks pa lk)))"
  by (simp add: applyLoadEffect_def busFault_def Let_def split: prod.split)

lemma wf_applyStore: "cpu_wf cpu \<Longrightarrow> cpu_wf (fst (snd (applyStoreEffect bus r cpu b locks pa lk)))"
  by (simp add: applyStoreEffect_def busFault_def Let_def split: prod.split)

lemma wf_applyMem: "cpu_wf cpu \<Longrightarrow> cpu_wf (fst (snd (applyMemEffect bus isp g r cpu b locks)))"
  by (simp add: applyMemEffect_def Let_def wf_applyLoad wf_applyStore split: prod.split)

lemma wf_drain: "cpu_wf cpu \<Longrightarrow> cpu_wf (fst (snd (drain bus isp g r cpu b locks)))"
  using wf_applyMem [of cpu bus isp g r b locks]
  by (auto simp: drain_def wf_commitReg split: prod.split)

lemma wf_execFn:
  assumes "cpu_wf cpu" "execFn gm fp (e_fn (decode w p)) g c cpu b = (r, cpu1, b1)"
  shows "cpu_wf cpu1"
proof -
  have cf: "conforms (decode w p) g c cpu fp (mp_get gm b)"
    using decode_conforms [of w p] by (simp add: entry_conforms_def)
  show "cpu_wf cpu1"
  proof (cases "e_fn (decode w p)")
    case (WithCpu h)
    with cf assms have "cpu1 = cpu\<lparr>intrFlag := intrFlag cpu1\<rparr>"
      by (auto simp: conforms_def execFn_def split: prod.splits)
    then show ?thesis using assms(1) by (metis cpu_wf_update(10))
  next
    case (Fp h)
    with cf assms have "cpu1 = cpu\<lparr>fpcr := fpcr cpu1\<rparr>"
      by (auto simp: conforms_def execFn_def split: prod.splits)
    then show ?thesis using assms(1) by (metis cpu_wf_ipr_update(15))
  qed (use cf assms in \<open>auto simp: conforms_def execFn_def keeps_shape_def split: prod.splits\<close>)
qed

lemma issueE:
  assumes "issue bus gm fp isp w cpu b locks = (r, cpu3, b2, locks1)"
  obtains g r0 cpu1 b1 cpu2 where "g = decodedGrain cpu w (decode w (palPersonality cpu))"
    "execFn gm fp (e_fn (decode w (palPersonality cpu))) g (buildCtx g cpu) cpu b = (r0, cpu1, b1)"
    "drain bus isp g r0 cpu1 b1 locks = (r, cpu2, b2, locks1)"
    "cpu3 = (retire g r cpu2)\<lparr>cycleCount := cycleCount (retire g r cpu2) + 1\<rparr>"
proof -
  define g where "g = decodedGrain cpu w (decode w (palPersonality cpu))"
  obtain r0 cpu1 b1 where ex: "execFn gm fp (e_fn (decode w (palPersonality cpu))) g (buildCtx g cpu) cpu b = (r0, cpu1, b1)"
    by (metis prod_cases3)
  obtain r' cpu2 b' l' where dr: "drain bus isp g r0 cpu1 b1 locks = (r', cpu2, b', l')"
    by (metis prod_cases4)
  have "(r', (retire g r' cpu2)\<lparr>cycleCount := cycleCount (retire g r' cpu2) + 1\<rparr>, b', l') = (r, cpu3, b2, locks1)"
    using assms unfolding issue_def Let_def g_def [symmetric] ex
    by (simp only: prod.case dr)
  then show ?thesis using that [OF g_def ex] dr by auto
qed

lemma wf_issue:
  assumes "cpu_wf cpu" "issue bus gm fp isp w cpu b locks = (r, cpu3, b2, locks1)"
  shows "cpu_wf cpu3"
  using assms(2)
proof (rule issueE)
  fix g r0 cpu1 b1 cpu2
  assume "execFn gm fp (e_fn (decode w (palPersonality cpu))) g (buildCtx g cpu) cpu b = (r0, cpu1, b1)"
    and dr: "drain bus isp g r0 cpu1 b1 locks = (r, cpu2, b2, locks1)"
    and eq: "cpu3 = (retire g r cpu2)\<lparr>cycleCount := cycleCount (retire g r cpu2) + 1\<rparr>"
  then have "cpu_wf cpu1" using assms(1) by (blast intro: wf_execFn)
  then have "cpu_wf cpu2" using wf_drain [of cpu1 bus isp g r0 b1 locks] by (simp add: dr)
  then show ?thesis by (simp add: eq wf_retire)
qed

lemma wf_fetchFault: "cpu_wf cpu \<Longrightarrow> cpu_wf (fetchFault code cpu)"
  by (simp add: fetchFault_def Let_def wf_retire)

lemma wf_step: "cpu_wf (fst s) \<Longrightarrow> step bus gm fp isp s = (go, s1) \<Longrightarrow> cpu_wf (fst s1)"
proof -
  assume wf: "cpu_wf (fst s)" and st: "step bus gm fp isp s = (go, s1)"
  obtain cpu b locks where s: "s = (cpu, b, locks)" by (cases s)
  obtain itr pa where t: "translateInstruction cpu (pc cpu) 0 = (itr, pa)" by fastforce
  obtain fr b1 where f: "bus_fetch bus pa 4 b = (fr, b1)" by fastforce
  note u = step_def s t f prod.case Let_def
  consider "halted cpu" | "\<not> halted cpu" "itr \<noteq> Success"
    | "\<not> halted cpu" "itr = Success" "br_status fr \<noteq> BS_Ok"
    | "\<not> halted cpu" "itr = Success" "br_status fr = BS_Ok" by blast
  then show "cpu_wf (fst s1)"
  proof cases
    case 4
    then show ?thesis using st wf unfolding u by (auto simp: s dest: wf_issue split: prod.splits)
  qed (use st wf in \<open>auto simp: u wf_fetchFault\<close>)
qed

lemma wf_run: "cpu_wf (fst s) \<Longrightarrow> cpu_wf (fst (run bus gm fp isp n s))"
proof (induction n arbitrary: s)
  case (Suc n)
  then show ?case by (auto split: prod.splits dest: wf_step)
qed simp

section \<open>Reservations\<close>

abbreviation lineOf :: "u64 \<Rightarrow> u64" where
  "lineOf pa \<equiv> pa AND kCacheLineMask"

lemma lockCheck_set:
  assumes "0 \<le> c" "c < 4" "length locks = 4"
  shows "lockCheck c pa (lockSet c' pa' locks) = (if c = c' then lineOf pa = lineOf pa' else lockCheck c pa locks)"
  using assms by (auto simp: lockCheck_def lockSet_def kMaxCPUs_def nth_list_update nat_eq_iff)

lemma lockCheck_clear:
  assumes "0 \<le> c" "c < 4" "length locks = 4"
  shows "lockCheck c pa (lockClear c' locks) \<longleftrightarrow> c \<noteq> c' \<and> lockCheck c pa locks"
  using assms by (auto simp: lockCheck_def lockClear_def kMaxCPUs_def nth_list_update nat_eq_iff split: if_splits)

lemma nth_clearLineStep:
  "i < length locks \<Longrightarrow> clearLineStep line e j locks ! i =
     (if i = j \<and> int i \<noteq> e \<and> res_valid (locks ! i) \<and> res_pa (locks ! i) = line
      then (locks ! i)\<lparr>res_valid := False\<rparr> else locks ! i)"
  by (cases "i = j") (auto simp: clearLineStep_def)

lemma length_lockOps [simp]:
  "length (lockSet c pa locks) = length locks" "length (lockClear c locks) = length locks"
  "length (clearLineStep line e j locks) = length locks" "length (lockClearLine pa e locks) = length locks"
  by (simp_all add: lockSet_def lockClear_def clearLineStep_def lockClearLine_def kMaxCPUs_def upt4)

lemma nth_fold_clearLineStep:
  "i < length locks \<Longrightarrow> fold (clearLineStep line e) js locks ! i =
     (if i \<in> set js \<and> int i \<noteq> e \<and> res_valid (locks ! i) \<and> res_pa (locks ! i) = line
      then (locks ! i)\<lparr>res_valid := False\<rparr> else locks ! i)"
proof (induction js arbitrary: locks)
  case (Cons j js)
  then show ?case using Cons.IH [of "clearLineStep line e j locks"]
    by (simp add: nth_clearLineStep)
qed simp

lemma nth_lockClearLine:
  "length locks = 4 \<Longrightarrow> i < 4 \<Longrightarrow> lockClearLine pa e locks ! i =
     (if int i \<noteq> e \<and> res_valid (locks ! i) \<and> res_pa (locks ! i) = lineOf pa
      then (locks ! i)\<lparr>res_valid := False\<rparr> else locks ! i)"
  by (simp add: lockClearLine_def kMaxCPUs_def nth_fold_clearLineStep)

lemma lockCheck_clearLine:
  assumes "0 \<le> c" "c < 4" "length locks = 4"
  shows "lockCheck c pa (lockClearLine pa' e locks) \<longleftrightarrow>
    lockCheck c pa locks \<and> (c = e \<or> lineOf pa \<noteq> lineOf pa')"
proof -
  have "nat c < 4" "int (nat c) = c" using assms by auto
  then show ?thesis using assms
    by (auto simp: lockCheck_def kMaxCPUs_def nth_lockClearLine)
qed

lemmas lock_rules = lockCheck_set lockCheck_clear lockCheck_clearLine

text \<open>
  What one drained result does to the reservations, as an observer of the bus sees it: a load-locked,
  a plain store that was performed, or a store-conditional with its outcome. A store is recorded with
  the lines of its first and of its last byte: with alignment traps off, an access of up to eight bytes
  may reach into the next line.
\<close>

datatype Obs = LoadLocked int u64 | Stored int "u64 list" | Conditional int "u64 list" bool | NoEffect

definition touchedLines :: "u64 \<Rightarrow> u8 \<Rightarrow> u64 list" where
  "touchedLines pa n = [lineOf pa, lineOf (pa + ucast n - 1)]"

definition observe :: "BoxResult \<Rightarrow> Cpu \<Rightarrow> BoxResult \<Rightarrow> Obs" where
  "observe r cpu r1 =
    (let c = sint (cpuSlot cpu); lines = touchedLines (memPhysAddr r1) (memSize r);
         lk = has (semFlags r) S_Locked in
     if faultCode r \<noteq> kNoFault \<or> memSize r = kNoMemEffect then NoEffect
     else if faultCode r1 = kNoFault then
       (if memIsStore r then (if lk then Conditional c lines (regWriteValue r1 \<noteq> 0) else Stored c lines)
        else if lk then LoadLocked c (lineOf (memPhysAddr r1)) else NoEffect)
     else if faultCode r1 = kFaultBusError \<and> memIsStore r \<and> lk then Conditional c lines False
     else NoEffect)"

text \<open>A store that stays inside one line.\<close>

fun oneLine :: "Obs \<Rightarrow> bool" where
  "oneLine (Stored c lines) = (length (remdups lines) = 1)"
| "oneLine (Conditional c lines wrote) = (wrote \<longrightarrow> length (remdups lines) = 1)"
| "oneLine _ = True"

lemma one_touched_line [simp]: "length (remdups (touchedLines pa n)) = 1 \<longleftrightarrow> lineOf (pa + ucast n - 1) = lineOf pa"
  by (simp add: touchedLines_def)

text \<open>
  The architected reservation of processor c on a line: set by its load-locked of the line, ended by
  its next load-locked of another line, by any store-conditional of its own, and by a store that
  another processor performs to a byte of the line.
\<close>

fun reserveStep :: "int \<Rightarrow> u64 \<Rightarrow> Obs \<Rightarrow> bool \<Rightarrow> bool" where
  "reserveStep c line (LoadLocked c' line') held = (if c = c' then line = line' else held)"
| "reserveStep c line (Stored c' lines) held = (held \<and> (c = c' \<or> line \<notin> set lines))"
| "reserveStep c line (Conditional c' lines wrote) held = (held \<and> c \<noteq> c' \<and> (wrote \<longrightarrow> line \<notin> set lines))"
| "reserveStep c line NoEffect held = held"

definition reserved :: "int \<Rightarrow> u64 \<Rightarrow> Obs list \<Rightarrow> bool" where
  "reserved c line obs = fold (reserveStep c line) obs False"

text \<open>A shared bus on which several processors drain their results one after the other.\<close>

fun drainAll :: "'b ISystemBus \<Rightarrow> bool \<Rightarrow> (InstructionGrain \<times> BoxResult \<times> Cpu) list \<Rightarrow> 'b \<Rightarrow> locks \<Rightarrow>
    Obs list \<times> 'b \<times> locks" where
  "drainAll bus isp [] b locks = ([], b, locks)"
| "drainAll bus isp ((g, r, cpu) # evs) b locks =
    (case drain bus isp g r cpu b locks of (r1, cpu1, b1, locks1) \<Rightarrow>
     case drainAll bus isp evs b1 locks1 of (obs, b2, locks2) \<Rightarrow> (observe r cpu r1 # obs, b2, locks2))"

lemma translate_outcome:
  "fst (translateDataAligned cpu va sz acc 0) \<in> {Success, NonCanonical, Unaligned, AccessViolation,
     DtbMiss, FaultOnRead, FaultOnWrite, FaultOnExecute}"
  by (cases rule: data_outcomes [of va cpu acc 0]) (simp_all add: translateDataAligned_def)

lemma translate_fault_code:
  "translateDataAligned cpu va sz acc 0 = (tr, pa) \<Longrightarrow> tr \<noteq> Success \<Longrightarrow>
     toFaultCode tr \<notin> {kNoFault, kFaultBusError, kFaultHalt}"
  using translate_outcome [of cpu va sz acc]
  by (auto simp: kFaultBusError_def kNoFault_def kFaultHalt_def)

lemma applyLoad_locks:
  assumes "applyLoadEffect bus isp r cpu b locks pa lk = (r1, cpu1, b1, locks1)"
  shows "faultCode r1 = faultCode r \<and> locks1 = (if lk then lockSet (sint (cpuSlot cpu)) pa locks else locks) \<and>
      cpu1 = cpu \<or> faultCode r1 = kFaultBusError \<and> locks1 = locks"
    and "memPhysAddr r1 = memPhysAddr r"
  using assms by (auto simp: applyLoadEffect_def busFault_def Let_def split: prod.splits if_splits)

lemma applyStore_locks:
  assumes "applyStoreEffect bus r cpu b locks pa lk = (r1, cpu1, b1, locks1)"
  shows "(lk \<and> \<not> lockCheck (sint (cpuSlot cpu)) pa locks \<and> faultCode r1 = faultCode r \<and>
       regWriteValue r1 = 0 \<and> b1 = b \<and> cpu1 = cpu \<and> locks1 = lockClear (sint (cpuSlot cpu)) locks) \<or>
     ((lk \<longrightarrow> lockCheck (sint (cpuSlot cpu)) pa locks) \<and>
       b1 = snd (bus_write bus pa (memData r) (memSize r) b) \<and>
       (let locks0 = (if lk then lockClear (sint (cpuSlot cpu)) locks else locks) in
        faultCode r1 = faultCode r \<and> (lk \<longrightarrow> regWriteValue r1 = 1) \<and> cpu1 = cpu \<and>
          locks1 = lockClearLine pa (sint (cpuSlot cpu)) locks0 \<or>
        faultCode r1 = kFaultBusError \<and> locks1 = locks0))"
    and "memPhysAddr r1 = memPhysAddr r"
  using assms by (auto simp: applyStoreEffect_def busFault_def Let_def split: prod.splits if_splits)

definition resolves :: "BoxResult \<Rightarrow> Cpu \<Rightarrow> u64 \<Rightarrow> bool" where
  "resolves r cpu pa \<longleftrightarrow> (if has (semFlags r) S_PhysAddr then pa = memAddr r
     else translateDataAligned cpu (memAddr r) (memSize r) (if memIsStore r then DataWrite else DataRead) 0
            = (Success, pa))"

lemma applyMemE:
  assumes "applyMemEffect bus isp g r cpu b locks = (r1, cpu1, b1, locks1)"
  obtains (fault) ms where "\<not> has (semFlags r) S_PhysAddr" "faultCode r1 \<notin> {kNoFault, kFaultBusError, kFaultHalt}"
      "b1 = b" "locks1 = locks" "cpu1 = cpu\<lparr>mm_stat := ms, cpu_va := memAddr r\<rparr>"
      "\<nexists>pa. resolves r cpu pa"
  | (store) pa where "memIsStore r" "resolves r cpu pa"
      "applyStoreEffect bus (r\<lparr>memPhysAddr := pa\<rparr>) cpu b locks pa (has (semFlags r) S_Locked)
         = (r1, cpu1, b1, locks1)"
  | (load) pa where "\<not> memIsStore r" "resolves r cpu pa"
      "applyLoadEffect bus isp (r\<lparr>memPhysAddr := pa\<rparr>) cpu b locks pa (has (semFlags r) S_Locked)
         = (r1, cpu1, b1, locks1)"
proof -
  let ?acc = "if memIsStore r then DataWrite else DataRead"
  obtain tr pa where t: "(if has (semFlags r) S_PhysAddr then (Success, memAddr r)
      else translateDataAligned cpu (memAddr r) (memSize r) ?acc 0) = (tr, pa)" by fastforce
  note eq = assms [unfolded applyMemEffect_def Let_def t prod.case]
  show ?thesis
  proof (cases "has (semFlags r) S_PhysAddr \<or> tr = Success")
    case True
    then have "resolves r cpu pa" using t by (auto simp: resolves_def split: if_splits)
    then show ?thesis using True eq store [of pa] load [of pa] by (cases "memIsStore r") auto
  next
    case False
    then have t': "translateDataAligned cpu (memAddr r) (memSize r) ?acc 0 = (tr, pa)" using t by simp
    have c: "toFaultCode tr \<notin> {kNoFault, kFaultBusError, kFaultHalt}"
      using translate_fault_code [OF t'] False by blast
    have d: "kFaultDtbMissDouble \<notin> {kNoFault, kFaultBusError, kFaultHalt}"
      by (simp add: kFaultDtbMissDouble_def kNoFault_def kFaultBusError_def kFaultHalt_def)
    have n: "\<nexists>pa. resolves r cpu pa" using False t' by (simp add: resolves_def)
    have eqs: "r1 = r\<lparr>faultCode := (if toFaultCode tr = kFaultDtbMiss \<and> primaryOp g = 0x1B \<and>
         drop_bit 13 (encoded g) AND 0x7 = 0x2 then kFaultDtbMissDouble else toFaultCode tr)\<rparr>"
      "cpu1 = cpu\<lparr>mm_stat := faultStatus g r tr, cpu_va := memAddr r\<rparr>" "b1 = b" "locks1 = locks"
      using eq False by simp_all
    show ?thesis
    proof (rule fault)
      show "faultCode r1 \<notin> {kNoFault, kFaultBusError, kFaultHalt}" using c d unfolding eqs by auto
    qed (use False eqs n in auto)
  qed
qed

lemma applyMem_locks:
  assumes "applyMemEffect bus isp g r cpu b locks = (r1, cpu1, b1, locks1)" "length locks = 4"
    "0 \<le> c" "c < 4" "faultCode r = kNoFault" "memSize r \<noteq> kNoMemEffect" "oneLine (observe r cpu r1)"
  shows "length locks1 = 4 \<and>
    lockCheck c pa locks1 = reserveStep c (lineOf pa) (observe r cpu r1) (lockCheck c pa locks)"
  using assms(1)
proof (cases rule: applyMemE)
  case fault
  then show ?thesis using assms(2) by (auto simp: observe_def Let_def)
next
  case (store q)
  note a = applyStore_locks [OF store(3)]
  have k: "kNoFault \<noteq> kFaultBusError" by (simp add: kNoFault_def kFaultBusError_def)
  show ?thesis using a store(1) assms(2-) k
    by (auto simp: observe_def Let_def lock_rules touchedLines_def split: if_splits)
next
  case (load q)
  note a = applyLoad_locks [OF load(3)]
  have k: "kNoFault \<noteq> kFaultBusError" by (simp add: kNoFault_def kFaultBusError_def)
  show ?thesis using a load(1) assms(2-) k
    by (auto simp: observe_def Let_def lock_rules touchedLines_def split: if_splits)
qed

lemma drain_locks:
  assumes "drain bus isp g r cpu b locks = (r1, cpu1, b1, locks1)" "length locks = 4" "0 \<le> c" "c < 4"
    "oneLine (observe r cpu r1)"
  shows "length locks1 = 4 \<and>
    lockCheck c pa locks1 = reserveStep c (lineOf pa) (observe r cpu r1) (lockCheck c pa locks)"
proof (cases "faultCode r \<noteq> kNoFault \<or> memSize r = kNoMemEffect")
  case True
  then show ?thesis using assms by (auto simp: drain_def observe_def split: if_splits)
next
  case False
  obtain r' cpu' b' locks' where m: "applyMemEffect bus isp g r cpu b locks = (r', cpu', b', locks')"
    by (metis prod_cases4)
  have "r1 = r'" "locks1 = locks'" using assms(1) False m by (auto simp: drain_def split: if_splits)
  then show ?thesis using applyMem_locks [OF m assms(2-4)] False assms(5) by simp
qed

lemma drainAll_locks:
  assumes "drainAll bus isp evs b locks = (obs, b1, locks1)" "length locks = 4" "0 \<le> c" "c < 4" "list_all oneLine obs"
  shows "length locks1 = 4 \<and>
    lockCheck c pa locks1 = fold (reserveStep c (lineOf pa)) obs (lockCheck c pa locks)"
  using assms
proof (induction evs arbitrary: b locks obs)
  case (Cons ev evs)
  obtain g r cpu where ev: "ev = (g, r, cpu)" by (cases ev)
  obtain r' cpu' b' locks' where d: "drain bus isp g r cpu b locks = (r', cpu', b', locks')"
    by (metis prod_cases4)
  obtain obs' where o: "drainAll bus isp evs b' locks' = (obs', b1, locks1)" "obs = observe r cpu r' # obs'"
    using Cons.prems(1) by (auto simp: ev d split: prod.splits)
  show ?case using drain_locks [OF d Cons.prems(2-4)] Cons.IH [OF o(1)] Cons.prems(3-5) o(2) by simp
qed simp

section \<open>Precise traps\<close>

lemma commitReg_frame [simp]:
  "pc (commitReg r cpu) = pc cpu" "palBase (commitReg r cpu) = palBase cpu"
  by (simp_all add: commitReg_def Let_def)

text \<open>A drained result that faults without a bus error has changed neither registers nor memory.\<close>

lemma drain_fault_clean:
  assumes "drain bus isp g r cpu b locks = (r1, cpu1, b1, locks1)"
    "faultCode r1 \<notin> {kNoFault, kFaultBusError}"
  shows "b1 = b \<and> locks1 = locks \<and>
    cpu1 = cpu\<lparr>mm_stat := mm_stat cpu1, cpu_va := cpu_va cpu1\<rparr>"
proof (cases "faultCode r \<noteq> kNoFault \<or> memSize r = kNoMemEffect")
  case True
  then show ?thesis using assms by (auto simp: drain_def split: if_splits)
next
  case False
  obtain r' cpu' b' locks' where m: "applyMemEffect bus isp g r cpu b locks = (r', cpu', b', locks')"
    by (metis prod_cases4)
  have eqs: "r1 = r'" "cpu1 = cpu'" "b1 = b'" "locks1 = locks'"
    using assms False m by (auto simp: drain_def split: if_splits)
  from m show ?thesis
  proof (cases rule: applyMemE)
    case fault
    show ?thesis using fault eqs by simp
  next
    case (store pa)
    then show ?thesis using applyStore_locks(1) [OF store(3)] assms(2) False eqs by (auto simp: Let_def)
  next
    case (load pa)
    then show ?thesis using applyLoad_locks(1) [OF load(3)] assms(2) False eqs by auto
  qed
qed

lemma drain_fault_frame:
  assumes "drain bus isp g r cpu b locks = (r1, cpu1, b1, locks1)" "faultCode r1 \<noteq> kNoFault"
  shows "locks1 \<in> {locks, lockClear (sint (cpuSlot cpu)) locks}"
    "cpu1 = cpu\<lparr>mm_stat := mm_stat cpu1, cpu_va := cpu_va cpu1, errorReg := errorReg cpu1, dataReg := dataReg cpu1\<rparr>"
proof -
  have *: "locks1 \<in> {locks, lockClear (sint (cpuSlot cpu)) locks} \<and>
    cpu1 = cpu\<lparr>mm_stat := mm_stat cpu1, cpu_va := cpu_va cpu1, errorReg := errorReg cpu1, dataReg := dataReg cpu1\<rparr>"
  proof (cases "faultCode r \<noteq> kNoFault \<or> memSize r = kNoMemEffect")
    case True
    then show ?thesis using assms by (auto simp: drain_def split: if_splits)
  next
    case False
    obtain r' cpu' b' locks' where m: "applyMemEffect bus isp g r cpu b locks = (r', cpu', b', locks')"
      by (metis prod_cases4)
    have eqs: "r1 = r'" "cpu1 = cpu'" "locks1 = locks'"
      using assms False m by (auto simp: drain_def split: if_splits)
    from m show ?thesis
    proof (cases rule: applyMemE)
      case fault
      show ?thesis using fault eqs by simp
    next
      case (store pa)
      then show ?thesis using assms(2) False eqs
        by (auto simp: applyStoreEffect_def busFault_def Let_def split: prod.splits if_splits)
    next
      case (load pa)
      then show ?thesis using assms(2) False eqs
        by (auto simp: applyLoadEffect_def busFault_def Let_def split: prod.splits if_splits)
    qed
  qed
  then show "locks1 \<in> {locks, lockClear (sint (cpuSlot cpu)) locks}"
    "cpu1 = cpu\<lparr>mm_stat := mm_stat cpu1, cpu_va := cpu_va cpu1, errorReg := errorReg cpu1, dataReg := dataReg cpu1\<rparr>"
    by blast+
qed

lemma execFn_frame:
  assumes "execFn gm fp (e_fn (decode w p)) g c cpu b = (r, cpu1, b1)"
    "faultCode r \<noteq> kNoFault \<or> memSize r \<noteq> kNoMemEffect" "faultCode r \<noteq> kFaultHalt"
  shows "b1 = b \<and> cpu1 = cpu\<lparr>intrFlag := intrFlag cpu1, mm_stat := mm_stat cpu1\<rparr>"
proof -
  have mm: "cpu1 = cpu\<lparr>mm_stat := mm_stat cpu1\<rparr> \<Longrightarrow> cpu1 = cpu\<lparr>intrFlag := intrFlag cpu1, mm_stat := mm_stat cpu1\<rparr>"
    by (erule ssubst) simp
  have fl: "cpu1 = cpu\<lparr>intrFlag := intrFlag cpu1\<rparr> \<Longrightarrow> cpu1 = cpu\<lparr>intrFlag := intrFlag cpu1, mm_stat := mm_stat cpu1\<rparr>"
    by (erule ssubst) simp
  have cf: "conforms (decode w p) g c cpu fp (mp_get gm b)"
    using decode_conforms [of w p] by (simp add: entry_conforms_def)
  show ?thesis
    by (cases "e_fn (decode w p)")
      (use cf assms mm fl in \<open>auto simp: conforms_def execFn_def keeps_shape_def split: prod.splits\<close>)
qed

lemma retire_trap:
  assumes "faultCode r \<notin> {kNoFault, kFaultHalt}" "palBase cpu \<noteq> 0" "g_pc g = pc cpu"
  shows "pc (retire g r cpu) = computeHwExceptionEntry (palBase cpu) (entryForFault (faultCode r)) OR 1"
    "excAddr (retire g r cpu) = (if faultCode r = kFaultBusError
        then ((pc cpu AND NOT 1) + 4) OR (if inPalMode cpu then 1 else 0) else pc cpu)"
    "intReg (retire g r cpu) = intReg (palModeEnter cpu)" "fpReg (retire g r cpu) = fpReg cpu"
    "halted (retire g r cpu) = halted cpu" "palBase (retire g r cpu) = palBase cpu"
    "lastFaultCode (retire g r cpu) = faultCode r"
proof -
  have pcbits: "(v :: u64) AND NOT 1 OR (if bit v 0 then 1 else 0) = v" for v
    by (rule bit_word_eqI) (auto simp: bit_simps intro: gr0I)
  have e: "entryForFault (faultCode r) \<noteq> kEntry_None" using assms by (auto simp: entryForFault_None)
  have upd: "swapPalShadowRegs (cpu\<lparr>lastFaultCode := c, excAddr := a\<rparr>)
      = (swapPalShadowRegs cpu)\<lparr>lastFaultCode := c, excAddr := a\<rparr>" for c a
    by (simp add: swapPalShadowRegs_def swapShadow_def upt4)
  have enter: "palModeEnter (cpu\<lparr>lastFaultCode := c, excAddr := a\<rparr>)
      = (palModeEnter cpu)\<lparr>lastFaultCode := c, excAddr := a\<rparr>" for c a
    by (simp add: palModeEnter_def upd Let_def inPalMode_def sdeEnabled_def)
  have rt: "retire g r cpu = (palModeEnter cpu)\<lparr>lastFaultCode := faultCode r,
      excAddr := (if faultCode r = kFaultBusError then (pc cpu AND NOT 1) + 4 else pc cpu AND NOT 1)
         OR (if inPalMode cpu then 1 else 0),
      pc := computeHwExceptionEntry (palBase cpu) (entryForFault (faultCode r)) OR 1\<rparr>"
    using assms e enter by (simp add: retire_def Let_def inPalMode_def)
  show "pc (retire g r cpu) = computeHwExceptionEntry (palBase cpu) (entryForFault (faultCode r)) OR 1"
    "intReg (retire g r cpu) = intReg (palModeEnter cpu)" "fpReg (retire g r cpu) = fpReg cpu"
    "halted (retire g r cpu) = halted cpu" "palBase (retire g r cpu) = palBase cpu"
    "lastFaultCode (retire g r cpu) = faultCode r"
    by (simp_all add: rt)
  show "excAddr (retire g r cpu) = (if faultCode r = kFaultBusError
        then ((pc cpu AND NOT 1) + 4) OR (if inPalMode cpu then 1 else 0) else pc cpu)"
    using pcbits [of "pc cpu"] by (simp add: rt inPalMode_bit)
qed

text \<open>The vector is fetched from physical memory, whatever the translation buffers hold.\<close>

lemma vector_fetch:
  assumes "pc cpu = computeHwExceptionEntry base (entryForFault c) OR 1"
  shows "inPalMode cpu" and "translateInstruction cpu (pc cpu) 0
    = (Success, computeHwExceptionEntry base (entryForFault c) AND kEv6PaMask)"
proof -
  let ?v = "computeHwExceptionEntry base (entryForFault c)"
  have "(?v AND 3) AND 1 = 0" by (simp only: vector_bits) simp
  then have "?v AND 1 = 0" by (simp add: and.assoc)
  then have "\<not> bit ?v 0" using and_exp_eq_0_iff [of ?v 0] by simp
  then have low: "(?v OR 1) AND NOT 1 = ?v"
    by (intro bit_word_eqI) (auto simp: bit_simps intro!: gr0I)
  show pal: "inPalMode cpu" by (simp add: inPalMode_bit assms bit_or_iff)
  show "translateInstruction cpu (pc cpu) 0 = (Success, ?v AND kEv6PaMask)"
    using pal low vector_bits [of base c]
    by (simp add: translateInstruction_def isAlignedFor_def assms)
qed

lemma intReg_palModeEnter:
  "intReg (palModeEnter (cpu\<lparr>intrFlag := f, mm_stat := m, cpu_va := v, errorReg := e, dataReg := d\<rparr>)) = intReg (palModeEnter cpu)"
  by (simp add: palModeEnter_def inPalMode_def sdeEnabled_def swapPalShadowRegs_def swapShadow_def upt4 Let_def)

lemma va_mm_commute: "(cpu :: Cpu)\<lparr>cpu_va := x, mm_stat := y\<rparr> = cpu\<lparr>mm_stat := y, cpu_va := x\<rparr>"
  by (rule Cpu.equality) simp_all

text \<open>
  The processor after a trap: everything the handler needs, and no register written. A bus error is
  delivered as a machine check, after which the handler continues behind the instruction.
\<close>

definition resumeAddr :: "u16 \<Rightarrow> Cpu \<Rightarrow> u64" where
  "resumeAddr code cpu = (if code = kFaultBusError
     then ((pc cpu AND NOT 1) + 4) OR (if inPalMode cpu then 1 else 0) else pc cpu)"

definition trapped :: "Cpu \<Rightarrow> u16 \<Rightarrow> Cpu \<Rightarrow> bool" where
  "trapped cpu code cpu1 \<longleftrightarrow>
     intReg cpu1 = intReg (palModeEnter cpu) \<and> fpReg cpu1 = fpReg cpu \<and> excAddr cpu1 = resumeAddr code cpu \<and>
     pc cpu1 = computeHwExceptionEntry (palBase cpu) (entryForFault code) OR 1 \<and>
     lastFaultCode cpu1 = code \<and> halted cpu1 = halted cpu \<and> inPalMode cpu1 \<and>
     translateInstruction cpu1 (pc cpu1) 0
       = (Success, computeHwExceptionEntry (palBase cpu) (entryForFault code) AND kEv6PaMask)"

lemma retire_trapped:
  assumes "faultCode r \<notin> {kNoFault, kFaultHalt}" "palBase cpu \<noteq> 0" "g_pc g = pc cpu"
    "cpu0 = cpu\<lparr>intrFlag := f, mm_stat := m, cpu_va := v, errorReg := e, dataReg := d\<rparr>"
  shows "trapped cpu (faultCode r) ((retire g r cpu0)\<lparr>cycleCount := n\<rparr>)"
proof -
  have "faultCode r \<notin> {kNoFault, kFaultHalt}" "palBase cpu0 \<noteq> 0" "g_pc g = pc cpu0" using assms by auto
  note rt = retire_trap [OF this]
  let ?c = "(retire g r cpu0)\<lparr>cycleCount := n\<rparr>"
  have pc: "pc ?c = computeHwExceptionEntry (palBase cpu) (entryForFault (faultCode r)) OR 1"
    using rt(1) assms(4) by simp
  have "inPalMode cpu0 = inPalMode cpu" by (simp add: assms(4) inPalMode_def)
  then show ?thesis
    using vector_fetch [OF pc] rt assms
      intReg_palModeEnter [where cpu = cpu and f = f and m = m and v = v and e = e and d = d]
    by (simp add: trapped_def resumeAddr_def)
qed

text \<open>With no PAL base there is no handler: the processor stops at the instruction.\<close>

definition stopped :: "Cpu \<Rightarrow> u16 \<Rightarrow> Cpu \<Rightarrow> bool" where
  "stopped cpu code cpu1 \<longleftrightarrow> intReg cpu1 = intReg cpu \<and> fpReg cpu1 = fpReg cpu \<and>
     excAddr cpu1 = pc cpu \<and> pc cpu1 = pc cpu \<and> lastFaultCode cpu1 = code \<and> halted cpu1"

lemma retire_stopped:
  assumes "faultCode r \<notin> {kNoFault, kFaultHalt}" "palBase cpu = 0" "g_pc g = pc cpu"
    "cpu0 = cpu\<lparr>intrFlag := f, mm_stat := m, cpu_va := v, errorReg := e, dataReg := d\<rparr>"
  shows "stopped cpu (faultCode r) ((retire g r cpu0)\<lparr>cycleCount := n\<rparr>)"
  using assms by (simp add: stopped_def retire_def Let_def)

lemma trap_frame_compose:
  fixes cpu :: Cpu
  assumes "cpu2 = cpu\<lparr>intrFlag := f, mm_stat := m\<rparr>"
    "cpu3 = cpu2\<lparr>mm_stat := m', cpu_va := v, errorReg := e, dataReg := d\<rparr>"
  shows "cpu3 = cpu\<lparr>intrFlag := f, mm_stat := m', cpu_va := v, errorReg := e, dataReg := d\<rparr>"
  using assms by simp

lemma issue_trapped:
  assumes "issue bus gm fp isp w cpu b locks = (r, cpu1, b2, locks1)" "faultCode r \<notin> {kNoFault, kFaultHalt}"
  shows "faultCode r \<noteq> kFaultBusError \<longrightarrow> b2 = b \<and> locks1 = locks"
    "locks1 \<in> {locks, lockClear (sint (cpuSlot cpu)) locks}"
    "palBase cpu \<noteq> 0 \<Longrightarrow> trapped cpu (faultCode r) cpu1" "palBase cpu = 0 \<Longrightarrow> stopped cpu (faultCode r) cpu1"
proof -
  obtain g r0 cpu2 b1 cpu3 where g: "g = decodedGrain cpu w (decode w (palPersonality cpu))"
    and ex: "execFn gm fp (e_fn (decode w (palPersonality cpu))) g (buildCtx g cpu) cpu b = (r0, cpu2, b1)"
    and dr: "drain bus isp g r0 cpu2 b1 locks = (r, cpu3, b2, locks1)"
    and eq: "cpu1 = (retire g r cpu3)\<lparr>cycleCount := cycleCount (retire g r cpu3) + 1\<rparr>"
    using assms(1) by (rule issueE)
  have "faultCode r0 \<noteq> kNoFault \<or> memSize r0 \<noteq> kNoMemEffect" "faultCode r0 \<noteq> kFaultHalt"
    using dr assms(2) by (auto simp: drain_def kNoFault_def kFaultHalt_def split: if_splits)
  note fr = execFn_frame [OF ex this]
  have nf: "faultCode r \<noteq> kNoFault" using assms(2) by simp
  show "faultCode r \<noteq> kFaultBusError \<longrightarrow> b2 = b \<and> locks1 = locks"
    using drain_fault_clean [OF dr] nf fr by auto
  have "cpuSlot cpu2 = cpuSlot cpu" using arg_cong [OF conjunct2 [OF fr], of cpuSlot] by simp
  then show "locks1 \<in> {locks, lockClear (sint (cpuSlot cpu)) locks}" using drain_fault_frame(1) [OF dr nf] by simp
  note cpu3 = trap_frame_compose [OF conjunct2 [OF fr] drain_fault_frame(2) [OF dr nf]]
  have pcg: "g_pc g = pc cpu" by (simp add: g decodedGrain_def Let_def)
  show "palBase cpu \<noteq> 0 \<Longrightarrow> trapped cpu (faultCode r) cpu1"
    unfolding eq by (rule retire_trapped [OF assms(2) _ pcg cpu3])
  show "palBase cpu = 0 \<Longrightarrow> stopped cpu (faultCode r) cpu1"
    unfolding eq by (rule retire_stopped [OF assms(2) _ pcg cpu3])
qed

lemma fetch_outcome:
  "fst (translateInstruction cpu va 0) \<in> {Success, Unaligned, NonCanonical, AccessViolation, ItbMiss,
     FaultOnExecute}"
proof (cases rule: tryKseg_cases [of va "mode cpu" "i_spe cpu" 0])
  case 1
  then show ?thesis
    by (auto simp: translateInstruction_def applyTlbHit_def Let_def split: option.split)
qed (auto simp: translateInstruction_def)

lemma step_fetch_fault:
  assumes "\<not> halted cpu" "translateInstruction cpu (pc cpu) 0 = (itr, pa)" "itr \<noteq> Success" "palBase cpu \<noteq> 0"
  shows "\<exists>cpu1. step bus gm fp isp (cpu, b, locks) = (True, cpu1, b, locks) \<and>
    trapped cpu (toFaultCode itr) cpu1 \<and> cpu_va cpu1 = pc cpu"
proof -
  let ?r = "newBoxResult\<lparr>faultCode := toFaultCode itr\<rparr>"
  define cpu0 where "cpu0 = cpu\<lparr>intrFlag := intrFlag cpu, mm_stat := pc cpu, cpu_va := pc cpu,
      errorReg := errorReg cpu, dataReg := dataReg cpu\<rparr>"
  have code: "faultCode ?r \<notin> {kNoFault, kFaultHalt}" "faultCode ?r \<noteq> kFaultBusError"
    using fetch_outcome [of cpu "pc cpu"] assms(2,3)
    by (auto simp: kNoFault_def kFaultHalt_def kFaultBusError_def)
  have eq: "fetchFault (toFaultCode itr) cpu = (retire (fetchedGrain cpu) ?r cpu0)
      \<lparr>cycleCount := cycleCount (retire (fetchedGrain cpu) ?r cpu0) + 1\<rparr>"
    by (simp add: fetchFault_def Let_def cpu0_def va_mm_commute)
  have "trapped cpu (toFaultCode itr) (fetchFault (toFaultCode itr) cpu)"
    unfolding eq using retire_trapped [OF code(1) assms(4) _ cpu0_def, of "fetchedGrain cpu"]
    by (simp add: fetchedGrain_def)
  moreover have "cpu_va (fetchFault (toFaultCode itr) cpu) = pc cpu"
    unfolding eq using code assms(4)
    by (simp add: cpu0_def retire_def Let_def entryForFault_None palModeEnter_def swapPalShadowRegs_def
        swapShadow_def upt4)
  ultimately show ?thesis using assms(1-3)
    by (simp add: step_def Let_def) (simp add: trapped_def)
qed

section \<open>The run loop\<close>

lemma step_go: "step bus gm fp isp s = (go, s1) \<Longrightarrow> go \<longleftrightarrow> \<not> halted (fst s1)"
  by (auto simp: step_def Let_def split: prod.splits if_splits)

lemma run_halted: "halted (fst s) \<Longrightarrow> run bus gm fp isp n s = s"
  by (cases n; cases s) (simp_all add: step_def)

lemma run_add: "run bus gm fp isp (n + m) s = run bus gm fp isp m (run bus gm fp isp n s)"
proof (induction n arbitrary: s)
  case (Suc n)
  obtain go s1 where st: "step bus gm fp isp s = (go, s1)" by (metis surj_pair)
  then show ?case using Suc.IH step_go [OF st] by (simp add: run_halted)
qed simp

section \<open>Loads and stores over a memory bus\<close>

text \<open>
  What the drainer relies on when an access reaches memory: at an address that the bus backs with
  memory a write is accepted and a read of the same width returns the written bytes, a read has no
  side effect, and a write leaves every location outside its range alone.
\<close>

definition apart :: "u64 \<Rightarrow> u8 \<Rightarrow> u64 \<Rightarrow> u8 \<Rightarrow> bool" where
  "apart pa sz q sz' \<longleftrightarrow> unat pa + unat sz \<le> unat q \<or> unat q + unat sz' \<le> unat pa"

definition plainStore :: "BoxResult \<Rightarrow> bool" where
  "plainStore r \<longleftrightarrow> faultCode r = kNoFault \<and> memIsStore r \<and> memSize r \<in> {1, 2, 4, 8} \<and>
     \<not> has (semFlags r) S_Locked"

definition plainLoad :: "BoxResult \<Rightarrow> bool" where
  "plainLoad r \<longleftrightarrow> faultCode r = kNoFault \<and> \<not> memIsStore r \<and> memSize r \<in> {1, 2, 4, 8} \<and>
     \<not> regWriteIsFp r \<and> regWriteIdx r < 31"

locale dram_bus =
  fixes bus :: "'b ISystemBus" and ok :: "'b \<Rightarrow> bool" and dram :: "'b \<Rightarrow> u64 \<Rightarrow> bool"
  assumes read_pure: "ok b \<Longrightarrow> dram b pa \<Longrightarrow> sz \<in> {1, 2, 4, 8} \<Longrightarrow>
      br_status (fst (bus_read bus pa sz b)) = BS_Ok \<and> snd (bus_read bus pa sz b) = b"
    and write_ok: "ok b \<Longrightarrow> dram b pa \<Longrightarrow> sz \<in> {1, 2, 4, 8} \<Longrightarrow>
      br_status (fst (bus_write bus pa v sz b)) = BS_Ok \<and> ok (snd (bus_write bus pa v sz b)) \<and>
      dram (snd (bus_write bus pa v sz b)) = dram b"
    and read_written: "ok b \<Longrightarrow> dram b pa \<Longrightarrow> sz \<in> {1, 2, 4, 8} \<Longrightarrow>
      br_data (fst (bus_read bus pa sz (snd (bus_write bus pa v sz b)))) = take_bit (8 * unat sz) v"
    and read_apart: "ok b \<Longrightarrow> dram b pa \<Longrightarrow> sz \<in> {1, 2, 4, 8} \<Longrightarrow> dram b q \<Longrightarrow> sz' \<in> {1, 2, 4, 8} \<Longrightarrow>
      apart pa sz q sz' \<Longrightarrow>
      br_data (fst (bus_read bus q sz' (snd (bus_write bus pa v sz b)))) = br_data (fst (bus_read bus q sz' b))"
begin

lemma drain_store:
  assumes "ok b" "dram b pa" "plainStore r" "resolves r cpu pa"
  shows "drain bus isp g r cpu b locks =
    (r\<lparr>memPhysAddr := pa\<rparr>, commitReg (r\<lparr>memPhysAddr := pa\<rparr>) cpu,
     snd (bus_write bus pa (memData r) (memSize r) b), lockClearLine pa (sint (cpuSlot cpu)) locks)"
proof -
  obtain br b1 where w: "bus_write bus pa (memData r) (memSize r) b = (br, b1)" by fastforce
  then have "br_status br = BS_Ok" using write_ok [OF assms(1,2), of "memSize r" "memData r"] assms(3)
    by (auto simp: plainStore_def)
  then show ?thesis using assms(3,4) w
    by (auto simp: plainStore_def drain_def applyMemEffect_def applyStoreEffect_def resolves_def
        kNoMemEffect_def Let_def split: if_splits)
qed

lemma drain_load:
  assumes "ok b" "dram b pa" "plainLoad r" "resolves r cpu pa" "\<not> (isp \<and> pa = 0xBFFC)" "cpu_wf cpu"
  defines "d \<equiv> formatLoadValue (br_data (fst (bus_read bus pa (memSize r) b))) (memSize r) False (semFlags r)"
  shows "\<exists>r1 locks1. drain bus isp g r cpu b locks =
    (r1, cpu\<lparr>intReg := (intReg cpu)[unat (regWriteIdx r) := d]\<rparr>, b, locks1) \<and> faultCode r1 = kNoFault"
proof -
  obtain br where w: "bus_read bus pa (memSize r) b = (br, b)" "br_status br = BS_Ok"
    using read_pure [OF assms(1,2), of "memSize r"] assms(3)
    by (cases "bus_read bus pa (memSize r) b") (auto simp: plainLoad_def)
  define r1 where "r1 = r\<lparr>memPhysAddr := pa, regWriteValue := d\<rparr>"
  have i: "regWriteIdx r \<noteq> kNoRegWrite" "unat (regWriteIdx r) \<noteq> 31"
    using assms(3) by (auto simp: plainLoad_def kNoRegWrite_def word_less_nat_alt)
  have c: "commitReg r1 cpu = cpu\<lparr>intReg := (intReg cpu)[unat (regWriteIdx r) := d]\<rparr>"
    using i assms(3,6) by (simp add: r1_def commitReg_def plainLoad_def cpu_wf_def)
  have "\<exists>locks1. applyMemEffect bus isp g r cpu b locks = (r1, cpu, b, locks1)"
    using assms(3-5) w
    by (auto simp: plainLoad_def applyMemEffect_def applyLoadEffect_def resolves_def r1_def d_def
        Let_def split: if_splits)
  then obtain locks1 where m: "applyMemEffect bus isp g r cpu b locks = (r1, cpu, b, locks1)" ..
  have f: "faultCode r1 = kNoFault" using assms(3) by (simp add: r1_def plainLoad_def)
  have "drain bus isp g r cpu b locks = (r1, commitReg r1 cpu, b, locks1)"
    using assms(3) m f by (auto simp: drain_def plainLoad_def kNoMemEffect_def)
  then show ?thesis using f c by simp
qed

text \<open>What a load obtains after a store of another or the same processor.\<close>

lemma load_after_store:
  assumes "ok b" "dram b pa" "plainStore rs" "resolves rs cpu pa" "dram b q" "plainLoad rl" "resolves rl cpu' q"
    "\<not> (isp \<and> q = 0xBFFC)" "cpu_wf cpu'"
    "drain bus isp g rs cpu b locks = (r1, cpu1, b1, locks1)"
    "drain bus isp g' rl cpu' b1 locks1 = (r2, cpu2, b2, locks2)"
  shows "faultCode r1 = kNoFault \<and> faultCode r2 = kNoFault \<and>
    (q = pa \<and> memSize rl = memSize rs \<longrightarrow> intReg cpu2 ! unat (regWriteIdx rl) =
       formatLoadValue (take_bit (8 * unat (memSize rs)) (memData rs)) (memSize rs) False (semFlags rl)) \<and>
    (apart pa (memSize rs) q (memSize rl) \<longrightarrow> intReg cpu2 ! unat (regWriteIdx rl) =
       formatLoadValue (br_data (fst (bus_read bus q (memSize rl) b))) (memSize rl) False (semFlags rl))"
proof -
  have sz: "memSize rs \<in> {1, 2, 4, 8}" "memSize rl \<in> {1, 2, 4, 8}"
    using assms(3,6) by (auto simp: plainStore_def plainLoad_def)
  have b1: "b1 = snd (bus_write bus pa (memData rs) (memSize rs) b)" "faultCode r1 = kNoFault"
    using drain_store [OF assms(1-4), of isp g locks] assms(3,10) by (auto simp: plainStore_def)
  have ok: "ok b1" "dram b1 q"
    using write_ok [OF assms(1,2) sz(1), of "memData rs"] b1(1) assms(5) by simp_all
  have len: "unat (regWriteIdx rl) < length (intReg cpu')"
    using assms(6,9) by (simp add: plainLoad_def cpu_wf_def word_less_nat_alt)
  have "intReg cpu2 ! unat (regWriteIdx rl) =
      formatLoadValue (br_data (fst (bus_read bus q (memSize rl) b1))) (memSize rl) False (semFlags rl)"
    "faultCode r2 = kNoFault"
    using drain_load [OF ok assms(6,7,8,9), of g' locks1] assms(11) len by auto
  then show ?thesis
    using read_written [OF assms(1,2) sz(1)] read_apart [OF assms(1,2) sz(1) assms(5) sz(2)] b1 by simp
qed

end

section \<open>Properties\<close>

lemma exampleCpu_miss: "translateInstruction exampleCpu (pc exampleCpu) 0 = (ItbMiss, 0)"
  by code_simp

text \<open>A bus on which every access succeeds.\<close>

definition quietBus :: "unit ISystemBus" where
  "quietBus = \<lparr>bus_read = \<lambda>pa w b. (\<lparr>br_status = BS_Ok, br_data = 0\<rparr>, b),
     bus_write = \<lambda>pa v w b. (\<lparr>br_status = BS_Ok, br_data = 0\<rparr>, b),
     bus_fetch = \<lambda>pa w b. (\<lparr>br_status = BS_Ok, br_data = 0\<rparr>, b)\<rparr>"

definition noPort :: "unit MemPort" where
  "noPort = \<lparr>mp_get = \<lambda>_. exampleMemory, mp_put = \<lambda>_ b. b\<rparr>"

text \<open>A quadword load at an odd address, and the trap it ends in.\<close>

lemma unaligned_load:
  assumes "issue bus gm fp isp 0xA43F0001 exampleCpu b locks = (r, cpu1, b1, locks1)"
  shows "faultCode r = toFaultCode Unaligned"
proof -
  define g where "g = decodedGrain exampleCpu 0xA43F0001 (decode 0xA43F0001 0)"
  define r0 where "r0 = execLdq g (buildCtx g exampleCpu)"
  have fn: "e_fn (decode 0xA43F0001 0) = Pure execLdq"
    by (simp add: decode_def primaryEntry_def g_primaryTable_def directEntry_def grainEntry_def)
  have pp: "palPersonality exampleCpu = 0" by (simp add: exampleCpu_def)
  have g: "g = \<lparr>g_pc = 0x10000, g_semFlags = flagSet [S_MemFormat, S_ReadsRb, S_WritesRa, S_ReadsInt,
       S_WritesInt, S_Load, S_Cacheable], encoded = 0xA43F0001, g_box = Mbox, primaryOp = 0x29\<rparr>"
    by (simp add: g_def decodedGrain_def exampleCpu_def decode_def primaryEntry_def g_primaryTable_def
       directEntry_def grainEntry_def)
  have m: "memSize r0 = 8" "memAddr r0 = 1" "\<not> memIsStore r0" "faultCode r0 = kNoFault" "\<not> has (semFlags r0) S_PhysAddr"
    unfolding r0_def g by code_simp+
  have t: "fst (translateDataAligned exampleCpu 1 8 DataRead 0) = Unaligned" by code_simp
  have ex: "execFn gm fp (Pure execLdq) g (buildCtx g exampleCpu) exampleCpu b = (r0, exampleCpu, b)"
    by (simp add: execFn_def r0_def)
  show ?thesis
    using assms t unfolding issue_def pp fn Let_def g_def [symmetric] ex
    by (auto simp: drain_def applyMemEffect_def m Let_def kNoFault_def kNoMemEffect_def
        kFaultDtbMiss_def split: prod.splits if_splits)
qed

text \<open>
  C24. However long a program runs, on any bus and with any floating point back end, the register file
  keeps its shape and the two registers that read as zero stay zero. Every instruction has a step:
  running is a total function.
\<close>

theorem register_file_invariant:
  assumes "cpu_wf cpu" "run bus gm fp isp n (cpu, b, locks) = (cpu1, b1, locks1)"
  shows "length (intReg cpu1) = 32 \<and> length (fpReg cpu1) = 32 \<and> length (intShadow cpu1) = 8 \<and>
    length (palTemp cpu1) = 32 \<and> intReg cpu1 ! 31 = 0 \<and> fpReg cpu1 ! 31 = 0"
  using wf_run [of "(cpu, b, locks)" bus gm fp isp n] assms by (simp add: cpu_wf_def)

theorem register_file_invariant_witness:
  "intReg (fst (run quietBus noPort quietBackend False 7 (exampleCpu, (), newLocks))) ! 31 = 0"
proof -
  obtain cpu1 locks1 where r: "run quietBus noPort quietBackend False 7 (exampleCpu, (), newLocks) = (cpu1, (), locks1)"
    by (metis prod_cases3 unit_eq)
  show ?thesis using register_file_invariant [OF exampleCpu_wf r] r by simp
qed

text \<open>
  Entering and leaving PAL mode are inverse to each other: the exchange of R4 to R7 and R20 to R23
  with the shadow registers, when it is enabled, loses neither bank, and nothing but the program
  counter's low bit changes besides.
\<close>

theorem pal_mode_roundtrip:
  assumes "cpu_wf cpu"
  shows "(\<not> inPalMode cpu \<longrightarrow> palModeLeave (palModeEnter cpu) = cpu) \<and>
    (inPalMode cpu \<longrightarrow> palModeEnter (palModeLeave cpu) = cpu)"
  using palMode_roundtrip [OF assms] by simp

theorem pal_mode_roundtrip_witness:
  "palModeLeave (palModeEnter exampleCpu) = exampleCpu \<and> intReg (palModeEnter exampleCpu) ! 20 = 5"
proof -
  have "\<not> inPalMode exampleCpu" by (simp add: inPalMode_def exampleCpu_def)
  moreover have "intReg (palModeEnter exampleCpu) ! 20 = 5" by code_simp
  ultimately show ?thesis using pal_mode_roundtrip [OF exampleCpu_wf] by blast
qed

text \<open>
  C2. Traps are precise. An instruction that raises a fault, for any reason but HALT, changes no
  register (other than the PAL shadow exchange) and at most gives up the processor's own reservation.
  Unless the fault is a bus error, memory and the reservations are unchanged, and the exception address
  is the address of that instruction with its mode bit, so that the handler can run it again; a bus
  error is reported behind the access, at the next instruction. With a PAL base set, execution
  continues in PAL mode at the fault's entry, and that entry is fetched from physical memory whatever
  the buffers hold; with none, the processor halts at the instruction.
\<close>

theorem precise_trap:
  assumes "issue bus gm fp isp w cpu b locks = (r, cpu1, b1, locks1)" "faultCode r \<notin> {kNoFault, kFaultHalt}"
  shows "(faultCode r \<noteq> kFaultBusError \<longrightarrow> b1 = b \<and> locks1 = locks) \<and>
    locks1 \<in> {locks, lockClear (sint (cpuSlot cpu)) locks} \<and> fpReg cpu1 = fpReg cpu \<and>
    lastFaultCode cpu1 = faultCode r \<and>
    (if palBase cpu = 0
     then intReg cpu1 = intReg cpu \<and> halted cpu1 \<and> pc cpu1 = pc cpu \<and> excAddr cpu1 = pc cpu
     else intReg cpu1 = intReg (palModeEnter cpu) \<and> halted cpu1 = halted cpu \<and> inPalMode cpu1 \<and>
       excAddr cpu1 = (if faultCode r = kFaultBusError
         then ((pc cpu AND NOT 1) + 4) OR (if inPalMode cpu then 1 else 0) else pc cpu) \<and>
       pc cpu1 = computeHwExceptionEntry (palBase cpu) (entryForFault (faultCode r)) OR 1 \<and>
       translateInstruction cpu1 (pc cpu1) 0
         = (Success, computeHwExceptionEntry (palBase cpu) (entryForFault (faultCode r)) AND kEv6PaMask))"
  using issue_trapped [OF assms] by (auto simp: trapped_def stopped_def resumeAddr_def)

theorem precise_trap_witness:
  "\<exists>r cpu1. issue quietBus noPort quietBackend False 0xA43F0001 exampleCpu () newLocks = (r, cpu1, (), newLocks) \<and>
     pc cpu1 = 0x8281 \<and> excAddr cpu1 = 0x10000"
proof -
  obtain r cpu1 locks1 where i: "issue quietBus noPort quietBackend False 0xA43F0001 exampleCpu () newLocks = (r, cpu1, (), locks1)"
    by (metis prod_cases4 unit_eq)
  have f: "faultCode r = 4" using unaligned_load [OF i] by simp
  then have c: "faultCode r \<notin> {kNoFault, kFaultHalt}" "faultCode r \<noteq> kFaultBusError" "palBase exampleCpu \<noteq> 0"
    by (simp_all add: kNoFault_def kFaultHalt_def kFaultBusError_def exampleCpu_def)
  note p = precise_trap [OF i c(1)]
  have "computeHwExceptionEntry (palBase exampleCpu) (entryForFault 4) OR 1 = 0x8281"
    by (simp add: computeHwExceptionEntry_def entryForFault_def exampleCpu_def kPalBaseAlignMask_def)
  moreover have "pc exampleCpu = 0x10000" by (simp add: exampleCpu_def)
  ultimately show ?thesis using p c(2,3) f i by simp
qed

text \<open>
  C32. A failed instruction fetch is always delivered: when the program counter does not translate, the
  next step puts the processor into the handler of exactly that outcome with the failing address in VA
  and EXC\_ADDR, and the handler's first instruction is fetched in the step after; no bus access is made.
\<close>

theorem fetch_fault_delivered:
  assumes "\<not> halted cpu" "translateInstruction cpu (pc cpu) 0 = (itr, pa)" "itr \<noteq> Success" "palBase cpu \<noteq> 0"
  shows "\<exists>cpu1. step bus gm fp isp (cpu, b, locks) = (True, cpu1, b, locks) \<and>
    cpu_va cpu1 = pc cpu \<and> excAddr cpu1 = pc cpu \<and> \<not> halted cpu1 \<and>
    pc cpu1 = computeHwExceptionEntry (palBase cpu) (entryForFault (toFaultCode itr)) OR 1 \<and>
    fst (translateInstruction cpu1 (pc cpu1) 0) = Success"
proof -
  have "toFaultCode itr \<noteq> kFaultBusError"
    using fetch_outcome [of cpu "pc cpu"] assms(2,3) by (auto simp: kFaultBusError_def)
  then show ?thesis
    using step_fetch_fault [OF assms, where bus = bus and gm = gm and fp = fp and isp = isp and b = b and locks = locks] assms(1)
    by (auto simp: trapped_def resumeAddr_def)
qed

theorem fetch_fault_delivered_witness:
  "\<exists>cpu1. step quietBus noPort quietBackend False (exampleCpu, (), newLocks) = (True, cpu1, (), newLocks) \<and> pc cpu1 = 0x8581"
proof -
  have "\<not> halted exampleCpu" "palBase exampleCpu \<noteq> 0" by (simp_all add: exampleCpu_def)
  moreover have "computeHwExceptionEntry (palBase exampleCpu) (entryForFault (toFaultCode ItbMiss)) OR 1 = 0x8581"
    by (simp add: computeHwExceptionEntry_def entryForFault_def exampleCpu_def kPalBaseAlignMask_def)
  ultimately show ?thesis
    using fetch_fault_delivered [OF _ exampleCpu_miss, where bus = quietBus and gm = noPort and fp = quietBackend and isp = False and b = "()"
        and locks = newLocks]
    by auto
qed

text \<open>
  C4. Store-conditional is exact on a shared bus. Several processors drain loads, stores and locked
  accesses in any order, starting with no reservation, and every store they perform lies inside one
  line of 64 bytes (as every aligned store does). A store-conditional that follows stores its data iff
  the issuing processor still holds the architected reservation of the line: its own last load-locked
  was to the line, it has issued no other store-conditional since, and no other processor has stored to
  a byte of the line. Then and only then it reports success (unless the bus refuses the write);
  otherwise memory is unchanged and it reports 0. A store that crosses into the next line is outside
  the statement: crossing\_store\_keeps\_reservation shows that it does not end a reservation there.
\<close>

theorem store_conditional_exact:
  assumes "drainAll bus isp evs b newLocks = (obs, b1, locks1)"
    and "drain bus isp g r cpu b1 locks1 = (r1, cpu1, b2, locks2)"
    and "faultCode r = kNoFault" "memIsStore r" "memSize r \<noteq> kNoMemEffect" "has (semFlags r) S_Locked"
    and "resolves r cpu pa" "0 \<le> sint (cpuSlot cpu)" "sint (cpuSlot cpu) < 4"
    and "list_all oneLine obs"
  shows "if reserved (sint (cpuSlot cpu)) (lineOf pa) obs
     then b2 = snd (bus_write bus pa (memData r) (memSize r) b1) \<and>
       (faultCode r1 = kNoFault \<and> regWriteValue r1 = 1 \<or> faultCode r1 = kFaultBusError)
     else b2 = b1 \<and> faultCode r1 = kNoFault \<and> regWriteValue r1 = 0"
proof -
  let ?c = "sint (cpuSlot cpu)"
  have n: "length newLocks = 4" "\<not> lockCheck ?c pa newLocks"
    using assms(8,9) by (auto simp: newLocks_def kMaxCPUs_def lockCheck_def)
  have h: "lockCheck ?c pa locks1 = reserved ?c (lineOf pa) obs"
    using drainAll_locks [OF assms(1) n(1) assms(8,9,10)] n(2) by (simp add: reserved_def)
  obtain r' cpu' b' locks' where m: "applyMemEffect bus isp g r cpu b1 locks1 = (r', cpu', b', locks')"
    by (metis prod_cases4)
  have eqs: "r1 = r'" "b2 = b'" using assms(2,3,5) m by (auto simp: drain_def split: if_splits)
  from m show ?thesis
  proof (cases rule: applyMemE)
    case (store q)
    have "q = pa" using store(2) assms(7) by (auto simp: resolves_def split: if_splits)
    then show ?thesis using applyStore_locks(1) [OF store(3)] h eqs assms(3,6) by (auto simp: Let_def)
  qed (use assms(4,7) in auto)
qed

text \<open>A store-conditional of processor 0 after its load-locked, with and without a store of processor 1.\<close>

definition lockedAccess :: "bool \<Rightarrow> bool \<Rightarrow> BoxResult" where
  "lockedAccess isStore locked = newBoxResult\<lparr>memSize := 8, memIsStore := isStore, memAddr := 0x2000,
     semFlags := flagSet (S_PhysAddr # (if locked then [S_Locked] else []))\<rparr>"

theorem store_conditional_exact_witness:
  "regWriteValue (fst (drain quietBus False (fetchedGrain exampleCpu) (lockedAccess True True) exampleCpu ()
     (snd (snd (drainAll quietBus False [(fetchedGrain exampleCpu, lockedAccess False True, exampleCpu),
        (fetchedGrain exampleCpu, lockedAccess True False, exampleCpu\<lparr>cpuSlot := 1\<rparr>)] () newLocks))))) = 0"
proof -
  let ?g = "fetchedGrain exampleCpu"
  let ?evs = "[(?g, lockedAccess False True, exampleCpu), (?g, lockedAccess True False, exampleCpu\<lparr>cpuSlot := 1\<rparr>)]"
  obtain obs locks1 where d: "drainAll quietBus False ?evs () newLocks = (obs, (), locks1)"
    by (metis prod_cases3 unit_eq)
  obtain r1 cpu1 locks2 where s: "drain quietBus False ?g (lockedAccess True True) exampleCpu () locks1 = (r1, cpu1, (), locks2)"
    by (metis prod_cases4 unit_eq)
  have "fst (drainAll quietBus False ?evs () newLocks) = [LoadLocked 0 0x2000, Stored 1 [0x2000, 0x2000]]" by code_simp
  then have "\<not> reserved 0 (lineOf 0x2000) obs" "list_all oneLine obs" using d by (simp_all add: reserved_def kCacheLineMask_def)
  moreover have "faultCode (lockedAccess True True) = kNoFault" "memIsStore (lockedAccess True True)"
    "memSize (lockedAccess True True) \<noteq> kNoMemEffect" "has (semFlags (lockedAccess True True)) S_Locked"
    "has (semFlags (lockedAccess True True)) S_PhysAddr" "sint (cpuSlot exampleCpu) = 0"
    by code_simp+
  moreover from this have "resolves (lockedAccess True True) exampleCpu 0x2000"
    by (simp add: resolves_def lockedAccess_def)
  ultimately have "regWriteValue r1 = 0"
    using store_conditional_exact [OF d s, of "0x2000"] by simp
  then show ?thesis using d s by simp
qed

text \<open>
  The drainer clears the reservations of the line of the first byte only. A store of processor 1 that
  reaches from one line into the next changes the line on which processor 0 holds a reservation, and
  the store-conditional of processor 0 still succeeds.
\<close>

lemma crossing_store_keeps_reservation:
  "let g = fetchedGrain exampleCpu;
       ll = (lockedAccess False True)\<lparr>memAddr := 0x2040\<rparr>;
       crossing = (lockedAccess True False)\<lparr>memAddr := 0x203C\<rparr>;
       sc = (lockedAccess True True)\<lparr>memAddr := 0x2040\<rparr>;
       (obs, b, locks) = drainAll quietBus False [(g, ll, exampleCpu), (g, crossing, exampleCpu\<lparr>cpuSlot := 1\<rparr>)] () newLocks
   in obs = [LoadLocked 0 0x2040, Stored 1 [0x2000, 0x2040]] \<and> \<not> reserved 0 0x2040 obs \<and>
     regWriteValue (fst (drain quietBus False g sc exampleCpu b locks)) = 1"
  by code_simp

section \<open>Calling PALcode\<close>

lemma drain_plain:
  assumes "faultCode r = kNoFault" "memSize r = kNoMemEffect" "regWriteIdx r = kNoRegWrite" "cpu_wf cpu"
  shows "drain bus isp g r cpu b locks = (r, cpu, b, locks)"
  using assms by (simp add: drain_def commitReg_def cpu_wf_def)

lemma swap_regs_cong:
  assumes "intReg x = intReg y" "intShadow x = intShadow y"
  shows "intReg (swapPalShadowRegs x) = intReg (swapPalShadowRegs y)"
    "intShadow (swapPalShadowRegs x) = intShadow (swapPalShadowRegs y)"
  using assms by (simp_all add: swapPalShadowRegs_def swapShadow_def upt4)

lemma swap_after_link:
  assumes "cpu_wf cpu" "intReg x = (intReg (swapPalShadowRegs cpu))[k := v]" "intShadow x = intShadow (swapPalShadowRegs cpu)"
  shows "intReg (swapPalShadowRegs x) = (if shadowOf k = None then (intReg cpu)[k := v] else intReg cpu)"
proof (rule nth_equalityI)
  have len: "length (intReg x) = 32" "length (intShadow x) = 8" using assms by (simp_all add: cpu_wf_def)
  fix i assume "i < length (intReg (swapPalShadowRegs x))"
  then have i: "i < 32" using len by simp
  have "intReg (swapPalShadowRegs x) ! i = (case shadowOf i of Some s \<Rightarrow> intReg cpu ! i
      | None \<Rightarrow> if i = k then v else intReg cpu ! i)"
    using i assms len unfolding cpu_wf_def
    by (auto simp: swap_intReg_nth swap_intShadow_nth shadowOf_def nth_list_update)
  then show "intReg (swapPalShadowRegs x) ! i = (if shadowOf k = None then (intReg cpu)[k := v] else intReg cpu) ! i"
    using i assms(1) by (auto simp: cpu_wf_def nth_list_update split: option.split)
qed (use assms in \<open>simp add: cpu_wf_def\<close>)

lemma even_pc: "\<not> inPalMode cpu \<Longrightarrow> \<not> bit (pc cpu + 4) 0"
proof -
  have "bit (v + 4 :: u64) 0 = bit v 0" for v by (simp add: bit_0)
  then show "\<not> inPalMode cpu \<Longrightarrow> \<not> bit (pc cpu + 4) 0" by (simp add: inPalMode_bit)
qed

lemma callPal_issue:
  assumes "cpu_wf cpu" "\<not> inPalMode cpu" "e_fn (decode w (palPersonality cpu)) = WithCtx execCallPalDispatch"
    "issue bus gm fp isp w cpu b locks = (r, cpu1, b1, locks1)"
  shows "b1 = b" "locks1 = locks" "cpu_wf cpu1" "pc cpu1 = computeCallPalEntry (palBase cpu) (w AND 0x03FFFFFF) OR 1"
    "excAddr cpu1 = pc cpu + 4" "fpReg cpu1 = fpReg cpu" "i_ctl cpu1 = i_ctl cpu" "palPersonality cpu1 = palPersonality cpu"
    "intReg cpu1 = (intReg (palModeEnter cpu))[iCtlCallPalLinkageReg (i_ctl cpu) := pc cpu + 4]"
    "intShadow cpu1 = intShadow (palModeEnter cpu)"
proof -
  define g where "g = decodedGrain cpu w (decode w (palPersonality cpu))"
  obtain r0 cpu0 where ex: "execCallPalDispatch g (buildCtx g cpu) cpu = (r0, cpu0)" by fastforce
  have r0: "faultCode r0 = kNoFault" "memSize r0 = kNoMemEffect" "regWriteIdx r0 = kNoRegWrite" "divert r0"
    "divertTarget r0 = computeCallPalEntry (palBase cpu) (w AND 0x03FFFFFF) OR 1"
    using ex by (auto simp: execCallPalDispatch_def Let_def g_def decodedGrain_def)
  have enter: "palModeEnter (cpu\<lparr>excAddr := a\<rparr>) = (palModeEnter cpu)\<lparr>excAddr := a\<rparr>" for a
    by (simp add: palModeEnter_def inPalMode_def sdeEnabled_def swapPalShadowRegs_def swapShadow_def upt4 Let_def)
  have ic: "i_ctl (palModeEnter cpu) = i_ctl cpu" "palPersonality (palModeEnter cpu) = palPersonality cpu"
    by (simp_all add: palModeEnter_def swapPalShadowRegs_def swapShadow_def Let_def upt4)
  have cpu0: "cpu0 = (palModeEnter cpu)\<lparr>excAddr := pc cpu + 4,
      intReg := (intReg (palModeEnter cpu))[iCtlCallPalLinkageReg (i_ctl cpu) := pc cpu + 4]\<rparr>"
    using ex assms(2) by (auto simp: execCallPalDispatch_def Let_def enter ic g_def decodedGrain_def)
  have wf: "cpu_wf cpu0" using wf_callPal [OF assms(1), of g "buildCtx g cpu"] by (simp add: ex)
  have i: "(r0, (cpu0\<lparr>pc := divertTarget r0\<rparr>)\<lparr>cycleCount := cycleCount cpu0 + 1\<rparr>, b, locks) = (r, cpu1, b1, locks1)"
    using assms(4) r0 unfolding issue_def Let_def g_def [symmetric] assms(3) execFn_def
    by (simp add: ex drain_plain [OF r0(1-3) wf] retire_def kFaultHalt_def kNoFault_def)
  show "b1 = b" "locks1 = locks" "cpu_wf cpu1" "pc cpu1 = computeCallPalEntry (palBase cpu) (w AND 0x03FFFFFF) OR 1"
    "excAddr cpu1 = pc cpu + 4" "fpReg cpu1 = fpReg cpu" "i_ctl cpu1 = i_ctl cpu" "palPersonality cpu1 = palPersonality cpu"
    "intReg cpu1 = (intReg (palModeEnter cpu))[iCtlCallPalLinkageReg (i_ctl cpu) := pc cpu + 4]"
    "intShadow cpu1 = intShadow (palModeEnter cpu)"
    using i wf r0(5) by (auto simp: cpu0 ic)
qed

lemma rei_issue:
  assumes "cpu_wf cpu" "inPalMode cpu" "\<not> bit (excAddr cpu) 0" "drop_bit 26 w AND 0x3F = 0x1E" "bit w 12"
    "issue bus gm fp isp w cpu b locks = (r, cpu1, b1, locks1)"
  shows "b1 = b" "locks1 = locks" "pc cpu1 = excAddr cpu" "fpReg cpu1 = fpReg cpu"
    "intReg cpu1 = intReg (if sdeEnabled cpu then swapPalShadowRegs cpu else cpu)"
proof -
  define g where "g = decodedGrain cpu w (decode w (palPersonality cpu))"
  have fn: "e_fn (decode w p) = WithCtx execHwRei" for p
    using assms(4) by (simp add: decode_def primaryEntry_def g_primaryTable_def directEntry_def grainEntry_def)
  obtain r0 cpu0 where ex: "execHwRei g (buildCtx g cpu) cpu = (r0, cpu0)" by fastforce
  have st: "drop_bit 12 w AND 1 \<noteq> 0"
    using assms(5) by (simp add: bit_iff_odd_drop_bit and_one_eq odd_iff_mod_2_eq_one)
  have tgt: "excAddr cpu AND 1 = 0" using assms(3) by (simp add: bit_0 and_one_eq even_iff_mod_2_eq_zero)
  have r0: "faultCode r0 = kNoFault" "memSize r0 = kNoMemEffect" "regWriteIdx r0 = kNoRegWrite" "divert r0"
    "divertTarget r0 = excAddr cpu" "cpu0 = palModeLeave cpu"
    using ex st tgt assms(2) by (auto simp: execHwRei_def Let_def g_def decodedGrain_def setPalMode_def)
  have wf: "cpu_wf cpu0" using wf_palModeLeave [OF assms(1)] r0(6) by simp
  have i: "(r0, (cpu0\<lparr>pc := divertTarget r0\<rparr>)\<lparr>cycleCount := cycleCount cpu0 + 1\<rparr>, b, locks) = (r, cpu1, b1, locks1)"
    using assms(6) r0(1-5) unfolding issue_def Let_def g_def [symmetric] fn execFn_def
    by (simp add: ex drain_plain [OF r0(1-3) wf] retire_def kFaultHalt_def kNoFault_def)
  have leave: "fpReg (palModeLeave cpu) = fpReg cpu"
    "intReg (palModeLeave cpu) = intReg (if sdeEnabled cpu then swapPalShadowRegs cpu else cpu)"
    using assms(2) swap_regs_cong(1) [of "cpu\<lparr>pc := pc cpu AND NOT 1\<rparr>" cpu]
    by (simp_all add: palModeLeave_def Let_def sdeEnabled_def)
  show "b1 = b" "locks1 = locks" "pc cpu1 = excAddr cpu" "fpReg cpu1 = fpReg cpu"
    "intReg cpu1 = intReg (if sdeEnabled cpu then swapPalShadowRegs cpu else cpu)"
    using i r0(5,6) leave by auto
qed

text \<open>
  C3. A call of PALcode returns. A CALL\_PAL in native mode enters PAL mode at the entry of its function in
  the PAL base; a stacked HW\_REI there resumes native mode at the instruction after the call. Neither
  touches memory, a reservation or a floating point register, and the integer registers are those
  of the caller: with shadowing on and the linkage in R23 all of them, otherwise all but the linkage
  register, which holds the return address.
\<close>

theorem call_pal_returns:
  assumes "cpu_wf cpu" "\<not> inPalMode cpu" "e_fn (decode w (palPersonality cpu)) = WithCtx execCallPalDispatch"
    "drop_bit 26 w2 AND 0x3F = 0x1E" "bit w2 12"
    "issue bus gm fp isp w cpu b locks = (r, cpu1, b1, locks1)"
    "issue bus gm fp isp w2 cpu1 b1 locks1 = (r2, cpu2, b2, locks2)"
  shows "b2 = b \<and> locks2 = locks \<and> inPalMode cpu1 \<and>
    pc cpu1 = computeCallPalEntry (palBase cpu) (w AND 0x03FFFFFF) OR 1 \<and>
    pc cpu2 = pc cpu + 4 \<and> \<not> inPalMode cpu2 \<and> fpReg cpu2 = fpReg cpu \<and>
    intReg cpu2 = (if sdeEnabled cpu \<and> iCtlCallPalUsesR23 (i_ctl cpu) then intReg cpu
                   else (intReg cpu)[iCtlCallPalLinkageReg (i_ctl cpu) := pc cpu + 4])"
proof -
  note c = callPal_issue [OF assms(1-3,6)]
  have pal: "inPalMode cpu1" by (simp add: inPalMode_bit c(4) bit_or_iff)
  have "\<not> bit (excAddr cpu1) 0" using even_pc [OF assms(2)] c(5) by simp
  note r = rei_issue [OF c(3) pal this assms(4,5,7)]
  have sde: "sdeEnabled cpu1 = sdeEnabled cpu" by (simp add: sdeEnabled_def c(7))
  have "intReg cpu2 = (if sdeEnabled cpu \<and> iCtlCallPalUsesR23 (i_ctl cpu) then intReg cpu
      else (intReg cpu)[iCtlCallPalLinkageReg (i_ctl cpu) := pc cpu + 4])"
  proof (cases "sdeEnabled cpu")
    case True
    have e: "intReg (palModeEnter cpu) = intReg (swapPalShadowRegs cpu)" "intShadow (palModeEnter cpu) = intShadow (swapPalShadowRegs cpu)"
      using assms(2) True by (simp_all add: palModeEnter_def Let_def)
    show ?thesis
      using True sde r(5) swap_after_link [OF assms(1) c(9) [unfolded e] c(10) [unfolded e]]
      by (simp add: iCtlCallPalLinkageReg_def shadowOf_def)
  next
    case False
    then show ?thesis using r(5) sde c(9) assms(2) by (simp add: palModeEnter_def Let_def)
  qed
  then show ?thesis using r c pal even_pc [OF assms(2)] by (simp add: inPalMode_bit)
qed

text \<open>The breakpoint call of the Tru64 table and a stacked return, on a processor with shadowing on.\<close>

lemma bpt_entry: "e_fn (decode 0x00000080 0) = WithCtx execCallPalDispatch"
  by (simp add: decode_def primaryEntry_def g_primaryTable_def subEntry_def directEntry_def lookupPalTru64_def
      lookupPalTru64_cases_def grainEntry_def execBpt_def)

theorem call_pal_returns_witness:
  "\<exists>cpu2. (\<exists>cpu1 r r2. issue quietBus noPort quietBackend False 0x80 exampleCpu () newLocks = (r, cpu1, (), newLocks) \<and>
      issue quietBus noPort quietBackend False 0x7BFF9000 cpu1 () newLocks = (r2, cpu2, (), newLocks)) \<and>
    pc cpu2 = 0x10004 \<and> intReg cpu2 = (replicate 32 0)[27 := 0x10004]"
proof -
  obtain r cpu1 l1 where c: "issue quietBus noPort quietBackend False 0x80 exampleCpu () newLocks = (r, cpu1, (), l1)"
    by (metis prod_cases4 unit_eq)
  obtain r2 cpu2 l2 where d: "issue quietBus noPort quietBackend False 0x7BFF9000 cpu1 () l1 = (r2, cpu2, (), l2)"
    by (metis prod_cases4 unit_eq)
  have a: "\<not> inPalMode exampleCpu" "palPersonality exampleCpu = 0" "pc exampleCpu = 0x10000" "i_ctl exampleCpu = 0x80"
    "intReg exampleCpu = replicate 32 0"
    by (simp_all add: exampleCpu_def inPalMode_def)
  have w2: "drop_bit 26 (0x7BFF9000 :: u32) AND 0x3F = 0x1E" "bit (0x7BFF9000 :: u32) 12" by simp_all
  have e: "e_fn (decode 0x80 (palPersonality exampleCpu)) = WithCtx execCallPalDispatch" using bpt_entry by (simp add: a(2))
  have "l1 = newLocks" using callPal_issue(2) [OF exampleCpu_wf a(1) e c] .
  then show ?thesis
    using call_pal_returns [OF exampleCpu_wf a(1) e w2 c d] c d a
    by (auto simp: iCtlCallPalUsesR23_def iCtlCallPalLinkageReg_def kICtlCallPalR23Bit_def)
qed

section \<open>Calling subroutines\<close>

text \<open>An instruction that saves a link and diverts the PC, through the whole cycle.\<close>

lemma link_issue:
  assumes "cpu_wf cpu" "g = decodedGrain cpu w (decode w (palPersonality cpu))"
    "e_fn (decode w (palPersonality cpu)) = Pure leaf"
    "leaf g (buildCtx g cpu) = (writeRa g v)\<lparr>divertTarget := t, divert := True\<rparr>"
    "issue bus gm fp isp w cpu b locks = (r, cpu1, b1, locks1)"
  shows "b1 = b" "locks1 = locks" "cpu_wf cpu1"
    "cpu1 = cpu\<lparr>intReg := (intReg cpu)[unat (raIndex g) := v, 31 := 0], pc := t, cycleCount := cycleCount cpu + 1\<rparr>"
proof -
  let ?r = "(writeRa g v)\<lparr>divertTarget := t, divert := True\<rparr>"
  let ?x = "(intReg cpu)[unat (raIndex g) := v, 31 := 0]"
  have len: "length (intReg cpu) = 32" "intReg cpu ! 31 = 0" using assms(1) by (simp_all add: cpu_wf_def)
  have no: "raIndex g = kNoRegWrite \<longleftrightarrow> unat (raIndex g) = 31"
    by (simp add: kNoRegWrite_def word_unat_eq_iff)
  have z: "xs[31 := 0] = xs" if "xs ! 31 = 0" for xs :: "u64 list"
    using that list_update_id [of xs 31] by simp
  have cm: "commitReg ?r cpu = cpu\<lparr>intReg := ?x\<rparr>"
  proof (cases "raIndex g = kNoRegWrite")
    case True
    then show ?thesis using no len z [of "intReg cpu"] by (simp add: commitReg_def writeRa_def newBoxResult_def)
  next
    case False
    have n: "unat (raIndex g) \<noteq> 31" using False no by simp
    have k: "(intReg cpu)[unat (raIndex g) := v] ! 31 = 0" using len n by (simp add: nth_list_update)
    show ?thesis using False k z [OF k] by (simp add: commitReg_def writeRa_def newBoxResult_def)
  qed
  have dr: "drain bus isp g ?r cpu b locks = (?r, cpu\<lparr>intReg := ?x\<rparr>, b, locks)"
    using cm by (simp add: drain_def writeRa_def newBoxResult_def kNoFault_def kNoMemEffect_def)
  have rt: "retire g ?r x = x\<lparr>pc := t\<rparr>" for x
    by (simp add: retire_def writeRa_def newBoxResult_def kNoFault_def kFaultHalt_def)
  have i: "issue bus gm fp isp w cpu b locks
      = (?r, cpu\<lparr>intReg := ?x, pc := t, cycleCount := cycleCount cpu + 1\<rparr>, b, locks)"
    unfolding issue_def Let_def assms(2) [symmetric] assms(3) execFn_def
    by (simp add: assms(4) dr rt)
  then show "b1 = b" "locks1 = locks" "cpu1 = cpu\<lparr>intReg := ?x, pc := t, cycleCount := cycleCount cpu + 1\<rparr>"
    using assms(5) by auto
  show "cpu_wf cpu1" by (rule wf_issue [OF assms(1,5)])
qed

text \<open>The three instruction words.\<close>

definition isBsr :: "u32 \<Rightarrow> bool" where
  "isBsr w \<longleftrightarrow> drop_bit 26 w AND 0x3F = 0x34"

definition isJsr :: "u32 \<Rightarrow> bool" where
  "isJsr w \<longleftrightarrow> drop_bit 26 w AND 0x3F = 0x1A \<and> drop_bit 14 w AND 3 = 1"

definition isRet :: "u32 \<Rightarrow> bool" where
  "isRet w \<longleftrightarrow> drop_bit 26 w AND 0x3F = 0x1A \<and> drop_bit 14 w AND 3 = 2"

abbreviation raOf :: "u32 \<Rightarrow> nat" where
  "raOf w \<equiv> unat (drop_bit 21 w AND 0x1F)"

abbreviation rbOf :: "u32 \<Rightarrow> nat" where
  "rbOf w \<equiv> unat (drop_bit 16 w AND 0x1F)"

lemma call_words:
  "isBsr w \<Longrightarrow> e_fn (decode w p) = Pure execBsr"
  "isJsr w \<Longrightarrow> e_fn (decode w p) = Pure execJsr \<and> e_semFlags (decode w p) = flagSet [S_JmpFormat, S_ReadsRb,
     S_ReadsInt, S_WritesRa, S_WritesInt, S_ChangesPC, S_Uncond, S_Indirect, S_CallBased]"
  "isRet w \<Longrightarrow> e_fn (decode w p) = Pure execRet \<and> e_semFlags (decode w p) = flagSet [S_JmpFormat, S_ReadsRb,
     S_ReadsInt, S_WritesRa, S_WritesInt, S_ChangesPC, S_Uncond, S_Indirect, S_RetBased]"
  by (simp_all add: isBsr_def isJsr_def isRet_def decode_def primaryEntry_def g_primaryTable_def directEntry_def
      subEntry_def subDecode_def slot_def g_jmpClassSubTable_def grainEntry_def)

lemma unat_raIndex: "unat (raIndex (decodedGrain cpu w e)) = raOf w"
proof -
  have "raOf w \<le> 31" using unat_and_le [of "drop_bit 21 w" "0x1F"] by simp
  then show ?thesis by (simp add: raIndex_def decodedGrain_def unsigned_ucast_eq take_bit_nat_eq_self_iff Let_def)
qed

lemma jump_operand:
  assumes "isJsr w \<or> isRet w" "g = decodedGrain cpu w (decode w (palPersonality cpu))"
  shows "opB (buildCtx g cpu) = intReg cpu ! rbOf w" "g_pc g = pc cpu"
proof -
  have "drop_bit 26 w AND 0x3F = 0x1A" using assms(1) by (auto simp: isJsr_def isRet_def)
  then have "g_semFlags g = e_semFlags (decode w (palPersonality cpu))" "encoded g = w"
    by (simp_all add: assms(2) decodedGrain_def)
  then show "opB (buildCtx g cpu) = intReg cpu ! rbOf w"
    using assms(1) by (auto simp: buildCtx_def call_words Let_def)
  show "g_pc g = pc cpu" by (simp add: assms(2) decodedGrain_def Let_def)
qed

text \<open>
  C30. A subroutine returns to its caller. BSR or JSR writes the return address, without the mode bits,
  to its link register, changes no other register, and continues at the branch target or at the address
  in Rb; whatever the subroutine does in between, a RET through a register that then holds the link
  value, in the mode of the call, continues at the instruction after the call and in the caller's
  mode. None of the three touches memory or a reservation.
\<close>

theorem subroutine_returns:
  assumes "cpu_wf cpu" "isBsr w \<or> isJsr w" "raOf w \<noteq> 31" "pc cpu AND 2 = 0"
    "issue bus gm fp isp w cpu b locks = (r, cpu1, b1, locks1)"
    "cpu_wf cpu2" "isRet w2" "intReg cpu2 ! rbOf w2 = intReg cpu1 ! raOf w" "inPalMode cpu2 = inPalMode cpu"
    "issue bus gm fp isp w2 cpu2 b2 locks2 = (r2, cpu3, b3, locks3)"
  shows "b1 = b \<and> locks1 = locks \<and> intReg cpu1 = (intReg cpu)[raOf w := (pc cpu + 4) AND NOT 3] \<and>
    fpReg cpu1 = fpReg cpu \<and>
    pc cpu1 = (if isBsr w then pc cpu + 4 + of_int (4 * signed_take_bit 20 (uint w))
               else (intReg cpu ! rbOf w AND NOT 3) OR (pc cpu AND 1)) \<and>
    b3 = b2 \<and> locks3 = locks2 \<and> fpReg cpu3 = fpReg cpu2 \<and>
    intReg cpu3 = (intReg cpu2)[raOf w2 := (pc cpu2 + 4) AND NOT 3, 31 := 0] \<and>
    pc cpu3 = pc cpu + 4 \<and> inPalMode cpu3 = inPalMode cpu"
proof -
  define g where "g = decodedGrain cpu w (decode w (palPersonality cpu))"
  define g2 where "g2 = decodedGrain cpu2 w2 (decode w2 (palPersonality cpu2))"
  have gp: "g_pc g = pc cpu" "encoded g = w" by (simp_all add: g_def decodedGrain_def Let_def)
  obtain leaf t where c: "e_fn (decode w (palPersonality cpu)) = Pure leaf"
      "leaf g (buildCtx g cpu) = (writeRa g ((pc cpu + 4) AND NOT 3))\<lparr>divertTarget := t, divert := True\<rparr>"
    and t: "t = (if isBsr w then pc cpu + 4 + of_int (4 * signed_take_bit 20 (uint w))
               else (intReg cpu ! rbOf w AND NOT 3) OR (pc cpu AND 1))"
  proof (cases "isBsr w")
    case True
    then show ?thesis using that [OF call_words(1) [OF True]]
      by (simp add: execBsr_def linkValue_def branchTarget_def gp braDispSext_eq)
  next
    case False
    then have j: "isJsr w" using assms(2) by simp
    show ?thesis using that [OF conjunct1 [OF call_words(2) [OF j]]] False jump_operand(1) [OF _ g_def] j
      by (simp add: execJsr_def indirectJump_def linkValue_def gp)
  qed
  note i = link_issue [OF assms(1) g_def c assms(5)]
  have len: "length (intReg cpu) = 32" "intReg cpu ! 31 = 0" using assms(1) by (simp_all add: cpu_wf_def)
  have "(intReg cpu)[raOf w := x, 31 := 0] = (intReg cpu)[raOf w := x]" for x
    using len assms(3) list_update_id [of "intReg cpu" 31] by (simp add: list_update_swap)
  then have regs: "intReg cpu1 = (intReg cpu)[raOf w := (pc cpu + 4) AND NOT 3]"
    using i(4) unat_raIndex [of cpu w] by (simp add: g_def)
  have "raOf w < 32" using unat_and_le [of "drop_bit 21 w" "0x1F"] by simp
  then have link: "intReg cpu2 ! rbOf w2 = (pc cpu + 4) AND NOT 3" using assms(8) regs len by simp
  have m: "pc cpu2 AND 1 = pc cpu AND 1"
    using assms(9) by (simp add: inPalMode_bit bit_0 and_one_eq mod2_eq_if)
  have r: "e_fn (decode w2 (palPersonality cpu2)) = Pure execRet"
    "execRet g2 (buildCtx g2 cpu2) = (writeRa g2 ((pc cpu2 + 4) AND NOT 3))\<lparr>divertTarget := pc cpu + 4, divert := True\<rparr>"
    using call_words(3) [OF assms(7)] jump_operand [OF disjI2 [OF assms(7)] g2_def] link m link_roundtrip [OF assms(4)]
    by (simp_all add: execRet_def indirectJump_def linkValue_def)
  note k = link_issue [OF assms(6) g2_def r assms(10)]
  have pal: "inPalMode cpu3 = inPalMode cpu" by (simp add: inPalMode_bit k(4) bit_0)
  show ?thesis using i k regs t pal unat_raIndex [of cpu2 w2] by (simp add: g2_def)
qed

text \<open>BSR R26, +16 at 0x10000 and RET R31, (R26) out of its first instruction.\<close>

theorem subroutine_returns_witness:
  "\<exists>cpu1 cpu2 r r2. issue quietBus noPort quietBackend False 0xD3400004 exampleCpu () newLocks = (r, cpu1, (), newLocks) \<and>
     pc cpu1 = 0x10014 \<and> intReg cpu1 ! 26 = 0x10004 \<and>
     issue quietBus noPort quietBackend False 0x6BFA8001 cpu1 () newLocks = (r2, cpu2, (), newLocks) \<and> pc cpu2 = 0x10004"
proof -
  obtain r cpu1 l1 where c: "issue quietBus noPort quietBackend False 0xD3400004 exampleCpu () newLocks = (r, cpu1, (), l1)"
    by (metis prod_cases4 unit_eq)
  obtain r2 cpu2 l2 where d: "issue quietBus noPort quietBackend False 0x6BFA8001 cpu1 () l1 = (r2, cpu2, (), l2)"
    by (metis prod_cases4 unit_eq)
  have wf: "cpu_wf cpu1" by (rule wf_issue [OF exampleCpu_wf c])
  have w: "isBsr 0xD3400004" "isRet 0x6BFA8001" "raOf 0xD3400004 = 26" "rbOf 0x6BFA8001 = 26" "raOf 0x6BFA8001 = 31"
    by (simp_all add: isBsr_def isRet_def)
  have e: "pc exampleCpu = 0x10000" "intReg exampleCpu = replicate 32 0" by (simp_all add: exampleCpu_def)
  have w1: "isBsr 0xD3400004 \<or> isJsr 0xD3400004" "raOf 0xD3400004 \<noteq> 31" "pc exampleCpu AND 2 = 0"
    using w by (simp_all add: e)
  have lk: "intReg cpu1 ! rbOf 0x6BFA8001 = intReg cpu1 ! raOf 0xD3400004" by (simp add: w)
  have p: "pc cpu1 = 0x10014"
    using link_issue(4) [OF exampleCpu_wf refl call_words(1) [OF w(1)] _ c]
    by (simp add: execBsr_def branchTarget_def braDispSext_eq decodedGrain_def e)
  have m: "inPalMode cpu1 = inPalMode exampleCpu" by (simp add: inPalMode_bit p e)
  show ?thesis
    using subroutine_returns [OF exampleCpu_wf w1 c wf w(2) lk m d] c d w e p by auto
qed

text \<open>
  No stage tests the privilege flag of an entry: a program in user mode that executes HW\_MTPR moves the
  PAL base.
\<close>

lemma user_mode_sets_pal_base:
  assumes "cpu_wf cpu" "mode cpu = User" "\<not> inPalMode cpu"
    "issue bus gm fp isp 0x77E11000 cpu b locks = (r, cpu1, b1, locks1)"
  shows "faultCode r = kNoFault \<and> palBase cpu1 = palBaseSanitize (intReg cpu ! 1) \<and> pc cpu1 = pc cpu + 4"
proof -
  define g where "g = decodedGrain cpu 0x77E11000 (decode 0x77E11000 (palPersonality cpu))"
  have e: "decode 0x77E11000 p = grainEntry (WithCtx execHwMtpr) [S_HwFormat, S_Privileged, S_IprWrite,
       S_ReadsRb, S_ReadsInt] PalBox ''HW_MTPR''" for p
    by (simp add: decode_def primaryEntry_def g_primaryTable_def directEntry_def)
  have fn: "e_fn (decode 0x77E11000 p) = WithCtx execHwMtpr" for p by (simp add: e grainEntry_def)
  have g: "encoded g = 0x77E11000" "g_semFlags g = flagSet [S_HwFormat, S_Privileged, S_IprWrite, S_ReadsRb, S_ReadsInt]"
    "g_pc g = pc cpu"
    by (simp_all add: g_def decodedGrain_def e grainEntry_def)
  have opb: "opB (buildCtx g cpu) = intReg cpu ! 1"
    by (simp add: buildCtx_def g Let_def)
  have sel: "hwIpr (iprSelector g) = Some HW_PAL_BASE"
    by (simp add: iprSelector_def g hwIpr_def isPalTemp_def hwIprTable_def)
  define cpu0 where "cpu0 = cpu\<lparr>palBase := palBaseSanitize (intReg cpu ! 1)\<rparr>"
  have ex: "execHwMtpr g (buildCtx g cpu) cpu = (palResult g, cpu0)"
    by (simp add: execHwMtpr_def sel opb cpu0_def)
  have wf: "cpu_wf cpu0" using assms(1) by (simp add: cpu0_def)
  have dr: "drain bus isp g (palResult g) cpu0 b locks = (palResult g, cpu0, b, locks)"
    by (intro drain_plain wf) simp_all
  have "issue bus gm fp isp 0x77E11000 cpu b locks = (palResult g, cpu0\<lparr>pc := g_pc g + 4, cycleCount := cycleCount cpu0 + 1\<rparr>, b, locks)"
    unfolding issue_def Let_def g_def [symmetric] fn execFn_def
    by (simp add: ex dr retire_def kNoFault_def kFaultHalt_def)
  then show ?thesis using assms(4) by (auto simp: g cpu0_def)
qed

end
