(* ===== verification/DataStream.thy ===== *)
theory DataStream
  imports Prelude
begin

text \<open>
  The snapshot stream the devices are saved to: the parts of Qt's QDataStream the sources
  use (single bytes, and 32-bit and 64-bit words in the little-endian order that Snapshot.cpp sets on
  its streams; a read past the end yields zero), and the contract of a device that is saved to and restored from it.
\<close>

section \<open>The stream\<close>

definition put_u32 :: "u32 \<Rightarrow> u8 list" where
  "put_u32 w = [ucast w, ucast (drop_bit 8 w), ucast (drop_bit 16 w), ucast (drop_bit 24 w)]"

fun get_u8 :: "u8 list \<Rightarrow> u8 \<times> u8 list" where
  "get_u8 [] = (0, [])"
| "get_u8 (b # bs) = (b, bs)"

fun get_u32 :: "u8 list \<Rightarrow> u32 \<times> u8 list" where
  "get_u32 (a # b # c # d # bs) =
     (ucast a OR push_bit 8 (ucast b) OR push_bit 16 (ucast c) OR push_bit 24 (ucast d), bs)"
| "get_u32 bs = (0, [])"

definition put_u64 :: "u64 \<Rightarrow> u8 list" where
  "put_u64 w = put_u32 (ucast w) @ put_u32 (ucast (drop_bit 32 w))"

fun get_u64 :: "u8 list \<Rightarrow> u64 \<times> u8 list" where
  "get_u64 bs = (if length bs < 8 then (0, [])
     else let (lo, bs1) = get_u32 bs; (hi, bs2) = get_u32 bs1 in (push_bit 32 (ucast hi) OR ucast lo, bs2))"

lemma lane_and32: "push_bit i (ucast (ucast (drop_bit i v) :: u8)) = (v :: u32) AND push_bit i 0xFF"
  by (intro bit_word_eqI) (auto simp: bit_simps)

lemma and_all_ones32: "(v :: u32) AND 0xFFFFFFFF = v"
proof -
  have "(0xFFFFFFFF :: u32) = - 1" by simp
  then show ?thesis by (metis and.right_neutral)
qed

lemma get_put_u32 [simp]: "get_u32 (put_u32 w @ bs) = (w, bs)"
  using lane_and32 [of 0 w] lane_and32 [of 8 w] lane_and32 [of 16 w] lane_and32 [of 24 w]
  by (simp add: put_u32_def and_all_ones32 flip: bit.conj_disj_distrib)

lemma get_put_u64 [simp]: "get_u64 (put_u64 w @ bs) = (w, bs)"
proof -
  have "push_bit 32 (ucast (ucast (drop_bit 32 w) :: u32)) OR ucast (ucast w :: u32) = w"
    by (rule bit_word_eqI) (auto simp: bit_simps)
  moreover have "length (put_u64 w) = 8" by (simp add: put_u64_def put_u32_def)
  ultimately show ?thesis by (simp add: put_u64_def)
qed

declare get_u64.simps [simp del]

text \<open>A raw read into a buffer; when the stream is short the tail of the buffer keeps its contents.\<close>

definition readRaw :: "u8 list \<Rightarrow> u8 list \<Rightarrow> u8 list \<times> u8 list" where
  "readRaw buf ds = (take (length buf) ds @ drop (length ds) buf, drop (length buf) ds)"

lemma readRaw_append: "length buf = length bs \<Longrightarrow> readRaw buf (bs @ rest) = (bs, rest)"
  by (simp add: readRaw_def)

text \<open>A fixed number of items one after the other.\<close>

fun get_many :: "(u8 list \<Rightarrow> 'a \<times> u8 list) \<Rightarrow> nat \<Rightarrow> u8 list \<Rightarrow> 'a list \<times> u8 list" where
  "get_many get 0 ds = ([], ds)"
| "get_many get (Suc n) ds = (let (x, ds) = get ds; (xs, ds) = get_many get n ds in (x # xs, ds))"

lemma get_many_put:
  assumes "\<And>x ds. get (put x @ ds) = (x, ds)"
  shows "get_many get (length xs) (concat (map put xs) @ ds) = (xs, ds)"
  by (induction xs) (simp_all add: assms)

section \<open>Devices that are saved\<close>

text \<open>
  A device saves its state and loads it back into a device object that may hold anything;
  \<open>restore\<close> says which parts of the object come from the stream and which stay.
\<close>

locale snapshot_codec =
  fixes ok :: "'s \<Rightarrow> bool"
    and save :: "'s \<Rightarrow> u8 list"
    and load :: "'s \<Rightarrow> u8 list \<Rightarrow> 's \<times> u8 list"
    and restore :: "'s \<Rightarrow> 's \<Rightarrow> 's"
  assumes load_save: "ok s \<Longrightarrow> load s0 (save s @ rest) = (restore s0 s, rest)"
begin

text \<open>Several devices of the kind, saved one after the other and loaded in the same order.\<close>

fun load_all :: "'s list \<Rightarrow> u8 list \<Rightarrow> 's list \<times> u8 list" where
  "load_all [] bs = ([], bs)"
| "load_all (s0 # ss) bs =
     (let (s, bs1) = load s0 bs; (ss', bs2) = load_all ss bs1 in (s # ss', bs2))"

lemma load_all_save:
  "list_all ok ss \<Longrightarrow> length olds = length ss \<Longrightarrow>
     load_all olds (concat (map save ss) @ rest) = (map2 restore olds ss, rest)"
proof (induction olds ss rule: list_induct2')
  case (4 x xs y ys)
  then show ?case by (simp add: load_save)
qed auto

lemma load_exact: "ok s \<Longrightarrow> load s0 (save s) = (restore s0 s, [])"
  using load_save [of s s0 "[]"] by simp

end

end
