(* ===== verification/Cchip.thy ===== *)
theory Cchip
  imports DataStream Complex_Main
begin

text \<open>
  The Tsunami Cchip of chipsetLib/TsunamiCchip.h: the memory array registers that decide which
  physical addresses are DRAM, the MISC register with its write-one-to-clear, write-one-to-set and
  write-only fields (field positions of Tsunami21272_CsrSpec.h), device, timer and interprocessor
  interrupt state, the register interface with the offsets of Tsunami21272_RegisterMap.h, and the
  snapshot codec; the variant table of TsunamiVariant.h and the tick predicate of
  CchipIntervalTimer.h.

  Register words are atomics in the source; every update is one fetch-and-modify or a
  compare-and-swap loop, which takes effect as one application of the function the loop body computes.
  The diagnostic logging of register accesses is not modelled.
\<close>

section \<open>Variants\<close>

datatype ChipsetVariant = Tsunami | Typhoon | Titan | UnknownVariant

record ChipsetVariantInfo =
  info_drev :: u64
  info_crev :: u8

primrec variantInfo :: "ChipsetVariant \<Rightarrow> ChipsetVariantInfo option" where
  "variantInfo Tsunami = Some \<lparr>info_drev = 0x10, info_crev = 1\<rparr>"
| "variantInfo Typhoon = Some \<lparr>info_drev = 0x20, info_crev = 8\<rparr>"
| "variantInfo Titan = Some \<lparr>info_drev = 0x22, info_crev = 0x0A\<rparr>"
| "variantInfo UnknownVariant = None"

section \<open>State\<close>

record AAR =
  aar_base :: u64
  aar_mask :: u64
  aar_enabled :: bool

record Cchip =
  m_variant :: ChipsetVariant
  m_cpuCount :: int
  m_memSizeBytes :: u64
  m_csc :: u64
  m_mtr :: u64
  m_mpd :: u64
  m_prben :: u64
  m_mpr :: "u64 list"
  m_ttr :: u64
  m_tdr :: u64
  m_misc :: u64
  m_drir :: u64
  m_aar :: "AAR list"
  m_pendingIrq2 :: "bool list"
  m_pendingIrq3 :: "bool list"
  m_dim :: "u64 list"
  m_iic :: "u64 list"

section \<open>Fields of MISC\<close>

record FieldSpec =
  f_lsb :: nat
  f_width :: nat

definition widthMask :: "FieldSpec \<Rightarrow> u64" where
  "widthMask f = (if 64 \<le> f_width f then NOT 0 else push_bit (f_width f) 1 - 1)"

definition fmask :: "FieldSpec \<Rightarrow> u64" where
  "fmask f = push_bit (f_lsb f) (widthMask f)"

definition deposit :: "u64 \<Rightarrow> FieldSpec \<Rightarrow> u64 \<Rightarrow> u64" where
  "deposit reg f val = (reg AND NOT (fmask f)) OR push_bit (f_lsb f) (val AND widthMask f)"

definition MISC_DEVSUP :: FieldSpec where "MISC_DEVSUP = \<lparr>f_lsb = 40, f_width = 4\<rparr>"

definition MISC_NXS :: FieldSpec where "MISC_NXS = \<lparr>f_lsb = 29, f_width = 3\<rparr>"

definition MISC_NXM :: FieldSpec where "MISC_NXM = \<lparr>f_lsb = 28, f_width = 1\<rparr>"

definition MISC_ACL :: FieldSpec where "MISC_ACL = \<lparr>f_lsb = 24, f_width = 1\<rparr>"

definition MISC_ABT :: FieldSpec where "MISC_ABT = \<lparr>f_lsb = 20, f_width = 4\<rparr>"

definition MISC_ABW :: FieldSpec where "MISC_ABW = \<lparr>f_lsb = 16, f_width = 4\<rparr>"

definition MISC_IPREQ :: FieldSpec where "MISC_IPREQ = \<lparr>f_lsb = 12, f_width = 4\<rparr>"

definition MISC_IPINTR :: FieldSpec where "MISC_IPINTR = \<lparr>f_lsb = 8, f_width = 4\<rparr>"

definition MISC_ITINTR :: FieldSpec where "MISC_ITINTR = \<lparr>f_lsb = 4, f_width = 4\<rparr>"

definition MISC_CPUID :: FieldSpec where "MISC_CPUID = \<lparr>f_lsb = 0, f_width = 2\<rparr>"

definition W1C_MASK :: u64 where
  "W1C_MASK = fmask MISC_NXM OR fmask MISC_IPINTR OR fmask MISC_ITINTR"

definition W1S_MASK :: u64 where
  "W1S_MASK = fmask MISC_ABT OR fmask MISC_ABW"

definition WO_MASK :: u64 where
  "WO_MASK = fmask MISC_DEVSUP OR fmask MISC_ACL OR fmask MISC_IPREQ"

section \<open>Memory arrays\<close>

definition computeAAR :: "u64 \<Rightarrow> u64 \<Rightarrow> bool \<Rightarrow> u64" where
  "computeAAR baseAddr sizeBytes isTyphoon =
    (if sizeBytes = 0 then 0
     else
       let addr = drop_bit 24 baseAddr AND 0x7FF;
           MB = 1024 * 1024; GB = 1024 * 1024 * 1024;
           asiz = (if 16 * MB \<le> sizeBytes \<and> sizeBytes < 32 * MB then 1
             else if 32 * MB \<le> sizeBytes \<and> sizeBytes < 64 * MB then 2
             else if 64 * MB \<le> sizeBytes \<and> sizeBytes < 128 * MB then 3
             else if 128 * MB \<le> sizeBytes \<and> sizeBytes < 256 * MB then 4
             else if 256 * MB \<le> sizeBytes \<and> sizeBytes < 512 * MB then 5
             else if 512 * MB \<le> sizeBytes \<and> sizeBytes < 1 * GB then 6
             else if 1 * GB \<le> sizeBytes \<and> sizeBytes < 2 * GB then 7
             else if isTyphoon \<and> 2 * GB \<le> sizeBytes \<and> sizeBytes < 4 * GB then 8
             else if isTyphoon \<and> 4 * GB \<le> sizeBytes \<and> sizeBytes < 8 * GB then 9
             else if isTyphoon \<and> 8 * GB \<le> sizeBytes then 0xA
             else 7) :: u8;
           rows = 2; bnks = 1
       in push_bit 24 addr OR push_bit 12 (ucast asiz) OR push_bit 2 rows OR bnks)"

definition decodeAAR :: "u64 \<Rightarrow> u64 \<times> u64" where
  "decodeAAR reg =
    (let base = push_bit 24 (drop_bit 24 reg AND 0x7FF);
         asiz = ucast (drop_bit 12 reg AND 0xF) :: u8;
         sz = (if asiz = 0 then 0 else push_bit (unat asiz - 1) (16 * 1024 * 1024))
     in (base, sz))"

definition isDramAddress :: "Cchip \<Rightarrow> u64 \<Rightarrow> bool" where
  "isDramAddress c pa = list_ex (\<lambda>aar. aar_enabled aar \<and>
     (let (base, sz) = decodeAAR (aar_base aar) in sz \<noteq> 0 \<and> base \<le> pa \<and> pa < base + sz)) (m_aar c)"

text \<open>The loop of the reset that hands the memory out to the arrays.\<close>

fun fillArrays :: "bool \<Rightarrow> u64 \<Rightarrow> nat \<Rightarrow> u64 \<Rightarrow> u64 \<Rightarrow> AAR list" where
  "fillArrays isTyphoon maxPerArray 0 remaining base = []"
| "fillArrays isTyphoon maxPerArray (Suc n) remaining base =
    (if remaining = 0
     then \<lparr>aar_base = 0, aar_mask = 0, aar_enabled = False\<rparr>
            # fillArrays isTyphoon maxPerArray n remaining base
     else let thisArray = min remaining maxPerArray
          in \<lparr>aar_base = computeAAR base thisArray isTyphoon, aar_mask = thisArray - 1,
              aar_enabled = True\<rparr>
             # fillArrays isTyphoon maxPerArray n (remaining - thisArray) (base + thisArray))"

definition maxPerArray :: "ChipsetVariant \<Rightarrow> u64" where
  "maxPerArray v = (if v = Typhoon then 8 * 1024 * 1024 * 1024 else 1 * 1024 * 1024 * 1024)"

definition cchip_reset :: "Cchip \<Rightarrow> Cchip" where
  "cchip_reset c =
    (let isTyphoon = (m_variant c = Typhoon);
         csc = fold (\<lambda>i w. w OR push_bit i 1) [0..<nat (min (m_cpuCount c) 4)] 0;
         csc1 = csc OR (if isTyphoon then 3 else 1);
         csc2 = csc1 OR (push_bit 52 2 OR push_bit 48 1 OR push_bit 44 1 OR push_bit 40 1 OR
           push_bit 36 1 OR push_bit 31 1 OR push_bit 26 2 OR push_bit 20 3 OR push_bit 18 3 OR
           push_bit 16 3);
         crev = (case variantInfo (m_variant c) of Some i \<Rightarrow> ucast (info_crev i) | None \<Rightarrow> 1)
     in c\<lparr>m_aar := fillArrays isTyphoon (maxPerArray (m_variant c)) 4 (m_memSizeBytes c) 0,
          m_csc := csc2, m_misc := push_bit 32 crev, m_ttr := 0, m_tdr := 0, m_mtr := 0,
          m_mpd := 0xFF, m_drir := 0, m_dim := replicate 4 0, m_iic := replicate 4 0,
          m_pendingIrq2 := replicate 4 False, m_pendingIrq3 := replicate 4 False,
          m_mpr := replicate 4 0, m_prben := 0xFFFFFFFFFFFFFFFF\<rparr>)"

definition newCchip :: "ChipsetVariant \<Rightarrow> int \<Rightarrow> u64 \<Rightarrow> Cchip" where
  "newCchip v cpus mem = cchip_reset \<lparr>m_variant = v, m_cpuCount = cpus, m_memSizeBytes = mem,
     m_csc = 0, m_mtr = 0, m_mpd = 0, m_prben = 0, m_mpr = [], m_ttr = 0, m_tdr = 0, m_misc = 0,
     m_drir = 0, m_aar = [], m_pendingIrq2 = [], m_pendingIrq3 = [], m_dim = [], m_iic = []\<rparr>"

section \<open>Interrupt state\<close>

definition assertInterrupt :: "nat \<Rightarrow> Cchip \<Rightarrow> Cchip" where
  "assertInterrupt b c = c\<lparr>m_drir := m_drir c OR push_bit b 1\<rparr>"

definition deassertInterrupt :: "nat \<Rightarrow> Cchip \<Rightarrow> Cchip" where
  "deassertInterrupt b c = c\<lparr>m_drir := m_drir c AND NOT (push_bit b 1)\<rparr>"

definition readDIR :: "Cchip \<Rightarrow> nat \<Rightarrow> u64" where
  "readDIR c cpuId = m_drir c AND m_dim c ! cpuId"

definition readIIC :: "Cchip \<Rightarrow> nat \<Rightarrow> u64" where
  "readIIC c cpuId = m_iic c ! cpuId"

definition sendIPI :: "nat \<Rightarrow> u64 \<Rightarrow> Cchip \<Rightarrow> Cchip" where
  "sendIPI target v c = c\<lparr>m_iic := (m_iic c)[target := v]\<rparr>"

definition pendingIrq2 :: "Cchip \<Rightarrow> nat \<Rightarrow> bool" where
  "pendingIrq2 c cpuId = m_pendingIrq2 c ! cpuId"

definition clearPendingIrq2 :: "nat \<Rightarrow> Cchip \<Rightarrow> Cchip" where
  "clearPendingIrq2 cpuId c = c\<lparr>m_pendingIrq2 := (m_pendingIrq2 c)[cpuId := False]\<rparr>"

definition pendingIrq3 :: "Cchip \<Rightarrow> nat \<Rightarrow> bool" where
  "pendingIrq3 c cpuId = m_pendingIrq3 c ! cpuId"

definition clearPendingIrq3 :: "nat \<Rightarrow> Cchip \<Rightarrow> Cchip" where
  "clearPendingIrq3 cpuId c = c\<lparr>m_pendingIrq3 := (m_pendingIrq3 c)[cpuId := False]\<rparr>"

definition pendingIrq0 :: "Cchip \<Rightarrow> nat \<Rightarrow> bool" where
  "pendingIrq0 c cpuId \<longleftrightarrow> (m_drir c AND m_dim c ! (cpuId mod 4)) AND 0xFC00000000000000 \<noteq> 0"

definition pendingIrq1 :: "Cchip \<Rightarrow> nat \<Rightarrow> bool" where
  "pendingIrq1 c cpuId \<longleftrightarrow> (m_drir c AND m_dim c ! (cpuId mod 4)) AND 0x00FFFFFFFFFFFFFF \<noteq> 0"

definition miscNxmLatched :: "Cchip \<Rightarrow> bool" where
  "miscNxmLatched c \<longleftrightarrow> m_misc c AND fmask MISC_NXM \<noteq> 0"

definition fireIntervalTimer :: "Cchip \<Rightarrow> Cchip" where
  "fireIntervalTimer c = fold (\<lambda>n c. c\<lparr>m_misc := m_misc c OR push_bit (f_lsb MISC_ITINTR + n) 1,
       m_pendingIrq2 := (m_pendingIrq2 c)[n := True]\<rparr>) [0..<nat (min (m_cpuCount c) 4)] c"

definition latchNxm :: "u64 \<Rightarrow> Cchip \<Rightarrow> Cchip" where
  "latchNxm srcCode c =
    (let old = m_misc c;
         next0 = old OR fmask MISC_NXM;
         next1 = (if old AND fmask MISC_NXM = 0 then deposit next0 MISC_NXS (srcCode AND 7) else next0)
     in c\<lparr>m_misc := next1, m_drir := m_drir c OR push_bit 63 1\<rparr>)"

section \<open>Writing MISC\<close>

text \<open>The value the compare-and-swap loop installs.\<close>

definition miscNext :: "u64 \<Rightarrow> u64 \<Rightarrow> u64" where
  "miscNext old writeVal =
    (let clearBits = writeVal AND W1C_MASK;
         setBits = writeVal AND W1S_MASK;
         staged = (old AND NOT clearBits) OR setBits;
         abtMask = fmask MISC_ABT; abwMask = fmask MISC_ABW;
         oldAbt = old AND abtMask;
         stagedAbt = staged AND abtMask;
         newlyTried = stagedAbt AND NOT oldAbt;
         staged1 = (if newlyTried \<noteq> 0 \<and> oldAbt = 0
                    then staged OR (drop_bit 4 newlyTried AND abwMask) else staged);
         staged2 = (if writeVal AND fmask MISC_ACL \<noteq> 0
                    then staged1 AND NOT (abtMask OR abwMask) else staged1);
         ipreqSet = writeVal AND fmask MISC_IPREQ;
         staged3 = (if ipreqSet \<noteq> 0 then staged2 OR (drop_bit 4 ipreqSet AND fmask MISC_IPINTR)
                    else staged2)
     in (staged3 AND NOT WO_MASK) OR (old AND WO_MASK))"

definition miscWriteW1C :: "u64 \<Rightarrow> Cchip \<Rightarrow> Cchip" where
  "miscWriteW1C writeVal c =
    (let c1 = c\<lparr>m_misc := miscNext (m_misc c) writeVal\<rparr>;
         itintrClears = writeVal AND fmask MISC_ITINTR;
         c2 = (if itintrClears \<noteq> 0
               then fold (\<lambda>n c. if itintrClears AND push_bit (f_lsb MISC_ITINTR + n) 1 \<noteq> 0
                                then clearPendingIrq2 n c else c) [0..<4] c1
               else c1);
         c3 = (if writeVal AND fmask MISC_NXM \<noteq> 0 then c2\<lparr>m_drir := m_drir c2 AND NOT (push_bit 63 1)\<rparr> else c2);
         ipreqFire = writeVal AND fmask MISC_IPREQ;
         c4 = (if ipreqFire \<noteq> 0
               then fold (\<lambda>n c. if ipreqFire AND push_bit (f_lsb MISC_IPREQ + n) 1 \<noteq> 0
                                then c\<lparr>m_pendingIrq3 := (m_pendingIrq3 c)[n := True]\<rparr> else c)
                      [0..<nat (min (m_cpuCount c) 4)] c3
               else c3);
         ipintrClears = writeVal AND fmask MISC_IPINTR
     in if ipintrClears \<noteq> 0
        then fold (\<lambda>n c. if ipintrClears AND push_bit (f_lsb MISC_IPINTR + n) 1 \<noteq> 0
                         then clearPendingIrq3 n c else c) [0..<4] c4
        else c4)"

section \<open>Register interface\<close>

datatype CchipReg = R_CSC | R_MTR | R_MISC | R_MPD | R_AAR nat | R_DIM nat | R_DIR nat | R_DRIR
  | R_PRBEN | R_IIC nat | R_MPR nat | R_TTR | R_TDR

definition cchipRegs :: "(u64 \<times> CchipReg) list" where
  "cchipRegs = [(0x000, R_CSC), (0x040, R_MTR), (0x080, R_MISC), (0x0C0, R_MPD),
     (0x100, R_AAR 0), (0x140, R_AAR 1), (0x180, R_AAR 2), (0x1C0, R_AAR 3),
     (0x200, R_DIM 0), (0x240, R_DIM 1), (0x280, R_DIR 0), (0x2C0, R_DIR 1),
     (0x300, R_DRIR), (0x340, R_PRBEN), (0x380, R_IIC 0), (0x3C0, R_IIC 1),
     (0x400, R_MPR 0), (0x440, R_MPR 1), (0x480, R_MPR 2), (0x4C0, R_MPR 3),
     (0x580, R_TTR), (0x5C0, R_TDR),
     (0x600, R_DIM 2), (0x640, R_DIM 3), (0x680, R_DIR 2), (0x6C0, R_DIR 3),
     (0x700, R_IIC 2), (0x740, R_IIC 3)]"

definition readMisc :: "Cchip \<Rightarrow> int \<Rightarrow> u64" where
  "readMisc c cpuId =
    (let cpuMsk = fmask MISC_CPUID;
         cpuField = (if 0 \<le> cpuId then push_bit (f_lsb MISC_CPUID) (of_int cpuId) AND cpuMsk else 0)
     in (m_misc c AND NOT cpuMsk) OR cpuField)"

definition cchip_read :: "Cchip \<Rightarrow> u64 \<Rightarrow> int \<Rightarrow> u64" where
  "cchip_read c off cpuId =
    (case map_of cchipRegs off of
       None \<Rightarrow> 0
     | Some R_CSC \<Rightarrow> m_csc c
     | Some R_MTR \<Rightarrow> m_mtr c
     | Some R_MISC \<Rightarrow> readMisc c cpuId
     | Some R_MPD \<Rightarrow> m_mpd c
     | Some (R_AAR i) \<Rightarrow> aar_base (m_aar c ! i)
     | Some (R_DIM i) \<Rightarrow> m_dim c ! i
     | Some (R_DIR i) \<Rightarrow> readDIR c i
     | Some R_DRIR \<Rightarrow> m_drir c
     | Some R_PRBEN \<Rightarrow> m_prben c
     | Some (R_IIC i) \<Rightarrow> m_iic c ! i
     | Some (R_MPR i) \<Rightarrow> m_mpr c ! i
     | Some R_TTR \<Rightarrow> m_ttr c
     | Some R_TDR \<Rightarrow> m_tdr c)"

definition cchip_write :: "u64 \<Rightarrow> u64 \<Rightarrow> Cchip \<Rightarrow> Cchip" where
  "cchip_write off v c =
    (case map_of cchipRegs off of
       None \<Rightarrow> c
     | Some R_CSC \<Rightarrow> c
     | Some R_MTR \<Rightarrow> c
     | Some R_MISC \<Rightarrow> miscWriteW1C v c
     | Some R_MPD \<Rightarrow> c
     | Some (R_AAR i) \<Rightarrow>
         c\<lparr>m_aar := (m_aar c)[i := (m_aar c ! i)\<lparr>aar_base := v, aar_enabled := (v \<noteq> 0)\<rparr>]\<rparr>
     | Some (R_DIM i) \<Rightarrow> c\<lparr>m_dim := (m_dim c)[i := v]\<rparr>
     | Some (R_DIR i) \<Rightarrow> c
     | Some R_DRIR \<Rightarrow> c
     | Some R_PRBEN \<Rightarrow> c\<lparr>m_prben := v\<rparr>
     | Some (R_IIC i) \<Rightarrow> sendIPI i v c
     | Some (R_MPR i) \<Rightarrow> c
     | Some R_TTR \<Rightarrow> c\<lparr>m_ttr := v\<rparr>
     | Some R_TDR \<Rightarrow> c\<lparr>m_tdr := v\<rparr>)"

section \<open>Snapshots\<close>

definition aar_serialize :: "AAR \<Rightarrow> u8 list" where
  "aar_serialize a = put_u64 (aar_base a) @ put_u64 (aar_mask a) @ [if aar_enabled a then 1 else 0]"

definition aar_deserialize :: "u8 list \<Rightarrow> AAR \<times> u8 list" where
  "aar_deserialize ds = (let (b, ds) = get_u64 ds; (m, ds) = get_u64 ds; (e, ds) = get_u8 ds
     in (\<lparr>aar_base = b, aar_mask = m, aar_enabled = (e \<noteq> 0)\<rparr>, ds))"

definition cchip_serialize :: "Cchip \<Rightarrow> u8 list" where
  "cchip_serialize c = put_u64 (m_csc c) @ put_u64 (m_mtr c) @ put_u64 (m_misc c) @ put_u64 (m_mpd c) @
     put_u64 (m_prben c) @ put_u64 (m_ttr c) @ put_u64 (m_tdr c) @
     concat (map aar_serialize (m_aar c)) @ concat (map put_u64 (m_mpr c)) @ put_u64 (m_drir c) @
     concat (map put_u64 (m_dim c)) @ concat (map put_u64 (m_iic c))"

definition cchip_deserialize :: "Cchip \<Rightarrow> u8 list \<Rightarrow> Cchip \<times> u8 list" where
  "cchip_deserialize c ds =
    (let (csc, ds) = get_u64 ds; (mtr, ds) = get_u64 ds; (misc, ds) = get_u64 ds; (mpd, ds) = get_u64 ds;
         (prben, ds) = get_u64 ds; (ttr, ds) = get_u64 ds; (tdr, ds) = get_u64 ds;
         (aar, ds) = get_many aar_deserialize 4 ds; (mpr, ds) = get_many get_u64 4 ds;
         (drir, ds) = get_u64 ds; (dim, ds) = get_many get_u64 4 ds; (iic, ds) = get_many get_u64 4 ds
     in (c\<lparr>m_csc := csc, m_mtr := mtr, m_misc := misc, m_mpd := mpd, m_prben := prben, m_ttr := ttr,
           m_tdr := tdr, m_aar := aar, m_mpr := mpr, m_drir := drir, m_dim := dim, m_iic := iic\<rparr>, ds))"

section \<open>The interval timer\<close>

text \<open>
  The tick interval is rounded to a power of two. The loop doubles a 64-bit value that becomes zero
  after 64 rounds and then never reaches its goal; the fuel covers the 64 rounds.
\<close>

fun log2Loop :: "nat \<Rightarrow> u64 \<Rightarrow> nat \<Rightarrow> u64 \<Rightarrow> (nat \<times> u64) option" where
  "log2Loop fuel n b v =
    (if \<not> v < n then Some (b, v)
     else case fuel of 0 \<Rightarrow> None | Suc k \<Rightarrow> log2Loop k n (b + 1) (push_bit 1 v))"

definition roundLog2Nearest :: "u64 \<Rightarrow> nat option" where
  "roundLog2Nearest n = map_option
     (\<lambda>(b, v). if 0 < b \<and> n - drop_bit 1 v < v - n then b - 1 else b) (log2Loop 64 n 0 1)"

definition kCchipIntervalTimerCycles :: u64 where
  "kCchipIntervalTimerCycles = 268435456 div 1024"

definition kCchipTimerBit :: nat where
  "kCchipTimerBit = the (roundLog2Nearest kCchipIntervalTimerCycles)"

definition kCchipTimerMask :: u64 where
  "kCchipTimerMask = push_bit kCchipTimerBit 1 - 1"

definition intervalTimerShouldFire :: "u64 \<Rightarrow> bool" where
  "intervalTimerShouldFire cycleCount \<longleftrightarrow> cycleCount \<noteq> 0 \<and> cycleCount AND kCchipTimerMask = 0"

declare log2Loop.simps [simp del]

section \<open>Field masks\<close>

lemma bit_widthMask: "bit (widthMask f) n \<longleftrightarrow> n < f_width f \<and> n < 64"
proof (cases "64 \<le> f_width f")
  case True
  then show ?thesis by (auto simp: widthMask_def bit_simps)
next
  case False
  then have "widthMask f = mask (f_width f)" by (simp add: widthMask_def mask_eq_exp_minus_1)
  then show ?thesis by (auto simp: bit_mask_iff)
qed

lemma bit_fmask: "bit (fmask f) n \<longleftrightarrow> f_lsb f \<le> n \<and> n < f_lsb f + f_width f \<and> n < 64"
  by (auto simp: fmask_def bit_push_bit_iff bit_widthMask)

lemmas misc_fields = MISC_DEVSUP_def MISC_NXS_def MISC_NXM_def MISC_ACL_def MISC_ABT_def MISC_ABW_def
  MISC_IPREQ_def MISC_IPINTR_def MISC_ITINTR_def MISC_CPUID_def

lemma bit_misc_masks:
  "bit (fmask MISC_NXM) n \<longleftrightarrow> n = 28" "bit (fmask MISC_ACL) n \<longleftrightarrow> n = 24"
  "bit (fmask MISC_ABT) n \<longleftrightarrow> 20 \<le> n \<and> n < 24" "bit (fmask MISC_ABW) n \<longleftrightarrow> 16 \<le> n \<and> n < 20"
  "bit (fmask MISC_IPREQ) n \<longleftrightarrow> 12 \<le> n \<and> n < 16" "bit (fmask MISC_IPINTR) n \<longleftrightarrow> 8 \<le> n \<and> n < 12"
  "bit (fmask MISC_ITINTR) n \<longleftrightarrow> 4 \<le> n \<and> n < 8" "bit (fmask MISC_DEVSUP) n \<longleftrightarrow> 40 \<le> n \<and> n < 44"
  "bit (fmask MISC_NXS) n \<longleftrightarrow> 29 \<le> n \<and> n < 32" "bit (fmask MISC_CPUID) n \<longleftrightarrow> n < 2"
  by (auto simp: bit_fmask misc_fields)

lemma and_mask_zero_iff: "(v :: u64) AND m = 0 \<longleftrightarrow> (\<forall>n. bit m n \<longrightarrow> \<not> bit v n)"
proof
  assume "v AND m = 0"
  then have "\<not> bit (v AND m) n" for n by simp
  then show "\<forall>n. bit m n \<longrightarrow> \<not> bit v n" by (auto simp: bit_and_iff)
next
  assume "\<forall>n. bit m n \<longrightarrow> \<not> bit v n"
  then show "v AND m = 0" by (intro bit_word_eqI) (auto simp: bit_simps)
qed

text \<open>
  What one write does to each bit: the arbitration bits obey the clear bit, the first arbitration
  try since the last clear is promoted to a win, pending bits are cleared by writing one, except that
  an interprocessor request sets its pending bit, and all other bits stay.
\<close>

definition miscBit :: "u64 \<Rightarrow> u64 \<Rightarrow> nat \<Rightarrow> bool" where
  "miscBit old w n \<longleftrightarrow>
    (if n \<in> {16..<24} then \<not> bit w 24 \<and>
        (bit old n \<or> bit w n \<or> (n < 20 \<and> old AND fmask MISC_ABT = 0 \<and> bit w (n + 4)))
     else if n = 28 \<or> n \<in> {4..<8} then bit old n \<and> \<not> bit w n
     else if n \<in> {8..<12} then bit old n \<and> \<not> bit w n \<or> bit w (n + 4)
     else bit old n)"

lemma bit_staged:
  "bit ((old AND NOT (w AND W1C_MASK)) OR (w AND W1S_MASK)) n \<longleftrightarrow>
     (if n \<in> {16..<24} then bit old n \<or> bit w n
      else if n = 28 \<or> n \<in> {4..<12} then bit old n \<and> \<not> bit w n else bit old n)"
  by (auto simp: W1C_MASK_def W1S_MASK_def bit_simps bit_misc_masks bit_u64_out dest: bit_imp_le_length)

lemma bit_or_unless_zero:
  "bit (if x \<noteq> 0 \<and> P then s OR (drop_bit 4 x AND m) else s) n \<longleftrightarrow>
     bit s n \<or> P \<and> bit x (4 + n) \<and> bit (m :: u64) n"
  by (auto simp: bit_or_iff bit_and_iff bit_drop_bit_eq)

lemma bit_miscNext: "bit (miscNext old w) n \<longleftrightarrow> miscBit old w n"
proof -
  define s where "s = (old AND NOT (w AND W1C_MASK)) OR (w AND W1S_MASK)"
  note bs = bit_staged [of old w, folded s_def]
  define nt where "nt = (s AND fmask MISC_ABT) AND NOT (old AND fmask MISC_ABT)"
  define s1 where "s1 = (if nt \<noteq> 0 \<and> old AND fmask MISC_ABT = 0
      then s OR (drop_bit 4 nt AND fmask MISC_ABW) else s)"
  define s2 where "s2 = (if w AND fmask MISC_ACL \<noteq> 0 then s1 AND NOT (fmask MISC_ABT OR fmask MISC_ABW) else s1)"
  define s3 where "s3 = (if w AND fmask MISC_IPREQ \<noteq> 0
      then s2 OR (drop_bit 4 (w AND fmask MISC_IPREQ) AND fmask MISC_IPINTR) else s2)"
  have bn: "bit nt n \<longleftrightarrow> 20 \<le> n \<and> n < 24 \<and> bit w n \<and> \<not> bit old n" for n
    by (auto simp: nt_def bit_and_iff bit_or_iff bit_not_iff bit_misc_masks bs dest: bit_imp_le_length)
  have zero: "old AND fmask MISC_ABT = 0 \<Longrightarrow> 20 \<le> n \<Longrightarrow> n < 24 \<Longrightarrow> \<not> bit old n" for n
    by (simp add: and_mask_zero_iff bit_misc_masks)
  have b1: "bit s1 n \<longleftrightarrow> bit s n \<or> (16 \<le> n \<and> n < 20 \<and> old AND fmask MISC_ABT = 0 \<and> bit w (n + 4))" for n
    unfolding s1_def bit_or_unless_zero bn using zero [of "n + 4"] by (auto simp: bit_misc_masks add.commute)
  have "w AND fmask MISC_ACL \<noteq> 0 \<longleftrightarrow> bit w 24" by (auto simp: and_mask_zero_iff bit_misc_masks)
  then have b2: "bit s2 n \<longleftrightarrow> bit s1 n \<and> \<not> (bit w 24 \<and> 16 \<le> n \<and> n < 24)" for n
    unfolding s2_def by (auto simp: bit_or_iff bit_and_iff bit_not_iff bit_misc_masks dest: bit_imp_le_length)
  have b3: "bit s3 n \<longleftrightarrow> bit s2 n \<or> (8 \<le> n \<and> n < 12 \<and> bit w (n + 4))" for n
    using bit_or_unless_zero [of "w AND fmask MISC_IPREQ" True s2 "fmask MISC_IPINTR" n]
    by (auto simp: s3_def bit_and_iff bit_misc_masks add.commute)
  have wo: "bit WO_MASK n \<longleftrightarrow> n \<in> {40..<44} \<or> n = 24 \<or> n \<in> {12..<16}" for n
    by (auto simp: WO_MASK_def bit_or_iff bit_misc_masks)
  have "miscNext old w = (s3 AND NOT WO_MASK) OR (old AND WO_MASK)"
    unfolding miscNext_def Let_def s_def [symmetric] nt_def [symmetric] s1_def [symmetric]
      s2_def [symmetric] s3_def [symmetric] ..
  then have "bit (miscNext old w) n \<longleftrightarrow> (if bit WO_MASK n then bit old n else bit s3 n)"
    by (auto simp: bit_or_iff bit_and_iff bit_not_iff dest: bit_imp_le_length)
  also have "\<dots> \<longleftrightarrow> miscBit old w n"
    by (auto simp: wo b1 b2 b3 bs miscBit_def)
  finally show ?thesis .
qed

section \<open>The pending latches\<close>

lemma fold_record_lists:
  "fold (\<lambda>n c. if P n then c\<lparr>m_pendingIrq3 := (m_pendingIrq3 c)[n := b]\<rparr> else c) ns c =
     c\<lparr>m_pendingIrq3 := fold (\<lambda>n xs. if P n then xs[n := b] else xs) ns (m_pendingIrq3 c)\<rparr>"
  "fold (\<lambda>n c. if P n then c\<lparr>m_pendingIrq2 := (m_pendingIrq2 c)[n := b]\<rparr> else c) ns c =
     c\<lparr>m_pendingIrq2 := fold (\<lambda>n xs. if P n then xs[n := b] else xs) ns (m_pendingIrq2 c)\<rparr>"
  by (induction ns arbitrary: c) simp_all

lemma length_fold_update [simp]:
  "length (fold (\<lambda>n xs. if P n then xs[n := b] else xs) ns xs) = length xs"
  by (induction ns arbitrary: xs) simp_all

lemma nth_fold_update:
  "k < length xs \<Longrightarrow> fold (\<lambda>n xs. if P n then xs[n := b] else xs) ns xs ! k =
     (if k \<in> set ns \<and> P k then b else xs ! k)"
proof (induction ns arbitrary: xs)
  case (Cons n ns)
  then show ?case by (cases "n = k") auto
qed simp

lemma fireIntervalTimer_eq:
  "fireIntervalTimer c = c\<lparr>m_misc := m_misc c OR push_bit 4 (mask (nat (min (m_cpuCount c) 4))),
     m_pendingIrq2 := fold (\<lambda>n xs. if True then xs[n := True] else xs) [0..<nat (min (m_cpuCount c) 4)]
       (m_pendingIrq2 c)\<rparr>"
proof -
  have "fold (\<lambda>n c. c\<lparr>m_misc := m_misc c OR push_bit (f_lsb MISC_ITINTR + n) 1,
       m_pendingIrq2 := (m_pendingIrq2 c)[n := True]\<rparr>) [0..<k] c
    = c\<lparr>m_misc := m_misc c OR push_bit 4 (mask k),
        m_pendingIrq2 := fold (\<lambda>n xs. if True then xs[n := True] else xs) [0..<k] (m_pendingIrq2 c)\<rparr>" for k
  proof (induction k)
    case (Suc k)
    have "push_bit 4 (mask (Suc k)) = push_bit 4 (mask k) OR (push_bit (4 + k) 1 :: u64)"
      by (rule bit_word_eqI) (auto simp: bit_simps)
    then show ?case using Suc by (simp add: misc_fields or.assoc)
  qed simp
  then show ?thesis by (simp add: fireIntervalTimer_def)
qed

text \<open>
  A write of MISC, as the effect on each field and each latch.
\<close>

lemma test_bit_mask: "(w AND fmask f) AND push_bit k 1 \<noteq> 0 \<longleftrightarrow> bit w k \<and> bit (fmask f) k"
  by (simp add: push_bit_of_1 bit_and_iff)

lemma skip_fold_unless: "\<not> (\<exists>n \<in> set ns. P n) \<Longrightarrow> fold (\<lambda>n c. if P n then f n c else c) ns c = c"
  by (induction ns) auto

lemma miscWriteW1C_eq:
  "miscWriteW1C w c = c\<lparr>m_misc := miscNext (m_misc c) w,
     m_drir := (if bit w 28 then m_drir c AND NOT (push_bit 63 1) else m_drir c),
     m_pendingIrq2 := fold (\<lambda>n xs. if bit w (4 + n) then xs[n := False] else xs) [0..<4] (m_pendingIrq2 c),
     m_pendingIrq3 := fold (\<lambda>n xs. if bit w (8 + n) then xs[n := False] else xs) [0..<4]
       (fold (\<lambda>n xs. if bit w (12 + n) then xs[n := True] else xs) [0..<nat (min (m_cpuCount c) 4)]
         (m_pendingIrq3 c))\<rparr>"
proof -
  have guard: "(if w AND fmask f \<noteq> 0
      then fold (\<lambda>n c. if (w AND fmask f) AND push_bit (f_lsb f + n) 1 \<noteq> 0 then g n c else c) ns d else d)
    = fold (\<lambda>n c. if bit w (f_lsb f + n) then g n c else c) ns d"
    if "f_width f = 4" "f_lsb f + 4 \<le> 64" "set ns \<subseteq> {..<4}" for f g ns and d :: Cchip
  proof -
    have on: "bit (fmask f) (f_lsb f + n)" if "n \<in> set ns" for n
      using that \<open>set ns \<subseteq> {..<4}\<close> \<open>f_width f = 4\<close> \<open>f_lsb f + 4 \<le> 64\<close> by (auto simp: bit_fmask)
    then have "fold (\<lambda>n c. if (w AND fmask f) AND push_bit (f_lsb f + n) 1 \<noteq> 0 then g n c else c) ns d
        = fold (\<lambda>n c. if bit w (f_lsb f + n) then g n c else c) ns d"
      by (intro fold_cong) (auto simp: test_bit_mask fun_eq_iff bit_and_iff)
    moreover have "fold (\<lambda>n c. if bit w (f_lsb f + n) then g n c else c) ns d = d" if "w AND fmask f = 0"
      using that on by (intro skip_fold_unless) (auto simp: and_mask_zero_iff)
    ultimately show ?thesis by simp
  qed
  have nxm: "w AND fmask MISC_NXM \<noteq> 0 \<longleftrightarrow> bit w 28" by (auto simp: and_mask_zero_iff bit_misc_masks)
  have sub: "set [0..<nat (min (m_cpuCount c) 4)] \<subseteq> {..<4}" "set [0..<4] \<subseteq> {..<4::nat}" by auto
  note g2 = guard [of MISC_ITINTR, OF _ _ sub(2), where g = clearPendingIrq2]
    and g3 = guard [of MISC_IPINTR, OF _ _ sub(2), where g = clearPendingIrq3]
    and gq = guard [of MISC_IPREQ, OF _ _ sub(1), where g = "\<lambda>n c. c\<lparr>m_pendingIrq3 := (m_pendingIrq3 c)[n := True]\<rparr>"]
  have lsb: "f_lsb MISC_ITINTR = 4" "f_lsb MISC_IPINTR = 8" "f_lsb MISC_IPREQ = 12"
    "f_width MISC_ITINTR = 4" "f_width MISC_IPINTR = 4" "f_width MISC_IPREQ = 4"
    by (simp_all add: misc_fields)
  note g = g2 [unfolded lsb, simplified] g3 [unfolded lsb, simplified] gq [unfolded lsb, simplified]
  show ?thesis
    unfolding miscWriteW1C_def Let_def nxm lsb
    by (simp only: g, unfold clearPendingIrq2_def clearPendingIrq3_def) (simp add: fold_record_lists)
qed

lemma miscWriteW1C_latches:
  assumes "length (m_pendingIrq2 c) = 4" "length (m_pendingIrq3 c) = 4" "k < 4"
  shows "pendingIrq2 (miscWriteW1C w c) k \<longleftrightarrow> pendingIrq2 c k \<and> \<not> bit w (4 + k)"
    and "pendingIrq3 (miscWriteW1C w c) k \<longleftrightarrow>
      \<not> bit w (8 + k) \<and> (pendingIrq3 c k \<or> int k < m_cpuCount c \<and> bit w (12 + k))"
  using assms by (auto simp: miscWriteW1C_eq pendingIrq2_def pendingIrq3_def nth_fold_update)

section \<open>The state a Cchip can reach\<close>

text \<open>
  The operations the rest of the machine performs: register writes by the processors, device lines
  (all of them below DRIR bit 58), the interval timer, a report of an access to non-existent memory,
  the latches the interrupt delivery takes, and reset.
\<close>

inductive cchip_step :: "Cchip \<Rightarrow> Cchip \<Rightarrow> bool" where
  step_write: "cchip_step c (cchip_write off v c)"
| step_assert: "b < 58 \<Longrightarrow> cchip_step c (assertInterrupt b c)"
| step_deassert: "b < 58 \<Longrightarrow> cchip_step c (deassertInterrupt b c)"
| step_timer: "cchip_step c (fireIntervalTimer c)"
| step_nxm: "cchip_step c (latchNxm s c)"
| step_clear2: "n < 4 \<Longrightarrow> cchip_step c (clearPendingIrq2 n c)"
| step_clear3: "n < 4 \<Longrightarrow> cchip_step c (clearPendingIrq3 n c)"
| step_reset: "cchip_step c (cchip_reset c)"

inductive cchip_reachable :: "Cchip \<Rightarrow> bool" where
  init: "cchip_reachable (newCchip v cpus mem)"
| step: "cchip_reachable c \<Longrightarrow> cchip_step c c' \<Longrightarrow> cchip_reachable c'"

definition cchip_inv :: "Cchip \<Rightarrow> bool" where
  "cchip_inv c \<longleftrightarrow> length (m_pendingIrq2 c) = 4 \<and> length (m_pendingIrq3 c) = 4 \<and>
     length (m_aar c) = 4 \<and> length (m_mpr c) = 4 \<and> length (m_dim c) = 4 \<and> length (m_iic c) = 4 \<and>
     m_misc c AND WO_MASK = 0 \<and> (bit (m_misc c) 28 \<longleftrightarrow> bit (m_drir c) 63) \<and>
     (\<forall>n < 4. pendingIrq2 c n \<longrightarrow> bit (m_misc c) (4 + n)) \<and>
     (\<forall>n < 4. pendingIrq3 c n \<longrightarrow> bit (m_misc c) (8 + n))"

lemma bit_WO_MASK: "bit WO_MASK n \<longleftrightarrow> n \<in> {40..<44} \<or> n = 24 \<or> n \<in> {12..<16}"
  by (auto simp: WO_MASK_def bit_or_iff bit_misc_masks)

lemma wo_zero_iff: "m AND WO_MASK = 0 \<longleftrightarrow> (\<forall>n. bit WO_MASK n \<longrightarrow> \<not> bit m n)"
  by (rule and_mask_zero_iff)

lemma length_fillArrays [simp]: "length (fillArrays t mx n r b) = n"
  by (induction n arbitrary: r b) (simp_all add: Let_def)

lemma inv_reset: "cchip_inv (cchip_reset c)"
proof -
  define crev where "crev = (case variantInfo (m_variant c) of Some i \<Rightarrow> ucast (info_crev i) | None \<Rightarrow> (1 :: u64))"
  have "crev \<in> {1, 8, 0xA}" by (cases "m_variant c") (auto simp: crev_def)
  then have "push_bit 32 crev AND WO_MASK = 0 \<and> \<not> bit (push_bit 32 crev) 28"
    by (auto simp: WO_MASK_def fmask_def widthMask_def misc_fields bit_simps)
  then show ?thesis
    by (simp add: cchip_reset_def Let_def cchip_inv_def pendingIrq2_def pendingIrq3_def flip: crev_def)
qed

lemma inv_miscWrite: "cchip_inv c \<Longrightarrow> cchip_inv (miscWriteW1C w c)"
proof -
  assume i: "cchip_inv c"
  have "pendingIrq2 (miscWriteW1C w c) n \<longrightarrow> bit (m_misc (miscWriteW1C w c)) (4 + n)"
    "pendingIrq3 (miscWriteW1C w c) n \<longrightarrow> bit (m_misc (miscWriteW1C w c)) (8 + n)" if "n < 4" for n
    using that i miscWriteW1C_latches [of c n w]
    by (auto simp: cchip_inv_def miscWriteW1C_eq bit_miscNext miscBit_def add.commute)
  moreover have "m_misc (miscWriteW1C w c) AND WO_MASK = 0"
    using i by (auto simp: wo_zero_iff cchip_inv_def miscWriteW1C_eq bit_miscNext miscBit_def bit_WO_MASK)
  moreover have "bit (m_misc (miscWriteW1C w c)) 28 \<longleftrightarrow> bit (m_drir (miscWriteW1C w c)) 63"
    using i by (auto simp: cchip_inv_def miscWriteW1C_eq bit_miscNext miscBit_def bit_simps)
  ultimately show ?thesis using i by (simp add: cchip_inv_def miscWriteW1C_eq)
qed

lemma inv_write: "cchip_inv c \<Longrightarrow> cchip_inv (cchip_write off v c)"
  using inv_miscWrite [of c v]
  by (auto simp: cchip_write_def sendIPI_def cchip_inv_def pendingIrq2_def pendingIrq3_def
      split: option.splits CchipReg.splits)

lemma inv_lines: "b < 58 \<Longrightarrow> cchip_inv c \<Longrightarrow> cchip_inv (assertInterrupt b c)"
  "b < 58 \<Longrightarrow> cchip_inv c \<Longrightarrow> cchip_inv (deassertInterrupt b c)"
  by (auto simp: cchip_inv_def assertInterrupt_def deassertInterrupt_def pendingIrq2_def
      pendingIrq3_def bit_simps)

lemma update_False_nth: "xs[n := False] ! k \<Longrightarrow> k < length xs \<Longrightarrow> xs ! k"
  by (cases "n = k") auto

lemma inv_clear: "cchip_inv c \<Longrightarrow> cchip_inv (clearPendingIrq2 n c)"
  "cchip_inv c \<Longrightarrow> cchip_inv (clearPendingIrq3 n c)"
  by (auto simp: cchip_inv_def clearPendingIrq2_def clearPendingIrq3_def pendingIrq2_def
      pendingIrq3_def dest: update_False_nth)

lemma inv_updI:
  assumes "cchip_inv c" "\<And>n. bit WO_MASK n \<Longrightarrow> \<not> bit m n" "bit m 28 \<longleftrightarrow> bit d 63"
    and "length p = 4" "\<And>n. n < 4 \<Longrightarrow> p ! n \<Longrightarrow> bit m (4 + n)"
    and "\<And>n. n < 4 \<Longrightarrow> bit (m_misc c) (8 + n) \<Longrightarrow> bit m (8 + n)"
  shows "cchip_inv (c\<lparr>m_misc := m, m_drir := d, m_pendingIrq2 := p\<rparr>)"
  using assms by (simp add: cchip_inv_def wo_zero_iff pendingIrq2_def pendingIrq3_def)

lemma bit_latchNxm: "bit (m_misc (latchNxm s c)) n \<longleftrightarrow>
   n = 28 \<or> (if n \<in> {29..<32} \<and> \<not> bit (m_misc c) 28 then bit s (n - 29) else bit (m_misc c) n)"
proof -
  have "m_misc c AND fmask MISC_NXM = 0 \<longleftrightarrow> \<not> bit (m_misc c) 28"
    by (auto simp: and_mask_zero_iff bit_misc_masks)
  moreover have "bit (7 :: u64) k \<longleftrightarrow> k < 3" for k
    using bit_mask_iff [of 3 k, where ?'a = u64] by (auto simp: mask_numeral)
  moreover have "bit (deposit r MISC_NXS (s AND 7)) n \<longleftrightarrow> (if n \<in> {29..<32} then bit s (n - 29) else bit r n)"
    if "\<And>k. bit (7 :: u64) k \<longleftrightarrow> k < 3" for r
    unfolding deposit_def bit_or_iff bit_and_iff bit_not_iff bit_push_bit_iff bit_misc_masks
      bit_widthMask that
    by (cases "n < 64") (auto simp: MISC_NXS_def bit_u64_out)
  ultimately show ?thesis
    by (auto simp: latchNxm_def Let_def bit_or_iff bit_misc_masks)
qed

lemma inv_nxm: "cchip_inv c \<Longrightarrow> cchip_inv (latchNxm s c)"
proof -
  assume i: "cchip_inv c"
  have "cchip_inv (c\<lparr>m_misc := m_misc (latchNxm s c), m_drir := m_drir c OR push_bit 63 1,
      m_pendingIrq2 := m_pendingIrq2 c\<rparr>)"
    using i by (intro inv_updI) (auto simp: bit_latchNxm bit_WO_MASK bit_or_iff bit_push_bit_iff
        cchip_inv_def wo_zero_iff pendingIrq2_def)
  then show ?thesis by (simp add: latchNxm_def Let_def)
qed

lemma inv_timer: "cchip_inv c \<Longrightarrow> cchip_inv (fireIntervalTimer c)"
proof -
  assume i: "cchip_inv c"
  define k where "k = nat (min (m_cpuCount c) 4)"
  have k: "k \<le> 4" by (simp add: k_def)
  have "cchip_inv (c\<lparr>m_misc := m_misc c OR push_bit 4 (mask k), m_drir := m_drir c,
      m_pendingIrq2 := fold (\<lambda>n xs. if True then xs[n := True] else xs) [0..<k] (m_pendingIrq2 c)\<rparr>)"
  proof (rule inv_updI [OF i])
    show "\<not> bit (m_misc c OR push_bit 4 (mask k)) n" if "bit WO_MASK n" for n
      using i that k by (auto simp: bit_WO_MASK bit_or_iff bit_push_bit_iff bit_mask_iff cchip_inv_def
          wo_zero_iff)
    show "bit (m_misc c OR push_bit 4 (mask k)) (4 + n)"
      if "n < 4" "fold (\<lambda>n xs. if True then xs[n := True] else xs) [0..<k] (m_pendingIrq2 c) ! n" for n
      using i that by (auto simp: cchip_inv_def nth_fold_update [where P = "\<lambda>_. True", simplified]
          pendingIrq2_def bit_or_iff bit_push_bit_iff bit_mask_iff split: if_splits)
  qed (use i k in \<open>auto simp: cchip_inv_def bit_or_iff bit_push_bit_iff bit_mask_iff
      length_fold_update [where P = "\<lambda>_. True", simplified]\<close>)
  then show ?thesis by (simp add: fireIntervalTimer_eq k_def)
qed

lemma inv_reachable: "cchip_reachable c \<Longrightarrow> cchip_inv c"
proof (induction rule: cchip_reachable.induct)
  case (init v cpus mem)
  show ?case unfolding newCchip_def by (rule inv_reset)
next
  case (step c c')
  from step.hyps(2) step.IH show ?case
    by (cases rule: cchip_step.cases)
      (auto intro: inv_write inv_lines inv_clear inv_nxm inv_timer inv_reset)
qed

section \<open>Decoding DRAM addresses\<close>

lemma and_7FF: "(x :: u64) AND 0x7FF = take_bit 11 x"
  by (simp add: take_bit_eq_mask mask_numeral)

lemma and_F: "(x :: u64) AND 0xF = take_bit 4 x"
  by (simp add: take_bit_eq_mask mask_numeral)

lemma aar_layout:
  fixes addr asiz :: u64
  assumes "take_bit 11 addr = addr" "take_bit 4 asiz = asiz"
  shows "take_bit 11 (drop_bit 24 (push_bit 24 addr OR push_bit 12 asiz OR push_bit 2 2 OR 1)) = addr"
    and "take_bit 4 (drop_bit 12 (push_bit 24 addr OR push_bit 12 asiz OR push_bit 2 2 OR 1)) = asiz"
proof -
  have a: "bit addr n \<Longrightarrow> n < 11" for n by (metis assms(1) bit_take_bit_iff)
  have s: "bit asiz n \<Longrightarrow> n < 4" for n by (metis assms(2) bit_take_bit_iff)
  show "take_bit 11 (drop_bit 24 (push_bit 24 addr OR push_bit 12 asiz OR push_bit 2 2 OR 1)) = addr"
    by (rule bit_word_eqI) (auto simp: bit_take_bit_iff bit_drop_bit_eq bit_or_iff bit_push_bit_iff
        dest: a s)
  show "take_bit 4 (drop_bit 12 (push_bit 24 addr OR push_bit 12 asiz OR push_bit 2 2 OR 1)) = asiz"
    by (rule bit_word_eqI) (auto simp: bit_take_bit_iff bit_drop_bit_eq bit_or_iff bit_push_bit_iff
        dest: a s)
qed

text \<open>The array sizes the size code of the register can express.\<close>

definition arraySizes :: "bool \<Rightarrow> nat list" where
  "arraySizes isTyphoon = [24..<if isTyphoon then 34 else 31]"

lemma computeAAR_code:
  assumes "j \<in> set (arraySizes ty)"
  shows "computeAAR base (2 ^ j) ty =
    push_bit 24 (drop_bit 24 base AND 0x7FF) OR push_bit 12 (of_nat (j - 23)) OR push_bit 2 2 OR 1"
proof -
  have "j \<in> {24, 25, 26, 27, 28, 29, 30} \<or> ty \<and> j \<in> {31, 32, 33}"
    using assms by (auto simp: arraySizes_def split: if_splits) presburger
  then show ?thesis by (elim disjE conjE insertE emptyE) (simp_all add: computeAAR_def)
qed

lemma base_field:
  assumes "2 ^ 24 dvd B" "B < 2 ^ 35"
  shows "push_bit 24 (drop_bit 24 (of_nat B :: u64) AND 0x7FF) = of_nat B"
proof -
  obtain b where B: "B = 2 ^ 24 * b" using assms(1) by (elim dvdE)
  then have b: "b < 2 ^ 11" using assms(2) by simp
  have "take_bit 11 (of_nat b :: u64) = of_nat b"
    using b by (simp add: take_bit_of_nat take_bit_nat_eq_self)
  moreover have "(of_nat B :: u64) = push_bit 24 (of_nat b)" by (simp add: B push_bit_eq_mult)
  moreover have "take_bit 11 (drop_bit 24 (push_bit 24 v)) = take_bit 11 (v :: u64)" for v
    by (rule bit_word_eqI) (auto simp: bit_take_bit_iff bit_drop_bit_eq bit_push_bit_iff)
  ultimately show ?thesis by (simp add: and_7FF)
qed

lemma decode_computeAAR:
  assumes "j \<in> set (arraySizes ty)" "2 ^ 24 dvd B" "B < 2 ^ 35"
  shows "decodeAAR (computeAAR (of_nat B) (2 ^ j) ty) = (of_nat B, 2 ^ j)"
proof -
  have j: "24 \<le> j" "j < 34" using assms(1) by (auto simp: arraySizes_def split: if_splits)
  define s where "s = j - 23"
  have k: "s < 16" "0 < s" "j - 24 = s - 1" using j by (auto simp: s_def)
  have "take_bit 4 s = s" using k by (simp add: take_bit_nat_eq_self_iff)
  then have t4: "take_bit 4 (of_nat s :: u64) = of_nat s" by (metis take_bit_of_nat)
  have n: "unat (of_nat s :: u8) = s" using k by (simp add: unsigned_of_nat take_bit_nat_eq_self_iff)
  have c: "(ucast (of_nat s :: u64) :: u8) = of_nat s" 
    using k by (simp add: unsigned_of_nat take_bit_nat_eq_self)
  have "(of_nat s :: u8) \<noteq> 0" using n k by (metis unsigned_0 less_irrefl)
  moreover have "push_bit (j - 24) (16 * 1024 * 1024 :: u64) = 2 ^ j"
  proof -
    have "(16 * 1024 * 1024 :: u64) = 2 ^ 24" by simp
    then show ?thesis using j by (simp only: push_bit_eq_mult flip: power_add) simp
  qed
  ultimately show ?thesis
    using aar_layout [OF _ t4, of "take_bit 11 (drop_bit 24 (of_nat B))"] base_field [OF assms(2,3)]
    by (simp add: decodeAAR_def computeAAR_code [OF assms(1), folded s_def] and_7FF and_F c n Let_def k(3))
qed

text \<open>
  The arrays the reset lays out cover the memory without a gap when every array but the last is full
  and the last one has a size the register can express.
\<close>

definition arrayBits :: "bool \<Rightarrow> nat" where
  "arrayBits ty = (if ty then 33 else 30)"

definition memoryFits :: "bool \<Rightarrow> nat \<Rightarrow> nat \<Rightarrow> bool" where
  "memoryFits ty n M \<longleftrightarrow> M \<le> n * 2 ^ arrayBits ty \<and>
     M mod 2 ^ arrayBits ty \<in> insert 0 (set (map (\<lambda>j. 2 ^ j) (arraySizes ty)))"

lemma array_covers:
  assumes "j \<in> set (arraySizes ty)" "2 ^ 24 dvd B" "B < 2 ^ 35"
  shows "(let (base, sz) = decodeAAR (computeAAR (of_nat B) (2 ^ j) ty)
     in sz \<noteq> 0 \<and> base \<le> pa \<and> pa < base + sz) \<longleftrightarrow> B \<le> unat pa \<and> unat pa < B + 2 ^ j"
proof -
  have j: "j < 34" using assms(1) by (auto simp: arraySizes_def split: if_splits)
  then have "(2 :: nat) ^ j \<le> 2 ^ 33" by (intro power_increasing) auto
  then have B: "B < 2 ^ 64" "B + 2 ^ j < 2 ^ 64" using assms(3) by simp_all
  have "of_nat (B + 2 ^ j) = (of_nat B :: u64) + 2 ^ j" by simp
  then have u: "unat (of_nat B :: u64) = B" "unat ((of_nat B :: u64) + 2 ^ j) = B + 2 ^ j"
    using unat_of_nat_small [OF B(1)] unat_of_nat_small [OF B(2)] by metis+
  have "(2 :: u64) ^ j \<noteq> 0" using j by simp
  then show ?thesis
    unfolding decode_computeAAR [OF assms] Let_def prod.case word_le_nat_alt word_less_nat_alt u by blast
qed

lemma memoryFits_split:
  assumes "memoryFits ty (Suc n) M" "0 < M"
  obtains j where "j \<in> set (arraySizes ty)" "min M (2 ^ arrayBits ty) = 2 ^ j"
    "memoryFits ty n (M - 2 ^ j)" "2 ^ j \<le> M"
proof (cases "M < 2 ^ arrayBits ty")
  case True
  then obtain j where "j \<in> set (arraySizes ty)" "M = 2 ^ j"
    using assms by (auto simp: memoryFits_def)
  then show ?thesis using True that [of j] by (simp add: memoryFits_def)
next
  case False
  have "arrayBits ty \<in> set (arraySizes ty)" by (simp add: arrayBits_def arraySizes_def)
  then show ?thesis
    using False assms that [of "arrayBits ty"] by (simp add: memoryFits_def le_mod_geq) linarith
qed

definition covers :: "u64 \<Rightarrow> AAR \<Rightarrow> bool" where
  "covers pa aar \<longleftrightarrow> aar_enabled aar \<and>
     (let (base, sz) = decodeAAR (aar_base aar) in sz \<noteq> 0 \<and> base \<le> pa \<and> pa < base + sz)"

lemma fillArrays_covers:
  assumes "memoryFits ty n M" "2 ^ 24 dvd B" "B + M \<le> 2 ^ 35"
  shows "list_ex (covers pa) (fillArrays ty (2 ^ arrayBits ty) n (of_nat M) (of_nat B)) \<longleftrightarrow>
    B \<le> unat pa \<and> unat pa < B + M"
  using assms
proof (induction n arbitrary: M B)
  case 0
  then show ?case by (simp add: memoryFits_def)
next
  case (Suc n)
  show ?case
  proof (cases "M = 0")
    case True
    then show ?thesis using Suc.IH [of 0 B] Suc.prems by (simp add: covers_def memoryFits_def)
  next
    case False
    then obtain j where j: "j \<in> set (arraySizes ty)" "min M (2 ^ arrayBits ty) = 2 ^ j"
      "memoryFits ty n (M - 2 ^ j)" "2 ^ j \<le> M"
      using memoryFits_split [OF Suc.prems(1)] by blast
    have M: "M < 2 ^ 64" "0 < M" using Suc.prems(3) False by simp_all
    have J: "2 ^ arrayBits ty < (2 :: nat) ^ 64" by (simp add: arrayBits_def)
    have um: "unat (of_nat M :: u64) = M" by (rule unat_of_nat_small [OF M(1)])
    have nz: "(of_nat M :: u64) \<noteq> 0" using um M(2) by (metis unsigned_0 less_irrefl)
    have "(2 :: u64) ^ arrayBits ty = of_nat (2 ^ arrayBits ty)" by simp
    then have "unat ((2 :: u64) ^ arrayBits ty) = 2 ^ arrayBits ty" using unat_of_nat_small [OF J] by metis
    then have "min (of_nat M :: u64) (2 ^ arrayBits ty) = of_nat (min M (2 ^ arrayBits ty))"
      using um by (simp add: min_def word_le_nat_alt)
    then have mn: "min (of_nat M :: u64) (2 ^ arrayBits ty) = 2 ^ j" using j(2) by simp
    have "24 \<le> j" using j(1) by (auto simp: arraySizes_def)
    then have "2 ^ 24 dvd B + 2 ^ j" using Suc.prems(2) by (intro dvd_add le_imp_power_dvd)
    then have "list_ex (covers pa) (fillArrays ty (2 ^ arrayBits ty) n (of_nat (M - 2 ^ j)) (of_nat (B + 2 ^ j)))
        \<longleftrightarrow> B + 2 ^ j \<le> unat pa \<and> unat pa < B + M"
      using Suc.IH [OF j(3), of "B + 2 ^ j"] Suc.prems(3) j(4) by simp
    moreover have "covers pa \<lparr>aar_base = computeAAR (of_nat B) (2 ^ j) ty, aar_mask = m, aar_enabled = True\<rparr>
        \<longleftrightarrow> B \<le> unat pa \<and> unat pa < B + 2 ^ j" for m
      using array_covers [OF j(1) Suc.prems(2), of pa] Suc.prems(3) M(2) by (simp add: covers_def)
    ultimately show ?thesis using j(4) nz mn by (auto simp: Let_def of_nat_diff)
  qed
qed

lemma isDram_covers: "isDramAddress c pa \<longleftrightarrow> list_ex (covers pa) (m_aar c)"
  by (simp add: isDramAddress_def covers_def [abs_def])

lemma isDram_new:
  assumes "memoryFits (v = Typhoon) 4 M" 
  shows "isDramAddress (newCchip v cpus (of_nat M)) pa \<longleftrightarrow> unat pa < M"
proof -
  have "M \<le> 2 ^ 35" using assms by (auto simp: memoryFits_def arrayBits_def split: if_splits)
  moreover have "maxPerArray v = 2 ^ arrayBits (v = Typhoon)" by (simp add: maxPerArray_def arrayBits_def)
  ultimately show ?thesis
    using fillArrays_covers [OF assms, of 0 pa]
    by (simp add: isDram_covers newCchip_def cchip_reset_def Let_def)
qed

section \<open>Arbitration\<close>

lemma abt_zero_iff: "m AND fmask MISC_ABT = 0 \<longleftrightarrow> (\<forall>i < 4. \<not> bit m (20 + i))"
proof -
  have "(\<forall>n. 20 \<le> n \<and> n < 24 \<longrightarrow> \<not> bit m n) \<longleftrightarrow> (\<forall>i < 4. \<not> bit m (20 + i))"
  proof safe
    fix n assume "\<forall>i < 4. \<not> bit m (20 + i)" "20 \<le> n" "n < 24" "bit m n"
    then show False by (auto dest: spec [of _ "n - 20"])
  qed auto
  then show ?thesis by (simp add: and_mask_zero_iff bit_misc_masks)
qed

text \<open>Writes that try to win the arbitration and neither clear it nor set the winner themselves.\<close>

definition plainTry :: "u64 \<Rightarrow> bool" where
  "plainTry w \<longleftrightarrow> \<not> bit w 24 \<and> w AND fmask MISC_ABW = 0"

lemma arb_step:
  assumes "plainTry w" "i < 4"
  shows "bit (miscNext m w) (20 + i) \<longleftrightarrow> bit m (20 + i) \<or> bit w (20 + i)"
    and "bit (miscNext m w) (16 + i) \<longleftrightarrow> bit m (16 + i) \<or> m AND fmask MISC_ABT = 0 \<and> bit w (20 + i)"
  using assms by (auto simp: bit_miscNext miscBit_def plainTry_def and_mask_zero_iff bit_misc_masks add.commute)

lemma arb_held:
  assumes "list_all plainTry ws" "m AND fmask MISC_ABT \<noteq> 0" "i < 4"
  shows "bit (fold (\<lambda>w m. miscNext m w) ws m) (16 + i) \<longleftrightarrow> bit m (16 + i)"
  using assms
proof (induction ws arbitrary: m)
  case (Cons w ws)
  have "miscNext m w AND fmask MISC_ABT \<noteq> 0"
    using Cons.prems arb_step(1) [of w] by (auto simp: abt_zero_iff)
  then show ?case using Cons arb_step(2) [of w i m] by simp
qed simp

lemma arb_winner:
  assumes "list_all plainTry ws" "m AND fmask MISC_ABT = 0" "i < 4"
  shows "bit (fold (\<lambda>w m. miscNext m w) ws m) (16 + i) \<longleftrightarrow> bit m (16 + i) \<or>
    (\<exists>w. find (\<lambda>w. w AND fmask MISC_ABT \<noteq> 0) ws = Some w \<and> bit w (20 + i))"
  using assms
proof (induction ws arbitrary: m)
  case (Cons w ws)
  note s = arb_step [of w _ m]
  show ?case
  proof (cases "w AND fmask MISC_ABT = 0")
    case True
    then have "miscNext m w AND fmask MISC_ABT = 0" "bit (miscNext m w) (16 + i) = bit m (16 + i)"
      using Cons.prems s by (auto simp: abt_zero_iff)
    then show ?thesis using Cons True by simp
  next
    case False
    then have "miscNext m w AND fmask MISC_ABT \<noteq> 0"
      using Cons.prems s(1) by (auto simp: abt_zero_iff)
    then show ?thesis using arb_held [of ws "miscNext m w" i] Cons.prems s(2) [of i] False by simp
  qed
qed simp

lemma misc_writes: "m_misc (fold (cchip_write 0x080) ws c) = fold (\<lambda>w m. miscNext m w) ws (m_misc c)"
  by (induction ws arbitrary: c) (simp_all add: cchip_write_def cchipRegs_def miscWriteW1C_eq)

section \<open>Rounding the tick interval\<close>

lemma log2Loop_spec:
  assumes "b \<le> 63" "unat n \<le> 2 ^ 63" "fuel + b \<ge> 63" "\<And>c. c < b \<Longrightarrow> 2 ^ c < unat n"
  shows "\<exists>b'. log2Loop fuel n b (2 ^ b) = Some (b', 2 ^ b') \<and> b' \<le> 63 \<and> unat n \<le> 2 ^ b' \<and>
    (\<forall>c < b'. 2 ^ c < unat n)"
  using assms
proof (induction fuel arbitrary: b)
  case 0
  then have b: "b = 63" by simp
  then have "unat ((2 :: u64) ^ b) = 2 ^ b" by simp
  then have "\<not> (2 :: u64) ^ b < n" using 0 b by (simp add: word_less_nat_alt)
  then show ?case using 0 b by (auto simp: log2Loop.simps)
next
  case (Suc fuel)
  have "(2 :: nat) ^ b < 2 ^ 64" using Suc.prems(1) by (intro power_strict_increasing) auto
  then have u: "unat ((2 :: u64) ^ b) = 2 ^ b"
    using unat_of_nat_small [of "2 ^ b"] by simp
  show ?case
  proof (cases "2 ^ b < unat n")
    case False
    then show ?thesis using Suc.prems u by (auto simp: log2Loop.simps word_less_nat_alt)
  next
    case True
    then have "b \<noteq> 63" using Suc.prems(2) by auto
    moreover have "c < Suc b \<Longrightarrow> 2 ^ c < unat n" for c using Suc.prems(4) True by (cases "c = b") auto
    ultimately have "\<exists>b'. log2Loop fuel n (b + 1) (2 ^ (b + 1)) = Some (b', 2 ^ b') \<and> b' \<le> 63 \<and>
        unat n \<le> 2 ^ b' \<and> (\<forall>c < b'. 2 ^ c < unat n)"
      using Suc.prems by (intro Suc.IH) auto
    moreover have "push_bit 1 ((2 :: u64) ^ b) = 2 ^ (b + 1)" by (simp add: push_bit_eq_mult)
    ultimately show ?thesis
      using True u by (simp add: log2Loop.simps [of "Suc fuel"] word_less_nat_alt mult.commute)
  qed
qed

lemma unat_exp_u64: "b \<le> 63 \<Longrightarrow> unat ((2 :: u64) ^ b) = 2 ^ b"
proof -
  assume "b \<le> 63"
  then have "(2 :: nat) ^ b < 2 ^ 64" by (intro power_strict_increasing) auto
  then show ?thesis using unat_of_nat_small [of "2 ^ b"] by simp
qed

text \<open>
  The documented rounding is to the exponent nearest to the logarithm of the interval; the code compares
  distances between the numbers themselves. Between the square root of two and one and a half times a
  power of two the two differ.
\<close>

definition roundingDisputed :: "u64 \<Rightarrow> bool" where
  "roundingDisputed n \<longleftrightarrow> list_ex (\<lambda>k. 2 * 4 ^ k < (uint n)\<^sup>2 \<and> 2 * uint n < 3 * 2 ^ k) [0..<64]"

lemma log2_bounds:
  fixes n :: int
  assumes "0 < n"
  shows "real a < log 2 n \<longleftrightarrow> 2 ^ a < n" "log 2 n \<le> real a \<longleftrightarrow> n \<le> 2 ^ a"
    "real a + 1 / 2 \<le> log 2 n \<longleftrightarrow> 2 * 4 ^ a \<le> n\<^sup>2" "log 2 n \<le> real a + 1 / 2 \<longleftrightarrow> n\<^sup>2 \<le> 2 * 4 ^ a"
    "real a \<le> log 2 n \<longleftrightarrow> 2 ^ a \<le> n"
proof -
  have pos: "0 < real_of_int n" using assms by simp
  have cast: "(x :: real) = real_of_int y \<Longrightarrow> (x < real_of_int n \<longleftrightarrow> y < n) \<and> (real_of_int n \<le> x \<longleftrightarrow> n \<le> y) \<and>
      (x \<le> real_of_int n \<longleftrightarrow> y \<le> n)" for x y
    by simp
  have e: "2 powr real a = real_of_int (2 ^ a)" by (simp add: powr_realpow)
  show "real a < log 2 n \<longleftrightarrow> 2 ^ a < n"
    using less_log_iff [of 2 "real_of_int n" "real a"] pos cast [OF e] by simp
  show "log 2 n \<le> real a \<longleftrightarrow> n \<le> 2 ^ a"
    using log_le_iff [of 2 "real_of_int n" "real a"] pos cast [OF e] by simp
  show "real a \<le> log 2 n \<longleftrightarrow> 2 ^ a \<le> n"
    using le_log_iff [of 2 "real_of_int n" "real a"] pos cast [OF e] by simp
  have sq: "log 2 ((real_of_int n)\<^sup>2) = 2 * log 2 n" using log_nat_power [OF less_imp_le [OF pos], of 2 2] by simp
  have "2 powr (2 * real a + 1) = 2 powr real (2 * a + 1)" by (simp add: add.commute)
  also have "\<dots> = 2 ^ (2 * a + 1)" by (rule powr_realpow) simp
  finally have h: "2 powr (2 * real a + 1) = real_of_int (2 * 4 ^ a)" by (simp add: power_mult)
  have n2: "(real_of_int n)\<^sup>2 = real_of_int (n\<^sup>2)" by simp
  have "2 * real a + 1 \<le> log 2 ((real_of_int n)\<^sup>2) \<longleftrightarrow> 2 powr (2 * real a + 1) \<le> (real_of_int n)\<^sup>2"
    using pos by (intro le_log_iff) simp_all
  then have "2 * real a + 1 \<le> 2 * log 2 n \<longleftrightarrow> 2 * 4 ^ a \<le> n\<^sup>2" unfolding sq h by (simp only: n2 of_int_le_iff)
  then show "real a + 1 / 2 \<le> log 2 n \<longleftrightarrow> 2 * 4 ^ a \<le> n\<^sup>2" by auto
  have "log 2 ((real_of_int n)\<^sup>2) \<le> 2 * real a + 1 \<longleftrightarrow> (real_of_int n)\<^sup>2 \<le> 2 powr (2 * real a + 1)"
    using pos by (intro log_le_iff) simp_all
  then have "2 * log 2 n \<le> 2 * real a + 1 \<longleftrightarrow> n\<^sup>2 \<le> 2 * 4 ^ a" unfolding sq h by (simp only: n2 of_int_le_iff)
  then show "log 2 n \<le> real a + 1 / 2 \<longleftrightarrow> n\<^sup>2 \<le> 2 * 4 ^ a" by auto
qed

lemma roundLog2_cases:
  assumes "0 < n" "unat n \<le> 2 ^ 63"
  obtains (one) "n = 1" "roundLog2Nearest n = Some 0"
  | (low) a where "a < 63" "2 ^ a < uint n" "2 * uint n < 3 * 2 ^ a" "roundLog2Nearest n = Some a"
  | (high) a where "a < 63" "3 * 2 ^ a \<le> 2 * uint n" "uint n \<le> 2 ^ Suc a" "roundLog2Nearest n = Some (Suc a)"
proof -
  obtain b where b: "log2Loop 64 n 0 1 = Some (b, 2 ^ b)" "b \<le> 63" "unat n \<le> 2 ^ b"
    "\<And>c. c < b \<Longrightarrow> 2 ^ c < unat n"
    using log2Loop_spec [of 0 n 64] assms by auto
  have "int (unat n) \<le> int (2 ^ b)" "c < b \<Longrightarrow> int (2 ^ c) < int (unat n)" for c
    using b(3) b(4) [of c] by (simp_all only: of_nat_le_iff of_nat_less_iff)
  then have int_le: "uint n \<le> 2 ^ b" "c < b \<Longrightarrow> 2 ^ c < uint n" for c by simp_all
  show ?thesis
  proof (cases b)
    case 0
    then have "unat n = 1" using b(3) assms(1) by (simp add: word_less_nat_alt)
    then have "n = 1" by (simp add: word_unat_eq_iff)
    then show ?thesis using one b(1) 0 by (simp add: roundLog2Nearest_def)
  next
    case (Suc a)
    have half: "drop_bit 1 ((2 :: u64) ^ b) = 2 ^ a"
      using Suc b(2) by (intro bit_word_eqI) (auto simp: bit_drop_bit_eq bit_exp_iff simp del: power_Suc)
    have "unat (n - 2 ^ a) = unat n - 2 ^ a" "unat ((2 :: u64) ^ b - n) = 2 ^ b - unat n"
      using b(2,3) b(4) [of a] Suc unat_exp_u64 [of a] unat_exp_u64 [of b]
      by (simp_all add: unat_sub word_le_nat_alt)
    then have "int (unat (n - 2 ^ a)) = int (unat n) - int (2 ^ a)"
      "int (unat ((2 :: u64) ^ b - n)) = int (2 ^ b) - int (unat n)"
      using b(3) b(4) [of a] Suc by (simp_all only: of_nat_diff less_imp_le lessI)
    then have cmp: "n - 2 ^ a < 2 ^ b - n \<longleftrightarrow> 2 * uint n < 3 * 2 ^ a"
      using Suc by (auto simp: word_less_def)
    have res: "roundLog2Nearest n = Some (if 2 * uint n < 3 * 2 ^ a then a else Suc a)"
      using b(1) Suc half cmp by (simp add: roundLog2Nearest_def)
    show ?thesis
    proof (cases "2 * uint n < 3 * 2 ^ a")
      case True
      then show ?thesis using low [of a] res int_le(2) [of a] b(2) Suc by simp
    next
      case False
      then show ?thesis using high [of a] res int_le(1) b(2) Suc by simp
    qed
  qed
qed

lemma nearest_exponent:
  fixes L :: real
  assumes "real a < L" "L \<le> real (Suc a)"
  shows "L \<le> real a + 1 / 2 \<Longrightarrow> \<bar>real a - L\<bar> \<le> \<bar>real c - L\<bar>"
    "real a + 1 / 2 \<le> L \<Longrightarrow> \<bar>real (Suc a) - L\<bar> \<le> \<bar>real c - L\<bar>"
proof -
  have "c \<le> a \<or> Suc a \<le> c" by arith
  then have "real c \<le> real a \<or> real a + 1 \<le> real c" by auto
  then show "L \<le> real a + 1 / 2 \<Longrightarrow> \<bar>real a - L\<bar> \<le> \<bar>real c - L\<bar>"
    "real a + 1 / 2 \<le> L \<Longrightarrow> \<bar>real (Suc a) - L\<bar> \<le> \<bar>real c - L\<bar>"
    using assms by auto
qed

section \<open>Snapshots of the Cchip\<close>

lemma aar_codec: "aar_deserialize (aar_serialize a @ ds) = (a, ds)"
  by (simp add: aar_deserialize_def aar_serialize_def)

definition cchip_restore :: "Cchip \<Rightarrow> Cchip \<Rightarrow> Cchip" where
  "cchip_restore old c = c\<lparr>m_variant := m_variant old, m_cpuCount := m_cpuCount old,
     m_memSizeBytes := m_memSizeBytes old, m_pendingIrq2 := m_pendingIrq2 old,
     m_pendingIrq3 := m_pendingIrq3 old\<rparr>"

interpretation cchip: snapshot_codec cchip_inv cchip_serialize cchip_deserialize cchip_restore
proof unfold_locales
  fix c old :: Cchip and rest :: "u8 list"
  assume "cchip_inv c"
  then have l: "length (m_aar c) = 4" "length (m_mpr c) = 4" "length (m_dim c) = 4" "length (m_iic c) = 4"
    by (simp_all add: cchip_inv_def)
  note regs = get_many_put [of get_u64 put_u64, OF get_put_u64]
    and aars = get_many_put [of aar_deserialize aar_serialize, OF aar_codec]
  have "get_many aar_deserialize 4 (concat (map aar_serialize (m_aar c)) @ ds) = (m_aar c, ds)"
    "get_many get_u64 4 (concat (map put_u64 (m_mpr c)) @ ds) = (m_mpr c, ds)"
    "get_many get_u64 4 (concat (map put_u64 (m_dim c)) @ ds) = (m_dim c, ds)"
    "get_many get_u64 4 (concat (map put_u64 (m_iic c)) @ ds) = (m_iic c, ds)" for ds
    using regs [of "m_mpr c"] regs [of "m_dim c"] regs [of "m_iic c"] aars [of "m_aar c"]
    by (simp_all add: l)
  then show "cchip_deserialize old (cchip_serialize c @ rest) = (cchip_restore old c, rest)"
    by (simp add: cchip_deserialize_def cchip_serialize_def cchip_restore_def)
qed

section \<open>Properties\<close>

text \<open>
  The bits of MISC whose value after a write the register description settles for this implementation.
  Two cases are left out, in which the code departs from the description: the source of a non-existent
  memory access when NXM is cleared (to be cleared with it, kept by the code), and the winner bits when a
  winner is already latched and the write sets arbitration bits (to be locked, set by the code).
\<close>

definition miscSettled :: "u64 \<Rightarrow> u64 \<Rightarrow> nat \<Rightarrow> bool" where
  "miscSettled old w n \<longleftrightarrow> \<not> (n \<in> {29..<32} \<and> bit w 28) \<and>
     (n \<in> {16..<20} \<longrightarrow> old AND fmask MISC_ABW = 0 \<or> w AND (fmask MISC_ABT OR fmask MISC_ABW) = 0)"

text \<open>
  C20. A write of the MISC register by a processor changes every settled bit exactly as its field's access
  class says: NXM, IPINTR and ITINTR are write-one-to-clear, an IPREQ bit sets its IPINTR bit, the
  arbitration fields obey ACL and promote the first try to the winner (while no winner is latched), and
  the write-only and read-only fields keep their value. In the same operation the timer latch of processor
  k is dropped by ITINTR bit k; the interprocessor latch is raised by IPREQ bit k when the processor
  exists and dropped by IPINTR bit k, unless one write has both; and DRIR bit 63 is dropped by NXM. No
  other interrupt line, mask or register changes. What the code does in the cases left out is the lemma
  misc\_write\_unsettled.
\<close>

theorem misc_write_fields:
  assumes "cchip_inv c" "k < 4"
  shows "(let c' = cchip_write 0x080 w c
     in (\<forall>n. miscSettled (m_misc c) w n \<longrightarrow> bit (m_misc c') n = miscBit (m_misc c) w n) \<and>
        pendingIrq2 c' k = (pendingIrq2 c k \<and> \<not> bit w (4 + k)) \<and>
        (\<not> (bit w (8 + k) \<and> bit w (12 + k)) \<longrightarrow> pendingIrq3 c' k = (\<not> bit w (8 + k) \<and>
          (pendingIrq3 c k \<or> int k < m_cpuCount c \<and> bit w (12 + k)))) \<and>
        (\<forall>n. bit (m_drir c') n = (bit (m_drir c) n \<and> \<not> (n = 63 \<and> bit w 28))) \<and>
        m_dim c' = m_dim c \<and> m_iic c' = m_iic c \<and> m_aar c' = m_aar c)"
proof -
  have w: "cchip_write 0x080 w c = miscWriteW1C w c" by (simp add: cchip_write_def cchipRegs_def)
  have "bit (m_drir (miscWriteW1C w c)) n = (bit (m_drir c) n \<and> \<not> (n = 63 \<and> bit w 28))" for n
    using bit_unset_bit_iff [of 63 "m_drir c" n]
    by (auto simp: miscWriteW1C_eq unset_bit_eq_and_not)
  moreover have "bit (m_misc (miscWriteW1C w c)) n = miscBit (m_misc c) w n" for n
    by (simp add: miscWriteW1C_eq bit_miscNext)
  moreover have "length (m_pendingIrq2 c) = 4" "length (m_pendingIrq3 c) = 4"
    using assms(1) by (simp_all add: cchip_inv_def)
  ultimately show ?thesis
    using miscWriteW1C_latches [OF _ _ assms(2), of c w]
    unfolding w Let_def by (simp add: miscWriteW1C_eq)
qed

theorem misc_write_fields_witness:
  "pendingIrq3 (cchip_write 0x080 0x2000 (newCchip Tsunami 2 0x40000000)) 1 \<and>
   \<not> pendingIrq3 (cchip_write 0x080 0x8000 (newCchip Tsunami 2 0x40000000)) 3"
proof -
  have i: "cchip_inv (newCchip Tsunami 2 0x40000000)" by (rule inv_reachable) (rule cchip_reachable.init)
  have "m_cpuCount (newCchip Tsunami 2 0x40000000) = 2" "\<not> pendingIrq3 (newCchip Tsunami 2 0x40000000) 3"
    by (simp_all add: newCchip_def cchip_reset_def pendingIrq3_def Let_def)
  then show ?thesis
    using misc_write_fields [OF i, of 1 "0x2000"] misc_write_fields [OF i, of 3 "0x8000"]
    by (simp add: Let_def)
qed

text \<open>
  The three cases left out: a second winner joins the first, the source code of the access stays when
  NXM is cleared, and an interprocessor request that comes with the acknowledge of an earlier one stays
  visible in IPINTR but its latch is clear, so that the processor is not interrupted.
\<close>

lemma misc_write_unsettled:
  assumes "cchip_inv c" "k < 4"
  shows "bit w (16 + k) \<Longrightarrow> \<not> bit w 24 \<Longrightarrow> bit (m_misc (cchip_write 0x080 w c)) (16 + k)"
    "n \<in> {29..<32} \<Longrightarrow> bit (m_misc (cchip_write 0x080 w c)) n = bit (m_misc c) n"
    "bit w (8 + k) \<Longrightarrow> bit w (12 + k) \<Longrightarrow>
      bit (m_misc (cchip_write 0x080 w c)) (8 + k) \<and> \<not> pendingIrq3 (cchip_write 0x080 w c) k"
proof -
  have w: "cchip_write 0x080 w c = miscWriteW1C w c" by (simp add: cchip_write_def cchipRegs_def)
  have m: "bit (m_misc (miscWriteW1C w c)) n = miscBit (m_misc c) w n" for n
    by (simp add: miscWriteW1C_eq bit_miscNext)
  have l: "length (m_pendingIrq2 c) = 4" "length (m_pendingIrq3 c) = 4"
    using assms(1) by (simp_all add: cchip_inv_def)
  show "bit w (16 + k) \<Longrightarrow> \<not> bit w 24 \<Longrightarrow> bit (m_misc (cchip_write 0x080 w c)) (16 + k)"
    using assms(2) by (simp add: w m miscBit_def)
  show "n \<in> {29..<32} \<Longrightarrow> bit (m_misc (cchip_write 0x080 w c)) n = bit (m_misc c) n"
    by (auto simp: w m miscBit_def)
  show "bit w (8 + k) \<Longrightarrow> bit w (12 + k) \<Longrightarrow>
      bit (m_misc (cchip_write 0x080 w c)) (8 + k) \<and> \<not> pendingIrq3 (cchip_write 0x080 w c) k"
    using miscWriteW1C_latches [OF l assms(2), of w] assms(2) by (simp add: w m miscBit_def add.commute)
qed

text \<open>
  C19. In every state the Cchip can reach, DRIR bit 63 mirrors MISC NXM, so a latched access to
  non-existent memory interrupts every processor whose mask enables it; the latches that Machine
  polls for the timer and for interprocessor interrupts are never set without the status bit that
  software reads; and the write-only fields of MISC read as zero.
\<close>

theorem cchip_interrupt_invariant:
  assumes "cchip_reachable c" "k < 4"
  shows "(miscNxmLatched c \<longleftrightarrow> bit (m_drir c) 63) \<and>
    (miscNxmLatched c \<and> bit (m_dim c ! k) 63 \<longrightarrow> pendingIrq0 c k) \<and>
    (pendingIrq2 c k \<longrightarrow> bit (m_misc c) (4 + k)) \<and>
    (pendingIrq3 c k \<longrightarrow> bit (m_misc c) (8 + k)) \<and> m_misc c AND WO_MASK = 0"
proof -
  have i: "cchip_inv c" using assms(1) by (rule inv_reachable)
  have nxm: "miscNxmLatched c \<longleftrightarrow> bit (m_misc c) 28"
    by (auto simp: miscNxmLatched_def and_mask_zero_iff bit_misc_masks)
  have "pendingIrq0 c k" if "bit (m_drir c) 63" "bit (m_dim c ! k) 63"
  proof -
    have "bit ((m_drir c AND m_dim c ! k) AND 0xFC00000000000000) 63"
      using that by (simp add: bit_and_iff)
    then show ?thesis using assms(2) by (auto simp: pendingIrq0_def)
  qed
  then show ?thesis using i assms(2) by (auto simp: nxm cchip_inv_def)
qed

theorem cchip_interrupt_invariant_witness:
  "bit (m_drir (latchNxm 0 (newCchip Typhoon 4 0x80000000))) 63"
proof -
  let ?c = "latchNxm 0 (newCchip Typhoon 4 0x80000000)"
  have r: "cchip_reachable ?c" by (rule cchip_reachable.step [OF cchip_reachable.init cchip_step.step_nxm])
  have "bit (m_misc ?c) 28" by (simp add: bit_latchNxm)
  then have "miscNxmLatched ?c" by (auto simp: miscNxmLatched_def and_mask_zero_iff bit_misc_masks)
  then show ?thesis using cchip_interrupt_invariant [OF r, of 0] by simp
qed

text \<open>
  C31. After reset the array registers decode exactly the installed memory as DRAM, whenever the
  memory fills its arrays with the last one holding a power of two of at least 16 MB: an address
  belongs to DRAM iff it lies below the memory size (up to 4 GB on Tsunami and 32 GB on Typhoon).
\<close>

theorem dram_decode_exact:
  assumes "memoryFits (v = Typhoon) 4 M"
  shows "isDramAddress (newCchip v cpus (of_nat M)) pa \<longleftrightarrow> unat pa < M"
  using assms by (rule isDram_new)

theorem dram_decode_exact_witness:
  "isDramAddress (newCchip Typhoon 4 (of_nat (4 * 2 ^ 33))) 0x7FFFFFFFF \<and>
   \<not> isDramAddress (newCchip Tsunami 1 (of_nat (2 ^ 30 + 2 ^ 24))) 0x41000000"
proof -
  have "memoryFits (Typhoon = Typhoon) 4 (4 * 2 ^ 33)" "memoryFits (Tsunami = Typhoon) 4 (2 ^ 30 + 2 ^ 24)"
    by (auto simp: memoryFits_def arrayBits_def arraySizes_def)
  then show ?thesis
    using dram_decode_exact [of Typhoon "4 * 2 ^ 33" 4 "0x7FFFFFFFF"]
      dram_decode_exact [of Tsunami "2 ^ 30 + 2 ^ 24" 1 "0x41000000"]
    by simp
qed

text \<open>
  C35. The arbitration of MISC elects one winner: after a clear, in any sequence of writes in which
  processors set arbitration-try bits, ABW ends as exactly the try bits of the first write that had
  any, so a second processor never wins while the first holds the arbitration.
\<close>

theorem arbitration_first_try_wins:
  assumes "list_all plainTry ws" "m_misc c AND fmask MISC_ABT = 0" "m_misc c AND fmask MISC_ABW = 0"
    and "i < 4"
  shows "bit (m_misc (fold (cchip_write 0x080) ws c)) (16 + i) \<longleftrightarrow>
    (case find (\<lambda>w. w AND fmask MISC_ABT \<noteq> 0) ws of None \<Rightarrow> False | Some w \<Rightarrow> bit w (20 + i))"
proof -
  have "\<not> bit (m_misc c) (16 + i)" using assms(3,4) by (simp add: and_mask_zero_iff bit_misc_masks)
  then show ?thesis
    using arb_winner [OF assms(1,2,4)] by (auto simp: misc_writes split: option.splits)
qed

theorem arbitration_first_try_wins_witness:
  "\<not> bit (m_misc (fold (cchip_write 0x080) [0x200000, 0x100000] (newCchip Tsunami 2 0x40000000))) 16"
proof -
  have "list_all plainTry [0x200000, 0x100000]"
    by (simp add: plainTry_def fmask_def widthMask_def misc_fields)
  moreover have "m_misc (newCchip Tsunami 2 0x40000000) AND fmask MISC_ABT = 0"
    "m_misc (newCchip Tsunami 2 0x40000000) AND fmask MISC_ABW = 0"
    by (simp_all add: newCchip_def cchip_reset_def Let_def fmask_def widthMask_def misc_fields)
  ultimately show ?thesis
    using arbitration_first_try_wins [of "[0x200000, 0x100000]" "newCchip Tsunami 2 0x40000000" 0]
    by (simp add: fmask_def widthMask_def misc_fields)
qed

text \<open>
  C37. The computation of the tick interval returns for every interval from 1 to 2 to the 63. The exponent
  it returns is one of the two next to the binary logarithm of the interval, and, unless the interval
  lies between the square root of two and one and a half times a power of two, it is the documented one:
  no exponent is closer to the logarithm. In the remaining gap the code rounds down where the description
  rounds up, as rounding\_is\_linear shows.
\<close>

theorem tick_interval_nearest:
  assumes "0 < n" "unat n \<le> 2 ^ 63"
  shows "\<exists>b. roundLog2Nearest n = Some b \<and> b \<le> 63 \<and> \<bar>real b - log 2 (uint n)\<bar> < 1 \<and>
    (\<not> roundingDisputed n \<longrightarrow> (\<forall>c. \<bar>real b - log 2 (uint n)\<bar> \<le> \<bar>real c - log 2 (uint n)\<bar>))"
  using assms
proof (cases rule: roundLog2_cases)
  case (low a)
  have pos: "0 < uint n" using assms(1) by (simp add: word_less_def)
  have "(0 :: int) < 2 ^ a" by simp
  then have up: "uint n < 2 ^ Suc a" using low(3) unfolding power_Suc by linarith
  note L = log2_bounds [OF pos]
  have b: "real a < log 2 (uint n)" "log 2 (uint n) \<le> real (Suc a)" using L(1,2) low(2) less_imp_le [OF up] by blast+
  have s: "\<not> real (Suc a) \<le> log 2 (uint n)" using L(5) [of "Suc a"] up by simp
  have "log 2 (uint n) \<le> real a + 1 / 2" if "\<not> roundingDisputed n"
    using that low(1,3) L(4) [of a] by (auto simp: roundingDisputed_def list_ex_iff)
  then show ?thesis using low(1,4) b s nearest_exponent(1) [OF b] by auto
next
  case (high a)
  have pos: "0 < uint n" using assms(1) by (simp add: word_less_def)
  have "2 ^ a < uint n" using high(2) by (smt (verit) zero_less_power)
  note L = log2_bounds [OF pos]
  then have b: "real a < log 2 (uint n)" "log 2 (uint n) \<le> real (Suc a)" using \<open>2 ^ a < uint n\<close> high(3) by blast+
  have "(3 * 2 ^ a)\<^sup>2 \<le> (2 * uint n)\<^sup>2" using high(2) by (intro power_mono) simp_all
  moreover have "((2 :: int) ^ a)\<^sup>2 = 4 ^ a" by (simp add: power2_eq_square flip: power_mult_distrib)
  ultimately have "9 * 4 ^ a \<le> 4 * (uint n)\<^sup>2" by (simp add: power_mult_distrib)
  moreover have "(0 :: int) \<le> 4 ^ a" by simp
  ultimately have "2 * 4 ^ a \<le> (uint n)\<^sup>2" by linarith
  then have "real a + 1 / 2 \<le> log 2 (uint n)" using L(3) by blast
  then show ?thesis using high(1,4) b nearest_exponent(2) [OF b] by auto
qed auto

theorem tick_interval_nearest_witness:
  "\<exists>b. roundLog2Nearest 976562 = Some b \<and> \<bar>real b - log 2 976562\<bar> \<le> \<bar>20 - log 2 976562\<bar>"
proof -
  have "\<not> roundingDisputed 976562" by code_simp
  then obtain b where "roundLog2Nearest 976562 = Some b" "\<forall>c. \<bar>real b - log 2 976562\<bar> \<le> \<bar>real c - log 2 976562\<bar>"
    using tick_interval_nearest [of 976562] by auto
  then show ?thesis using spec [of _ 20] by (metis of_nat_numeral)
qed

lemma rounding_is_linear: "roundLog2Nearest 92 = Some 6 \<and> \<bar>7 - log 2 92\<bar> < \<bar>6 - log 2 92\<bar>"
proof
  show "roundLog2Nearest 92 = Some 6" by (simp add: roundLog2Nearest_def log2Loop.simps)
  have "\<not> log 2 (92 :: int) \<le> real 6 + 1 / 2" "log 2 (92 :: int) \<le> real 7"
    using log2_bounds(4) [of 92 6] log2_bounds(2) [of 92 7] by simp_all
  then show "\<bar>7 - log 2 92\<bar> < \<bar>6 - log 2 92\<bar>" by auto
qed

text \<open>
  A Cchip saved in any reachable state and loaded into another Cchip object gives it every
  register of the saved one and consumes exactly the bytes written; the variant, the number of
  processors and the two interrupt latch arrays stay those of the object loaded into.
\<close>

theorem cchip_snapshot_roundtrip:
  assumes "cchip_reachable c"
  shows "cchip_deserialize old (cchip_serialize c @ rest) =
    (c\<lparr>m_variant := m_variant old, m_cpuCount := m_cpuCount old, m_memSizeBytes := m_memSizeBytes old,
       m_pendingIrq2 := m_pendingIrq2 old, m_pendingIrq3 := m_pendingIrq3 old\<rparr>, rest)"
  using cchip.load_save [OF inv_reachable [OF assms]] by (simp add: cchip_restore_def)

theorem cchip_snapshot_roundtrip_witness:
  "m_misc (fst (cchip_deserialize (newCchip Tsunami 1 0) (cchip_serialize (newCchip Titan 1 0)))) = 0xA00000000"
  using cchip_snapshot_roundtrip [OF cchip_reachable.init, of "newCchip Tsunami 1 0" Titan 1 0 "[]"]
  by (simp add: newCchip_def cchip_reset_def Let_def)

end
