(* ===== verification/Pchip.thy ===== *)
theory Pchip
  imports DataStream Cchip
begin

text \<open>
  The rest of the chip set's register files: the Dchip (chipsetLib/TsunamiDchip.h), the TIG bus
  registers (TsunamiTig.h) and the Pchip (TsunamiPchip.h), which decodes its CSRs, PCI configuration
  space, I/O ports and PCI memory and hands device accesses to the handlers that are registered with it.

  A handler is the pair of interfaces of IDeviceHandlers.h, here a record of their virtual methods over
  a name of the device and the state of all devices. Diagnostics and the second, unused routing entry
  (routeMmioRead, routeMmioWrite and their helpers, which nothing calls) are not modelled.
\<close>

section \<open>Dchip\<close>

record Dchip =
  d_variant :: ChipsetVariant
  m_dsc :: u64
  m_str :: u64
  m_drev :: u64
  m_dsc2 :: u64

definition dchip_reset :: "Dchip \<Rightarrow> Dchip" where
  "dchip_reset d = d\<lparr>m_dsc := 1, m_str := 0, m_dsc2 := 0,
     m_drev := (case variantInfo (d_variant d) of Some i \<Rightarrow> info_drev i | None \<Rightarrow> 0x10)\<rparr>"

definition dchip_read :: "Dchip \<Rightarrow> u64 \<Rightarrow> u64" where
  "dchip_read d off =
    (if off = 0x800 then m_dsc d else if off = 0x840 then m_str d
     else if off = 0x880 then m_drev d else if off = 0x8C0 then m_dsc2 d else 0)"

definition dchip_write :: "u64 \<Rightarrow> u64 \<Rightarrow> Dchip \<Rightarrow> Dchip" where
  "dchip_write off v d =
    (if off = 0x800 then d\<lparr>m_dsc := v\<rparr> else if off = 0x840 then d\<lparr>m_str := v\<rparr>
     else if off = 0x8C0 then d\<lparr>m_dsc2 := v\<rparr> else d)"

definition dchip_serialize :: "Dchip \<Rightarrow> u8 list" where
  "dchip_serialize d = put_u64 (m_dsc d) @ put_u64 (m_str d) @ put_u64 (m_drev d) @ put_u64 (m_dsc2 d)"

definition dchip_deserialize :: "Dchip \<Rightarrow> u8 list \<Rightarrow> Dchip \<times> u8 list" where
  "dchip_deserialize d ds =
    (let (a, ds) = get_u64 ds; (b, ds) = get_u64 ds; (c, ds) = get_u64 ds; (e, ds) = get_u64 ds
     in (d\<lparr>m_dsc := a, m_str := b, m_drev := c, m_dsc2 := e\<rparr>, ds))"

section \<open>TIG registers\<close>

record Tig =
  m_halt :: "u64 list"
  m_ipcr :: "u64 list"
  m_cpuStartReq :: u32
  m_arbCtrl :: u64

definition tig_decodes :: "u64 \<Rightarrow> bool" where
  "tig_decodes pa \<longleftrightarrow> 0x80130000000 \<le> pa \<and> pa < 0x80140000000"

definition tig_reset :: Tig where
  "tig_reset = \<lparr>m_halt = [0, 0], m_ipcr = [0, 0, 0, 0], m_cpuStartReq = 0, m_arbCtrl = 0\<rparr>"

definition isAtResetState :: "Tig \<Rightarrow> bool" where
  "isAtResetState t \<longleftrightarrow> m_halt t ! 0 = 0 \<and> m_halt t ! 1 = 0 \<and> m_ipcr t ! 0 = 0 \<and> m_ipcr t ! 1 = 0 \<and>
     m_ipcr t ! 2 = 0 \<and> m_ipcr t ! 3 = 0 \<and> m_cpuStartReq t = 0 \<and> m_arbCtrl t = 0"

definition cpuStartRequested :: "Tig \<Rightarrow> int \<Rightarrow> bool" where
  "cpuStartRequested t cpuId \<longleftrightarrow> 0 \<le> cpuId \<and> cpuId < 4 \<and> m_cpuStartReq t AND push_bit (nat cpuId) 1 \<noteq> 0"

definition clearCpuStartRequest :: "int \<Rightarrow> Tig \<Rightarrow> Tig" where
  "clearCpuStartRequest cpuId t =
    (if 0 \<le> cpuId \<and> cpuId < 4 then t\<lparr>m_cpuStartReq := m_cpuStartReq t AND NOT (push_bit (nat cpuId) 1)\<rparr>
     else t)"

definition tig_read :: "Tig \<Rightarrow> u64 \<Rightarrow> u64" where
  "tig_read t pa =
    (if pa = 0x80130000040 then 0
     else if pa = 0x801300003C0 then m_halt t ! 0
     else if pa = 0x801300005C0 then m_halt t ! 1
     else if pa = 0x80130000440 then 0
     else if pa = 0x80130000A00 then m_ipcr t ! 0
     else if pa = 0x80130000A40 then m_ipcr t ! 1
     else if pa = 0x80130000A80 then m_ipcr t ! 2
     else if pa = 0x80130000AC0 then m_ipcr t ! 3
     else if pa = 0x80138000100 then m_arbCtrl t
     else 0)"

definition tig_ipcr :: "nat \<Rightarrow> u64 \<Rightarrow> Tig \<Rightarrow> Tig" where
  "tig_ipcr k v t = t\<lparr>m_ipcr := (m_ipcr t)[k := v], m_cpuStartReq := m_cpuStartReq t OR push_bit k 1\<rparr>"

definition tig_write :: "u64 \<Rightarrow> u64 \<Rightarrow> Tig \<Rightarrow> Tig" where
  "tig_write pa v t =
    (if pa = 0x80130000040 then t
     else if pa = 0x801300003C0 then t\<lparr>m_halt := (m_halt t)[0 := v]\<rparr>
     else if pa = 0x801300005C0 then t\<lparr>m_halt := (m_halt t)[1 := v]\<rparr>
     else if pa = 0x80130000440 then t
     else if pa = 0x80130000A00 then tig_ipcr 0 v t
     else if pa = 0x80130000A40 then tig_ipcr 1 v t
     else if pa = 0x80130000A80 then tig_ipcr 2 v t
     else if pa = 0x80130000AC0 then tig_ipcr 3 v t
     else if pa = 0x80138000100 then t\<lparr>m_arbCtrl := v\<rparr>
     else t)"

section \<open>Device handlers\<close>

record ('h, 'd) Handlers =
  h_ioRead :: "'h \<Rightarrow> u16 \<Rightarrow> u8 \<Rightarrow> 'd \<Rightarrow> u64 \<times> 'd"
  h_ioWrite :: "'h \<Rightarrow> u16 \<Rightarrow> u64 \<Rightarrow> u8 \<Rightarrow> 'd \<Rightarrow> 'd"
  h_cfgRead :: "'h \<Rightarrow> u8 \<Rightarrow> u8 \<Rightarrow> 'd \<Rightarrow> u32 \<times> 'd"
  h_cfgWrite :: "'h \<Rightarrow> u8 \<Rightarrow> u32 \<Rightarrow> u8 \<Rightarrow> 'd \<Rightarrow> 'd"

section \<open>Pchip state\<close>

record 'h Pchip =
  m_wsba :: "u64 list"
  m_wsm :: "u64 list"
  m_tba :: "u64 list"
  m_pctl :: u64
  m_plat :: u64
  m_perror :: u64
  m_perrmask :: u64
  m_pmonctl :: u64
  m_pmoncnt :: u64
  m_pciDevices :: "u32 \<rightharpoonup> 'h"
  m_ioPortRegistry :: "(u16 \<times> u16 \<times> 'h) list"
  m_pciMemRegistry :: "(u64 \<times> u64 \<times> 'h) list"

definition pchip_reset :: "'h Pchip \<Rightarrow> 'h Pchip" where
  "pchip_reset p = p\<lparr>m_wsba := [0, 0, 0, 0], m_wsm := [0, 0, 0, 0], m_tba := [0, 0, 0, 0], m_pctl := 0,
     m_plat := 0, m_perror := 0, m_perrmask := 0, m_pmonctl := 0, m_pmoncnt := 0\<rparr>"

definition newPchip :: "'h Pchip" where
  "newPchip = pchip_reset \<lparr>m_wsba = [], m_wsm = [], m_tba = [], m_pctl = 0, m_plat = 0, m_perror = 0,
     m_perrmask = 0, m_pmonctl = 0, m_pmoncnt = 0, m_pciDevices = Map.empty, m_ioPortRegistry = [],
     m_pciMemRegistry = []\<rparr>"

definition makeBDF :: "u8 \<Rightarrow> u8 \<Rightarrow> u8 \<Rightarrow> u32" where
  "makeBDF busNo device fn = push_bit 16 (ucast busNo) OR push_bit 8 (ucast device) OR ucast fn"

definition registerPciDevice :: "u8 \<Rightarrow> u8 \<Rightarrow> u8 \<Rightarrow> 'h \<Rightarrow> 'h Pchip \<Rightarrow> 'h Pchip" where
  "registerPciDevice busNo device fn h p = p\<lparr>m_pciDevices := (m_pciDevices p)(makeBDF busNo device fn \<mapsto> h)\<rparr>"

definition registerIoPortRange :: "u16 \<Rightarrow> u16 \<Rightarrow> 'h \<Rightarrow> 'h Pchip \<Rightarrow> 'h Pchip" where
  "registerIoPortRange startPort endPort h p =
     p\<lparr>m_ioPortRegistry := m_ioPortRegistry p @ [(startPort, endPort, h)]\<rparr>"

definition registerPciMemRange :: "u64 \<Rightarrow> u64 \<Rightarrow> 'h \<Rightarrow> 'h Pchip \<Rightarrow> 'h Pchip" where
  "registerPciMemRange startOff endOff h p =
    (if endOff \<le> startOff \<or> 0x10000 < endOff - startOff then p
     else p\<lparr>m_pciMemRegistry := m_pciMemRegistry p @ [(startOff, endOff, h)]\<rparr>)"

section \<open>Pchip registers\<close>

datatype PchipReg = R_WSBA nat | R_WSM nat | R_TBA nat | R_PCTL | R_PLAT | R_RES | R_PERROR | R_PERRMASK
  | R_PERRSET | R_TLBIV | R_TLBIA | R_PMONCTL | R_PMONCNT | R_SPRST

definition pchipRegs :: "(u64 \<times> PchipReg) list" where
  "pchipRegs = [(0x000, R_WSBA 0), (0x040, R_WSBA 1), (0x080, R_WSBA 2), (0x0C0, R_WSBA 3),
     (0x100, R_WSM 0), (0x140, R_WSM 1), (0x180, R_WSM 2), (0x1C0, R_WSM 3),
     (0x200, R_TBA 0), (0x240, R_TBA 1), (0x280, R_TBA 2), (0x2C0, R_TBA 3),
     (0x300, R_PCTL), (0x340, R_PLAT), (0x380, R_RES), (0x3C0, R_PERROR), (0x400, R_PERRMASK),
     (0x440, R_PERRSET), (0x480, R_TLBIV), (0x4C0, R_TLBIA), (0x500, R_PMONCTL), (0x540, R_PMONCNT),
     (0x800, R_SPRST)]"

definition readCSR :: "'h Pchip \<Rightarrow> u64 \<Rightarrow> u64" where
  "readCSR p off =
    (case map_of pchipRegs off of
       None \<Rightarrow> 0
     | Some (R_WSBA i) \<Rightarrow> m_wsba p ! i
     | Some (R_WSM i) \<Rightarrow> m_wsm p ! i
     | Some (R_TBA i) \<Rightarrow> m_tba p ! i
     | Some R_PCTL \<Rightarrow> m_pctl p
     | Some R_PLAT \<Rightarrow> m_plat p
     | Some R_RES \<Rightarrow> 0
     | Some R_PERROR \<Rightarrow> m_perror p
     | Some R_PERRMASK \<Rightarrow> m_perrmask p
     | Some R_PERRSET \<Rightarrow> 0
     | Some R_TLBIV \<Rightarrow> 0
     | Some R_TLBIA \<Rightarrow> 0
     | Some R_PMONCTL \<Rightarrow> m_pmonctl p
     | Some R_PMONCNT \<Rightarrow> m_pmoncnt p
     | Some R_SPRST \<Rightarrow> 0)"

definition writeCSR :: "u64 \<Rightarrow> u64 \<Rightarrow> 'h Pchip \<Rightarrow> 'h Pchip" where
  "writeCSR off v p =
    (case map_of pchipRegs off of
       None \<Rightarrow> p
     | Some (R_WSBA i) \<Rightarrow> p\<lparr>m_wsba := (m_wsba p)[i := v]\<rparr>
     | Some (R_WSM i) \<Rightarrow> p\<lparr>m_wsm := (m_wsm p)[i := v]\<rparr>
     | Some (R_TBA i) \<Rightarrow> p\<lparr>m_tba := (m_tba p)[i := v]\<rparr>
     | Some R_PCTL \<Rightarrow> p\<lparr>m_pctl := v\<rparr>
     | Some R_PLAT \<Rightarrow> p\<lparr>m_plat := v\<rparr>
     | Some R_RES \<Rightarrow> p
     | Some R_PERROR \<Rightarrow> p\<lparr>m_perror := m_perror p AND NOT v\<rparr>
     | Some R_PERRMASK \<Rightarrow> p\<lparr>m_perrmask := v\<rparr>
     | Some R_PERRSET \<Rightarrow> p\<lparr>m_perror := m_perror p OR v\<rparr>
     | Some R_TLBIV \<Rightarrow> p
     | Some R_TLBIA \<Rightarrow> p
     | Some R_PMONCTL \<Rightarrow> p\<lparr>m_pmonctl := v\<rparr>
     | Some R_PMONCNT \<Rightarrow> p
     | Some R_SPRST \<Rightarrow> p)"

section \<open>Device space\<close>

definition cfgKey :: "u64 \<Rightarrow> u32" where
  "cfgKey cfgOffset = makeBDF 0 (ucast (drop_bit 11 cfgOffset AND 0x1F)) (ucast (drop_bit 8 cfgOffset AND 0x07))"

definition readPciConfig0 :: "('h, 'd) Handlers \<Rightarrow> 'h Pchip \<Rightarrow> u64 \<Rightarrow> u8 \<Rightarrow> 'd \<Rightarrow> u64 \<times> 'd" where
  "readPciConfig0 hs p cfgOffset width d =
    (case m_pciDevices p (cfgKey cfgOffset) of
       None \<Rightarrow> (0xFFFFFFFF, d)
     | Some h \<Rightarrow> (case h_cfgRead hs h (ucast (cfgOffset AND 0xFF)) width d of (v, d1) \<Rightarrow> (ucast v, d1)))"

definition writePciConfig0 :: "('h, 'd) Handlers \<Rightarrow> 'h Pchip \<Rightarrow> u64 \<Rightarrow> u32 \<Rightarrow> u8 \<Rightarrow> 'd \<Rightarrow> 'd" where
  "writePciConfig0 hs p cfgOffset v width d =
    (case m_pciDevices p (cfgKey cfgOffset) of
       None \<Rightarrow> d | Some h \<Rightarrow> h_cfgWrite hs h (ucast (cfgOffset AND 0xFF)) v width d)"

definition portClaim :: "(u16 \<times> u16 \<times> 'h) list \<Rightarrow> u16 \<Rightarrow> 'h option" where
  "portClaim rs port = map_option (snd \<circ> snd) (find (\<lambda>(a, z, h). a \<le> port \<and> port < z) rs)"

definition readIoPort :: "('h, 'd) Handlers \<Rightarrow> 'h Pchip \<Rightarrow> u16 \<Rightarrow> u8 \<Rightarrow> 'd \<Rightarrow> u64 \<times> 'd" where
  "readIoPort hs p port width d =
    (case portClaim (m_ioPortRegistry p) port of None \<Rightarrow> (0xFF, d) | Some h \<Rightarrow> h_ioRead hs h port width d)"

definition writeIoPort :: "('h, 'd) Handlers \<Rightarrow> 'h Pchip \<Rightarrow> u16 \<Rightarrow> u64 \<Rightarrow> u8 \<Rightarrow> 'd \<Rightarrow> 'd" where
  "writeIoPort hs p port v width d =
    (case portClaim (m_ioPortRegistry p) port of None \<Rightarrow> d | Some h \<Rightarrow> h_ioWrite hs h port v width d)"

definition memClaim :: "(u64 \<times> u64 \<times> 'h) list \<Rightarrow> u64 \<Rightarrow> (u64 \<times> 'h) option" where
  "memClaim rs off = map_option (\<lambda>(a, z, h). (a, h)) (find (\<lambda>(a, z, h). a \<le> off \<and> off < z) rs)"

section \<open>Sparse space\<close>

definition decodePciAddr :: "u64 \<Rightarrow> u32" where
  "decodePciAddr sparseOffset = ucast (drop_bit 5 sparseOffset AND 0x00FFFFFF)"

definition decodeXferLen :: "u64 \<Rightarrow> u8" where
  "decodeXferLen sparseOffset = ucast (sparseOffset AND 0x07)"

definition xferLenToBytes :: "u8 \<Rightarrow> u8" where
  "xferLenToBytes xferLen = xferLen + 1"

definition readSparseMem :: "u64 \<Rightarrow> u64" where
  "readSparseMem sparseOffset = 0xFFFFFFFF"

definition readSparseIO :: "('h, 'd) Handlers \<Rightarrow> 'h Pchip \<Rightarrow> u64 \<Rightarrow> 'd \<Rightarrow> u64 \<times> 'd" where
  "readSparseIO hs p sparseOffset d =
     readIoPort hs p (ucast (decodePciAddr sparseOffset AND 0xFFFF)) (xferLenToBytes (decodeXferLen sparseOffset)) d"

definition writeSparseIO :: "('h, 'd) Handlers \<Rightarrow> 'h Pchip \<Rightarrow> u64 \<Rightarrow> u64 \<Rightarrow> 'd \<Rightarrow> 'd" where
  "writeSparseIO hs p sparseOffset v d =
     writeIoPort hs p (ucast (decodePciAddr sparseOffset AND 0xFFFF)) v (xferLenToBytes (decodeXferLen sparseOffset)) d"

section \<open>The window decode\<close>

definition pchip_read :: "('h, 'd) Handlers \<Rightarrow> 'h Pchip \<Rightarrow> u64 \<Rightarrow> u8 \<Rightarrow> 'd \<Rightarrow> u64 \<times> 'd" where
  "pchip_read hs p off width d =
    (if 0x100000000 \<le> off \<and> off < 0x140000000 then (0xFFFFFFFF, d)
     else if 0x200000000 \<le> off \<and> off < 0x400000000 then (0, d)
     else if 0x140000000 \<le> off \<and> off < 0x180000000 then (0xFFFFFFFF, d)
     else if 0x180000000 \<le> off \<and> off < 0x190000000 then (readCSR p (off - 0x180000000), d)
     else if 0x1FE000000 \<le> off \<and> off < 0x1FF000000 then readPciConfig0 hs p (off - 0x1FE000000) width d
     else if 0x1FC000000 \<le> off \<and> off < 0x1FE000000
     then readIoPort hs p (ucast ((off - 0x1FC000000) AND 0xFFFF)) width d
     else if off < 0x100000000 then
       (case memClaim (m_pciMemRegistry p) off of
          Some (a, h) \<Rightarrow> h_ioRead hs h (ucast (off - a)) width d
        | None \<Rightarrow> (0xFFFFFFFFFFFFFFFF, d))
     else (0, d))"

definition pchip_write :: "('h, 'd) Handlers \<Rightarrow> u64 \<Rightarrow> u64 \<Rightarrow> u8 \<Rightarrow> 'h Pchip \<times> 'd \<Rightarrow> 'h Pchip \<times> 'd" where
  "pchip_write hs off v width s =
    (case s of (p, d) \<Rightarrow>
     case (if off < 0x100000000 then memClaim (m_pciMemRegistry p) off else None) of
       Some (a, h) \<Rightarrow> (p, h_ioWrite hs h (ucast (off - a)) v width d)
     | None \<Rightarrow>
         if 0x100000000 \<le> off \<and> off < 0x140000000 then (p, d)
         else if 0x200000000 \<le> off \<and> off < 0x400000000 then (p, d)
         else if 0x140000000 \<le> off \<and> off < 0x180000000 then (p, d)
         else if 0x180000000 \<le> off \<and> off < 0x190000000 then (writeCSR (off - 0x180000000) v p, d)
         else if 0x1FE000000 \<le> off \<and> off < 0x1FF000000
         then (p, writePciConfig0 hs p (off - 0x1FE000000) (ucast v) width d)
         else if 0x1FC000000 \<le> off \<and> off < 0x1FE000000
         then (p, writeIoPort hs p (ucast ((off - 0x1FC000000) AND 0xFFFF)) v width d)
         else (p, d))"

section \<open>Snapshots\<close>

definition pchip_serialize :: "'h Pchip \<Rightarrow> u8 list" where
  "pchip_serialize p = concat (map put_u64 (m_wsba p)) @ concat (map put_u64 (m_wsm p)) @
     concat (map put_u64 (m_tba p)) @ put_u64 (m_pctl p) @ put_u64 (m_plat p) @ put_u64 (m_perror p) @
     put_u64 (m_perrmask p) @ put_u64 (m_pmonctl p) @ put_u64 (m_pmoncnt p)"

definition pchip_deserialize :: "'h Pchip \<Rightarrow> u8 list \<Rightarrow> 'h Pchip \<times> u8 list" where
  "pchip_deserialize p ds =
    (let (wsba, ds) = get_many get_u64 4 ds; (wsm, ds) = get_many get_u64 4 ds; (tba, ds) = get_many get_u64 4 ds;
         (pctl, ds) = get_u64 ds; (plat, ds) = get_u64 ds; (perror, ds) = get_u64 ds;
         (perrmask, ds) = get_u64 ds; (pmonctl, ds) = get_u64 ds; (pmoncnt, ds) = get_u64 ds
     in (p\<lparr>m_wsba := wsba, m_wsm := wsm, m_tba := tba, m_pctl := pctl, m_plat := plat, m_perror := perror,
           m_perrmask := perrmask, m_pmonctl := pmonctl, m_pmoncnt := pmoncnt\<rparr>, ds))"

section \<open>Register laws\<close>

definition pchip_wf :: "'h Pchip \<Rightarrow> bool" where
  "pchip_wf p \<longleftrightarrow> length (m_wsba p) = 4 \<and> length (m_wsm p) = 4 \<and> length (m_tba p) = 4"

lemma wf_writeCSR: "pchip_wf p \<Longrightarrow> pchip_wf (writeCSR off v p)"
  by (auto simp: writeCSR_def pchip_wf_def split: option.splits PchipReg.splits)

interpretation pchip_snap: snapshot_codec pchip_wf pchip_serialize pchip_deserialize
  "\<lambda>old p. p\<lparr>m_pciDevices := m_pciDevices old, m_ioPortRegistry := m_ioPortRegistry old,
      m_pciMemRegistry := m_pciMemRegistry old\<rparr>"
proof unfold_locales
  fix p old :: "'a Pchip" and rest
  assume "pchip_wf p"
  then have "get_many get_u64 4 (concat (map put_u64 (m_wsba p)) @ ds) = (m_wsba p, ds)"
    "get_many get_u64 4 (concat (map put_u64 (m_wsm p)) @ ds) = (m_wsm p, ds)"
    "get_many get_u64 4 (concat (map put_u64 (m_tba p)) @ ds) = (m_tba p, ds)" for ds
    using get_many_put [of get_u64 put_u64, OF get_put_u64] by (metis pchip_wf_def)+
  then show "pchip_deserialize old (pchip_serialize p @ rest) =
      (p\<lparr>m_pciDevices := m_pciDevices old, m_ioPortRegistry := m_ioPortRegistry old,
        m_pciMemRegistry := m_pciMemRegistry old\<rparr>, rest)"
    by (simp add: pchip_deserialize_def pchip_serialize_def)
qed

interpretation dchip_snap: snapshot_codec "\<lambda>_. True" dchip_serialize dchip_deserialize
  "\<lambda>old d. d\<lparr>d_variant := d_variant old\<rparr>"
  by unfold_locales (simp add: dchip_serialize_def dchip_deserialize_def)

section \<open>What the devices keep\<close>

text \<open>
  The contract between the Pchip and the devices behind it: a property of the device state that
  every handler keeps is kept by every access through the Pchip.
\<close>

locale device_space =
  fixes hs :: "('h, 'd) Handlers" and P :: "'d \<Rightarrow> bool"
  assumes io_read: "P d \<Longrightarrow> P (snd (h_ioRead hs h port w d))"
    and io_write: "P d \<Longrightarrow> P (h_ioWrite hs h port v w d)"
    and cfg_read: "P d \<Longrightarrow> P (snd (h_cfgRead hs h reg w d))"
    and cfg_write: "P d \<Longrightarrow> P (h_cfgWrite hs h reg x w d)"
begin

lemma io_port_read: "P d \<Longrightarrow> P (snd (readIoPort hs p port w d))"
  by (simp add: readIoPort_def io_read split: option.split)

lemma io_port_write: "P d \<Longrightarrow> P (writeIoPort hs p port v w d)"
  by (simp add: writeIoPort_def io_write split: option.split)

lemma sparse_read: "P d \<Longrightarrow> P (snd (readSparseIO hs p off d))"
  by (simp add: readSparseIO_def io_port_read)

lemma sparse_write: "P d \<Longrightarrow> P (writeSparseIO hs p off v d)"
  by (simp add: writeSparseIO_def io_port_write)

lemma config_read: "P d \<Longrightarrow> P (snd (readPciConfig0 hs p off w d))"
  using cfg_read [of d] by (auto simp: readPciConfig0_def split: option.split prod.split) (metis snd_conv)

lemma config_write: "P d \<Longrightarrow> P (writePciConfig0 hs p off x w d)"
  by (simp add: writePciConfig0_def cfg_write split: option.split)

lemma pci_window_read: "P d \<Longrightarrow> P (snd (pchip_read hs p off w d))"
  by (auto simp: pchip_read_def config_read io_port_read io_read split: option.split)

lemma pci_window_write: "P d \<Longrightarrow> P (snd (pchip_write hs off v w (p, d)))"
  by (auto simp: pchip_write_def config_write io_port_write io_write split: option.split)

lemma window_registers: "pchip_wf p \<Longrightarrow> pchip_wf (fst (pchip_write hs off v w (p, d)))"
  by (auto simp: pchip_write_def wf_writeCSR split: option.split)

end

end
