(* ===== verification/Uart.thy ===== *)
theory Uart
  imports DataStream
begin

text \<open>
  The 16550 UART of deviceLib/Tsunami/Uart16550.h: the register file with its read side
  effects, the interrupt line, the receive FIFO, the console-snapshot marker watch, the
  rewriting of the speed badge on the transmit stream and the snapshot format.  The bytes
  handed to the console backend are the list \<open>tx\<close>; whether a backend is attached, whether
  it is connected, the environment switches and the current effective clock in MHz are
  inputs.  The stderr mirror and the bring-up probes only log and are left out.
\<close>

section \<open>State\<close>

datatype BadgeState = Normal | Digits | Suffix

record Uart =
  backend :: bool
  m_basePort :: u16
  m_ier :: u8
  m_fcr :: u8
  m_lcr :: u8
  m_mcr :: u8
  m_scr :: u8
  m_dll :: u8
  m_dlm :: u8
  m_fifosEnabled :: bool
  m_threLatch :: bool
  m_lsrSticky :: u8
  m_rxFifo :: "u8 list"
  snapEnabled :: bool
  snapMarker :: "u8 list"
  m_snapLine :: "u8 list"
  m_snapRequest :: bool
  m_badgeState :: BadgeState
  m_badgePend :: "u8 list"
  m_badgeSuf :: "u8 list"
  tx :: "u8 list"

definition kRxFifoDepth :: nat where "kRxFifoDepth = 16"
definition kLCR_DLAB :: u8 where "kLCR_DLAB = 0x80"
definition kIER_ERBFI :: u8 where "kIER_ERBFI = 0x01"
definition kIER_ETBEI :: u8 where "kIER_ETBEI = 0x02"
definition kLSR_DR :: u8 where "kLSR_DR = 0x01"
definition kLSR_OE :: u8 where "kLSR_OE = 0x02"
definition kLSR_THRE :: u8 where "kLSR_THRE = 0x20"
definition kLSR_TEMT :: u8 where "kLSR_TEMT = 0x40"
definition kIIR_NO_INT :: u8 where "kIIR_NO_INT = 0x01"
definition kIIR_THRE :: u8 where "kIIR_THRE = 0x02"
definition kIIR_RXAVAIL :: u8 where "kIIR_RXAVAIL = 0x04"
definition kIIR_FIFO_ON :: u8 where "kIIR_FIFO_ON = 0xC0"

lemmas uart_consts [uart_defs] =
  kRxFifoDepth_def kLCR_DLAB_def kIER_ERBFI_def kIER_ETBEI_def kLSR_DR_def kLSR_OE_def
  kLSR_THRE_def kLSR_TEMT_def kIIR_NO_INT_def kIIR_THRE_def kIIR_RXAVAIL_def kIIR_FIFO_ON_def

definition uart_reset :: "Uart \<Rightarrow> Uart" where
  "uart_reset u = u\<lparr>m_ier := 0, m_fcr := 0, m_lcr := 0, m_mcr := 0, m_scr := 0,
     m_dll := 1, m_dlm := 0, m_fifosEnabled := False, m_threLatch := False,
     m_lsrSticky := 0, m_rxFifo := [], m_badgeState := Normal, m_badgePend := [],
     m_badgeSuf := []\<rparr>"

section \<open>Interrupt line and receive path\<close>

definition intPending :: "Uart \<Rightarrow> bool" where
  "intPending u =
     (let rx = (m_ier u AND kIER_ERBFI \<noteq> 0 \<and> m_rxFifo u \<noteq> []);
          thre = (m_ier u AND kIER_ETBEI \<noteq> 0 \<and> m_threLatch u)
      in rx \<or> thre)"

definition isBlank :: "u8 \<Rightarrow> bool" where
  "isBlank c \<longleftrightarrow> c = 0x20 \<or> c = 0x09"

definition trimLine :: "u8 list \<Rightarrow> u8 list" where
  "trimLine line = dropWhile isBlank (rev (dropWhile isBlank (rev line)))"

definition snapshotWatch :: "u8 \<Rightarrow> Uart \<Rightarrow> Uart" where
  "snapshotWatch byte u =
     (if \<not> snapEnabled u then u
      else if byte = 0x0D \<or> byte = 0x0A
      then let line = trimLine (m_snapLine u)
           in u\<lparr>m_snapLine := [],
                m_snapRequest := (if line = snapMarker u then True else m_snapRequest u)\<rparr>
      else if byte = 0x08 \<or> byte = 0x7F
      then (if m_snapLine u \<noteq> [] then u\<lparr>m_snapLine := butlast (m_snapLine u)\<rparr> else u)
      else if byte \<ge> 0x20 \<and> byte < 0x7F
      then (if length (m_snapLine u) < 128 then u\<lparr>m_snapLine := m_snapLine u @ [byte]\<rparr> else u)
      else u)"

definition feedRxByte :: "u8 \<Rightarrow> Uart \<Rightarrow> Uart" where
  "feedRxByte byte u0 =
     (let u = snapshotWatch byte u0
      in if length (m_rxFifo u) \<ge> kRxFifoDepth
         then u\<lparr>m_lsrSticky := m_lsrSticky u OR kLSR_OE\<rparr>
         else u\<lparr>m_rxFifo := m_rxFifo u @ [byte]\<rparr>)"

definition takeSnapshotRequest :: "Uart \<Rightarrow> bool \<times> Uart" where
  "takeSnapshotRequest u = (m_snapRequest u, u\<lparr>m_snapRequest := False\<rparr>)"

section \<open>Register reads\<close>

definition readRBR :: "Uart \<Rightarrow> u8 \<times> Uart" where
  "readRBR u = (case m_rxFifo u of [] \<Rightarrow> (0, u) | b # bs \<Rightarrow> (b, u\<lparr>m_rxFifo := bs\<rparr>))"

definition readLSR :: "Uart \<Rightarrow> u8 \<times> Uart" where
  "readLSR u =
     (let lsr = kLSR_THRE OR kLSR_TEMT OR m_lsrSticky u;
          lsr = (if m_rxFifo u \<noteq> [] then lsr OR kLSR_DR else lsr)
      in (lsr, u\<lparr>m_lsrSticky := 0\<rparr>))"

definition readIIR :: "Uart \<Rightarrow> u8 \<times> Uart" where
  "readIIR u =
     (let fifo = (if m_fifosEnabled u then kIIR_FIFO_ON else 0);
          rxPending = (m_ier u AND kIER_ERBFI \<noteq> 0 \<and> m_rxFifo u \<noteq> []);
          threPending = (m_ier u AND kIER_ETBEI \<noteq> 0 \<and> m_threLatch u)
      in if rxPending then (fifo OR kIIR_RXAVAIL, u)
         else if threPending then (fifo OR kIIR_THRE, u\<lparr>m_threLatch := False\<rparr>)
         else (fifo OR kIIR_NO_INT, u))"

definition readMSR :: "bool \<Rightarrow> Uart \<Rightarrow> u8" where
  "readMSR connected u = (if backend u \<and> connected then 0x30 OR 0x80 else 0x30)"

definition readRegister :: "bool \<Rightarrow> u8 \<Rightarrow> Uart \<Rightarrow> u8 \<times> Uart" where
  "readRegister connected reg u =
     (let dlab = (m_lcr u AND kLCR_DLAB \<noteq> 0)
      in if reg = 0 then (if dlab then (m_dll u, u) else readRBR u)
         else if reg = 1 then (if dlab then (m_dlm u, u) else (m_ier u, u))
         else if reg = 2 then readIIR u
         else if reg = 3 then (m_lcr u, u)
         else if reg = 4 then (m_mcr u, u)
         else if reg = 5 then readLSR u
         else if reg = 6 then (readMSR connected u, u)
         else if reg = 7 then (m_scr u, u)
         else (0xFF, u))"

section \<open>The transmit stream and its badge\<close>

definition kSuffix :: "u8 list" where
  "kSuffix = [0x20, 0x4D, 0x48, 0x7A]"

definition isDigit :: "u8 \<Rightarrow> bool" where
  "isDigit v \<longleftrightarrow> v \<ge> 0x30 \<and> v \<le> 0x39"

fun to_string :: "nat \<Rightarrow> u8 list" where
  "to_string n =
     (if n < 10 then [0x30 + of_nat n] else to_string (n div 10) @ [0x30 + of_nat (n mod 10)])"

declare to_string.simps [simp del]

definition badgeEmitByte :: "u8 \<Rightarrow> Uart \<Rightarrow> Uart" where
  "badgeEmitByte b u = (if backend u then u\<lparr>tx := tx u @ [b]\<rparr> else u)"

definition badgeEmitBytes :: "u8 list \<Rightarrow> Uart \<Rightarrow> Uart" where
  "badgeEmitBytes s u = fold badgeEmitByte s u"

definition badgeFlushPending :: "Uart \<Rightarrow> Uart" where
  "badgeFlushPending u0 =
     (let u = (if m_badgePend u0 \<noteq> [] then (badgeEmitBytes (m_badgePend u0) u0)\<lparr>m_badgePend := []\<rparr> else u0);
          u = (if m_badgeSuf u \<noteq> [] then (badgeEmitBytes (m_badgeSuf u) u)\<lparr>m_badgeSuf := []\<rparr> else u)
      in u\<lparr>m_badgeState := Normal\<rparr>)"

definition padLeft :: "nat \<Rightarrow> u8 list \<Rightarrow> u8 list" where
  "padLeft n rep = replicate (n - length rep) 0x20 @ rep"

definition badgeReplace :: "nat \<Rightarrow> Uart \<Rightarrow> Uart" where
  "badgeReplace mhz u =
     (let rep = padLeft (length (m_badgePend u)) (to_string mhz);
          u = badgeEmitBytes rep u;
          u = badgeEmitBytes (m_badgeSuf u) u
      in u\<lparr>m_badgePend := [], m_badgeSuf := [], m_badgeState := Normal\<rparr>)"

text \<open>
  One byte through the state machine.  The re-feeding of a mismatched suffix calls the
  function again; the first argument bounds that nesting and the value \<^term>\<open>None\<close> is
  running out of it.  Two levels are enough in every reachable state
  (\<open>badgeTxEmit_total\<close> below).
\<close>

fun foldM :: "('a \<Rightarrow> 's \<Rightarrow> 's option) \<Rightarrow> 'a list \<Rightarrow> 's \<Rightarrow> 's option" where
  "foldM f [] s = Some s"
| "foldM f (x # xs) s = (case f x s of None \<Rightarrow> None | Some s' \<Rightarrow> foldM f xs s')"

fun badgeTxEmit :: "nat \<Rightarrow> nat \<Rightarrow> u8 \<Rightarrow> Uart \<Rightarrow> Uart option" where
  "badgeTxEmit 0 mhz v u = None"
| "badgeTxEmit (Suc fuel) mhz v u =
     (case m_badgeState u of
        Normal \<Rightarrow>
          if isDigit v then Some (u\<lparr>m_badgePend := [v], m_badgeState := Digits\<rparr>)
          else Some (badgeEmitByte v u)
      | st \<Rightarrow>
          if st = Digits \<and> isDigit v
          then (if length (m_badgePend u) < 24 then Some (u\<lparr>m_badgePend := m_badgePend u @ [v]\<rparr>)
                else Some (badgeEmitByte v (badgeFlushPending u)))
          else let suf = (if st = Digits then [] else m_badgeSuf u) @ [v];
                   u = u\<lparr>m_badgeState := Suffix, m_badgeSuf := suf\<rparr>
               in if length suf \<le> length kSuffix \<and> take (length suf) kSuffix = suf
                  then (if length suf = length kSuffix then Some (badgeReplace mhz u) else Some u)
                  else let u = u\<lparr>m_badgeSuf := []\<rparr>;
                           u = (if m_badgePend u \<noteq> []
                                then (badgeEmitBytes (m_badgePend u) u)\<lparr>m_badgePend := []\<rparr> else u);
                           u = u\<lparr>m_badgeState := Normal\<rparr>
                       in foldM (badgeTxEmit fuel mhz) suf u)"

section \<open>Register writes\<close>

definition writeTHR :: "nat \<Rightarrow> u8 \<Rightarrow> Uart \<Rightarrow> Uart option" where
  "writeTHR mhz v u = map_option (\<lambda>u. u\<lparr>m_threLatch := True\<rparr>) (badgeTxEmit 2 mhz v u)"

definition writeIER :: "u8 \<Rightarrow> Uart \<Rightarrow> Uart" where
  "writeIER v u =
     (let prev = m_ier u;
          u = u\<lparr>m_ier := v AND 0x0F\<rparr>;
          etbeiRose = (prev AND kIER_ETBEI = 0 \<and> m_ier u AND kIER_ETBEI \<noteq> 0)
      in if etbeiRose then u\<lparr>m_threLatch := True\<rparr> else u)"

definition writeMCR :: "u8 \<Rightarrow> Uart \<Rightarrow> Uart" where
  "writeMCR v u = u\<lparr>m_mcr := v AND 0x1F\<rparr>"

definition writeFCR :: "u8 \<Rightarrow> Uart \<Rightarrow> Uart" where
  "writeFCR v u =
     (let u = u\<lparr>m_fifosEnabled := (v AND 0x01 \<noteq> 0)\<rparr>;
          u = (if v AND 0x02 \<noteq> 0 then u\<lparr>m_rxFifo := []\<rparr> else u)
      in u\<lparr>m_fcr := v AND 0xC9\<rparr>)"

definition writeRegister :: "nat \<Rightarrow> u8 \<Rightarrow> u8 \<Rightarrow> Uart \<Rightarrow> Uart option" where
  "writeRegister mhz reg v u =
     (let dlab = (m_lcr u AND kLCR_DLAB \<noteq> 0)
      in if reg = 0 then (if dlab then Some (u\<lparr>m_dll := v\<rparr>) else writeTHR mhz v u)
         else if reg = 1 then Some (if dlab then u\<lparr>m_dlm := v\<rparr> else writeIER v u)
         else if reg = 2 then Some (writeFCR v u)
         else if reg = 3 then Some (u\<lparr>m_lcr := v\<rparr>)
         else if reg = 4 then Some (writeMCR v u)
         else if reg = 7 then Some (u\<lparr>m_scr := v\<rparr>)
         else Some u)"

definition uart_ioRead :: "bool \<Rightarrow> u16 \<Rightarrow> Uart \<Rightarrow> u8 \<times> Uart" where
  "uart_ioRead connected port u = readRegister connected (ucast (port - m_basePort u)) u"

definition uart_ioWrite :: "nat \<Rightarrow> u16 \<Rightarrow> u64 \<Rightarrow> Uart \<Rightarrow> Uart option" where
  "uart_ioWrite mhz port v u =
     writeRegister mhz (ucast (port - m_basePort u)) (ucast (v AND 0xFF)) u"

section \<open>Snapshot\<close>

definition bool_byte :: "bool \<Rightarrow> u8" where
  "bool_byte b = (if b then 1 else 0)"

definition uart_serialize :: "Uart \<Rightarrow> u8 list" where
  "uart_serialize u =
     [m_ier u, m_fcr u, m_lcr u, m_mcr u, m_scr u, m_dll u, m_dlm u,
      bool_byte (m_fifosEnabled u), bool_byte (m_threLatch u), m_lsrSticky u]
     @ put_u32 (of_nat (length (m_rxFifo u))) @ m_rxFifo u"

fun get_bytes :: "nat \<Rightarrow> u8 list \<Rightarrow> u8 list \<times> u8 list" where
  "get_bytes 0 ds = ([], ds)"
| "get_bytes (Suc n) ds =
     (let (b, ds) = get_u8 ds; (bs, ds) = get_bytes n ds in (b # bs, ds))"

definition uart_deserialize :: "Uart \<Rightarrow> u8 list \<Rightarrow> Uart \<times> u8 list" where
  "uart_deserialize u ds =
     (let (ier, ds) = get_u8 ds; (fcr, ds) = get_u8 ds; (lcr, ds) = get_u8 ds;
          (mcr, ds) = get_u8 ds; (scr, ds) = get_u8 ds; (dll, ds) = get_u8 ds;
          (dlm, ds) = get_u8 ds; (fifosEn, ds) = get_u8 ds; (threLat, ds) = get_u8 ds;
          (sticky, ds) = get_u8 ds; (rxCount, ds) = get_u32 ds;
          (rx, ds) = get_bytes (min (unat rxCount) kRxFifoDepth) ds
      in (u\<lparr>m_ier := ier, m_fcr := fcr, m_lcr := lcr, m_mcr := mcr, m_scr := scr,
            m_dll := dll, m_dlm := dlm, m_fifosEnabled := (fifosEn \<noteq> 0),
            m_threLatch := (threLat \<noteq> 0), m_lsrSticky := sticky, m_rxFifo := rx\<rparr>, ds))"

section \<open>The badge state machine\<close>

definition badge_ok :: "Uart \<Rightarrow> bool" where
  "badge_ok u = (case m_badgeState u of
       Normal \<Rightarrow> m_badgePend u = [] \<and> m_badgeSuf u = []
     | Digits \<Rightarrow> m_badgePend u \<noteq> [] \<and> list_all isDigit (m_badgePend u) \<and>
                length (m_badgePend u) \<le> 24 \<and> m_badgeSuf u = []
     | Suffix \<Rightarrow> m_badgePend u \<noteq> [] \<and> list_all isDigit (m_badgePend u) \<and>
                length (m_badgePend u) \<le> 24 \<and> m_badgeSuf u \<in> {take 1 kSuffix, take 2 kSuffix, take 3 kSuffix})"

definition stream :: "Uart \<Rightarrow> u8 list" where
  "stream u = tx u @ m_badgePend u @ m_badgeSuf u"

definition badge_frame :: "Uart \<Rightarrow> Uart \<Rightarrow> bool" where
  "badge_frame u u' \<longleftrightarrow> u' = u\<lparr>m_badgeState := m_badgeState u', m_badgePend := m_badgePend u',
     m_badgeSuf := m_badgeSuf u', tx := tx u'\<rparr>"

lemma badgeEmitBytes_eq [simp]:
  "badgeEmitBytes s u = (if backend u then u\<lparr>tx := tx u @ s\<rparr> else u)"
proof -
  have "backend u \<Longrightarrow> fold badgeEmitByte s u = u\<lparr>tx := tx u @ s\<rparr>"
    by (induction s arbitrary: u) (simp_all add: badgeEmitByte_def)
  moreover have "\<not> backend u \<Longrightarrow> fold badgeEmitByte s u = u"
    by (induction s arbitrary: u) (simp_all add: badgeEmitByte_def)
  ultimately show ?thesis by (simp add: badgeEmitBytes_def)
qed

lemma badgeEmitByte_eq: "badgeEmitByte b u = badgeEmitBytes [b] u"
  by (simp add: badgeEmitByte_def)

lemma suffix_no_digit: "x \<in> set kSuffix \<Longrightarrow> \<not> isDigit x"
  by (auto simp: kSuffix_def isDigit_def)

lemma newline_not_suffix: "0x0A \<notin> set kSuffix"
  by (simp add: kSuffix_def)

lemma emit_normal:
  "m_badgeState u = Normal \<Longrightarrow> \<not> isDigit v \<Longrightarrow>
     badgeTxEmit (Suc n) mhz v u = Some (badgeEmitBytes [v] u)"
  by (simp add: badgeEmitByte_def)

lemma refeed:
  assumes "m_badgeState u = Normal" "\<forall>x \<in> set xs. \<not> isDigit x"
  shows "foldM (badgeTxEmit (Suc n) mhz) (xs @ ys) u = foldM (badgeTxEmit (Suc n) mhz) ys (badgeEmitBytes xs u)"
  using assms
proof (induction xs arbitrary: u)
  case (Cons x xs)
  have "badgeTxEmit (Suc n) mhz x u = Some (badgeEmitBytes [x] u)"
    using Cons.prems by (intro emit_normal) auto
  then show ?case using Cons by simp
qed simp

lemma badge_digits_step:
  assumes "badge_ok u" "m_badgeState u = Digits" "isDigit v"
  shows "\<exists>u'. badgeTxEmit 2 mhz v u = Some u' \<and> badge_ok u' \<and> badge_frame u u' \<and>
     (backend u \<longrightarrow> stream u' = stream u @ [v])"
  using assms by (auto simp: numeral_2_eq_2 badge_ok_def badge_frame_def stream_def badgeFlushPending_def badgeEmitByte_eq Let_def)

lemma badge_ok_suffix:
  assumes "badge_ok u" "m_badgeState u \<noteq> Normal"
  shows "m_badgeState u = Digits \<Longrightarrow> m_badgeSuf u = []" "m_badgePend u \<noteq> []"
    "length (m_badgeSuf u) < 4" "\<forall>x \<in> set (m_badgeSuf u). \<not> isDigit x"
proof -
  have "length kSuffix = 4" by (simp add: kSuffix_def)
  then show "m_badgeState u = Digits \<Longrightarrow> m_badgeSuf u = []" "m_badgePend u \<noteq> []" "length (m_badgeSuf u) < 4"
    using assms by (auto simp: badge_ok_def split: BadgeState.splits)
  have "set (m_badgeSuf u) \<subseteq> set kSuffix"
    using assms by (auto simp: badge_ok_def dest: in_set_takeD split: BadgeState.splits)
  then show "\<forall>x \<in> set (m_badgeSuf u). \<not> isDigit x" using suffix_no_digit by blast
qed

lemma badge_mismatch_step:
  assumes "badge_ok u" "m_badgeState u \<noteq> Normal" "\<not> (m_badgeState u = Digits \<and> isDigit v)"
    "take (Suc (length (m_badgeSuf u))) kSuffix \<noteq> m_badgeSuf u @ [v]"
  shows "\<exists>u'. badgeTxEmit 2 mhz v u = Some u' \<and> badge_ok u' \<and> badge_frame u u' \<and>
     (backend u \<longrightarrow> stream u' = stream u @ [v]) \<and> (\<not> isDigit v \<longrightarrow> m_badgePend u' = [] \<and> m_badgeSuf u' = [])"
proof -
  let ?u = "if backend u then u\<lparr>m_badgeSuf := [], tx := tx u @ m_badgePend u, m_badgePend := [], m_badgeState := Normal\<rparr>
      else u\<lparr>m_badgeSuf := [], m_badgePend := [], m_badgeState := Normal\<rparr>"
  note s = badge_ok_suffix [OF assms(1,2)]
  have "badgeTxEmit (Suc (Suc 0)) mhz v u = foldM (badgeTxEmit (Suc 0) mhz) (m_badgeSuf u @ [v]) ?u"
  proof (cases "m_badgeState u")
    case Normal then show ?thesis using assms(2) by simp
  next
    case Digits
    then have "\<not> isDigit v" "take (Suc 0) kSuffix \<noteq> [v]" "m_badgeSuf u = []" using assms(3,4) s(1) by auto
    with Digits show ?thesis using s(2) by (simp add: Let_def)
  next
    case Suffix
    then show ?thesis using assms(4) s(2) by (simp add: Let_def) 
  qed
  also have "\<dots> = badgeTxEmit (Suc 0) mhz v (badgeEmitBytes (m_badgeSuf u) ?u)"
    using refeed [of ?u "m_badgeSuf u" 0 mhz "[v]"] s(4) by (simp split: option.splits)
  finally have e: "badgeTxEmit (Suc (Suc 0)) mhz v u = badgeTxEmit (Suc 0) mhz v (badgeEmitBytes (m_badgeSuf u) ?u)" .
  show ?thesis
    unfolding numeral_2_eq_2 e by (auto simp: badge_ok_def badge_frame_def stream_def badgeEmitByte_eq isDigit_def)
qed

lemma badge_normal_step:
  assumes "badge_ok u" "m_badgeState u = Normal"
  shows "\<exists>u'. badgeTxEmit 2 mhz v u = Some u' \<and> badge_ok u' \<and> badge_frame u u' \<and>
     (backend u \<longrightarrow> stream u' = stream u @ [v]) \<and> (\<not> isDigit v \<longrightarrow> m_badgePend u' = [] \<and> m_badgeSuf u' = [])"
  using assms unfolding numeral_2_eq_2
  by (auto simp: badge_ok_def badge_frame_def stream_def badgeEmitByte_eq)

lemma badge_partial_step:
  assumes "badge_ok u" "m_badgeState u \<noteq> Normal" 
    "take (Suc (length (m_badgeSuf u))) kSuffix = m_badgeSuf u @ [v]" "m_badgeSuf u @ [v] \<noteq> kSuffix"
  shows "badgeTxEmit 2 mhz v u = Some (u\<lparr>m_badgeState := Suffix, m_badgeSuf := m_badgeSuf u @ [v]\<rparr>) \<and>
     badge_ok (u\<lparr>m_badgeState := Suffix, m_badgeSuf := m_badgeSuf u @ [v]\<rparr>)"
proof -
  note s = badge_ok_suffix [OF assms(1,2)]
  have l: "length kSuffix = 4" by (simp add: kSuffix_def)
  have v: "v \<in> set kSuffix" using assms(3) by (metis in_set_takeD list.set_intros(1) in_set_conv_decomp)
  then have nd: "\<not> isDigit v" by (rule suffix_no_digit)
  have n4: "length (m_badgeSuf u) \<noteq> 3"
  proof
    assume "length (m_badgeSuf u) = 3"
    moreover have "take (Suc 3) kSuffix = kSuffix" by (simp add: kSuffix_def)
    ultimately have "kSuffix = m_badgeSuf u @ [v]" using assms(3) by simp
    with assms(4) show False by simp
  qed
  have "badgeTxEmit (Suc (Suc 0)) mhz v u = Some (u\<lparr>m_badgeState := Suffix, m_badgeSuf := m_badgeSuf u @ [v]\<rparr>)"
    using assms(2,3) s n4 nd l by (cases "m_badgeState u") (simp_all add: Let_def)
  moreover have "badge_ok (u\<lparr>m_badgeState := Suffix, m_badgeSuf := m_badgeSuf u @ [v]\<rparr>)"
  proof -
    have "length (m_badgeSuf u) = 0 \<or> length (m_badgeSuf u) = 1 \<or> length (m_badgeSuf u) = 2"
      using s(3) n4 by linarith
    then have "Suc (length (m_badgeSuf u)) \<in> {1, 2, 3}" by (elim disjE) simp_all
    then obtain n where "n \<in> {1, 2, 3}" "m_badgeSuf u @ [v] = take n kSuffix" using assms(3) by metis
    then have "m_badgeSuf u @ [v] \<in> {take 1 kSuffix, take 2 kSuffix, take 3 kSuffix}" by blast
    then show ?thesis using assms(1,2) by (auto simp: badge_ok_def split: BadgeState.splits)
  qed
  ultimately show ?thesis unfolding numeral_2_eq_2 by blast
qed

lemma badge_full_step:
  assumes "badge_ok u" "m_badgeState u = Suffix" "m_badgeSuf u @ [v] = kSuffix"
  shows "\<exists>u'. badgeTxEmit 2 mhz v u = Some u' \<and> badge_ok u' \<and> badge_frame u u' \<and>
     (backend u \<longrightarrow> stream u' = tx u @ padLeft (length (m_badgePend u)) (to_string mhz) @ kSuffix)
     \<and> m_badgePend u' = [] \<and> m_badgeSuf u' = []"
proof -
  let ?u = "u\<lparr>m_badgeState := Suffix, m_badgeSuf := kSuffix\<rparr>"
  have "badgeTxEmit (Suc (Suc 0)) mhz v u = Some (badgeReplace mhz ?u)"
    by (simp add: assms(2,3) Let_def)
  moreover have "badge_ok (badgeReplace mhz ?u)" "badge_frame u (badgeReplace mhz ?u)"
    "m_badgePend (badgeReplace mhz ?u) = []" "m_badgeSuf (badgeReplace mhz ?u) = []"
    "backend u \<longrightarrow> stream (badgeReplace mhz ?u) = tx u @ padLeft (length (m_badgePend u)) (to_string mhz) @ kSuffix"
    by (simp_all add: badgeReplace_def Let_def badge_ok_def badge_frame_def stream_def)
  ultimately show ?thesis unfolding numeral_2_eq_2 by blast
qed

lemma badge_step:
  assumes "badge_ok u" 
  shows "\<exists>u'. badgeTxEmit 2 mhz v u = Some u' \<and> badge_ok u' \<and> badge_frame u u' \<and>
     (backend u \<longrightarrow> stream u' = (if m_badgeState u = Suffix \<and> m_badgeSuf u @ [v] = kSuffix
         then tx u @ padLeft (length (m_badgePend u)) (to_string mhz) @ kSuffix else stream u @ [v])) \<and>
     (v = 0x0A \<longrightarrow> m_badgePend u' = [] \<and> m_badgeSuf u' = [])"
proof -
  consider "m_badgeState u = Normal" | "m_badgeState u = Digits" "isDigit v"
    | "m_badgeState u \<noteq> Normal" "\<not> (m_badgeState u = Digits \<and> isDigit v)" "take (Suc (length (m_badgeSuf u))) kSuffix \<noteq> m_badgeSuf u @ [v]"
    | "m_badgeState u \<noteq> Normal" "take (Suc (length (m_badgeSuf u))) kSuffix = m_badgeSuf u @ [v]" "m_badgeSuf u @ [v] \<noteq> kSuffix"
    | "m_badgeState u = Suffix" "m_badgeSuf u @ [v] = kSuffix"
    using badge_ok_suffix [OF assms] by (cases "m_badgeState u") (auto simp: kSuffix_def)
  then show ?thesis
  proof cases
    case 1 then show ?thesis using badge_normal_step [OF assms 1, of mhz v] by (auto simp: isDigit_def)
  next
    case 2 then show ?thesis using badge_digits_step [OF assms 2, of mhz] by (auto simp: isDigit_def)
  next
    case 3
    have "m_badgeSuf u @ [v] \<noteq> kSuffix" using 3(3) by (auto simp: kSuffix_def)
    then show ?thesis using badge_mismatch_step [OF assms 3, of mhz] by (auto simp: isDigit_def)
  next
    case 4
    have "v \<noteq> 0x0A" using 4(2) 
      by (metis in_set_takeD list.set_intros(1) in_set_conv_decomp newline_not_suffix)
    then show ?thesis using badge_partial_step [OF assms 4, of mhz] 4(3) by (auto simp: badge_frame_def stream_def)
  next
    case 5 then show ?thesis using badge_full_step [OF assms 5, of mhz] by auto
  qed
qed

section \<open>The receive FIFO\<close>

locale bounded_fifo =
  fixes cap :: nat
    and contents :: "'s \<Rightarrow> 'b list"
    and push :: "'b \<Rightarrow> 's \<Rightarrow> 's"
    and pop :: "'s \<Rightarrow> 'b \<times> 's"
  assumes push_room: "length (contents s) < cap \<Longrightarrow> contents (push b s) = contents s @ [b]"
    and push_full: "length (contents s) \<ge> cap \<Longrightarrow> contents (push b s) = contents s"
    and pop_head: "contents s = b # bs \<Longrightarrow> fst (pop s) = b \<and> contents (snd (pop s)) = bs"
begin

fun pop_all :: "nat \<Rightarrow> 's \<Rightarrow> 'b list \<times> 's" where
  "pop_all 0 s = ([], s)"
| "pop_all (Suc n) s = (let (b, s1) = pop s; (bs, s2) = pop_all n s1 in (b # bs, s2))"

lemma contents_feed: "contents (fold push bs s) = take cap (contents s @ bs)"
  if "length (contents s) \<le> cap"
  using that
proof (induction bs arbitrary: s)
  case (Cons b bs)
  show ?case
  proof (cases "length (contents s) < cap")
    case True
    then show ?thesis using Cons.IH [of "push b s"] push_room [of s b] by simp
  next
    case False
    then show ?thesis using Cons push_full [of s b] by simp
  qed
qed simp

lemma pop_all_contents: "n \<le> length (contents s) \<Longrightarrow>
    fst (pop_all n s) = take n (contents s) \<and> contents (snd (pop_all n s)) = drop n (contents s)"
proof (induction n arbitrary: s)
  case (Suc n)
  then obtain b bs where "contents s = b # bs" by (cases "contents s") auto
  then show ?case using pop_head [of s b bs] Suc by (simp add: case_prod_beta)
qed simp

lemma feed_then_drain:
  "contents s = [] \<Longrightarrow> length bs \<le> cap \<Longrightarrow> fst (pop_all (length bs) (fold push bs s)) = bs"
  using contents_feed [of s bs] pop_all_contents [of "length bs" "fold push bs s"] by simp

end

lemma snapshotWatch_frame:
  "snapshotWatch b u = u\<lparr>m_snapLine := m_snapLine (snapshotWatch b u),
     m_snapRequest := m_snapRequest (snapshotWatch b u)\<rparr>"
  by (simp add: snapshotWatch_def Let_def)

lemma snapshotWatch_rx [simp]:
  "m_rxFifo (snapshotWatch b u) = m_rxFifo u" "m_lsrSticky (snapshotWatch b u) = m_lsrSticky u"
  by (subst snapshotWatch_frame, simp)+

interpretation rx: bounded_fifo kRxFifoDepth m_rxFifo feedRxByte readRBR
  by unfold_locales (auto simp: feedRxByte_def readRBR_def Let_def)

section \<open>The invariant\<close>

definition uart_ok :: "Uart \<Rightarrow> bool" where
  "uart_ok u \<longleftrightarrow> m_ier u AND 0xF0 = 0 \<and> m_mcr u AND 0xE0 = 0 \<and> m_fcr u AND 0x36 = 0 \<and>
     (m_lsrSticky u = 0 \<or> m_lsrSticky u = kLSR_OE) \<and> length (m_rxFifo u) \<le> kRxFifoDepth \<and>
     length (m_snapLine u) \<le> 128 \<and> badge_ok u"

datatype uart_op = ReadReg bool u8 | WriteReg nat u8 u8 | FeedRx u8 | TakeSnapshot | ResetUart

fun uart_step :: "uart_op \<Rightarrow> Uart \<Rightarrow> Uart option" where
  "uart_step (ReadReg connected reg) u = Some (snd (readRegister connected reg u))"
| "uart_step (WriteReg mhz reg v) u = writeRegister mhz reg v u"
| "uart_step (FeedRx b) u = Some (feedRxByte b u)"
| "uart_step TakeSnapshot u = Some (snd (takeSnapshotRequest u))"
| "uart_step ResetUart u = Some (uart_reset u)"

lemma and_masks0: "(v AND 0x0F) AND 0xF0 = (0 :: u8)" "(v AND 0x1F) AND 0xE0 = (0 :: u8)" "(v AND 0xC9) AND 0x36 = (0 :: u8)"
  by (simp_all add: and.assoc)

lemma uart_ok_cong:
  assumes "m_ier u' = m_ier u" "m_mcr u' = m_mcr u" "m_fcr u' = m_fcr u" "m_lsrSticky u' = m_lsrSticky u"
    "m_rxFifo u' = m_rxFifo u" "m_snapLine u' = m_snapLine u" "badge_ok u'"
  shows "uart_ok u \<Longrightarrow> uart_ok u'"
  using assms by (simp add: uart_ok_def)

lemma snapLine_len: "length (m_snapLine u) \<le> 128 \<Longrightarrow> length (m_snapLine (snapshotWatch b u)) \<le> 128"
  by (auto simp: snapshotWatch_def Let_def)

lemma badge_ok_cong:
  "m_badgeState u' = m_badgeState u \<Longrightarrow> m_badgePend u' = m_badgePend u \<Longrightarrow> m_badgeSuf u' = m_badgeSuf u \<Longrightarrow>
   badge_ok u' = badge_ok u"
  by (cases "m_badgeState u") (simp_all add: badge_ok_def)

lemma snapshotWatch_fields:
  "m_ier (snapshotWatch b u) = m_ier u" "m_mcr (snapshotWatch b u) = m_mcr u" "m_fcr (snapshotWatch b u) = m_fcr u"
  "m_badgeState (snapshotWatch b u) = m_badgeState u" "m_badgePend (snapshotWatch b u) = m_badgePend u" "m_badgeSuf (snapshotWatch b u) = m_badgeSuf u"
  by (subst snapshotWatch_frame, simp)+

lemma feedRxByte_ok: "uart_ok u \<Longrightarrow> uart_ok (feedRxByte b u)"
  using badge_ok_cong [of "feedRxByte b u" u]
  by (auto simp: uart_ok_def feedRxByte_def Let_def snapshotWatch_fields snapLine_len kLSR_OE_def)

lemma readRBR_ok: "uart_ok u \<Longrightarrow> uart_ok (snd (readRBR u))"
  using badge_ok_cong [of "snd (readRBR u)" u] by (auto simp: readRBR_def uart_ok_def split: list.splits)

lemma readLSR_ok: "uart_ok u \<Longrightarrow> uart_ok (snd (readLSR u))"
  using badge_ok_cong [of "snd (readLSR u)" u] by (simp add: readLSR_def uart_ok_def Let_def)

lemma readIIR_ok: "uart_ok u \<Longrightarrow> uart_ok (snd (readIIR u))"
  using badge_ok_cong [of "snd (readIIR u)" u] by (simp add: readIIR_def uart_ok_def Let_def)

lemma readRegister_ok: "uart_ok u \<Longrightarrow> uart_ok (snd (readRegister c r u))"
  by (simp add: readRegister_def Let_def readRBR_ok readLSR_ok readIIR_ok)

lemma badge_frame_fields:
  assumes "badge_frame u u'"
  shows "m_ier u' = m_ier u" "m_mcr u' = m_mcr u" "m_fcr u' = m_fcr u" "m_lsrSticky u' = m_lsrSticky u"
    "m_rxFifo u' = m_rxFifo u" "m_snapLine u' = m_snapLine u" "backend u' = backend u"
proof -
  have eq: "u' = u\<lparr>m_badgeState := m_badgeState u', m_badgePend := m_badgePend u',
     m_badgeSuf := m_badgeSuf u', tx := tx u'\<rparr>" using assms by (simp only: badge_frame_def)
  show "m_ier u' = m_ier u" "m_mcr u' = m_mcr u" "m_fcr u' = m_fcr u" "m_lsrSticky u' = m_lsrSticky u"
    "m_rxFifo u' = m_rxFifo u" "m_snapLine u' = m_snapLine u" "backend u' = backend u"
    by (subst eq, simp)+
qed

lemma writeTHR_ok: 
  assumes "uart_ok u" shows "\<exists>u'. writeTHR mhz v u = Some u' \<and> uart_ok u'"
proof -
  have "badge_ok u" using assms by (simp add: uart_ok_def)
  then obtain u' where u': "badgeTxEmit 2 mhz v u = Some u'" "badge_ok u'" "badge_frame u u'"
    using badge_step [of u mhz v] by blast
  then have f: "m_ier u' = m_ier u" "m_mcr u' = m_mcr u" "m_fcr u' = m_fcr u" "m_lsrSticky u' = m_lsrSticky u"
    "m_rxFifo u' = m_rxFifo u" "m_snapLine u' = m_snapLine u"
    by (simp_all only: badge_frame_fields)
  have "badge_ok (u'\<lparr>m_threLatch := True\<rparr>)" using u'(2) badge_ok_cong [of "u'\<lparr>m_threLatch := True\<rparr>" u'] by simp
  then have "uart_ok (u'\<lparr>m_threLatch := True\<rparr>)" using assms f by (simp add: uart_ok_def)
  then show ?thesis using u'(1) by (simp add: writeTHR_def)
qed

lemma writeRegister_ok: 
  assumes "uart_ok u" shows "\<exists>u'. writeRegister mhz r v u = Some u' \<and> uart_ok u'"
proof -
  have c: "uart_ok (writeIER v u)" "uart_ok (writeFCR v u)" "uart_ok (writeMCR v u)" "uart_ok (u\<lparr>m_dll := v\<rparr>)"
    "uart_ok (u\<lparr>m_dlm := v\<rparr>)" "uart_ok (u\<lparr>m_lcr := v\<rparr>)" "uart_ok (u\<lparr>m_scr := v\<rparr>)"
    using assms badge_ok_cong [of "writeIER v u" u] badge_ok_cong [of "writeFCR v u" u]
      badge_ok_cong [of "writeMCR v u" u] badge_ok_cong [of "u\<lparr>m_dll := v\<rparr>" u]
      badge_ok_cong [of "u\<lparr>m_dlm := v\<rparr>" u] badge_ok_cong [of "u\<lparr>m_lcr := v\<rparr>" u]
      badge_ok_cong [of "u\<lparr>m_scr := v\<rparr>" u]
    by (simp_all add: uart_ok_def writeIER_def writeFCR_def writeMCR_def Let_def and_masks0)
  then show ?thesis using writeTHR_ok [OF assms] assms by (simp add: writeRegister_def Let_def)
qed

lemma uart_step_ok: "uart_ok u \<Longrightarrow> \<exists>u'. uart_step x u = Some u' \<and> uart_ok u'"
proof (cases x)
  case TakeSnapshot
  then show "uart_ok u \<Longrightarrow> ?thesis" using badge_ok_cong [of "snd (takeSnapshotRequest u)" u]
    by (simp add: takeSnapshotRequest_def uart_ok_def)
next
  case ResetUart
  then show "uart_ok u \<Longrightarrow> ?thesis" by (simp add: uart_reset_def uart_ok_def badge_ok_def)
qed (simp_all add: readRegister_ok writeRegister_ok feedRxByte_ok)

lemma get_bytes_append: "get_bytes (length bs) (bs @ rest) = (bs, rest)"
  by (induction bs) simp_all

definition uart_restore :: "Uart \<Rightarrow> Uart \<Rightarrow> Uart" where
  "uart_restore u0 u = u0\<lparr>m_ier := m_ier u, m_fcr := m_fcr u, m_lcr := m_lcr u, m_mcr := m_mcr u,
     m_scr := m_scr u, m_dll := m_dll u, m_dlm := m_dlm u, m_fifosEnabled := m_fifosEnabled u,
     m_threLatch := m_threLatch u, m_lsrSticky := m_lsrSticky u, m_rxFifo := m_rxFifo u\<rparr>"

lemma uart_load_save:
  assumes "uart_ok u" shows "uart_deserialize u0 (uart_serialize u @ rest) = (uart_restore u0 u, rest)"
proof -
  have l: "length (m_rxFifo u) \<le> 16" using assms by (simp add: uart_ok_def kRxFifoDepth_def)
  then have c: "unat (of_nat (length (m_rxFifo u)) :: u32) = length (m_rxFifo u)"
    by (simp add: unsigned_of_nat take_bit_nat_eq_self_iff)
  have "(bool_byte b \<noteq> 0) = b" for b by (simp add: bool_byte_def)
  then show ?thesis using l
    by (simp add: uart_deserialize_def uart_serialize_def uart_restore_def c get_bytes_append kRxFifoDepth_def min_def)
qed

interpretation uart_snap: snapshot_codec uart_ok uart_serialize uart_deserialize uart_restore
  by unfold_locales (rule uart_load_save)

lemma iir_pending: "intPending u \<longleftrightarrow> fst (readIIR u) AND 1 = 0"
  by (simp add: intPending_def readIIR_def Let_def uart_defs)

text \<open>Reading the receive buffer several times in a row.\<close>

fun drainRBR :: "nat \<Rightarrow> Uart \<Rightarrow> u8 list \<times> Uart" where
  "drainRBR 0 u = ([], u)"
| "drainRBR (Suc n) u = (let (b, u1) = readRBR u; (bs, u2) = drainRBR n u1 in (b # bs, u2))"

lemma drainRBR_pop_all: "drainRBR n u = rx.pop_all n u"
  by (induction n arbitrary: u) (simp_all add: case_prod_beta)

definition freshUart :: Uart where
  "freshUart = \<lparr>backend = True, m_basePort = 0x3F8, m_ier = 0, m_fcr = 0, m_lcr = 0, m_mcr = 0,
     m_scr = 0, m_dll = 1, m_dlm = 0, m_fifosEnabled = False, m_threLatch = False, m_lsrSticky = 0,
     m_rxFifo = [], snapEnabled = False, snapMarker = [], m_snapLine = [], m_snapRequest = False,
     m_badgeState = Normal, m_badgePend = [], m_badgeSuf = [], tx = []\<rparr>"

lemma freshUart_ok: "uart_ok freshUart" "badge_ok freshUart"
  by (simp_all add: freshUart_def uart_ok_def badge_ok_def)

section \<open>Properties\<close>

text \<open>
  Every operation of the UART returns and keeps the invariant: the interrupt-enable,
  modem-control and FIFO-control registers hold only their implemented bits, the sticky line
  status is clear or overrun, the receive FIFO holds at most sixteen bytes, and the withheld
  badge bytes are a digit run followed by a proper prefix of the suffix.
\<close>

theorem uart_invariant:
  "uart_ok u \<Longrightarrow> \<exists>u'. uart_step x u = Some u' \<and> uart_ok u'"
  by (rule uart_step_ok)

theorem uart_invariant_witness:
  "\<exists>u'. uart_step (WriteReg 500 0 0x41) freshUart = Some u' \<and> uart_ok u'"
  by (rule uart_invariant [OF freshUart_ok(1)])

text \<open>
  C26. The badge rewriting loses, duplicates and reorders no byte: after each transmitted byte
  the bytes sent so far followed by the withheld ones are the previous ones and the new byte,
  except that completing a digits-space-MHz token replaces the withheld digits by the current
  speed, padded to their width.  A newline leaves nothing withheld, and nothing but the
  transmit side changes.
\<close>

theorem badge_stream_preserved:
  assumes "badge_ok u"
  shows "\<exists>u'. badgeTxEmit 2 mhz v u = Some u' \<and> badge_ok u' \<and> badge_frame u u' \<and>
     (backend u \<longrightarrow> stream u' =
        (if m_badgeState u = Suffix \<and> m_badgeSuf u @ [v] = kSuffix
         then tx u @ padLeft (length (m_badgePend u)) (to_string mhz) @ kSuffix
         else stream u @ [v])) \<and>
     (v = 0x0A \<longrightarrow> m_badgePend u' = [] \<and> m_badgeSuf u' = [])"
  by (rule badge_step [OF assms])

theorem badge_stream_preserved_witness:
  "badge_ok freshUart \<and> (\<exists>u'. badgeTxEmit 2 100 0x0A freshUart = Some u' \<and> stream u' = [0x0A])"
  using badge_stream_preserved [OF freshUart_ok(2), of 100 "0x0A"] freshUart_ok
  by (auto simp: freshUart_def stream_def)

text \<open>
  The receive FIFO delivers in order: bytes fed into an empty FIFO, at most sixteen, are
  what the same number of receive-buffer reads return; feeding a full FIFO drops the byte and
  sets the overrun bit, which one line-status read reports and clears.
\<close>

theorem rx_fifo_order:
  "(m_rxFifo u = [] \<and> length bs \<le> kRxFifoDepth \<longrightarrow>
      fst (drainRBR (length bs) (fold feedRxByte bs u)) = bs) \<and>
   (length (m_rxFifo w) \<ge> kRxFifoDepth \<longrightarrow>
      m_rxFifo (feedRxByte b w) = m_rxFifo w \<and>
      fst (readLSR (feedRxByte b w)) AND kLSR_OE \<noteq> 0 \<and>
      fst (readLSR (snd (readLSR (feedRxByte b w)))) AND kLSR_OE = 0)"
proof (intro conjI impI)
  show "m_rxFifo u = [] \<and> length bs \<le> kRxFifoDepth \<Longrightarrow>
      fst (drainRBR (length bs) (fold feedRxByte bs u)) = bs"
    unfolding drainRBR_pop_all by (intro rx.feed_then_drain) simp_all
next
  assume full: "length (m_rxFifo w) \<ge> kRxFifoDepth"
  show "m_rxFifo (feedRxByte b w) = m_rxFifo w" by (rule rx.push_full [OF full])
  show "fst (readLSR (feedRxByte b w)) AND kLSR_OE \<noteq> 0"
    using full by (simp add: feedRxByte_def readLSR_def Let_def kLSR_OE_def bit.conj_disj_distrib2 or_eq_0_iff)
  show "fst (readLSR (snd (readLSR (feedRxByte b w)))) AND kLSR_OE = 0"
    by (simp add: readLSR_def Let_def uart_defs)
qed

theorem rx_fifo_order_witness:
  "fst (drainRBR 3 (fold feedRxByte [0x61, 0x62, 0x63] freshUart)) = [0x61, 0x62, 0x63] \<and>
   fst (readLSR (feedRxByte 7 (freshUart\<lparr>m_rxFifo := replicate 16 0\<rparr>))) AND kLSR_OE \<noteq> 0"
  using rx_fifo_order [of freshUart "[0x61, 0x62, 0x63]" "freshUart\<lparr>m_rxFifo := replicate 16 0\<rparr>" 7]
  by (simp add: freshUart_def kRxFifoDepth_def numeral_3_eq_3)

text \<open>
  The interrupt line and the identification register agree: the line is asserted exactly
  when the register reports an interrupt (bit 0 clear); received data is reported before an
  empty transmitter; reporting the latter clears it, so that the line falls unless data waits;
  and enabling the transmitter interrupt raises the line at once.
\<close>

theorem interrupt_identification:
  "(intPending u \<longleftrightarrow> fst (readIIR u) AND 1 = 0) \<and>
   (m_ier u AND kIER_ERBFI \<noteq> 0 \<and> m_rxFifo u \<noteq> [] \<longrightarrow>
      fst (readIIR u) AND 0x0F = kIIR_RXAVAIL \<and> snd (readIIR u) = u) \<and>
   (fst (readIIR u) AND 0x0F = kIIR_THRE \<longrightarrow> \<not> intPending (snd (readIIR u))) \<and>
   (m_ier u AND kIER_ETBEI = 0 \<and> v AND kIER_ETBEI \<noteq> 0 \<longrightarrow> intPending (writeIER v u))"
proof -
  have m: "(v AND 0x0F) AND 2 = v AND 2" by (simp add: and.assoc)
  show ?thesis
    using iir_pending [of u]
    by (auto simp: intPending_def readIIR_def writeIER_def Let_def uart_defs m)
qed

theorem interrupt_identification_witness:
  "intPending (writeIER 0x03 freshUart) \<and>
   fst (readIIR (freshUart\<lparr>m_ier := 1, m_rxFifo := [0x61]\<rparr>)) AND 0x0F = kIIR_RXAVAIL"
  using interrupt_identification [of freshUart "0x03"]
    interrupt_identification [of "freshUart\<lparr>m_ier := 1, m_rxFifo := [0x61]\<rparr>" 0]
  by (simp add: freshUart_def uart_defs)

text \<open>
  A saved UART is restored: loading the saved bytes into any device object, with whatever
  follows them in the stream, consumes exactly them, sets every guest-visible register and the
  FIFO to the saved values and so restores the interrupt line; a row of saved UARTs is loaded
  back in order.
\<close>

theorem uart_snapshot_roundtrip:
  "(uart_ok u \<longrightarrow> uart_deserialize u0 (uart_serialize u @ rest) = (uart_restore u0 u, rest) \<and>
      intPending (uart_restore u0 u) = intPending u) \<and>
   (list_all uart_ok us \<and> length olds = length us \<longrightarrow>
      uart_snap.load_all olds (concat (map uart_serialize us) @ rest) =
        (map2 uart_restore olds us, rest))"
  using uart_load_save [of u u0 rest] uart_snap.load_all_save [of us olds rest]
  by (auto simp: intPending_def uart_restore_def)

theorem uart_snapshot_roundtrip_witness:
  "uart_deserialize freshUart (uart_serialize (freshUart\<lparr>m_ier := 3\<rparr>) @ [1, 2]) =
     (uart_restore freshUart (freshUart\<lparr>m_ier := 3\<rparr>), [1, 2])"
  using uart_snapshot_roundtrip [of "freshUart\<lparr>m_ier := 3\<rparr>" freshUart "[1, 2]" "[]" "[]"]
  by (simp add: uart_ok_def badge_ok_def freshUart_def)

end
