(* ===== verification/Pic.thy ===== *)
theory Pic
  imports DataStream
begin

text \<open>
  The cascaded pair of 8259 interrupt controllers of chipsetLib/Pic8259Pair.h: edge capture,
  masking, fixed-priority resolution with in-service suppression, the cascade through master
  input 2, acknowledge, end of interrupt, the ICW initialisation sequence, polling, the port
  surface and the snapshot format.  The code's level -1 (nothing pending) is \<^term>\<open>None\<close>.
  The trace prints and one-shot probes only log and are left out.
\<close>

section \<open>State\<close>

datatype InitState = Idle | ExpectIcw2 | ExpectIcw3 | ExpectIcw4 | Ready | Unnamed u8

record Unit =
  irr :: u8
  isr :: u8
  imr :: u8
  icw2 :: u8
  icw3 :: u8
  icw4 :: u8
  initState :: InitState
  readIsrSelected :: bool
  pollArmed :: bool
  ltim :: bool

record Pic8259Pair =
  master :: Unit
  slave :: Unit
  elcr0 :: u8
  elcr1 :: u8
  m_lastInput :: "bool list"

definition resetUnit :: Unit where
  "resetUnit = \<lparr>irr = 0, isr = 0, imr = 0xFF, icw2 = 0, icw3 = 0, icw4 = 0, initState = Idle,
     readIsrSelected = False, pollArmed = False, ltim = False\<rparr>"

definition pic_reset :: Pic8259Pair where
  "pic_reset = \<lparr>master = resetUnit, slave = resetUnit, elcr0 = 0, elcr1 = 0,
     m_lastInput = replicate 16 False\<rparr>"

section \<open>Inputs and pending resolution\<close>

definition setIrqInput :: "nat \<Rightarrow> bool \<Rightarrow> Pic8259Pair \<Rightarrow> Pic8259Pair" where
  "setIrqInput line level p =
     (let idx = line mod 16;
          prev = m_lastInput p ! idx;
          p = p\<lparr>m_lastInput := (m_lastInput p)[idx := level]\<rparr>
      in if level \<and> \<not> prev
         then (if idx div 8 = 0
               then p\<lparr>master := (master p)\<lparr>irr := irr (master p) OR push_bit (idx mod 8) 1\<rparr>\<rparr>
               else p\<lparr>slave := (slave p)\<lparr>irr := irr (slave p) OR push_bit (idx mod 8) 1\<rparr>\<rparr>)
         else p)"

fun scanLevels :: "u8 \<Rightarrow> u8 \<Rightarrow> nat list \<Rightarrow> nat option" where
  "scanLevels req inService [] = None"
| "scanLevels req inService (lvl # lvls) =
     (if inService AND push_bit lvl 1 \<noteq> 0 then None
      else if req AND push_bit lvl 1 \<noteq> 0 then Some lvl
      else scanLevels req inService lvls)"

definition unitPending :: "Unit \<Rightarrow> u8 \<Rightarrow> nat option" where
  "unitPending u extraIrr =
     (if initState u \<noteq> Ready then None
      else let req = (irr u OR extraIrr) AND NOT (imr u)
           in if req = 0 then None else scanLevels req (isr u) [0..<8])"

definition pendingLevel :: "Pic8259Pair \<Rightarrow> nat option" where
  "pendingLevel p =
     (let slaveLvl = unitPending (slave p) 0;
          cascadeBit = (if slaveLvl \<noteq> None then push_bit 2 1 else 0);
          masterLvl = unitPending (master p) cascadeBit
      in case masterLvl of
           None \<Rightarrow> None
         | Some m \<Rightarrow> (case slaveLvl of
                        Some s \<Rightarrow> if m = 2 then Some (8 + s) else Some m
                      | None \<Rightarrow> Some m))"

definition outputAsserted :: "Pic8259Pair \<Rightarrow> bool" where
  "outputAsserted p \<longleftrightarrow> pendingLevel p \<noteq> None"

definition transferIrrToIsr :: "nat \<Rightarrow> Unit \<Rightarrow> Unit" where
  "transferIrrToIsr lvl u =
     (let b = push_bit (lvl mod 8) 1
      in u\<lparr>irr := irr u AND NOT b, isr := isr u OR b\<rparr>)"

definition acknowledge :: "Pic8259Pair \<Rightarrow> u8 option \<times> Pic8259Pair" where
  "acknowledge p =
     (case pendingLevel p of
        None \<Rightarrow> (None, p)
      | Some lvl \<Rightarrow>
          if lvl < 8
          then let p = p\<lparr>master := transferIrrToIsr lvl (master p)\<rparr>
               in (Some (icw2 (master p) OR of_nat lvl), p)
          else let p = p\<lparr>master := transferIrrToIsr 2 (master p)\<rparr>;
                   p = p\<lparr>slave := transferIrrToIsr (lvl - 8) (slave p)\<rparr>
               in (Some (icw2 (slave p) OR of_nat (lvl - 8)), p))"

definition initialized :: "Pic8259Pair \<Rightarrow> bool" where
  "initialized p \<longleftrightarrow> initState (master p) = Ready"

section \<open>Ports\<close>

definition readBase :: "Unit \<Rightarrow> u8 \<times> Unit" where
  "readBase u =
     (if pollArmed u
      then let u = u\<lparr>pollArmed := False\<rparr>
           in case unitPending u 0 of
                None \<Rightarrow> (0, u)
              | Some lvl \<Rightarrow> (0x80 OR of_nat lvl, transferIrrToIsr lvl u)
      else (if readIsrSelected u then isr u else irr u, u))"

fun clearHighest :: "u8 \<Rightarrow> nat list \<Rightarrow> u8" where
  "clearHighest inService [] = inService"
| "clearHighest inService (lvl # lvls) =
     (if inService AND push_bit lvl 1 \<noteq> 0 then inService AND NOT (push_bit lvl 1)
      else clearHighest inService lvls)"

definition writeBase :: "u8 \<Rightarrow> Unit \<Rightarrow> Unit" where
  "writeBase v u =
     (if v AND 0x10 \<noteq> 0
      then u\<lparr>initState := ExpectIcw2, ltim := (v AND 0x08 \<noteq> 0), imr := 0, irr := 0, isr := 0,
             readIsrSelected := False, pollArmed := False,
             icw4 := (if v AND 0x01 \<noteq> 0 then icw4 u else 0)\<rparr>
      else if v AND 0x08 \<noteq> 0
      then let u = (if v AND 0x03 = 0x02 then u\<lparr>readIsrSelected := False\<rparr> else u);
               u = (if v AND 0x03 = 0x03 then u\<lparr>readIsrSelected := True\<rparr> else u)
           in (if v AND 0x04 \<noteq> 0 then u\<lparr>pollArmed := True\<rparr> else u)
      else if drop_bit 5 v AND 0x7 = 0x1
      then u\<lparr>isr := clearHighest (isr u) [0..<8]\<rparr>
      else if drop_bit 5 v AND 0x7 = 0x3
      then u\<lparr>isr := isr u AND NOT (push_bit (unat (v AND 0x7)) 1)\<rparr>
      else u)"

definition writeData :: "u8 \<Rightarrow> Unit \<Rightarrow> Unit" where
  "writeData v u =
     (case initState u of
        ExpectIcw2 \<Rightarrow> u\<lparr>icw2 := v AND 0xF8, initState := ExpectIcw3\<rparr>
      | ExpectIcw3 \<Rightarrow> u\<lparr>icw3 := v, initState := ExpectIcw4\<rparr>
      | ExpectIcw4 \<Rightarrow> u\<lparr>icw4 := v, initState := Ready\<rparr>
      | _ \<Rightarrow> u\<lparr>imr := v\<rparr>)"

definition pic_ioRead :: "u16 \<Rightarrow> Pic8259Pair \<Rightarrow> u8 \<times> Pic8259Pair" where
  "pic_ioRead port p =
     (if port = 0x20 then let (v, u) = readBase (master p) in (v, p\<lparr>master := u\<rparr>)
      else if port = 0x21 then (imr (master p), p)
      else if port = 0xA0 then let (v, u) = readBase (slave p) in (v, p\<lparr>slave := u\<rparr>)
      else if port = 0xA1 then (imr (slave p), p)
      else if port = 0x4D0 then (elcr0 p, p)
      else if port = 0x4D1 then (elcr1 p, p)
      else (0xFF, p))"

definition pic_ioWrite :: "u16 \<Rightarrow> u64 \<Rightarrow> Pic8259Pair \<Rightarrow> Pic8259Pair" where
  "pic_ioWrite port val p =
     (let v = ucast (val AND 0xFF) :: u8
      in if port = 0x20 then p\<lparr>master := writeBase v (master p)\<rparr>
         else if port = 0x21 then p\<lparr>master := writeData v (master p)\<rparr>
         else if port = 0xA0 then p\<lparr>slave := writeBase v (slave p)\<rparr>
         else if port = 0xA1 then p\<lparr>slave := writeData v (slave p)\<rparr>
         else if port = 0x4D0 then p\<lparr>elcr0 := v\<rparr>
         else if port = 0x4D1 then p\<lparr>elcr1 := v\<rparr>
         else p)"

section \<open>Snapshot\<close>

fun initByte :: "InitState \<Rightarrow> u8" where
  "initByte Idle = 0"
| "initByte ExpectIcw2 = 1"
| "initByte ExpectIcw3 = 2"
| "initByte ExpectIcw4 = 3"
| "initByte Ready = 4"
| "initByte (Unnamed b) = b"

definition initOfByte :: "u8 \<Rightarrow> InitState" where
  "initOfByte b =
     (if b = 0 then Idle else if b = 1 then ExpectIcw2 else if b = 2 then ExpectIcw3
      else if b = 3 then ExpectIcw4 else if b = 4 then Ready else Unnamed b)"

definition flag_byte :: "bool \<Rightarrow> u8" where
  "flag_byte b = (if b then 1 else 0)"

definition unit_serialize :: "Unit \<Rightarrow> u8 list" where
  "unit_serialize u =
     [irr u, isr u, imr u, icw2 u, icw3 u, icw4 u, initByte (initState u),
      flag_byte (readIsrSelected u), flag_byte (pollArmed u), flag_byte (ltim u)]"

definition unit_deserialize :: "u8 list \<Rightarrow> Unit \<times> u8 list" where
  "unit_deserialize ds =
     (let (a, ds) = get_u8 ds; (b, ds) = get_u8 ds; (c, ds) = get_u8 ds;
          (d, ds) = get_u8 ds; (e, ds) = get_u8 ds; (f, ds) = get_u8 ds;
          (init, ds) = get_u8 ds; (ris, ds) = get_u8 ds; (poll, ds) = get_u8 ds;
          (lt, ds) = get_u8 ds
      in (\<lparr>irr = a, isr = b, imr = c, icw2 = d, icw3 = e, icw4 = f,
           initState = initOfByte init, readIsrSelected = (ris \<noteq> 0), pollArmed = (poll \<noteq> 0),
           ltim = (lt \<noteq> 0)\<rparr>, ds))"

fun get_flags :: "nat \<Rightarrow> u8 list \<Rightarrow> bool list \<times> u8 list" where
  "get_flags 0 ds = ([], ds)"
| "get_flags (Suc n) ds =
     (let (b, ds) = get_u8 ds; (bs, ds) = get_flags n ds in ((b \<noteq> 0) # bs, ds))"

definition pic_serialize :: "Pic8259Pair \<Rightarrow> u8 list" where
  "pic_serialize p =
     unit_serialize (master p) @ unit_serialize (slave p) @ [elcr0 p, elcr1 p]
     @ map flag_byte (m_lastInput p)"

definition pic_deserialize :: "Pic8259Pair \<Rightarrow> u8 list \<Rightarrow> Pic8259Pair \<times> u8 list" where
  "pic_deserialize p ds =
     (let (m, ds) = unit_deserialize ds; (s, ds) = unit_deserialize ds;
          (e0, ds) = get_u8 ds; (e1, ds) = get_u8 ds;
          (ls, ds) = get_flags 16 ds
      in (p\<lparr>master := m, slave := s, elcr0 := e0, elcr1 := e1, m_lastInput := ls\<rparr>, ds))"

section \<open>Pending levels\<close>

lemma scanLevels_Some:
  "scanLevels req is [a..<b] = Some l \<longleftrightarrow>
     a \<le> l \<and> l < b \<and> bit req l \<and> (\<forall>k. a \<le> k \<and> k \<le> l \<longrightarrow> \<not> bit is k) \<and> (\<forall>k. a \<le> k \<and> k < l \<longrightarrow> \<not> bit req k)"
proof (induction "b - a" arbitrary: a)
  case 0 then show ?case by auto
next
  case (Suc n)
  then have "[a..<b] = a # [Suc a..<b]" by (intro upt_conv_Cons) simp
  then have *: "scanLevels req is [a..<b] = (if bit is a then None else if bit req a then Some a else scanLevels req is [Suc a..<b])"
    by simp
  have ih: "scanLevels req is [Suc a..<b] = Some l \<longleftrightarrow>
     Suc a \<le> l \<and> l < b \<and> bit req l \<and> (\<forall>k. Suc a \<le> k \<and> k \<le> l \<longrightarrow> \<not> bit is k) \<and> (\<forall>k. Suc a \<le> k \<and> k < l \<longrightarrow> \<not> bit req k)"
    using Suc by (intro Suc.hyps(1)) simp
  consider "l < a" | "l = a" | "a < l" by linarith
  then show ?case
  proof cases
    case 1 then show ?thesis unfolding * using ih by auto
  next
    case 2 then show ?thesis unfolding * using ih Suc(2) by auto
  next
    case 3
    then have "(\<forall>k. a \<le> k \<and> k \<le> l \<longrightarrow> P k) \<longleftrightarrow> P a \<and> (\<forall>k. Suc a \<le> k \<and> k \<le> l \<longrightarrow> P k)"
      "(\<forall>k. a \<le> k \<and> k < l \<longrightarrow> P k) \<longleftrightarrow> P a \<and> (\<forall>k. Suc a \<le> k \<and> k < l \<longrightarrow> P k)" for P
      using less_imp_le [OF 3] by (metis Suc_leD dual_order.refl le_antisym not_less_eq_eq)+
    with 3 show ?thesis unfolding * using ih by auto
  qed
qed

lemma unitPending_iff:
  "unitPending u x = Some l \<longleftrightarrow> initState u = Ready \<and> l < 8 \<and> (bit (irr u) l \<or> bit x l) \<and> \<not> bit (imr u) l \<and>
     (\<forall>k \<le> l. \<not> bit (isr u) k) \<and> (\<forall>k < l. \<not> ((bit (irr u) k \<or> bit x k) \<and> \<not> bit (imr u) k))"
proof -
  define req where "req = (irr u OR x) AND NOT (imr u)"
  have b: "k < 8 \<Longrightarrow> bit req k \<longleftrightarrow> (bit (irr u) k \<or> bit x k) \<and> \<not> bit (imr u) k" for k
    by (simp add: req_def bit_simps)
  have "unitPending u x = Some l \<longleftrightarrow> initState u = Ready \<and> scanLevels req (isr u) [0..<8] = Some l"
    using scanLevels_Some [of 0 "isr u" 0 8 l]
    by (auto simp: unitPending_def Let_def req_def [symmetric])
  then show ?thesis unfolding scanLevels_Some using b by auto
qed

lemma unmasked_request_pending:
  assumes "initState u = Ready" "isr u = 0" "imr u = 0" "bit (irr u) line" "line < 8"
  shows "unitPending u x \<noteq> None"
proof -
  define R where "R k \<longleftrightarrow> k < 8 \<and> (bit (irr u) k \<or> bit x k)" for k
  have "\<exists>k. R k" using assms(4,5) by (auto simp: R_def)
  then obtain l where l: "R l" "\<forall>k < l. \<not> R k" using exists_least_iff [of R] by blast
  then have "unitPending u x = Some l"
    unfolding unitPending_iff using assms(1,2,3) by (simp add: R_def)
  then show ?thesis by simp
qed

lemma unitPending_less: "unitPending u x = Some l \<Longrightarrow> l < 8"
  by (simp add: unitPending_iff)

lemma bit_transfer [bit_simps]:
  "l < 8 \<Longrightarrow> bit (isr (transferIrrToIsr l u)) k \<longleftrightarrow> bit (isr u) k \<or> k = l"
  "l < 8 \<Longrightarrow> bit (irr (transferIrrToIsr l u)) k \<longleftrightarrow> bit (irr u) k \<and> k \<noteq> l"
  by (auto simp: transferIrrToIsr_def Let_def bit_simps dest: bit_imp_le_length)

lemma transfer_frame [simp]:
  "imr (transferIrrToIsr l u) = imr u" "initState (transferIrrToIsr l u) = initState u"
  "icw2 (transferIrrToIsr l u) = icw2 u" "icw3 (transferIrrToIsr l u) = icw3 u"
  by (simp_all add: transferIrrToIsr_def Let_def)

lemma pending_after_transfer:
  "l < 8 \<Longrightarrow> unitPending (transferIrrToIsr l u) x = Some l' \<Longrightarrow> l' < l"
  by (auto simp: unitPending_iff bit_simps not_less [symmetric])

text \<open>The input of the master a global level comes through.\<close>

definition masterLevel :: "nat \<Rightarrow> nat" where
  "masterLevel l = (if l < 8 then l else 2)"

lemma pendingLevel_cases:
  assumes "pendingLevel p = Some l"
  shows "l < 16" "\<exists>x. unitPending (master p) x = Some (masterLevel l)"
    "8 \<le> l \<Longrightarrow> unitPending (slave p) 0 = Some (l - 8)"
  using assms by (auto simp: pendingLevel_def Let_def masterLevel_def split: option.splits if_splits
      dest: unitPending_less)

lemma acknowledge_eq:
  assumes "pendingLevel p = Some l"
  shows "acknowledge p =
    (Some (if l < 8 then icw2 (master p) OR of_nat l else icw2 (slave p) OR of_nat (l - 8)),
     p\<lparr>master := transferIrrToIsr (masterLevel l) (master p),
       slave := (if l < 8 then slave p else transferIrrToIsr (l - 8) (slave p))\<rparr>)"
  using assms by (simp add: acknowledge_def Let_def masterLevel_def)

lemma ack_no_storm:
  assumes "pendingLevel p = Some l" "pendingLevel (snd (acknowledge p)) = Some l'"
  shows "masterLevel l' < masterLevel l"
proof -
  have "masterLevel l < 8" by (simp add: masterLevel_def)
  moreover obtain x where "unitPending (transferIrrToIsr (masterLevel l) (master p)) x = Some (masterLevel l')"
    using pendingLevel_cases(2) [OF assms(2)] by (auto simp: acknowledge_eq [OF assms(1)])
  ultimately show ?thesis by (rule pending_after_transfer)
qed

lemma clearHighest_first:
  "bit s l \<Longrightarrow> l < b \<Longrightarrow> a \<le> l \<Longrightarrow> (\<forall>k. a \<le> k \<and> k < l \<longrightarrow> \<not> bit s k) \<Longrightarrow>
     clearHighest s [a..<b] = s AND NOT (push_bit l 1)"
proof (induction "b - a" arbitrary: a)
  case (Suc n)
  then have *: "[a..<b] = a # [Suc a..<b]" by (intro upt_conv_Cons) simp
  show ?case
  proof (cases "a = l")
    case True then show ?thesis unfolding * using Suc.prems by simp
  next
    case False
    then have "\<not> bit s a" "clearHighest s [Suc a..<b] = s AND NOT (push_bit l 1)"
      using Suc.prems Suc.hyps by (auto intro!: Suc.hyps(1))
    then show ?thesis by (simp add: *)
  qed
qed simp

lemma eoi_restores_isr:
  assumes "unitPending u x = Some l"
  shows "isr (writeBase 0x20 (transferIrrToIsr l u)) = isr u"
    "isr (writeBase (0x60 OR of_nat l) (transferIrrToIsr l u)) = isr u"
proof -
  have l: "l < 8" "\<forall>k \<le> l. \<not> bit (isr u) k" using assms by (simp_all add: unitPending_iff)
  have c: "isr (transferIrrToIsr l u) AND NOT (push_bit l 1) = isr u"
  proof (rule bit_word_eqI)
    fix n assume "n < LENGTH(8)"
    then show "bit (isr (transferIrrToIsr l u) AND NOT (push_bit l 1)) n = bit (isr u) n"
      using l by (auto simp: bit_simps)
  qed
  have "clearHighest (isr (transferIrrToIsr l u)) [0..<8] = isr (transferIrrToIsr l u) AND NOT (push_bit l 1)"
    using l by (intro clearHighest_first) (auto simp: bit_simps)
  then show "isr (writeBase 0x20 (transferIrrToIsr l u)) = isr u"
    using c by (simp add: writeBase_def)
  have "l \<in> {0, 1, 2, 3, 4, 5, 6, 7}" using l by auto
  then show "isr (writeBase (0x60 OR of_nat l) (transferIrrToIsr l u)) = isr u"
    using c by (auto simp: writeBase_def)
qed

section \<open>The controller as a state machine\<close>

datatype pic_op = Input nat bool | Ack | PortRead u16 | PortWrite u16 u64

fun pic_step :: "pic_op \<Rightarrow> Pic8259Pair \<Rightarrow> Pic8259Pair" where
  "pic_step (Input line level) p = setIrqInput line level p"
| "pic_step Ack p = snd (acknowledge p)"
| "pic_step (PortRead port) p = snd (pic_ioRead port p)"
| "pic_step (PortWrite port v) p = pic_ioWrite port v p"

inductive pic_reachable :: "Pic8259Pair \<Rightarrow> bool" where
  pic_init: "pic_reachable pic_reset"
| pic_next: "pic_reachable p \<Longrightarrow> pic_reachable (pic_step x p)"

definition unit_ok :: "Unit \<Rightarrow> bool" where
  "unit_ok u \<longleftrightarrow> icw2 u AND 7 = 0 \<and> (\<forall>b. initState u \<noteq> Unnamed b)"

definition pic_ok :: "Pic8259Pair \<Rightarrow> bool" where
  "pic_ok p \<longleftrightarrow> unit_ok (master p) \<and> unit_ok (slave p) \<and> length (m_lastInput p) = 16"

lemma unit_ok_ops:
  assumes "unit_ok u"
  shows "unit_ok (transferIrrToIsr l u)" "unit_ok (writeBase v u)" "unit_ok (writeData v u)"
    "unit_ok (snd (readBase u))" "unit_ok (u\<lparr>irr := w\<rparr>)"
proof -
  have m: "(v AND 0xF8) AND 7 = (0 :: u8)" by (simp add: and.assoc)
  show "unit_ok (transferIrrToIsr l u)" "unit_ok (u\<lparr>irr := w\<rparr>)" using assms by (simp_all add: unit_ok_def)
  show "unit_ok (writeBase v u)" using assms by (simp add: unit_ok_def writeBase_def Let_def)
  show "unit_ok (writeData v u)" using assms m by (simp add: unit_ok_def writeData_def split: InitState.split)
  show "unit_ok (snd (readBase u))"
    using assms by (auto simp: unit_ok_def readBase_def Let_def split: option.split)
qed

lemma pic_step_ok: "pic_ok p \<Longrightarrow> pic_ok (pic_step x p)"
proof (cases x)
  case (Input line level)
  then show "pic_ok p \<Longrightarrow> ?thesis" by (simp add: pic_ok_def setIrqInput_def Let_def unit_ok_ops)
next
  case Ack
  then show "pic_ok p \<Longrightarrow> ?thesis"
    by (auto simp: pic_ok_def acknowledge_def Let_def unit_ok_ops split: option.split)
next
  case (PortRead port)
  then show "pic_ok p \<Longrightarrow> ?thesis"
    by (simp add: pic_ok_def pic_ioRead_def case_prod_beta unit_ok_ops)
next
  case (PortWrite port v)
  then show "pic_ok p \<Longrightarrow> ?thesis" by (simp add: pic_ok_def pic_ioWrite_def Let_def unit_ok_ops)
qed

lemma pic_reachable_ok: "pic_reachable p \<Longrightarrow> pic_ok p"
proof (induction rule: pic_reachable.induct)
  case pic_init
  show ?case by (simp add: pic_ok_def unit_ok_def pic_reset_def resetUnit_def)
qed (rule pic_step_ok)

lemma initOfByte_inverse: "(\<forall>b. s \<noteq> Unnamed b) \<Longrightarrow> initOfByte (initByte s) = s"
  by (cases s) (simp_all add: initOfByte_def)

lemma flag_byte_inverse: "(flag_byte b \<noteq> 0) = b"
  by (simp add: flag_byte_def)

lemma unit_load_save: "unit_ok u \<Longrightarrow> unit_deserialize (unit_serialize u @ rest) = (u, rest)"
  by (simp add: unit_deserialize_def unit_serialize_def unit_ok_def initOfByte_inverse flag_byte_inverse)

lemma get_flags_append: "get_flags (length bs) (map flag_byte bs @ rest) = (bs, rest)"
  by (induction bs) (simp_all add: flag_byte_inverse)

lemma pic_load_save:
  "pic_ok p \<Longrightarrow> pic_deserialize p0 (pic_serialize p @ rest) = (p, rest)"
  using get_flags_append [of "m_lastInput p" rest]
  by (simp add: pic_ok_def pic_deserialize_def pic_serialize_def unit_load_save)

text \<open>
  What ends the service of a request: an initialisation of the master or an end of interrupt, specific or
  not, written to its command port.
\<close>

fun endsService :: "pic_op \<Rightarrow> bool" where
  "endsService (PortWrite port v) = (port = 0x20 \<and>
     (let b = ucast (v AND 0xFF) :: u8 in
      b AND 0x10 \<noteq> 0 \<or> b AND 0x08 = 0 \<and> (drop_bit 5 b AND 0x7 = 1 \<or> drop_bit 5 b AND 0x7 = 3)))"
| "endsService _ = False"

lemma transfer_keeps: "bit (isr u) k \<Longrightarrow> bit (isr (transferIrrToIsr l u)) k"
  by (simp add: transferIrrToIsr_def Let_def bit_or_iff)

lemma readBase_keeps:
  "initState (snd (readBase u)) = initState u" "bit (isr u) k \<Longrightarrow> bit (isr (snd (readBase u))) k"
  by (auto simp: readBase_def Let_def transfer_keeps split: option.split)

lemma writeBase_keeps:
  assumes "v AND 0x10 = 0" "v AND 0x08 \<noteq> 0 \<or> drop_bit 5 v AND 0x7 \<noteq> 1 \<and> drop_bit 5 v AND 0x7 \<noteq> 3"
  shows "initState (writeBase v u) = initState u" "isr (writeBase v u) = isr u"
  using assms by (auto simp: writeBase_def Let_def)

lemma writeData_keeps:
  "isr (writeData v u) = isr u" "initState u = Ready \<Longrightarrow> initState (writeData v u) = Ready"
  by (simp_all add: writeData_def split: InitState.split)

text \<open>Until then the master stays initialised and the level in service.\<close>

lemma service_step:
  assumes "\<not> endsService x" "initState (master p) = Ready" "bit (isr (master p)) k"
  shows "initState (master (pic_step x p)) = Ready" "bit (isr (master (pic_step x p))) k"
proof -
  have "initState (master (pic_step x p)) = Ready \<and> bit (isr (master (pic_step x p))) k"
  proof (cases x)
    case (Input line level)
    then show ?thesis using assms by (simp add: setIrqInput_def Let_def)
  next
    case Ack
    then show ?thesis using assms by (auto simp: acknowledge_def Let_def transfer_keeps split: option.split)
  next
    case (PortRead port)
    then show ?thesis using assms readBase_keeps [of "master p"] by (simp add: pic_ioRead_def case_prod_beta)
  next
    case (PortWrite port v)
    then show ?thesis using assms writeBase_keeps [of "ucast (v AND 0xFF)" "master p"] writeData_keeps
      by (auto simp: pic_ioWrite_def Let_def)
  qed
  then show "initState (master (pic_step x p)) = Ready" "bit (isr (master (pic_step x p))) k" by simp_all
qed

lemma service_run:
  assumes "list_all (\<lambda>x. \<not> endsService x) ops" "initState (master p) = Ready" "bit (isr (master p)) k"
  shows "initState (master (fold pic_step ops p)) = Ready \<and> bit (isr (master (fold pic_step ops p))) k"
  using assms by (induction ops arbitrary: p) (simp_all add: service_step)

lemma in_service_blocks:
  assumes "bit (isr (master p)) k" "pendingLevel p = Some l"
  shows "masterLevel l < k"
  using pendingLevel_cases(2) [OF assms(2)] assms(1) by (auto simp: unitPending_iff not_less [symmetric])

lemma request_not_blocked:
  assumes "initState u = Ready" "line < 8" "bit (irr u) line" "\<not> bit (imr u) line" "\<forall>k \<le> line. \<not> bit (isr u) k"
  shows "unitPending u x \<noteq> None"
proof -
  define R where "R k \<longleftrightarrow> (bit (irr u) k \<or> bit x k) \<and> \<not> bit (imr u) k" for k
  have r: "R line" using assms by (simp add: R_def)
  then obtain l where l: "R l" "\<forall>k < l. \<not> R k" using exists_least_iff [of R] by blast
  then have le: "l \<le> line" using r by (meson not_less)
  then have "unitPending u x = Some l"
    unfolding unitPending_iff using assms(1,2,5) l by (auto simp: R_def)
  then show ?thesis by simp
qed

interpretation pic_snap: snapshot_codec pic_ok pic_serialize pic_deserialize "\<lambda>p0 p. p"
  by unfold_locales (rule pic_load_save)

inductive_cases pic_reachable_cases: "pic_reachable p"

text \<open>A master programmed for interrupts, for the concrete runs below.\<close>

definition readyPair :: Pic8259Pair where
  "readyPair = fold (\<lambda>(port, v). pic_ioWrite port v)
     [(0x20, 0x11), (0x21, 0x08), (0x21, 0x04), (0x21, 0x01),
      (0xA0, 0x11), (0xA1, 0x70), (0xA1, 0x02), (0xA1, 0x01)] pic_reset"

section \<open>Properties\<close>

text \<open>
  Fixed priority with in-service suppression: a unit presents level l exactly when it is
  initialised, l is requested and unmasked, no level of equal or higher priority is in
  service and no level of higher priority is requested and unmasked.
\<close>

theorem pic_priority:
  "unitPending u x = Some l \<longleftrightarrow>
     initState u = Ready \<and> l < 8 \<and> (bit (irr u) l \<or> bit x l) \<and> \<not> bit (imr u) l \<and>
     (\<forall>k. k \<le> l \<longrightarrow> \<not> bit (isr u) k) \<and>
     (\<forall>k. k < l \<longrightarrow> \<not> ((bit (irr u) k \<or> bit x k) \<and> \<not> bit (imr u) k))"
  by (rule unitPending_iff)

theorem pic_priority_witness:
  "unitPending (master (setIrqInput 4 True (setIrqInput 3 True readyPair))) 0 = Some 3 \<and>
   \<not> bit (isr (master (setIrqInput 4 True (setIrqInput 3 True readyPair)))) 3"
proof -
  have "unitPending (master (setIrqInput 4 True (setIrqInput 3 True readyPair))) 0 = Some 3"
    by code_simp
  then show ?thesis
    using pic_priority [of "master (setIrqInput 4 True (setIrqInput 3 True readyPair))" 0 3] by auto
qed

text \<open>
  C27. No interrupt storm. Acknowledging a request returns the vector of the winning level. From then on,
  whatever the input lines do, and whatever is read, masked or acknowledged, until the master is sent an end
  of interrupt or is initialised again, the output is asserted only for a request that reaches the master
  through an input of strictly higher priority: neither the same line nor a lower one interrupts again. A
  request of higher priority is not held back: once latched and unmasked, with nothing of its priority or
  above in service, it asserts the output.
\<close>

theorem pic_acknowledge_no_storm:
  assumes "pic_reachable p" "pendingLevel p = Some l" "list_all (\<lambda>x. \<not> endsService x) ops"
  shows "fst (acknowledge p) = Some (if l < 8 then icw2 (master p) OR of_nat l
                                      else icw2 (slave p) OR of_nat (l - 8)) \<and>
    (let p1 = fold pic_step ops (snd (acknowledge p)) in
      (\<forall>l'. pendingLevel p1 = Some l' \<longrightarrow> masterLevel l' < masterLevel l) \<and>
      (\<forall>line < 8. bit (irr (master p1)) line \<and> \<not> bit (imr (master p1)) line \<and>
         (\<forall>k \<le> line. \<not> bit (isr (master p1)) k) \<longrightarrow> outputAsserted p1))"
proof -
  let ?p1 = "fold pic_step ops (snd (acknowledge p))"
  have m: "masterLevel l < 8" by (simp add: masterLevel_def)
  have r: "initState (master p) = Ready" using pendingLevel_cases(2) [OF assms(2)] by (auto simp: unitPending_iff)
  have s: "initState (master (snd (acknowledge p))) = Ready" "bit (isr (master (snd (acknowledge p)))) (masterLevel l)"
    using r m by (simp_all add: acknowledge_eq [OF assms(2)] bit_transfer)
  note run = service_run [OF assms(3) s]
  have "outputAsserted ?p1"
    if "line < 8" "bit (irr (master ?p1)) line" "\<not> bit (imr (master ?p1)) line"
      "\<forall>k \<le> line. \<not> bit (isr (master ?p1)) k" for line
  proof -
    have u: "unitPending (master ?p1) x \<noteq> None" for x using run that by (intro request_not_blocked) simp_all
    show ?thesis
      using u [of 0] u [of "push_bit 2 1"] by (auto simp: outputAsserted_def pendingLevel_def Let_def split: option.splits)
  qed
  then show ?thesis
    using run in_service_blocks [of ?p1 "masterLevel l"] by (simp add: acknowledge_eq [OF assms(2)] Let_def)
qed

text \<open>Line 4 is served and raised again: its second request waits for the end of interrupt.\<close>

theorem pic_acknowledge_no_storm_witness:
  "\<exists>p. pic_reachable p \<and> pendingLevel p = Some 4 \<and> fst (acknowledge p) = Some 0x0C \<and>
     \<not> outputAsserted (fold pic_step [Input 4 False, Input 4 True, Input 5 True] (snd (acknowledge p)))"
proof -
  let ?p = "fold pic_step [PortWrite 0x20 0x11, PortWrite 0x21 0x08, PortWrite 0x21 0x04,
      PortWrite 0x21 0x01, Input 4 True] pic_reset"
  let ?ops = "[Input 4 False, Input 4 True, Input 5 True]"
  have r: "pic_reachable ?p" by (simp only: fold.simps comp_apply id_apply) (intro pic_reachable.intros)
  have l: "pendingLevel ?p = Some 4" "icw2 (master ?p) = 8" "masterLevel 4 = 4" by code_simp+
  have "list_all (\<lambda>x. \<not> endsService x) ?ops" by simp
  note t = pic_acknowledge_no_storm [OF r l(1) this, unfolded Let_def]
  define q where "q = fold pic_step ?ops (snd (acknowledge ?p))"
  have irr: "\<forall>k < 4. \<not> bit (irr (master q)) k" "unitPending (slave q) 0 = None" unfolding q_def by code_simp+
  have "pendingLevel q \<noteq> Some l'" for l'
  proof
    assume h: "pendingLevel q = Some l'"
    have "masterLevel l' < masterLevel 4" using t h unfolding q_def by blast
    moreover have "unitPending (master q) 0 = Some l'" using h irr(2) by (simp add: pendingLevel_def split: option.splits)
    ultimately show False using irr(1) l(3) by (auto simp: unitPending_iff masterLevel_def)
  qed
  then have "\<not> outputAsserted q" by (simp add: outputAsserted_def)
  moreover have "fst (acknowledge ?p) = Some 0x0C" using t l(2) by simp
  ultimately show ?thesis using r l(1) unfolding q_def by blast
qed

text \<open>
  An edge is captured whatever the mask and survives until it is served: after a rising
  edge on a line and its fall, the request is latched in the line's unit, and nothing is
  acknowledged or masked away by the fall; on an initialised master with nothing in service,
  clearing the mask then asserts the output.
\<close>

theorem pic_edge_captured:
  assumes "length (m_lastInput p) = 16" "line < 16" "\<not> m_lastInput p ! line"
  shows "(line < 8 \<longrightarrow> bit (irr (master (setIrqInput line False (setIrqInput line True p)))) line) \<and>
    (8 \<le> line \<longrightarrow> bit (irr (slave (setIrqInput line False (setIrqInput line True p)))) (line - 8)) \<and>
    (line < 8 \<and> initState (master p) = Ready \<and> isr (master p) = 0 \<longrightarrow>
      outputAsserted (pic_ioWrite 0x21 0 (setIrqInput line False (setIrqInput line True p))))"
proof -
  let ?p = "setIrqInput line False (setIrqInput line True p)"
  have m: "line < 8 \<Longrightarrow> master ?p = (master p)\<lparr>irr := irr (master p) OR push_bit line 1\<rparr>"
    using assms by (simp add: setIrqInput_def Let_def)
  have s: "8 \<le> line \<Longrightarrow> slave ?p = (slave p)\<lparr>irr := irr (slave p) OR push_bit (line mod 8) 1\<rparr>"
    using assms by (simp add: setIrqInput_def Let_def div_eq_0_iff)
  have "8 \<le> line \<Longrightarrow> line mod 8 = line - 8" using assms(2) by (simp add: mod_if)
  moreover have "outputAsserted (pic_ioWrite 0x21 0 ?p)"
    if "line < 8" "initState (master p) = Ready" "isr (master p) = 0"
  proof -
    let ?q = "pic_ioWrite 0x21 0 ?p"
    have q: "master ?q = (master p)\<lparr>irr := irr (master p) OR push_bit line 1, imr := 0\<rparr>"
      using m [OF that(1)] that(2) by (simp add: pic_ioWrite_def writeData_def)
    have "unitPending (master ?q) x \<noteq> None" for x
      using that by (intro unmasked_request_pending [of _ line]) (simp_all add: q bit_simps)
    then have "unitPending (master ?q) 0 \<noteq> None" "unitPending (master ?q) 4 \<noteq> None" by blast+
    then show ?thesis by (auto simp: outputAsserted_def pendingLevel_def Let_def)
  qed
  ultimately show ?thesis using m s assms(2) by (auto simp: bit_simps)
qed

theorem pic_edge_captured_witness:
  "outputAsserted (pic_ioWrite 0x21 0 (setIrqInput 4 False (setIrqInput 4 True readyPair)))"
  using pic_edge_captured [of readyPair 4]
  by (simp add: readyPair_def pic_reset_def resetUnit_def pic_ioWrite_def writeBase_def writeData_def)

text \<open>
  End of interrupt undoes the acknowledge: after a unit's winning level moved to the
  in-service register, the non-specific and the matching specific end of interrupt both put
  the in-service register back to what it was.
\<close>

theorem pic_eoi_inverts_acknowledge:
  "unitPending u x = Some l \<Longrightarrow>
     isr (writeBase 0x20 (transferIrrToIsr l u)) = isr u \<and>
     isr (writeBase (0x60 OR of_nat l) (transferIrrToIsr l u)) = isr u"
  using eoi_restores_isr by blast

theorem pic_eoi_inverts_acknowledge_witness:
  "isr (writeBase 0x20 (transferIrrToIsr 4 (master (setIrqInput 4 True readyPair)))) =
     isr (master (setIrqInput 4 True readyPair))"
proof -
  have "unitPending (master (setIrqInput 4 True readyPair)) 0 = Some 4" by code_simp
  then show ?thesis using pic_eoi_inverts_acknowledge by blast
qed

text \<open>
  Initialisation and reset: whatever a unit's state, ICW1 to ICW4 leave it ready with no
  request, nothing in service, everything unmasked and the vector base of ICW2; a unit that
  is not ready presents nothing, and a pair whose master is not ready drives no output.
\<close>

theorem pic_initialisation:
  "(a AND 0x10 \<noteq> 0 \<longrightarrow>
     (let u' = writeData d (writeData c (writeData b (writeBase a u)))
      in initState u' = Ready \<and> irr u' = 0 \<and> isr u' = 0 \<and> imr u' = 0 \<and> icw2 u' = b AND 0xF8 \<and>
         icw3 u' = c \<and> icw4 u' = d \<and> unitPending u' 0 = None)) \<and>
   (initState u \<noteq> Ready \<longrightarrow> unitPending u x = None) \<and>
   (\<not> initialized p \<longrightarrow> \<not> outputAsserted p)"
  by (auto simp: writeBase_def writeData_def Let_def unitPending_def outputAsserted_def
      pendingLevel_def initialized_def)

theorem pic_initialisation_witness:
  "initState (writeData 1 (writeData 4 (writeData 8 (writeBase 0x11 resetUnit)))) = Ready \<and>
   \<not> outputAsserted pic_reset"
  using pic_initialisation [of "0x11" 1 4 8 resetUnit 0 pic_reset]
  by (simp add: Let_def initialized_def pic_reset_def resetUnit_def)

text \<open>
  A saved interrupt controller is restored exactly: in every reachable state, loading the
  saved bytes into any controller object gives the same state back and consumes exactly the
  saved bytes.
\<close>

theorem pic_snapshot_roundtrip:
  "pic_reachable p \<Longrightarrow> pic_deserialize p0 (pic_serialize p @ rest) = (p, rest)"
  by (rule pic_snap.load_save [OF pic_reachable_ok])

theorem pic_snapshot_roundtrip_witness:
  "pic_deserialize pic_reset (pic_serialize (pic_step (Input 4 True) pic_reset) @ [7]) =
     (pic_step (Input 4 True) pic_reset, [7])"
  by (rule pic_snapshot_roundtrip) (intro pic_reachable.intros)

end
