(* ===== verification/Iic.thy ===== *)
theory Iic
  imports Prelude
begin

text \<open>
  The I2C controller and the devices on its bus: deviceLib/Tsunami/IicPcf8584.h. The controller is a
  byte-wide register pair; a START addresses one of the configured 256-byte devices, which then takes
  an offset and data or streams its contents. Device images are functions of their one-byte offset. The
  transaction trace is not modelled.
\<close>

section \<open>State\<close>

datatype IicKind = FruEeprom | Nvram | StatusReg

datatype IicPhase = Iic_Idle | Iic_AddrNak | Iic_WriteData | Iic_ReadData

datatype IicSel = Sel_S0 | Sel_S0Own | Sel_S2 | Sel_S3

record IicDevice =
  iic_address :: u8
  iic_kind :: IicKind
  iic_image :: "u8 \<Rightarrow> u8"
  iic_offset :: u8

record Iic =
  iic_status :: u8
  iic_control :: u8
  iic_ownAddr :: u8
  iic_clock :: u8
  iic_vector :: u8
  iic_shift :: u8
  iic_phase :: IicPhase
  iic_curDev :: int
  iic_firstWrite :: bool
  iic_dummyDone :: bool
  iic_devices :: "IicDevice list"

definition kOffData :: u16 where "kOffData = 0"

definition kOffCtrlSt :: u16 where "kOffCtrlSt = 1"

definition kCtl_PIN :: u8 where "kCtl_PIN = 0x80"

definition kCtl_ES0 :: u8 where "kCtl_ES0 = 0x40"

definition kCtl_ES1 :: u8 where "kCtl_ES1 = 0x20"

definition kCtl_ES2 :: u8 where "kCtl_ES2 = 0x10"

definition kCtl_ENI :: u8 where "kCtl_ENI = 0x08"

definition kCtl_STA :: u8 where "kCtl_STA = 0x04"

definition kCtl_STO :: u8 where "kCtl_STO = 0x02"

definition kCtl_ACK :: u8 where "kCtl_ACK = 0x01"

definition kSt_PIN :: u8 where "kSt_PIN = 0x80"

definition kSt_LRB :: u8 where "kSt_LRB = 0x08"

definition kSt_BB :: u8 where "kSt_BB = 0x01"

definition kImageSize :: nat where "kImageSize = 256"

lemmas iic_consts = kOffData_def kOffCtrlSt_def kCtl_PIN_def kCtl_ES0_def kCtl_ES1_def kCtl_ES2_def
  kCtl_ENI_def kCtl_STA_def kCtl_STO_def kCtl_ACK_def kSt_PIN_def kSt_LRB_def kSt_BB_def

section \<open>Operations\<close>

definition iic_reset :: "Iic \<Rightarrow> Iic" where
  "iic_reset c = c\<lparr>iic_status := kSt_PIN OR kSt_BB, iic_control := 0, iic_ownAddr := 0, iic_clock := 0,
     iic_vector := 0, iic_shift := 0, iic_phase := Iic_Idle, iic_curDev := - 1, iic_firstWrite := False,
     iic_dummyDone := False\<rparr>"

definition newIic :: Iic where
  "newIic = iic_reset \<lparr>iic_status = 0, iic_control = 0, iic_ownAddr = 0, iic_clock = 0, iic_vector = 0,
     iic_shift = 0, iic_phase = Iic_Idle, iic_curDev = - 1, iic_firstWrite = False, iic_dummyDone = False,
     iic_devices = []\<rparr>"

definition configureDevices :: "IicDevice list \<Rightarrow> Iic \<Rightarrow> Iic" where
  "configureDevices devs c = iic_reset (c\<lparr>iic_devices := map (\<lambda>d. d\<lparr>iic_offset := 0\<rparr>) devs\<rparr>)"

definition regSelect :: "Iic \<Rightarrow> IicSel" where
  "regSelect c =
    (if iic_control c AND kCtl_ES0 \<noteq> 0 then Sel_S0
     else if iic_control c AND kCtl_ES1 \<noteq> 0 then Sel_S2
     else if iic_control c AND kCtl_ES2 \<noteq> 0 then Sel_S3
     else Sel_S0Own)"

text \<open>The linear search; \<open>i\<close> is the index of the first device of the list.\<close>

fun lookupFrom :: "int \<Rightarrow> u8 \<Rightarrow> IicDevice list \<Rightarrow> int" where
  "lookupFrom i node [] = - 1"
| "lookupFrom i node (d # ds) = (if iic_address d = node then i else lookupFrom (i + 1) node ds)"

definition deviceLookup :: "Iic \<Rightarrow> u8 \<Rightarrow> int" where
  "deviceLookup c node = lookupFrom 0 node (iic_devices c)"

definition startTransaction :: "Iic \<Rightarrow> Iic" where
  "startTransaction c =
    (let addr = iic_shift c; idx = deviceLookup c (addr AND 0xFE) in
     if idx < 0 then c\<lparr>iic_phase := Iic_AddrNak, iic_curDev := - 1, iic_status := kSt_LRB\<rparr>
     else c\<lparr>iic_curDev := idx, iic_status := 0, iic_dummyDone := False, iic_firstWrite := True,
            iic_phase := (if addr AND 1 \<noteq> 0 then Iic_ReadData else Iic_WriteData)\<rparr>)"

definition setDevice :: "IicDevice \<Rightarrow> Iic \<Rightarrow> Iic" where
  "setDevice d c = c\<lparr>iic_devices := (iic_devices c)[nat (iic_curDev c) := d]\<rparr>"

text \<open>An access whose current device is not on the bus is \<open>None\<close>: the source indexes the vector there.\<close>

definition curDevice :: "Iic \<Rightarrow> IicDevice option" where
  "curDevice c = (if 0 \<le> iic_curDev c \<and> nat (iic_curDev c) < length (iic_devices c)
                  then Some (iic_devices c ! nat (iic_curDev c)) else None)"

definition iic_ioRead :: "u16 \<Rightarrow> u8 \<Rightarrow> Iic \<Rightarrow> (u64 \<times> Iic) option" where
  "iic_ioRead port width c =
    (if width \<noteq> 1 then Some (0xFF, c)
     else if port = kOffCtrlSt then Some (ucast (iic_status c), c)
     else if port = kOffData then
       (if iic_phase c = Iic_ReadData then
          (if \<not> iic_dummyDone c then Some (0xFF, c\<lparr>iic_dummyDone := True\<rparr>)
           else map_option (\<lambda>d. (ucast (iic_image d (iic_offset d)),
                                 setDevice (d\<lparr>iic_offset := iic_offset d + 1\<rparr>) c)) (curDevice c))
        else if iic_phase c \<noteq> Iic_Idle then Some (0xFF, c)
        else Some (case regSelect c of Sel_S0 \<Rightarrow> ucast (iic_shift c) | Sel_S0Own \<Rightarrow> ucast (iic_ownAddr c)
                   | Sel_S2 \<Rightarrow> ucast (iic_clock c) | Sel_S3 \<Rightarrow> ucast (iic_vector c), c))
     else Some (0xFF, c))"

definition iic_control_write :: "u8 \<Rightarrow> Iic \<Rightarrow> Iic" where
  "iic_control_write v c =
    (let c = c\<lparr>iic_control := v\<rparr> in
     if v AND kCtl_STA \<noteq> 0 then startTransaction c
     else if v AND kCtl_STO \<noteq> 0 then
       c\<lparr>iic_status := kSt_PIN OR kSt_BB, iic_phase := Iic_Idle, iic_curDev := - 1\<rparr>
     else if v AND kCtl_PIN \<noteq> 0 then
       (if iic_phase c = Iic_Idle then c\<lparr>iic_status := kSt_PIN OR kSt_BB\<rparr>
        else if v AND kCtl_ACK = 0 \<and> iic_phase c = Iic_ReadData then c\<lparr>iic_status := kSt_LRB\<rparr>
        else c)
     else c)"

definition iic_data_write :: "u8 \<Rightarrow> Iic \<Rightarrow> Iic option" where
  "iic_data_write v c =
    (if iic_phase c = Iic_WriteData then
       map_option (\<lambda>d.
         (if iic_firstWrite c then (setDevice (d\<lparr>iic_offset := v\<rparr>) c)\<lparr>iic_firstWrite := False\<rparr>
          else if iic_kind d \<noteq> StatusReg
          then setDevice (d\<lparr>iic_image := (iic_image d)(iic_offset d := v), iic_offset := iic_offset d + 1\<rparr>) c
          else c)\<lparr>iic_status := 0\<rparr>) (curDevice c)
     else if iic_phase c \<noteq> Iic_Idle then Some c
     else Some (case regSelect c of Sel_S0 \<Rightarrow> c\<lparr>iic_shift := v\<rparr> | Sel_S0Own \<Rightarrow> c\<lparr>iic_ownAddr := v\<rparr>
                | Sel_S2 \<Rightarrow> c\<lparr>iic_clock := v\<rparr> | Sel_S3 \<Rightarrow> c\<lparr>iic_vector := v\<rparr>))"

definition iic_ioWrite :: "u16 \<Rightarrow> u64 \<Rightarrow> u8 \<Rightarrow> Iic \<Rightarrow> Iic option" where
  "iic_ioWrite port val width c =
    (if width \<noteq> 1 then Some c
     else let v = ucast (val AND 0xFF) in
       if port = kOffCtrlSt then Some (iic_control_write v c)
       else if port = kOffData then iic_data_write v c
       else Some c)"

definition iic_interruptPending :: "Iic \<Rightarrow> bool" where
  "iic_interruptPending c \<longleftrightarrow> iic_status c AND kSt_PIN = 0 \<and> iic_control c AND kCtl_ENI \<noteq> 0"

section \<open>Contents\<close>

definition deviceImage :: "u8 \<Rightarrow> Iic \<Rightarrow> (u8 \<Rightarrow> u8) option" where
  "deviceImage node c =
    (let idx = deviceLookup c (node AND 0xFE) in
     if 0 \<le> idx then Some (iic_image (iic_devices c ! nat idx)) else None)"

definition deviceCount :: "Iic \<Rightarrow> nat" where
  "deviceCount c = length (iic_devices c)"

definition contentBytes :: "Iic \<Rightarrow> nat" where
  "contentBytes c = length (iic_devices c) * kImageSize"

definition contentImage :: "Iic \<Rightarrow> u8 list" where
  "contentImage c = concat (map (\<lambda>d. map (\<lambda>i. iic_image d (of_nat i)) [0..<kImageSize]) (iic_devices c))"

fun restoreImages :: "u8 list \<Rightarrow> IicDevice list \<Rightarrow> IicDevice list" where
  "restoreImages bs [] = []"
| "restoreImages bs (d # ds) = d\<lparr>iic_image := (\<lambda>off. bs ! unat off)\<rparr> # restoreImages (drop kImageSize bs) ds"

definition restoreContentImage :: "u8 list \<Rightarrow> Iic \<Rightarrow> Iic" where
  "restoreContentImage bs c =
    (if length bs \<noteq> contentBytes c then c else c\<lparr>iic_devices := restoreImages bs (iic_devices c)\<rparr>)"

section \<open>Bus sequences\<close>

text \<open>
  What a driver does: register writes one after the other, and reads of the data register. \<open>kStart\<close> and
  \<open>kStop\<close> are the control bytes the firmware uses, with the serial interface enabled.
\<close>

fun iicSend :: "(u16 \<times> u64) list \<Rightarrow> Iic \<Rightarrow> Iic option" where
  "iicSend [] c = Some c"
| "iicSend ((port, v) # ws) c = Option.bind (iic_ioWrite port v 1 c) (iicSend ws)"

fun iicReceive :: "nat \<Rightarrow> Iic \<Rightarrow> (u64 list \<times> Iic) option" where
  "iicReceive 0 c = Some ([], c)"
| "iicReceive (Suc n) c =
    Option.bind (iic_ioRead kOffData 1 c) (\<lambda>(v, c1). map_option (\<lambda>(vs, c2). (v # vs, c2)) (iicReceive n c1))"

definition kStart :: u64 where "kStart = 0xC5"

definition kStop :: u64 where "kStop = 0xC3"

definition dataWrites :: "u8 list \<Rightarrow> (u16 \<times> u64) list" where
  "dataWrites bs = map (\<lambda>b. (kOffData, ucast b)) bs"

definition iicPut :: "u8 \<Rightarrow> u8 \<Rightarrow> u8 list \<Rightarrow> (u16 \<times> u64) list" where
  "iicPut node off bs = dataWrites [node] @ [(kOffCtrlSt, kStart)] @ dataWrites (off # bs) @ [(kOffCtrlSt, kStop)]"

text \<open>A read positions the device with an empty write, then streams; the first byte read is a dummy.\<close>

definition iicGet :: "u8 \<Rightarrow> u8 \<Rightarrow> nat \<Rightarrow> Iic \<Rightarrow> (u64 list \<times> Iic) option" where
  "iicGet node off n c =
    Option.bind (iicSend (iicPut node off [] @ dataWrites [node OR 1] @ [(kOffCtrlSt, kStart)]) c)
      (\<lambda>c1. Option.bind (iicReceive (Suc n) c1)
        (\<lambda>(vs, c2). map_option (\<lambda>c3. (tl vs, c3)) (iicSend [(kOffCtrlSt, kStop)] c2)))"

definition iicContents :: "Iic \<Rightarrow> (u8 \<Rightarrow> u8) list" where
  "iicContents c = map iic_image (iic_devices c)"

section \<open>The current device is on the bus\<close>

definition iic_ok :: "Iic \<Rightarrow> bool" where
  "iic_ok c \<longleftrightarrow> (iic_phase c \<in> {Iic_WriteData, Iic_ReadData} \<longrightarrow>
     0 \<le> iic_curDev c \<and> nat (iic_curDev c) < length (iic_devices c))"

lemma lookupFrom_cases:
  "lookupFrom i node ds = - 1 \<and> node \<notin> set (map iic_address ds) \<or>
   (\<exists>k < length ds. lookupFrom i node ds = i + int k \<and> iic_address (ds ! k) = node)"
proof (induction ds arbitrary: i)
  case (Cons d ds)
  show ?case
  proof (cases "iic_address d = node")
    case False
    then show ?thesis using Cons [of "i + 1"] by (auto intro: exI [of _ "Suc _"])
  qed (auto intro: exI [of _ 0])
qed simp

lemma lookup_bound: "0 \<le> deviceLookup c node \<Longrightarrow> nat (deviceLookup c node) < length (iic_devices c)"
  using lookupFrom_cases [of 0 node "iic_devices c"] by (auto simp: deviceLookup_def)

lemma length_restoreImages [simp]: "length (restoreImages bs ds) = length ds"
  by (induction bs ds rule: restoreImages.induct) simp_all

lemma ok_start: "iic_ok (startTransaction c)"
  using lookup_bound [of c] by (auto simp: startTransaction_def iic_ok_def Let_def not_less)

lemma ok_control: "iic_ok c \<Longrightarrow> iic_ok (iic_control_write v c)"
  by (simp add: iic_control_write_def Let_def ok_start) (simp add: iic_ok_def)

lemma ok_curDevice:
  "iic_ok c \<Longrightarrow> iic_phase c \<in> {Iic_WriteData, Iic_ReadData} \<Longrightarrow>
     curDevice c = Some (iic_devices c ! nat (iic_curDev c))"
  by (auto simp: iic_ok_def curDevice_def)

lemma ok_setDevice [simp]: "iic_ok (setDevice d c) = iic_ok c"
  by (simp add: iic_ok_def setDevice_def)

lemma ok_frame [simp]:
  "iic_ok (c\<lparr>iic_status := s\<rparr>) = iic_ok c" "iic_ok (c\<lparr>iic_firstWrite := b\<rparr>) = iic_ok c"
  "iic_ok (c\<lparr>iic_dummyDone := b\<rparr>) = iic_ok c" "iic_ok (c\<lparr>iic_shift := x\<rparr>) = iic_ok c"
  "iic_ok (c\<lparr>iic_ownAddr := x\<rparr>) = iic_ok c" "iic_ok (c\<lparr>iic_clock := x\<rparr>) = iic_ok c"
  "iic_ok (c\<lparr>iic_vector := x\<rparr>) = iic_ok c"
  by (simp_all add: iic_ok_def)

lemma iic_ioWrite_ok:
  assumes "iic_ok c"
  shows "\<exists>c1. iic_ioWrite port v w c = Some c1 \<and> iic_ok c1"
proof -
  have "\<exists>c1. iic_data_write x c = Some c1 \<and> iic_ok c1" for x
    using assms ok_curDevice [OF assms] by (auto simp: iic_data_write_def split: IicSel.split)
  then show ?thesis using assms ok_control by (simp add: iic_ioWrite_def Let_def)
qed

lemma iic_ioRead_ok:
  assumes "iic_ok c"
  shows "\<exists>x c1. iic_ioRead port w c = Some (x, c1) \<and> iic_ok c1"
  using assms ok_curDevice [OF assms] by (auto simp: iic_ioRead_def)

lemma iic_ok_reset [simp]: "iic_ok (iic_reset c)" "iic_ok newIic" "iic_ok (configureDevices devs c)"
  by (simp_all add: iic_ok_def iic_reset_def newIic_def configureDevices_def)

lemma ok_restore: "iic_ok c \<Longrightarrow> iic_ok (restoreContentImage bs c)"
  by (simp add: iic_ok_def restoreContentImage_def)

section \<open>Transfers\<close>

definition iic_ready :: "Iic \<Rightarrow> bool" where
  "iic_ready c \<longleftrightarrow> iic_phase c = Iic_Idle \<and> iic_control c AND kCtl_ES0 \<noteq> 0"

fun storeRun :: "u8 list \<Rightarrow> IicDevice \<Rightarrow> IicDevice" where
  "storeRun [] d = d"
| "storeRun (b # bs) d =
    storeRun bs (d\<lparr>iic_image := (iic_image d)(iic_offset d := b), iic_offset := iic_offset d + 1\<rparr>)"

definition spliceBytes :: "u8 \<Rightarrow> u8 list \<Rightarrow> (u8 \<Rightarrow> u8) \<Rightarrow> u8 \<Rightarrow> u8" where
  "spliceBytes off bs im x = (if unat (x - off) < length bs then bs ! unat (x - off) else im x)"

lemma spliceBytes_Nil: "spliceBytes off [] im = im"
  by (rule ext) (simp add: spliceBytes_def)

lemma spliceBytes_Cons:
  assumes "length bs < 256"
  shows "spliceBytes (off + 1) bs (im(off := b)) = spliceBytes off (b # bs) im"
proof (rule ext)
  fix x :: u8
  show "spliceBytes (off + 1) bs (im(off := b)) x = spliceBytes off (b # bs) im x"
  proof (cases "x = off")
    case True
    have "unat (- 1 :: u8) = 255" by (simp add: unsigned_minus_1_eq_mask mask_eq_exp_minus_1)
    then show ?thesis using True assms by (simp add: spliceBytes_def)
  next
    case False
    define y where "y = x - off"
    have y: "y \<noteq> 0" "x = off + y" using False by (simp_all add: y_def)
    have "unat (y - 1) = unat y - 1" using y(1) by (simp add: unat_minus_one)
    moreover have "unat y \<noteq> 0" using y(1) by (simp add: unat_eq_0)
    moreover have "unat (x - (off + 1)) = unat (y - 1)" by (rule arg_cong) (simp add: y_def)
    ultimately have "unat (x - (off + 1)) = unat y - 1" "unat y \<noteq> 0" by simp_all
    then show ?thesis using False by (auto simp: spliceBytes_def nth_Cons' y_def)
  qed
qed

lemma storeRun_frame [simp]:
  "iic_address (storeRun bs d) = iic_address d" "iic_kind (storeRun bs d) = iic_kind d"
  by (induction bs arbitrary: d) simp_all

lemma image_storeRun:
  "length bs \<le> 256 \<Longrightarrow> iic_image (storeRun bs d) = spliceBytes (iic_offset d) bs (iic_image d)"
proof (induction bs arbitrary: d)
  case (Cons b bs)
  then show ?case by (simp add: spliceBytes_Cons)
qed (simp add: spliceBytes_Nil)

lemma bit_node_mask: "bit (0xFE :: u8) n \<longleftrightarrow> 0 < n \<and> n < 8"
proof (cases "n < 8")
  case True
  then show ?thesis by (auto simp: less_Suc_eq eval_nat_numeral)
qed (simp add: bit_u8_out)

lemma node_address:
  "\<not> bit node 0 \<Longrightarrow> node AND 0xFE = (node :: u8)" "\<not> bit node 0 \<Longrightarrow> (node OR 1) AND 0xFE = (node :: u8)"
  by (rule bit_word_eqI; unfold bit_and_iff bit_or_iff bit_node_mask bit_1_iff; auto simp: bit_u8_out intro: gr0I)+

lemma direction_bit: "(a :: u8) AND 1 \<noteq> 0 \<longleftrightarrow> bit a 0" "bit (a OR 1) 0"
  using and_exp_neq_0_iff [of a 0] by (simp_all add: bit_or_iff)

lemma ucast_byte64: "(ucast (ucast (b :: u8) AND (0xFF :: u64)) :: u8) = b"
  by (rule bit_word_eqI) (auto simp: bit_simps)

lemma iicSend_append: "iicSend (xs @ ys) c = Option.bind (iicSend xs c) (iicSend ys)"
proof (induction xs c rule: iicSend.induct)
  case (2 port v ws c)
  then show ?case by (cases "iic_ioWrite port v 1 c") simp_all
qed simp

lemma data_write_port: "iic_ioWrite kOffData (ucast b) 1 c = iic_data_write b c"
  by (simp add: iic_ioWrite_def iic_consts ucast_byte64)

lemma control_write_port:
  "iic_ioWrite kOffCtrlSt kStart 1 c = Some (iic_control_write 0xC5 c)"
  "iic_ioWrite kOffCtrlSt kStop 1 c = Some (iic_control_write 0xC3 c)"
  by (simp_all add: iic_ioWrite_def iic_consts kStart_def kStop_def)

lemma send_address:
  assumes "iic_ready c" "deviceLookup c (a AND 0xFE) = int i" "i < length (iic_devices c)"
  shows "iicSend (dataWrites [a] @ [(kOffCtrlSt, kStart)]) c =
    Some (c\<lparr>iic_shift := a, iic_control := 0xC5, iic_curDev := int i, iic_status := 0, iic_dummyDone := False,
            iic_firstWrite := True, iic_phase := (if bit a 0 then Iic_ReadData else Iic_WriteData)\<rparr>)"
proof -
  have "iic_data_write a c = Some (c\<lparr>iic_shift := a\<rparr>)"
    using assms(1) by (simp add: iic_data_write_def iic_ready_def regSelect_def)
  moreover have "iic_control_write 0xC5 (c\<lparr>iic_shift := a\<rparr>) =
    c\<lparr>iic_shift := a, iic_control := 0xC5, iic_curDev := int i, iic_status := 0, iic_dummyDone := False,
      iic_firstWrite := True, iic_phase := (if bit a 0 then Iic_ReadData else Iic_WriteData)\<rparr>"
    using assms(2) by (simp add: iic_control_write_def startTransaction_def deviceLookup_def kCtl_STA_def direction_bit)
  ultimately show ?thesis by (simp add: dataWrites_def data_write_port control_write_port)
qed

lemma send_data:
  assumes "iic_phase c = Iic_WriteData" "iic_curDev c = int i" "i < length (iic_devices c)"
    "\<not> iic_firstWrite c" "iic_status c = 0" "iic_kind (iic_devices c ! i) \<noteq> StatusReg \<or> bs = []"
  shows "iicSend (dataWrites bs) c =
    Some (c\<lparr>iic_devices := (iic_devices c)[i := storeRun bs (iic_devices c ! i)]\<rparr>)"
  using assms
proof (induction bs arbitrary: c)
  case (Cons b bs)
  let ?d = "iic_devices c ! i"
  let ?c = "c\<lparr>iic_devices := (iic_devices c)[i := ?d\<lparr>iic_image := (iic_image ?d)(iic_offset ?d := b),
      iic_offset := iic_offset ?d + 1\<rparr>]\<rparr>"
  have "iic_data_write b c = Some ?c"
    using Cons.prems by (simp add: iic_data_write_def curDevice_def setDevice_def)
  moreover have "iicSend (dataWrites bs) ?c =
      Some (?c\<lparr>iic_devices := (iic_devices ?c)[i := storeRun bs (iic_devices ?c ! i)]\<rparr>)"
    by (rule Cons.IH) (use Cons.prems in simp_all)
  ultimately show ?case using Cons.prems by (simp add: dataWrites_def data_write_port)
qed (simp add: dataWrites_def)

lemma send_stop:
  "iicSend [(kOffCtrlSt, kStop)] c =
     Some (c\<lparr>iic_control := 0xC3, iic_status := 0x81, iic_phase := Iic_Idle, iic_curDev := - 1\<rparr>)"
  by (simp add: control_write_port iic_control_write_def kCtl_STA_def kCtl_STO_def kSt_PIN_def kSt_BB_def)

text \<open>A whole write: the device moves to the offset and takes the bytes, and the controller is ready again.\<close>

lemma send_put:
  assumes "iic_ready c" "deviceLookup c node = int i" "i < length (iic_devices c)" "\<not> bit node 0"
    and "iic_kind (iic_devices c ! i) \<noteq> StatusReg \<or> bs = []"
  shows "\<exists>c1. iicSend (iicPut node off bs) c = Some c1 \<and> iic_ready c1 \<and>
    iic_devices c1 = (iic_devices c)[i := storeRun bs ((iic_devices c ! i)\<lparr>iic_offset := off\<rparr>)]"
proof -
  let ?c = "c\<lparr>iic_shift := node, iic_control := 0xC5, iic_curDev := int i, iic_status := 0, iic_dummyDone := False,
      iic_firstWrite := True, iic_phase := Iic_WriteData\<rparr>"
  have start: "iicSend (dataWrites [node] @ [(kOffCtrlSt, kStart)]) c = Some ?c"
    using send_address [OF assms(1), of node i] assms(2,3,4) by (simp add: node_address)
  let ?d = "(iic_devices c ! i)\<lparr>iic_offset := off\<rparr>"
  let ?c2 = "?c\<lparr>iic_devices := (iic_devices c)[i := ?d], iic_firstWrite := False\<rparr>"
  have off: "iic_data_write off ?c = Some ?c2"
    using assms(3) by (simp add: iic_data_write_def curDevice_def setDevice_def)
  have "iicSend (dataWrites bs) ?c2 =
      Some (?c2\<lparr>iic_devices := (iic_devices ?c2)[i := storeRun bs (iic_devices ?c2 ! i)]\<rparr>)"
    by (rule send_data) (use assms in auto)
  then have data: "iicSend (dataWrites (off # bs)) ?c =
      Some (?c2\<lparr>iic_devices := (iic_devices c)[i := storeRun bs ?d]\<rparr>)"
    using assms(3) off by (simp add: dataWrites_def data_write_port)
  have "iicPut node off bs =
      ((dataWrites [node] @ [(kOffCtrlSt, kStart)]) @ dataWrites (off # bs)) @ [(kOffCtrlSt, kStop)]"
    by (simp add: iicPut_def)
  then show ?thesis
    by (simp only: iicSend_append [of "_ @ _"] start data send_stop Option.bind.simps)
      (simp add: iic_ready_def kCtl_ES0_def)
qed

lemma receive_data:
  assumes "iic_phase c = Iic_ReadData" "iic_curDev c = int i" "i < length (iic_devices c)" "iic_dummyDone c"
  shows "iicReceive n c =
    Some (map (\<lambda>k. ucast (iic_image (iic_devices c ! i) (iic_offset (iic_devices c ! i) + of_nat k))) [0..<n],
      c\<lparr>iic_devices := (iic_devices c)[i := (iic_devices c ! i)\<lparr>iic_offset := iic_offset (iic_devices c ! i) + of_nat n\<rparr>]\<rparr>)"
  using assms
proof (induction n arbitrary: c)
  case (Suc n)
  let ?d = "iic_devices c ! i"
  let ?c = "c\<lparr>iic_devices := (iic_devices c)[i := ?d\<lparr>iic_offset := iic_offset ?d + 1\<rparr>]\<rparr>"
  have "iic_ioRead kOffData 1 c = Some (ucast (iic_image ?d (iic_offset ?d)), ?c)"
    using Suc.prems by (simp add: iic_ioRead_def kOffData_def kOffCtrlSt_def curDevice_def setDevice_def)
  moreover have "iicReceive n ?c = Some (map (\<lambda>k. ucast (iic_image (iic_devices ?c ! i)
      (iic_offset (iic_devices ?c ! i) + of_nat k))) [0..<n], ?c\<lparr>iic_devices := (iic_devices ?c)[i :=
      (iic_devices ?c ! i)\<lparr>iic_offset := iic_offset (iic_devices ?c ! i) + of_nat n\<rparr>]\<rparr>)"
    by (rule Suc.IH) (use Suc.prems in simp_all)
  moreover have "[0..<Suc n] = 0 # map Suc [0..<n]" by (simp add: upt_conv_Cons map_Suc_upt)
  ultimately show ?case using Suc.prems by (simp add: ac_simps)
qed simp

lemma list_update_images: "i < length ds \<Longrightarrow> iic_image d = iic_image (ds ! i) \<Longrightarrow> map iic_image (ds[i := d]) = map iic_image ds"
  by (metis list_update_id map_update nth_map)

lemma lookup_cong: "map iic_address ds = map iic_address ds' \<Longrightarrow> lookupFrom j a ds = lookupFrom j a ds'"
proof (induction ds arbitrary: ds' j)
  case (Cons d ds)
  then show ?case by (cases ds') simp_all
qed simp

lemma lookup_same:
  "map iic_address (iic_devices c1) = map iic_address (iic_devices c) \<Longrightarrow> deviceLookup c1 a = deviceLookup c a"
  unfolding deviceLookup_def by (rule lookup_cong)

lemma iic_get:
  assumes "iic_ready c" "deviceLookup c node = int i" "i < length (iic_devices c)" "\<not> bit node 0"
  shows "\<exists>c1. iicGet node off n c = Some (map (\<lambda>k. ucast (iic_image (iic_devices c ! i) (off + of_nat k))) [0..<n], c1)
    \<and> iic_ready c1 \<and> iicContents c1 = iicContents c"
proof -
  obtain c1 where put: "iicSend (iicPut node off []) c = Some c1" "iic_ready c1"
      and d1: "iic_devices c1 = (iic_devices c)[i := (iic_devices c ! i)\<lparr>iic_offset := off\<rparr>]"
    using send_put [OF assms, of "[]" off] by auto
  have "map iic_address (iic_devices c1) = map iic_address (iic_devices c)"
    using assms(3) by (simp add: d1 map_update) (metis list_update_id nth_map)
  then have "deviceLookup c1 node = deviceLookup c node" by (rule lookup_same)
  then have start: "iicSend (dataWrites [node OR 1] @ [(kOffCtrlSt, kStart)]) c1 =
      Some (c1\<lparr>iic_shift := node OR 1, iic_control := 0xC5, iic_curDev := int i, iic_status := 0,
        iic_dummyDone := False, iic_firstWrite := True, iic_phase := Iic_ReadData\<rparr>)"
    using send_address [OF put(2), of "node OR 1" i] assms(2-4) d1
    by (simp add: node_address direction_bit)
  let ?c2 = "c1\<lparr>iic_shift := node OR 1, iic_control := 0xC5, iic_curDev := int i, iic_status := 0,
        iic_firstWrite := True, iic_phase := Iic_ReadData, iic_dummyDone := True\<rparr>"
  let ?im = "iic_image (iic_devices c ! i)"
  have "iicReceive n ?c2 = Some (map (\<lambda>k. ucast (?im (off + of_nat k))) [0..<n],
      ?c2\<lparr>iic_devices := (iic_devices c)[i := (iic_devices c ! i)\<lparr>iic_offset := off + of_nat n\<rparr>]\<rparr>)"
    using receive_data [of ?c2 i n] assms(3) by (simp add: d1)
  then have "iicReceive (Suc n) (?c2\<lparr>iic_dummyDone := False\<rparr>) = Some (0xFF # map (\<lambda>k. ucast (?im (off + of_nat k))) [0..<n],
      ?c2\<lparr>iic_devices := (iic_devices c)[i := (iic_devices c ! i)\<lparr>iic_offset := off + of_nat n\<rparr>]\<rparr>)"
    by (simp add: iic_ioRead_def kOffData_def kOffCtrlSt_def)
  moreover have "iicSend (iicPut node off [] @ dataWrites [node OR 1] @ [(kOffCtrlSt, kStart)]) c =
      Some (?c2\<lparr>iic_dummyDone := False\<rparr>)"
    using start by (simp only: iicSend_append [of "iicPut node off []"] put Option.bind.simps) simp
  ultimately show ?thesis
    using assms(3) by (simp only: iicGet_def Option.bind.simps prod.case send_stop option.map list.sel)
      (simp add: iic_ready_def kCtl_ES0_def iicContents_def list_update_images)
qed

lemma map_splice:
  assumes "length bs \<le> 256"
  shows "map (\<lambda>k. spliceBytes off bs im (off + of_nat k)) [0..<length bs] = bs"
proof (rule nth_equalityI)
  fix k assume k: "k < length (map (\<lambda>k. spliceBytes off bs im (off + of_nat k)) [0..<length bs])"
  then have "unat (of_nat k :: u8) = k" using assms by (simp add: unat_of_nat take_bit_nat_eq_self)
  then show "map (\<lambda>k. spliceBytes off bs im (off + of_nat k)) [0..<length bs] ! k = bs ! k"
    using k by (simp add: spliceBytes_def)
qed simp

section \<open>Snapshot of the contents\<close>

lemma length_contentImage: "length (contentImage c) = contentBytes c"
  by (simp add: contentImage_def contentBytes_def length_concat o_def sum_list_triv)

lemma unat_byte: "unat (w :: u8) < 2 ^ LENGTH(8)"
  by (rule unsigned_less)

lemma restoreImages_content:
  "length ds0 = length ds \<Longrightarrow>
   restoreImages (concat (map (\<lambda>d. map (\<lambda>i. iic_image d (of_nat i)) [0..<kImageSize]) ds)) ds0
     = map2 (\<lambda>d0 d. d0\<lparr>iic_image := iic_image d\<rparr>) ds0 ds"
proof (induction ds0 ds rule: list_induct2')
  case (4 d0 ds0 d ds)
  have "map (\<lambda>i. iic_image d (of_nat i)) [0..<kImageSize] ! unat off = iic_image d off" for off :: u8
    using unat_byte [of off] by (simp add: kImageSize_def)
  moreover have "unat off < kImageSize" for off :: u8
    using unat_byte [of off] by (simp add: kImageSize_def)
  ultimately show ?case using 4 by (simp add: nth_append)
qed auto

lemma restore_content:
  "length (iic_devices c0) = length (iic_devices c) \<Longrightarrow>
   restoreContentImage (contentImage c) c0 =
     c0\<lparr>iic_devices := map2 (\<lambda>d0 d. d0\<lparr>iic_image := iic_image d\<rparr>) (iic_devices c0) (iic_devices c)\<rparr>"
  using length_contentImage [of c] restoreImages_content [of "iic_devices c0" "iic_devices c"]
  by (simp add: restoreContentImage_def contentBytes_def contentImage_def)

section \<open>Properties\<close>

text \<open>
  C28. Whatever bytes a driver writes to a memory device on the I2C bus it reads back: a write transfer of
  up to 256 bytes at any offset completes, changes exactly those bytes of the addressed device and
  nothing of the others, and a read transfer from the same offset then returns the bytes in order,
  after the dummy, without changing any device.
\<close>

theorem iic_transfer_roundtrip:
  assumes "iic_ready c" "deviceLookup c node = int i" "\<not> bit node 0"
    and "iic_kind (iic_devices c ! i) \<noteq> StatusReg" "length bs \<le> 256"
  shows "\<exists>c1 c2. iicSend (iicPut node off bs) c = Some c1 \<and>
    iicContents c1 = (iicContents c)[i := spliceBytes off bs (iicContents c ! i)] \<and>
    iicGet node off (length bs) c1 = Some (map ucast bs, c2) \<and> iicContents c2 = iicContents c1"
proof -
  have i: "i < length (iic_devices c)" using lookup_bound [of c node] assms(2) by simp
  let ?d = "storeRun bs ((iic_devices c ! i)\<lparr>iic_offset := off\<rparr>)"
  obtain c1 where put: "iicSend (iicPut node off bs) c = Some c1" "iic_ready c1"
      and d1: "iic_devices c1 = (iic_devices c)[i := ?d]"
    using send_put [OF assms(1,2) i assms(3), of bs off] assms(4) by auto
  have im: "iic_image ?d = spliceBytes off bs (iic_image (iic_devices c ! i))"
    using image_storeRun [OF assms(5)] by simp
  have "map iic_address (iic_devices c1) = map iic_address (iic_devices c)"
    using i by (simp add: d1 map_update) (metis list_update_id nth_map)
  then have "deviceLookup c1 node = int i" using lookup_same assms(2) by metis
  then obtain c2 where "iicGet node off (length bs) c1 =
      Some (map (\<lambda>k. ucast (iic_image (iic_devices c1 ! i) (off + of_nat k))) [0..<length bs], c2)"
      "iicContents c2 = iicContents c1"
    using iic_get [OF put(2), of node i off "length bs"] i assms(3) by (auto simp: d1)
  moreover have "map (\<lambda>k. ucast (iic_image (iic_devices c1 ! i) (off + of_nat k))) [0..<length bs] = (map ucast bs :: u64 list)"
    using arg_cong [OF map_splice [OF assms(5), of off "iic_image (iic_devices c ! i)"], of "map ucast"] i
    by (simp add: d1 im o_def)
  ultimately show ?thesis using put(1) i by (simp add: d1 im iicContents_def map_update)
qed

theorem iic_transfer_roundtrip_witness:
  "\<exists>c1 c2. iicSend (iicPut 0xA2 0xFE [1, 2, 3]) (configureDevices
      [\<lparr>iic_address = 0xA2, iic_kind = Nvram, iic_image = (\<lambda>_. 0), iic_offset = 0\<rparr>] newIic
      \<lparr>iic_control := 0xC3\<rparr>) = Some c1 \<and>
    iicGet 0xA2 0xFE (length [1, 2, 3 :: u8]) c1 = Some (map ucast [1, 2, 3 :: u8], c2)"
proof -
  let ?c = "configureDevices [\<lparr>iic_address = 0xA2, iic_kind = Nvram, iic_image = (\<lambda>_. 0), iic_offset = 0\<rparr>] newIic
      \<lparr>iic_control := 0xC3\<rparr>"
  have "iic_ready ?c" "deviceLookup ?c 0xA2 = int 0" "\<not> bit (0xA2 :: u8) 0"
      "iic_kind (iic_devices ?c ! 0) \<noteq> StatusReg"
    by (simp_all add: iic_ready_def configureDevices_def iic_reset_def deviceLookup_def kCtl_ES0_def)
  from iic_transfer_roundtrip [OF this, of "[1, 2, 3]" "0xFE"] show ?thesis by auto
qed

text \<open>
  A START inside a transfer does not see a new address: the address byte goes to the device as data,
  and the START addresses the node of the first START again.
\<close>

lemma repeated_start_stores_address:
  "case iicSend (dataWrites [0xA2] @ [(kOffCtrlSt, kStart)] @ dataWrites [0x10] @ dataWrites [0xA3] @ [(kOffCtrlSt, kStart)])
      (configureDevices [\<lparr>iic_address = 0xA2, iic_kind = Nvram, iic_image = (\<lambda>_. 0), iic_offset = 0\<rparr>] newIic
       \<lparr>iic_control := 0xC3\<rparr>) of
     Some c1 \<Rightarrow> iic_phase c1 = Iic_WriteData \<and> (iicContents c1 ! 0) 0x10 = 0xA3
   | None \<Rightarrow> False"
  by code_simp


end
