(* ===== verification/FlashRom.thy ===== *)
theory FlashRom
  imports Prelude
begin

text \<open>
  The AMD Am29F016 flash of chipsetLib/FlashRom.h and FlashRom.cpp: the command state machine behind
  its byte reads and writes, seeding and snapshot restore, and the debounced flush to the backing file.

  The array is a function of the byte offset (the source's vector always has kSize bytes). The file
  system is a partial map from paths to contents; how a flush or a load ends on the host (file cannot
  be opened, short write or read, rename refused) is an argument. Trace output is not modelled.
\<close>

section \<open>State\<close>

datatype FlashMode = F_Read | F_Step1 | F_Step2 | F_Autosel | F_Program | F_Erase3 | F_Erase4 | F_Erase5
  | F_Confirm0 | F_Confirm1

record FlashRom =
  fl_data :: "nat \<Rightarrow> u8"
  fl_mode :: FlashMode
  fl_dirty :: bool
  fl_pendingMutation :: bool
  fl_backingLoaded :: bool
  fl_lastMutateCycle :: u64
  fl_path :: string

definition kFlashSize :: nat where "kFlashSize = 0x200000"

definition kSectorSize :: u32 where "kSectorSize = 0x10000"

definition kErased :: u8 where "kErased = 0xFF"

definition kOffMask :: u32 where "kOffMask = of_nat kFlashSize - 1"

definition kFlushQuiescenceCycles :: u64 where "kFlushQuiescenceCycles = 8000000"

definition newFlash :: FlashRom where
  "newFlash = \<lparr>fl_data = (\<lambda>_. kErased), fl_mode = F_Read, fl_dirty = False, fl_pendingMutation = False,
     fl_backingLoaded = False, fl_lastMutateCycle = 0, fl_path = []\<rparr>"

definition factoryInit :: "FlashRom \<Rightarrow> FlashRom" where
  "factoryInit f = f\<lparr>fl_data := (\<lambda>_. kErased), fl_mode := F_Read, fl_dirty := False,
     fl_pendingMutation := False\<rparr>"

definition flashIndex :: "u32 \<Rightarrow> nat" where
  "flashIndex off = unat (off AND kOffMask)"

section \<open>Bus access\<close>

definition flash_read :: "u32 \<Rightarrow> FlashRom \<Rightarrow> u64 \<times> FlashRom" where
  "flash_read off f =
    (case fl_mode f of
       F_Autosel \<Rightarrow> (if off = 0 then 0x01 else if off = 1 then 0xAD else 0, f)
     | F_Confirm1 \<Rightarrow> (0x80, f\<lparr>fl_mode := F_Confirm0\<rparr>)
     | F_Confirm0 \<Rightarrow> (0x80, f\<lparr>fl_mode := F_Read\<rparr>)
     | _ \<Rightarrow> (ucast (fl_data f (flashIndex off)), f))"

definition mutated :: "(nat \<Rightarrow> u8) \<Rightarrow> FlashMode \<Rightarrow> FlashRom \<Rightarrow> FlashRom" where
  "mutated d m f = f\<lparr>fl_data := d, fl_dirty := True, fl_pendingMutation := True, fl_mode := m\<rparr>"

definition sectorBase :: "u32 \<Rightarrow> u32" where
  "sectorBase off = (off AND kOffMask) AND NOT (kSectorSize - 1)"

definition flash_write :: "u32 \<Rightarrow> u64 \<Rightarrow> FlashRom \<Rightarrow> FlashRom" where
  "flash_write off dat f =
    (let d = ucast dat :: u8; goto = (\<lambda>m. f\<lparr>fl_mode := m\<rparr>) in
     case fl_mode f of
       F_Read \<Rightarrow> if off = 0x5555 \<and> d = 0xAA then goto F_Step1 else goto F_Read
     | F_Autosel \<Rightarrow> if off = 0x5555 \<and> d = 0xAA then goto F_Step1 else goto F_Read
     | F_Step1 \<Rightarrow> if off = 0x2AAA \<and> d = 0x55 then goto F_Step2 else goto F_Read
     | F_Step2 \<Rightarrow>
         if off \<noteq> 0x5555 then goto F_Read
         else if d = 0x90 then goto F_Autosel
         else if d = 0xA0 then goto F_Program
         else if d = 0x80 then goto F_Erase3
         else goto F_Read
     | F_Erase3 \<Rightarrow> if off = 0x5555 \<and> d = 0xAA then goto F_Erase4 else goto F_Read
     | F_Erase4 \<Rightarrow> if off = 0x2AAA \<and> d = 0x55 then goto F_Erase5 else goto F_Read
     | F_Erase5 \<Rightarrow>
         if off = 0x5555 \<and> d = 0x10 then mutated (\<lambda>_. kErased) F_Confirm1 f
         else if d = 0x30 then
           mutated (\<lambda>i. if unat (sectorBase off) \<le> i \<and> i < unat (sectorBase off) + unat kSectorSize
                        then kErased else fl_data f i) F_Confirm1 f
         else goto F_Read
     | F_Program \<Rightarrow> mutated ((fl_data f)(flashIndex off := d)) F_Read f
     | _ \<Rightarrow> goto F_Read)"

section \<open>Persistence\<close>

type_synonym files = "string \<rightharpoonup> u8 list"

definition flashImage :: "FlashRom \<Rightarrow> u8 list" where
  "flashImage f = map (fl_data f) [0..<kFlashSize]"

definition copyBytes :: "u8 list \<Rightarrow> (nat \<Rightarrow> u8) \<Rightarrow> nat \<Rightarrow> u8" where
  "copyBytes bs d i = (if i < min (length bs) kFlashSize then bs ! i else d i)"

definition loadRaw :: "files \<Rightarrow> bool \<Rightarrow> string \<Rightarrow> FlashRom \<Rightarrow> FlashRom" where
  "loadRaw fs shortRead path f =
    (let f1 = factoryInit (f\<lparr>fl_path := path\<rparr>) in
     if path = [] then f1
     else case fs path of
       None \<Rightarrow> f1
     | Some bs \<Rightarrow>
         if length bs \<noteq> kFlashSize then f1
         else if shortRead then factoryInit f1
         else f1\<lparr>fl_data := copyBytes bs (fl_data f1), fl_mode := F_Read, fl_dirty := False,
                 fl_backingLoaded := True\<rparr>)"

definition seedFrom :: "u8 list \<Rightarrow> FlashRom \<Rightarrow> FlashRom" where
  "seedFrom bs f =
    (if bs = [] then f
     else f\<lparr>fl_data := copyBytes bs (fl_data f), fl_mode := F_Read, fl_dirty := True,
            fl_pendingMutation := True, fl_lastMutateCycle := 0\<rparr>)"

definition restoreImage :: "u8 list \<Rightarrow> FlashRom \<Rightarrow> FlashRom" where
  "restoreImage bs f = f\<lparr>fl_data := copyBytes bs (\<lambda>_. kErased), fl_mode := F_Read,
     fl_backingLoaded := True, fl_dirty := False, fl_pendingMutation := False, fl_lastMutateCycle := 0\<rparr>"

datatype HostOutcome = CannotOpen | ShortWrite | RenameFailed | Written

definition flushToFile :: "HostOutcome \<Rightarrow> FlashRom \<Rightarrow> files \<Rightarrow> bool \<times> files" where
  "flushToFile out f fs =
    (let tmp = fl_path f @ ''.tmp'' in
     if fl_path f = [] then (False, fs)
     else case out of
       CannotOpen \<Rightarrow> (False, fs)
     | ShortWrite \<Rightarrow> (False, fs(tmp := None))
     | RenameFailed \<Rightarrow> (False, fs(tmp \<mapsto> flashImage f, fl_path f := None))
     | Written \<Rightarrow> (True, fs(tmp := None, fl_path f \<mapsto> flashImage f)))"

definition tryFlush :: "HostOutcome \<Rightarrow> u64 \<Rightarrow> FlashRom \<times> files \<Rightarrow> FlashRom \<times> files" where
  "tryFlush out nowCycle s =
    (case s of (f, fs) \<Rightarrow>
     if fl_pendingMutation f then (f\<lparr>fl_lastMutateCycle := nowCycle, fl_pendingMutation := False\<rparr>, fs)
     else if fl_dirty f \<and> kFlushQuiescenceCycles \<le> nowCycle - fl_lastMutateCycle f
     then (case flushToFile out f fs of (ok, fs1) \<Rightarrow> (if ok then f\<lparr>fl_dirty := False\<rparr> else f, fs1))
     else (f, fs))"

definition forceFlush :: "HostOutcome \<Rightarrow> FlashRom \<times> files \<Rightarrow> FlashRom \<times> files" where
  "forceFlush out s =
    (case s of (f, fs) \<Rightarrow>
     if fl_dirty f then (case flushToFile out f fs of (ok, fs1) \<Rightarrow> (if ok then f\<lparr>fl_dirty := False\<rparr> else f, fs1))
     else (f, fs))"

section \<open>Command sequences\<close>

type_synonym busWrite = "u32 \<times> u64"

definition writes :: "busWrite list \<Rightarrow> FlashRom \<Rightarrow> FlashRom" where
  "writes ws f = fold (\<lambda>(off, d). flash_write off d) ws f"

definition unlock :: "busWrite list" where
  "unlock = [(0x5555, 0xAA), (0x2AAA, 0x55)]"

definition programSeq :: "u32 \<Rightarrow> u8 \<Rightarrow> busWrite list" where
  "programSeq off d = unlock @ [(0x5555, 0xA0), (off, ucast d)]"

definition sectorEraseSeq :: "u32 \<Rightarrow> busWrite list" where
  "sectorEraseSeq off = unlock @ [(0x5555, 0x80)] @ unlock @ [(off, 0x30)]"

lemma kOffMask_mask: "kOffMask = mask 21"
  by (simp add: kOffMask_def kFlashSize_def mask_numeral)

lemma flashIndex_mod: "flashIndex off = unat off mod 2 ^ 21"
proof -
  have "off AND kOffMask = take_bit 21 off" by (simp add: kOffMask_mask take_bit_eq_mask)
  then show ?thesis unfolding flashIndex_def by (simp only: unsigned_take_bit_eq) (simp add: take_bit_eq_mod)
qed

lemma flashIndex_less: "flashIndex off < kFlashSize"
  by (simp add: flashIndex_mod kFlashSize_def)

lemma unat_align16: "unat (w AND NOT 0xFFFF) = unat (w :: u32) div 0x10000 * 0x10000"
proof -
  have eq: "w AND NOT 0xFFFF = push_bit 16 (drop_bit 16 w)" by (rule bit_word_eqI) (auto simp: bit_simps)
  have "push_bit 16 (drop_bit 16 (unat w)) < 2 ^ 32"
    using unsigned_less [of w, where ?'a = nat] by (simp add: push_bit_eq_mult drop_bit_eq_div)
  moreover have "take_bit 32 (unat w) = unat w"
    using unsigned_less [of w, where ?'a = nat] by (simp add: take_bit_nat_eq_self_iff)
  ultimately show ?thesis
    unfolding eq unsigned_push_bit_eq unsigned_drop_bit_eq
    by (simp add: push_bit_eq_mult drop_bit_eq_div take_bit_nat_eq_self)
qed

lemma sector_div: "unat (sectorBase off) = flashIndex off div 0x10000 * 0x10000"
  using unat_align16 [of "off AND kOffMask"] by (simp add: sectorBase_def kSectorSize_def flashIndex_def)

lemma in_sector:
  "unat (sectorBase off) \<le> i \<and> i < unat (sectorBase off) + unat kSectorSize \<longleftrightarrow>
     i div 0x10000 = flashIndex off div 0x10000"
  unfolding sector_div by (auto simp: kSectorSize_def)

text \<open>One write in each mode.\<close>

lemma flash_write_mode:
  "fl_mode f = F_Read \<Longrightarrow> flash_write off d f =
     (if off = 0x5555 \<and> (ucast d :: u8) = 0xAA then f\<lparr>fl_mode := F_Step1\<rparr> else f\<lparr>fl_mode := F_Read\<rparr>)"
  "fl_mode f = F_Autosel \<Longrightarrow> flash_write off d f =
     (if off = 0x5555 \<and> (ucast d :: u8) = 0xAA then f\<lparr>fl_mode := F_Step1\<rparr> else f\<lparr>fl_mode := F_Read\<rparr>)"
  "fl_mode f = F_Step1 \<Longrightarrow> flash_write off d f =
     (if off = 0x2AAA \<and> (ucast d :: u8) = 0x55 then f\<lparr>fl_mode := F_Step2\<rparr> else f\<lparr>fl_mode := F_Read\<rparr>)"
  "fl_mode f = F_Erase3 \<Longrightarrow> flash_write off d f =
     (if off = 0x5555 \<and> (ucast d :: u8) = 0xAA then f\<lparr>fl_mode := F_Erase4\<rparr> else f\<lparr>fl_mode := F_Read\<rparr>)"
  "fl_mode f = F_Erase4 \<Longrightarrow> flash_write off d f =
     (if off = 0x2AAA \<and> (ucast d :: u8) = 0x55 then f\<lparr>fl_mode := F_Erase5\<rparr> else f\<lparr>fl_mode := F_Read\<rparr>)"
  "fl_mode f = F_Program \<Longrightarrow> flash_write off d f = mutated ((fl_data f)(flashIndex off := ucast d)) F_Read f"
  by (simp_all only: flash_write_def Let_def FlashMode.case)

lemma unlock_effect:
  "fl_mode f \<in> {F_Read, F_Autosel} \<Longrightarrow> writes unlock f = f\<lparr>fl_mode := F_Step2\<rparr>"
  "fl_mode f = F_Erase3 \<Longrightarrow> writes unlock f = f\<lparr>fl_mode := F_Erase5\<rparr>"
  by (auto simp: writes_def unlock_def flash_write_mode)

lemma command_effect:
  "fl_mode f = F_Step2 \<Longrightarrow> flash_write 0x5555 0xA0 f = f\<lparr>fl_mode := F_Program\<rparr>"
  "fl_mode f = F_Step2 \<Longrightarrow> flash_write 0x5555 0x80 f = f\<lparr>fl_mode := F_Erase3\<rparr>"
  "fl_mode f = F_Erase5 \<Longrightarrow> flash_write off 0x30 f =
     mutated (\<lambda>i. if i div 0x10000 = flashIndex off div 0x10000 then kErased else fl_data f i) F_Confirm1 f"
  by (simp_all add: flash_write_def in_sector)

lemma writes_append: "writes (xs @ ys) f = writes ys (writes xs f)"
  by (simp add: writes_def)

lemma writes_single: "writes [(off, d)] f = flash_write off d f"
  by (simp add: writes_def)

lemma writes_Cons: "writes ((off, d) # ws) f = writes ws (flash_write off d f)" "writes [] f = f"
  by (simp_all add: writes_def)

lemma ucast_byte: "(ucast (ucast (d :: u8) :: u64) :: u8) = d"
  by (rule bit_word_eqI) (simp add: bit_simps)

lemma program_effect:
  assumes "fl_mode f \<in> {F_Read, F_Autosel}"
  shows "writes (programSeq off d) f = mutated ((fl_data f)(flashIndex off := d)) F_Read f"
  using assms
  by (simp add: programSeq_def writes_append unlock_effect writes_Cons command_effect flash_write_mode mutated_def
      ucast_byte)

lemma erase_effect:
  assumes "fl_mode f \<in> {F_Read, F_Autosel}"
  shows "writes (sectorEraseSeq off) f =
    mutated (\<lambda>i. if i div 0x10000 = flashIndex off div 0x10000 then kErased else fl_data f i) F_Confirm1 f"
  using assms
  by (simp add: sectorEraseSeq_def writes_append unlock_effect writes_Cons command_effect mutated_def
      cong: if_cong)

section \<open>Protection\<close>

datatype flashOp = BusRead u32 | BusWrite u32 u64

primrec flashStep :: "flashOp \<Rightarrow> FlashRom \<Rightarrow> FlashRom" where
  "flashStep (BusRead off) f = snd (flash_read off f)"
| "flashStep (BusWrite off d) f = flash_write off d f"

fun history :: "flashOp list \<Rightarrow> (u32 \<times> u8) list" where
  "history [] = []"
| "history (BusRead off # ops) = history ops"
| "history (BusWrite off d # ops) = (off, ucast d) # history ops"

text \<open>A write history that contains the unlock cycle followed by a program or an erase command.\<close>

definition unlocked :: "(u32 \<times> u8) list \<Rightarrow> bool" where
  "unlocked h \<longleftrightarrow> (\<exists>xs ys c. c \<in> {0xA0, 0x80} \<and>
     h = xs @ [(0x5555, 0xAA), (0x2AAA, 0x55), (0x5555, c)] @ ys)"

definition guarded :: "FlashRom \<Rightarrow> (u32 \<times> u8) list \<Rightarrow> FlashRom \<Rightarrow> bool" where
  "guarded f0 h f \<longleftrightarrow> (fl_data f \<noteq> fl_data f0 \<longrightarrow> unlocked h) \<and>
     (case fl_mode f of
        F_Read \<Rightarrow> True | F_Autosel \<Rightarrow> True
      | F_Step1 \<Rightarrow> (\<exists>xs. h = xs @ [(0x5555, 0xAA)])
      | F_Step2 \<Rightarrow> (\<exists>xs. h = xs @ [(0x5555, 0xAA), (0x2AAA, 0x55)])
      | _ \<Rightarrow> unlocked h)"

lemma unlocked_snoc: "unlocked h \<Longrightarrow> unlocked (h @ [w])"
  unfolding unlocked_def by (metis append.assoc)

lemma unlocked_now: "h = xs @ [(0x5555, 0xAA), (0x2AAA, 0x55)] \<Longrightarrow> c \<in> {0xA0, 0x80} \<Longrightarrow> unlocked (h @ [(0x5555, c)])"
  unfolding unlocked_def by (intro exI [of _ xs] exI [of _ "[]"] exI [of _ c]) simp

lemma guarded_read: "guarded f0 h f \<Longrightarrow> guarded f0 h (snd (flash_read off f))"
  by (cases "fl_mode f") (auto simp: guarded_def flash_read_def)

lemma guarded_write: "guarded f0 h f \<Longrightarrow> guarded f0 (h @ [(off, ucast d)]) (flash_write off d f)"
  by (cases "fl_mode f")
    (auto simp: guarded_def flash_write_def Let_def mutated_def intro: unlocked_snoc unlocked_now)

lemma guarded_run: "guarded f0 h f \<Longrightarrow> guarded f0 (h @ history ops) (fold flashStep ops f)"
proof (induction ops arbitrary: f h)
  case (Cons op ops)
  then show ?case
  proof (cases op)
    case (BusRead off)
    then show ?thesis using Cons.IH [OF guarded_read [OF Cons.prems, of off]] by simp
  next
    case (BusWrite off d)
    then show ?thesis using Cons.IH [OF guarded_write [OF Cons.prems, of off d]] by simp
  qed
qed simp

section \<open>Properties\<close>

text \<open>
  C33. Programming works and stays local: in read or autoselect mode the four-cycle program sequence
  stores the byte at its offset and changes no other byte, the six-cycle sector erase sets exactly the
  64 KB sector of its address to 0xFF; afterwards the device is back to reading, at once after a program
  and after the two status reads of 0x80 after an erase, and the change is marked for the next flush.
\<close>

theorem flash_program_and_erase:
  assumes "fl_mode f \<in> {F_Read, F_Autosel}"
  shows "(let p = writes (programSeq off d) f in
      flash_read off p = (ucast d, p) \<and> fl_dirty p \<and>
      (\<forall>i. i \<noteq> flashIndex off \<longrightarrow> fl_data p i = fl_data f i)) \<and>
    (let e = writes (sectorEraseSeq off) f; (s1, e1) = flash_read x e; (s2, e2) = flash_read y e1 in
      s1 = 0x80 \<and> s2 = 0x80 \<and> fl_mode e2 = F_Read \<and> fl_dirty e2 \<and>
      (\<forall>i. fl_data e2 i = (if i div 0x10000 = flashIndex off div 0x10000 then 0xFF else fl_data f i)))"
  unfolding program_effect [OF assms] erase_effect [OF assms]
  by (simp add: flash_read_def mutated_def kErased_def)

theorem flash_program_and_erase_witness:
  "fst (flash_read 0x1234 (writes (programSeq 0x1234 0x5A) newFlash)) = 0x5A"
  using flash_program_and_erase [of newFlash "0x1234" "0x5A"] by (simp add: newFlash_def Let_def)

text \<open>
  C25. The array is write-protected: whatever sequence of bus reads and writes is made on a device in
  read mode, its contents change only if the writes contain the unlock cycle directly followed by a
  program or erase command.
\<close>

theorem flash_write_protected:
  assumes "fl_mode f = F_Read" "fl_data (fold flashStep ops f) \<noteq> fl_data f"
  shows "unlocked (history ops)"
  using guarded_run [of f "[]" f ops] assms by (simp add: guarded_def)

theorem flash_write_protected_witness:
  "unlocked (history [BusWrite 0x5555 0xAA, BusRead 7, BusWrite 0x2AAA 0x55, BusWrite 0x5555 0xA0, BusWrite 3 0])"
proof (rule flash_write_protected [of newFlash])
  show "fl_mode newFlash = F_Read" by (simp add: newFlash_def)
  have "fl_data (fold flashStep [BusWrite 0x5555 0xAA, BusRead 7, BusWrite 0x2AAA 0x55, BusWrite 0x5555 0xA0,
      BusWrite 3 0] newFlash) 3 = 0"
    by (simp add: flash_write_mode command_effect flash_read_def mutated_def flashIndex_mod newFlash_def)
  moreover have "fl_data newFlash 3 = 0xFF" by (simp add: newFlash_def kErased_def)
  ultimately show "fl_data (fold flashStep [BusWrite 0x5555 0xAA, BusRead 7, BusWrite 0x2AAA 0x55,
      BusWrite 0x5555 0xA0, BusWrite 3 0] newFlash) \<noteq> fl_data newFlash" by force
qed

text \<open>
  What the firmware wrote survives a clean shutdown: after a flush of pending changes that the host
  completes, a device that binds the same file holds the same bytes at every offset and starts in read
  mode; a flush that fails before the rename leaves the file as it was and the change still pending.
\<close>

theorem flash_persists:
  assumes "fl_dirty f" "fl_path f \<noteq> []"
  shows "(let (f1, fs1) = forceFlush Written (f, fs); f2 = loadRaw fs1 False (fl_path f) newFlash in
      \<not> fl_dirty f1 \<and> fl_mode f2 = F_Read \<and> fl_backingLoaded f2 \<and>
      (\<forall>off. fst (flash_read off f2) = ucast (fl_data f (flashIndex off)))) \<and>
    (\<forall>out \<in> {CannotOpen, ShortWrite}. let (f1, fs1) = forceFlush out (f, fs) in
      f1 = f \<and> fs1 (fl_path f) = fs (fl_path f))"
proof -
  have len: "length (flashImage f) = kFlashSize" by (simp add: flashImage_def)
  have copy: "copyBytes (flashImage f) e (flashIndex off) = fl_data f (flashIndex off)" for e off
    using flashIndex_less [of off] by (simp add: copyBytes_def flashImage_def)
  have written: "forceFlush Written (f, fs) = (f\<lparr>fl_dirty := False\<rparr>,
      fs(fl_path f @ ''.tmp'' := None, fl_path f \<mapsto> flashImage f))"
    using assms by (simp add: forceFlush_def flushToFile_def)
  have loaded: "loadRaw (fs(fl_path f @ ''.tmp'' := None, fl_path f \<mapsto> flashImage f)) False (fl_path f) newFlash =
      newFlash\<lparr>fl_path := fl_path f, fl_data := copyBytes (flashImage f) (\<lambda>_. kErased), fl_backingLoaded := True\<rparr>"
    using assms(2) len by (simp add: loadRaw_def factoryInit_def newFlash_def)
  have failed: "forceFlush CannotOpen (f, fs) = (f, fs)"
    "forceFlush ShortWrite (f, fs) = (f, fs(fl_path f @ ''.tmp'' := None))"
    using assms by (simp_all add: forceFlush_def flushToFile_def)
  show ?thesis unfolding written loaded prod.case Let_def
    by (intro conjI) (simp_all add: flash_read_def newFlash_def copy failed)
qed

theorem flash_persists_witness:
  "fst (flash_read 0x10 (loadRaw (snd (forceFlush Written ((newFlash\<lparr>fl_path := ''ds10.rom''\<rparr>
     \<lparr>fl_data := (\<lambda>_. 7), fl_dirty := True\<rparr>), Map.empty))) False ''ds10.rom'' newFlash)) = 7"
  using flash_persists [of "newFlash\<lparr>fl_path := ''ds10.rom''\<rparr>\<lparr>fl_data := (\<lambda>_. 7), fl_dirty := True\<rparr>" Map.empty]
  by (simp add: Let_def case_prod_beta)

end
