(* ===== verification/Chipset.thy ===== *)
theory Chipset
  imports Pipeline Pchip Uart Pic Iic FlashRom
begin

text \<open>
  The chip set as the processors see it: chipsetLib/TsunamiChipset.h and TsunamiChipset.cpp. The bus
  arbiter decodes a physical address into the PAL scratchpad, DRAM, flash, TIG registers or the I/O
  window, routes the window to the Cchip, the Dchip, the Pchip and the devices behind it, and reports
  everything else as non-existent memory; the interrupt chain carries the serial lines through the
  interrupt controller pair into the Cchip; the tick raises the interval timer.

  COM1, COM2, the interrupt controllers and the I2C controller are the models of the theories Uart, Pic and
  Iic. The other ISA and PCI devices (keyboard controller, clock, IDE, super I/O, south bridge) are the
  argument \<open>isa\<close> of the operations, a record of the methods the chip set calls; nothing is assumed of
  them. The console backend is the queue of the bytes it has received. Probes and trace output are
  left out, except for the countdown register that arms the trace.
\<close>

section \<open>Devices\<close>

datatype Device = Com1 | Com2 | Kbd8042 | Rtc | PicPair | Ide | SuperIo | Iic | Cypress | Ali

record 'o IsaDevices =
  isa_ioRead :: "Device \<Rightarrow> u16 \<Rightarrow> u8 \<Rightarrow> 'o \<Rightarrow> u64 \<times> 'o"
  isa_ioWrite :: "Device \<Rightarrow> u16 \<Rightarrow> u64 \<Rightarrow> u8 \<Rightarrow> 'o \<Rightarrow> 'o"
  isa_cfgRead :: "Device \<Rightarrow> u8 \<Rightarrow> u8 \<Rightarrow> 'o \<Rightarrow> u32 \<times> 'o"
  isa_cfgWrite :: "Device \<Rightarrow> u8 \<Rightarrow> u32 \<Rightarrow> u8 \<Rightarrow> 'o \<Rightarrow> 'o"
  isa_fdcPending :: "'o \<Rightarrow> bool"
  host_connected :: "Device \<Rightarrow> bool"
  host_badgeMhz :: nat
  host_iicDrirBit :: "nat option"

record 'o Devices =
  m_com1 :: Uart
  m_com2 :: Uart
  m_pic :: Pic8259Pair
  m_pcf8584 :: Iic
  m_others :: 'o
  consoleQueue :: "u8 list"

definition uartWrite :: "nat \<Rightarrow> u16 \<Rightarrow> u64 \<Rightarrow> Uart \<Rightarrow> Uart" where
  "uartWrite mhz port v u = (case uart_ioWrite mhz port v u of Some u1 \<Rightarrow> u1 | None \<Rightarrow> u)"

definition iicRead :: "u16 \<Rightarrow> u8 \<Rightarrow> Iic \<Rightarrow> u64 \<times> Iic" where
  "iicRead port width c = (case iic_ioRead port width c of Some r \<Rightarrow> r | None \<Rightarrow> (0, c))"

definition iicWrite :: "u16 \<Rightarrow> u64 \<Rightarrow> u8 \<Rightarrow> Iic \<Rightarrow> Iic" where
  "iicWrite port v width c = (case iic_ioWrite port v width c of Some c1 \<Rightarrow> c1 | None \<Rightarrow> c)"

definition dev_ioRead :: "'o IsaDevices \<Rightarrow> Device \<Rightarrow> u16 \<Rightarrow> u8 \<Rightarrow> 'o Devices \<Rightarrow> u64 \<times> 'o Devices" where
  "dev_ioRead isa h port width d =
    (case h of
       Com1 \<Rightarrow> (case uart_ioRead (host_connected isa Com1) port (m_com1 d) of (v, u) \<Rightarrow> (ucast v, d\<lparr>m_com1 := u\<rparr>))
     | Com2 \<Rightarrow> (case uart_ioRead (host_connected isa Com2) port (m_com2 d) of (v, u) \<Rightarrow> (ucast v, d\<lparr>m_com2 := u\<rparr>))
     | PicPair \<Rightarrow> (case pic_ioRead port (m_pic d) of (v, p) \<Rightarrow> (ucast v, d\<lparr>m_pic := p\<rparr>))
     | Iic \<Rightarrow> (case iicRead port width (m_pcf8584 d) of (v, x) \<Rightarrow> (v, d\<lparr>m_pcf8584 := x\<rparr>))
     | _ \<Rightarrow> (case isa_ioRead isa h port width (m_others d) of (v, x) \<Rightarrow> (v, d\<lparr>m_others := x\<rparr>)))"

definition dev_ioWrite :: "'o IsaDevices \<Rightarrow> Device \<Rightarrow> u16 \<Rightarrow> u64 \<Rightarrow> u8 \<Rightarrow> 'o Devices \<Rightarrow> 'o Devices" where
  "dev_ioWrite isa h port v width d =
    (case h of
       Com1 \<Rightarrow> d\<lparr>m_com1 := uartWrite (host_badgeMhz isa) port v (m_com1 d)\<rparr>
     | Com2 \<Rightarrow> d\<lparr>m_com2 := uartWrite (host_badgeMhz isa) port v (m_com2 d)\<rparr>
     | PicPair \<Rightarrow> d\<lparr>m_pic := pic_ioWrite port v (m_pic d)\<rparr>
     | Iic \<Rightarrow> d\<lparr>m_pcf8584 := iicWrite port v width (m_pcf8584 d)\<rparr>
     | _ \<Rightarrow> d\<lparr>m_others := isa_ioWrite isa h port v width (m_others d)\<rparr>)"

definition deviceHandlers :: "'o IsaDevices \<Rightarrow> (Device, 'o Devices) Handlers" where
  "deviceHandlers isa = \<lparr>h_ioRead = dev_ioRead isa, h_ioWrite = dev_ioWrite isa,
     h_cfgRead = (\<lambda>h reg width d. case isa_cfgRead isa h reg width (m_others d) of (v, x) \<Rightarrow> (v, d\<lparr>m_others := x\<rparr>)),
     h_cfgWrite = (\<lambda>h reg v width d. d\<lparr>m_others := isa_cfgWrite isa h reg v width (m_others d)\<rparr>)\<rparr>"

section \<open>State\<close>

record 'o TsunamiChipset =
  m_model :: string
  m_guestMemory :: GuestMemory
  m_cchip :: Cchip
  m_dchip :: Dchip
  m_pchip :: "Device Pchip"
  m_tig :: Tig
  m_flash :: FlashRom
  m_palScratch :: "nat \<Rightarrow> u8"
  m_devices :: "'o Devices"
  m_cycleAccum :: u64
  m_lastPicLevel :: bool
  lastIicLevel :: bool
  traceCountdown :: u64

section \<open>Wiring\<close>

definition isAliPlatform :: "string \<Rightarrow> bool" where
  "isAliPlatform model \<longleftrightarrow> model = ''ES40'' \<or> model = ''ES45'' \<or> model = ''DS25''"

definition kIicBaseByModel :: "(string \<times> u64) list" where
  "kIicBaseByModel = [(''DS10'', 0xFFFF0000), (''DS20'', 0xFFF80000), (''DS20E'', 0xFFF80000)]"

definition wireDevices :: "string \<Rightarrow> Device Pchip \<Rightarrow> Device Pchip" where
  "wireDevices model p =
    (let p = registerPciDevice 0 5 0 (if isAliPlatform model then Ali else Cypress) p;
         p = fold (\<lambda>(a, z, h). registerIoPortRange a z h)
               [(0x3F8, 0x400, Com1), (0x2F8, 0x300, Com2), (0x60, 0x65, Kbd8042), (0x70, 0x72, Rtc),
                (0x20, 0x22, PicPair), (0xA0, 0xA2, PicPair), (0x4D0, 0x4D2, PicPair)] p;
         p = registerPciDevice 0 5 1 Ide p;
         p = fold (\<lambda>(a, z, h). registerIoPortRange a z h)
               [(0x1F0, 0x1F8, Ide), (0x170, 0x178, Ide), (0x3F6, 0x3F7, Ide), (0x376, 0x377, Ide),
                (0x3F0, 0x3F6, SuperIo), (0x3F7, 0x3F8, SuperIo), (0x536, 0x537, SuperIo)] p
     in case map_of kIicBaseByModel model of
          Some base \<Rightarrow> registerPciMemRange base (base + 2) Iic p
        | None \<Rightarrow> p)"

definition normalizeVariant :: "ChipsetVariant \<Rightarrow> ChipsetVariant" where
  "normalizeVariant v = (if v = UnknownVariant then Tsunami else v)"

definition newChipset :: "ChipsetVariant \<Rightarrow> string \<Rightarrow> int \<Rightarrow> u64 \<Rightarrow> GuestMemory \<Rightarrow> 'o Devices \<Rightarrow> 'o TsunamiChipset" where
  "newChipset v model cpus memBytes mem d =
    \<lparr>m_model = model, m_guestMemory = mem, m_cchip = newCchip v cpus memBytes,
     m_dchip = dchip_reset \<lparr>d_variant = v, m_dsc = 0, m_str = 0, m_drev = 0, m_dsc2 = 0\<rparr>,
     m_pchip = wireDevices model newPchip, m_tig = tig_reset, m_flash = newFlash, m_palScratch = (\<lambda>_. 0),
     m_devices = d, m_cycleAccum = 0, m_lastPicLevel = False, lastIicLevel = False, traceCountdown = 0\<rparr>"

definition chipset_reset :: "'o TsunamiChipset \<Rightarrow> 'o TsunamiChipset" where
  "chipset_reset c = c\<lparr>m_cchip := cchip_reset (m_cchip c), m_dchip := dchip_reset (m_dchip c),
     m_pchip := pchip_reset (m_pchip c), m_tig := tig_reset\<rparr>"

section \<open>Interrupts\<close>

definition mirrorLevel :: "nat \<Rightarrow> bool \<Rightarrow> Cchip \<Rightarrow> Cchip" where
  "mirrorLevel b level cc = (if level then assertInterrupt b cc else deassertInterrupt b cc)"

definition drainConsole :: "'o Devices \<Rightarrow> 'o Devices" where
  "drainConsole d =
    (if length (m_rxFifo (m_com1 d)) < kRxFifoDepth \<and> backend (m_com1 d)
     then case consoleQueue d of
            [] \<Rightarrow> d
          | ch # q \<Rightarrow> d\<lparr>consoleQueue := q, m_com1 := feedRxByte ch (m_com1 d)\<rparr>
     else d)"

definition setInputs :: "'o IsaDevices \<Rightarrow> 'o Devices \<Rightarrow> 'o Devices" where
  "setInputs isa d = d\<lparr>m_pic := setIrqInput 6 (isa_fdcPending isa (m_others d))
     (setIrqInput 3 (intPending (m_com2 d)) (setIrqInput 4 (intPending (m_com1 d)) (m_pic d)))\<rparr>"

definition evalDeviceIrqs :: "'o IsaDevices \<Rightarrow> 'o TsunamiChipset \<Rightarrow> 'o TsunamiChipset" where
  "evalDeviceIrqs isa c =
    (let d = setInputs isa (drainConsole (m_devices c));
         c1 = c\<lparr>m_devices := d\<rparr>;
         level = outputAsserted (m_pic d);
         c2 = (if level \<noteq> m_lastPicLevel c1
               then c1\<lparr>m_lastPicLevel := level, m_cchip := mirrorLevel 55 level (m_cchip c1)\<rparr> else c1)
     in case host_iicDrirBit isa of
          None \<Rightarrow> c2
        | Some b \<Rightarrow>
            let iic = iic_interruptPending (m_pcf8584 d) in
            if iic \<noteq> lastIicLevel c2
            then c2\<lparr>lastIicLevel := iic, m_cchip := mirrorLevel b iic (m_cchip c2)\<rparr> else c2)"

definition acknowledgeDeviceInterrupt :: "'o IsaDevices \<Rightarrow> 'o TsunamiChipset \<Rightarrow> u8 option \<times> 'o TsunamiChipset" where
  "acknowledgeDeviceInterrupt isa c =
    (case acknowledge (m_pic (m_devices c)) of (vec, pic) \<Rightarrow>
       (vec, evalDeviceIrqs isa (c\<lparr>m_devices := (m_devices c)\<lparr>m_pic := pic\<rparr>\<rparr>)))"

definition pciIntxToDrirBit :: "nat \<Rightarrow> nat \<Rightarrow> nat" where
  "pciIntxToDrirBit pchipId intxLine = 32 + pchipId * 4 + intxLine mod 4"

definition raisePciInterrupt :: "nat \<Rightarrow> nat \<Rightarrow> 'o TsunamiChipset \<Rightarrow> 'o TsunamiChipset" where
  "raisePciInterrupt pchipId intxLine c =
     c\<lparr>m_cchip := assertInterrupt (pciIntxToDrirBit pchipId intxLine) (m_cchip c)\<rparr>"

definition lowerPciInterrupt :: "nat \<Rightarrow> nat \<Rightarrow> 'o TsunamiChipset \<Rightarrow> 'o TsunamiChipset" where
  "lowerPciInterrupt pchipId intxLine c =
     c\<lparr>m_cchip := deassertInterrupt (pciIntxToDrirBit pchipId intxLine) (m_cchip c)\<rparr>"

definition reportNxm :: "u64 \<Rightarrow> 'o TsunamiChipset \<Rightarrow> 'o TsunamiChipset" where
  "reportNxm sourceCode c =
    (if miscNxmLatched (m_cchip c) then c else c\<lparr>m_cchip := latchNxm sourceCode (m_cchip c)\<rparr>)"

definition chipset_step :: "u64 \<Rightarrow> 'o TsunamiChipset \<Rightarrow> 'o TsunamiChipset" where
  "chipset_step cycles c =
    (let prev = m_cycleAccum c;
         c1 = c\<lparr>m_cycleAccum := prev + cycles\<rparr>
     in if drop_bit kCchipTimerBit (m_cycleAccum c1) \<noteq> drop_bit kCchipTimerBit prev
        then c1\<lparr>m_cchip := fireIntervalTimer (m_cchip c1)\<rparr> else c1)"

section \<open>The I/O window\<close>

datatype RegionId = Region_None | Pchip0_PciMem | Pchip0_SparseMem | Pchip0_SparseIO | Pchip0_CSR | Cchip_CSR
  | Dchip_CSR | Pchip0_IACK | Pchip0_IODense | Pchip0_CfgType0

definition kRegionTable :: "(u64 \<times> u64 \<times> RegionId) list" where
  "kRegionTable = [(0x000000000, 0x100000000, Pchip0_PciMem), (0x100000000, 0x140000000, Pchip0_SparseMem),
     (0x140000000, 0x180000000, Pchip0_SparseIO), (0x180000000, 0x190000000, Pchip0_CSR),
     (0x1A0000000, 0x1B0000000, Cchip_CSR), (0x1B0000000, 0x1C0000000, Dchip_CSR),
     (0x1F8000000, 0x1FC000000, Pchip0_IACK), (0x1FC000000, 0x1FE000000, Pchip0_IODense),
     (0x1FE000000, 0x200000000, Pchip0_CfgType0)]"

definition routeMmioOffset :: "u64 \<Rightarrow> RegionId" where
  "routeMmioOffset off =
    (case find (\<lambda>(a, z, r). a \<le> off \<and> off < z) kRegionTable of Some (a, z, r) \<Rightarrow> r | None \<Rightarrow> Region_None)"

definition kMMIO_Start :: u64 where "kMMIO_Start = 0x80000000000"

definition kMMIO_Size :: u64 where "kMMIO_Size = 0x84000000000 - kMMIO_Start"

definition withDevices :: "'o TsunamiChipset \<Rightarrow> u64 \<times> 'o Devices \<Rightarrow> u64 \<times> 'o TsunamiChipset" where
  "withDevices c vd = (case vd of (v, d) \<Rightarrow> (v, c\<lparr>m_devices := d\<rparr>))"

definition mmioRead :: "'o IsaDevices \<Rightarrow> u64 \<Rightarrow> u8 \<Rightarrow> int \<Rightarrow> 'o TsunamiChipset \<Rightarrow> u64 \<times> 'o TsunamiChipset" where
  "mmioRead isa pa width cpuId c =
    (let off = pa - kMMIO_Start; hs = deviceHandlers isa in
     if off = 0x1F8000000 then
       (case acknowledgeDeviceInterrupt isa c of
          (Some vec, c1) \<Rightarrow> (ucast vec, c1) | (None, c1) \<Rightarrow> (0x07, c1))
     else if 0x200000000 \<le> off \<and> off < kMMIO_Size then (0xFFFFFFFF, c)
     else case routeMmioOffset off of
       Pchip0_SparseMem \<Rightarrow> (readSparseMem (off - 0x100000000), c)
     | Pchip0_SparseIO \<Rightarrow> withDevices c (readSparseIO hs (m_pchip c) (off - 0x140000000) (m_devices c))
     | Cchip_CSR \<Rightarrow> (cchip_read (m_cchip c) (off - 0x1A0000000) cpuId, c)
     | Dchip_CSR \<Rightarrow> (dchip_read (m_dchip c) (off - 0x1B0000000), c)
     | _ \<Rightarrow> withDevices c (pchip_read hs (m_pchip c) off width (m_devices c)))"

definition mmioWrite :: "'o IsaDevices \<Rightarrow> u64 \<Rightarrow> u64 \<Rightarrow> u8 \<Rightarrow> 'o TsunamiChipset \<Rightarrow> 'o TsunamiChipset" where
  "mmioWrite isa pa v width c =
    (let off = pa - kMMIO_Start; hs = deviceHandlers isa in
     if 0x200000000 \<le> off \<and> off < kMMIO_Size then c
     else case routeMmioOffset off of
       Cchip_CSR \<Rightarrow> c\<lparr>m_cchip := cchip_write (off - 0x1A0000000) v (m_cchip c)\<rparr>
     | Dchip_CSR \<Rightarrow> c\<lparr>m_dchip := dchip_write (off - 0x1B0000000) v (m_dchip c)\<rparr>
     | Pchip0_SparseIO \<Rightarrow>
         c\<lparr>m_devices := writeSparseIO hs (m_pchip c) (off - 0x140000000) v (m_devices c)\<rparr>
     | _ \<Rightarrow> (case pchip_write hs off v width (m_pchip c, m_devices c) of
              (p, d) \<Rightarrow> c\<lparr>m_pchip := p, m_devices := d\<rparr>))"

section \<open>The bus arbiter\<close>

definition kPalScratchBase :: u64 where "kPalScratchBase = 0xFFFFFF00000"

definition kPalScratchSize :: u64 where "kPalScratchSize = 0x100000"

definition isPalScratchAddr :: "u64 \<Rightarrow> bool" where
  "isPalScratchAddr pa \<longleftrightarrow> kPalScratchBase \<le> pa \<and> pa < kPalScratchBase + kPalScratchSize"

definition isTigFlashAddr :: "u64 \<Rightarrow> bool" where
  "isTigFlashAddr pa \<longleftrightarrow> 0x80100000000 \<le> pa \<and> pa < 0x80100000000 + 0x8000000"

definition tigFlashOffset :: "u64 \<Rightarrow> u32" where
  "tigFlashOffset pa = ucast (drop_bit 6 (pa - 0x80100000000))"

definition kTigTraceArmReg :: u64 where "kTigTraceArmReg = 0x80130000FF8"

definition scratchRead :: "u64 \<Rightarrow> u8 \<Rightarrow> (nat \<Rightarrow> u8) \<Rightarrow> u64" where
  "scratchRead off width s =
    (if off + ucast width \<le> kPalScratchSize
     then leWord (map (\<lambda>i. s (unat off + i)) [0..<unat width]) else 0)"

definition scratchWrite :: "u64 \<Rightarrow> u64 \<Rightarrow> u8 \<Rightarrow> (nat \<Rightarrow> u8) \<Rightarrow> nat \<Rightarrow> u8" where
  "scratchWrite off v width s =
    (if off + ucast width \<le> kPalScratchSize
     then (\<lambda>i. if unat off \<le> i \<and> i < unat off + unat width then leByte (i - unat off) v else s i) else s)"

definition okData :: "u64 \<Rightarrow> BusResult" where
  "okData v = \<lparr>br_status = BS_Ok, br_data = v\<rparr>"

definition busError :: BusResult where
  "busError = \<lparr>br_status = BS_BusError, br_data = 0\<rparr>"

definition memRead :: "GuestMemory \<Rightarrow> u64 \<Rightarrow> u8 \<Rightarrow> BusResult" where
  "memRead m pa width =
    (if width = 1 then okData (ucast (snd (read1 m pa)))
     else if width = 2 then okData (ucast (snd (read2 m pa)))
     else if width = 4 then okData (ucast (snd (read4 m pa)))
     else if width = 8 then okData (snd (read8 m pa))
     else busError)"

definition memWrite :: "u64 \<Rightarrow> u64 \<Rightarrow> u8 \<Rightarrow> GuestMemory \<Rightarrow> GuestMemory" where
  "memWrite pa v width m =
    (if width = 1 then snd (write1 pa (ucast v) m)
     else if width = 2 then snd (write2 pa (ucast v) m)
     else if width = 4 then snd (write4 pa (ucast v) m)
     else if width = 8 then snd (write8 pa v m)
     else m)"

definition chipset_read :: "'o IsaDevices \<Rightarrow> u64 \<Rightarrow> u8 \<Rightarrow> 'o TsunamiChipset \<Rightarrow> BusResult \<times> 'o TsunamiChipset" where
  "chipset_read isa pa width c =
    (if isPalScratchAddr pa then (okData (scratchRead (pa - kPalScratchBase) width (m_palScratch c)), c)
     else if isDramAddress (m_cchip c) pa then (memRead (m_guestMemory c) pa width, c)
     else if isTigFlashAddr pa then
       (case flash_read (tigFlashOffset pa) (m_flash c) of (v, f) \<Rightarrow> (okData v, c\<lparr>m_flash := f\<rparr>))
     else if pa = kTigTraceArmReg then
       (okData 0x7FFFFFFFFFFFFFFF, c\<lparr>traceCountdown := 0x7FFFFFFFFFFFFFFF\<rparr>)
     else if tig_decodes pa then (okData (tig_read (m_tig c) pa), c)
     else if kMMIO_Start \<le> pa then (case mmioRead isa pa width 0 c of (v, c1) \<Rightarrow> (okData v, c1))
     else (okData (NOT 0), reportNxm 0 c))"

definition chipset_write :: "'o IsaDevices \<Rightarrow> u64 \<Rightarrow> u64 \<Rightarrow> u8 \<Rightarrow> 'o TsunamiChipset \<Rightarrow>
    BusResult \<times> 'o TsunamiChipset" where
  "chipset_write isa pa v width c =
    (if width \<notin> {1, 2, 4, 8} then (busError, c)
     else (okData 0,
       if isPalScratchAddr pa then
         c\<lparr>m_palScratch := scratchWrite (pa - kPalScratchBase) v width (m_palScratch c)\<rparr>
       else if isDramAddress (m_cchip c) pa then c\<lparr>m_guestMemory := memWrite pa v width (m_guestMemory c)\<rparr>
       else if isTigFlashAddr pa then c\<lparr>m_flash := flash_write (tigFlashOffset pa) v (m_flash c)\<rparr>
       else if pa = kTigTraceArmReg then c\<lparr>traceCountdown := v\<rparr>
       else if tig_decodes pa then c\<lparr>m_tig := tig_write pa v (m_tig c)\<rparr>
       else if kMMIO_Start \<le> pa then mmioWrite isa pa v width c
       else reportNxm 0 c))"

definition chipset_fetch :: "'o IsaDevices \<Rightarrow> u64 \<Rightarrow> u8 \<Rightarrow> 'o TsunamiChipset \<Rightarrow> BusResult \<times> 'o TsunamiChipset" where
  "chipset_fetch isa pa width c = chipset_read isa pa width c"

definition tsunamiBus :: "'o IsaDevices \<Rightarrow> 'o TsunamiChipset ISystemBus" where
  "tsunamiBus isa = \<lparr>bus_read = chipset_read isa, bus_write = chipset_write isa, bus_fetch = chipset_fetch isa\<rparr>"


section \<open>Address decode\<close>

lemma unat_take_bit_less: "unat (take_bit n (w :: u64)) < 2 ^ n"
  by (simp only: unsigned_take_bit_eq take_bit_nat_less_exp)

lemma decode_bounds: "decodeAAR reg = (base, sz) \<Longrightarrow> unat base < 2 ^ 35 \<and> unat sz \<le> 2 ^ 38"
proof -
  assume d: "decodeAAR reg = (base, sz)"
  have "push_bit 24 (drop_bit 24 reg AND 0x7FF) = take_bit 35 (push_bit 24 (drop_bit 24 reg AND 0x7FF))"
    unfolding and_7FF by (rule bit_word_eqI) (auto simp: bit_take_bit_iff bit_push_bit_iff)
  then have b: "unat base < 2 ^ 35" using d unat_take_bit_less [of 35] by (metis (lifting) decodeAAR_def fst_conv Let_def)
  define k where "k = unat (ucast (drop_bit 12 reg AND 0xF) :: u8) - 1"
  have "unat (ucast (drop_bit 12 reg AND 0xF) :: u8) < 16"
    using take_bit_nat_less_exp [of 4 "unat (drop_bit 12 reg)"]
    unfolding and_F by (simp add: unsigned_ucast_eq unsigned_take_bit_eq)
  then have k: "24 + k \<le> 38" by (simp add: k_def)
  have "(16 * 1024 * 1024 :: u64) = 2 ^ 24" by simp
  then have "push_bit k (16 * 1024 * 1024 :: u64) = 2 ^ (24 + k)"
    by (simp only: push_bit_eq_mult power_add)
  then have "unat (push_bit k (16 * 1024 * 1024 :: u64)) = 2 ^ (24 + k)" using unat_exp_u64 [of "24 + k"] k by simp
  then have "unat (push_bit k (16 * 1024 * 1024 :: u64)) \<le> 2 ^ 38" using power_increasing [OF k, of "2 :: nat"] by simp
  then have "unat sz \<le> 2 ^ 38" using d by (auto simp: decodeAAR_def Let_def k_def split: if_splits)
  then show ?thesis using b by simp
qed

text \<open>DRAM never reaches the I/O window, whatever software writes to the array registers.\<close>

lemma dram_below: "isDramAddress cc pa \<Longrightarrow> unat pa < 2 ^ 39"
proof -
  assume "isDramAddress cc pa"
  then obtain a where "covers pa a" by (auto simp: isDram_covers list_ex_iff)
  then obtain base sz where "decodeAAR (aar_base a) = (base, sz)" "pa < base + sz"
    by (auto simp: covers_def Let_def split: prod.splits)
  moreover have "unat (base + sz) \<le> unat base + unat sz" by (simp add: unat_word_ariths(1))
  ultimately show ?thesis using decode_bounds [of "aar_base a" base sz] by (simp add: word_less_nat_alt)
qed

lemma dram_exclusive:
  assumes "isDramAddress cc pa"
  shows "\<not> isPalScratchAddr pa" "\<not> isTigFlashAddr pa" "\<not> tig_decodes pa" "\<not> kMMIO_Start \<le> pa" "pa \<noteq> kTigTraceArmReg"
  using dram_below [OF assms]
  by (auto simp: isPalScratchAddr_def kPalScratchBase_def isTigFlashAddr_def tig_decodes_def kMMIO_Start_def
      kTigTraceArmReg_def word_le_nat_alt)

section \<open>Memory behind the bus\<close>

definition widths :: "u8 set" where "widths = {1, 2, 4, 8}"

lemma ucast_leWord:
  assumes "8 * length bs \<le> LENGTH('a::len)" "8 * length bs \<le> LENGTH('b::len)"
  shows "(ucast (leWord bs :: 'a word) :: 'b word) = leWord bs"
  using assms by (intro bit_word_eqI) (auto simp: bit_simps bit_leWord)

lemma memRead_bytes:
  assumes "w \<in> widths"
  shows "memRead m pa w = okData (leWord (map (\<lambda>i. byteAt m (pa + of_nat i)) [0..<unat w]))"
  using assms by (auto simp: widths_def memRead_def byte_port.read_law word_port.read_law long_port.read_law
      quad_port.read_law ucast_leWord)

lemma memWrite_inv:
  assumes "gm_inv m"
  shows "gm_inv (memWrite pa v w m)" "funded m \<Longrightarrow> funded (memWrite pa v w m)"
    "m_pageCount (memWrite pa v w m) = m_pageCount m"
  using byte_port.write_inv [OF assms] word_port.write_inv [OF assms] long_port.write_inv [OF assms]
    quad_port.write_inv [OF assms] assms
  by (simp_all add: memWrite_def)

lemma leByte_ucast: "8 * Suc j \<le> LENGTH('a::len) \<Longrightarrow> leByte j (ucast (v :: u64) :: 'a word) = leByte j v"
  unfolding leByte_def by (intro bit_word_eqI) (auto simp: bit_simps dest: bit_imp_le_length)

lemma memWrite_bytes:
  assumes "gm_inv m" "funded m" "fits m pa 8" "w \<in> widths"
  shows "byteAt (memWrite pa v w m) q =
    (if cellDistance q pa < unat w then leByte (cellDistance q pa) v else byteAt m q)"
proof -
  have r: "i < 8 \<Longrightarrow> inRange m (pa + of_nat i)" for i using fits_inRange [OF assms(3)] by simp
  note p = byte_port.write_bytes [OF assms(1,2), of pa "ucast v" q] word_port.write_bytes [OF assms(1,2), of pa "ucast v" q]
    long_port.write_bytes [OF assms(1,2), of pa "ucast v" q] quad_port.write_bytes [OF assms(1,2), of pa v q]
  show ?thesis using assms(4) r p r [of 0] by (auto simp: widths_def memWrite_def leByte_ucast)
qed

lemma unat_plus_small: "unat (q :: u64) + i < 2 ^ 64 \<Longrightarrow> unat (q + of_nat i) = unat q + i"
  by (simp add: unat_word_ariths(1) unsigned_of_nat take_bit_eq_mod mod_simps)

lemma cellDistance_less:
  assumes "unat p < 2 ^ 48" "unat q < 2 ^ 48"
  shows "cellDistance q p = (if unat p \<le> unat q then unat q - unat p else 2 ^ 48 + unat q - unat p)"
proof -
  have d: "cellDistance q p = unat (q - p) mod 2 ^ 48"
    by (simp add: cellDistance_def unsigned_ucast_eq take_bit_eq_mod)
  show ?thesis
  proof (cases "unat p \<le> unat q")
    case True
    then show ?thesis using d assms by (simp add: unat_sub_if')
  next
    case False
    then have "unat (q - p) = (2 ^ 48 + unat q - unat p) + (2 ^ 16 - 1) * 2 ^ 48"
      using assms by (simp add: unat_sub_if')
    moreover have "2 ^ 48 + unat q - unat p < 2 ^ 48" using False by simp
    ultimately show ?thesis using d False by (metis mod_less mod_mult_self1)
  qed
qed

lemma fits_bound: "fits m pa n \<Longrightarrow> unat pa + n \<le> 2 ^ 48 - 65536"
proof -
  assume "fits m pa n"
  moreover have "unat (m_pageCount m) \<le> 2 ^ 32 - 1"
    using unsigned_less [of "m_pageCount m", where ?'a = nat] by simp
  ultimately show ?thesis by (simp add: fits_def)
qed

lemma apart_distance:
  assumes "fits m pa 8" "fits m q 8" "apart pa w q w'" "w \<in> widths" "w' \<in> widths" "i < unat w'"
  shows "unat w \<le> cellDistance (q + of_nat i) pa"
proof -
  note b = fits_bound [OF assms(1)] fits_bound [OF assms(2)]
  have w: "unat w \<le> 8" "unat w' \<le> 8" using assms(4,5) by (auto simp: widths_def)
  have u: "unat (q + of_nat i) = unat q + i" using b w assms(6) by (intro unat_plus_small) simp
  then have "cellDistance (q + of_nat i) pa =
      (if unat pa \<le> unat q + i then unat q + i - unat pa else 2 ^ 48 + (unat q + i) - unat pa)"
    using cellDistance_less [of pa "q + of_nat i"] b w assms(6) by simp
  then show ?thesis using assms(3,6) b w by (auto simp: apart_def)
qed

text \<open>The chip set is a memory bus in the sense of the pipeline.\<close>

definition chip_ok :: "'o TsunamiChipset \<Rightarrow> bool" where
  "chip_ok c \<longleftrightarrow> gm_inv (m_guestMemory c) \<and> funded (m_guestMemory c)"

definition dramAt :: "'o TsunamiChipset \<Rightarrow> u64 \<Rightarrow> bool" where
  "dramAt c pa \<longleftrightarrow> isDramAddress (m_cchip c) pa \<and> fits (m_guestMemory c) pa 8"

lemma dram_access:
  assumes "dramAt c pa"
  shows "chipset_read isa pa w c = (memRead (m_guestMemory c) pa w, c)"
    and "w \<in> widths \<Longrightarrow> chipset_write isa pa v w c = (okData 0, c\<lparr>m_guestMemory := memWrite pa v w (m_guestMemory c)\<rparr>)"
  using assms dram_exclusive(1) by (auto simp: dramAt_def chipset_read_def chipset_write_def widths_def)

lemma dramAt_memory:
  "gm_inv (m_guestMemory c) \<Longrightarrow> dramAt (c\<lparr>m_guestMemory := memWrite pa v w (m_guestMemory c)\<rparr>) = dramAt c"
  by (simp add: dramAt_def fun_eq_iff fits_def memWrite_inv)

lemma leWord_take: "n \<le> 8 \<Longrightarrow> leWord (map (\<lambda>i. leByte i (v :: u64)) [0..<n]) = take_bit (8 * n) v"
  by (intro bit_word_eqI) (auto simp: bit_leWord leByte_def bit_simps less_mult_imp_div_less div_less_iff_less_mult)

interpretation tsunami: dram_bus "tsunamiBus isa" chip_ok dramAt for isa :: "'o IsaDevices"
proof (unfold_locales, fold widths_def)
  fix c :: "'o TsunamiChipset" and pa w v
  assume a: "chip_ok c" "dramAt c pa" "w \<in> widths"
  show "br_status (fst (bus_read (tsunamiBus isa) pa w c)) = BS_Ok \<and> snd (bus_read (tsunamiBus isa) pa w c) = c"
    using a by (simp add: tsunamiBus_def dram_access memRead_bytes okData_def)
  show "br_status (fst (bus_write (tsunamiBus isa) pa v w c)) = BS_Ok \<and>
      chip_ok (snd (bus_write (tsunamiBus isa) pa v w c)) \<and>
      dramAt (snd (bus_write (tsunamiBus isa) pa v w c)) = dramAt c"
    using a by (simp add: tsunamiBus_def dram_access dramAt_memory okData_def chip_ok_def memWrite_inv)
  define c1 where "c1 = c\<lparr>m_guestMemory := memWrite pa v w (m_guestMemory c)\<rparr>"
  have m: "gm_inv (m_guestMemory c)" "funded (m_guestMemory c)" "fits (m_guestMemory c) pa 8"
    using a by (auto simp: chip_ok_def dramAt_def)
  have wr: "snd (bus_write (tsunamiBus isa) pa v w c) = c1" using a by (simp add: tsunamiBus_def dram_access c1_def)
  have rd: "br_data (fst (bus_read (tsunamiBus isa) q w' c1)) =
      leWord (map (\<lambda>i. byteAt (memWrite pa v w (m_guestMemory c)) (q + of_nat i)) [0..<unat w'])"
    if "dramAt c q" "w' \<in> widths" for q w'
    using that dramAt_memory [OF m(1), of pa v w]
    by (simp add: tsunamiBus_def dram_access memRead_bytes okData_def c1_def)
  have w8: "unat w \<le> 8" using a(3) by (auto simp: widths_def)
  have "map (\<lambda>i. byteAt (memWrite pa v w (m_guestMemory c)) (pa + of_nat i)) [0..<unat w]
      = map (\<lambda>i. leByte i v) [0..<unat w]"
    using w8 by (auto simp: memWrite_bytes [OF m a(3)] cellDistance_plus)
  then show "br_data (fst (bus_read (tsunamiBus isa) pa w (snd (bus_write (tsunamiBus isa) pa v w c))))
      = take_bit (8 * unat w) v"
    using leWord_take [OF w8, of v] unfolding wr rd [OF a(2,3)] by (simp only:)
  fix q w'
  assume b: "dramAt c q" "w' \<in> widths" "apart pa w q w'"
  then have "\<not> cellDistance (q + of_nat i) pa < unat w" if "i < unat w'" for i
    using apart_distance [OF m(3) _ b(3) a(3) b(2) that] by (simp add: dramAt_def not_less)
  then have "map (\<lambda>i. byteAt (memWrite pa v w (m_guestMemory c)) (q + of_nat i)) [0..<unat w']
      = map (\<lambda>i. byteAt (m_guestMemory c) (q + of_nat i)) [0..<unat w']"
    by (simp add: memWrite_bytes [OF m a(3)])
  then show "br_data (fst (bus_read (tsunamiBus isa) q w' (snd (bus_write (tsunamiBus isa) pa v w c))))
      = br_data (fst (bus_read (tsunamiBus isa) q w' c))"
    unfolding wr rd [OF b(1,2)] using b(1,2)
    by (simp only:) (simp add: tsunamiBus_def dram_access memRead_bytes okData_def)
qed

section \<open>Invariants of the whole chip set\<close>

definition dev_inv :: "'o Devices \<Rightarrow> bool" where
  "dev_inv d \<longleftrightarrow> uart_ok (m_com1 d) \<and> uart_ok (m_com2 d) \<and> pic_ok (m_pic d) \<and> iic_ok (m_pcf8584 d)"

lemma iicRead_ok: "iic_ok c \<Longrightarrow> iic_ok (snd (iicRead port w c))"
  using iic_ioRead_ok [of c port w] by (auto simp: iicRead_def)

lemma iicWrite_ok: "iic_ok c \<Longrightarrow> iic_ok (iicWrite port v w c)"
  using iic_ioWrite_ok [of c port v w] by (auto simp: iicWrite_def)

lemma uartWrite_ok: "uart_ok u \<Longrightarrow> uart_ok (uartWrite mhz port v u)"
  using uart_step_ok [of u "WriteReg mhz (ucast (port - m_basePort u)) (ucast (v AND 0xFF))"]
  by (auto simp: uartWrite_def uart_ioWrite_def)

lemma dev_ioRead_inv: "dev_inv d \<Longrightarrow> dev_inv (snd (dev_ioRead isa h port w d))"
  using pic_step_ok [of "m_pic d" "PortRead port"]
  by (cases h) (simp_all add: dev_inv_def dev_ioRead_def uart_ioRead_def case_prod_beta readRegister_ok iicRead_ok)

lemma dev_ioWrite_inv: "dev_inv d \<Longrightarrow> dev_inv (dev_ioWrite isa h port v w d)"
  using pic_step_ok [of "m_pic d" "PortWrite port v"]
  by (cases h) (auto simp: dev_inv_def dev_ioWrite_def uartWrite_ok iicWrite_ok)

interpretation devices: device_space "deviceHandlers isa" dev_inv for isa :: "'o IsaDevices"
  by unfold_locales
    (simp_all add: deviceHandlers_def dev_ioRead_inv dev_ioWrite_inv case_prod_beta, simp_all add: dev_inv_def)

lemma drainConsole_inv: "dev_inv d \<Longrightarrow> dev_inv (drainConsole d)"
  by (auto simp: dev_inv_def drainConsole_def feedRxByte_ok split: list.split)

lemma setIrqInput_ok: "pic_ok p \<Longrightarrow> pic_ok (setIrqInput line level p)"
  using pic_step_ok [of p "Input line level"] by simp

lemma setInputs_inv: "dev_inv d \<Longrightarrow> dev_inv (setInputs isa d)"
  by (simp add: dev_inv_def setInputs_def setIrqInput_ok)

lemma acknowledge_ok: "pic_ok p \<Longrightarrow> pic_ok (snd (acknowledge p))"
  using pic_step_ok [of p Ack] by simp

text \<open>The cached output level of the interrupt controllers is the level of its line.\<close>

definition mirror_ok :: "'o TsunamiChipset \<Rightarrow> bool" where
  "mirror_ok c \<longleftrightarrow> (m_lastPicLevel c \<longleftrightarrow> bit (m_drir (m_cchip c)) 55)"

definition chipset_core :: "bool \<Rightarrow> 'o TsunamiChipset \<Rightarrow> bool" where
  "chipset_core mirrored c \<longleftrightarrow> gm_inv (m_guestMemory c) \<and> cchip_inv (m_cchip c) \<and> pchip_wf (m_pchip c) \<and>
     dev_inv (m_devices c) \<and> (mirrored \<longrightarrow> mirror_ok c)"

abbreviation chipset_inv :: "'o TsunamiChipset \<Rightarrow> bool" where
  "chipset_inv \<equiv> chipset_core True"

lemma core_weaken: "chipset_core m c \<Longrightarrow> chipset_core False c"
  by (simp add: chipset_core_def)

text \<open>
  The optional line of the I2C controller is another line than the bridge's. The environment variable
  that selects it is accepted from 0 to 55; 55 is the bridge's own line, and with it the two sources would
  drive one bit.
\<close>


definition iicLine_ok :: "'o IsaDevices \<Rightarrow> bool" where
  "iicLine_ok isa \<longleftrightarrow> (\<forall>b. host_iicDrirBit isa = Some b \<longrightarrow> b < 55)"

lemma bit_line: "bit (push_bit b (1 :: u64)) n \<longleftrightarrow> n = b \<and> n < 64"
  unfolding bit_push_bit_iff bit_1_iff by auto

lemma drir_eqs:
  "m_drir (assertInterrupt b cc) = m_drir cc OR push_bit b 1"
  "m_drir (deassertInterrupt b cc) = m_drir cc AND NOT (push_bit b 1)"
  "m_drir (latchNxm s cc) = m_drir cc OR push_bit 63 1"
  by (simp_all add: assertInterrupt_def deassertInterrupt_def latchNxm_def Let_def)

lemma drir_ops [simp]:
  "bit (m_drir (assertInterrupt b cc)) n \<longleftrightarrow> bit (m_drir cc) n \<or> n = b \<and> n < 64"
  "bit (m_drir (deassertInterrupt b cc)) n \<longleftrightarrow> bit (m_drir cc) n \<and> n \<noteq> b"
  "m_drir (fireIntervalTimer cc) = m_drir cc"
  "bit (m_drir (latchNxm s cc)) n \<longleftrightarrow> bit (m_drir cc) n \<or> n = 63"
  "m_drir (clearPendingIrq2 k cc) = m_drir cc" "m_drir (clearPendingIrq3 k cc) = m_drir cc"
  unfolding drir_eqs bit_or_iff bit_and_iff bit_not_iff bit_line
  by (auto simp: fireIntervalTimer_eq clearPendingIrq2_def clearPendingIrq3_def dest: bit_imp_le_length)

lemma drir_write: "n \<noteq> 63 \<Longrightarrow> bit (m_drir (cchip_write off v cc)) n = bit (m_drir cc) n"
  using bit_unset_bit_iff [of 63 "m_drir cc" n]
  by (auto simp: cchip_write_def sendIPI_def miscWriteW1C_eq unset_bit_eq_and_not
      split: option.splits CchipReg.splits)

lemma mirrorLevel_simps:
  "b < 58 \<Longrightarrow> cchip_inv cc \<Longrightarrow> cchip_inv (mirrorLevel b level cc)"
  "b < 64 \<Longrightarrow> bit (m_drir (mirrorLevel b level cc)) n = (if n = b then level else bit (m_drir cc) n)"
  "m_dim (mirrorLevel b level cc) = m_dim cc"
  by (auto simp: mirrorLevel_def inv_lines) (auto simp: assertInterrupt_def deassertInterrupt_def)

lemma eval_devices: "m_devices (evalDeviceIrqs isa c) = setInputs isa (drainConsole (m_devices c))"
  by (simp add: evalDeviceIrqs_def Let_def split: option.split)

lemma eval_frame:
  "m_guestMemory (evalDeviceIrqs isa c) = m_guestMemory c" "m_pchip (evalDeviceIrqs isa c) = m_pchip c"
  "m_dim (m_cchip (evalDeviceIrqs isa c)) = m_dim (m_cchip c)"
  by (simp_all add: evalDeviceIrqs_def Let_def mirrorLevel_simps split: option.split)

lemma eval_level:
  assumes "iicLine_ok isa" "mirror_ok c"
  shows "mirror_ok (evalDeviceIrqs isa c)"
    and "bit (m_drir (m_cchip (evalDeviceIrqs isa c))) 55 \<longleftrightarrow> outputAsserted (m_pic (m_devices (evalDeviceIrqs isa c)))"
  using assms
  by (auto simp: evalDeviceIrqs_def Let_def mirror_ok_def iicLine_ok_def mirrorLevel_simps split: option.split)

lemma eval_cchip: "iicLine_ok isa \<Longrightarrow> cchip_inv (m_cchip c) \<Longrightarrow> cchip_inv (m_cchip (evalDeviceIrqs isa c))"
  by (auto simp: evalDeviceIrqs_def Let_def iicLine_ok_def mirrorLevel_simps split: option.split)

lemma inv_eval: "iicLine_ok isa \<Longrightarrow> chipset_core m c \<Longrightarrow> chipset_core m (evalDeviceIrqs isa c)"
  by (auto simp: chipset_core_def eval_frame eval_devices eval_level eval_cchip setInputs_inv drainConsole_inv)

lemma inv_acknowledge:
  "iicLine_ok isa \<Longrightarrow> chipset_core m c \<Longrightarrow> chipset_core m (snd (acknowledgeDeviceInterrupt isa c))"
proof -
  assume a: "iicLine_ok isa" "chipset_core m c"
  obtain vec pic where k: "acknowledge (m_pic (m_devices c)) = (vec, pic)" by fastforce
  then have "chipset_core m (c\<lparr>m_devices := (m_devices c)\<lparr>m_pic := pic\<rparr>\<rparr>)"
    using a(2) acknowledge_ok [of "m_pic (m_devices c)"] by (simp add: chipset_core_def dev_inv_def mirror_ok_def)
  then show ?thesis using inv_eval [OF a(1)] by (simp add: acknowledgeDeviceInterrupt_def k)
qed

lemma inv_devices: "chipset_core m c \<Longrightarrow> dev_inv d \<Longrightarrow> chipset_core m (c\<lparr>m_devices := d\<rparr>)"
  by (simp add: chipset_core_def mirror_ok_def)

lemma inv_withDevices: "chipset_core m c \<Longrightarrow> dev_inv (snd vd) \<Longrightarrow> chipset_core m (snd (withDevices c vd))"
  by (simp add: withDevices_def inv_devices case_prod_beta)

lemma inv_mmioRead: "iicLine_ok isa \<Longrightarrow> chipset_core m c \<Longrightarrow> chipset_core m (snd (mmioRead isa pa w k c))"
proof -
  assume a: "iicLine_ok isa" "chipset_core m c"
  then have d: "dev_inv (m_devices c)" by (simp add: chipset_core_def)
  show ?thesis using a inv_acknowledge [OF a]
    by (auto simp: mmioRead_def Let_def inv_withDevices devices.sparse_read [OF d] devices.pci_window_read [OF d]
        split: prod.split option.split RegionId.split)
qed

lemma inv_cchip: "chipset_core m c \<Longrightarrow> cchip_inv cc \<Longrightarrow> bit (m_drir cc) 55 = bit (m_drir (m_cchip c)) 55 \<Longrightarrow>
    chipset_core m (c\<lparr>m_cchip := cc\<rparr>)"
  by (simp add: chipset_core_def mirror_ok_def)

lemma inv_mmioWrite: "chipset_core m c \<Longrightarrow> chipset_core m (mmioWrite isa pa v w c)"
proof -
  assume a: "chipset_core m c"
  then have d: "dev_inv (m_devices c)" "pchip_wf (m_pchip c)" "cchip_inv (m_cchip c)"
    by (simp_all add: chipset_core_def)
  have p: "chipset_core m (c\<lparr>m_pchip := fst s, m_devices := snd s\<rparr>)"
    if "s = pchip_write (deviceHandlers isa) off v w (m_pchip c, m_devices c)" for s off
    using a that devices.pci_window_write [OF d(1), of isa off v w "m_pchip c"]
      devices.window_registers [OF d(2), of isa off v w "m_devices c"]
    by (simp add: chipset_core_def mirror_ok_def)
  have e: "chipset_core m (c\<lparr>m_dchip := x\<rparr>)" for x using a by (simp add: chipset_core_def mirror_ok_def)
  show ?thesis using a d(1,3)
    by (simp add: mmioWrite_def Let_def case_prod_beta p [OF refl] e inv_cchip inv_write drir_write inv_devices
        devices.sparse_write split: RegionId.split)
qed

lemma inv_reportNxm: "chipset_core m c \<Longrightarrow> chipset_core m (reportNxm s c)"
  using inv_cchip [of m c "latchNxm s (m_cchip c)"] by (simp add: reportNxm_def inv_nxm chipset_core_def)

lemma inv_chipset_read: "iicLine_ok isa \<Longrightarrow> chipset_core m c \<Longrightarrow> chipset_core m (snd (chipset_read isa pa w c))"
proof -
  assume a: "iicLine_ok isa" "chipset_core m c"
  show ?thesis using inv_mmioRead [OF a, of pa w 0] inv_reportNxm [OF a(2), of 0] a(2)
    by (auto simp: chipset_read_def split: prod.split) (auto simp: chipset_core_def mirror_ok_def)
qed

lemma inv_chipset_write: "chipset_core m c \<Longrightarrow> chipset_core m (snd (chipset_write isa pa v w c))"
proof -
  assume a: "chipset_core m c"
  show ?thesis using inv_mmioWrite [OF a, of isa pa v w] inv_reportNxm [OF a, of 0] a
      memWrite_inv(1) [of "m_guestMemory c" pa v w]
    by (auto simp: chipset_write_def) (auto simp: chipset_core_def mirror_ok_def)
qed

text \<open>
  What happens to a running chip set: bus accesses, ticks, device polls and interrupt delivery. A reset
  and the restore of a snapshot follow with chipset\_life in the theory Snapshot.
\<close>

inductive chipset_op :: "'o IsaDevices \<Rightarrow> 'o TsunamiChipset \<Rightarrow> 'o TsunamiChipset \<Rightarrow> bool" for isa where
  op_read: "chipset_op isa c (snd (chipset_read isa pa w c))"
| op_write: "chipset_op isa c (snd (chipset_write isa pa v w c))"
| op_fetch: "chipset_op isa c (snd (chipset_fetch isa pa w c))"
| op_tick: "chipset_op isa c (chipset_step cycles c)"
| op_eval: "chipset_op isa c (evalDeviceIrqs isa c)"
| op_acknowledge: "chipset_op isa c (snd (acknowledgeDeviceInterrupt isa c))"
| op_raise: "hose < 2 \<Longrightarrow> chipset_op isa c (raisePciInterrupt hose line c)"
| op_lower: "hose < 2 \<Longrightarrow> chipset_op isa c (lowerPciInterrupt hose line c)"
| op_timerTaken: "k < 4 \<Longrightarrow> chipset_op isa c (c\<lparr>m_cchip := clearPendingIrq2 k (m_cchip c)\<rparr>)"
| op_ipiTaken: "k < 4 \<Longrightarrow> chipset_op isa c (c\<lparr>m_cchip := clearPendingIrq3 k (m_cchip c)\<rparr>)"
| op_console: "chipset_op isa c (c\<lparr>m_devices := (m_devices c)\<lparr>consoleQueue := consoleQueue (m_devices c) @ bs\<rparr>\<rparr>)"

lemma inv_step: "chipset_core m c \<Longrightarrow> chipset_core m (chipset_step cycles c)"
  by (simp add: chipset_step_def Let_def chipset_core_def mirror_ok_def inv_timer)

lemma pci_line: "hose < 2 \<Longrightarrow> pciIntxToDrirBit hose line < 40"
proof -
  assume "hose < 2"
  moreover have "line mod 4 < 4" by simp
  ultimately show ?thesis unfolding pciIntxToDrirBit_def by linarith
qed

lemma inv_pci: "hose < 2 \<Longrightarrow> chipset_core m c \<Longrightarrow> chipset_core m (raisePciInterrupt hose line c)"
  "hose < 2 \<Longrightarrow> chipset_core m c \<Longrightarrow> chipset_core m (lowerPciInterrupt hose line c)"
  using pci_line [of hose line] inv_cchip [of m c "assertInterrupt (pciIntxToDrirBit hose line) (m_cchip c)"]
    inv_cchip [of m c "deassertInterrupt (pciIntxToDrirBit hose line) (m_cchip c)"]
  by (auto simp: raisePciInterrupt_def lowerPciInterrupt_def chipset_core_def inv_lines)

lemma inv_op: "iicLine_ok isa \<Longrightarrow> chipset_core m c \<Longrightarrow> chipset_op isa c c' \<Longrightarrow> chipset_core m c'"
proof -
  assume a: "iicLine_ok isa" "chipset_core m c" and op: "chipset_op isa c c'"
  from op show ?thesis
  proof (cases rule: chipset_op.cases)
    case (op_timerTaken k)
    then show ?thesis
      using a(2) inv_cchip [OF a(2), of "clearPendingIrq2 k (m_cchip c)"] by (simp add: inv_clear chipset_core_def)
  next
    case (op_ipiTaken k)
    then show ?thesis
      using a(2) inv_cchip [OF a(2), of "clearPendingIrq3 k (m_cchip c)"] by (simp add: inv_clear chipset_core_def)
  next
    case (op_console bs)
    then show ?thesis using a(2) by (simp add: chipset_core_def dev_inv_def mirror_ok_def)
  qed (use a in \<open>simp_all add: inv_chipset_read inv_chipset_write chipset_fetch_def inv_step inv_eval
      inv_acknowledge inv_pci\<close>)
qed

inductive chipset_reachable :: "'o IsaDevices \<Rightarrow> 'o TsunamiChipset \<Rightarrow> bool" for isa where
  init: "gm_inv mem \<Longrightarrow> dev_inv d \<Longrightarrow> chipset_reachable isa (newChipset v model cpus memBytes mem d)"
| step: "chipset_reachable isa c \<Longrightarrow> chipset_op isa c c' \<Longrightarrow> chipset_reachable isa c'"

lemma wf_wire: "pchip_wf p \<Longrightarrow> pchip_wf (wireDevices model p)"
  by (auto simp: wireDevices_def Let_def pchip_wf_def registerPciDevice_def registerIoPortRange_def
      registerPciMemRange_def split: option.split)

lemma inv_new: "gm_inv mem \<Longrightarrow> dev_inv d \<Longrightarrow> chipset_inv (newChipset v model cpus memBytes mem d)"
proof -
  assume "gm_inv mem" "dev_inv d"
  moreover have "pchip_wf (newPchip :: Device Pchip)" by (simp add: newPchip_def pchip_reset_def pchip_wf_def)
  moreover have "cchip_inv (newCchip v cpus memBytes)" unfolding newCchip_def by (rule inv_reset)
  moreover have "m_drir (newCchip v cpus memBytes) = 0" by (simp add: newCchip_def cchip_reset_def Let_def)
  ultimately show ?thesis by (simp add: chipset_core_def newChipset_def mirror_ok_def wf_wire)
qed

lemma reachable_inv: "chipset_reachable isa c \<Longrightarrow> iicLine_ok isa \<Longrightarrow> chipset_inv c"
  by (induction rule: chipset_reachable.induct) (auto intro: inv_new inv_op)

section \<open>From the console to the processor\<close>

lemma unmasked_line_pending:
  assumes "initState u = Ready" "isr u = 0" "\<not> bit (imr u) line" "bit (irr u) line" "line < 8"
  shows "\<exists>l \<le> line. unitPending u x = Some l"
proof -
  define R where "R k \<longleftrightarrow> k < 8 \<and> (bit (irr u) k \<or> bit x k) \<and> \<not> bit (imr u) k" for k
  have R: "R line" using assms by (simp add: R_def)
  then obtain l where l: "R l" "\<forall>k < l. \<not> R k" using exists_least_iff [of R] by blast
  then have "unitPending u x = Some l" unfolding unitPending_iff using assms(1,2) by (auto simp: R_def)
  moreover have "l \<le> line" using l(2) R by (meson not_less)
  ultimately show ?thesis by blast
qed

lemma master_line_output:
  assumes "initState (master p) = Ready" "isr (master p) = 0" "\<not> bit (imr (master p)) line"
    "bit (irr (master p)) line" "line < 8"
  shows "\<exists>l. pendingLevel p = Some l \<and> masterLevel l \<le> line"
proof -
  define x where "x = (if unitPending (slave p) 0 \<noteq> None then push_bit 2 1 else (0 :: u8))"
  obtain m where m: "m \<le> line" "unitPending (master p) x = Some m" using unmasked_line_pending [OF assms] by blast
  have "pendingLevel p = Some (case unitPending (slave p) 0 of Some s \<Rightarrow> if m = 2 then 8 + s else m | None \<Rightarrow> m)"
    unfolding pendingLevel_def Let_def x_def [symmetric] m(2) by (simp split: option.split)
  then show ?thesis using m(1) assms(5) by (auto simp: masterLevel_def split: option.split)
qed

lemma setIrqInput_master:
  "initState (master (setIrqInput line level p)) = initState (master p)"
  "isr (master (setIrqInput line level p)) = isr (master p)"
  "imr (master (setIrqInput line level p)) = imr (master p)"
  "bit (irr (master p)) k \<Longrightarrow> bit (irr (master (setIrqInput line level p))) k"
  by (simp_all add: setIrqInput_def Let_def bit_or_iff)

lemma setIrqInput_edge:
  "length (m_lastInput p) = 16 \<Longrightarrow> line < 8 \<Longrightarrow> \<not> m_lastInput p ! line \<Longrightarrow>
     bit (irr (master (setIrqInput line True p))) line"
  by (simp add: setIrqInput_def Let_def bit_simps)

lemma console_byte_output:
  fixes isa :: "'o IsaDevices" and d :: "'o Devices"
  assumes "consoleQueue d = ch # q" "length (m_rxFifo (m_com1 d)) < kRxFifoDepth \<and> backend (m_com1 d)" "bit (m_ier (m_com1 d)) 0"
    and "length (m_lastInput (m_pic d)) = 16" "\<not> m_lastInput (m_pic d) ! 4"
    and "initState (master (m_pic d)) = Ready" "isr (master (m_pic d)) = 0" "\<not> bit (imr (master (m_pic d))) 4"
  defines "d1 \<equiv> setInputs isa (drainConsole d)"
  shows "consoleQueue d1 = q" "m_rxFifo (m_com1 d1) = m_rxFifo (m_com1 d) @ [ch]"
    "\<exists>l. pendingLevel (m_pic d1) = Some l \<and> masterLevel l \<le> 4"
proof -
  have dr: "drainConsole d = d\<lparr>consoleQueue := q, m_com1 := feedRxByte ch (m_com1 d)\<rparr>"
    using assms(1,2) by (simp add: drainConsole_def)
  have rx: "m_rxFifo (feedRxByte ch (m_com1 d)) = m_rxFifo (m_com1 d) @ [ch]"
    "m_ier (feedRxByte ch (m_com1 d)) = m_ier (m_com1 d)"
    using assms(2) snapshotWatch_fields [of ch "m_com1 d"] by (simp_all add: feedRxByte_def)
  show "consoleQueue d1 = q" "m_rxFifo (m_com1 d1) = m_rxFifo (m_com1 d) @ [ch]"
    by (simp_all add: d1_def setInputs_def dr rx)
  have "m_ier (m_com1 d) AND kIER_ERBFI \<noteq> 0"
    using assms(3) and_exp_neq_0_iff [of "m_ier (m_com1 d)" 0] by (simp add: kIER_ERBFI_def)
  then have p: "intPending (feedRxByte ch (m_com1 d))" by (simp add: intPending_def rx)
  show "\<exists>l. pendingLevel (m_pic d1) = Some l \<and> masterLevel l \<le> 4"
    using setIrqInput_edge [OF assms(4) _ assms(5)] assms(6-8)
    by (intro master_line_output) (simp_all add: d1_def setInputs_def dr p setIrqInput_master)
qed

text \<open>The interrupt acknowledge cycle on the bus.\<close>

lemma iack_read:
  assumes "pendingLevel (m_pic (m_devices c)) = Some l" "\<not> isDramAddress (m_cchip c) 0x801F8000000"
  shows "fst (chipset_read isa 0x801F8000000 w c) = okData (ucast (if l < 8
      then icw2 (master (m_pic (m_devices c))) OR of_nat l
      else icw2 (slave (m_pic (m_devices c))) OR of_nat (l - 8)))"
  using assms acknowledge_eq [OF assms(1)]
  by (simp add: chipset_read_def isPalScratchAddr_def kPalScratchBase_def kPalScratchSize_def isTigFlashAddr_def
      kTigTraceArmReg_def tig_decodes_def kMMIO_Start_def mmioRead_def acknowledgeDeviceInterrupt_def)

lemma iack_not_dram: "\<not> isDramAddress cc 0x801F8000000"
  using dram_below [of cc "0x801F8000000"] by auto

section \<open>The interval timer\<close>

lemma kCchipTimerBit_18: "kCchipTimerBit = 18"
  by code_simp

lemma drop18_neq: "drop_bit 18 (v :: u64) \<noteq> drop_bit 18 w \<longleftrightarrow> unat v div 2 ^ 18 \<noteq> unat w div 2 ^ 18"
proof -
  have "unat (drop_bit 18 x) = unat x div 2 ^ 18" for x :: u64
    using unsigned_less [of x, where ?'a = nat]
    by (simp only: unsigned_drop_bit_eq) (simp add: take_bit_nat_eq_self drop_bit_eq_div)
  then show ?thesis by (metis word_unat_eq_iff)
qed

lemma fire_pending:
  "length (m_pendingIrq2 cc) = 4 \<Longrightarrow> k < 4 \<Longrightarrow>
     pendingIrq2 (fireIntervalTimer cc) k \<longleftrightarrow> pendingIrq2 cc k \<or> int k < m_cpuCount cc"
  using nth_fold_update [of k "m_pendingIrq2 cc" "\<lambda>_. True" True]
  by (auto simp: pendingIrq2_def fireIntervalTimer_eq)

lemma fire_frame: "length (m_pendingIrq2 (fireIntervalTimer cc)) = length (m_pendingIrq2 cc)"
    "m_cpuCount (fireIntervalTimer cc) = m_cpuCount cc"
  using length_fold_update [of "\<lambda>_. True" True] by (simp_all add: fireIntervalTimer_eq)

lemma ticks:
  assumes "unat (m_cycleAccum c) + sum_list (map unat ns) < 2 ^ 64" "length (m_pendingIrq2 (m_cchip c)) = 4" "k < 4"
  shows "pendingIrq2 (m_cchip (fold chipset_step ns c)) k \<longleftrightarrow> pendingIrq2 (m_cchip c) k \<or>
    int k < m_cpuCount (m_cchip c) \<and>
    (unat (m_cycleAccum c) + sum_list (map unat ns)) div 2 ^ 18 \<noteq> unat (m_cycleAccum c) div 2 ^ 18"
  using assms
proof (induction ns arbitrary: c)
  case (Cons n ns)
  define a where "a = unat (m_cycleAccum c)"
  define c1 where "c1 = chipset_step n c"
  have acc: "m_cycleAccum c1 = m_cycleAccum c + n"
    by (simp add: c1_def chipset_step_def Let_def)
  have u: "unat (m_cycleAccum c + n) = a + unat n"
    using Cons.prems(1) by (simp add: a_def unat_word_ariths(1) mod_less)
  have crossed: "drop_bit kCchipTimerBit (m_cycleAccum c + n) \<noteq> drop_bit kCchipTimerBit (m_cycleAccum c) \<longleftrightarrow>
      (a + unat n) div 2 ^ 18 \<noteq> a div 2 ^ 18"
    unfolding kCchipTimerBit_18 drop18_neq u a_def ..
  have cc: "m_cchip c1 = (if (a + unat n) div 2 ^ 18 \<noteq> a div 2 ^ 18 then fireIntervalTimer (m_cchip c) else m_cchip c)"
    using crossed by (auto simp: c1_def chipset_step_def Let_def)
  have p: "pendingIrq2 (m_cchip c1) k \<longleftrightarrow> pendingIrq2 (m_cchip c) k \<or>
      int k < m_cpuCount (m_cchip c) \<and> (a + unat n) div 2 ^ 18 \<noteq> a div 2 ^ 18"
    using Cons.prems(2,3) by (simp add: cc fire_pending)
  have f: "length (m_pendingIrq2 (m_cchip c1)) = 4" "m_cpuCount (m_cchip c1) = m_cpuCount (m_cchip c)"
    using Cons.prems(2) by (simp_all add: cc fire_frame)
  have ih: "pendingIrq2 (m_cchip (fold chipset_step ns c1)) k \<longleftrightarrow> pendingIrq2 (m_cchip c1) k \<or>
      int k < m_cpuCount (m_cchip c1) \<and>
      (a + unat n + sum_list (map unat ns)) div 2 ^ 18 \<noteq> (a + unat n) div 2 ^ 18"
    using Cons.IH [OF _ f(1) Cons.prems(3)] Cons.prems(1) unfolding acc u by (simp add: a_def add.assoc)
  have "a div 2 ^ 18 \<le> (a + unat n) div 2 ^ 18" "(a + unat n) div 2 ^ 18 \<le> (a + unat n + sum_list (map unat ns)) div 2 ^ 18"
    by (simp_all add: div_le_mono)
  then have "(a + unat n) div 2 ^ 18 \<noteq> a div 2 ^ 18 \<or>
      (a + unat n + sum_list (map unat ns)) div 2 ^ 18 \<noteq> (a + unat n) div 2 ^ 18 \<longleftrightarrow>
      (a + unat n + sum_list (map unat ns)) div 2 ^ 18 \<noteq> a div 2 ^ 18"
    by linarith
  then show ?case using ih p f(2) by (auto simp: c1_def a_def add.assoc)
qed simp

section \<open>Example\<close>

definition quietIsa :: "unit IsaDevices" where
  "quietIsa = \<lparr>isa_ioRead = \<lambda>h port w d. (0xFF, d), isa_ioWrite = \<lambda>h port v w d. d,
     isa_cfgRead = \<lambda>h reg w d. (0xFFFFFFFF, d), isa_cfgWrite = \<lambda>h reg v w d. d, isa_fdcPending = \<lambda>d. False,
     host_connected = \<lambda>h. False, host_badgeMhz = 0, host_iicDrirBit = None\<rparr>"

definition exampleDevices :: "unit Devices" where
  "exampleDevices = \<lparr>m_com1 = freshUart\<lparr>m_ier := 1\<rparr>, m_com2 = freshUart, m_pic = readyPair, m_pcf8584 = newIic, m_others = (),
     consoleQueue = [0x41]\<rparr>"

definition exampleChipset :: "unit TsunamiChipset" where
  "exampleChipset = newChipset Tsunami ''DS10'' 2 0x1000000 exampleMemory exampleDevices"

lemma exampleDevices_inv: "dev_inv exampleDevices"
proof -
  have "uart_ok (freshUart\<lparr>m_ier := 1\<rparr>)" "uart_ok freshUart" "pic_ok readyPair" by code_simp+
  then show ?thesis by (simp add: dev_inv_def exampleDevices_def)
qed

lemma example_reachable: "chipset_reachable quietIsa exampleChipset" "iicLine_ok quietIsa"
  unfolding exampleChipset_def
  by (auto intro!: chipset_reachable.init simp: exampleMemory_ok exampleDevices_inv iicLine_ok_def quietIsa_def)

lemma example_memory: "chip_ok exampleChipset" "m_guestMemory exampleChipset = exampleMemory"
  by (simp_all add: chip_ok_def exampleChipset_def newChipset_def exampleMemory_ok)

lemma example_dram: "isDramAddress (m_cchip exampleChipset) pa \<longleftrightarrow> unat pa < 0x1000000"
proof -
  have "memoryFits (Tsunami = Typhoon) 4 (2 ^ 24)" by (auto simp: memoryFits_def arrayBits_def arraySizes_def)
  then have "isDramAddress (newCchip Tsunami 2 (of_nat (2 ^ 24))) pa \<longleftrightarrow> unat pa < 2 ^ 24" by (rule isDram_new)
  then show ?thesis by (simp add: exampleChipset_def newChipset_def)
qed

section \<open>Properties\<close>

text \<open>
  C5. Memory is coherent from instruction to DRAM. A store that one processor drains to an address of
  installed memory and a load that the same or another processor drains next meet through the chip set:
  neither faults, a load of the same bytes delivers exactly the stored value in the register, extended as
  the load's format asks, and a load of other bytes delivers what was there before.
\<close>

theorem load_after_store_coherent:
  assumes "chip_ok c" "dramAt c pa" "plainStore rs" "resolves rs cpu pa"
    and "dramAt c q" "plainLoad rl" "resolves rl cpu' q" "\<not> (isp \<and> q = 0xBFFC)" "cpu_wf cpu'"
    and "drain (tsunamiBus isa) isp g rs cpu c locks = (r1, cpu1, c1, locks1)"
    and "drain (tsunamiBus isa) isp g' rl cpu' c1 locks1 = (r2, cpu2, c2, locks2)"
  shows "faultCode r1 = kNoFault \<and> faultCode r2 = kNoFault \<and>
    (q = pa \<and> memSize rl = memSize rs \<longrightarrow> intReg cpu2 ! unat (regWriteIdx rl) =
       formatLoadValue (take_bit (8 * unat (memSize rs)) (memData rs)) (memSize rs) False (semFlags rl)) \<and>
    (apart pa (memSize rs) q (memSize rl) \<longrightarrow> intReg cpu2 ! unat (regWriteIdx rl) =
       formatLoadValue (br_data (fst (chipset_read isa q (memSize rl) c))) (memSize rl) False (semFlags rl))"
  using tsunami.load_after_store [OF assms] by (simp add: tsunamiBus_def)

definition exampleAccess :: "bool \<Rightarrow> BoxResult" where
  "exampleAccess isStore = newBoxResult\<lparr>memSize := 4, memIsStore := isStore, memAddr := 0x10000, memData := 0xFFFFFFFE,
     semFlags := flagSet [S_PhysAddr], regWriteIdx := (if isStore then 31 else 5)\<rparr>"

theorem load_after_store_coherent_witness:
  "intReg (fst (snd (drain (tsunamiBus quietIsa) False (fetchedGrain exampleCpu) (exampleAccess False) exampleCpu
     (fst (snd (snd (drain (tsunamiBus quietIsa) False (fetchedGrain exampleCpu) (exampleAccess True) exampleCpu
        exampleChipset newLocks))))
     (snd (snd (snd (drain (tsunamiBus quietIsa) False (fetchedGrain exampleCpu) (exampleAccess True) exampleCpu
        exampleChipset newLocks))))))) ! 5 = - 2"
proof -
  let ?g = "fetchedGrain exampleCpu"
  obtain r1 cpu1 c1 locks1 where s: "drain (tsunamiBus quietIsa) False ?g (exampleAccess True) exampleCpu
      exampleChipset newLocks = (r1, cpu1, c1, locks1)" by (rule prod_cases4)
  obtain r2 cpu2 c2 locks2 where l: "drain (tsunamiBus quietIsa) False ?g (exampleAccess False) exampleCpu c1 locks1
      = (r2, cpu2, c2, locks2)" by (rule prod_cases4)
  have d: "dramAt exampleChipset 0x10000"
    by (simp add: dramAt_def example_dram example_memory fits_def exampleMemory_eq)
  have a: "plainStore (exampleAccess True)" "plainLoad (exampleAccess False)"
    "has (semFlags (exampleAccess b)) S_PhysAddr" for b
    by (code_simp, code_simp, cases b) code_simp+
  have r: "resolves (exampleAccess b) exampleCpu 0x10000" for b using a(3) by (simp add: resolves_def exampleAccess_def)
  have "intReg cpu2 ! 5 = formatLoadValue (take_bit 32 0xFFFFFFFE) 4 False (flagSet [S_PhysAddr])"
    using load_after_store_coherent [OF example_memory(1) d a(1) r d a(2) r _ exampleCpu_wf s l]
    by (simp add: exampleAccess_def)
  also have "\<dots> = - 2" by code_simp
  finally show ?thesis using s l by simp
qed

text \<open>
  An access to non-existent memory completes without a fault and raises an interrupt instead: a read
  below the I/O window that no array decodes returns all ones, a write is dropped, memory and devices are
  unchanged, MISC NXM and its line DRIR 63 are set, so every processor with that line enabled sees the error
  interrupt, and while NXM stays latched further such accesses change nothing at all. No access of 1, 2, 4
  or 8 bytes to any address ever ends in a bus error. The interface and a test of the repository
  say otherwise: an address that nothing claims is to end in a bus error, delivered as a machine check.
\<close>

lemma nonexistent_memory_asynchronous:
  assumes "pa < kMMIO_Start" "\<not> isDramAddress (m_cchip c) pa" "w \<in> {1, 2, 4, 8}" "k < 4" "w' \<in> {1, 2, 4, 8}"
  shows "(let (r, c1) = chipset_read isa pa w c in
      r = okData (NOT 0) \<and> chipset_write isa pa v w c = (okData 0, c1) \<and>
      c1 = c\<lparr>m_cchip := m_cchip c1\<rparr> \<and> miscNxmLatched (m_cchip c1) \<and>
      (miscNxmLatched (m_cchip c) \<longrightarrow> c1 = c) \<and>
      (\<not> miscNxmLatched (m_cchip c) \<and> bit (m_dim (m_cchip c) ! k) 63 \<longrightarrow> pendingIrq0 (m_cchip c1) k)) \<and>
    br_status (fst (chipset_read isa q w' c)) = BS_Ok \<and> br_status (fst (chipset_write isa q v w' c)) = BS_Ok"
proof -
  have below: "unat pa < 0x80000000000" using assms(1) by (simp add: kMMIO_Start_def word_less_nat_alt)
  then have out: "\<not> isPalScratchAddr pa" "\<not> isTigFlashAddr pa" "\<not> tig_decodes pa" "pa \<noteq> kTigTraceArmReg"
    by (auto simp: isPalScratchAddr_def kPalScratchBase_def isTigFlashAddr_def tig_decodes_def
        kTigTraceArmReg_def word_le_nat_alt)
  have r: "chipset_read isa pa w c = (okData (NOT 0), reportNxm 0 c)"
    "chipset_write isa pa v w c = (okData 0, reportNxm 0 c)"
    using assms(1-3) out by (auto simp: chipset_read_def chipset_write_def)
  have latched: "miscNxmLatched (latchNxm 0 cc)" for cc
    using bit_latchNxm [of 0 cc 28] by (auto simp: miscNxmLatched_def and_mask_zero_iff bit_misc_masks)
  have irq: "pendingIrq0 (latchNxm 0 (m_cchip c)) k" if "bit (m_dim (m_cchip c) ! k) 63"
  proof -
    have "m_dim (latchNxm 0 (m_cchip c)) = m_dim (m_cchip c)" by (simp add: latchNxm_def Let_def)
    then have "bit ((m_drir (latchNxm 0 (m_cchip c)) AND m_dim (latchNxm 0 (m_cchip c)) ! k) AND 0xFC00000000000000) 63"
      using that by (simp add: bit_and_iff)
    then show ?thesis using assms(4) by (auto simp: pendingIrq0_def)
  qed
  have "br_status (fst (chipset_read isa q w' c)) = BS_Ok" "br_status (fst (chipset_write isa q v w' c)) = BS_Ok"
    using assms(5) by (auto simp: chipset_read_def chipset_write_def memRead_def okData_def split: prod.split)
  then show ?thesis unfolding r Let_def prod.case using latched irq by (simp add: reportNxm_def)
qed

text \<open>
  C16. A typed character reaches the processor: when the console attached to COM1 has a byte, COM1 has room and its receive
  interrupt is enabled, line 4 is low, unmasked and nothing is in service, one device poll moves exactly that
  byte to the end of the receive FIFO and interrupts every processor that enables the bridge line; the
  interrupt acknowledge read then returns the vector of a pending level that is served no later than line 4.
\<close>

theorem console_byte_interrupts:
  assumes "chipset_reachable isa c" "iicLine_ok isa"
    and "consoleQueue (m_devices c) = ch # q"
      "length (m_rxFifo (m_com1 (m_devices c))) < kRxFifoDepth \<and> backend (m_com1 (m_devices c))"
    and "bit (m_ier (m_com1 (m_devices c))) 0" "\<not> m_lastInput (m_pic (m_devices c)) ! 4"
    and "initState (master (m_pic (m_devices c))) = Ready" "isr (master (m_pic (m_devices c))) = 0"
    and "\<not> bit (imr (master (m_pic (m_devices c)))) 4" "k < 4" "bit (m_dim (m_cchip c) ! k) 55"
  shows "let c1 = evalDeviceIrqs isa c; p = m_pic (m_devices c1) in
    consoleQueue (m_devices c1) = q \<and> m_rxFifo (m_com1 (m_devices c1)) = m_rxFifo (m_com1 (m_devices c)) @ [ch] \<and>
    pendingIrq1 (m_cchip c1) k \<and>
    (\<exists>l. pendingLevel p = Some l \<and> masterLevel l \<le> 4 \<and>
      fst (chipset_read isa 0x801F8000000 4 c1) =
        okData (ucast (if l < 8 then icw2 (master p) OR of_nat l else icw2 (slave p) OR of_nat (l - 8))))"
proof -
  define c1 where "c1 = evalDeviceIrqs isa c"
  have inv: "chipset_inv c" by (rule reachable_inv [OF assms(1,2)])
  then have "length (m_lastInput (m_pic (m_devices c))) = 16" by (simp add: chipset_core_def dev_inv_def pic_ok_def)
  note b = console_byte_output [OF assms(3-5) this assms(6-9), of isa, folded eval_devices, folded c1_def]
  obtain l where l: "pendingLevel (m_pic (m_devices c1)) = Some l" "masterLevel l \<le> 4" using b(3) by blast
  have "bit (m_drir (m_cchip c1)) 55"
    using eval_level(2) [OF assms(2), of c] inv l(1) by (simp add: c1_def chipset_core_def outputAsserted_def)
  then have "bit ((m_drir (m_cchip c1) AND m_dim (m_cchip c1) ! k) AND 0x00FFFFFFFFFFFFFF) 55"
    using assms(11) by (simp add: bit_and_iff c1_def eval_frame)
  then have "pendingIrq1 (m_cchip c1) k" using assms(10) by (auto simp: pendingIrq1_def)
  then show ?thesis
    unfolding Let_def c1_def [symmetric] using b(1,2) l iack_read [OF l(1) iack_not_dram] by auto
qed

theorem console_byte_interrupts_witness:
  "pendingIrq1 (m_cchip (evalDeviceIrqs quietIsa
     (snd (chipset_write quietIsa 0x801A0000200 0x80000000000000 8 exampleChipset)))) 0"
proof -
  let ?c = "snd (chipset_write quietIsa 0x801A0000200 0x80000000000000 8 exampleChipset)"
  have r: "chipset_reachable quietIsa ?c" by (rule chipset_reachable.step [OF example_reachable(1) op_write])
  have nd: "\<not> isDramAddress (m_cchip exampleChipset) 0x801A0000200" by (simp add: example_dram)
  have c: "?c = exampleChipset\<lparr>m_cchip := cchip_write 0x200 0x80000000000000 (m_cchip exampleChipset)\<rparr>"
    using nd by (simp add: chipset_write_def isPalScratchAddr_def kPalScratchBase_def isTigFlashAddr_def
        kTigTraceArmReg_def tig_decodes_def kMMIO_Start_def mmioWrite_def routeMmioOffset_def kRegionTable_def)
  have dim: "bit (m_dim (m_cchip ?c) ! 0) 55"
    unfolding c by (simp add: exampleChipset_def newChipset_def newCchip_def cchip_reset_def cchip_write_def
        cchipRegs_def Let_def)
  have dev: "m_devices ?c = exampleDevices" unfolding c by (simp add: exampleChipset_def newChipset_def)
  have "m_rxFifo (m_com1 exampleDevices) = []" "backend (m_com1 exampleDevices)" "bit (m_ier (m_com1 exampleDevices)) 0"
    "\<not> m_lastInput (m_pic exampleDevices) ! 4" "initState (master (m_pic exampleDevices)) = Ready"
    "isr (master (m_pic exampleDevices)) = 0" "\<not> bit (imr (master (m_pic exampleDevices))) 4"
    by code_simp+
  then show ?thesis
    using console_byte_interrupts [OF r example_reachable(2), of "0x41" "[]" 0] dim
    by (simp add: dev Let_def exampleDevices_def kRxFifoDepth_def)
qed

text \<open>
  C34. No tick is lost to batching: however the elapsed cycles are split into calls of the tick, the timer latch
  of an existing processor is set afterwards iff it was set before or the total crossed a multiple of the tick
  interval (2 to the 18 cycles).
\<close>

theorem tick_never_missed:
  assumes "chipset_reachable isa c" "iicLine_ok isa" "unat (m_cycleAccum c) + sum_list (map unat ns) < 2 ^ 64"
    and "k < 4" "int k < m_cpuCount (m_cchip c)"
  shows "pendingIrq2 (m_cchip (fold chipset_step ns c)) k \<longleftrightarrow> pendingIrq2 (m_cchip c) k \<or>
    (unat (m_cycleAccum c) + sum_list (map unat ns)) div 2 ^ 18 \<noteq> unat (m_cycleAccum c) div 2 ^ 18"
proof -
  have "length (m_pendingIrq2 (m_cchip c)) = 4"
    using reachable_inv [OF assms(1,2)] by (simp add: chipset_core_def cchip_inv_def)
  then show ?thesis using ticks [OF assms(3) _ assms(4)] assms(5) by simp
qed

theorem tick_never_missed_witness:
  "pendingIrq2 (m_cchip (fold chipset_step [0x30000, 0x20000] exampleChipset)) 1"
proof -
  have "m_cycleAccum exampleChipset = 0" "m_cpuCount (m_cchip exampleChipset) = 2"
    by (simp_all add: exampleChipset_def newChipset_def newCchip_def cchip_reset_def Let_def)
  then show ?thesis using tick_never_missed [OF example_reachable, of "[0x30000, 0x20000]" 1] by simp
qed

text \<open>
  A chip set reset clears the bridge line but neither the interrupt controllers nor the cached level, so an
  output that stays asserted is not shown again by the next poll.
\<close>

lemma reset_hides_bridge_line:
  assumes "mirror_ok c" "m_lastPicLevel c" "iicLine_ok isa"
    and "outputAsserted (m_pic (m_devices (evalDeviceIrqs isa (chipset_reset c))))"
  shows "\<not> bit (m_drir (m_cchip (evalDeviceIrqs isa (chipset_reset c)))) 55"
  using assms
  by (auto simp: evalDeviceIrqs_def chipset_reset_def cchip_reset_def Let_def iicLine_ok_def mirrorLevel_simps
      split: option.split)

end
