(* ===== verification/Snapshot.thy ===== *)
theory Snapshot
  imports Chipset
begin

text \<open>
  Saving and restoring the machine: systemLib/Snapshot.h and Snapshot.cpp with the device part of
  chipsetLib/TsunamiChipset.h. A file holds a header, the processor state, the guest memory, the chip set
  and the staged firmware, followed by the FNV-1a hash of everything before it.

  The processor state is written as the raw bytes of the C++ object. Its layout belongs to the compiler
  and is the argument \<open>L\<close> of the operations: the bytes of a state, the state of given bytes and the bytes
  of a default-constructed state. The host clock and the success of the host's file operations are
  arguments too. Model names are ASCII. The directory scan for the newest snapshot and the pruning of
  old files are host file system work and are left out.
\<close>

section \<open>State\<close>

record SrmDescriptor =
  srm_valid :: bool
  srm_sigOffset :: u64
  srm_payloadSize :: u64
  srm_initialPalBase :: u64
  srm_targetPalBase :: u64
  srm_finalPC :: u64
  srm_jsrOffset :: u64

record 'o Machine =
  m_cpu :: Cpu
  m_chipset :: "'o TsunamiChipset"
  m_srmDescriptor :: SrmDescriptor
  m_srmPayload :: "u8 list"
  m_srmLoadPa :: u64
  m_palImageRelocated :: bool
  m_loadedStartPc :: u64
  m_loadedPalMode :: bool
  m_systemClock :: u64

record CpuLayout =
  cpu_bytes :: "Cpu \<Rightarrow> u8 list"
  cpu_of_bytes :: "u8 list \<Rightarrow> Cpu"
  cpu_default :: "u8 list"

datatype SnapshotError = CannotOpenFile | CannotReopen | CannotAppend | FileTooSmall | ChecksumMismatch | BadMagic
  | VersionMismatch u32 u32 u32 | MemorySizeMismatch u64 u64 | EnsurePageFailed | VariantMismatch
  | BlockSizeMismatch

definition kSnapshotMagic :: "u8 list" where
  "kSnapshotMagic = map of_char ''EMULATR1''"

definition kFormatVersion :: u32 where "kFormatVersion = 1"

definition kCpuStateVersion :: u32 where "kCpuStateVersion = 10"

definition kChipsetVersion :: u32 where "kChipsetVersion = 5"

definition kCommentSize :: nat where "kCommentSize = 256"

definition fnvStep :: "u8 \<Rightarrow> u64 \<Rightarrow> u64" where
  "fnvStep b h = (h XOR ucast b) * 0x100000001b3"

definition fnv1a64 :: "u8 list \<Rightarrow> u64" where
  "fnv1a64 bs = fold fnvStep bs 0xcbf29ce484222325"

section \<open>Stream items\<close>

definition put_bool :: "bool \<Rightarrow> u8 list" where
  "put_bool b = [if b then 1 else 0]"

definition get_bool :: "u8 list \<Rightarrow> bool \<times> u8 list" where
  "get_bool ds = (case get_u8 ds of (b, ds) \<Rightarrow> (b \<noteq> 0, ds))"

definition put_qstring :: "string \<Rightarrow> u8 list" where
  "put_qstring s = put_u32 (of_nat (2 * length s)) @ concat (map (\<lambda>c. [of_char c, 0]) s)"

text \<open>The reader does not use the value of the string: only what it consumes matters.\<close>

definition skip_qstring :: "u8 list \<Rightarrow> u8 list" where
  "skip_qstring ds = (case get_u32 ds of (n, ds) \<Rightarrow>
     if n = 0xFFFFFFFF \<or> odd n then ds else drop (unat n) ds)"

definition commentBuf :: "string option \<Rightarrow> u8 list" where
  "commentBuf c =
    (let bs = (case c of None \<Rightarrow> [] | Some s \<Rightarrow> take (kCommentSize - 1) (map of_char s))
     in bs @ replicate (kCommentSize - length bs) 0)"

primrec variantCode :: "ChipsetVariant \<Rightarrow> u32" where
  "variantCode Tsunami = 0"
| "variantCode Typhoon = 1"
| "variantCode Titan = 2"
| "variantCode UnknownVariant = 0xFF"

section \<open>Devices of the chip set\<close>

definition serializeDevices :: "'o TsunamiChipset \<Rightarrow> u8 list" where
  "serializeDevices c =
    (let d = m_devices c; img = flashImage (m_flash c) in
     uart_serialize (m_com1 d) @ uart_serialize (m_com2 d) @ pic_serialize (m_pic d) @
     put_bool (m_lastPicLevel c) @
     put_u32 (of_nat (length img)) @ (if img \<noteq> [] then img else []) @
     put_u32 (of_nat (deviceCount (m_pcf8584 d))) @
     (if 0 < deviceCount (m_pcf8584 d) then contentImage (m_pcf8584 d) else []))"

definition deserializeDevices :: "'o TsunamiChipset \<Rightarrow> u8 list \<Rightarrow> 'o TsunamiChipset \<times> u8 list" where
  "deserializeDevices c ds =
    (let d = m_devices c;
         (com1, ds) = uart_deserialize (m_com1 d) ds;
         (com2, ds) = uart_deserialize (m_com2 d) ds;
         (pic, ds) = pic_deserialize (m_pic d) ds;
         (lvl, ds) = get_bool ds;
         (flashBytes, ds) = get_u32 ds;
         (flash, ds) = (if flashBytes > 0
            then (case readRaw (replicate (unat flashBytes) 0) ds of (img, ds) \<Rightarrow> (restoreImage img (m_flash c), ds))
            else (m_flash c, ds));
         (iicCount, ds) = get_u32 ds;
         expect = of_nat (deviceCount (m_pcf8584 d));
         bytes = unat iicCount * kImageSize;
         (iic, ds) = (if iicCount = expect \<and> iicCount > 0
            then (case readRaw (replicate bytes 0) ds of (content, ds) \<Rightarrow> (restoreContentImage content (m_pcf8584 d), ds))
            else if iicCount > 0 then (m_pcf8584 d, drop bytes ds) else (m_pcf8584 d, ds))
     in (c\<lparr>m_devices := d\<lparr>m_com1 := com1, m_com2 := com2, m_pic := pic, m_pcf8584 := iic\<rparr>,
           m_lastPicLevel := lvl, m_flash := flash\<rparr>, ds))"

section \<open>Guest memory\<close>

text \<open>The page-by-page loops; \<open>None\<close> of the save is a read beyond the page table.\<close>

function savePages :: "GuestMemory \<Rightarrow> u64 \<Rightarrow> nat \<Rightarrow> u8 list option" where
  "savePages m pa remaining =
    (if remaining = 0 then Some []
     else let n = min remaining (unat kPageSize) in
       Option.bind (readBlock m pa n) (\<lambda>bs. map_option ((@) bs) (savePages m (pa + of_nat n) (remaining - n))))"
  by pat_completeness auto
termination
  by (relation "measure (\<lambda>(_, _, n). n)") (auto simp: kPageSize_def)

function loadPages :: "u32 \<Rightarrow> nat \<Rightarrow> u8 list \<Rightarrow> GuestMemory \<Rightarrow> bool \<times> u8 list \<times> GuestMemory" where
  "loadPages pidx remaining ds m =
    (if remaining = 0 then (True, ds, m)
     else let n = min remaining (unat kPageSize) in
       case ensurePage pidx m of
         (None, m1) \<Rightarrow> (False, ds, m1)
       | (Some pg, m1) \<Rightarrow>
           case readRaw (copyOut 0 n pg) ds of (bs, ds1) \<Rightarrow>
             loadPages (pidx + 1) (remaining - n) ds1
               (m1\<lparr>m_pages := (m_pages m1)[unat pidx := Some (copyIn 0 bs pg)]\<rparr>))"
  by pat_completeness auto
termination
  by (relation "measure (\<lambda>(_, n, _, _). n)") (auto simp: kPageSize_def)

declare savePages.simps [simp del] loadPages.simps [simp del]

section \<open>Save\<close>

definition srmBytes :: "'o Machine \<Rightarrow> u8 list" where
  "srmBytes m =
    (let sd = m_srmDescriptor m; payload = m_srmPayload m in
     put_bool (srm_valid sd) @ put_u64 (srm_sigOffset sd) @ put_u64 (srm_payloadSize sd) @
     put_u64 (srm_targetPalBase sd) @ put_u64 (srm_finalPC sd) @ put_u64 (srm_jsrOffset sd) @
     put_u64 (m_srmLoadPa m) @ put_bool (m_palImageRelocated m) @ put_u64 (m_loadedStartPc m) @
     put_bool (m_loadedPalMode m) @ put_u64 (of_nat (length payload)) @ payload)"

definition chipsetBytes :: "'o TsunamiChipset \<Rightarrow> u8 list" where
  "chipsetBytes c =
     cchip_serialize (m_cchip c) @ dchip_serialize (m_dchip c) @ pchip_serialize (m_pchip c) @ serializeDevices c"

definition snapshotBody :: "CpuLayout \<Rightarrow> u64 \<Rightarrow> string option \<Rightarrow> 'o Machine \<Rightarrow> u8 list option" where
  "snapshotBody L ts comment m =
    (let cpu = m_cpu m; c = m_chipset m; memSize = m_size (m_guestMemory c) in
     map_option (\<lambda>pages.
       kSnapshotMagic @ put_u32 kFormatVersion @ put_u32 kCpuStateVersion @ put_u32 kChipsetVersion @
       put_u64 ts @ put_u64 (cycleCount cpu) @ put_u64 (ccOffset cpu) @ commentBuf comment @
       cpu_bytes L cpu @ put_u64 memSize @ pages @
       put_u32 (variantCode (m_variant (m_cchip c))) @ put_qstring (m_model c) @
       put_u32 (of_int (m_cpuCount (m_cchip c))) @ put_u64 memSize @ chipsetBytes c @ srmBytes m)
       (savePages (m_guestMemory c) 0 (unat memSize)))"

datatype HostSave = SaveOpenFails | SaveReopenFails | SaveAppendFails | SaveSucceeds

definition snapshot_save :: "CpuLayout \<Rightarrow> HostSave \<Rightarrow> u64 \<Rightarrow> string option \<Rightarrow> string \<Rightarrow> 'o Machine \<Rightarrow> files \<Rightarrow>
    ((SnapshotError + u64) \<times> files) option" where
  "snapshot_save L host ts comment path m fs =
    (if host = SaveOpenFails then Some (Inl CannotOpenFile, fs)
     else map_option (\<lambda>body.
       case host of
         SaveReopenFails \<Rightarrow> (Inl CannotReopen, fs(path \<mapsto> body))
       | SaveAppendFails \<Rightarrow> (Inl CannotAppend, fs(path \<mapsto> body))
       | _ \<Rightarrow> (Inr (cycleCount (m_cpu m)), fs(path \<mapsto> body @ put_u64 (fnv1a64 body))))
       (snapshotBody L ts comment m))"

section \<open>Load\<close>

definition restoreSrmStaging :: "SrmDescriptor \<Rightarrow> u8 list \<Rightarrow> u64 \<Rightarrow> bool \<Rightarrow> u64 \<Rightarrow> bool \<Rightarrow> 'o Machine \<Rightarrow> 'o Machine" where
  "restoreSrmStaging sd payload loadPa relocated startPc pal m =
     m\<lparr>m_srmDescriptor := sd, m_srmPayload := payload, m_srmLoadPa := loadPa,
       m_palImageRelocated := relocated, m_loadedStartPc := startPc, m_loadedPalMode := pal,
       m_systemClock := cycleCount (m_cpu m)\<rparr>"

definition loadSrm :: "Cpu \<Rightarrow> u8 list \<Rightarrow> 'o Machine \<Rightarrow> 'o Machine" where
  "loadSrm cpuTmp ds m =
    (let (valid, ds) = get_bool ds; (sigOff, ds) = get_u64 ds; (payloadSz, ds) = get_u64 ds;
         (pal, ds) = get_u64 ds; (final, ds) = get_u64 ds; (jsrOff, ds) = get_u64 ds;
         (loadPa, ds) = get_u64 ds; (relocated, ds) = get_bool ds; (startPc, ds) = get_u64 ds;
         (palMode, ds) = get_bool ds; (payloadBytes, ds) = get_u64 ds;
         payload = fst (readRaw (replicate (unat payloadBytes) 0) ds)
     in restoreSrmStaging
          \<lparr>srm_valid = valid, srm_sigOffset = sigOff, srm_payloadSize = payloadSz, srm_initialPalBase = loadPa,
           srm_targetPalBase = pal, srm_finalPC = final, srm_jsrOffset = jsrOff\<rparr>
          payload loadPa relocated startPc palMode (m\<lparr>m_cpu := cpuTmp\<rparr>))"

definition loadChipset :: "'o TsunamiChipset \<Rightarrow> u8 list \<Rightarrow> 'o TsunamiChipset \<times> u8 list" where
  "loadChipset c ds =
    (let (cc, ds) = cchip_deserialize (m_cchip c) ds; (dc, ds) = dchip_deserialize (m_dchip c) ds;
         (pc, ds) = pchip_deserialize (m_pchip c) ds
     in deserializeDevices (c\<lparr>m_cchip := cc, m_dchip := dc, m_pchip := pc\<rparr>) ds)"

text \<open>The part after the header: memory, chip set, firmware.\<close>

definition loadMachine :: "Cpu \<Rightarrow> u64 \<Rightarrow> u8 list \<Rightarrow> 'o Machine \<Rightarrow> (SnapshotError + u64) \<times> 'o Machine" where
  "loadMachine cpuTmp cycleAtCapture ds m =
    (let (memSize, ds) = get_u64 ds; c = m_chipset m in
     if memSize \<noteq> m_size (m_guestMemory c)
     then (Inl (MemorySizeMismatch memSize (m_size (m_guestMemory c))), m)
     else case loadPages 0 (unat memSize) ds (m_guestMemory c) of
       (pagesOk, ds, mem) \<Rightarrow>
       (let c1 = c\<lparr>m_guestMemory := mem\<rparr>; m1 = m\<lparr>m_chipset := c1\<rparr> in
        if \<not> pagesOk then (Inl EnsurePageFailed, m1)
        else
          (let (variantU32, ds) = get_u32 ds; ds = skip_qstring ds; (cpuCountI, ds) = get_u32 ds;
               (chipMemSize, ds) = get_u64 ds in
           if ucast variantU32 \<noteq> (ucast (variantCode (m_variant (m_cchip c1))) :: u8) then (Inl VariantMismatch, m1)
           else if chipMemSize \<noteq> memSize then (Inl BlockSizeMismatch, m1)
           else case loadChipset c1 ds of (c2, ds) \<Rightarrow>
             (Inr cycleAtCapture, loadSrm cpuTmp ds (m1\<lparr>m_chipset := c2\<rparr>)))))"

definition loadBytes :: "CpuLayout \<Rightarrow> u8 list \<Rightarrow> 'o Machine \<Rightarrow> (SnapshotError + u64) \<times> 'o Machine" where
  "loadBytes L file m =
    (if length file < 8 then (Inl FileTooSmall, m)
     else
       (let body = take (length file - 8) file; storedCksum = fst (get_u64 (drop (length file - 8) file)) in
        if fnv1a64 body \<noteq> storedCksum then (Inl ChecksumMismatch, m)
        else
          (let (magic, ds) = readRaw (replicate 8 0) file in
           if magic \<noteq> kSnapshotMagic then (Inl BadMagic, m)
           else
             (let (formatVersion, ds) = get_u32 ds; (cpuStateVersion, ds) = get_u32 ds;
                  (chipsetVersion, ds) = get_u32 ds in
              if formatVersion \<noteq> kFormatVersion \<or> cpuStateVersion \<noteq> kCpuStateVersion \<or> chipsetVersion \<noteq> kChipsetVersion
              then (Inl (VersionMismatch formatVersion cpuStateVersion chipsetVersion), m)
              else
                (let (ts, ds) = get_u64 ds; (cycleAtCapture, ds) = get_u64 ds; (ccOffsetAtCapture, ds) = get_u64 ds;
                     (comment, ds) = readRaw (replicate kCommentSize 0) ds;
                     (cpuRaw, ds) = readRaw (cpu_default L) ds
                 in loadMachine (cpu_of_bytes L cpuRaw) cycleAtCapture ds m)))))"

definition snapshot_load :: "CpuLayout \<Rightarrow> string \<Rightarrow> files \<Rightarrow> 'o Machine \<Rightarrow> (SnapshotError + u64) \<times> 'o Machine" where
  "snapshot_load L path fs m =
    (case fs path of None \<Rightarrow> (Inl CannotOpenFile, m) | Some file \<Rightarrow> loadBytes L file m)"

section \<open>The checksum\<close>

lemma fnv_prime_inverse: "(0x100000001b3 :: u64) * 0xce965057aff6957b = 1"
  by simp

lemma fnvStep_cancel: "(a :: u64) * 0x100000001b3 = b * 0x100000001b3 \<longleftrightarrow> a = b"
proof
  assume "a * 0x100000001b3 = b * 0x100000001b3"
  then have "a * 0x100000001b3 * 0xce965057aff6957b = b * 0x100000001b3 * 0xce965057aff6957b" by (rule arg_cong)
  then show "a = b" by (simp only: mult.assoc fnv_prime_inverse mult_1_right)
qed simp

lemma xor_cancel: "(h :: u64) XOR x = h XOR y \<longleftrightarrow> x = y"
proof
  assume "h XOR x = h XOR y"
  then have "h XOR (h XOR x) = h XOR (h XOR y)" by (rule arg_cong)
  then show "x = y" by (simp flip: xor.assoc)
qed simp

lemma xor_cancel_right: "x XOR h = y XOR (h :: u64) \<longleftrightarrow> x = y"
  by (simp only: xor.commute [of _ h] xor_cancel)

lemma ucast_byte_inject: "(ucast (b :: u8) :: u64) = ucast b' \<longleftrightarrow> b = b'"
proof
  have narrow: "(ucast (ucast x :: u64) :: u8) = x" for x :: u8
    by (rule bit_word_eqI) (simp add: bit_simps)
  assume "(ucast b :: u64) = ucast b'"
  then show "b = b'" using narrow by metis
qed simp

lemma fnvStep_inject: "fnvStep b h = fnvStep b h' \<longleftrightarrow> h = h'" "fnvStep b h = fnvStep b' h \<longleftrightarrow> b = b'"
  by (simp_all only: fnvStep_def fnvStep_cancel xor_cancel xor_cancel_right ucast_byte_inject)

lemma fnv_fold_inject: "fold fnvStep bs h = fold fnvStep bs h' \<longleftrightarrow> h = h'"
  by (induction bs arbitrary: h h') (simp_all add: fnvStep_inject)

lemma fnv_detects:
  assumes "i < length bs" "b \<noteq> bs ! i"
  shows "fnv1a64 (bs[i := b]) \<noteq> fnv1a64 bs"
proof -
  have "fnv1a64 (take i bs @ bs ! i # drop (Suc i) bs) =
      fold fnvStep (drop (Suc i) bs) (fnvStep (bs ! i) (fold fnvStep (take i bs) 0xcbf29ce484222325))"
    by (simp add: fnv1a64_def)
  then have "fnv1a64 bs =
      fold fnvStep (drop (Suc i) bs) (fnvStep (bs ! i) (fold fnvStep (take i bs) 0xcbf29ce484222325))"
    by (simp only: id_take_nth_drop [OF assms(1), symmetric])
  moreover have "fnv1a64 (bs[i := b]) =
      fold fnvStep (drop (Suc i) bs) (fnvStep b (fold fnvStep (take i bs) 0xcbf29ce484222325))"
    using assms(1) by (simp add: fnv1a64_def upd_conv_take_nth_drop)
  ultimately show ?thesis using assms(2) by (simp add: fnv_fold_inject fnvStep_inject)
qed

lemma bit_u32_out: "32 \<le> n \<Longrightarrow> \<not> bit (w :: u32) n"
  using bit_imp_le_length [of w n] by auto

lemma put_get_u32: "put_u32 (fst (get_u32 [a, b, c, d])) = [a, b, c, d]"
  by (auto simp: put_u32_def intro!: bit_word_eqI) (auto simp: bit_simps bit_u8_out)

lemma put_get_u64:
  assumes "length ds = 8" shows "put_u64 (fst (get_u64 ds)) = ds"
proof -
  obtain a b c d e f g h where ds: "ds = [a, b, c, d, e, f, g, h]" using list8 [OF assms] by blast
  let ?lo = "fst (get_u32 [a, b, c, d])" and ?hi = "fst (get_u32 [e, f, g, h])"
  have "fst (get_u64 ds) = push_bit 32 (ucast ?hi) OR ucast ?lo"
    by (simp add: ds get_u64.simps)
  moreover have "ucast (push_bit 32 (ucast ?hi) OR ucast ?lo :: u64) = ?lo"
      "ucast (drop_bit 32 (push_bit 32 (ucast ?hi) OR ucast ?lo :: u64)) = ?hi"
    by (rule bit_word_eqI; simp add: bit_simps bit_u32_out del: get_u32.simps)+
  ultimately have "put_u64 (fst (get_u64 ds)) = put_u32 ?lo @ put_u32 ?hi" by (simp only: put_u64_def)
  then show ?thesis by (simp only: put_get_u32 ds append.simps)
qed

lemma length_put_u64 [simp]: "length (put_u64 w) = 8"
  by (simp add: put_u64_def put_u32_def)

lemma loadBytes_corrupt:
  assumes "i < length body + 8" "b \<noteq> (body @ put_u64 (fnv1a64 body)) ! i"
  shows "loadBytes L ((body @ put_u64 (fnv1a64 body))[i := b]) m = (Inl ChecksumMismatch, m)"
proof (cases "i < length body")
  case True
  then have "fnv1a64 (body[i := b]) \<noteq> fnv1a64 body" using assms(2) by (intro fnv_detects) (simp_all add: nth_append)
  moreover have "fst (get_u64 (put_u64 (fnv1a64 body))) = fnv1a64 body" using get_put_u64 [of _ "[]"] by simp
  ultimately show ?thesis using True by (simp add: loadBytes_def list_update_append)
next
  case False
  let ?j = "i - length body"
  have j: "?j < 8" "b \<noteq> put_u64 (fnv1a64 body) ! ?j" using False assms by (simp_all add: nth_append)
  have "put_u64 (fst (get_u64 ((put_u64 (fnv1a64 body))[?j := b]))) = (put_u64 (fnv1a64 body))[?j := b]"
    by (rule put_get_u64) simp
  then have "fst (get_u64 ((put_u64 (fnv1a64 body))[?j := b])) \<noteq> fnv1a64 body"
    using j by (metis length_put_u64 nth_list_update_eq)
  then show ?thesis using False by (simp add: loadBytes_def list_update_append)
qed


section \<open>Memory pages\<close>

text \<open>The page table covers the configured size.\<close>

definition covered :: "GuestMemory \<Rightarrow> bool" where
  "covered m \<longleftrightarrow> unat (m_size m) \<le> 65536 * unat (m_pageCount m)"

lemma savePages_bytes:
  assumes "gm_inv m" "fits m pa n"
  shows "savePages m pa n = Some (map (\<lambda>i. byteAt m (pa + of_nat i)) [0..<n])"
  using assms
proof (induction m pa n rule: savePages.induct)
  case (1 m pa n)
  show ?case
  proof (cases "n = 0")
    case True then show ?thesis by (simp add: savePages.simps)
  next
    case False
    let ?k = "min n (unat kPageSize)"
    have lt: "unat pa + ?k < 2 ^ 64" "?k < 2 ^ 64"
      using 1(3) unsigned_less [of "m_pageCount m", where ?'a = nat] by (auto simp: fits_def)
    then have "unat (pa + of_nat ?k) = unat pa + ?k"
      by (simp only: unat_word_ariths unat_of_nat_small mod_less) (simp add: mod_less)
    then have fit: "fits m (pa + of_nat ?k) (n - ?k)" using 1(3) by (simp add: fits_def)
    have first: "readBlock m pa ?k = Some (map (\<lambda>i. byteAt m (pa + of_nat i)) [0..<?k])"
      by (rule readBlock_bytes [OF 1(2)]) (rule fits_inRange [OF 1(3)], simp)
    have "savePages m (pa + of_nat ?k) (n - ?k) =
        Some (map (\<lambda>i. byteAt m (pa + of_nat ?k + of_nat i)) [0..<n - ?k])"
      using 1(1) [OF False refl first 1(2) fit] by simp
    moreover have "[0..<n] = [0..<?k] @ map ((+) ?k) [0..<n - ?k]"
      by (rule nth_equalityI) (auto simp: nth_append)
    ultimately show ?thesis using False first by (simp add: savePages.simps Let_def ac_simps)
  qed
qed

definition loadedPage :: "u32 \<Rightarrow> u8 list \<Rightarrow> GuestMemory \<Rightarrow> GuestMemory" where
  "loadedPage p bs m = (stored p 0 bs m)\<lparr>m_dirtyBitmap := m_dirtyBitmap m\<rparr>"

lemma ensurePage_loaded:
  assumes "backable m p"
  shows "\<exists>m1. ensurePage p m = (Some (basePage m p), m1) \<and>
    m1\<lparr>m_pages := (m_pages m1)[unat p := Some (copyIn 0 bs (basePage m p))]\<rparr> = loadedPage p bs m"
  using assms
  by (auto simp: ensurePage_def backable_def loadedPage_def stored_def basePage_def markDirty_def Let_def
      split: option.split)

lemma loaded_frame [simp]: "m_size (loadedPage p bs m) = m_size m" "m_pageCount (loadedPage p bs m) = m_pageCount m"
  by (simp_all add: loadedPage_def stored_def markDirty_def Let_def)

lemma loaded_inv:
  assumes "gm_inv m" "backable m p" shows "gm_inv (loadedPage p bs m)"
  using storePage_inv [OF assms(1), of p 0 bs] assms
  by (simp add: storePage_eq loadedPage_def gm_inv_def allocatedIndices_def)

lemma loaded_funded:
  assumes "gm_inv m" "backable m p" "funded m" shows "funded (loadedPage p bs m)"
  using storePage_funded [OF assms(1,3), of p 0 bs] assms(2) by (simp add: storePage_eq loadedPage_def funded_def)

lemma byteAt_loaded:
  assumes "gm_inv m" "p < m_pageCount m"
  shows "byteAt (loadedPage p bs m) pa =
    (if pageIndex pa = p \<and> pageOffset pa < length bs then bs ! pageOffset pa else byteAt m pa)"
proof -
  have "pageAt (loadedPage p bs m) q = pageAt (stored p 0 bs m) q" for q by (simp add: pageAt_def loadedPage_def)
  then show ?thesis using assms
    by (auto simp: byteAt_read1 read1_def Let_def pageAt_stored copyIn_def basePage_def zeroPage_def split: option.split)
qed

lemma address_split:
  assumes "k < 2 ^ 48"
  shows "unat (pageIndex (of_nat k)) = k div 65536" "pageOffset (of_nat k) = k mod 65536"
proof -
  have "unat (of_nat k :: u64) = k" using assms by (intro unat_of_nat_small) simp
  moreover have "k div 65536 < 2 ^ 32" using assms by (simp add: less_mult_imp_div_less)
  ultimately show "unat (pageIndex (of_nat k)) = k div 65536" "pageOffset (of_nat k) = k mod 65536"
    by (simp_all add: pageIndex_div pageOffset_mod)
qed

lemma length_copyOut [simp]: "length (copyOut off n pg) = n"
  by (simp add: copyOut_def)

lemma loadPages_bytes:
  assumes "gm_inv m" "funded m" "65536 * unat p + n \<le> 65536 * unat (m_pageCount m)" "length bs = n"
  shows "\<exists>m1. loadPages p n (bs @ rest) m = (True, rest, m1) \<and> gm_inv m1 \<and> m_size m1 = m_size m \<and>
    m_pageCount m1 = m_pageCount m \<and>
    (\<forall>k < 65536 * unat (m_pageCount m). byteAt m1 (of_nat k) =
      (if 65536 * unat p \<le> k \<and> k < 65536 * unat p + n then bs ! (k - 65536 * unat p) else byteAt m (of_nat k)))"
  using assms
proof (induction n arbitrary: p bs m rule: less_induct)
  case (less n)
  note inv = less.prems(1) and fund = less.prems(2) and fit = less.prems(3) and len = less.prems(4)
  show ?case
  proof (cases "n = 0")
    case True then show ?thesis using inv len by (auto simp: loadPages.simps)
  next
    case False
    let ?k = "min n (unat kPageSize)" and ?m = "loadedPage p (take (min n (unat kPageSize)) bs) m"
    have page: "unat kPageSize = 65536" by (simp add: kPageSize_def)
    have p: "p < m_pageCount m" using fit False by (simp add: word_less_nat_alt)
    then have avail: "backable m p"
      using funded_backable [OF inv fund] by simp
    obtain m1 where m1: "ensurePage p m = (Some (basePage m p), m1)"
        "m1\<lparr>m_pages := (m_pages m1)[unat p := Some (copyIn 0 (take ?k bs) (basePage m p))]\<rparr> = ?m"
      using ensurePage_loaded [OF avail] by blast
    have rd: "readRaw (copyOut 0 ?k (basePage m p)) (bs @ rest) = (take ?k bs, drop ?k bs @ rest)"
      using readRaw_append [of "copyOut 0 ?k (basePage m p)" "take ?k bs" "drop ?k bs @ rest"] len
      by (simp add: append_assoc [symmetric] del: append_assoc)
    have step: "loadPages p n (bs @ rest) m = loadPages (p + 1) (n - ?k) (drop ?k bs @ rest) ?m"
      using False m1 rd by (simp add: loadPages.simps [of p n] Let_def)
    have p1: "unat (p + 1) = Suc (unat p)"
      using p unsigned_less [of "m_pageCount m", where ?'a = nat] by (simp add: word_less_nat_alt unat_word_ariths)
    have "\<exists>m2. loadPages (p + 1) (n - ?k) (drop ?k bs @ rest) ?m = (True, rest, m2) \<and> gm_inv m2 \<and>
        m_size m2 = m_size ?m \<and> m_pageCount m2 = m_pageCount ?m \<and>
        (\<forall>k < 65536 * unat (m_pageCount ?m). byteAt m2 (of_nat k) =
          (if 65536 * unat (p + 1) \<le> k \<and> k < 65536 * unat (p + 1) + (n - ?k)
           then drop ?k bs ! (k - 65536 * unat (p + 1)) else byteAt ?m (of_nat k)))"
    proof (rule less.IH)
      show "n - ?k < n" using False page by simp
      show "gm_inv ?m" "funded ?m" using loaded_inv loaded_funded inv avail fund by blast+
      show "65536 * unat (p + 1) + (n - ?k) \<le> 65536 * unat (m_pageCount ?m)"
        using fit p p1 page by (simp add: word_less_nat_alt min_def)
    qed (use len in simp)
    then obtain m2 where m2: "loadPages p n (bs @ rest) m = (True, rest, m2)" "gm_inv m2" "m_size m2 = m_size m"
        "m_pageCount m2 = m_pageCount m"
      and bytes: "\<And>k. k < 65536 * unat (m_pageCount m) \<Longrightarrow> byteAt m2 (of_nat k) =
          (if 65536 * Suc (unat p) \<le> k \<and> k < 65536 * Suc (unat p) + (n - ?k)
           then drop ?k bs ! (k - 65536 * Suc (unat p)) else byteAt ?m (of_nat k))"
      unfolding step p1 by auto
    have "byteAt m2 (of_nat k) = (if 65536 * unat p \<le> k \<and> k < 65536 * unat p + n
        then bs ! (k - 65536 * unat p) else byteAt m (of_nat k))" if k: "k < 65536 * unat (m_pageCount m)" for k
    proof -
      have "k < 2 ^ 48" using k unsigned_less [of "m_pageCount m", where ?'a = nat] by simp
      note sp = address_split [OF this]
      have here: "byteAt ?m (of_nat k) = (if k div 65536 = unat p \<and> k mod 65536 < ?k then bs ! (k mod 65536) else byteAt m (of_nat k))"
        using sp len by (auto simp: byteAt_loaded [OF inv p] word_unat_eq_iff)
      show ?thesis
      proof (cases "k div 65536 = unat p")
        case True
        then have "k = 65536 * unat p + k mod 65536" using mult_div_mod_eq [of 65536 k] by simp
        moreover have "k mod 65536 < 65536" by simp
        ultimately have "k - 65536 * unat p = k mod 65536" "65536 * unat p \<le> k" "k < 65536 * Suc (unat p)"
          "k < 65536 * unat p + n \<longleftrightarrow> k mod 65536 < n" by (simp_all, linarith+)
        then show ?thesis using bytes [OF k] here True page by (auto simp: min_def)
      next
        case False
        then have "k < 65536 * unat p \<or> 65536 * Suc (unat p) \<le> k"
          by (metis div_nat_eqI not_less mult.commute mult_Suc_right add.commute)
        then show ?thesis using bytes [OF k] here False page len by (auto simp: min_def not_le)
      qed
    qed
    then show ?thesis using m2 by blast
  qed
qed


section \<open>Chip set\<close>

lemma get_put_bool [simp]: "get_bool (put_bool b @ ds) = (b, ds)"
  by (simp add: get_bool_def put_bool_def)

definition iic_restore :: "Iic \<Rightarrow> Iic \<Rightarrow> Iic" where
  "iic_restore c0 c =
     c0\<lparr>iic_devices := map2 (\<lambda>d0 d. d0\<lparr>iic_image := iic_image d\<rparr>) (iic_devices c0) (iic_devices c)\<rparr>"

definition devices_restore :: "'o TsunamiChipset \<Rightarrow> 'o TsunamiChipset \<Rightarrow> 'o TsunamiChipset" where
  "devices_restore c0 c =
    (let d0 = m_devices c0; d = m_devices c in
     c0\<lparr>m_devices := d0\<lparr>m_com1 := uart_restore (m_com1 d0) (m_com1 d), m_com2 := uart_restore (m_com2 d0) (m_com2 d),
          m_pic := m_pic d, m_pcf8584 := iic_restore (m_pcf8584 d0) (m_pcf8584 d)\<rparr>,
        m_lastPicLevel := m_lastPicLevel c, m_flash := restoreImage (flashImage (m_flash c)) (m_flash c0)\<rparr>)"

definition chipset_restore :: "'o TsunamiChipset \<Rightarrow> 'o TsunamiChipset \<Rightarrow> 'o TsunamiChipset" where
  "chipset_restore c0 c = devices_restore
     (c0\<lparr>m_cchip := cchip_restore (m_cchip c0) (m_cchip c), m_dchip := (m_dchip c)\<lparr>d_variant := d_variant (m_dchip c0)\<rparr>,
         m_pchip := (m_pchip c)\<lparr>m_pciDevices := m_pciDevices (m_pchip c0), m_ioPortRegistry := m_ioPortRegistry (m_pchip c0),
           m_pciMemRegistry := m_pciMemRegistry (m_pchip c0)\<rparr>\<rparr>) c"

lemma unat_of_nat32: "n < 2 ^ 32 \<Longrightarrow> unat (of_nat n :: u32) = n"
  by (simp add: unat_of_nat take_bit_nat_eq_self)

lemma flash_length: "length (flashImage f) = kFlashSize" "0 < kFlashSize" "kFlashSize < 2 ^ 32" "flashImage f \<noteq> []"
  by (simp_all add: flashImage_def kFlashSize_def)

lemma raw_counted:
  assumes "length bs < 2 ^ 32"
  shows "readRaw (replicate (unat (of_nat (length bs) :: u32)) 0) (bs @ rest) = (bs, rest)"
  using assms by (intro readRaw_append) (simp add: unat_of_nat32)

lemma flash_codec:
  "get_u32 (put_u32 (of_nat kFlashSize) @ flashImage f @ rest) = (of_nat kFlashSize, flashImage f @ rest)"
  "readRaw (replicate (unat (of_nat kFlashSize :: u32)) 0) (flashImage f @ rest) = (flashImage f, rest)"
  "0 < (of_nat kFlashSize :: u32)"
proof -
  show "readRaw (replicate (unat (of_nat kFlashSize :: u32)) 0) (flashImage f @ rest) = (flashImage f, rest)"
    using raw_counted [of "flashImage f" rest] flash_length by simp
  show "0 < (of_nat kFlashSize :: u32)"
    using flash_length(2,3) by (simp add: word_less_nat_alt unat_of_nat32)
qed simp

lemma iic_restore_Nil: "iic_devices c0 = [] \<Longrightarrow> iic_restore c0 c = c0"
  by (simp add: iic_restore_def)

lemma iic_codec:
  assumes "length (iic_devices c0) = length (iic_devices c)" "length (iic_devices c) < 2 ^ 24" "iic_devices c \<noteq> []"
  shows "readRaw (replicate (unat (of_nat (length (iic_devices c)) :: u32) * kImageSize) 0) (contentImage c @ rest) =
      (contentImage c, rest)"
    "restoreContentImage (contentImage c) c0 = iic_restore c0 c"
proof -
  show "readRaw (replicate (unat (of_nat (length (iic_devices c)) :: u32) * kImageSize) 0) (contentImage c @ rest) =
      (contentImage c, rest)"
    using assms(2) length_contentImage [of c] by (intro readRaw_append) (simp add: unat_of_nat32 contentBytes_def)
  show "restoreContentImage (contentImage c) c0 = iic_restore c0 c"
    using restore_content [OF assms(1)] by (simp add: iic_restore_def)
qed

lemma devices_load_save:
  assumes "dev_inv (m_devices c)"
    and iic: "deviceCount (m_pcf8584 (m_devices c0)) = deviceCount (m_pcf8584 (m_devices c))"
      "deviceCount (m_pcf8584 (m_devices c)) < 2 ^ 24"
  shows "deserializeDevices c0 (serializeDevices c @ rest) = (devices_restore c0 c, rest)"
proof -
  have ok: "uart_ok (m_com1 (m_devices c))" "uart_ok (m_com2 (m_devices c))" "pic_ok (m_pic (m_devices c))"
    using assms(1) by (simp_all add: dev_inv_def)
  show ?thesis
  proof (cases "deviceCount (m_pcf8584 (m_devices c)) = 0")
    case True
    then show ?thesis
      using ok iic
      by (simp add: deserializeDevices_def serializeDevices_def flash_length flash_codec uart_load_save pic_load_save
          devices_restore_def iic_restore_Nil deviceCount_def Let_def)
  next
    case False
    then have pos: "0 < (of_nat (deviceCount (m_pcf8584 (m_devices c))) :: u32)"
      using iic(2) by (simp add: word_less_nat_alt unat_of_nat32)
    show ?thesis
      using ok iic False pos iic_codec(1) [of "m_pcf8584 (m_devices c0)" "m_pcf8584 (m_devices c)" rest]
        iic_codec(2) [of "m_pcf8584 (m_devices c0)" "m_pcf8584 (m_devices c)"]
      by (simp add: deserializeDevices_def serializeDevices_def flash_length flash_codec uart_load_save pic_load_save
          devices_restore_def deviceCount_def Let_def)
  qed
qed

lemma chipset_load_save:
  assumes "chipset_core False c"
    and "deviceCount (m_pcf8584 (m_devices c0)) = deviceCount (m_pcf8584 (m_devices c))"
      "deviceCount (m_pcf8584 (m_devices c)) < 2 ^ 24"
  shows "loadChipset c0 (chipsetBytes c @ rest) = (chipset_restore c0 c, rest)"
proof -
  have ok: "cchip_inv (m_cchip c)" "pchip_wf (m_pchip c)" "dev_inv (m_devices c)"
    using assms(1) by (simp_all add: chipset_core_def)
  show ?thesis
    using assms(2,3)
    by (simp add: loadChipset_def chipsetBytes_def cchip.load_save [OF ok(1)] dchip_snap.load_save
        pchip_snap.load_save [OF ok(2)] devices_load_save [OF ok(3)] chipset_restore_def)
qed

section \<open>The life of a chip set\<close>







section \<open>The whole file\<close>

lemma srm_load_save:
  assumes "length (m_srmPayload m) < 2 ^ 31"
  shows "loadSrm cpu (srmBytes m @ rest) m0 = m0\<lparr>m_cpu := cpu,
    m_srmDescriptor := (m_srmDescriptor m)\<lparr>srm_initialPalBase := m_srmLoadPa m\<rparr>, m_srmPayload := m_srmPayload m,
    m_srmLoadPa := m_srmLoadPa m, m_palImageRelocated := m_palImageRelocated m, m_loadedStartPc := m_loadedStartPc m,
    m_loadedPalMode := m_loadedPalMode m, m_systemClock := cycleCount cpu\<rparr>"
proof -
  have "unat (of_nat (length (m_srmPayload m)) :: u64) = length (m_srmPayload m)"
    using assms by (intro unat_of_nat_small) simp
  then have "readRaw (replicate (unat (of_nat (length (m_srmPayload m)) :: u64)) 0) (m_srmPayload m @ rest) = (m_srmPayload m, rest)"
    by (intro readRaw_append) simp
  then show ?thesis
    by (cases "m_srmDescriptor m") (simp add: loadSrm_def srmBytes_def restoreSrmStaging_def Let_def)
qed

lemma length_qunits: "length (concat (map (\<lambda>c. [of_char c, 0 :: u8]) s)) = 2 * length s"
  by (induction s) simp_all

lemma skip_put_qstring:
  assumes "length s < 2 ^ 30" shows "skip_qstring (put_qstring s @ ds) = ds"
proof -
  have n: "unat (of_nat (2 * length s) :: u32) = 2 * length s" using assms by (intro unat_of_nat32) simp
  have "of_nat (2 * length s) \<noteq> (0xFFFFFFFF :: u32)"
  proof
    assume "of_nat (2 * length s) = (0xFFFFFFFF :: u32)"
    then have "2 * length s = unat (0xFFFFFFFF :: u32)" using n by simp
    then show False using assms by simp
  qed
  moreover have "even (of_nat (2 * length s) :: u32)" by simp
  ultimately show ?thesis
    using n length_qunits [of s] by (simp add: skip_qstring_def put_qstring_def del: of_nat_mult)
qed

lemma length_commentBuf: "length (commentBuf c) = kCommentSize"
  by (cases c) (simp_all add: commentBuf_def kCommentSize_def Let_def)

lemma length_magic: "length kSnapshotMagic = 8"
  by (simp add: kSnapshotMagic_def)

text \<open>
  What a target machine must have in common with the saved one: room for the same memory and the same
  population of the I2C bus. The layout hypotheses say that the raw bytes of a processor state have the
  size of the object and determine the state.
\<close>

definition saveable :: "CpuLayout \<Rightarrow> 'o Machine \<Rightarrow> bool" where
  "saveable L m \<longleftrightarrow> chipset_core False (m_chipset m) \<and> covered (m_guestMemory (m_chipset m)) \<and>
     length (cpu_bytes L (m_cpu m)) = length (cpu_default L) \<and> cpu_of_bytes L (cpu_bytes L (m_cpu m)) = m_cpu m \<and>
     deviceCount (m_pcf8584 (m_devices (m_chipset m))) < 2 ^ 24 \<and>
     length (m_model (m_chipset m)) < 2 ^ 30 \<and> length (m_srmPayload m) < 2 ^ 31"

definition restorable :: "'o Machine \<Rightarrow> 'o Machine \<Rightarrow> bool" where
  "restorable m m0 \<longleftrightarrow> (let mem = m_guestMemory (m_chipset m); mem0 = m_guestMemory (m_chipset m0) in
     gm_inv mem0 \<and> funded mem0 \<and> covered mem0 \<and> m_size mem0 = m_size mem \<and>
     deviceCount (m_pcf8584 (m_devices (m_chipset m0))) = deviceCount (m_pcf8584 (m_devices (m_chipset m))))"

definition memoryBytes :: "'o Machine \<Rightarrow> u8 list" where
  "memoryBytes m = map (\<lambda>k. byteAt (m_guestMemory (m_chipset m)) (of_nat k)) [0..<unat (m_size (m_guestMemory (m_chipset m)))]"

definition snapshotTail :: "'o Machine \<Rightarrow> u8 list" where
  "snapshotTail m = (let c = m_chipset m; memSize = m_size (m_guestMemory c) in
     put_u32 (variantCode (m_variant (m_cchip c))) @ put_qstring (m_model c) @
     put_u32 (of_int (m_cpuCount (m_cchip c))) @ put_u64 memSize @ chipsetBytes c @ srmBytes m)"

lemma body_eq:
  assumes "saveable L m"
  shows "snapshotBody L ts comment m = Some (kSnapshotMagic @ put_u32 kFormatVersion @ put_u32 kCpuStateVersion @
    put_u32 kChipsetVersion @ put_u64 ts @ put_u64 (cycleCount (m_cpu m)) @ put_u64 (ccOffset (m_cpu m)) @
    commentBuf comment @ cpu_bytes L (m_cpu m) @ put_u64 (m_size (m_guestMemory (m_chipset m))) @
    memoryBytes m @ snapshotTail m)"
proof -
  let ?mem = "m_guestMemory (m_chipset m)"
  have "gm_inv ?mem" "fits ?mem 0 (unat (m_size ?mem))"
    using assms by (simp_all add: saveable_def chipset_core_def covered_def fits_def)
  then show ?thesis using savePages_bytes [of ?mem 0 "unat (m_size ?mem)"]
    by (simp add: snapshotBody_def Let_def memoryBytes_def snapshotTail_def)
qed

lemma load_header:
  assumes "saveable L m" "snapshotBody L ts comment m = Some body"
  shows "loadBytes L (body @ put_u64 (fnv1a64 body)) m0 = loadMachine (m_cpu m) (cycleCount (m_cpu m))
    (put_u64 (m_size (m_guestMemory (m_chipset m))) @ memoryBytes m @ snapshotTail m @ put_u64 (fnv1a64 body)) m0"
proof -
  have sum: "fst (get_u64 (put_u64 (fnv1a64 body))) = fnv1a64 body" using get_put_u64 [of _ "[]"] by simp
  have whole: "body @ put_u64 (fnv1a64 body) = kSnapshotMagic @ put_u32 kFormatVersion @ put_u32 kCpuStateVersion @
    put_u32 kChipsetVersion @ put_u64 ts @ put_u64 (cycleCount (m_cpu m)) @ put_u64 (ccOffset (m_cpu m)) @
    commentBuf comment @ cpu_bytes L (m_cpu m) @ put_u64 (m_size (m_guestMemory (m_chipset m))) @
    memoryBytes m @ snapshotTail m @ put_u64 (fnv1a64 body)"
    using body_eq [OF assms(1), of ts comment] assms(2) by simp
  have raw: "readRaw (replicate 8 0) (kSnapshotMagic @ ds) = (kSnapshotMagic, ds)"
    "readRaw (replicate kCommentSize 0) (commentBuf comment @ ds) = (commentBuf comment, ds)"
    "readRaw (cpu_default L) (cpu_bytes L (m_cpu m) @ ds) = (cpu_bytes L (m_cpu m), ds)" for ds
    using assms(1) by (auto intro!: readRaw_append simp: length_magic length_commentBuf saveable_def)
  have ends: "take (length (body @ put_u64 (fnv1a64 body)) - 8) (body @ put_u64 (fnv1a64 body)) = body"
    "drop (length (body @ put_u64 (fnv1a64 body)) - 8) (body @ put_u64 (fnv1a64 body)) = put_u64 (fnv1a64 body)"
    "\<not> length (body @ put_u64 (fnv1a64 body)) < 8" by simp_all
  show ?thesis
    unfolding loadBytes_def ends sum Let_def
    by (simp only: whole raw get_put_u32 get_put_u64 case_prod_conv) (use assms(1) in \<open>simp add: saveable_def ends(3) flip: whole\<close>)
qed

lemma load_memory:
  assumes "saveable L m" "restorable m m0"
  shows "\<exists>mem. gm_inv mem \<and> m_size mem = m_size (m_guestMemory (m_chipset m)) \<and>
    (\<forall>k < unat (m_size mem). byteAt mem (of_nat k) = byteAt (m_guestMemory (m_chipset m)) (of_nat k)) \<and>
    loadPages 0 (unat (m_size (m_guestMemory (m_chipset m)))) (memoryBytes m @ ds) (m_guestMemory (m_chipset m0)) = (True, ds, mem)"
proof -
  let ?src = "m_guestMemory (m_chipset m)" and ?dst = "m_guestMemory (m_chipset m0)"
  have t: "gm_inv ?dst" "funded ?dst" "covered ?dst" "m_size ?dst = m_size ?src"
    using assms(2) by (simp_all add: restorable_def Let_def)
  then have fit: "65536 * unat (0 :: u32) + unat (m_size ?src) \<le> 65536 * unat (m_pageCount ?dst)" by (simp add: covered_def)
  have len: "length (memoryBytes m) = unat (m_size ?src)" by (simp add: memoryBytes_def)
  obtain mem where mem: "loadPages 0 (unat (m_size ?src)) (memoryBytes m @ ds) ?dst = (True, ds, mem)" "gm_inv mem"
      "m_size mem = m_size ?dst"
    and bytes: "\<And>k. k < 65536 * unat (m_pageCount ?dst) \<Longrightarrow> byteAt mem (of_nat k) =
      (if k < unat (m_size ?src) then memoryBytes m ! k else byteAt ?dst (of_nat k))"
    using loadPages_bytes [OF t(1,2) fit len, of ds] by auto
  have "byteAt mem (of_nat k) = byteAt ?src (of_nat k)" if "k < unat (m_size mem)" for k
    using bytes [of k] that t(3,4) mem(3) by (simp add: covered_def memoryBytes_def)
  then show ?thesis using mem t(4) by auto
qed

lemma load_machine:
  assumes "saveable L m" "restorable m m0" "m_variant (m_cchip (m_chipset m0)) = m_variant (m_cchip (m_chipset m))"
  shows "\<exists>mem. gm_inv mem \<and> m_size mem = m_size (m_guestMemory (m_chipset m)) \<and>
    (\<forall>k < unat (m_size mem). byteAt mem (of_nat k) = byteAt (m_guestMemory (m_chipset m)) (of_nat k)) \<and>
    loadMachine cpu cyc (put_u64 (m_size (m_guestMemory (m_chipset m))) @ memoryBytes m @ snapshotTail m @ rest) m0 =
      (Inr cyc, loadSrm cpu (srmBytes m @ rest)
        (m0\<lparr>m_chipset := chipset_restore ((m_chipset m0)\<lparr>m_guestMemory := mem\<rparr>) (m_chipset m)\<rparr>))"
proof -
  obtain mem where mem: "gm_inv mem" "m_size mem = m_size (m_guestMemory (m_chipset m))"
      "\<forall>k < unat (m_size mem). byteAt mem (of_nat k) = byteAt (m_guestMemory (m_chipset m)) (of_nat k)"
    and pages: "loadPages 0 (unat (m_size (m_guestMemory (m_chipset m)))) (memoryBytes m @ snapshotTail m @ rest)
      (m_guestMemory (m_chipset m0)) = (True, snapshotTail m @ rest, mem)"
    using load_memory [OF assms(1,2)] by blast
  have "loadChipset ((m_chipset m0)\<lparr>m_guestMemory := mem\<rparr>) (chipsetBytes (m_chipset m) @ srmBytes m @ rest) =
      (chipset_restore ((m_chipset m0)\<lparr>m_guestMemory := mem\<rparr>) (m_chipset m), srmBytes m @ rest)"
    by (rule chipset_load_save) (use assms in \<open>simp_all add: saveable_def restorable_def Let_def\<close>)
  then show ?thesis
    using assms mem pages
    by (intro exI [of _ mem])
      (simp add: loadMachine_def snapshotTail_def skip_put_qstring saveable_def restorable_def Let_def)
qed

lemma save_succeeds:
  "saveable L m \<Longrightarrow> \<exists>body. snapshotBody L ts comment m = Some body \<and>
     snapshot_save L SaveSucceeds ts comment path m fs =
       Some (Inr (cycleCount (m_cpu m)), fs(path \<mapsto> body @ put_u64 (fnv1a64 body)))"
  using body_eq [of L m ts comment] by (auto simp: snapshot_save_def)

lemma flash_restored:
  "i < kFlashSize \<Longrightarrow> fl_data (restoreImage (flashImage f) f0) i = fl_data f i"
  by (simp add: restoreImage_def copyBytes_def flashImage_def)

lemma contents_restored:
  assumes "deviceCount c0 = deviceCount c" shows "iicContents (iic_restore c0 c) = iicContents c"
  using assms
  by (intro nth_equalityI) (auto simp: iicContents_def iic_restore_def deviceCount_def)

text \<open>
  An example machine that is saved, and another one of the same build that the file is loaded into:
  another processor state, a byte written in memory, no firmware staged. The example layout writes the
  program counter, the exception address, the PAL base, the cycle counter and both register files as
  little-endian quadwords.
\<close>

definition exampleMachine :: "unit Machine" where
  "exampleMachine = \<lparr>m_cpu = exampleCpu\<lparr>pc := 0x20004, cycleCount := 77, intReg := (intReg exampleCpu)[1 := 9]\<rparr>,
     m_chipset = exampleChipset,
     m_srmDescriptor = \<lparr>srm_valid = True, srm_sigOffset = 0, srm_payloadSize = 2, srm_initialPalBase = 0x900000,
       srm_targetPalBase = 0x600000, srm_finalPC = 1, srm_jsrOffset = 0\<rparr>,
     m_srmPayload = [1, 2], m_srmLoadPa = 0x900000, m_palImageRelocated = False, m_loadedStartPc = 0x900001,
     m_loadedPalMode = True, m_systemClock = 0\<rparr>"

definition targetMachine :: "unit Machine" where
  "targetMachine = exampleMachine\<lparr>m_cpu := exampleCpu,
     m_chipset := exampleChipset\<lparr>m_guestMemory := storeBytes 5 [7] exampleMemory\<rparr>,
     m_srmPayload := [], m_loadedStartPc := 0, m_loadedPalMode := False\<rparr>"

definition cpuWords :: "Cpu \<Rightarrow> u64 list" where
  "cpuWords cpu = [pc cpu, excAddr cpu, palBase cpu, cycleCount cpu] @ intReg cpu @ fpReg cpu"

definition exampleLayout :: CpuLayout where
  "exampleLayout = \<lparr>cpu_bytes = \<lambda>cpu. concat (map put_u64 (cpuWords cpu)),
     cpu_of_bytes = \<lambda>bs. (let ws = fst (get_many get_u64 68 bs) in
       exampleCpu\<lparr>pc := ws ! 0, excAddr := ws ! 1, palBase := ws ! 2, cycleCount := ws ! 3,
         intReg := take 32 (drop 4 ws), fpReg := drop 36 ws\<rparr>),
     cpu_default = replicate 544 0\<rparr>"

lemma example_words: "length (cpuWords (m_cpu exampleMachine)) = 68"
  by (simp add: cpuWords_def exampleMachine_def exampleCpu_def)

lemma example_layout:
  "length (cpu_bytes exampleLayout (m_cpu exampleMachine)) = length (cpu_default exampleLayout)"
  "cpu_of_bytes exampleLayout (cpu_bytes exampleLayout (m_cpu exampleMachine)) = m_cpu exampleMachine"
proof -
  have "length (concat (map put_u64 ws)) = 8 * length ws" for ws by (induction ws) simp_all
  then show "length (cpu_bytes exampleLayout (m_cpu exampleMachine)) = length (cpu_default exampleLayout)"
    by (simp add: exampleLayout_def example_words)
  let ?ws = "cpuWords (m_cpu exampleMachine)"
  have ws: "fst (get_many get_u64 68 (concat (map put_u64 ?ws))) = ?ws"
    using get_many_put [of get_u64 put_u64 ?ws "[]"] example_words by simp
  have len: "length (intReg (m_cpu exampleMachine)) = 32" by (simp add: exampleMachine_def exampleCpu_def)
  have "cpu_of_bytes exampleLayout (cpu_bytes exampleLayout (m_cpu exampleMachine)) =
      exampleCpu\<lparr>pc := ?ws ! 0, excAddr := ?ws ! 1, palBase := ?ws ! 2, cycleCount := ?ws ! 3,
        intReg := take 32 (drop 4 ?ws), fpReg := drop 36 ?ws\<rparr>"
    by (simp add: exampleLayout_def ws Let_def)
  also have "\<dots> = m_cpu exampleMachine"
    using len by (simp add: cpuWords_def) (simp add: exampleMachine_def exampleCpu_def)
  finally show "cpu_of_bytes exampleLayout (cpu_bytes exampleLayout (m_cpu exampleMachine)) = m_cpu exampleMachine" .
qed

lemma example_saveable: "saveable exampleLayout exampleMachine" "restorable exampleMachine targetMachine"
proof -
  have ok: "gm_inv exampleMemory" "covered exampleMemory"
    by (simp_all add: exampleMemory_ok) (simp add: covered_def exampleMemory_eq)
  have mem: "m_guestMemory exampleChipset = exampleMemory" by (simp add: exampleChipset_def newChipset_def)
  have c: "chipset_core False exampleChipset" using reachable_inv example_reachable core_weaken by blast
  have n: "deviceCount (m_pcf8584 (m_devices exampleChipset)) < 2 ^ 24" "length (m_model exampleChipset) < 2 ^ 30"
    by (simp_all add: exampleChipset_def newChipset_def exampleDevices_def deviceCount_def newIic_def iic_reset_def)
  have m: "m_chipset exampleMachine = exampleChipset" "length (m_srmPayload exampleMachine) = 2"
    by (simp_all add: exampleMachine_def)
  show "saveable exampleLayout exampleMachine"
    using ok mem c n m example_layout by (simp add: saveable_def)
  have s: "m_size (storeBytes pa bs mm) = m_size mm \<and> m_pageCount (storeBytes pa bs mm) = m_pageCount mm" for pa bs mm
    by (induction bs arbitrary: pa mm) (simp_all add: write1_def storePage_eq)
  have t: "m_guestMemory (m_chipset targetMachine) = storeBytes 5 [7] exampleMemory"
    "m_devices (m_chipset targetMachine) = m_devices exampleChipset"
    by (simp_all add: targetMachine_def)
  have "gm_inv (storeBytes 5 [7] exampleMemory)" "funded (storeBytes 5 [7] exampleMemory)"
    by (rule storeBytes_inv; rule exampleMemory_ok)+
  moreover have "covered (storeBytes 5 [7] exampleMemory)" using ok(2) s by (simp only: covered_def)
  ultimately show "restorable exampleMachine targetMachine"
    using s by (simp only: restorable_def Let_def t m mem)
qed

section \<open>Properties\<close>

text \<open>
  C6. A snapshot restores the machine. Saving a machine in any consistent state succeeds, and loading the
  file into another machine with the same memory size, chip set variant and I2C population succeeds and
  gives it the processor state, every byte of memory, the registers of the Cchip, Dchip and Pchip, both
  serial ports, the interrupt controllers with the mirrored line, the flash and EEPROM contents and the
  staged firmware, with its start address and mode, of the saved one; what the format leaves out of the
  chip set stays that of the target machine (chipset\_restore), and the initial PAL base of the
  firmware descriptor is the load address.
\<close>

theorem snapshot_restores_machine:
  assumes "saveable L m" "restorable m m0" "m_variant (m_cchip (m_chipset m0)) = m_variant (m_cchip (m_chipset m))"
  shows "\<exists>fs1 m1. snapshot_save L SaveSucceeds ts comment path m fs = Some (Inr (cycleCount (m_cpu m)), fs1) \<and>
    snapshot_load L path fs1 m0 = (Inr (cycleCount (m_cpu m)), m1) \<and>
    m_cpu m1 = m_cpu m \<and> m_systemClock m1 = cycleCount (m_cpu m) \<and> memoryBytes m1 = memoryBytes m \<and>
    m_chipset m1 = (chipset_restore (m_chipset m0) (m_chipset m))\<lparr>m_guestMemory := m_guestMemory (m_chipset m1)\<rparr> \<and>
    (\<forall>i < kFlashSize. fl_data (m_flash (m_chipset m1)) i = fl_data (m_flash (m_chipset m)) i) \<and>
    iicContents (m_pcf8584 (m_devices (m_chipset m1))) = iicContents (m_pcf8584 (m_devices (m_chipset m))) \<and>
    m_srmDescriptor m1 = (m_srmDescriptor m)\<lparr>srm_initialPalBase := m_srmLoadPa m\<rparr> \<and>
    m_srmPayload m1 = m_srmPayload m \<and> m_srmLoadPa m1 = m_srmLoadPa m \<and>
    m_palImageRelocated m1 = m_palImageRelocated m \<and> m_loadedStartPc m1 = m_loadedStartPc m \<and>
    m_loadedPalMode m1 = m_loadedPalMode m"
proof -
  obtain body where body: "snapshotBody L ts comment m = Some body"
    and save: "snapshot_save L SaveSucceeds ts comment path m fs =
      Some (Inr (cycleCount (m_cpu m)), fs(path \<mapsto> body @ put_u64 (fnv1a64 body)))"
    using save_succeeds [OF assms(1)] by blast
  obtain mem where mem: "m_size mem = m_size (m_guestMemory (m_chipset m))"
      "\<forall>k < unat (m_size mem). byteAt mem (of_nat k) = byteAt (m_guestMemory (m_chipset m)) (of_nat k)"
    and load: "snapshot_load L path (fs(path \<mapsto> body @ put_u64 (fnv1a64 body))) m0 =
      (Inr (cycleCount (m_cpu m)), loadSrm (m_cpu m) (srmBytes m @ put_u64 (fnv1a64 body))
        (m0\<lparr>m_chipset := chipset_restore ((m_chipset m0)\<lparr>m_guestMemory := mem\<rparr>) (m_chipset m)\<rparr>))"
    using load_machine [OF assms, of "m_cpu m" "cycleCount (m_cpu m)" "put_u64 (fnv1a64 body)"]
    by (auto simp: snapshot_load_def load_header [OF assms(1) body])
  have "length (m_srmPayload m) < 2 ^ 31"
    "deviceCount (m_pcf8584 (m_devices (m_chipset m0))) = deviceCount (m_pcf8584 (m_devices (m_chipset m)))"
    using assms(1,2) by (simp_all add: saveable_def restorable_def Let_def)
  then show ?thesis
    using save load mem
    by (simp add: srm_load_save chipset_restore_def devices_restore_def flash_restored contents_restored memoryBytes_def Let_def)
qed

theorem snapshot_restores_machine_witness:
  "\<exists>fs1 m1. snapshot_save exampleLayout SaveSucceeds 0 None ''a'' exampleMachine Map.empty = Some (Inr 77, fs1) \<and>
    snapshot_load exampleLayout ''a'' fs1 targetMachine = (Inr 77, m1) \<and>
    m_cpu m1 = m_cpu exampleMachine \<and> m_cpu m1 \<noteq> m_cpu targetMachine \<and>
    memoryBytes m1 = memoryBytes exampleMachine \<and>
    m_srmPayload m1 = [1, 2] \<and> m_loadedPalMode m1 \<and> \<not> m_loadedPalMode targetMachine"
proof -
  have "m_variant (m_cchip (m_chipset targetMachine)) = m_variant (m_cchip (m_chipset exampleMachine))"
    by (simp add: targetMachine_def exampleMachine_def)
  note r = snapshot_restores_machine [OF example_saveable this, of 0 None "''a''" Map.empty]
  have e: "cycleCount (m_cpu exampleMachine) = 77" "m_srmPayload exampleMachine = [1, 2]" "m_loadedPalMode exampleMachine"
    "\<not> m_loadedPalMode targetMachine" "pc (m_cpu exampleMachine) \<noteq> pc (m_cpu targetMachine)"
    by (simp_all add: exampleMachine_def targetMachine_def exampleCpu_def)
  show ?thesis using r e by (auto intro: exI)
qed



text \<open>
  C11. A damaged snapshot is never loaded: whichever single byte of a saved file changes, and to whatever
  value, in the body or in the checksum itself, the load reports a checksum mismatch and leaves the
  machine exactly as it was.
\<close>

theorem snapshot_corruption_detected:
  assumes "snapshot_save L SaveSucceeds ts comment path m fs = Some (Inr cyc, fs1)" "fs1 path = Some file"
    and "i < length file" "b \<noteq> file ! i"
  shows "snapshot_load L path (fs1(path \<mapsto> file[i := b])) m0 = (Inl ChecksumMismatch, m0)"
proof -
  obtain body where "file = body @ put_u64 (fnv1a64 body)"
    using assms(1,2) by (auto simp: snapshot_save_def)
  then show ?thesis using assms(3,4) loadBytes_corrupt [of i body b L m0] by (simp add: snapshot_load_def)
qed

theorem snapshot_corruption_detected_witness:
  "\<exists>fs1 file. snapshot_save exampleLayout SaveSucceeds 0 None ''a'' exampleMachine Map.empty =
      Some (Inr 77, fs1) \<and> fs1 ''a'' = Some file \<and>
    snapshot_load exampleLayout ''a'' (fs1(''a'' \<mapsto> file[0 := NOT (file ! 0)])) exampleMachine =
      (Inl ChecksumMismatch, exampleMachine)"
proof -
  obtain body where save: "snapshot_save exampleLayout SaveSucceeds 0 None ''a'' exampleMachine Map.empty =
      Some (Inr 77, Map.empty(''a'' \<mapsto> body @ put_u64 (fnv1a64 body)))"
    using save_succeeds [OF example_saveable(1), of 0 None "''a''" Map.empty] by (auto simp: exampleMachine_def)
  have "NOT x \<noteq> x" for x :: u8
  proof
    assume "NOT x = x"
    then have "bit (NOT x) 0 = bit x 0" by simp
    then show False by (simp add: bit_not_iff)
  qed
  then show ?thesis
    using save snapshot_corruption_detected [OF save, of "body @ put_u64 (fnv1a64 body)" 0 _ exampleMachine] by simp
qed

text \<open>The errors that a load finds before it reads the memory section.\<close>

fun foundBeforeMemory :: "SnapshotError \<Rightarrow> bool" where
  "foundBeforeMemory EnsurePageFailed = False"
| "foundBeforeMemory VariantMismatch = False"
| "foundBeforeMemory BlockSizeMismatch = False"
| "foundBeforeMemory _ = True"

text \<open>
  C23. A load that is refused before it reads the memory section leaves the machine exactly as it was:
  when the file cannot be opened, is too short, has a wrong checksum, magic number or version, or is
  of a machine with another memory size. The processor state and the staged firmware are committed
  last: whatever the error, they are as before. Of memory nothing is stated for the three errors that are
  found later (no page for the section, another chip set variant, a chip set section of another size):
  variant\_mismatch\_overwrites\_memory shows that it may have been overwritten.
\<close>

theorem snapshot_failure_contained:
  assumes "snapshot_load L path fs m = (Inl e, m1)"
  shows "(foundBeforeMemory e \<longrightarrow> m1 = m) \<and> m_cpu m1 = m_cpu m \<and> m_systemClock m1 = m_systemClock m \<and>
    m_srmDescriptor m1 = m_srmDescriptor m \<and> m_srmPayload m1 = m_srmPayload m \<and> m_srmLoadPa m1 = m_srmLoadPa m \<and>
    m_palImageRelocated m1 = m_palImageRelocated m \<and> m_loadedStartPc m1 = m_loadedStartPc m \<and>
    m_loadedPalMode m1 = m_loadedPalMode m"
proof -
  have machine: "m1 = m\<lparr>m_chipset := m_chipset m1\<rparr> \<and> (foundBeforeMemory e \<longrightarrow> m1 = m)"
    if "loadMachine cpu cyc ds m = (Inl e, m1)" for cpu cyc ds
    using that by (auto simp: loadMachine_def Let_def split: prod.splits if_splits)
  have "m1 = m\<lparr>m_chipset := m_chipset m1\<rparr> \<and> (foundBeforeMemory e \<longrightarrow> m1 = m)"
    using assms machine
    by (fastforce simp: snapshot_load_def loadBytes_def Let_def split: option.splits prod.splits if_splits)
  moreover have "m_cpu (m\<lparr>m_chipset := c\<rparr>) = m_cpu m" "m_systemClock (m\<lparr>m_chipset := c\<rparr>) = m_systemClock m"
    "m_srmDescriptor (m\<lparr>m_chipset := c\<rparr>) = m_srmDescriptor m" "m_srmPayload (m\<lparr>m_chipset := c\<rparr>) = m_srmPayload m"
    "m_srmLoadPa (m\<lparr>m_chipset := c\<rparr>) = m_srmLoadPa m" "m_palImageRelocated (m\<lparr>m_chipset := c\<rparr>) = m_palImageRelocated m"
    "m_loadedStartPc (m\<lparr>m_chipset := c\<rparr>) = m_loadedStartPc m" "m_loadedPalMode (m\<lparr>m_chipset := c\<rparr>) = m_loadedPalMode m" for c
    by simp_all
  ultimately show ?thesis by metis
qed

text \<open>The snapshot of the example machine is refused by a machine with a smaller memory.\<close>

theorem snapshot_failure_contained_witness:
  "\<exists>fs1 (m0 :: unit Machine). snapshot_save exampleLayout SaveSucceeds 0 None ''a'' exampleMachine Map.empty = Some (Inr 77, fs1) \<and>
     m_size (m_guestMemory (m_chipset m0)) = 0x20000 \<and>
     snapshot_load exampleLayout ''a'' fs1 m0 = (Inl (MemorySizeMismatch 0x30000 0x20000), m0)"
proof -
  obtain body where body: "snapshotBody exampleLayout 0 None exampleMachine = Some body"
    and save: "snapshot_save exampleLayout SaveSucceeds 0 None ''a'' exampleMachine Map.empty =
      Some (Inr (cycleCount (m_cpu exampleMachine)), Map.empty(''a'' \<mapsto> body @ put_u64 (fnv1a64 body)))"
    using save_succeeds [OF example_saveable(1)] by blast
  define fs1 where "fs1 = Map.empty(''a'' \<mapsto> body @ put_u64 (fnv1a64 body))"
  define m0 where "m0 = targetMachine\<lparr>m_chipset := exampleChipset\<lparr>m_guestMemory := exampleMemory\<lparr>m_size := 0x20000\<rparr>\<rparr>\<rparr>"
  have sz: "m_size (m_guestMemory (m_chipset m0)) = 0x20000" by (simp add: m0_def)
  have "m_size (m_guestMemory (m_chipset exampleMachine)) = 0x30000"
    by (simp add: exampleMachine_def exampleChipset_def newChipset_def exampleMemory_eq)
  then obtain m1 where l: "snapshot_load exampleLayout ''a'' fs1 m0 = (Inl (MemorySizeMismatch 0x30000 0x20000), m1)"
    by (simp add: snapshot_load_def fs1_def load_header [OF example_saveable(1) body] loadMachine_def sz)
  have "m1 = m0" using snapshot_failure_contained [OF l] by simp
  then have "snapshot_load exampleLayout ''a'' fs1 m0 = (Inl (MemorySizeMismatch 0x30000 0x20000), m0)" using l by simp
  moreover have "cycleCount (m_cpu exampleMachine) = 77" by (simp add: exampleMachine_def)
  then have "snapshot_save exampleLayout SaveSucceeds 0 None ''a'' exampleMachine Map.empty = Some (Inr 77, fs1)"
    using save by (simp only: fs1_def)
  ultimately show ?thesis using sz by blast
qed

text \<open>
  The order of the restore does not protect memory: a snapshot of another chip set variant is refused
  after it has replaced the whole guest memory.
\<close>

lemma variant_mismatch_overwrites_memory:
  assumes "saveable L m" "restorable m m0" "snapshotBody L ts comment m = Some body"
    and "(ucast (variantCode (m_variant (m_cchip (m_chipset m)))) :: u8) \<noteq> ucast (variantCode (m_variant (m_cchip (m_chipset m0))))"
  shows "\<exists>m1. loadBytes L (body @ put_u64 (fnv1a64 body)) m0 = (Inl VariantMismatch, m1) \<and> memoryBytes m1 = memoryBytes m"
proof -
  obtain mem where mem: "m_size mem = m_size (m_guestMemory (m_chipset m))"
      "\<forall>k < unat (m_size mem). byteAt mem (of_nat k) = byteAt (m_guestMemory (m_chipset m)) (of_nat k)"
    and pages: "loadPages 0 (unat (m_size (m_guestMemory (m_chipset m)))) (memoryBytes m @ snapshotTail m @ put_u64 (fnv1a64 body))
      (m_guestMemory (m_chipset m0)) = (True, snapshotTail m @ put_u64 (fnv1a64 body), mem)"
    using load_memory [OF assms(1,2)] by blast
  have "m_size (m_guestMemory (m_chipset m0)) = m_size (m_guestMemory (m_chipset m))" "length (m_model (m_chipset m)) < 2 ^ 30"
    using assms(1,2) by (simp_all add: saveable_def restorable_def Let_def)
  then show ?thesis
    using pages mem assms(4) unfolding load_header [OF assms(1,3)]
    by (simp add: loadMachine_def snapshotTail_def skip_put_qstring memoryBytes_def Let_def)
qed

end
