(* ===== verification/Spec2Isabelle.thy ===== *)
theory Spec2Isabelle
  imports InflateCorrect Scheduler Snapshot VaxFloat
begin

text \<open>
  Verification of the EmulatR Alpha AXP 21264 (EV6) emulator, core library.

  The program interprets Alpha instructions one at a time. The pipeline driver fetches a word through
  the address translator and the system bus, decodes it with generated tables, calls the instruction
  leaf (grain) it found, drains the leaf's memory effect through the translator and the bus, commits the
  register result and retires the instruction or delivers its trap to PALcode. The translator of mmuLib
  consults the software translation buffers of pteLib. The system bus is the Tsunami chip set, which
  owns the guest memory, the flash, its own registers and the devices behind the PCI bus, and turns
  device activity into processor interrupts. The theories follow this layering.

  \<^item> Prelude: machine words, the lemma collections and the bit-level facts all components use.

  \<^item> ByteOps (coreLib/alpha_int_byteops.h): the BWX and unaligned access family EXT, INS and MSK,
    ZAP and ZAPNOT, CMPBGE, sign extensions, the byte packing helpers and the merge lane of the
    store-quadword-unaligned path, each a function on 64-bit words in the source's order. The
    locale unaligned_lane states what an unaligned access needs of one operand width and is
    interpreted for words, longwords and quadwords.

  \<^item> IntHelpers (coreLib/alpha_int_helpers.h, coreLib/alpha_alu_inl.h, coreLib/bitutils.h):
    integer arithmetic with its overflow tests, 128-bit products, comparisons, shifts and bit
    scans. Each optimised form is related to the mathematical result; the cases in which the
    code deviates are stated as part of the theorems.

  \<^item> PageTable (coreLib/VA_types.h, pteLib/AlphaPte.h, pteLib/Ev6PteFormat.h): modes, access kinds,
    the canonical page table entry and the two decoders from the register formats.

  \<^item> Tlb (pteLib/TlbEntry.h, TlbEpoch.h, SPAMBucket, SPAMShardManager): tags, entries, the epoch
    test, buckets and the sharded manager with its statistics and replacement counter. The
    locale translation_buffer is the contract the translator relies on; it is interpreted for
    the data and the instruction buffer. A replayed ghost list of live translations is the
    abstract state of the no-stale-translation theorem, whose targeted invalidation also drops
    entries that match every address space; the code misses those when they were filled under
    another address space number, which is a hypothesis of the theorem and a lemma of its own.

  \<^item> Translator (mmuLib/Ev6Translator.h, mmuLib/TranslationResult.h, the translation buffer
    registers of palBoxLib/grains/PalEntries.cpp): canonical address check, superpage
    translation, permission check, data and instruction translation, and the HW_MTPR writes
    that fill and invalidate the buffers.

  \<^item> GuestMemory (memoryLib/GuestMemory.h, GuestMemory.cpp): the sparse page store with its accessors,
    block transfers and dirty bitmap, and the lock monitor of load-locked and store-conditional. The
    store refines a flat array of bytes.

  \<^item> FpFormat (fBoxLib/grains/FpFormat.h): the conversions between the memory and the register formats
    of S, T, F and G data.

  \<^item> VaxFloat (fpBoxLib/vax_float.h): the integer kernels of VAX F and G arithmetic on register images,
    specified by the real number an image stands for and its rounding. The cases in which the code
    deviates (a difference that wraps, the root of half the operand) are lemmas of their own.

  \<^item> Grains (eBoxLib/grains/IntArith.cpp, iBoxLib/grains/ControlFlow.cpp, mBoxLib/grains/LoadStore.cpp,
    cBoxLib/grains/CacheOps.cpp, coreLib/BoxResult.h, CpuState.h): the instruction leaves of the integer,
    control, load/store and cache groups, each a function from the decoded grain and its operands to
    the record of its effects.

  \<^item> FloatLeaves (fBoxLib/grains/Float.cpp, FloatVariants.cpp, FpExec.h, coreLib/alpha_fpcr_core.h,
    fp_variant_core.h, fpBoxLib/fp_backend.h, fp_backend_softfloat.cpp): the floating point leaves, the decode
    of their qualifiers, the fold of exceptions into the control register, and the back end. The back end
    is a record of its methods; the SoftFloat back end is a function of the library's entry points.

  \<^item> PalMode (coreLib/PalShadow.h, coreLib/Ev6EntryVectors.h): PAL mode with its shadow registers, and the
    entry vectors.

  \<^item> PalEntries (palBoxLib/grains/PalEntries.cpp, coreLib/IprFields.h, CBoxState.h, HW_IPR.h,
    deviceLib/HwpcbContext.h): CALL_PAL, the services the emulator performs itself, the VMS context switch,
    and the hardware instructions HW_MFPR, HW_MTPR and HW_REI.

  \<^item> Dispatch (grainFactoryLib/generated/DispatchTables.cpp, the decode function of
    pipelineLib/PipelineDriver.h): every generated table, entry for entry, and the lookup. The flags of
    an entry describe what its leaf does, with six PALcode entries as the exceptions.

  \<^item> Pipeline (pipelineLib/PipelineDriver.h, pipelineLib/MemDrainer.h): operand resolution, memory
    effects, commit, retire, trap entry, the step and the run loop, over any bus, any port to guest memory
    and any floating point back end. The abstract specification of the
    lock monitor is the history of what the processors observed; the theorem on store-conditional is about
    accesses within one line, and a lemma shows that a store across two lines keeps the reservation of the
    second. The locale dram_bus is the contract of
    a bus that holds memory; coherence of loads and stores is proved in it.

  \<^item> DataStream: the little-endian byte stream in which snapshots are written. The locale
    snapshot_codec gives, for any codec whose load undoes its save, that a sequence of devices
    saved one after the other is restored.

  \<^item> Uart (deviceLib/Tsunami/Uart16550.h): the console UART, its receive queue, interrupt
    identification, the transmit badge filter, the snapshot request watcher and the snapshot
    codec. The locale bounded_fifo is the queue contract.

  \<^item> Pic (chipsetLib/Pic8259Pair.h): the cascaded interrupt controllers, as a transition system
    over port accesses, input levels and acknowledges.

  \<^item> Cchip (chipsetLib/TsunamiCchip.h and its register specification): the system controller with its
    interrupt latches, memory arrays, arbitration and interval timer, as a transition system.

  \<^item> Pchip (chipsetLib/TsunamiPchip.h, TsunamiDchip.h, TsunamiTig.h, IDeviceHandlers.h): the remaining
    register files and the dispatch of PCI configuration, port and memory accesses to registered
    handlers. The locale device_space is what the chip set needs of the devices: every handler
    keeps their invariant.

  \<^item> FlashRom (chipsetLib/FlashRom.h, FlashRom.cpp): the flash command machine and its backing file.

  \<^item> Iic (deviceLib/Tsunami/IicPcf8584.h): the I2C controller with its register selector, the bus
    transactions and the non-volatile node images.

  \<^item> Chipset (chipsetLib/TsunamiChipset.h, TsunamiChipset.cpp): wiring, address decode, the I/O window,
    the device interrupt chain and the tick. Here dram_bus and device_space are interpreted, so that the
    pipeline's theorems hold of the emulated machine.

  \<^item> Snapshot (systemLib/Snapshot.h, Snapshot.cpp): the snapshot file of a whole machine, its checksum,
    save and load with every error return. The invariant of the chip set over its whole life, with reset
    and the restore of a snapshot among the steps, is proved here. The image of the processor structure is the layout the host
    compiler gives it, an argument with the law that reading it back gives the structure.

  \<^item> Scheduler (schedLib/SmpHarness.h, SmpDrivers.h, MockCpuAgent.h): the dispatcher of the cooperative
    multiprocessor scheduler with its lock arbiter. The sequential driver is a loop, the threaded driver a
    step relation over the program counters of its threads; every schedule of the second ends as the first.

  \<^item> Inflate and InflateCorrect (tools/host_decompressor/src/inflate.c, oracle.c): the firmware
    decompressor and its theorems.

  Conventions. A C++ object is a record, a mutating method a function from the old to the new
  object, a method with a result returns a pair. Machine integers are words of the width of
  the source; a C++ int that the callers keep in a small range is a nat. Values that come from
  outside the program (environment variables, the presence of a console back end, the outcome of host
  file operations) are arguments. Diagnostic output and the environment-gated traces, probes and time
  warps are not modelled: they are off by default. A compare-and-swap loop is one atomic update.

  Signed arithmetic that the source leaves to the two's complement of its compilers wraps.

  Deviations. Where the code does not do what its comments or tests say, the specification follows them,
  the theorem carries the condition under which the code meets it, and a lemma beside it shows the
  behaviour outside: crossing_store_keeps_reservation and user_mode_sets_pal_base (Pipeline),
  asm_entry_missed_under_other_asn (Tlb), misflagged_entries (Dispatch), pal_base_drops_bit_43 (PalEntries),
  misc_write_unsettled and rounding_is_linear (Cchip), nonexistent_memory_asynchronous and
  reset_hides_bridge_line (Chipset), vax_difference_wraps (VaxFloat), threaded_extra_quantum (Scheduler),
  far_match_overlaps (InflateCorrect).

  Bounds. The recursion of the badge filter takes a fuel argument; two levels are enough
  because the re-fed byte is processed in the initial state of the filter, and the theorem on
  the emitted stream states that a result is produced. The loops of the decompressor take fuel
  too; each theorem on them states that they return, with the fuel the caller supplies. The
  rounding loop of the interval timer takes 64 iterations of fuel and is shown to return. Epoch counters
  are 64-bit words that wrap; the theorems on translation buffers assume fewer than 2^64 invalidations
  in the history considered. The number of shards is a power of two of at most 2^32. The run of the
  sequential driver may not end when the quantum is zero, so it is an option, and a lemma gives the
  condition under which it returns.

  Not modelled: the vendored SoftFloat library that the floating point back end calls (its entry points
  are an argument of the back end), the ISA devices other than the UARTs, the interrupt
  controllers and the I2C controller (they are an argument of the chip set), the Titan variant of the chip set, the
  machine's run loop with its host threads, the adapter that puts a processor
  under the scheduler, tracing and configuration. They are listed in the manifest with the reason.
\<close>

end
